(* ===== verification/Prelude.thy ===== *)
theory Prelude
  imports Main "HOL-Library.Word"
begin

text \<open>
  Shared vocabulary of the development: the machine integers of
  \<^verbatim>\<open>include/common/types.h\<close>, the ways a C function can fail to return, a
  result type that carries them, and the generic facts on lists, words and results that the
  component theories rely on.

  A fallible or aborting function returns a value of \<open>'a res\<close>:
  \<^item> \<open>Inl Aborted\<close>: \<^verbatim>\<open>xnd_abort()\<close>, also reached through a failed
    \<^verbatim>\<open>xnd_assert\<close> (assertions are compiled in, the build sets
    \<^verbatim>\<open>DEVELOPMENT=1\<close>) and through \<^verbatim>\<open>__builtin_trap()\<close>;
  \<^item> \<open>Inl (Exited n)\<close>: the process called \<^verbatim>\<open>exit(n)\<close>;
  \<^item> \<open>Inl Undefined\<close>: the C semantics gives the execution no meaning (an access
    outside an object, a dangling pointer, a shift by the width of the type or more);
  \<^item> \<open>Inl Blocked\<close>: the call waits for ever, on a lock that its own thread holds;
  \<^item> \<open>Inr v\<close>: the function returned \<open>v\<close>.
\<close>

unbundle bit_operations_syntax

section \<open>Machine integers\<close>

type_synonym u8 = "8 word"
type_synonym u16 = "16 word"
type_synonym u32 = "32 word"
type_synonym u64 = "64 word"
type_synonym s64 = "64 word"

text \<open>
  \<^verbatim>\<open>pid_t\<close>, file descriptors and \<^verbatim>\<open>int\<close> status codes are HOL integers;
  byte buffers are lists of \<^typ>\<open>u8\<close>; C strings are HOL strings without their
  terminator.
\<close>

type_synonym pid_t = int
type_synonym fd = int
type_synonym bytes = "u8 list"

section \<open>Results\<close>

datatype stop = Aborted | Exited int | Undefined | Blocked

type_synonym 'a res = "stop + 'a"

definition res_bind :: "'a res \<Rightarrow> ('a \<Rightarrow> 'b res) \<Rightarrow> 'b res" where
  "res_bind m f = (case m of Inl e \<Rightarrow> Inl e | Inr v \<Rightarrow> f v)"

definition xnd_assert :: "bool \<Rightarrow> 'a res \<Rightarrow> 'a res" where
  "xnd_assert b k = (if b then k else Inl Aborted)"

named_theorems model_defs \<open>non-recursive definitions of the model, unfolded to evaluate it\<close>
named_theorems inv_intros \<open>preservation of component invariants\<close>

lemma res_bind_simps [simp]:
  "res_bind (Inl e) f = Inl e"
  "res_bind (Inr v) f = f v"
  by (simp_all add: res_bind_def)

lemma res_bind_eq_Inr [simp]:
  "res_bind m f = Inr w \<longleftrightarrow> (\<exists>v. m = Inr v \<and> f v = Inr w)"
  by (cases m) auto

lemma xnd_assert_True [simp]: "xnd_assert True k = k"
  by (simp add: xnd_assert_def)

lemma xnd_assert_False [simp]: "xnd_assert False k = Inl Aborted"
  by (simp add: xnd_assert_def)

lemma xnd_assert_eq_Inr [simp]: "xnd_assert b k = Inr w \<longleftrightarrow> b \<and> k = Inr w"
  by (simp add: xnd_assert_def)

section \<open>Lists\<close>

lemma take_drop_split: "i \<le> j \<Longrightarrow> take i xs @ drop i (take j xs) = take j xs"
  by (metis append_take_drop_id min.absorb1 take_take)

lemma drop_take_split:
  assumes "n \<le> k" and "k \<le> m"
  shows "drop n (take k xs) @ drop k (take m xs) = drop n (take m xs)"
proof -
  have "take k xs = take k (take m xs)"
    using assms(2) by (simp add: min.absorb1)
  moreover have "drop n ys = drop n (take k ys) @ drop k ys" for ys :: "'a list"
  proof (cases "k \<le> length ys")
    case True
    have "drop n ys = drop n (take k ys @ drop k ys)" by simp
    also have "\<dots> = drop n (take k ys) @ drop k ys"
      using True assms(1) by (simp only: drop_append) simp
    finally show ?thesis .
  qed simp
  ultimately show ?thesis by metis
qed

section \<open>Words\<close>

text \<open>Splitting a word at bit \<open>n\<close>: the low part and the shifted high part give it back.\<close>

lemma word_or_split:
  fixes v :: "'a::len word"
  shows "(v AND mask n) OR push_bit n (drop_bit n v) = v"
proof (rule bit_word_eqI)
  fix k assume "k < LENGTH('a)"
  then show "bit ((v AND mask n) OR push_bit n (drop_bit n v)) k \<longleftrightarrow> bit v k"
    by (cases "k < n") (auto simp: bit_simps)
qed

lemma word_and_mask_of_drop_zero:
  fixes v :: "'a::len word"
  assumes "drop_bit n v = 0"
  shows "v AND mask n = v"
  using word_or_split [of v n] assms by simp

lemma push_bit_split:
  fixes v :: "'a::len word"
  shows "push_bit s (v AND mask n) OR push_bit (s + n) (drop_bit n v) = push_bit s v"
proof -
  have "push_bit s v = push_bit s ((v AND mask n) OR push_bit n (drop_bit n v))"
    by (simp add: word_or_split)
  also have "\<dots> = push_bit s (v AND mask n) OR push_bit (s + n) (drop_bit n v)"
    by (simp only: push_bit_or push_bit_push_bit)
  finally show ?thesis by simp
qed

text \<open>Testing a single bit with a power-of-two mask.\<close>

lemma and_bit6_iff: "(b :: u8) AND 0x40 = 0 \<longleftrightarrow> \<not> bit b 6"
  using and_exp_eq_0_iff_not_bit [of b 6] by simp

lemma and_bit7_iff: "(b :: u8) AND 0x80 = 0 \<longleftrightarrow> \<not> bit b 7"
  using and_exp_eq_0_iff_not_bit [of b 7] by simp

lemma mask7_u64: "(0x7F :: u64) = mask 7"
  by (simp add: mask_eq_exp_minus_1)

lemma bit_0x80 [simp]:
  "bit (0x80 :: u8) n \<longleftrightarrow> n = 7"
  "bit (0x80 :: int) n \<longleftrightarrow> n = 7"
proof -
  have "bit (2 ^ 7 :: u8) n \<longleftrightarrow> n = 7" "bit (2 ^ 7 :: int) n \<longleftrightarrow> n = 7"
    unfolding bit_exp_iff by auto
  then show "bit (0x80 :: u8) n \<longleftrightarrow> n = 7" "bit (0x80 :: int) n \<longleftrightarrow> n = 7"
    by simp_all
qed

lemma word_or_split_signed:
  fixes v :: "'a::len word"
  shows "(v AND mask n) OR push_bit n (signed_drop_bit n v) = v"
proof (rule bit_word_eqI)
  fix k assume "k < LENGTH('a)"
  then show "bit ((v AND mask n) OR push_bit n (signed_drop_bit n v)) k \<longleftrightarrow> bit v k"
    by (cases "k < n") (auto simp: bit_simps)
qed

lemma push_bit_split_signed:
  fixes v :: "'a::len word"
  shows "push_bit s (v AND mask n) OR push_bit (s + n) (signed_drop_bit n v) = push_bit s v"
proof -
  have "push_bit s v = push_bit s ((v AND mask n) OR push_bit n (signed_drop_bit n v))"
    by (simp add: word_or_split_signed)
  also have "\<dots> = push_bit s (v AND mask n) OR push_bit (s + n) (signed_drop_bit n v)"
    by (simp only: push_bit_or push_bit_push_bit)
  finally show ?thesis by simp
qed

end
