(* ===== verification/Common.thy ===== *)
theory Common
  imports Prelude
begin

text \<open>
  \<^verbatim>\<open>include/common\<close>: the LEB128 codec of \<^verbatim>\<open>leb128.h\<close>, the portable byte
  swaps of \<^verbatim>\<open>byte_order.h\<close> and the bit sets of \<^verbatim>\<open>bits.h\<close>.
\<close>

section \<open>LEB128\<close>

text \<open>
  An encoder returns the bytes it stores through its output pointer. A decoder takes the
  bytes from its input pointer on and returns the value and the bytes left; reading past
  the end of the buffer and shifting a 64-bit value by 64 or more are undefined.
\<close>

function encode_uleb128 :: "u64 \<Rightarrow> bytes" where
  "encode_uleb128 value =
     (let byte = (ucast (value AND 0x7F) :: u8);
          value' = drop_bit 7 value
      in if value' \<noteq> 0 then (byte OR 0x80) # encode_uleb128 value' else [byte])"
  by pat_completeness auto
termination
proof (relation "measure unat", goal_cases)
  case 1
  show ?case by simp
next
  case prems: (2 v x xa)
  then have "0 < unat v"
    by (cases "v = 0") (auto simp: unat_gt_0)
  then have "unat v div 2 ^ 7 < unat v"
    by (intro div_less_dividend) auto
  with prems show ?case
    by (simp add: unat_drop_bit_eq drop_bit_eq_div unat_div)
qed

declare encode_uleb128.simps [simp del]

fun decode_uleb128_loop :: "u64 \<Rightarrow> nat \<Rightarrow> bytes \<Rightarrow> (u64 \<times> bytes) res" where
  "decode_uleb128_loop result shift [] = Inl Undefined"
| "decode_uleb128_loop result shift (b # p) =
     (if shift \<ge> 64 then Inl Undefined
      else let result' = result OR push_bit shift (ucast b AND 0x7F)
           in if b AND 0x80 \<noteq> 0 then decode_uleb128_loop result' (shift + 7) p
              else Inr (result', p))"

definition decode_uleb128 :: "bytes \<Rightarrow> (u64 \<times> bytes) res" where
  "decode_uleb128 p = decode_uleb128_loop 0 0 p"

text \<open>
  The signed codec keeps its value as a 64-bit word; \<^verbatim>\<open>value >>= 7\<close> on
  \<^verbatim>\<open>s64\<close> is the arithmetic shift \<^const>\<open>signed_drop_bit\<close>.
\<close>

function encode_sleb128 :: "s64 \<Rightarrow> bytes" where
  "encode_sleb128 value =
     (let byte = (ucast (value AND 0x7F) :: u8);
          value' = signed_drop_bit 7 value
      in if value' \<noteq> (if byte AND 0x40 \<noteq> 0 then - 1 else 0)
         then (byte OR 0x80) # encode_sleb128 value' else [byte])"
  by pat_completeness auto
termination
proof (relation "measure (\<lambda>v. nat (if 0 \<le> sint v then sint v else - sint v - 1))", goal_cases)
  case 1
  show ?case by simp
next
  case prems: (2 v byte v')
  have sdb: "sint v' = sint v div 128"
    using prems(2) by (simp add: sint_signed_drop_bit_eq drop_bit_eq_div)
  have "v \<noteq> 0" "v \<noteq> - 1"
    using prems by (auto simp: and_bit6_iff bit_simps)
  then have "sint v \<noteq> 0" "sint v \<noteq> - 1"
    by (metis sint_0 signed_eq_0_iff, metis sint_n1 signed_word_eqI)
  then show ?case
    by (auto simp: sdb)
qed

declare encode_sleb128.simps [simp del]

fun decode_sleb128_loop :: "s64 \<Rightarrow> nat \<Rightarrow> bytes \<Rightarrow> (s64 \<times> nat \<times> u8 \<times> bytes) res" where
  "decode_sleb128_loop result shift [] = Inl Undefined"
| "decode_sleb128_loop result shift (b # p) =
     (if shift \<ge> 64 then Inl Undefined
      else let result' = result OR push_bit shift (ucast b AND 0x7F);
               shift' = shift + 7
           in if b AND 0x80 \<noteq> 0 then decode_sleb128_loop result' shift' p
              else Inr (result', shift', b, p))"

definition sleb128_extend :: "s64 \<times> nat \<times> u8 \<times> bytes \<Rightarrow> (s64 \<times> bytes) res" where
  "sleb128_extend = (\<lambda>(result, shift, byte, p').
     Inr (if shift < 64 \<and> byte AND 0x40 \<noteq> 0 then result OR push_bit shift (- 1)
          else result, p'))"

definition decode_sleb128 :: "bytes \<Rightarrow> (s64 \<times> bytes) res" where
  "decode_sleb128 p = res_bind (decode_sleb128_loop 0 0 p) sleb128_extend"

subsection \<open>The bytes of one step\<close>

lemma leb_byte_value:
  fixes v :: u64
  shows "ucast (ucast (v AND 0x7F) :: u8) AND 0x7F = v AND 0x7F"
    and "ucast ((ucast (v AND 0x7F) :: u8) OR 0x80) AND 0x7F = v AND 0x7F"
  unfolding mask7_u64
  by (rule bit_word_eqI; auto simp: bit_simps)+

lemma leb_byte_flag:
  fixes v :: u64
  shows "(ucast (v AND 0x7F) :: u8) AND 0x80 = 0"
    and "((ucast (v AND 0x7F) :: u8) OR 0x80) AND 0x80 \<noteq> 0"
  unfolding and_bit7_iff mask7_u64
  by (auto simp: bit_simps)

lemma leb_byte_sign:
  fixes v :: u64
  shows "(ucast (v AND 0x7F) :: u8) AND 0x40 = 0 \<longleftrightarrow> \<not> bit v 6"
  unfolding and_bit6_iff mask7_u64
  by (auto simp: bit_simps)

subsection \<open>Round trips\<close>

lemma decode_uleb128_step:
  assumes "s < 64"
  shows "decode_uleb128_loop r s (ucast (v AND 0x7F) # p)
           = Inr (r OR push_bit s (v AND 0x7F), p)"
    and "decode_uleb128_loop r s ((ucast (v AND 0x7F) OR 0x80) # p)
           = decode_uleb128_loop (r OR push_bit s (v AND 0x7F)) (s + 7) p"
  using assms by (simp_all add: Let_def leb_byte_flag leb_byte_value del: push_bit_and)

lemma decode_sleb128_step:
  assumes "s < 64"
  shows "decode_sleb128_loop r s (ucast (v AND 0x7F) # p)
           = Inr (r OR push_bit s (v AND 0x7F), s + 7, ucast (v AND 0x7F), p)"
    and "decode_sleb128_loop r s ((ucast (v AND 0x7F) OR 0x80) # p)
           = decode_sleb128_loop (r OR push_bit s (v AND 0x7F)) (s + 7) p"
  using assms by (simp_all add: Let_def leb_byte_flag leb_byte_value del: push_bit_and)

lemma decode_encode_uleb128_loop:
  assumes "unat v < 2 ^ (64 - s)" and "s < 64"
  shows "decode_uleb128_loop r s (encode_uleb128 v @ rest) = Inr (r OR push_bit s v, rest)"
  using assms
proof (induction v arbitrary: r s rule: encode_uleb128.induct)
  case (1 v)
  show ?case
  proof (cases "drop_bit 7 v = 0")
    case True
    then have "v AND 0x7F = v"
      unfolding mask7_u64 by (rule word_and_mask_of_drop_zero)
    moreover have "encode_uleb128 v = [ucast (v AND 0x7F)]"
      using True by (simp add: encode_uleb128.simps [of v] Let_def)
    ultimately show ?thesis
      using decode_uleb128_step(1) [OF 1(3), of r v rest] by simp
  next
    case False
    have div: "unat (drop_bit 7 v) = unat v div 128"
      by (simp add: unat_drop_bit_eq drop_bit_eq_div unat_div)
    with False have "128 \<le> unat v"
      by (metis div_less not_less unat_eq_zero)
    with 1(2) have "2 ^ 7 < (2::nat) ^ (64 - s)" by simp
    then have s: "s + 7 < 64"
      using power_less_imp_less_exp [of "2::nat" 7 "64 - s"] by simp
    have "64 - s = 7 + (64 - (s + 7))"
      using s by simp
    then have "(2::nat) ^ (64 - s) = 2 ^ 7 * 2 ^ (64 - (s + 7))"
      by (metis power_add)
    with 1(2) have "unat v < 2 ^ 7 * 2 ^ (64 - (s + 7))"
      by simp
    then have "unat (drop_bit 7 v) < 2 ^ (64 - (s + 7))"
      unfolding div by (simp add: less_mult_imp_div_less mult.commute)
    note IH = 1(1) [OF refl refl False this s]
    have "encode_uleb128 v = (ucast (v AND 0x7F) OR 0x80) # encode_uleb128 (drop_bit 7 v)"
      using False by (simp add: encode_uleb128.simps [of v] Let_def)
    then have "decode_uleb128_loop r s (encode_uleb128 v @ rest)
        = Inr ((r OR push_bit s (v AND 0x7F)) OR push_bit (s + 7) (drop_bit 7 v), rest)"
      using decode_uleb128_step(2) [OF 1(3)] IH by simp
    then show ?thesis
      using push_bit_split [of s v 7] by (simp only: or.assoc mask7_u64)
  qed
qed

text \<open>
  The signed loop, with the sign extension that follows it: a value that fits in
  \<open>64 - s\<close> bits is read back at shift \<open>s\<close>.
\<close>

lemma encode_sleb128_unfold:
  "encode_sleb128 v =
     (if signed_drop_bit 7 v = (if bit v 6 then - 1 else 0) then [ucast (v AND 0x7F)]
      else (ucast (v AND 0x7F) OR 0x80) # encode_sleb128 (signed_drop_bit 7 v))"
  by (subst encode_sleb128.simps) (simp add: Let_def leb_byte_sign)

lemma sint_small_stops:
  fixes v :: s64
  assumes "- 64 \<le> sint v" "sint v < 64"
  shows "signed_drop_bit 7 v = (if bit v 6 then - 1 else 0)"
proof -
  have sd: "sint (signed_drop_bit 7 v) = sint v div 128"
    by (simp add: sint_signed_drop_bit_eq drop_bit_eq_div)
  have b: "bit v 6 \<longleftrightarrow> odd (sint v div 64)"
    using bit_iff_odd [of "sint v" 6] by (simp add: bit_signed_iff)
  show ?thesis
  proof (cases "sint v < 0")
    case True
    with assms have "sint v div 128 = - 1" "sint v div 64 = - 1" by auto
    with sd b have "bit v 6" "sint (signed_drop_bit 7 v) = sint (- 1 :: s64)" by auto
    then show ?thesis by (simp add: signed_word_eqI)
  next
    case False
    with assms have "sint v div 128 = 0" "sint v div 64 = 0" by auto
    with sd b have "\<not> bit v 6" "sint (signed_drop_bit 7 v) = sint (0 :: s64)" by auto
    then show ?thesis by (simp add: signed_word_eqI)
  qed
qed

lemma decode_encode_sleb128_loop:
  assumes "- (2 ^ (63 - s)) \<le> sint v" and "sint v < 2 ^ (63 - s)" and "s < 64"
  shows "res_bind (decode_sleb128_loop r s (encode_sleb128 v @ rest)) sleb128_extend
           = Inr (r OR push_bit s v, rest)"
  using assms
proof (induction v arbitrary: r s rule: encode_sleb128.induct)
  case (1 v)
  let ?w = "signed_drop_bit 7 v"
  show ?case
  proof (cases "?w = (if bit v 6 then - 1 else 0)")
    case True
    then have enc: "encode_sleb128 v = [ucast (v AND 0x7F)]"
      by (simp add: encode_sleb128_unfold)
    have high: "push_bit (s + 7) ?w =
        (if s + 7 < 64 \<and> bit v 6 then push_bit (s + 7) (- 1) else 0)"
      unfolding True by (auto intro!: bit_word_eqI simp: bit_simps)
    have "res_bind (decode_sleb128_loop r s (encode_sleb128 v @ rest)) sleb128_extend
        = sleb128_extend (r OR push_bit s (v AND 0x7F), s + 7, ucast (v AND 0x7F), rest)"
      unfolding enc append.simps decode_sleb128_step(1) [OF 1(4)] by (rule res_bind_simps)
    also have "\<dots> = Inr ((r OR push_bit s (v AND 0x7F)) OR push_bit (s + 7) ?w, rest)"
      unfolding high sleb128_extend_def prod.case leb_byte_sign
      by (cases "s + 7 < 64 \<and> bit v 6") 
        (simp_all only: not_not or.right_neutral if_True if_False simp_thms)
    also have "\<dots> = Inr (r OR push_bit s v, rest)"
      using push_bit_split_signed [of s v 7] by (simp only: or.assoc mask7_u64)
    finally show ?thesis .
  next
    case False
    have s: "s + 7 < 64"
    proof (rule ccontr)
      assume "\<not> s + 7 < 64"
      then have "(2::int) ^ (63 - s) \<le> 2 ^ 6"
        by (intro power_increasing) auto
      with 1(2,3) sint_small_stops [of v] False show False by auto
    qed
    have sd: "sint ?w = sint v div 128"
      by (simp add: sint_signed_drop_bit_eq drop_bit_eq_div)
    have "63 - s = 7 + (63 - (s + 7))"
      using s by simp
    then have "(2::int) ^ (63 - s) = 2 ^ 7 * 2 ^ (63 - (s + 7))"
      by (metis power_add)
    then have pow: "(2::int) ^ (63 - s) = 128 * 2 ^ (63 - (s + 7))"
      by simp
    have "- (2 ^ (63 - (s + 7))) \<le> sint ?w" "sint ?w < 2 ^ (63 - (s + 7))"
      using 1(2,3) unfolding sd pow by auto
    then have "res_bind (decode_sleb128_loop (r OR push_bit s (v AND 0x7F)) (s + 7)
          (encode_sleb128 ?w @ rest)) sleb128_extend
        = Inr ((r OR push_bit s (v AND 0x7F)) OR push_bit (s + 7) ?w, rest)"
      using 1(1) [OF refl refl, of "s + 7"] False s by (simp add: leb_byte_sign)
    moreover have "encode_sleb128 v = (ucast (v AND 0x7F) OR 0x80) # encode_sleb128 ?w"
      using False by (simp add: encode_sleb128_unfold [of v])
    ultimately have "res_bind (decode_sleb128_loop r s (encode_sleb128 v @ rest)) sleb128_extend
        = Inr ((r OR push_bit s (v AND 0x7F)) OR push_bit (s + 7) ?w, rest)"
      by (simp only: append.simps decode_sleb128_step(2) [OF 1(4)])
    then show ?thesis
      using push_bit_split_signed [of s v 7] by (simp only: or.assoc mask7_u64)
  qed
qed

section \<open>Byte swaps\<close>

text \<open>
  The fallbacks of \<^verbatim>\<open>byte_order.h\<close> for compilers without the builtins, as
  written; the shift of the last term of \<^verbatim>\<open>__bswap32\<close> is to the left.
\<close>

definition bswap16_fallback :: "u16 \<Rightarrow> u16" where
  "bswap16_fallback x = push_bit 8 (x AND 0x00FF) OR drop_bit 8 (x AND 0xFF00)"

definition bswap32_fallback :: "u32 \<Rightarrow> u32" where
  "bswap32_fallback x =
     push_bit 24 (x AND 0x000000FF) OR push_bit 8 (x AND 0x0000FF00) OR
     drop_bit 8 (x AND 0x00FF0000) OR push_bit 24 (x AND 0xFF000000)"

definition bswap64_fallback :: "u64 \<Rightarrow> u64" where
  "bswap64_fallback x =
     push_bit 56 (x AND 0x00000000000000FF) OR push_bit 40 (x AND 0x000000000000FF00) OR
     push_bit 24 (x AND 0x0000000000FF0000) OR push_bit 8 (x AND 0x00000000FF000000) OR
     drop_bit 8 (x AND 0x000000FF00000000) OR drop_bit 24 (x AND 0x0000FF0000000000) OR
     drop_bit 40 (x AND 0x00FF000000000000) OR drop_bit 56 (x AND 0xFF00000000000000)"

text \<open>
  The 32-bit fallback loses the top byte: \<^verbatim>\<open>0xAABBCCDD\<close> becomes
  \<^verbatim>\<open>0xDDCCBB00\<close>, where the builtin gives \<^verbatim>\<open>0xDDCCBBAA\<close>.
\<close>

lemma bswap32_fallback_drops_top_byte:
  "bswap32_fallback 0xAABBCCDD = 0xDDCCBB00"
  "bswap16_fallback 0xAABB = 0xBBAA"
  "bswap64_fallback 0x1122334455667788 = 0x8877665544332211"
  by (simp_all add: bswap16_fallback_def bswap32_fallback_def bswap64_fallback_def)

section \<open>Bit sets\<close>

text \<open>
  \<^verbatim>\<open>test_bit\<close>, \<^verbatim>\<open>set_bit\<close> and \<^verbatim>\<open>clear_bit\<close> of
  \<^verbatim>\<open>bits.h\<close> on a byte array; an index outside of the array is undefined.
\<close>

definition test_bit :: "nat \<Rightarrow> bytes \<Rightarrow> bool res" where
  "test_bit n a =
     (if n div 8 < length a then Inr (a ! (n div 8) AND push_bit (n mod 8) 1 \<noteq> 0)
      else Inl Undefined)"

definition set_bit_in :: "nat \<Rightarrow> bytes \<Rightarrow> bytes res" where
  "set_bit_in n a =
     (if n div 8 < length a
      then Inr (a[n div 8 := (a ! (n div 8)) OR push_bit (n mod 8) 1]) else Inl Undefined)"

definition clear_bit :: "nat \<Rightarrow> bytes \<Rightarrow> bytes res" where
  "clear_bit n a =
     (if n div 8 < length a
      then Inr (a[n div 8 := (a ! (n div 8)) AND NOT (push_bit (n mod 8) 1)]) else Inl Undefined)"

lemma test_bit_bit:
  "test_bit n a = (if n div 8 < length a then Inr (bit (a ! (n div 8)) (n mod 8)) else Inl Undefined)"
proof -
  have "(b :: u8) AND push_bit k 1 \<noteq> 0 \<longleftrightarrow> bit b k" for b k
    using and_exp_eq_0_iff_not_bit [of b k] by (simp add: push_bit_eq_mult)
  then show ?thesis by (simp add: test_bit_def)
qed

lemma test_bit_set_clear:
  assumes "n div 8 < length a"
  shows "res_bind (set_bit_in n a) (test_bit m)
           = (if m = n then Inr True else test_bit m a)"
    and "res_bind (clear_bit n a) (test_bit m)
           = (if m = n then Inr False else test_bit m a)"
proof -
  have pos: "bit (push_bit k 1 :: u8) j \<longleftrightarrow> j = k" if "k < 8" for j k
    using that by (auto simp: bit_simps)
  have eq: "m = n \<longleftrightarrow> m div 8 = n div 8 \<and> m mod 8 = n mod 8"
    by (metis div_mod_decomp)
  have n: "bit (2 ^ (n mod 8) :: u8) j \<longleftrightarrow> j = n mod 8" for j
    using pos [of "n mod 8" j] by simp
  show "res_bind (set_bit_in n a) (test_bit m)
           = (if m = n then Inr True else test_bit m a)"
    unfolding eq set_bit_in_def test_bit_bit using assms
    by (simp add: nth_list_update bit_or_iff n)
  have "m mod 8 < 8" by simp
  then show "res_bind (clear_bit n a) (test_bit m)
           = (if m = n then Inr False else test_bit m a)"
    unfolding eq clear_bit_def test_bit_bit using assms
    by (simp add: nth_list_update bit_and_iff bit_not_iff n)
qed

section \<open>Properties\<close>

text \<open>
  C25: what \<^verbatim>\<open>encode_uleb128\<close> writes, \<^verbatim>\<open>decode_uleb128\<close> reads back,
  whatever follows it in the buffer; no shift reaches the width of the type and no byte
  after the encoding is read.
\<close>

theorem decode_encode_uleb128: "decode_uleb128 (encode_uleb128 v @ rest) = Inr (v, rest)"
  using decode_encode_uleb128_loop [of v 0 0 rest] unsigned_less [of v, where ?'a = nat]
  by (simp add: decode_uleb128_def)

text \<open>
  The signed codec reads back every 64-bit value, with the sign extension that follows
  the decoding loop.
\<close>

theorem decode_encode_sleb128: "decode_sleb128 (encode_sleb128 v @ rest) = Inr (v, rest)"
  using decode_encode_sleb128_loop [of 0 v 0 rest] sint_ge [of v] sint_lt [of v]
  by (simp add: decode_sleb128_def)

end
