(* ===== verification/Proc_List.thy ===== *)
theory Proc_List
  imports Prelude
begin

text \<open>
  \<^verbatim>\<open>coordinator/proc_list.c\<close>: the coordinator's list of connected processes, an
  intrusive doubly linked list of heap nodes.

  The first part translates the pointer code: a heap maps addresses to nodes, a null pointer
  is \<^const>\<open>None\<close>, dereferencing an address that holds no node is
  \<^const>\<open>Undefined\<close>, \<^verbatim>\<open>free\<close> removes the node. The loops over the
  \<^verbatim>\<open>next\<close> pointers need not end on an arbitrary heap, so they are partial functions
  into \<^typ>\<open>'a res option\<close>, \<^const>\<open>None\<close> meaning that the loop does not return.
  The second part states each operation on lists of address/process pairs, and the third
  proves that the pointer code returns and implements them.
\<close>

section \<open>Data\<close>

datatype proc_state =
    PROC_RUNNING
  | PROC_RECV_CKPT_REQUEST
  | PROC_READY_FOR_CKPT
  | PROC_CKPT_IN_PROGRESS
  | PROC_CKPT_COMPLETE
  | PROC_RESTART_IN_PROGRESS
  | PROC_EXITED

text \<open>
  \<^verbatim>\<open>struct proc\<close> without its links, and the node that adds them. The only value
  ever stored in the \<^verbatim>\<open>cleanup\<close> pointer is \<^verbatim>\<open>proc_exit_callback\<close>, so
  the field records whether the pointer is set and the operations take the callback as an
  argument.
\<close>

record proc =
  p_fd :: fd
  p_oob_fd :: fd
  p_xnd_pid :: u32
  p_xnd_ppid :: u32
  p_xnd_pgid :: u32
  p_virt_pid :: pid_t
  p_real_pid :: pid_t
  p_virt_ppid :: pid_t
  p_real_ppid :: pid_t
  p_num_peers :: u32
  p_is_root_of_tree :: bool
  p_state :: proc_state
  p_cleanup :: bool

record proc_node = proc +
  p_next :: "nat option"
  p_prev :: "nat option"

type_synonym heap = "nat \<Rightarrow> proc_node option"

record proc_list =
  pl_head :: "nat option"
  pl_size :: nat

text \<open>
  What the operations do outside of the list is a world \<open>'w\<close>: the callback
  changes it, and \<^verbatim>\<open>kill(pid, 0)\<close> asks it whether a process is gone (the answer
  \<^const>\<open>True\<close> is the failure with \<^verbatim>\<open>ESRCH\<close>).
\<close>

type_synonym 'w callback = "proc \<Rightarrow> 'w \<Rightarrow> 'w"
type_synonym 'w gone = "pid_t \<Rightarrow> 'w \<Rightarrow> bool \<times> 'w"

section \<open>The pointer code\<close>

definition proc_list_init :: proc_list where
  "proc_list_init = \<lparr> pl_head = None, pl_size = 0 \<rparr>"

definition proc_list_add :: "nat \<Rightarrow> heap \<times> proc_list \<Rightarrow> (heap \<times> proc_list) res" where
  "proc_list_add p = (\<lambda>(h, list).
     case h p of
       None \<Rightarrow> Inl Undefined
     | Some n \<Rightarrow>
         let h1 = h(p \<mapsto> n\<lparr> p_prev := None, p_next := pl_head list \<rparr>);
             list1 = list\<lparr> pl_head := Some p \<rparr>
         in res_bind
              (case pl_head list of
                 None \<Rightarrow> Inr h1
               | Some q \<Rightarrow> (case h1 q of
                   None \<Rightarrow> Inl Undefined
                 | Some m \<Rightarrow> Inr (h1(q \<mapsto> m\<lparr> p_prev := Some p \<rparr>))))
              (\<lambda>h2. Inr (h2, list1\<lparr> pl_size := pl_size list + 1 \<rparr>)))"

text \<open>The first conditional of \<^verbatim>\<open>proc_list_remove\<close>, then the second.\<close>

definition unlink_next :: "nat \<Rightarrow> proc_node \<Rightarrow> heap \<times> proc_list \<Rightarrow> (heap \<times> proc_list) res" where
  "unlink_next p n = (\<lambda>(h, list).
     if pl_head list = Some p then
       xnd_assert (p_prev n = None) (Inr (h, list\<lparr> pl_head := p_next n \<rparr>))
     else
       (case p_prev n of
          None \<Rightarrow> Inl Aborted
        | Some b \<Rightarrow> (case h b of
            None \<Rightarrow> Inl Undefined
          | Some m \<Rightarrow> Inr (h(b \<mapsto> m\<lparr> p_next := p_next n \<rparr>), list))))"

definition unlink_prev :: "proc_node \<Rightarrow> heap \<Rightarrow> heap res" where
  "unlink_prev n h =
     (case p_next n of
        None \<Rightarrow> Inr h
      | Some c \<Rightarrow> (case h c of
          None \<Rightarrow> Inl Undefined
        | Some m \<Rightarrow> Inr (h(c \<mapsto> m\<lparr> p_prev := p_prev n \<rparr>))))"

definition proc_list_remove ::
  "'w callback \<Rightarrow> nat \<Rightarrow> heap \<times> proc_list \<times> 'w \<Rightarrow> (heap \<times> proc_list \<times> 'w) res" where
  "proc_list_remove cb p = (\<lambda>(h, list, w).
     case h p of
       None \<Rightarrow> Inl Undefined
     | Some n \<Rightarrow>
         res_bind (unlink_next p n (h, list)) (\<lambda>(h1, list1).
         res_bind (unlink_prev n h1) (\<lambda>h2.
           let w' = (if p_cleanup n then cb (proc.truncate n) w else w)
           in Inr (h2(p := None), list1\<lparr> pl_size := pl_size list1 - 1 \<rparr>, w'))))"

text \<open>
  \<^verbatim>\<open>proc_foreach_safe\<close> reads the successor before the body runs.
\<close>

partial_function (option) proc_list_filter_loop ::
  "'w gone \<Rightarrow> 'w callback \<Rightarrow> nat option \<Rightarrow> heap \<times> proc_list \<times> 'w
     \<Rightarrow> (heap \<times> proc_list \<times> 'w) res option" where
  [code]: "proc_list_filter_loop gone cb cur st =
     (case cur of
        None \<Rightarrow> Some (Inr st)
      | Some p \<Rightarrow>
          (case st of (h, list, w) \<Rightarrow>
             (case h p of
                None \<Rightarrow> Some (Inl Undefined)
              | Some n \<Rightarrow>
                  (case gone (p_real_pid n) w of (dead, w') \<Rightarrow>
                     (case (if dead then proc_list_remove cb p (h, list, w') else Inr (h, list, w')) of
                        Inl e \<Rightarrow> Some (Inl e)
                      | Inr st' \<Rightarrow> proc_list_filter_loop gone cb (p_next n) st')))))"

definition proc_list_filter ::
  "'w gone \<Rightarrow> 'w callback \<Rightarrow> heap \<times> proc_list \<times> 'w \<Rightarrow> (heap \<times> proc_list \<times> 'w) res option" where
  "proc_list_filter gone cb st = proc_list_filter_loop gone cb (pl_head (fst (snd st))) st"

partial_function (option) proc_list_destroy_loop ::
  "'w callback \<Rightarrow> nat option \<Rightarrow> heap \<times> 'w \<Rightarrow> (heap \<times> 'w) res option" where
  [code]: "proc_list_destroy_loop cb cur st =
     (case cur of
        None \<Rightarrow> Some (Inr st)
      | Some p \<Rightarrow>
          (case st of (h, w) \<Rightarrow>
             (case h p of
                None \<Rightarrow> Some (Inl Undefined)
              | Some n \<Rightarrow>
                  proc_list_destroy_loop cb (p_next n)
                    (h(p := None), if p_cleanup n then cb (proc.truncate n) w else w))))"

definition proc_list_destroy ::
  "'w callback \<Rightarrow> heap \<times> proc_list \<times> 'w \<Rightarrow> (heap \<times> 'w) res option" where
  "proc_list_destroy cb = (\<lambda>(h, list, w). proc_list_destroy_loop cb (pl_head list) (h, w))"

text \<open>The lookups run the same loop with their own test.\<close>

partial_function (option) proc_list_find_loop ::
  "(proc_node \<Rightarrow> bool) \<Rightarrow> heap \<Rightarrow> nat option \<Rightarrow> nat option res option" where
  [code]: "proc_list_find_loop P h cur =
     (case cur of
        None \<Rightarrow> Some (Inr None)
      | Some p \<Rightarrow>
          (case h p of
             None \<Rightarrow> Some (Inl Undefined)
           | Some n \<Rightarrow>
               if P n then Some (Inr (Some p)) else proc_list_find_loop P h (p_next n)))"

definition proc_list_find_by_real_pid :: "heap \<Rightarrow> proc_list \<Rightarrow> pid_t \<Rightarrow> nat option res option" where
  "proc_list_find_by_real_pid h list real =
     proc_list_find_loop (\<lambda>n. p_real_pid n = real) h (pl_head list)"

definition proc_list_find_by_virt_pid :: "heap \<Rightarrow> proc_list \<Rightarrow> pid_t \<Rightarrow> nat option res option" where
  "proc_list_find_by_virt_pid h list virt =
     proc_list_find_loop (\<lambda>n. p_virt_pid n = virt) h (pl_head list)"

definition proc_list_find_by_xnd_pid :: "heap \<Rightarrow> proc_list \<Rightarrow> u32 \<Rightarrow> nat option res option" where
  "proc_list_find_by_xnd_pid h list xnd_pid =
     proc_list_find_loop (\<lambda>n. p_xnd_pid n = xnd_pid) h (pl_head list)"

text \<open>The translations return a field of the first match, and \<open>- 1\<close> without one.\<close>

definition field_or_minus_one :: "(proc_node \<Rightarrow> pid_t) \<Rightarrow> heap \<Rightarrow> nat option res option \<Rightarrow> pid_t res option" where
  "field_or_minus_one f h r =
     (case r of
        None \<Rightarrow> None
      | Some (Inl e) \<Rightarrow> Some (Inl e)
      | Some (Inr None) \<Rightarrow> Some (Inr (- 1))
      | Some (Inr (Some p)) \<Rightarrow>
          Some (case h p of None \<Rightarrow> Inl Undefined | Some n \<Rightarrow> Inr (f n)))"

definition proc_list_real_to_virt :: "heap \<Rightarrow> proc_list \<Rightarrow> pid_t \<Rightarrow> pid_t res option" where
  "proc_list_real_to_virt h list real =
     field_or_minus_one p_virt_pid h (proc_list_find_loop (\<lambda>n. p_real_pid n = real) h (pl_head list))"

definition proc_list_virt_to_real :: "heap \<Rightarrow> proc_list \<Rightarrow> pid_t \<Rightarrow> pid_t res option" where
  "proc_list_virt_to_real h list virt =
     field_or_minus_one p_real_pid h (proc_list_find_loop (\<lambda>n. p_virt_pid n = virt) h (pl_head list))"

section \<open>The operations on lists\<close>

type_synonym plist = "(nat \<times> proc) list"

definition plist_remove :: "nat \<Rightarrow> plist \<Rightarrow> plist" where
  "plist_remove a ps = filter (\<lambda>bp. fst bp \<noteq> a) ps"

definition plist_update :: "nat \<Rightarrow> (proc \<Rightarrow> proc) \<Rightarrow> plist \<Rightarrow> plist" where
  "plist_update a f ps = map (\<lambda>(b, p). (b, if b = a then f p else p)) ps"

definition plist_find :: "(proc \<Rightarrow> bool) \<Rightarrow> plist \<Rightarrow> (nat \<times> proc) option" where
  "plist_find P ps = List.find (\<lambda>(_, p). P p) ps"

definition run_cleanup :: "'w callback \<Rightarrow> proc \<Rightarrow> 'w \<Rightarrow> 'w" where
  "run_cleanup cb p w = (if p_cleanup p then cb p w else w)"

fun plist_filter :: "'w gone \<Rightarrow> 'w callback \<Rightarrow> plist \<Rightarrow> 'w \<Rightarrow> plist \<times> 'w" where
  "plist_filter gone cb [] w = ([], w)"
| "plist_filter gone cb ((a, p) # ps) w =
     (let (dead, w1) = gone (p_real_pid p) w
      in if dead then plist_filter gone cb ps (run_cleanup cb p w1)
         else let (ps', w2) = plist_filter gone cb ps w1 in ((a, p) # ps', w2))"

fun plist_destroy :: "'w callback \<Rightarrow> plist \<Rightarrow> 'w \<Rightarrow> 'w" where
  "plist_destroy cb [] w = w"
| "plist_destroy cb ((a, p) # ps) w = plist_destroy cb ps (run_cleanup cb p w)"

definition plist_real_to_virt :: "plist \<Rightarrow> pid_t \<Rightarrow> pid_t" where
  "plist_real_to_virt ps real =
     (case plist_find (\<lambda>p. p_real_pid p = real) ps of None \<Rightarrow> - 1 | Some ap \<Rightarrow> p_virt_pid (snd ap))"

definition plist_virt_to_real :: "plist \<Rightarrow> pid_t \<Rightarrow> pid_t" where
  "plist_virt_to_real ps virt =
     (case plist_find (\<lambda>p. p_virt_pid p = virt) ps of None \<Rightarrow> - 1 | Some ap \<Rightarrow> p_real_pid (snd ap))"

section \<open>Representation\<close>

text \<open>
  \<open>dllseg h pr c ps pr' c'\<close>: from the pointer \<open>c\<close>, whose node has
  \<^verbatim>\<open>prev = pr\<close>, the nodes of \<open>ps\<close> follow in order; \<open>pr'\<close> is the
  last of them (or \<open>pr\<close>) and \<open>c'\<close> its \<^verbatim>\<open>next\<close> pointer.
\<close>

fun dllseg :: "heap \<Rightarrow> nat option \<Rightarrow> nat option \<Rightarrow> plist \<Rightarrow> nat option \<Rightarrow> nat option \<Rightarrow> bool" where
  "dllseg h pr c [] pr' c' \<longleftrightarrow> c = c' \<and> pr = pr'"
| "dllseg h pr c ((a, p) # ps) pr' c' \<longleftrightarrow>
     c = Some a \<and>
     (\<exists>n. h a = Some n \<and> p_prev n = pr \<and> proc.truncate n = p \<and>
          dllseg h (Some a) (p_next n) ps pr' c')"

definition proc_list_rep :: "heap \<Rightarrow> proc_list \<Rightarrow> plist \<Rightarrow> bool" where
  "proc_list_rep h list ps \<longleftrightarrow>
     distinct (map fst ps) \<and> pl_size list = length ps \<and>
     (\<exists>lst. dllseg h None (pl_head list) ps lst None)"

lemma truncate_links [simp]:
  "proc.truncate (n\<lparr> p_next := x \<rparr>) = proc.truncate n"
  "proc.truncate (n\<lparr> p_prev := x \<rparr>) = proc.truncate n"
  by (simp_all add: proc.truncate_def)

lemma truncate_fields [simp]:
  "p_fd (proc.truncate n) = p_fd n"
  "p_oob_fd (proc.truncate n) = p_oob_fd n"
  "p_xnd_pid (proc.truncate n) = p_xnd_pid n"
  "p_virt_pid (proc.truncate n) = p_virt_pid n"
  "p_real_pid (proc.truncate n) = p_real_pid n"
  "p_real_ppid (proc.truncate n) = p_real_ppid n"
  "p_state (proc.truncate n) = p_state n"
  "p_cleanup (proc.truncate n) = p_cleanup n"
  by (simp_all add: proc.truncate_def)

lemma dllseg_append:
  "dllseg h pr c (xs @ ys) pr' c' \<longleftrightarrow>
     (\<exists>m d. dllseg h pr c xs m d \<and> dllseg h m d ys pr' c')"
  by (induction xs arbitrary: pr c) (auto, blast+)

text \<open>A segment depends only on the nodes it holds.\<close>

lemma dllseg_cong:
  assumes "\<And>a. a \<in> fst ` set ps \<Longrightarrow> h' a = h a"
  shows "dllseg h' pr c ps pr' c' \<longleftrightarrow> dllseg h pr c ps pr' c'"
  using assms by (induction ps arbitrary: pr c) auto

lemma dllseg_upd_other [simp]:
  "a \<notin> fst ` set ps \<Longrightarrow> dllseg (h(a := x)) pr c ps pr' c' \<longleftrightarrow> dllseg h pr c ps pr' c'"
  by (rule dllseg_cong) auto

text \<open>Relinking the first and the last node of a segment.\<close>

lemma dllseg_set_prev:
  assumes "dllseg h pr c ((a, p) # ps) pr' c'" and "a \<notin> fst ` set ps" and "h a = Some n"
  shows "dllseg (h(a \<mapsto> n\<lparr> p_prev := q \<rparr>)) q c ((a, p) # ps) pr' c'"
  using assms by auto

lemma dllseg_set_next:
  assumes "dllseg h pr c (xs @ [(a, p)]) pr' c'" and "a \<notin> fst ` set xs" and "h a = Some n"
  shows "dllseg (h(a \<mapsto> n\<lparr> p_next := d \<rparr>)) pr c (xs @ [(a, p)]) (Some a) d"
  using assms by (auto simp: dllseg_append)

lemma dllseg_last: "dllseg h pr c (xs @ [(a, p)]) pr' c' \<Longrightarrow> pr' = Some a"
  by (auto simp: dllseg_append)

lemma dllseg_next:
  "dllseg h pr c ps lst None \<Longrightarrow> c = (case ps of [] \<Rightarrow> None | (b, _) # _ \<Rightarrow> Some b)"
  by (cases ps) auto

lemma dllseg_head_notin:
  assumes "dllseg h pr c xs m (Some a)" and "a \<notin> fst ` set xs" and "c = Some a"
  shows "xs = []"
  using assms by (cases xs) auto

section \<open>The pointer code implements the list operations\<close>

lemma proc_list_init_rep: "proc_list_rep h proc_list_init []"
  by (simp add: proc_list_rep_def proc_list_init_def)

lemma proc_list_add_rep:
  assumes rep: "proc_list_rep h list ps" and n: "h a = Some n" and fresh: "a \<notin> fst ` set ps"
  shows "\<exists>h' list'. proc_list_add a (h, list) = Inr (h', list') \<and>
           proc_list_rep h' list' ((a, proc.truncate n) # ps) \<and>
           (\<forall>b. b \<noteq> a \<and> b \<notin> fst ` set ps \<longrightarrow> h' b = h b)"
proof (cases ps)
  case Nil
  then show ?thesis
    using assms by (simp add: proc_list_rep_def proc_list_add_def Let_def)
next
  case (Cons bp qs)
  obtain b p where bp: "bp = (b, p)" by (cases bp)
  with Cons rep obtain m lst where m: "h b = Some m" "pl_head list = Some b"
    and seg: "dllseg h None (Some b) ((b, p) # qs) lst None"
    by (auto simp: proc_list_rep_def)
  from Cons bp fresh rep have ab: "a \<noteq> b" "a \<notin> fst ` set qs" "b \<notin> fst ` set qs"
    by (auto simp: proc_list_rep_def)
  let ?h1 = "h(a \<mapsto> n\<lparr> p_prev := None, p_next := Some b \<rparr>)"
  have "dllseg ?h1 None (Some b) ((b, p) # qs) lst None"
    using seg ab by simp
  from dllseg_set_prev [OF this, of m "Some a"]
  have "dllseg (?h1(b \<mapsto> m\<lparr> p_prev := Some a \<rparr>)) (Some a) (Some b) ((b, p) # qs) lst None"
    using m ab by simp
  then show ?thesis
    using rep n m ab Cons bp
    by (auto simp: proc_list_rep_def proc_list_add_def Let_def)
qed

text \<open>
  The two relinking steps of a removal, on the list split at the removed node.
\<close>

lemma unlink_next_rep:
  assumes seg: "dllseg h None (pl_head list) xs m (Some a)" and a: "a \<notin> fst ` set xs"
    and n: "p_prev n = m" and dist: "distinct (map fst xs)"
  shows "\<exists>h' list'. unlink_next a n (h, list) = Inr (h', list') \<and>
           dllseg h' None (pl_head list') xs m (p_next n) \<and>
           pl_size list' = pl_size list \<and>
           (\<forall>b. b \<notin> fst ` set xs \<longrightarrow> h' b = h b)"
proof (cases xs rule: rev_cases)
  case Nil
  then show ?thesis using seg n by (simp add: unlink_next_def)
next
  case (snoc xs' bp)
  obtain b p where bp: "bp = (b, p)" by (cases bp)
  have "pl_head list \<noteq> Some a"
    using dllseg_head_notin [OF seg a] snoc by auto
  moreover have mb: "m = Some b"
    using dllseg_last seg snoc bp by blast
  moreover obtain k where "h b = Some k"
    using seg snoc bp by (auto simp: dllseg_append)
  moreover have "b \<notin> fst ` set xs'"
    using dist snoc bp by auto
  ultimately show ?thesis
    using seg n snoc bp dllseg_set_next [of h None "pl_head list" xs' b p m "Some a" k "p_next n"]
    by (auto simp: unlink_next_def)
qed

lemma unlink_prev_rep:
  assumes seg: "dllseg h (Some a) (p_next n) ys lst None" and dist: "distinct (map fst ys)"
  shows "\<exists>h'. unlink_prev n h = Inr h' \<and> dllseg h' (p_prev n) (p_next n) ys
             (if ys = [] then p_prev n else lst) None \<and>
           (\<forall>b. b \<notin> fst ` set ys \<longrightarrow> h' b = h b)"
proof (cases ys)
  case Nil
  then show ?thesis using seg by (simp add: unlink_prev_def)
next
  case (Cons bp qs)
  obtain b p where bp: "bp = (b, p)" by (cases bp)
  with Cons seg obtain k where k: "h b = Some k" "p_next n = Some b" by auto
  have "b \<notin> fst ` set qs" using dist Cons bp by auto
  with seg Cons bp k show ?thesis
    using dllseg_set_prev [of h "Some a" "Some b" b p qs lst None k "p_prev n"]
    by (auto simp: unlink_prev_def)
qed

lemma plist_remove_split:
  assumes "distinct (map fst (xs @ (a, p) # ys))"
  shows "plist_remove a (xs @ (a, p) # ys) = xs @ ys"
proof -
  have "filter (\<lambda>bp. fst bp \<noteq> a) xs = xs" "filter (\<lambda>bp. fst bp \<noteq> a) ys = ys"
    using assms by (auto intro!: filter_True)
  then show ?thesis by (simp add: plist_remove_def)
qed

lemma proc_list_remove_split:
  assumes rep: "proc_list_rep h list (xs @ (a, p) # ys)"
  shows "\<exists>h' list' n. h a = Some n \<and> p_next n = (case ys of [] \<Rightarrow> None | (b, _) # _ \<Rightarrow> Some b) \<and>
           proc_list_remove cb a (h, list, w) = Inr (h', list', run_cleanup cb p w) \<and>
           proc_list_rep h' list' (xs @ ys) \<and> h' a = None \<and>
           (\<forall>b. b \<notin> fst ` set (xs @ (a, p) # ys) \<longrightarrow> h' b = h b)"
proof -
  from rep obtain m lst n where
    left: "dllseg h None (pl_head list) xs m (Some a)" and
    n: "h a = Some n" "p_prev n = m" "proc.truncate n = p" and
    right: "dllseg h (Some a) (p_next n) ys lst None" and
    dist: "distinct (map fst (xs @ (a, p) # ys))" and
    sz: "pl_size list = length xs + length ys + 1"
    by (auto simp: proc_list_rep_def dllseg_append)
  have next_n: "p_next n = (case ys of [] \<Rightarrow> None | (b, _) # _ \<Rightarrow> Some b)"
    using right by (rule dllseg_next)
  have disj: "a \<notin> fst ` set xs" "a \<notin> fst ` set ys" "fst ` set xs \<inter> fst ` set ys = {}"
      "distinct (map fst xs)" "distinct (map fst ys)"
    using dist by auto
  obtain h1 list1 where 1: "unlink_next a n (h, list) = Inr (h1, list1)"
    "dllseg h1 None (pl_head list1) xs m (p_next n)" "pl_size list1 = pl_size list"
    "\<forall>b. b \<notin> fst ` set xs \<longrightarrow> h1 b = h b"
    using unlink_next_rep [OF left disj(1) n(2) disj(4)] by blast
  have "dllseg h1 (Some a) (p_next n) ys lst None"
    using right 1(4) disj(3) by (subst dllseg_cong [of _ _ h]) auto
  from unlink_prev_rep [OF this disj(5)] obtain h2 lst' where 2: "unlink_prev n h1 = Inr h2"
    "dllseg h2 m (p_next n) ys lst' None" "\<forall>b. b \<notin> fst ` set ys \<longrightarrow> h2 b = h1 b"
    using n(2) by metis
  have "(h2(a := None)) b = h1 b" if "b \<in> fst ` set xs" for b
    using that 2(3) disj(1,3) by (metis IntI empty_iff fun_upd_other)
  then have "dllseg (h2(a := None)) None (pl_head list1) xs m (p_next n)"
    using 1(2) dllseg_cong [of xs "h2(a := None)" h1] by blast
  moreover have "dllseg (h2(a := None)) m (p_next n) ys lst' None"
    using 2(2) disj by simp
  ultimately have "proc_list_rep (h2(a := None)) (list1\<lparr> pl_size := pl_size list1 - 1 \<rparr>) (xs @ ys)"
    using dist sz 1(3) by (auto simp: proc_list_rep_def dllseg_append)
  moreover have "proc_list_remove cb a (h, list, w) =
      Inr (h2(a := None), list1\<lparr> pl_size := pl_size list1 - 1 \<rparr>, run_cleanup cb p w)"
    using n 1(1) 2(1) by (auto simp: proc_list_remove_def run_cleanup_def Let_def)
  moreover have "\<forall>b. b \<notin> fst ` set (xs @ (a, p) # ys) \<longrightarrow> (h2(a := None)) b = h b"
    using 1(4) 2(3) by (simp add: image_Un)
  ultimately show ?thesis
    using n(1) next_n by auto
qed

lemma proc_list_filter_loop_rep:
  assumes "proc_list_rep h list (xs @ ps)"
  shows "\<exists>h' list'. proc_list_filter_loop gone cb
             (case ps of [] \<Rightarrow> None | (b, _) # _ \<Rightarrow> Some b) (h, list, w)
             = Some (Inr (h', list', snd (plist_filter gone cb ps w))) \<and>
           proc_list_rep h' list' (xs @ fst (plist_filter gone cb ps w)) \<and>
           (\<forall>b. b \<notin> fst ` set (xs @ ps) \<longrightarrow> h' b = h b)"
  using assms
proof (induction ps arbitrary: h list xs w)
  case Nil
  then show ?case by (simp add: proc_list_filter_loop.simps)
next
  case (Cons bp ps)
  obtain a p where bp: "bp = (a, p)" by (cases bp)
  obtain dead w1 where g: "gone (p_real_pid p) w = (dead, w1)" by fastforce
  from Cons.prems bp obtain n where n: "h a = Some n" "proc.truncate n = p"
    and next_n: "p_next n = (case ps of [] \<Rightarrow> None | (b, _) # _ \<Rightarrow> Some b)"
    by (fastforce simp: proc_list_rep_def dllseg_append dest: dllseg_next)
  have pid: "p_real_pid n = p_real_pid p"
    using n(2) by auto
  show ?case
  proof (cases dead)
    case True
    from Cons.prems bp obtain h1 list1 where
      rm: "proc_list_remove cb a (h, list, w1) = Inr (h1, list1, run_cleanup cb p w1)" and
      rep: "proc_list_rep h1 list1 (xs @ ps)" and
      frame: "\<forall>b. b \<notin> fst ` set (xs @ (a, p) # ps) \<longrightarrow> h1 b = h b"
      using proc_list_remove_split [of h list xs a p ps cb w1] by metis
    from Cons.IH [OF rep, of "run_cleanup cb p w1"] show ?thesis
      using True bp g n(1) pid rm frame next_n
      by (subst proc_list_filter_loop.simps) (auto simp: Let_def)
  next
    case False
    from Cons.prems bp have "proc_list_rep h list ((xs @ [(a, p)]) @ ps)" by simp
    from Cons.IH [OF this, of w1] show ?thesis
      using False bp g n(1) pid next_n
      by (subst proc_list_filter_loop.simps) (auto simp: Let_def split: prod.splits)
  qed
qed

lemma proc_list_head:
  "proc_list_rep h list ps \<Longrightarrow> pl_head list = (case ps of [] \<Rightarrow> None | (b, _) # _ \<Rightarrow> Some b)"
  by (cases ps) (auto simp: proc_list_rep_def)

lemma proc_list_find_loop_rep:
  assumes "dllseg h pr c ps lst None" and "\<And>n. P n = Q (proc.truncate n)"
  shows "proc_list_find_loop P h c = Some (Inr (map_option fst (plist_find Q ps)))"
  using assms
  by (induction ps arbitrary: pr c)
    (auto simp: proc_list_find_loop.simps plist_find_def split: prod.splits)

lemma proc_list_destroy_loop_rep:
  assumes "dllseg h pr c ps lst None" and "distinct (map fst ps)"
  shows "proc_list_destroy_loop cb c (h, w) =
           Some (Inr (\<lambda>b. if b \<in> fst ` set ps then None else h b, plist_destroy cb ps w))"
  using assms
proof (induction ps arbitrary: h pr c w)
  case Nil
  then show ?case by (simp add: proc_list_destroy_loop.simps)
next
  case (Cons bp ps)
  obtain a p where bp: "bp = (a, p)" by (cases bp)
  with Cons.prems obtain n where n: "h a = Some n" "proc.truncate n = p" "c = Some a"
    and seg: "dllseg h (Some a) (p_next n) ps lst None" by auto
  have clean: "(if p_cleanup n then cb (proc.truncate n) w else w) = run_cleanup cb p w"
    using n(2) by (auto simp: run_cleanup_def)
  have a: "a \<notin> fst ` set ps" using Cons.prems bp by auto
  then have seg': "dllseg (h(a := None)) (Some a) (p_next n) ps lst None"
    using seg by simp
  have "proc_list_destroy_loop cb (p_next n) (h(a := None), run_cleanup cb p w) =
      Some (Inr (\<lambda>b. if b \<in> fst ` set ps then None else (h(a := None)) b,
        plist_destroy cb ps (run_cleanup cb p w)))"
    by (rule Cons.IH [OF seg']) (use Cons.prems bp in simp)
  moreover have "(\<lambda>b. if b \<in> fst ` set ps then None else (h(a := None)) b) =
      (\<lambda>b. if b \<in> fst ` set (bp # ps) then None else h b)"
    using bp by auto
  ultimately show ?case
    using bp n(1,3) clean by (simp add: proc_list_destroy_loop.simps [of cb "Some a"])
qed

text \<open>Writing a field of a node keeps the links.\<close>

lemma plist_update_simps [simp]:
  "map fst (plist_update a f ps) = map fst ps"
  "fst ` set (plist_update a f ps) = fst ` set ps"
  "length (plist_update a f ps) = length ps"
  by (auto simp: plist_update_def image_image case_prod_unfold)

lemma proc_list_update_rep:
  assumes "proc_list_rep h list ps" and "h a = Some n"
    and "p_next n' = p_next n" "p_prev n' = p_prev n" and "proc.truncate n' = f (proc.truncate n)"
  shows "proc_list_rep (h(a \<mapsto> n')) list (plist_update a f ps)"
proof -
  have "dllseg (h(a \<mapsto> n')) pr c (plist_update a f qs) lst None"
    if "dllseg h pr c qs lst None" for qs pr c lst
    using that assms(2-) by (induction qs arbitrary: pr c) (auto simp: plist_update_def)
  then show ?thesis
    using assms(1) by (auto simp: proc_list_rep_def) blast
qed

text \<open>The lookups from the head.\<close>

lemma plist_find_SomeD:
  assumes "plist_find P ps = Some ap"
  shows "ap \<in> set ps" and "P (snd ap)"
  using assms by (auto simp: plist_find_def find_Some_iff case_prod_unfold)

lemma plist_find_None_iff: "plist_find P ps = None \<longleftrightarrow> (\<forall>ap \<in> set ps. \<not> P (snd ap))"
  by (auto simp: plist_find_def find_None_iff case_prod_unfold)

lemma proc_list_find_rep:
  assumes "proc_list_rep h list ps" and "\<And>n. P n = Q (proc.truncate n)"
  shows "proc_list_find_loop P h (pl_head list) = Some (Inr (map_option fst (plist_find Q ps)))"
proof -
  from assms(1) obtain lst where "dllseg h None (pl_head list) ps lst None"
    by (auto simp: proc_list_rep_def)
  then show ?thesis by (rule proc_list_find_loop_rep) (rule assms(2))
qed

lemma dllseg_node:
  assumes "dllseg h pr c ps lst None" and "(a, p) \<in> set ps"
  shows "\<exists>n. h a = Some n \<and> proc.truncate n = p"
  using assms by (induction ps arbitrary: pr c) auto

lemma proc_list_field_rep:
  assumes rep: "proc_list_rep h list ps" and "\<And>n. P n = Q (proc.truncate n)"
    and f: "\<And>n. f n = g (proc.truncate n)"
  shows "field_or_minus_one f h (proc_list_find_loop P h (pl_head list)) =
           Some (Inr (case plist_find Q ps of None \<Rightarrow> - 1 | Some ap \<Rightarrow> g (snd ap)))"
proof -
  have find: "proc_list_find_loop P h (pl_head list) = Some (Inr (map_option fst (plist_find Q ps)))"
    using rep by (rule proc_list_find_rep) (rule assms(2))
  show ?thesis
  proof (cases "plist_find Q ps")
    case None
    then show ?thesis
      using find by (simp add: field_or_minus_one_def)
  next
    case (Some ap)
    obtain a p where ap: "ap = (a, p)" by (cases ap)
    have "(a, p) \<in> set ps"
      using plist_find_SomeD(1) [OF Some] ap by simp
    then obtain n where "h a = Some n" "proc.truncate n = p"
      using rep dllseg_node unfolding proc_list_rep_def by blast
    then show ?thesis
      using find Some ap f by (simp add: field_or_minus_one_def)
  qed
qed

text \<open>A heap for any list, to run the pointer code on concrete lists.\<close>

fun link_nodes :: "nat option \<Rightarrow> plist \<Rightarrow> heap" where
  "link_nodes pr [] = (\<lambda>_. None)"
| "link_nodes pr ((a, p) # ps) =
     (link_nodes (Some a) ps)(a \<mapsto> proc.extend p
        \<lparr> p_next = (case ps of [] \<Rightarrow> None | (b, _) # _ \<Rightarrow> Some b), p_prev = pr \<rparr>)"

definition heap_of :: "plist \<Rightarrow> heap" where
  "heap_of ps = link_nodes None ps"

definition list_of :: "plist \<Rightarrow> proc_list" where
  "list_of ps = \<lparr> pl_head = (case ps of [] \<Rightarrow> None | (b, _) # _ \<Rightarrow> Some b), pl_size = length ps \<rparr>"

lemma dllseg_link_nodes:
  "distinct (map fst ps) \<Longrightarrow>
   \<exists>lst. dllseg (link_nodes pr ps) pr (case ps of [] \<Rightarrow> None | (b, _) # _ \<Rightarrow> Some b) ps lst None"
proof (induction ps arbitrary: pr)
  case (Cons ap ps)
  obtain a p where ap: "ap = (a, p)" by (cases ap)
  with Cons.prems have "a \<notin> fst ` set ps" by auto
  then show ?case
    using Cons ap by (simp add: proc.truncate_def proc.extend_def del: fun_upd_apply)
      (simp add: fun_upd_apply)
qed simp

lemma heap_of_rep: "distinct (map fst ps) \<Longrightarrow> proc_list_rep (heap_of ps) (list_of ps) ps"
  using dllseg_link_nodes [of ps None]
  by (simp add: proc_list_rep_def heap_of_def list_of_def)

definition sample_proc :: "pid_t \<Rightarrow> pid_t \<Rightarrow> proc" where
  "sample_proc virt real =
     \<lparr> p_fd = 3, p_oob_fd = - 1, p_xnd_pid = 1000, p_xnd_ppid = 999, p_xnd_pgid = 1000,
       p_virt_pid = virt, p_real_pid = real, p_virt_ppid = 1, p_real_ppid = 30,
       p_num_peers = 0, p_is_root_of_tree = False, p_state = PROC_RUNNING, p_cleanup = True \<rparr>"

definition sample_plist :: plist where
  "sample_plist = [(8, sample_proc 9 43), (5, sample_proc 7 41), (2, sample_proc 5 39)]"

lemma sample_rep: "proc_list_rep (heap_of sample_plist) (list_of sample_plist) sample_plist"
  by (rule heap_of_rep) (simp add: sample_plist_def)

section \<open>Properties\<close>

text \<open>
  C17: on a heap that represents the list \<open>ps\<close>, removing a member with the pointer code
  returns without an assertion failure or an invalid access; the new heap represents
  \<open>ps\<close> without the member, its node is freed, its clean-up callback has run once, and no
  node outside of the list has changed.
\<close>

theorem proc_list_remove_refines:
  assumes "proc_list_rep h list ps" and "(a, p) \<in> set ps"
  shows "\<exists>h' list'. proc_list_remove cb a (h, list, w) = Inr (h', list', run_cleanup cb p w) \<and>
           proc_list_rep h' list' (plist_remove a ps) \<and> h' a = None \<and>
           (\<forall>b. b \<notin> fst ` set ps \<longrightarrow> h' b = h b)"
proof -
  from assms(2) obtain xs ys where ps: "ps = xs @ (a, p) # ys"
    by (meson split_list)
  then have "plist_remove a ps = xs @ ys"
    using assms(1) plist_remove_split unfolding proc_list_rep_def by blast
  then show ?thesis
    using proc_list_remove_split [of h list xs a p ys cb w] assms(1) ps by auto
qed

theorem proc_list_remove_refines_witness:
  "\<exists>h' list'. proc_list_remove (\<lambda>p w. p_virt_pid p # w) 5 (heap_of sample_plist, list_of sample_plist, [])
       = Inr (h', list', [7]) \<and>
     proc_list_rep h' list' [(8, sample_proc 9 43), (2, sample_proc 5 39)] \<and> h' 5 = None"
  using proc_list_remove_refines [OF sample_rep, of 5 "sample_proc 7 41" "\<lambda>p w. p_virt_pid p # w" "[]"]
  by (auto simp: sample_plist_def plist_remove_def run_cleanup_def sample_proc_def)

text \<open>
  C18: the sweep over the list, which frees nodes while it walks, always returns on a
  well-formed list; it asks for every member in order whether its process is gone, and
  what is left represents exactly the members whose process still exists.
\<close>

theorem proc_list_filter_refines:
  assumes "proc_list_rep h list ps"
  shows "\<exists>h' list'. proc_list_filter gone cb (h, list, w)
             = Some (Inr (h', list', snd (plist_filter gone cb ps w))) \<and>
           proc_list_rep h' list' (fst (plist_filter gone cb ps w))"
  using proc_list_filter_loop_rep [of h list "[]" ps gone cb w] proc_list_head [OF assms] assms
  by (auto simp: proc_list_filter_def)

theorem proc_list_filter_refines_witness:
  "\<exists>h' list'. proc_list_filter (\<lambda>pid w. (pid < 42, w)) (\<lambda>p w. w @ [p_virt_pid p])
       (heap_of sample_plist, list_of sample_plist, []) = Some (Inr (h', list', [7, 5])) \<and>
     proc_list_rep h' list' [(8, sample_proc 9 43)]"
  using proc_list_filter_refines
    [OF sample_rep, of "\<lambda>pid w. (pid < 42, w)" "\<lambda>p w. w @ [p_virt_pid p]" "[]"]
  by (simp add: sample_plist_def run_cleanup_def sample_proc_def)

text \<open>
  The three lookups and the two pid translations end on a well-formed list and return
  the first match from the head (the translations its field, \<open>- 1\<close> without a match).
\<close>

theorem proc_list_lookup_refines:
  assumes rep: "proc_list_rep h list ps"
  shows "proc_list_find_by_real_pid h list real =
           Some (Inr (map_option fst (plist_find (\<lambda>p. p_real_pid p = real) ps))) \<and>
         proc_list_find_by_virt_pid h list virt =
           Some (Inr (map_option fst (plist_find (\<lambda>p. p_virt_pid p = virt) ps))) \<and>
         proc_list_find_by_xnd_pid h list xnd =
           Some (Inr (map_option fst (plist_find (\<lambda>p. p_xnd_pid p = xnd) ps))) \<and>
         proc_list_real_to_virt h list real = Some (Inr (plist_real_to_virt ps real)) \<and>
         proc_list_virt_to_real h list virt = Some (Inr (plist_virt_to_real ps virt))"
  using rep
  unfolding proc_list_find_by_real_pid_def proc_list_find_by_virt_pid_def
    proc_list_find_by_xnd_pid_def proc_list_real_to_virt_def proc_list_virt_to_real_def
    plist_real_to_virt_def plist_virt_to_real_def
  by (intro conjI proc_list_find_rep proc_list_field_rep) auto

theorem proc_list_lookup_refines_witness:
  "proc_list_virt_to_real (heap_of sample_plist) (list_of sample_plist) 7 = Some (Inr 41) \<and>
   proc_list_real_to_virt (heap_of sample_plist) (list_of sample_plist) 40 = Some (Inr (- 1))"
  using proc_list_lookup_refines [OF sample_rep, of 40 7 0]
  by (simp add: sample_plist_def plist_real_to_virt_def plist_virt_to_real_def plist_find_def
      sample_proc_def)

end
