(* ===== verification/Pid_Table.thy ===== *)
theory Pid_Table
  imports Prelude "HOL-Library.AList"
begin

text \<open>
  \<^verbatim>\<open>virtual_id_table.h\<close>, \<^verbatim>\<open>pid/pid_table_common.cpp\<close> and
  \<^verbatim>\<open>pid/pid_table.cpp\<close>: the table from virtual to real process ids, used by the
  coordinator and by every process under its control, and its maintenance at start-up,
  after a restart and around \<^verbatim>\<open>fork\<close>.

  The \<^verbatim>\<open>unordered_map\<close> is an association list with distinct keys, in iteration
  order. C++ leaves that order open; the laws below hold for every order, since the table
  laws determine all but which of several virtual ids of one real id a reverse lookup finds.
\<close>

section \<open>The table\<close>

type_synonym 'id vtable = "('id \<times> 'id) list"

definition vt_update :: "'id \<Rightarrow> 'id \<Rightarrow> 'id vtable \<Rightarrow> 'id vtable" where
  "vt_update virt real t = AList.update virt real t"

definition vt_erase :: "'id \<Rightarrow> 'id vtable \<Rightarrow> 'id vtable" where
  "vt_erase virt t = AList.delete virt t"

definition virtual_id_exists :: "'id vtable \<Rightarrow> 'id \<Rightarrow> bool" where
  "virtual_id_exists t virt \<longleftrightarrow> map_of t virt \<noteq> None"

definition real_id_exists :: "'id vtable \<Rightarrow> 'id \<Rightarrow> bool" where
  "real_id_exists t real \<longleftrightarrow> list_ex (\<lambda>(_, r). r = real) t"

definition virtual_to_real :: "'id vtable \<Rightarrow> 'id \<Rightarrow> 'id option" where
  "virtual_to_real t virt = map_of t virt"

definition real_to_virtual :: "'id vtable \<Rightarrow> 'id \<Rightarrow> 'id option" where
  "real_to_virtual t real = map_option fst (List.find (\<lambda>(_, r). r = real) t)"

definition vt_wf :: "'id vtable \<Rightarrow> bool" where
  "vt_wf t \<longleftrightarrow> distinct (map fst t)"

section \<open>The interface\<close>

text \<open>
  What the users of the table rely on: lookups after the updates, and a reverse lookup that
  is sound, and complete for the real ids that occur.
\<close>

locale id_table =
  fixes wf :: "'t \<Rightarrow> bool"
    and empty :: 't
    and update :: "'id \<Rightarrow> 'id \<Rightarrow> 't \<Rightarrow> 't"
    and erase :: "'id \<Rightarrow> 't \<Rightarrow> 't"
    and to_real :: "'t \<Rightarrow> 'id \<Rightarrow> 'id option"
    and to_virt :: "'t \<Rightarrow> 'id \<Rightarrow> 'id option"
  assumes wf_empty: "wf empty"
    and wf_update: "wf t \<Longrightarrow> wf (update v r t)"
    and wf_erase: "wf t \<Longrightarrow> wf (erase v t)"
    and to_real_empty: "to_real empty v = None"
    and to_real_update: "to_real (update v r t) v' = (if v' = v then Some r else to_real t v')"
    and to_real_erase: "wf t \<Longrightarrow> to_real (erase v t) v' = (if v' = v then None else to_real t v')"
    and to_virt_sound: "wf t \<Longrightarrow> to_virt t r = Some v \<Longrightarrow> to_real t v = Some r"
    and to_virt_complete: "wf t \<Longrightarrow> to_real t v = Some r \<Longrightarrow> to_virt t r \<noteq> None"
begin

text \<open>Where the real id has a single virtual id the reverse lookup inverts the lookup.\<close>

lemma to_virt_inverse:
  assumes "wf t" and "to_real t v = Some r" and "\<And>v'. to_real t v' = Some r \<Longrightarrow> v' = v"
  shows "to_virt t r = Some v"
  using assms to_virt_complete [OF assms(1,2)] to_virt_sound [OF assms(1)] by fastforce

lemma to_virt_none: "wf t \<Longrightarrow> (\<And>v. to_real t v \<noteq> Some r) \<Longrightarrow> to_virt t r = None"
  using to_virt_sound [of t r] by (cases "to_virt t r") auto

text \<open>Updating in sequence, the later entry wins.\<close>

lemma to_real_update2:
  "to_real (update v' r' (update v r t)) x =
     (if x = v' then Some r' else if x = v then Some r else to_real t x)"
  by (simp add: to_real_update)

lemma to_virt_update_fresh:
  assumes "wf t" and "\<And>v'. to_real t v' \<noteq> Some r"
  shows "to_virt (update v r t) r = Some v"
  using assms wf_update [OF assms(1), of v r]
  by (intro to_virt_inverse) (auto simp: to_real_update split: if_splits)

text \<open>Erasing a list of ids.\<close>

lemma erase_list:
  assumes "wf t"
  shows "wf (fold erase vs t) \<and>
         to_real (fold erase vs t) v = (if v \<in> set vs then None else to_real t v)"
  using assms
proof (induction vs arbitrary: t)
  case (Cons a vs)
  from Cons.IH [OF wf_erase [OF Cons.prems, of a]] Cons.prems show ?case
    by (auto simp: to_real_erase)
qed simp

end

lemma real_to_virtual_SomeD:
  assumes "real_to_virtual t r = Some v"
  shows "(v, r) \<in> set t"
proof -
  from assms obtain x where "List.find (\<lambda>(_, r'). r' = r) t = Some x" "fst x = v"
    by (auto simp: real_to_virtual_def)
  then show ?thesis
    by (cases x) (auto simp: find_Some_iff, metis nth_mem)
qed

lemma real_to_virtual_None_iff: "real_to_virtual t r = None \<longleftrightarrow> r \<notin> snd ` set t"
  by (force simp: real_to_virtual_def find_None_iff)

lemma real_id_exists_iff: "real_id_exists t r \<longleftrightarrow> r \<in> snd ` set t"
  by (force simp: real_id_exists_def list_ex_iff)

interpretation vt: id_table vt_wf "[]" vt_update vt_erase virtual_to_real real_to_virtual
proof
  fix t :: "'a vtable" and v r v' :: 'a
  show "vt_wf ([] :: 'a vtable)" by (simp add: vt_wf_def)
  show "vt_wf t \<Longrightarrow> vt_wf (vt_update v r t)"
    by (simp add: vt_wf_def vt_update_def distinct_update)
  show "vt_wf t \<Longrightarrow> vt_wf (vt_erase v t)"
    by (simp add: vt_wf_def vt_erase_def distinct_delete)
  show "virtual_to_real [] v = None"
    by (simp add: virtual_to_real_def)
  show "virtual_to_real (vt_update v r t) v' = (if v' = v then Some r else virtual_to_real t v')"
    by (simp add: virtual_to_real_def vt_update_def update_conv')
  show "vt_wf t \<Longrightarrow> virtual_to_real (vt_erase v t) v' = (if v' = v then None else virtual_to_real t v')"
    by (simp add: virtual_to_real_def vt_erase_def delete_conv')
  show "vt_wf t \<Longrightarrow> real_to_virtual t r = Some v \<Longrightarrow> virtual_to_real t v = Some r"
    using real_to_virtual_SomeD [of t r v] by (simp add: virtual_to_real_def vt_wf_def map_of_is_SomeI)
  show "vt_wf t \<Longrightarrow> virtual_to_real t v = Some r \<Longrightarrow> real_to_virtual t r \<noteq> None"
    using real_to_virtual_None_iff [of t r]
    by (force simp: virtual_to_real_def dest: map_of_SomeD)
qed

lemmas vt_laws = vt.wf_empty vt.wf_update vt.wf_erase vt.to_real_empty vt.to_real_update vt.to_real_erase

lemma real_id_exists_lookup:
  "vt_wf t \<Longrightarrow> real_id_exists t r \<longleftrightarrow> (\<exists>v. virtual_to_real t v = Some r)"
  by (force simp: real_id_exists_iff virtual_to_real_def vt_wf_def dest: map_of_SomeD)

lemma virtual_id_exists_lookup: "virtual_id_exists t v \<longleftrightarrow> virtual_to_real t v \<noteq> None"
  by (simp add: virtual_id_exists_def virtual_to_real_def)

section \<open>The process's pid table\<close>

text \<open>
  The C interface of \<^verbatim>\<open>pid_table_common.cpp\<close>: a missing id is \<open>- 1\<close>.
\<close>

definition pid_table_virtual_to_real :: "pid_t vtable \<Rightarrow> pid_t \<Rightarrow> pid_t" where
  "pid_table_virtual_to_real t virt = (case virtual_to_real t virt of Some real \<Rightarrow> real | None \<Rightarrow> - 1)"

definition pid_table_real_to_virtual :: "pid_t vtable \<Rightarrow> pid_t \<Rightarrow> pid_t" where
  "pid_table_real_to_virtual t real = (case real_to_virtual t real of Some virt \<Rightarrow> virt | None \<Rightarrow> - 1)"

text \<open>
  The globals of \<^verbatim>\<open>pid_table.cpp\<close>, with the table and whether its mutex is held.
  Locking it twice in the same thread never returns.
\<close>

record pid_globals =
  g_table :: "pid_t vtable"
  g_locked :: bool
  g_virt_pid :: pid_t
  g_real_pid :: pid_t
  g_virt_ppid :: pid_t
  g_real_ppid :: pid_t

definition pid_table_acquire :: "pid_globals \<Rightarrow> pid_globals res" where
  "pid_table_acquire g = (if g_locked g then Inl Blocked else Inr (g\<lparr> g_locked := True \<rparr>))"

definition pid_table_release :: "pid_globals \<Rightarrow> pid_globals" where
  "pid_table_release g = g\<lparr> g_locked := False \<rparr>"

definition pid_table_update :: "pid_t \<Rightarrow> pid_t \<Rightarrow> pid_globals \<Rightarrow> pid_globals" where
  "pid_table_update virt real g = g\<lparr> g_table := vt_update virt real (g_table g) \<rparr>"

definition pid_table_erase :: "pid_t \<Rightarrow> pid_globals \<Rightarrow> pid_globals" where
  "pid_table_erase virt g = g\<lparr> g_table := vt_erase virt (g_table g) \<rparr>"

text \<open>
  \<^verbatim>\<open>getpid\<close> and \<^verbatim>\<open>getppid\<close> are the arguments \<open>pid\<close> and \<open>ppid\<close>.
\<close>

definition pid_table_init_pid_info :: "pid_t \<Rightarrow> pid_t \<Rightarrow> pid_globals \<Rightarrow> pid_globals res" where
  "pid_table_init_pid_info pid ppid g =
     xnd_assert (g_virt_pid g \<noteq> - 1 \<and> g_virt_ppid g \<noteq> - 1)
       (let g1 = g\<lparr> g_real_pid := pid, g_real_ppid := ppid \<rparr>
        in res_bind (pid_table_acquire g1) (\<lambda>g2.
             Inr (pid_table_release
               (pid_table_update (g_virt_ppid g2) (g_real_ppid g2)
                 (pid_table_update (g_virt_pid g2) (g_real_pid g2) g2)))))"

text \<open>
  The loop of \<^verbatim>\<open>pid_table_postrestart\<close> over the entries of the table. It updates
  existing keys only, so the iteration sees the entries the loop started with.
\<close>

fun postrestart_loop ::
  "(pid_t \<Rightarrow> 'w \<Rightarrow> pid_t \<times> 'w) \<Rightarrow> pid_t vtable \<Rightarrow> pid_globals \<times> pid_t list \<times> 'w
     \<Rightarrow> pid_globals \<times> pid_t list \<times> 'w" where
  "postrestart_loop ask [] st = st"
| "postrestart_loop ask ((virt, real) # es) (g, erased, w) =
     (if virt = g_virt_pid g \<or> virt = g_virt_ppid g then postrestart_loop ask es (g, erased, w)
      else let (new_real, w') = ask virt w
           in if new_real = - 1 then postrestart_loop ask es (g, erased @ [virt], w')
              else postrestart_loop ask es (pid_table_update virt new_real g, erased, w'))"

definition pid_table_postrestart ::
  "(pid_t \<Rightarrow> 'w \<Rightarrow> pid_t \<times> 'w) \<Rightarrow> pid_t \<Rightarrow> pid_t \<Rightarrow> pid_globals \<times> 'w \<Rightarrow> (pid_globals \<times> 'w) res" where
  "pid_table_postrestart ask pid ppid = (\<lambda>(g, w).
     let g1 = g\<lparr> g_real_pid := pid, g_real_ppid := ppid \<rparr>
     in res_bind (pid_table_acquire g1) (\<lambda>g2.
        xnd_assert (g_virt_pid g2 \<noteq> - 1 \<and> g_virt_ppid g2 \<noteq> - 1)
          (let g3 = pid_table_update (g_virt_ppid g2) (g_real_ppid g2)
                      (pid_table_update (g_virt_pid g2) (g_real_pid g2) g2);
               (g4, erased, w') = postrestart_loop ask (g_table g3) (g3, [], w)
           in Inr (pid_table_release (fold pid_table_erase erased g4), w'))))"

definition pid_table_atfork_prepare :: "pid_globals \<Rightarrow> pid_globals res" where
  "pid_table_atfork_prepare g = pid_table_acquire g"

definition pid_table_atfork_parent :: "pid_globals \<Rightarrow> pid_globals" where
  "pid_table_atfork_parent g = pid_table_release g"

definition pid_table_atfork_failed :: "pid_globals \<Rightarrow> pid_globals" where
  "pid_table_atfork_failed g = pid_table_release g"

text \<open>
  In the child the mutex is unlocked and initialised afresh, then taken.
\<close>

definition pid_table_atfork_child :: "pid_t \<Rightarrow> pid_t \<Rightarrow> pid_globals \<Rightarrow> pid_globals res" where
  "pid_table_atfork_child pid ppid g =
     res_bind (pid_table_acquire (g\<lparr> g_locked := False \<rparr>)) (\<lambda>g1.
       let g2 = g1\<lparr> g_real_pid := pid, g_real_ppid := ppid \<rparr>;
           g3 = pid_table_update (g_virt_pid g2) (g_real_pid g2) g2
       in xnd_assert (pid_table_virtual_to_real (g_table g3) (g_virt_ppid g3) = g_real_ppid g3)
            (Inr (pid_table_release g3)))"

section \<open>Lemmas\<close>

lemma pid_table_update_sel [simp]:
  "g_table (pid_table_update v r g) = vt_update v r (g_table g)"
  "g_virt_pid (pid_table_update v r g) = g_virt_pid g"
  "g_virt_ppid (pid_table_update v r g) = g_virt_ppid g"
  "g_real_pid (pid_table_update v r g) = g_real_pid g"
  "g_real_ppid (pid_table_update v r g) = g_real_ppid g"
  "g_locked (pid_table_update v r g) = g_locked g"
  by (simp_all add: pid_table_update_def)

lemma fold_pid_table_erase:
  "fold pid_table_erase vs g = g\<lparr> g_table := fold vt_erase vs (g_table g) \<rparr>"
  by (induction vs arbitrary: g) (simp_all add: pid_table_erase_def)

text \<open>
  What the loop leaves in the table, when the coordinator answers \<open>ans v\<close> for \<open>v\<close>:
  refreshed entries, and a list of those to erase.
\<close>

definition postrestart_entry :: "pid_globals \<Rightarrow> (pid_t \<Rightarrow> pid_t) \<Rightarrow> pid_t \<Rightarrow> bool" where
  "postrestart_entry g ans v \<longleftrightarrow> v \<noteq> g_virt_pid g \<and> v \<noteq> g_virt_ppid g \<and> ans v \<noteq> - 1"

lemma postrestart_loop_spec:
  assumes "\<And>v w. fst (ask v w) = ans v" and "vt_wf (g_table g)"
    and "postrestart_loop ask es (g, erased, w) = (g', erased', w')"
  shows "vt_wf (g_table g') \<and> g_virt_pid g' = g_virt_pid g \<and> g_virt_ppid g' = g_virt_ppid g \<and>
         g_real_pid g' = g_real_pid g \<and> g_real_ppid g' = g_real_ppid g \<and>
         set erased' = set erased \<union> {v \<in> fst ` set es. v \<noteq> g_virt_pid g \<and> v \<noteq> g_virt_ppid g \<and> ans v = - 1} \<and>
         (\<forall>v. virtual_to_real (g_table g') v =
            (if v \<in> fst ` set es \<and> postrestart_entry g ans v then Some (ans v)
             else virtual_to_real (g_table g) v))"
  using assms
proof (induction ask es "(g, erased, w)" arbitrary: g erased w rule: postrestart_loop.induct)
  case (1 ask)
  then show ?case by simp
next
  case (2 ask virt real es g erased w)
  obtain w1 where ask: "ask virt w = (ans virt, w1)"
    using 2(4) by (metis prod.collapse)
  consider (own) "virt = g_virt_pid g \<or> virt = g_virt_ppid g"
    | (gone) "\<not> (virt = g_virt_pid g \<or> virt = g_virt_ppid g)" "ans virt = - 1"
    | (found) "\<not> (virt = g_virt_pid g \<or> virt = g_virt_ppid g)" "ans virt \<noteq> - 1"
    by blast
  then show ?case
  proof cases
    case own
    then show ?thesis
      using 2(1) [OF own 2(4,5)] 2(6) by (auto simp: postrestart_entry_def)
  next
    case gone
    then show ?thesis
      using 2(2) [OF gone(1) ask [symmetric] refl gone(2) 2(4,5)] 2(6) ask
      by (auto simp: postrestart_entry_def)
  next
    case found
    then show ?thesis
      using 2(3) [OF found(1) ask [symmetric] refl found(2) 2(4)] 2(5,6) ask
      by (auto simp: postrestart_entry_def vt_laws)
  qed
qed

section \<open>Properties\<close>

text \<open>
  C22: after a restart the table is rebuilt without leaving a stale entry: the process and
  its parent have the pids the system reports now, every other entry has the coordinator's
  current answer, an entry the coordinator cannot translate is gone, no entry is added, and
  the mutex is free again.
\<close>

theorem pid_table_postrestart_correct:
  assumes "vt_wf (g_table g)" and "\<not> g_locked g"
    and "g_virt_pid g \<noteq> - 1" and "g_virt_ppid g \<noteq> - 1" and "g_virt_pid g \<noteq> g_virt_ppid g"
    and answers: "\<And>v w. fst (ask v w) = ans v"
  shows "\<exists>g' w'. pid_table_postrestart ask pid ppid (g, w) = Inr (g', w') \<and>
           vt_wf (g_table g') \<and> \<not> g_locked g' \<and> g_real_pid g' = pid \<and> g_real_ppid g' = ppid \<and>
           (\<forall>v. virtual_to_real (g_table g') v =
              (if v = g_virt_pid g then Some pid
               else if v = g_virt_ppid g then Some ppid
               else if virtual_to_real (g_table g) v = None \<or> ans v = - 1 then None
               else Some (ans v)))"
proof -
  define g3 where "g3 = pid_table_update (g_virt_ppid g) ppid (pid_table_update (g_virt_pid g) pid
    (g\<lparr> g_real_pid := pid, g_real_ppid := ppid, g_locked := True \<rparr>))"
  obtain g4 erased w' where loop: "postrestart_loop ask (g_table g3) (g3, [], w) = (g4, erased, w')"
    by (metis prod_cases3)
  have wf3: "vt_wf (g_table g3)"
    using assms(1) by (simp add: g3_def vt_laws)
  note spec = postrestart_loop_spec [OF answers wf3 loop]
  have run: "pid_table_postrestart ask pid ppid (g, w)
      = Inr (pid_table_release (fold pid_table_erase erased g4), w')"
    using assms loop
    by (simp add: pid_table_postrestart_def pid_table_acquire_def Let_def g3_def)
  have look3: "virtual_to_real (g_table g3) v =
      (if v = g_virt_ppid g then Some ppid else if v = g_virt_pid g then Some pid
       else virtual_to_real (g_table g) v)" for v
    by (simp add: g3_def vt_laws)
  have dom: "v \<in> fst ` set (g_table g3) \<longleftrightarrow> virtual_to_real (g_table g3) v \<noteq> None" for v
    by (simp add: virtual_to_real_def map_of_eq_None_iff)
  have ids: "g_virt_pid g3 = g_virt_pid g" "g_virt_ppid g3 = g_virt_ppid g"
      "g_real_pid g3 = pid" "g_real_ppid g3 = ppid"
    by (simp_all add: g3_def)
  have "virtual_to_real (fold vt_erase erased (g_table g4)) v =
      (if v = g_virt_pid g then Some pid
       else if v = g_virt_ppid g then Some ppid
       else if virtual_to_real (g_table g) v = None \<or> ans v = - 1 then None
       else Some (ans v))" for v
    using spec vt.erase_list [of "g_table g4" erased v] look3 [of v] dom [of v] ids assms(5)
    by (auto simp: postrestart_entry_def)
  then show ?thesis
    using run spec ids vt.erase_list [of "g_table g4" erased]
    by (simp add: pid_table_release_def fold_pid_table_erase)
qed

theorem pid_table_postrestart_correct_witness:
  "\<exists>g'. pid_table_postrestart (\<lambda>v w. (if v = 4 then - 1 else v + 90, w)) 200 100
       (\<lparr> g_table = [(2, 20), (1, 10), (3, 30), (4, 40)], g_locked = False, g_virt_pid = 2,
          g_real_pid = 20, g_virt_ppid = 1, g_real_ppid = 10 \<rparr>, ()) = Inr (g', ()) \<and>
     map (virtual_to_real (g_table g')) [1, 2, 3, 4, 5] = [Some 100, Some 200, Some 93, None, None]"
  using pid_table_postrestart_correct
    [of "\<lparr> g_table = [(2, 20), (1, 10), (3, 30), (4, 40)], g_locked = False, g_virt_pid = 2,
          g_real_pid = 20, g_virt_ppid = 1, g_real_ppid = 10 \<rparr>"
        "\<lambda>v w. (if v = 4 then - 1 else v + 90, w)" "\<lambda>v. if v = 4 then - 1 else v + 90" 200 100 "()"]
  by (auto simp: vt_wf_def virtual_to_real_def)

end
