(* ===== verification/Path.thy ===== *)
theory Path
  imports Prelude
begin

text \<open>
  \<^verbatim>\<open>util/path.c\<close>, \<^verbatim>\<open>util/path.h\<close> and \<^verbatim>\<open>platform/exe.c\<close>: path
  names in buffers of a given size.

  A string is its characters before the terminator. A function that fills a buffer of
  \<open>dstlen\<close> bytes returns its status and, when it stored a string, that string; the
  bounds lemmas show that the string and its terminator fit.
\<close>

section \<open>String functions of the C library\<close>

fun strrchr :: "string \<Rightarrow> char \<Rightarrow> nat option" where
  "strrchr [] c = None"
| "strrchr (x # xs) c =
     (case strrchr xs c of Some i \<Rightarrow> Some (Suc i) | None \<Rightarrow> if x = c then Some 0 else None)"

text \<open>
  \<^verbatim>\<open>strlcpy(dst, src, n)\<close> stores at most \<open>n - 1\<close> characters,
  \<^verbatim>\<open>strlcat(dst, src, n)\<close> appends as long as the result has at most
  \<open>n - 1\<close>.
\<close>

definition strlcpy :: "string \<Rightarrow> nat \<Rightarrow> string" where
  "strlcpy src n = take (n - 1) src"

definition strlcat :: "string \<Rightarrow> string \<Rightarrow> nat \<Rightarrow> string" where
  "strlcat dst src n = (if n \<le> length dst then dst else dst @ take (n - length dst - 1) src)"

text \<open>\<^verbatim>\<open>sizeof('/')\<close> is the size of an \<^verbatim>\<open>int\<close>: in C a character constant is one.\<close>

definition sizeof_char_const :: nat where
  "sizeof_char_const = 4"

definition PATH_MAX :: nat where
  "PATH_MAX = 1024"

section \<open>The functions\<close>

type_synonym path_result = "int \<times> string option"

definition xnd_path_dirname :: "nat \<Rightarrow> string \<Rightarrow> path_result" where
  "xnd_path_dirname dstlen path =
     (if dstlen = 0 then (- 1, None)
      else case strrchr path CHR ''/'' of
             None \<Rightarrow> (0, Some [])
           | Some srclen \<Rightarrow>
               if dstlen \<le> srclen then (- 1, None) else (0, Some (strlcpy path (srclen + 1))))"

definition xnd_path_basename_inplace :: "string \<Rightarrow> string" where
  "xnd_path_basename_inplace path =
     (case strrchr path CHR ''/'' of None \<Rightarrow> path | Some i \<Rightarrow> drop (i + 1) path)"

definition xnd_path_basename :: "nat \<Rightarrow> string \<Rightarrow> path_result" where
  "xnd_path_basename dstlen path =
     (let src = xnd_path_basename_inplace path; srclen = length src
      in if dstlen \<le> srclen then (- 1, None) else (0, Some (strlcpy src (srclen + 1))))"

text \<open>
  \<^verbatim>\<open>dot - src\<close> is negative when the last dot is before the last slash; stored in
  a \<^verbatim>\<open>size_t\<close> it wraps round.
\<close>

definition xnd_path_stem :: "nat \<Rightarrow> string \<Rightarrow> path_result" where
  "xnd_path_stem outlen path =
     (let start = (case strrchr path CHR ''/'' of None \<Rightarrow> 0 | Some i \<Rightarrow> i + 1);
          src = drop start path;
          len = (case strrchr path CHR ''.'' of
                   Some dot \<Rightarrow> nat ((int dot - int start) mod 2 ^ 64)
                 | None \<Rightarrow> length src)
      in if outlen \<le> len then (- 1, None) else (0, Some (strlcpy src (len + 1))))"

definition xnd_path_ext :: "nat \<Rightarrow> string \<Rightarrow> path_result" where
  "xnd_path_ext outlen path =
     (if outlen = 0 then (- 1, None)
      else case strrchr path CHR ''.'' of
             None \<Rightarrow> (0, Some [])
           | Some dot \<Rightarrow>
               let ext = drop (dot + 1) path
               in (if outlen \<le> length ext then - 1 else 0, Some (strlcpy ext outlen)))"

text \<open>
  \<^verbatim>\<open>l[llen - 1]\<close> is read outside of the string when \<open>l\<close> is empty. The
  subtraction \<^verbatim>\<open>llen - sizeof('/')\<close> may wrap, the sum with the later terms does
  not.
\<close>

definition xnd_path_join :: "nat \<Rightarrow> string option \<Rightarrow> string option \<Rightarrow> path_result res" where
  "xnd_path_join outlen lo ro =
     (case (lo, ro) of
        (Some l, Some r) \<Rightarrow>
          let llen = length l; rlen = length r;
              r0 = (r \<noteq> [] \<and> hd r = CHR ''/'')
          in if l = [] then Inl Undefined
             else if last l = CHR ''/'' \<and> r0 then
               let len = llen + rlen + sizeof_char_const - sizeof_char_const
               in if outlen < len then Inr (- 1, None)
                  else Inr (0, Some (strlcat (strlcpy l llen) r len))
             else if last l = CHR ''/'' \<or> r0 then
               let len = llen + rlen + sizeof_char_const
               in if outlen < len then Inr (- 1, None)
                  else Inr (0, Some (strlcat (strlcpy l (llen + 1)) r len))
             else
               let len = llen + sizeof_char_const + rlen + sizeof_char_const
               in if outlen < len then Inr (- 1, None)
                  else Inr (0, Some (strlcat (strlcat (strlcpy l (llen + 1)) ''/'' len) r len))
      | _ \<Rightarrow> Inr (- 1, None))"

text \<open>
  The search through \<^verbatim>\<open>PATH\<close>: \<open>access\<close> answers whether a file exists. The
  candidate is built in a buffer of \<^verbatim>\<open>PATH_MAX\<close> bytes without a length check.
\<close>

fun xnd_path_find_loop :: "(string \<Rightarrow> bool) \<Rightarrow> string \<Rightarrow> string list \<Rightarrow> string option res" where
  "xnd_path_find_loop access file [] = Inr None"
| "xnd_path_find_loop access file (d # ds) =
     (let buf = d @ ''/'' @ file
      in if length buf + 1 > PATH_MAX then Inl Undefined
         else if access buf then Inr (Some buf) else xnd_path_find_loop access file ds)"

fun split_on :: "char \<Rightarrow> string \<Rightarrow> string list" where
  "split_on c [] = [[]]"
| "split_on c (x # xs) =
     (if x = c then [] # split_on c xs
      else case split_on c xs of [] \<Rightarrow> [[x]] | y # ys \<Rightarrow> (x # y) # ys)"

definition xnd_path_find ::
  "string option \<Rightarrow> (string \<Rightarrow> bool) \<Rightarrow> string \<Rightarrow> nat \<Rightarrow> path_result res" where
  "xnd_path_find path_env access file outlen =
     (case path_env of
        None \<Rightarrow> Inr (- 1, None)
      | Some env \<Rightarrow>
          res_bind (xnd_path_find_loop access file (split_on CHR '':'' env)) (\<lambda>found.
            Inr (case found of
                   Some buf \<Rightarrow> (0, Some (take outlen buf))
                 | None \<Rightarrow> (- 1, None))))"

text \<open>\<^verbatim>\<open>_NSGetExecutablePath\<close> is the argument \<open>exe\<close>: the path, or none when it does not fit.\<close>

definition xnd_exe_path :: "(nat \<Rightarrow> string option) \<Rightarrow> nat \<Rightarrow> path_result" where
  "xnd_exe_path exe outlen = (case exe outlen of None \<Rightarrow> (- 1, None) | Some p \<Rightarrow> (0, Some p))"

definition xnd_exe_dir :: "(nat \<Rightarrow> string option) \<Rightarrow> nat \<Rightarrow> path_result" where
  "xnd_exe_dir exe dstlen =
     (case xnd_exe_path exe PATH_MAX of
        (_, None) \<Rightarrow> (- 1, None)
      | (_, Some path) \<Rightarrow>
          (case xnd_path_dirname dstlen path of
             (err, out) \<Rightarrow> if err < 0 then (- 1, None) else (0, out)))"

definition xnd_exe_path_of :: "(nat \<Rightarrow> string option) \<Rightarrow> nat \<Rightarrow> string \<Rightarrow> path_result res" where
  "xnd_exe_path_of exe dstlen name =
     (case xnd_exe_dir exe PATH_MAX of
        (err, dir) \<Rightarrow>
          if err < 0 then Inr (- 1, None)
          else res_bind (xnd_path_join dstlen dir (Some name)) (\<lambda>(err', out).
                 Inr (if err' < 0 then (- 1, None) else (0, out))))"

section \<open>Lemmas\<close>

lemma strrchr_None_iff: "strrchr s c = None \<longleftrightarrow> c \<notin> set s"
  by (induction s) (auto split: option.splits)

lemma strrchr_Some:
  "strrchr s c = Some i \<Longrightarrow> i < length s \<and> s ! i = c \<and> c \<notin> set (drop (Suc i) s)"
  by (induction s arbitrary: i) (auto split: option.splits if_splits simp: strrchr_None_iff)

lemma strrchr_Some_split:
  assumes "strrchr s c = Some i"
  shows "s = take i s @ c # drop (i + 1) s"
  using strrchr_Some [OF assms] id_take_nth_drop [of i s] by simp

lemma strlcpy_full [simp]: "length s < n \<Longrightarrow> strlcpy s n = s"
  by (simp add: strlcpy_def)

lemma strlcat_fits: "length d + length s < n \<Longrightarrow> strlcat d s n = d @ s"
  by (simp add: strlcat_def)

lemma strlcpy_butlast: "strlcpy l (length l) = butlast l"
  by (simp add: strlcpy_def butlast_conv_take)

text \<open>The bytes \<^verbatim>\<open>xnd_path_join\<close> asks for, and the string it stores.\<close>

definition join_need :: "string \<Rightarrow> string \<Rightarrow> nat" where
  "join_need l r =
     length l + length r +
       (if last l = CHR ''/'' \<and> r \<noteq> [] \<and> hd r = CHR ''/'' then 0
        else if last l = CHR ''/'' \<or> r \<noteq> [] \<and> hd r = CHR ''/'' then 4 else 8)"

definition join_string :: "string \<Rightarrow> string \<Rightarrow> string" where
  "join_string l r =
     (if last l = CHR ''/'' \<and> r \<noteq> [] \<and> hd r = CHR ''/'' then butlast l @ r
      else if last l = CHR ''/'' \<or> r \<noteq> [] \<and> hd r = CHR ''/'' then l @ r
      else l @ ''/'' @ r)"

lemma xnd_path_join_eq:
  assumes "l \<noteq> []"
  shows "xnd_path_join outlen (Some l) (Some r) =
           Inr (if outlen < join_need l r then (- 1, None) else (0, Some (join_string l r)))"
proof -
  have "Suc (length (butlast l)) = length l" using assms by simp
  then show ?thesis
    using assms
    by (simp add: xnd_path_join_def join_need_def join_string_def Let_def sizeof_char_const_def
        strlcpy_butlast strlcat_fits)
qed

section \<open>Properties\<close>

text \<open>
  C26: joining two path names into a buffer. Whenever the call reports success the result
  and its terminator fit the buffer, and the result is the two parts with exactly one slash
  between them; a buffer with eight bytes more than the parts together is always enough.
\<close>

theorem xnd_path_join_correct:
  assumes "l \<noteq> []"
  shows "\<exists>err out. xnd_path_join outlen (Some l) (Some r) = Inr (err, out) \<and>
           (err = 0 \<longleftrightarrow> out \<noteq> None) \<and>
           (outlen \<ge> length l + length r + 8 \<longrightarrow> err = 0) \<and>
           (\<forall>s. out = Some s \<longrightarrow> length s < outlen \<and>
              (\<exists>l' r'. s = l' @ CHR ''/'' # r' \<and> l \<in> {l', l' @ ''/''} \<and> r \<in> {r', CHR ''/'' # r'}))"
proof -
  have "Suc (length (butlast l)) = length l" using assms by simp
  then have fits: "length (join_string l r) < join_need l r"
    using assms by (auto simp: join_string_def join_need_def)
  have need: "join_need l r \<le> length l + length r + 8"
    by (auto simp: join_need_def)
  have shape: "\<exists>l' r'. join_string l r = l' @ CHR ''/'' # r' \<and>
      l \<in> {l', l' @ ''/''} \<and> r \<in> {r', CHR ''/'' # r'}"
  proof (cases "last l = CHR ''/''")
    case True
    then have l: "l = butlast l @ ''/''"
      using assms by (metis append_butlast_last_id)
    show ?thesis
    proof (cases "r \<noteq> [] \<and> hd r = CHR ''/''")
      case True
      then have "r = CHR ''/'' # tl r" by (metis list.collapse)
      then show ?thesis using \<open>last l = _\<close> True l
        by (intro exI [of _ "butlast l"] exI [of _ "tl r"]) (simp add: join_string_def)
    next
      case False
      then show ?thesis using \<open>last l = _\<close> l
        by (intro exI [of _ "butlast l"] exI [of _ r]) (auto simp: join_string_def)
    qed
  next
    case nl: False
    show ?thesis
    proof (cases "r \<noteq> [] \<and> hd r = CHR ''/''")
      case True
      then have "r = CHR ''/'' # tl r" by (metis list.collapse)
      then show ?thesis using nl True
        by (intro exI [of _ l] exI [of _ "tl r"]) (simp add: join_string_def)
    next
      case False
      then show ?thesis using nl
        by (intro exI [of _ l] exI [of _ r]) (auto simp: join_string_def)
    qed
  qed
  show ?thesis
    unfolding xnd_path_join_eq [OF assms] using fits need shape by auto
qed

theorem xnd_path_join_correct_witness:
  "xnd_path_join 24 (Some ''epochs/'') (Some ''/ckpt-1000.xnd'') = Inr (0, Some ''epochs/ckpt-1000.xnd'') \<and>
   (\<exists>err out. xnd_path_join 10 (Some ''epochs'') (Some ''x'') = Inr (err, out) \<and> (err = 0 \<longleftrightarrow> out \<noteq> None))"
  using xnd_path_join_correct [of "''epochs''" 10 "''x''"]
  by (simp add: xnd_path_join_eq join_need_def join_string_def)

text \<open>
  the directory name, a slash and the base name of a path give the path back, when the
  path has a slash and the buffers are large enough for it; a path without one has an empty
  directory name and is its own base name.
\<close>

theorem xnd_path_dirname_basename:
  assumes "length path < n"
  shows "\<exists>d b. xnd_path_dirname n path = (0, Some d) \<and> xnd_path_basename n path = (0, Some b) \<and>
           CHR ''/'' \<notin> set b \<and>
           path = (if CHR ''/'' \<in> set path then d @ CHR ''/'' # b else b)"
proof (cases "strrchr path CHR ''/''")
  case None
  then show ?thesis
    using assms strrchr_None_iff [of path "CHR ''/''"]
    by (auto simp: xnd_path_dirname_def xnd_path_basename_def xnd_path_basename_inplace_def Let_def)
next
  case (Some i)
  note i = strrchr_Some [OF Some] and split = strrchr_Some_split [OF Some]
  have "CHR ''/'' \<in> set path" using i by (metis nth_mem)
  then show ?thesis
    using assms Some i split
    by (auto simp: xnd_path_dirname_def xnd_path_basename_def xnd_path_basename_inplace_def Let_def
        strlcpy_def)
qed

theorem xnd_path_dirname_basename_witness:
  "xnd_path_dirname 32 ''/usr/lib/libxnd.dylib'' = (0, Some ''/usr/lib'') \<and>
   (\<exists>d b. xnd_path_dirname 32 ''/usr/lib/libxnd.dylib'' = (0, Some d) \<and>
      xnd_path_basename 32 ''/usr/lib/libxnd.dylib'' = (0, Some b) \<and> d @ CHR ''/'' # b = ''/usr/lib/libxnd.dylib'')"
  using xnd_path_dirname_basename [of "''/usr/lib/libxnd.dylib''" 32]
  by (auto simp: xnd_path_dirname_def strlcpy_def)

end
