(* ===== verification/Prog.thy ===== *)
theory Prog
  imports Prelude
begin

text \<open>
  Programs with state. A command over a state \<open>'s\<close> returns no result when it runs for
  ever, and otherwise a result of type \<^typ>\<open>'a res\<close> together with the state it was
  reached in, also when the program stopped: the clean-up a process does before it exits
  stays visible. \<^const>\<open>res_bind\<close> is the same construction for code without state.

  The second half is a small Hoare calculus for these commands. \<open>hoare P m Q E\<close> bounds
  what \<open>m\<close> can do from states with \<open>P\<close>: \<open>Q\<close> holds of what it returns
  and \<open>E\<close> of a stop. \<open>returns\<close> states in addition that it returns.
\<close>

type_synonym ('s, 'a) prog = "'s \<Rightarrow> ('a res \<times> 's) option"

definition ret :: "'a \<Rightarrow> ('s, 'a) prog" where
  "ret a = (\<lambda>s. Some (Inr a, s))"

definition halt :: "stop \<Rightarrow> ('s, 'a) prog" where
  "halt e = (\<lambda>s. Some (Inl e, s))"

definition bnd :: "('s, 'a) prog \<Rightarrow> ('a \<Rightarrow> ('s, 'b) prog) \<Rightarrow> ('s, 'b) prog" where
  "bnd m f = (\<lambda>s. case m s of
       None \<Rightarrow> None
     | Some (Inl e, s') \<Rightarrow> Some (Inl e, s')
     | Some (Inr a, s') \<Rightarrow> f a s')"

definition sq :: "('s, 'a) prog \<Rightarrow> ('s, 'b) prog \<Rightarrow> ('s, 'b) prog" where
  "sq m k = bnd m (\<lambda>_. k)"

definition gets :: "('s \<Rightarrow> 'a) \<Rightarrow> ('s, 'a) prog" where
  "gets f = (\<lambda>s. Some (Inr (f s), s))"

definition modify :: "('s \<Rightarrow> 's) \<Rightarrow> ('s, unit) prog" where
  "modify f = (\<lambda>s. Some (Inr (), f s))"

definition assert_p :: "bool \<Rightarrow> ('s, unit) prog" where
  "assert_p b = (if b then ret () else halt Aborted)"

definition lift_res :: "'a res \<Rightarrow> ('s, 'a) prog" where
  "lift_res r = (\<lambda>s. Some (r, s))"

text \<open>A command over one component of the state.\<close>

definition zoom :: "('s \<Rightarrow> 't) \<Rightarrow> ('t \<Rightarrow> 's \<Rightarrow> 's) \<Rightarrow> ('t, 'a) prog \<Rightarrow> ('s, 'a) prog" where
  "zoom get put m = (\<lambda>s. case m (get s) of None \<Rightarrow> None | Some (r, t) \<Rightarrow> Some (r, put t s))"

text \<open>Running a command for every element of a list, in order.\<close>

fun each :: "('a \<Rightarrow> ('s, unit) prog) \<Rightarrow> 'a list \<Rightarrow> ('s, unit) prog" where
  "each f [] = ret ()"
| "each f (x # xs) = sq (f x) (each f xs)"

text \<open>
  Repeating a command until it answers with a result: the loops of the program that need
  not end.
\<close>

partial_function (option) repeat_until :: "('s, 'a option) prog \<Rightarrow> ('s, 'a) prog" where
  [code]: "repeat_until body s =
     (case body s of
        None \<Rightarrow> None
      | Some (r, s') \<Rightarrow> (case r of
          Inl e \<Rightarrow> Some (Inl e, s')
        | Inr None \<Rightarrow> repeat_until body s'
        | Inr (Some a) \<Rightarrow> Some (Inr a, s')))"

lemmas prog_defs = ret_def halt_def bnd_def sq_def gets_def modify_def assert_p_def lift_res_def zoom_def

lemma bnd_ret [simp]: "bnd (ret a) f = f a"
  by (simp add: bnd_def ret_def)

lemma bnd_halt [simp]: "bnd (halt e) f = halt e"
  by (simp add: bnd_def halt_def)

section \<open>Weakest preconditions\<close>

definition wp :: "('s, 'a) prog \<Rightarrow> ('a \<Rightarrow> 's \<Rightarrow> bool) \<Rightarrow> (stop \<Rightarrow> 's \<Rightarrow> bool) \<Rightarrow> 's \<Rightarrow> bool" where
  "wp m Q E s = (case m s of
       None \<Rightarrow> True
     | Some (r, s') \<Rightarrow> (case r of Inl e \<Rightarrow> E e s' | Inr a \<Rightarrow> Q a s'))"

lemma wp_ret [simp]: "wp (ret a) Q E s = Q a s"
  by (simp add: wp_def ret_def)

lemma wp_halt [simp]: "wp (halt e) Q E s = E e s"
  by (simp add: wp_def halt_def)

lemma wp_gets [simp]: "wp (gets f) Q E s = Q (f s) s"
  by (simp add: wp_def gets_def)

lemma wp_modify [simp]: "wp (modify g) Q E s = Q () (g s)"
  by (simp add: wp_def modify_def)

lemma wp_bnd [simp]: "wp (bnd m k) Q E s = wp m (\<lambda>a. wp (k a) Q E) E s"
  by (simp add: wp_def bnd_def split: option.splits sum.splits)

lemma wp_sq [simp]: "wp (sq m n) Q E s = wp m (\<lambda>_. wp n Q E) E s"
  by (simp add: sq_def)

lemma wp_assert [simp]: "wp (assert_p b) Q E s \<longleftrightarrow> (b \<longrightarrow> Q () s) \<and> (\<not> b \<longrightarrow> E Aborted s)"
  by (simp add: assert_p_def)

lemma wp_lift_res [simp]:
  "wp (lift_res r) Q E s \<longleftrightarrow> (\<forall>e. r = Inl e \<longrightarrow> E e s) \<and> (\<forall>a. r = Inr a \<longrightarrow> Q a s)"
  by (cases r) (simp_all add: wp_def lift_res_def)

lemma wp_if [simp]:
  "wp (if b then m else n) Q E s \<longleftrightarrow> (b \<longrightarrow> wp m Q E s) \<and> (\<not> b \<longrightarrow> wp n Q E s)"
  by simp

lemma wp_case_option [simp]:
  "wp (case x of None \<Rightarrow> m | Some a \<Rightarrow> k a) Q E s \<longleftrightarrow>
     (x = None \<longrightarrow> wp m Q E s) \<and> (\<forall>a. x = Some a \<longrightarrow> wp (k a) Q E s)"
  by (simp split: option.split)

lemma wp_case_prod [simp]:
  "wp (case x of (a, b) \<Rightarrow> k a b) Q E s \<longleftrightarrow> (\<forall>a b. x = (a, b) \<longrightarrow> wp (k a b) Q E s)"
  by (simp split: prod.split)

lemma wp_mono:
  assumes "wp m Q' E' s" and "\<And>a s'. Q' a s' \<Longrightarrow> Q a s'" and "\<And>e s'. E' e s' \<Longrightarrow> E e s'"
  shows "wp m Q E s"
  using assms by (auto simp: wp_def split: option.splits sum.splits)

section \<open>Hoare triples\<close>

definition hoare :: "('s \<Rightarrow> bool) \<Rightarrow> ('s, 'a) prog \<Rightarrow> ('a \<Rightarrow> 's \<Rightarrow> bool) \<Rightarrow> (stop \<Rightarrow> 's \<Rightarrow> bool) \<Rightarrow> bool" where
  "hoare P m Q E \<longleftrightarrow> (\<forall>s. P s \<longrightarrow> wp m Q E s)"

definition returns :: "('s \<Rightarrow> bool) \<Rightarrow> ('s, 'a) prog \<Rightarrow> ('a \<Rightarrow> 's \<Rightarrow> bool) \<Rightarrow> bool" where
  "returns P m Q \<longleftrightarrow> (\<forall>s. P s \<longrightarrow> (\<exists>a s'. m s = Some (Inr a, s') \<and> Q a s'))"

lemma hoareI: "(\<And>s. P s \<Longrightarrow> wp m Q E s) \<Longrightarrow> hoare P m Q E"
  by (simp add: hoare_def)

text \<open>Using a triple of a called command inside a larger one.\<close>

lemma wp_hoare:
  assumes "hoare P m Q' E" and "P s" and "\<And>a s'. Q' a s' \<Longrightarrow> Q a s'"
  shows "wp m Q E s"
  using assms unfolding hoare_def by (blast intro: wp_mono)

lemma hoareD:
  assumes "hoare P m Q E" and "P s" and "m s = Some (Inr a, s')"
  shows "Q a s'"
  using assms unfolding hoare_def wp_def by fastforce

lemma hoare_stopD:
  assumes "hoare P m Q E" and "P s" and "m s = Some (Inl e, s')"
  shows "E e s'"
  using assms unfolding hoare_def wp_def by fastforce

lemma hoare_weaken:
  assumes "hoare P' m Q' E'" and "\<And>s. P s \<Longrightarrow> P' s" and "\<And>a s. Q' a s \<Longrightarrow> Q a s"
    and "\<And>e s. E' e s \<Longrightarrow> E e s"
  shows "hoare P m Q E"
  using assms unfolding hoare_def by (blast intro: wp_mono)

lemma hoare_pre: "hoare P' m Q E \<Longrightarrow> (\<And>s. P s \<Longrightarrow> P' s) \<Longrightarrow> hoare P m Q E"
  by (rule hoare_weaken)

lemma hoare_post: "hoare P m Q' E \<Longrightarrow> (\<And>a s. Q' a s \<Longrightarrow> Q a s) \<Longrightarrow> hoare P m Q E"
  by (rule hoare_weaken)

lemma hoare_bnd:
  assumes "hoare P m R E" and "\<And>a. hoare (R a) (f a) Q E"
  shows "hoare P (bnd m f) Q E"
  using assms unfolding hoare_def by (simp only: wp_bnd wp_sq) (blast intro: wp_mono)

lemma hoare_sq:
  assumes "hoare P m (\<lambda>_. R) E" and "hoare R k Q E"
  shows "hoare P (sq m k) Q E"
  using assms unfolding hoare_def by (simp only: wp_bnd wp_sq) (blast intro: wp_mono)

lemma hoare_each:
  assumes "\<And>x. x \<in> set xs \<Longrightarrow> hoare I (f x) (\<lambda>_. I) E"
  shows "hoare I (each f xs) (\<lambda>_. I) E"
  using assms
proof (induction xs)
  case Nil
  then show ?case by (simp add: hoare_def)
next
  case (Cons x xs)
  then show ?case by (auto intro!: hoare_sq)
qed

text \<open>
  Fixed-point induction for the unbounded loop: an invariant of the body is one of the loop,
  and when the loop returns, the last run of the body answered.
\<close>

lemma hoare_repeat:
  assumes body: "hoare I body (\<lambda>r s. case r of None \<Rightarrow> I s | Some a \<Rightarrow> Q a s) E"
  shows "hoare I (repeat_until body) Q E"
proof -
  have "case x of (r, s') \<Rightarrow> (case r of Inl e \<Rightarrow> E e s' | Inr a \<Rightarrow> Q a s')"
    if "repeat_until body s = Some x" "I s" for s x
    using that body
  proof (induction body s x rule: repeat_until.raw_induct [rotated, consumes 1, case_names 1])
    case (1 rep b s x)
    from 1(2) obtain r s' where b: "b s = Some (r, s')"
      by (auto split: option.splits)
    show ?case
    proof (cases r)
      case (Inl e)
      then show ?thesis
        using 1(2) b hoare_stopD [OF 1(4,3)] by auto
    next
      case (Inr again)
      then have "case again of None \<Rightarrow> I s' | Some a \<Rightarrow> Q a s'"
        using hoareD [OF 1(4,3)] b by simp
      then show ?thesis
        using 1 b Inr by (cases again) auto
    qed
  qed
  then show ?thesis
    by (fastforce simp: hoare_def wp_def split: option.splits)
qed

lemma hoare_conj:
  assumes "hoare P m Q E" and "hoare P' m Q' E'"
  shows "hoare (\<lambda>s. P s \<and> P' s) m (\<lambda>a s. Q a s \<and> Q' a s) (\<lambda>e s. E e s \<and> E' e s)"
  using assms by (auto simp: hoare_def wp_def split: option.splits sum.splits)

section \<open>Total correctness\<close>

lemma returnsD: "returns P m Q \<Longrightarrow> P s \<Longrightarrow> \<exists>a s'. m s = Some (Inr a, s') \<and> Q a s'"
  by (simp add: returns_def)

lemma returns_ret: "returns (\<lambda>s. Q a s) (ret a) Q"
  by (simp add: returns_def ret_def)

lemma returns_gets: "returns (\<lambda>s. Q (f s) s) (gets f) Q"
  by (simp add: returns_def gets_def)

lemma returns_modify: "returns (\<lambda>s. Q () (f s)) (modify f) Q"
  by (simp add: returns_def modify_def)

lemma returns_pre: "returns P' m Q \<Longrightarrow> (\<And>s. P s \<Longrightarrow> P' s) \<Longrightarrow> returns P m Q"
  by (simp add: returns_def)

lemma returns_bnd:
  assumes "returns P m R" and "\<And>a. returns (R a) (f a) Q"
  shows "returns P (bnd m f) Q"
  using assms unfolding returns_def bnd_def by fastforce

lemma returns_sq:
  assumes "returns P m (\<lambda>_. R)" and "returns R k Q"
  shows "returns P (sq m k) Q"
  unfolding sq_def by (rule returns_bnd [OF assms(1)]) (rule assms(2))

text \<open>A loop whose body keeps the invariant and decreases a measure ends.\<close>

lemma returns_repeat:
  assumes "\<And>n. returns (\<lambda>s. I s \<and> \<mu> s = n) body
             (\<lambda>r s. case r of None \<Rightarrow> I s \<and> \<mu> s < (n :: nat) | Some a \<Rightarrow> Q a s)"
  shows "returns I (repeat_until body) Q"
proof -
  have "\<exists>a s'. repeat_until body s = Some (Inr a, s') \<and> Q a s'" if "I s" for s
    using that
  proof (induction "\<mu> s" arbitrary: s rule: less_induct)
    case less
    from assms [of "\<mu> s"] less(2) obtain r s' where
      b: "body s = Some (Inr r, s')" "case r of None \<Rightarrow> I s' \<and> \<mu> s' < \<mu> s | Some a \<Rightarrow> Q a s'"
      unfolding returns_def by blast
    then show ?case
      using less(1) [of s'] by (cases r) (simp_all add: repeat_until.simps [of body s])
  qed
  then show ?thesis by (simp add: returns_def)
qed

text \<open>
  The same as a predicate transformer: \<open>runs m Q s\<close> states that \<open>m\<close>
  returns from \<open>s\<close>, with a result that satisfies \<open>Q\<close>.
\<close>

definition runs :: "('s, 'a) prog \<Rightarrow> ('a \<Rightarrow> 's \<Rightarrow> bool) \<Rightarrow> 's \<Rightarrow> bool" where
  "runs m Q s \<longleftrightarrow> (\<exists>a s'. m s = Some (Inr a, s') \<and> Q a s')"

lemma returns_runs: "returns P m Q \<longleftrightarrow> (\<forall>s. P s \<longrightarrow> runs m Q s)"
  by (simp add: returns_def runs_def)

lemma runs_ret [simp]: "runs (ret a) Q s = Q a s"
  by (simp add: runs_def ret_def)

lemma runs_ret_fun [simp]: "runs (ret a) Q = Q a"
  by (simp add: fun_eq_iff)

lemma runs_halt [simp]: "\<not> runs (halt e) Q s"
  by (simp add: runs_def halt_def)

lemma runs_gets [simp]: "runs (gets f) Q s = Q (f s) s"
  by (simp add: runs_def gets_def)

lemma runs_modify [simp]: "runs (modify g) Q s = Q () (g s)"
  by (simp add: runs_def modify_def)

lemma runs_bnd [simp]: "runs (bnd m k) Q s = runs m (\<lambda>a. runs (k a) Q) s"
  by (auto simp: runs_def bnd_def split: option.splits sum.splits)

lemma runs_sq [simp]: "runs (sq m n) Q s = runs m (\<lambda>_. runs n Q) s"
  by (simp add: sq_def)

lemma runs_assert [simp]: "runs (assert_p b) Q s \<longleftrightarrow> b \<and> Q () s"
  by (simp add: runs_def assert_p_def ret_def halt_def)

lemma runs_if [simp]:
  "runs (if b then m else n) Q s \<longleftrightarrow> (b \<longrightarrow> runs m Q s) \<and> (\<not> b \<longrightarrow> runs n Q s)"
  by simp

lemma runs_case_option [simp]:
  "runs (case x of None \<Rightarrow> m | Some a \<Rightarrow> k a) Q s \<longleftrightarrow>
     (x = None \<longrightarrow> runs m Q s) \<and> (\<forall>a. x = Some a \<longrightarrow> runs (k a) Q s)"
  by (simp split: option.split)

lemma runs_case_prod [simp]:
  "runs (case x of (a, b) \<Rightarrow> k a b) Q s \<longleftrightarrow> (\<forall>a b. x = (a, b) \<longrightarrow> runs (k a b) Q s)"
  by (simp split: prod.split)

lemma runs_mono: "runs m Q' s \<Longrightarrow> (\<And>a s'. Q' a s' \<Longrightarrow> Q a s') \<Longrightarrow> runs m Q s"
  by (auto simp: runs_def)

lemma runs_conj: "runs m Q s \<Longrightarrow> runs m Q' s \<Longrightarrow> runs m (\<lambda>a s. Q a s \<and> Q' a s) s"
  by (auto simp: runs_def)

lemma runs_repeat_step:
  "runs body (\<lambda>r s'. case r of None \<Rightarrow> runs (repeat_until body) Q s' | Some a \<Rightarrow> Q a s') s \<Longrightarrow>
     runs (repeat_until body) Q s"
  by (auto simp: runs_def repeat_until.simps [of body s] split: option.splits)

lemma runs_wp: "runs m (\<lambda>_ _. True) s \<Longrightarrow> wp m Q E s \<Longrightarrow> runs m Q s"
  by (auto simp: runs_def wp_def)

end
