(* ===== verification/Io.thy ===== *)
theory Io
  imports Prog
begin

text \<open>
  \<^verbatim>\<open>util/io.c\<close> and the loops of \<^verbatim>\<open>syscall.h\<close>: transferring a whole
  buffer with a system call that may transfer less. The same two loops exist over
  \<^verbatim>\<open>read\<close>/\<^verbatim>\<open>write\<close> and over the raw traps
  \<^verbatim>\<open>sys_read\<close>/\<^verbatim>\<open>sys_write\<close>; they are defined once, over the call.

  The system calls that work on files are collected in a record of functions over a world
  \<open>'w\<close>: a call returns what the system answers and the world after it. Regular files
  with their offset, short transfers and failures are modelled at the end; they provide the
  contract that the two loops are verified against.
\<close>

section \<open>System calls on files\<close>

datatype oflag = Open_Dir | Open_Read | Create_Excl

text \<open>
  A negative descriptor or a non-zero status is a failure. \<^verbatim>\<open>opendir\<close> and the
  \<^verbatim>\<open>readdir\<close> calls after it are one query for the names in a directory. The
  queries \<^verbatim>\<open>access\<close> and \<^verbatim>\<open>faccessat\<close> change nothing.
\<close>

record 'w fs_os =
  os_access :: "string \<Rightarrow> 'w \<Rightarrow> bool"
  os_faccessat :: "fd \<Rightarrow> string \<Rightarrow> 'w \<Rightarrow> bool"
  os_readdir :: "string \<Rightarrow> 'w \<Rightarrow> string list option"
  os_mkdir :: "string \<Rightarrow> 'w \<Rightarrow> int \<times> 'w"
  os_mkdirat :: "fd \<Rightarrow> string \<Rightarrow> 'w \<Rightarrow> int \<times> 'w"
  os_unlink :: "string \<Rightarrow> 'w \<Rightarrow> int \<times> 'w"
  os_unlinkat :: "fd \<Rightarrow> string \<Rightarrow> bool \<Rightarrow> 'w \<Rightarrow> int \<times> 'w"
  os_open :: "string \<Rightarrow> oflag \<Rightarrow> 'w \<Rightarrow> fd \<times> 'w"
  os_openat :: "fd \<Rightarrow> string \<Rightarrow> oflag \<Rightarrow> 'w \<Rightarrow> fd \<times> 'w"
  os_close :: "fd \<Rightarrow> 'w \<Rightarrow> 'w"
  os_write :: "fd \<Rightarrow> bytes \<Rightarrow> 'w \<Rightarrow> int \<times> 'w"
  os_read :: "fd \<Rightarrow> nat \<Rightarrow> 'w \<Rightarrow> bytes option \<times> 'w"

text \<open>A system call as a command.\<close>

definition sys :: "('w \<Rightarrow> 'a \<times> 'w) \<Rightarrow> ('w, 'a) prog" where
  "sys f = (\<lambda>w. case f w of (a, w') \<Rightarrow> Some (Inr a, w'))"

lemma wp_sys [simp]: "wp (sys f) Q E w \<longleftrightarrow> (\<forall>a w'. f w = (a, w') \<longrightarrow> Q a w')"
  by (simp add: wp_def sys_def split: prod.splits)

section \<open>The transfer loops\<close>

text \<open>
  \<^const>\<open>None\<close> is a run that does not end: a \<^verbatim>\<open>write\<close> that keeps
  answering zero is repeated for ever, a \<^verbatim>\<open>read\<close> that answers zero ends the
  loop.
\<close>

partial_function (option) writeall_loop ::
  "(bytes \<Rightarrow> 'w \<Rightarrow> int \<times> 'w) \<Rightarrow> bytes \<Rightarrow> nat \<Rightarrow> 'w \<Rightarrow> (nat \<times> 'w) option" where
  [code]: "writeall_loop wr buf n w =
     (case wr (drop n buf) w of (r, w') \<Rightarrow>
        if r = - 1 then Some (n, w')
        else if n + nat r < length buf then writeall_loop wr buf (n + nat r) w'
        else Some (n + nat r, w'))"

definition writeall :: "(bytes \<Rightarrow> 'w \<Rightarrow> int \<times> 'w) \<Rightarrow> bytes \<Rightarrow> 'w \<Rightarrow> (nat \<times> 'w) option" where
  "writeall wr buf w = writeall_loop wr buf 0 w"

partial_function (option) readall_loop ::
  "(nat \<Rightarrow> 'w \<Rightarrow> bytes option \<times> 'w) \<Rightarrow> nat \<Rightarrow> bytes \<Rightarrow> 'w \<Rightarrow> (bytes \<times> 'w) option" where
  [code]: "readall_loop rd nbyte buf w =
     (case rd (nbyte - length buf) w of (r, w') \<Rightarrow>
        (case r of
           None \<Rightarrow> Some (buf, w')
         | Some b \<Rightarrow>
             if b = [] then Some (buf, w')
             else if length (buf @ b) < nbyte then readall_loop rd nbyte (buf @ b) w'
             else Some (buf @ b, w')))"

definition readall :: "(nat \<Rightarrow> 'w \<Rightarrow> bytes option \<times> 'w) \<Rightarrow> nat \<Rightarrow> 'w \<Rightarrow> (bytes \<times> 'w) option" where
  "readall rd nbyte w = readall_loop rd nbyte [] w"

section \<open>The contract of the system calls\<close>

text \<open>
  A writer appends a prefix of its buffer to what was written before, at least one byte
  of a non-empty one, or fails and changes nothing. A reader takes a prefix off what is left,
  at least one byte unless nothing is left, or fails.
\<close>

locale byte_writer =
  fixes wr :: "bytes \<Rightarrow> 'w \<Rightarrow> int \<times> 'w"
    and inv :: "'w \<Rightarrow> bool"
    and content :: "'w \<Rightarrow> bytes"
  assumes wr_step: "inv w \<Longrightarrow> wr b w = (r, w') \<Longrightarrow> inv w' \<and>
     (r = - 1 \<and> content w' = content w \<or>
      0 \<le> r \<and> nat r \<le> length b \<and> (b \<noteq> [] \<longrightarrow> 0 < r) \<and> content w' = content w @ take (nat r) b)"
begin

lemma writeall_loop_spec:
  assumes "inv w" and "n \<le> length buf"
  shows "\<exists>m w'. writeall_loop wr buf n w = Some (m, w') \<and> inv w' \<and> n \<le> m \<and> m \<le> length buf \<and>
           content w' = content w @ drop n (take m buf)"
  using assms
proof (induction "length buf - n" arbitrary: n w rule: less_induct)
  case less
  obtain r w1 where wr: "wr (drop n buf) w = (r, w1)" by fastforce
  note step = wr_step [OF less(2) wr]
  show ?case
  proof (cases "r = - 1")
    case True
    then show ?thesis
      using wr step less by (subst writeall_loop.simps) auto
  next
    case False
    with step have r: "0 \<le> r" "n + nat r \<le> length buf" "n < length buf \<Longrightarrow> 0 < r"
      "content w1 = content w @ take (nat r) (drop n buf)" "inv w1"
      using less(3) by auto
    have piece: "take (nat r) (drop n buf) = drop n (take (n + nat r) buf)"
      by (simp add: take_drop add.commute)
    show ?thesis
    proof (cases "n + nat r < length buf")
      case True
      then have "length buf - (n + nat r) < length buf - n" using r(3) by simp
      from less(1) [OF this r(5)] True obtain m w' where
        m: "writeall_loop wr buf (n + nat r) w1 = Some (m, w')" "inv w'" "n + nat r \<le> m" "m \<le> length buf"
        "content w' = content w1 @ drop (n + nat r) (take m buf)" by auto
      have "drop n (take (n + nat r) buf) @ drop (n + nat r) (take m buf) = drop n (take m buf)"
        using m(3) by (simp add: drop_take_split)
      then show ?thesis
        using m r True False wr piece by (subst writeall_loop.simps) auto
    next
      case False
      then show ?thesis
        using r \<open>r \<noteq> - 1\<close> wr piece by (subst writeall_loop.simps) auto
    qed
  qed
qed

lemma writeall_spec:
  assumes "inv w"
  shows "\<exists>m w'. writeall wr buf w = Some (m, w') \<and> inv w' \<and> m \<le> length buf \<and>
           content w' = content w @ take m buf"
  using writeall_loop_spec [OF assms, of 0 buf] by (simp add: writeall_def)

text \<open>Without failures on the pieces of the buffer everything is written.\<close>

lemma writeall_loop_complete:
  assumes "inv w" and "n \<le> length buf" and "writeall_loop wr buf n w = Some (m, w')"
    and "\<And>i w r w'. inv w \<Longrightarrow> wr (drop i buf) w = (r, w') \<Longrightarrow> r \<noteq> - 1"
  shows "m = length buf"
  using assms(1-3)
proof (induction "length buf - n" arbitrary: n w rule: less_induct)
  case less
  obtain r w1 where wr: "wr (drop n buf) w = (r, w1)" by fastforce
  note step = wr_step [OF less(2) wr] assms(4) [OF less(2) wr]
  show ?case
  proof (cases "n + nat r < length buf")
    case True
    then have "length buf - (n + nat r) < length buf - n" using step by auto
    then show ?thesis
      using less(1) [of "n + nat r" w1] less(4) wr step True
      by (simp add: writeall_loop.simps [of wr buf n])
  next
    case False
    with step less(3) have "n + nat r = length buf" by auto
    then show ?thesis
      using less(4) wr step by (simp add: writeall_loop.simps [of wr buf n])
  qed
qed

lemma writeall_all:
  assumes "inv w" and "\<And>i w r w'. inv w \<Longrightarrow> wr (drop i buf) w = (r, w') \<Longrightarrow> r \<noteq> - 1"
  shows "\<exists>w'. writeall wr buf w = Some (length buf, w') \<and> inv w' \<and> content w' = content w @ buf"
proof -
  from writeall_spec [OF assms(1), of buf] obtain m w' where
    w': "writeall wr buf w = Some (m, w')" "inv w'" "content w' = content w @ take m buf"
    by blast
  moreover have "m = length buf"
    using writeall_loop_complete [OF assms(1) _ _ assms(2), of 0 buf m w'] w'(1) by (simp add: writeall_def)
  ultimately show ?thesis by simp
qed

end

locale byte_reader =
  fixes rd :: "nat \<Rightarrow> 'w \<Rightarrow> bytes option \<times> 'w"
    and inv :: "'w \<Rightarrow> bool"
    and left :: "'w \<Rightarrow> bytes"
  assumes rd_step: "inv w \<Longrightarrow> rd n w = (r, w') \<Longrightarrow> inv w' \<and>
     (case r of
        None \<Rightarrow> left w' = left w
      | Some b \<Rightarrow> length b \<le> n \<and> left w = b @ left w' \<and> (b = [] \<longrightarrow> n = 0 \<or> left w = []))"
begin

lemma readall_loop_spec:
  assumes "inv w" and "length buf \<le> nbyte"
  shows "\<exists>b w'. readall_loop rd nbyte buf w = Some (buf @ b, w') \<and> inv w' \<and> left w = b @ left w' \<and>
           length (buf @ b) \<le> nbyte"
  using assms
proof (induction "nbyte - length buf" arbitrary: buf w rule: less_induct)
  case less
  obtain r w1 where rd: "rd (nbyte - length buf) w = (r, w1)" by fastforce
  note step = rd_step [OF less(2) rd]
  show ?case
  proof (cases r)
    case None
    then show ?thesis using rd step less by (subst readall_loop.simps) auto
  next
    case (Some b)
    show ?thesis
    proof (cases "b \<noteq> [] \<and> length (buf @ b) < nbyte")
      case True
      then have "nbyte - length (buf @ b) < nbyte - length buf"
        by (auto simp: neq_Nil_conv)
      from less(1) [OF this, of w1] step True obtain c w' where
        "readall_loop rd nbyte (buf @ b) w1 = Some ((buf @ b) @ c, w')" "inv w'" "left w1 = c @ left w'"
        "length ((buf @ b) @ c) \<le> nbyte" by auto
      then show ?thesis
        using rd step Some True by (subst readall_loop.simps) auto
    next
      case False
      then show ?thesis
        using rd step Some less(3) by (subst readall_loop.simps) auto
    qed
  qed
qed

lemma readall_spec:
  assumes "inv w"
  shows "\<exists>b w'. readall rd nbyte w = Some (b, w') \<and> inv w' \<and> left w = b @ left w' \<and> length b \<le> nbyte"
  using readall_loop_spec [OF assms, of "[]" nbyte] by (simp add: readall_def)

text \<open>Without failures the loop reads all it was asked for, or all there is.\<close>

lemma readall_loop_complete:
  assumes "inv w" and "length buf \<le> nbyte" and "readall_loop rd nbyte buf w = Some (c, w')"
    and "\<And>n w r w'. inv w \<Longrightarrow> n \<le> nbyte \<Longrightarrow> rd n w = (r, w') \<Longrightarrow> r \<noteq> None"
  shows "c = buf @ take (nbyte - length buf) (left w)"
  using assms(1-3)
proof (induction "nbyte - length buf" arbitrary: buf w rule: less_induct)
  case less
  obtain b w1 where rd: "rd (nbyte - length buf) w = (Some b, w1)"
    using assms(4) [OF less(2) diff_le_self] by (metis not_Some_eq surj_pair)
  note step = rd_step [OF less(2) rd]
  show ?case
  proof (cases "b \<noteq> [] \<and> length (buf @ b) < nbyte")
    case True
    then have "nbyte - length (buf @ b) < nbyte - length buf"
      by (auto simp: neq_Nil_conv)
    from less(1) [OF this, of w1] True step have "c = (buf @ b) @ take (nbyte - length (buf @ b)) (left w1)"
      using less(4) rd by (simp add: readall_loop.simps [of rd nbyte buf])
    then show ?thesis using step True by simp
  next
    case False
    then show ?thesis
      using less(3,4) rd step by (auto simp: readall_loop.simps [of rd nbyte buf] split: if_splits)
  qed
qed

lemma readall_all:
  assumes "inv w" and "\<And>n w r w'. inv w \<Longrightarrow> n \<le> nbyte \<Longrightarrow> rd n w = (r, w') \<Longrightarrow> r \<noteq> None"
    and "left w = b @ rest" and "length b = nbyte"
  shows "\<exists>w'. readall rd nbyte w = Some (b, w') \<and> inv w' \<and> left w' = rest"
proof -
  from readall_spec [OF assms(1), of nbyte] obtain c w' where
    w': "readall rd nbyte w = Some (c, w')" "inv w'" "left w = c @ left w'"
    by blast
  moreover have "c = take nbyte (left w)"
    using readall_loop_complete [OF assms(1) _ _ assms(2), where buf = "[]" and c = c and w' = w'] w'(1) by (simp add: readall_def)
  then have "c = b" using assms(3,4) by simp
  moreover have "left w' = rest"
    using w'(3) assms(3) unfolding \<open>c = b\<close> by simp
  ultimately show ?thesis by blast
qed

end

section \<open>Regular files\<close>

text \<open>
  An open regular file: its bytes, the file offset, and the outcomes of the coming transfers
  (\<^const>\<open>None\<close>: the call fails; \<open>Some k\<close>: it transfers at most
  \<open>max 1 k\<close> bytes; past the end of the list every call transfers all it can). Writing
  at the offset overwrites, and fills a gap after the end with zeros.
\<close>

record rfile =
  f_data :: bytes
  f_pos :: nat
  f_sched :: "nat option list"

definition file_limit :: "nat option list \<Rightarrow> nat \<Rightarrow> nat option" where
  "file_limit sched n =
     (case sched of [] \<Rightarrow> Some n | None # _ \<Rightarrow> None | Some k # _ \<Rightarrow> Some (min n (max 1 k)))"

definition overwrite :: "bytes \<Rightarrow> nat \<Rightarrow> bytes \<Rightarrow> bytes" where
  "overwrite data pos b =
     take pos (data @ replicate (pos - length data) 0) @ b @ drop (pos + length b) data"

definition file_write :: "bytes \<Rightarrow> rfile \<Rightarrow> int \<times> rfile" where
  "file_write b f =
     (case file_limit (f_sched f) (length b) of
        None \<Rightarrow> (- 1, f\<lparr> f_sched := tl (f_sched f) \<rparr>)
      | Some n \<Rightarrow>
          (int n, f\<lparr> f_data := overwrite (f_data f) (f_pos f) (take n b),
                      f_pos := f_pos f + n, f_sched := tl (f_sched f) \<rparr>))"

definition file_read :: "nat \<Rightarrow> rfile \<Rightarrow> bytes option \<times> rfile" where
  "file_read nbyte f =
     (case file_limit (f_sched f) nbyte of
        None \<Rightarrow> (None, f\<lparr> f_sched := tl (f_sched f) \<rparr>)
      | Some n \<Rightarrow>
          let b = take n (drop (f_pos f) (f_data f))
          in (Some b, f\<lparr> f_pos := f_pos f + length b, f_sched := tl (f_sched f) \<rparr>))"

text \<open>\<^verbatim>\<open>lseek\<close> to an absolute offset fails on a negative one.\<close>

definition file_seek :: "int \<Rightarrow> rfile \<Rightarrow> int \<times> rfile" where
  "file_seek off f = (if off < 0 then (- 1, f) else (off, f\<lparr> f_pos := nat off \<rparr>))"

definition at_end :: "rfile \<Rightarrow> bool" where
  "at_end f \<longleftrightarrow> f_pos f = length (f_data f)"

definition file_left :: "rfile \<Rightarrow> bytes" where
  "file_left f = drop (f_pos f) (f_data f)"

lemma overwrite_end [simp]: "overwrite data (length data) b = data @ b"
  by (simp add: overwrite_def)

lemma file_limit_le: "file_limit sched n = Some k \<Longrightarrow> k \<le> n \<and> (0 < n \<longrightarrow> 0 < k)"
  by (auto simp: file_limit_def split: list.splits option.splits)

text \<open>A file written at its end, and a file read from its offset on, meet the contract.\<close>

interpretation fw: byte_writer file_write at_end f_data
proof
  fix f b r f' assume e: "at_end f" and w: "file_write b f = (r, f')"
  show "at_end f' \<and> (r = - 1 \<and> f_data f' = f_data f \<or>
      0 \<le> r \<and> nat r \<le> length b \<and> (b \<noteq> [] \<longrightarrow> 0 < r) \<and> f_data f' = f_data f @ take (nat r) b)"
  proof (cases "file_limit (f_sched f) (length b)")
    case None
    then show ?thesis using e w by (auto simp: file_write_def at_end_def)
  next
    case (Some n)
    then show ?thesis
      using e w file_limit_le [OF Some] by (auto simp: file_write_def at_end_def)
  qed
qed

interpretation fr: byte_reader file_read "\<lambda>_. True" file_left
proof
  fix n f r f' assume r: "file_read n f = (r, f')"
  show "True \<and> (case r of None \<Rightarrow> file_left f' = file_left f
      | Some b \<Rightarrow> length b \<le> n \<and> file_left f = b @ file_left f' \<and> (b = [] \<longrightarrow> n = 0 \<or> file_left f = []))"
  proof (cases "file_limit (f_sched f) n")
    case None
    then show ?thesis using r by (auto simp: file_read_def file_left_def)
  next
    case (Some k)
    let ?b = "take k (drop (f_pos f) (f_data f))"
    have "xs = take k xs @ drop (length (take k xs)) xs" for xs :: bytes
      by (cases "k \<le> length xs") (simp_all add: min_def)
    from this [of "file_left f"] have "file_left f = ?b @ drop (f_pos f + length ?b) (f_data f)"
      by (simp add: file_left_def add.commute)
    then show ?thesis
      using r Some file_limit_le [OF Some] by (auto simp: file_read_def file_left_def Let_def)
  qed
qed

section \<open>Properties\<close>

text \<open>
  C23: on a regular file \<^verbatim>\<open>writeall\<close> always returns, whatever the sequence of short
  and failing writes; it appends exactly the prefix of the buffer whose length it returns, so
  the value \<^verbatim>\<open>nbyte\<close> means that the whole buffer is in the file.
\<close>

theorem writeall_file:
  assumes "at_end f"
  shows "\<exists>m f'. writeall file_write buf f = Some (m, f') \<and> at_end f' \<and> m \<le> length buf \<and>
           f_data f' = f_data f @ take m buf"
  using fw.writeall_spec [OF assms] .

theorem writeall_file_witness:
  "\<exists>m f'. writeall file_write [1, 2, 3, 4, 5] \<lparr> f_data = [9], f_pos = 1, f_sched = [Some 2, None] \<rparr>
       = Some (m, f') \<and> f_data f' = 9 # take m [1, 2, 3, 4, 5]"
  using writeall_file [of "\<lparr> f_data = [9], f_pos = 1, f_sched = [Some 2, None] \<rparr>" "[1, 2, 3, 4, 5]"]
  by (auto simp: at_end_def)

text \<open>
  \<^verbatim>\<open>readall\<close> on a regular file always returns, never more than was asked for, and
  what it returns is exactly what the file offset moved over.
\<close>

theorem readall_file:
  "\<exists>b f'. readall file_read nbyte f = Some (b, f') \<and> file_left f = b @ file_left f' \<and> length b \<le> nbyte"
  using fr.readall_spec [of nbyte f] by simp

end
