(* ===== verification/Encoding.thy ===== *)
theory Encoding
  imports Prelude
begin

text \<open>
  The two encodings the program stores data in: decimal text (\<^verbatim>\<open>snprintf\<close> with
  \<^verbatim>\<open>%d\<close>, \<^verbatim>\<open>%u\<close> and \<^verbatim>\<open>%llu\<close>, \<^verbatim>\<open>atoi\<close>,
  \<^verbatim>\<open>sscanf\<close>) in file names and environment variables, and the memory image of a
  structure, little endian, in messages and checkpoint files.
\<close>

section \<open>Decimal text\<close>

definition digit_char :: "nat \<Rightarrow> char" where
  "digit_char d = char_of (48 + d)"

definition is_digit :: "char \<Rightarrow> bool" where
  "is_digit c \<longleftrightarrow> 48 \<le> (of_char c :: nat) \<and> (of_char c :: nat) < 58"

definition digit_value :: "char \<Rightarrow> nat" where
  "digit_value c = of_char c - 48"

fun show_nat :: "nat \<Rightarrow> string" where
  "show_nat n = (if n < 10 then [digit_char n] else show_nat (n div 10) @ [digit_char (n mod 10)])"

declare show_nat.simps [simp del]

definition show_int :: "int \<Rightarrow> string" where
  "show_int i = (if i < 0 then CHR ''-'' # show_nat (nat (- i)) else show_nat (nat i))"

text \<open>The digits at the start of a string, with what follows them.\<close>

fun scan_digits :: "nat \<Rightarrow> string \<Rightarrow> nat \<times> string" where
  "scan_digits acc [] = (acc, [])"
| "scan_digits acc (c # cs) =
     (if is_digit c then scan_digits (10 * acc + digit_value c) cs else (acc, c # cs))"

definition is_space :: "char \<Rightarrow> bool" where
  "is_space c \<longleftrightarrow> c = CHR '' '' \<or> (9 \<le> (of_char c :: nat) \<and> (of_char c :: nat) \<le> 13)"

definition atoi :: "string \<Rightarrow> int" where
  "atoi s =
     (case dropWhile is_space s of
        [] \<Rightarrow> 0
      | c # cs \<Rightarrow>
          if c = CHR ''-'' then - int (fst (scan_digits 0 cs))
          else if c = CHR ''+'' then int (fst (scan_digits 0 cs))
          else int (fst (scan_digits 0 (c # cs))))"

text \<open>\<^verbatim>\<open>snprintf(buf, n, ...)\<close> stores at most \<open>n - 1\<close> characters.\<close>

definition snprintf :: "nat \<Rightarrow> string \<Rightarrow> string" where
  "snprintf n s = take (n - 1) s"

lemma snprintf_fits [simp]: "length s < n \<Longrightarrow> snprintf n s = s"
  by (simp add: snprintf_def)

lemma digit_props:
  assumes "d < 10"
  shows "is_digit (digit_char d)" and "digit_value (digit_char d) = d"
  using assms by (simp_all add: is_digit_def digit_value_def digit_char_def)

lemma scan_digits_append:
  "list_all is_digit ds \<Longrightarrow> scan_digits acc (ds @ s) = scan_digits (fst (scan_digits acc ds)) s"
  by (induction ds arbitrary: acc) simp_all

lemma show_nat_digits: "list_all is_digit (show_nat n)"
proof (induction n rule: show_nat.induct)
  case (1 n)
  then show ?case
    by (subst show_nat.simps) (auto simp: digit_props)
qed

lemma scan_show_nat [simp]: "scan_digits 0 (show_nat n) = (n, [])"
proof (induction n rule: show_nat.induct)
  case (1 n)
  show ?case
  proof (cases "n < 10")
    case True
    then show ?thesis by (subst show_nat.simps) (simp add: digit_props)
  next
    case False
    have "scan_digits 0 (show_nat n) = scan_digits (n div 10) [digit_char (n mod 10)]"
      using False 1 by (subst show_nat.simps) (simp add: scan_digits_append show_nat_digits)
    then show ?thesis by (simp add: digit_props)
  qed
qed

lemma scan_show_nat_rest:
  assumes "s = [] \<or> \<not> is_digit (hd s)"
  shows "scan_digits 0 (show_nat n @ s) = (n, s)"
  using assms by (cases s) (simp_all add: scan_digits_append show_nat_digits)

lemma show_nat_ne [simp]: "show_nat n \<noteq> []"
  by (subst show_nat.simps) simp

lemma show_nat_inject [simp]: "show_nat m = show_nat n \<longleftrightarrow> m = n"
  by (metis prod.inject scan_show_nat)

lemma show_nat_hd: "is_digit (hd (show_nat n))"
  using show_nat_digits [of n] by (cases "show_nat n") auto

lemma show_nat_length: "n < 10 ^ k \<Longrightarrow> 0 < k \<Longrightarrow> length (show_nat n) \<le> k"
proof (induction n arbitrary: k rule: show_nat.induct)
  case (1 n)
  show ?case
  proof (cases "n < 10")
    case True
    then show ?thesis using 1(3) by (subst show_nat.simps) simp
  next
    case False
    have "k \<noteq> 1" using False 1(2) by auto
    then obtain j where k: "k = Suc j" "0 < j"
      using 1(3) by (cases k) auto
    have "n div 10 < 10 ^ j" using 1(2) k by auto
    from 1(1) [OF False this k(2)] show ?thesis
      using False k by (subst show_nat.simps) simp
  qed
qed

lemma dropWhile_space_digit:
  "is_digit (hd s) \<Longrightarrow> s \<noteq> [] \<Longrightarrow> dropWhile is_space s = s"
  by (cases s) (auto simp: is_digit_def is_space_def)

lemma atoi_show_int [simp]: "atoi (show_int i) = i"
proof (cases "i < 0")
  case True
  then show ?thesis by (simp add: atoi_def show_int_def is_space_def)
next
  case False
  obtain c cs where s: "show_nat (nat i) = c # cs" by (cases "show_nat (nat i)") auto
  then have "is_digit c" using show_nat_hd [of "nat i"] by simp
  then have "c \<noteq> CHR ''-''" "c \<noteq> CHR ''+''" by (auto simp: is_digit_def)
  then show ?thesis
    using False s scan_show_nat [of "nat i"] dropWhile_space_digit [of "show_nat (nat i)"] show_nat_hd [of "nat i"]
    by (simp add: atoi_def show_int_def)
qed

section \<open>Memory images\<close>

fun le_bytes :: "nat \<Rightarrow> nat \<Rightarrow> bytes" where
  "le_bytes 0 n = []"
| "le_bytes (Suc k) n = of_nat (n mod 256) # le_bytes k (n div 256)"

fun le_value :: "bytes \<Rightarrow> nat" where
  "le_value [] = 0"
| "le_value (b # bs) = unat b + 256 * le_value bs"

definition le_word :: "nat \<Rightarrow> 'a::len word \<Rightarrow> bytes" where
  "le_word k w = le_bytes k (unat w)"

definition word_le :: "bytes \<Rightarrow> 'a::len word" where
  "word_le bs = of_nat (le_value bs)"

lemma le_bytes_length [simp]: "length (le_bytes k n) = k"
  by (induction k arbitrary: n) simp_all

lemma le_word_length [simp]: "length (le_word k w) = k"
  by (simp add: le_word_def)

lemma le_value_bytes: "n < 256 ^ k \<Longrightarrow> le_value (le_bytes k n) = n"
proof (induction k arbitrary: n)
  case (Suc k)
  have "n div 256 < 256 ^ k" using Suc.prems by auto
  moreover have "unat (of_nat (n mod 256) :: u8) = n mod 256"
    by (simp add: unat_of_nat)
  ultimately show ?case using Suc.IH [of "n div 256"] by simp
qed simp

lemma word_le_word [simp]:
  assumes "LENGTH('a::len) = 8 * k"
  shows "word_le (le_word k (w :: 'a word)) = w"
proof -
  have "unat w < 256 ^ k"
    using unsigned_less [of w, where ?'a = nat] assms by (simp add: power_mult)
  then show ?thesis by (simp add: le_word_def word_le_def le_value_bytes)
qed

end
