(* ===== verification/Ckptfile.thy ===== *)
theory Ckptfile
  imports Io Path Encoding
begin

text \<open>
  \<^verbatim>\<open>ckptfile.c\<close> and \<^verbatim>\<open>shared_cache.c\<close>: the names of checkpoint
  directories and files, creating and removing a checkpoint directory, the manifest of a
  checkpoint, and the header of a checkpoint file.

  The operations that use the file system are commands over the world of
  \<^typ>\<open>'w fs_os\<close>. \<^verbatim>\<open>uuid_unparse\<close> and \<^verbatim>\<open>uuid_parse\<close> belong to
  the system library; they extend the record of system calls.
\<close>

record 'w lib_os = "'w fs_os" +
  os_uuid_unparse :: "bytes \<Rightarrow> string"
  os_uuid_parse :: "string \<Rightarrow> bytes option"

section \<open>Names\<close>

text \<open>The sizes of \<^verbatim>\<open>ckptfile.h\<close>; \<^verbatim>\<open>sizeof\<close> of a literal counts its terminator.\<close>

definition sizeof_lit :: "string \<Rightarrow> nat" where
  "sizeof_lit s = length s + 1"

definition XND_CKPTFILE_MAXLEN :: nat where
  "XND_CKPTFILE_MAXLEN = sizeof_lit ''ckpt-'' + 10 + sizeof_lit ''.xnd'' + sizeof_lit ''.gz'' + 1"

definition XND_CKPTDIR_BASELEN :: nat where
  "XND_CKPTDIR_BASELEN = 36 + sizeof_lit ''-checkpoints'' + 1"

definition XND_CKPTDIR_SUBLEN :: nat where
  "XND_CKPTDIR_SUBLEN = sizeof_lit ''epoch-'' + 21"

definition XND_CKPTDIR_MAXLEN :: nat where
  "XND_CKPTDIR_MAXLEN = XND_CKPTDIR_BASELEN + XND_CKPTDIR_SUBLEN"

definition XND_CKPTPATH_MAXLEN :: nat where
  "XND_CKPTPATH_MAXLEN = XND_CKPTDIR_MAXLEN + XND_CKPTFILE_MAXLEN"

definition XND_MANIFEST_NAME :: string where
  "XND_MANIFEST_NAME = ''ckpt-manifest.xnd''"

definition XND_MANIFEST_ENTRY_MAX :: nat where
  "XND_MANIFEST_ENTRY_MAX = 256"

lemmas ckpt_sizes = XND_CKPTFILE_MAXLEN_def XND_CKPTDIR_BASELEN_def XND_CKPTDIR_SUBLEN_def
  XND_CKPTDIR_MAXLEN_def XND_CKPTPATH_MAXLEN_def sizeof_lit_def

definition ckptfile_fmt :: "u32 \<Rightarrow> string" where
  "ckptfile_fmt xnd_pid = ''ckpt-'' @ show_nat (unat xnd_pid) @ ''.xnd''"

definition compressed_ckpt_fmt :: "u32 \<Rightarrow> string" where
  "compressed_ckpt_fmt xnd_pid = ckptfile_fmt xnd_pid @ ''.gz''"

definition xnd_ckptpath_name :: "('w, 'm) lib_os_scheme \<Rightarrow> bytes \<Rightarrow> u64 \<Rightarrow> u32 \<Rightarrow> bool \<Rightarrow> string" where
  "xnd_ckptpath_name os uuid epoch xnd_pid use_zlib =
     (let buf = snprintf XND_CKPTPATH_MAXLEN
                  (os_uuid_unparse os uuid @ ''-checkpoints/epoch-'' @ show_nat (unat epoch) @ ''/'' @
                   ckptfile_fmt xnd_pid)
      in if use_zlib then buf @ take (XND_CKPTPATH_MAXLEN - length buf) ''.gz'' else buf)"

definition xnd_ckptdir_name :: "('w, 'm) lib_os_scheme \<Rightarrow> bytes \<Rightarrow> u64 \<Rightarrow> string \<times> string" where
  "xnd_ckptdir_name os uuid epoch =
     (os_uuid_unparse os uuid @ ''-checkpoints'',
      snprintf XND_CKPTDIR_SUBLEN (''epoch-'' @ show_nat (unat epoch)))"

definition xnd_ckptfile_name :: "nat \<Rightarrow> u32 \<Rightarrow> int \<times> string option" where
  "xnd_ckptfile_name outlen xnd_pid =
     (if outlen < XND_CKPTFILE_MAXLEN then (- 1, None)
      else (0, Some (snprintf outlen (ckptfile_fmt xnd_pid))))"

section \<open>Checkpoint directories\<close>

definition xnd_ckptdir_create :: "('w, 'm) lib_os_scheme \<Rightarrow> bytes \<Rightarrow> u64 \<Rightarrow> ('w, int) prog" where
  "xnd_ckptdir_create os uuid epoch =
     (case xnd_ckptdir_name os uuid epoch of (base, sub) \<Rightarrow>
        bnd (gets (os_access os base)) (\<lambda>exists.
        bnd (if exists then ret 0 else sys (os_mkdir os base)) (\<lambda>err.
          if err \<noteq> 0 then ret (- 1)
          else
            bnd (sys (os_open os base Open_Dir)) (\<lambda>fd.
              if fd < 0 then ret (- 1)
              else
                bnd (sys (os_mkdirat os fd sub)) (\<lambda>err.
                sq (modify (os_close os fd))
                   (ret (if err \<noteq> 0 then - 1 else 0)))))))"

text \<open>
  \<^verbatim>\<open>xnd_path_join\<close> of the two directory names, into a buffer of the given size.
\<close>

definition ckptdir_path :: "('w, 'm) lib_os_scheme \<Rightarrow> nat \<Rightarrow> bytes \<Rightarrow> u64 \<Rightarrow> path_result res" where
  "ckptdir_path os len uuid epoch =
     (case xnd_ckptdir_name os uuid epoch of (base, sub) \<Rightarrow> xnd_path_join len (Some base) (Some sub))"

definition xnd_ckptdir_open :: "('w, 'm) lib_os_scheme \<Rightarrow> bytes \<Rightarrow> u64 \<Rightarrow> ('w, fd) prog" where
  "xnd_ckptdir_open os uuid epoch =
     bnd (lift_res (ckptdir_path os PATH_MAX uuid epoch)) (\<lambda>(err, path).
       case path of
         None \<Rightarrow> ret (- 1)
       | Some path \<Rightarrow>
           if err \<noteq> 0 then ret (- 1)
           else bnd (sys (os_open os path Open_Dir)) (\<lambda>fd. ret (if fd < 0 then - 1 else fd)))"

text \<open>
  The loop over the directory entries answers whether every entry could be removed; the
  first failure returns at once.
\<close>

fun unlink_entries :: "('w, 'm) lib_os_scheme \<Rightarrow> string \<Rightarrow> string list \<Rightarrow> ('w, bool) prog" where
  "unlink_entries os path [] = ret True"
| "unlink_entries os path (name # names) =
     (if name = ''.'' \<or> name = ''..'' then unlink_entries os path names
      else
        bnd (sys (os_unlink os (snprintf (XND_CKPTDIR_MAXLEN + XND_CKPTFILE_MAXLEN) (path @ ''/'' @ name))))
          (\<lambda>err. if err \<noteq> 0 then ret False else unlink_entries os path names))"

definition xnd_ckptdir_unlink :: "('w, 'm) lib_os_scheme \<Rightarrow> bytes \<Rightarrow> u64 \<Rightarrow> ('w, int) prog" where
  "xnd_ckptdir_unlink os uuid epoch =
     (case xnd_ckptdir_name os uuid epoch of (base, sub) \<Rightarrow>
        bnd (lift_res (ckptdir_path os XND_CKPTDIR_MAXLEN uuid epoch)) (\<lambda>(err, path).
          case path of
            None \<Rightarrow> ret (- 1)
          | Some path \<Rightarrow>
              if err \<noteq> 0 then ret (- 1)
              else
                bnd (gets (os_readdir os path)) (\<lambda>entries.
                  case entries of
                    None \<Rightarrow> ret (- 1)
                  | Some names \<Rightarrow>
                      bnd (unlink_entries os path names) (\<lambda>ok.
                        if \<not> ok then ret (- 1)
                        else
                          bnd (sys (os_open os base Open_Dir)) (\<lambda>dirfd.
                            if dirfd < 0 then ret (- 1)
                            else
                              bnd (sys (os_unlinkat os dirfd sub True)) (\<lambda>err.
                                ret (if err \<noteq> 0 then - 1 else 0)))))))"

section \<open>Checkpoint files\<close>

definition xnd_ckptfile_create :: "('w, 'm) lib_os_scheme \<Rightarrow> fd \<Rightarrow> string \<Rightarrow> ('w, fd) prog" where
  "xnd_ckptfile_create os dirfd ckptfile =
     bnd (sys (os_openat os dirfd ckptfile Create_Excl)) (\<lambda>fd. ret (if fd < 0 then - 1 else fd))"

definition xnd_ckptfile_openat :: "('w, 'm) lib_os_scheme \<Rightarrow> fd \<Rightarrow> u32 \<Rightarrow> ('w, fd) prog" where
  "xnd_ckptfile_openat os dirfd xnd_pid =
     bnd (sys (os_openat os dirfd (snprintf XND_CKPTFILE_MAXLEN (ckptfile_fmt xnd_pid)) Open_Read))
       (\<lambda>fd. ret (if fd < 0 then - 1 else fd))"

definition xnd_ckptfile_exists :: "('w, 'm) lib_os_scheme \<Rightarrow> fd \<Rightarrow> u32 \<Rightarrow> 'w \<Rightarrow> bool" where
  "xnd_ckptfile_exists os dirfd xnd_pid w =
     os_faccessat os dirfd (snprintf XND_CKPTFILE_MAXLEN (ckptfile_fmt xnd_pid)) w"

definition xnd_compressed_ckpt_exists :: "('w, 'm) lib_os_scheme \<Rightarrow> fd \<Rightarrow> u32 \<Rightarrow> 'w \<Rightarrow> bool" where
  "xnd_compressed_ckpt_exists os dirfd xnd_pid w =
     os_faccessat os dirfd (snprintf XND_CKPTFILE_MAXLEN (compressed_ckpt_fmt xnd_pid)) w"

definition xnd_ckptfile_unlinkat :: "('w, 'm) lib_os_scheme \<Rightarrow> fd \<Rightarrow> u32 \<Rightarrow> ('w, int) prog" where
  "xnd_ckptfile_unlinkat os dirfd xnd_pid =
     bnd (sys (os_unlinkat os dirfd (snprintf XND_CKPTFILE_MAXLEN (ckptfile_fmt xnd_pid)) False))
       (\<lambda>err. ret (if err \<noteq> 0 then - 1 else 0))"

definition xnd_ckptfile_unlink :: "('w, 'm) lib_os_scheme \<Rightarrow> string \<Rightarrow> u32 \<Rightarrow> ('w, int) prog" where
  "xnd_ckptfile_unlink os dir xnd_pid =
     bnd (sys (os_open os dir Open_Dir)) (\<lambda>dirfd.
       if dirfd < 0 then ret (- 1)
       else
         bnd (xnd_ckptfile_unlinkat os dirfd xnd_pid) (\<lambda>r.
         sq (modify (os_close os dirfd)) (ret r)))"

section \<open>The manifest\<close>

definition xnd_ckptfile_create_manifest :: "('w, 'm) lib_os_scheme \<Rightarrow> fd \<Rightarrow> ('w, fd) prog" where
  "xnd_ckptfile_create_manifest os dirfd =
     bnd (sys (os_openat os dirfd XND_MANIFEST_NAME Create_Excl)) (\<lambda>fd. ret (if fd < 0 then - 1 else fd))"

text \<open>
  The loop over the candidate ids. The counter is a \<^verbatim>\<open>u32\<close>, so with
  \<^verbatim>\<open>max_xnd_pid = UINT32_MAX\<close> its condition never fails; a store beyond
  \<^verbatim>\<open>xnd_pids[255]\<close> is outside of the array.
\<close>

partial_function (option) manifest_ids :: "(u32 \<Rightarrow> bool) \<Rightarrow> u32 \<Rightarrow> u32 \<Rightarrow> u32 list \<Rightarrow> u32 list res option" where
  [code]: "manifest_ids ex i mx acc =
     (if \<not> i \<le> mx then Some (Inr acc)
      else if ex i \<and> length acc \<ge> XND_MANIFEST_ENTRY_MAX then Some (Inl Undefined)
      else manifest_ids ex (i + 1) mx (if ex i then acc @ [i] else acc))"

text \<open>
  The memory image of \<^verbatim>\<open>struct xnd_manifest\<close>; the entries after the last are
  not initialised and stand as zeros.
\<close>

definition manifest_bytes :: "u32 list \<Rightarrow> bytes" where
  "manifest_bytes ids =
     le_bytes 4 (length ids) @
     concat (map (le_word 4) (ids @ replicate (XND_MANIFEST_ENTRY_MAX - length ids) 0))"

definition write_bytes :: "('w, 'm) lib_os_scheme \<Rightarrow> fd \<Rightarrow> bytes \<Rightarrow> ('w, nat) prog" where
  "write_bytes os fd b = (\<lambda>w. map_option (\<lambda>(n, w'). (Inr n, w')) (writeall (os_write os fd) b w))"

definition read_bytes :: "('w, 'm) lib_os_scheme \<Rightarrow> fd \<Rightarrow> nat \<Rightarrow> ('w, bytes) prog" where
  "read_bytes os fd n = (\<lambda>w. map_option (\<lambda>(b, w'). (Inr b, w')) (readall (os_read os fd) n w))"

definition xnd_ckptfile_write_manifest ::
  "('w, 'm) lib_os_scheme \<Rightarrow> u32 \<Rightarrow> u32 \<Rightarrow> u32 \<Rightarrow> bytes \<Rightarrow> u64 \<Rightarrow> ('w, int) prog" where
  "xnd_ckptfile_write_manifest os nr_ckpts min_xnd_pid max_xnd_pid uuid epoch =
     bnd (xnd_ckptdir_open os uuid epoch) (\<lambda>dirfd.
       if dirfd < 0 then ret (- 1)
       else
         bnd (xnd_ckptfile_create_manifest os dirfd) (\<lambda>fd.
           if fd < 0 then sq (modify (os_close os dirfd)) (ret (- 1))
           else
             bnd (\<lambda>w. map_option (\<lambda>r. (r, w))
                    (manifest_ids
                       (\<lambda>i. xnd_ckptfile_exists os dirfd i w \<or> xnd_compressed_ckpt_exists os dirfd i w)
                       min_xnd_pid max_xnd_pid [])) (\<lambda>ids.
               bnd (if of_nat (length ids) \<noteq> nr_ckpts then ret (- 1)
                    else
                      bnd (write_bytes os fd (manifest_bytes ids)) (\<lambda>bytes.
                        ret (if bytes \<noteq> length (manifest_bytes ids) then - 1 else 0)))
                 (\<lambda>r. sq (modify (os_close os dirfd)) (sq (modify (os_close os fd)) (ret r))))))"

definition sizeof_manifest :: nat where
  "sizeof_manifest = 4 + 4 * XND_MANIFEST_ENTRY_MAX"

definition manifest_of_bytes :: "bytes \<Rightarrow> nat \<times> u32 list" where
  "manifest_of_bytes b =
     (le_value (take 4 b),
      map (\<lambda>i. word_le (take 4 (drop (4 + 4 * i) b))) [0..<XND_MANIFEST_ENTRY_MAX])"

definition xnd_ckptfile_extract_manifest ::
  "('w, 'm) lib_os_scheme \<Rightarrow> string \<Rightarrow> ('w, (nat \<times> u32 list) option) prog" where
  "xnd_ckptfile_extract_manifest os path =
     bnd (sys (os_open os path Open_Read)) (\<lambda>fd.
       if fd < 0 then (if fd \<noteq> - 1 then sq (modify (os_close os fd)) (ret None) else ret None)
       else
         bnd (read_bytes os fd sizeof_manifest) (\<lambda>b.
         sq (modify (os_close os fd))
            (ret (if length b \<noteq> sizeof_manifest then None else Some (manifest_of_bytes b)))))"

section \<open>The shared cache\<close>

record shared_cache_info =
  sc_base :: u64
  sc_size :: u64
  sc_uuid :: bytes

text \<open>
  \<^verbatim>\<open>_dyld_get_shared_cache_range\<close> and \<^verbatim>\<open>_dyld_get_shared_cache_uuid\<close> of
  the dynamic linker are the argument \<open>dyld\<close>: base and size (base zero when there is
  no cache) and the uuid, if it has one.
\<close>

type_synonym dyld_cache = "(u64 \<times> u64) \<times> bytes option"

definition shared_cache_get_info :: "dyld_cache \<Rightarrow> shared_cache_info option" where
  "shared_cache_get_info dyld =
     (case dyld of ((base, sz), uuid) \<Rightarrow>
        if base = 0 then None
        else case uuid of
               None \<Rightarrow> None
             | Some u \<Rightarrow> Some \<lparr> sc_base = base, sc_size = sz, sc_uuid = u \<rparr>)"

definition shared_cache_cmp :: "shared_cache_info \<Rightarrow> shared_cache_info \<Rightarrow> int" where
  "shared_cache_cmp old new =
     (if sc_base old \<noteq> sc_base new \<or> sc_size old \<noteq> sc_size new then - 1
      else if sc_uuid old \<noteq> sc_uuid new then - 1 else 0)"

definition shared_cache_check :: "dyld_cache \<Rightarrow> shared_cache_info \<Rightarrow> int" where
  "shared_cache_check dyld old =
     (case shared_cache_get_info dyld of None \<Rightarrow> - 1 | Some new \<Rightarrow> shared_cache_cmp old new)"

section \<open>The header\<close>

definition XND_HEADER_MAGIC :: bytes where
  "XND_HEADER_MAGIC = map of_char ''xnd_ckptfile_v0'' @ [0]"

definition XND_CKPT_ENTRY_MAX :: nat where
  "XND_CKPT_ENTRY_MAX = 1024"

definition XND_CKPT_VM_REGION_MAX :: nat where
  "XND_CKPT_VM_REGION_MAX = 1023"

record xnd_ckpt_header =
  h_magic :: bytes
  h_xnd_uuid :: bytes
  h_xnd_pid :: u32
  h_xnd_ppid :: u32
  h_xnd_pgid :: u32
  h_pid :: u32
  h_ppid :: u32
  h_pgid :: u32
  h_sid :: u32
  h_task_self :: u32
  h_host_self :: u32
  h_num_peers :: u32
  h_is_root_of_tree :: u32
  h_entry_count :: u32
  h_region_count :: u32
  h_shared_cache_info :: shared_cache_info

text \<open>
  What \<^verbatim>\<open>getpid\<close>, \<^verbatim>\<open>getppid\<close>, \<^verbatim>\<open>getpgid(0)\<close>,
  \<^verbatim>\<open>getsid(0)\<close>, \<^verbatim>\<open>task_self_trap\<close> and
  \<^verbatim>\<open>host_self_trap\<close> answer.
\<close>

record self_ids =
  id_pid :: u32
  id_ppid :: u32
  id_pgid :: u32
  id_sid :: u32
  id_task_self :: u32
  id_host_self :: u32

definition xnd_ckptfile_write_header ::
  "dyld_cache \<Rightarrow> self_ids \<Rightarrow> u32 \<Rightarrow> u32 \<Rightarrow> bytes \<Rightarrow> u32 \<Rightarrow> u32 \<Rightarrow> u32 \<Rightarrow> u32 \<Rightarrow> bool
     \<Rightarrow> xnd_ckpt_header res" where
  "xnd_ckptfile_write_header dyld ids nr_regions nr_entries xnd_uuid xnd_pid xnd_ppid xnd_pgid
       num_peers is_root_of_tree =
     (case shared_cache_get_info dyld of
        None \<Rightarrow> Inl Aborted
      | Some info \<Rightarrow> Inr
          \<lparr> h_magic = XND_HEADER_MAGIC, h_xnd_uuid = xnd_uuid,
            h_xnd_pid = xnd_pid, h_xnd_ppid = xnd_ppid, h_xnd_pgid = xnd_pgid,
            h_pid = id_pid ids, h_ppid = id_ppid ids, h_pgid = id_pgid ids, h_sid = id_sid ids,
            h_task_self = id_task_self ids, h_host_self = id_host_self ids,
            h_num_peers = num_peers, h_is_root_of_tree = (if is_root_of_tree then 1 else 0),
            h_entry_count = nr_entries, h_region_count = nr_regions,
            h_shared_cache_info = info \<rparr>)"

definition xnd_ckptfile_valid :: "dyld_cache \<Rightarrow> xnd_ckpt_header \<Rightarrow> bool" where
  "xnd_ckptfile_valid dyld hdr =
     (if h_magic hdr \<noteq> XND_HEADER_MAGIC then False
      else if shared_cache_check dyld (h_shared_cache_info hdr) < 0 then False
      else if unat (h_entry_count hdr) > XND_CKPT_ENTRY_MAX \<or>
              unat (h_region_count hdr) > XND_CKPT_VM_REGION_MAX then False
      else True)"

text \<open>
  \<^verbatim>\<open>xnd_ckptfile_extract_header\<close> tests a descriptor that it never opens, so it
  fails before it reads anything.
\<close>

definition xnd_ckptfile_extract_header :: "string \<Rightarrow> int" where
  "xnd_ckptfile_extract_header path = (let fd = (- 1 :: int) in if fd < 0 then - 1 else 0)"

section \<open>Parsing a path\<close>

text \<open>The pieces of the \<^verbatim>\<open>sscanf\<close> format: literal text, and \<^verbatim>\<open>%llu\<close>/\<^verbatim>\<open>%u\<close>.\<close>

fun scan_lit :: "string \<Rightarrow> string \<Rightarrow> string option" where
  "scan_lit [] s = Some s"
| "scan_lit (c # cs) [] = None"
| "scan_lit (c # cs) (x # xs) = (if c = x then scan_lit cs xs else None)"

definition scan_uint :: "string \<Rightarrow> (int \<times> string) option" where
  "scan_uint s =
     (let s1 = dropWhile is_space s;
          (neg, s2) = (case s1 of
             [] \<Rightarrow> (False, [])
           | c # cs \<Rightarrow> if c = CHR ''-'' then (True, cs) else if c = CHR ''+'' then (False, cs) else (False, c # cs))
      in if s2 = [] \<or> \<not> is_digit (hd s2) then None
         else let (n, rest) = scan_digits 0 s2 in Some (if neg then - int n else int n, rest))"

definition sscanf_ckpt :: "string \<Rightarrow> (int \<times> int) option" where
  "sscanf_ckpt s =
     (case scan_lit ''epoch-'' s of None \<Rightarrow> None | Some s1 \<Rightarrow>
      (case scan_uint s1 of None \<Rightarrow> None | Some (ep, s2) \<Rightarrow>
       (case scan_lit ''/ckpt-'' s2 of None \<Rightarrow> None | Some s3 \<Rightarrow>
        (case scan_uint s3 of None \<Rightarrow> None | Some (i, _) \<Rightarrow> Some (ep, i)))))"

text \<open>
  The text after the uuid is taken from \<^verbatim>\<open>path + 36 + sizeof("-checkpoints/")\<close>
  on, and \<^verbatim>\<open>sizeof\<close> counts the terminator of the literal. Pointing behind the
  terminator of the path is outside of the string.
\<close>

definition xnd_ckptfile_parse ::
  "('w, 'm) lib_os_scheme \<Rightarrow> string \<Rightarrow> (int \<times> (bytes \<times> u64 \<times> u32) option) res" where
  "xnd_ckptfile_parse os path =
     (case os_uuid_parse os (take 36 path) of
        None \<Rightarrow> Inr (- 1, None)
      | Some uuid \<Rightarrow>
          let off = 36 + sizeof_lit ''-checkpoints/''
          in if length path < off then Inl Undefined
             else case sscanf_ckpt (drop off path) of
                    None \<Rightarrow> Inr (- 1, None)
                  | Some (ep, i) \<Rightarrow> Inr (0, Some (uuid, of_int ep, of_int i)))"

section \<open>Lemmas\<close>

lemma show_u32_length: "length (show_nat (unat (x :: u32))) \<le> 10"
  using unsigned_less [of x, where ?'a = nat] by (intro show_nat_length) auto

lemma show_u64_length: "length (show_nat (unat (x :: u64))) \<le> 20"
  using unsigned_less [of x, where ?'a = nat] by (intro show_nat_length) auto

lemma ckptfile_fmt_fits:
  "snprintf XND_CKPTFILE_MAXLEN (ckptfile_fmt x) = ckptfile_fmt x"
  "snprintf XND_CKPTFILE_MAXLEN (compressed_ckpt_fmt x) = compressed_ckpt_fmt x"
  using show_u32_length [of x]
  by (simp_all add: ckpt_sizes ckptfile_fmt_def compressed_ckpt_fmt_def)

lemma xnd_ckptdir_name_eq:
  "xnd_ckptdir_name os uuid epoch = (os_uuid_unparse os uuid @ ''-checkpoints'', ''epoch-'' @ show_nat (unat epoch))"
  using show_u64_length [of epoch] by (simp add: xnd_ckptdir_name_def ckpt_sizes)

lemma xnd_ckptpath_name_eq:
  assumes "length (os_uuid_unparse os uuid) = 36"
  shows "xnd_ckptpath_name os uuid epoch xnd_pid z =
           os_uuid_unparse os uuid @ ''-checkpoints/epoch-'' @ show_nat (unat epoch) @ ''/ckpt-'' @
           show_nat (unat xnd_pid) @ (if z then ''.xnd.gz'' else ''.xnd'')"
  using assms show_u64_length [of epoch] show_u32_length [of xnd_pid]
  by (simp add: xnd_ckptpath_name_def ckpt_sizes ckptfile_fmt_def Let_def)

text \<open>The candidates the manifest loop runs through.\<close>

definition ids_between :: "u32 \<Rightarrow> u32 \<Rightarrow> u32 list" where
  "ids_between lo hi = map of_nat [unat lo..<unat hi + 1]"

lemma ids_between_rec:
  assumes "lo \<le> hi" and "hi \<noteq> - 1"
  shows "ids_between lo hi = lo # ids_between (lo + 1) hi"
proof -
  have "lo \<noteq> - 1" using assms by (metis word_order.extremum_unique)
  then have "1 + lo \<noteq> 0" by (metis add.commute eq_neg_iff_add_eq_0)
  then have "unat (lo + 1) = unat lo + 1"
    using unatSuc [of lo] by (simp add: add.commute)
  moreover have "unat lo < unat hi + 1" using assms(1) by (simp add: word_le_nat_alt)
  ultimately show ?thesis
    unfolding ids_between_def by (subst upt_conv_Cons) simp_all
qed

lemma ids_between_empty: "\<not> lo \<le> hi \<Longrightarrow> ids_between lo hi = []"
  by (simp add: ids_between_def word_le_nat_alt)

lemma manifest_ids_eq:
  assumes "mx \<noteq> - 1" and "length acc + length (filter ex (ids_between i mx)) \<le> XND_MANIFEST_ENTRY_MAX"
  shows "manifest_ids ex i mx acc = Some (Inr (acc @ filter ex (ids_between i mx)))"
  using assms(2)
proof (induction "length (ids_between i mx)" arbitrary: i acc)
  case 0
  then have "\<not> i \<le> mx" using ids_between_rec [OF _ assms(1)] by fastforce
  then show ?case by (simp add: manifest_ids.simps [of ex i] ids_between_empty)
next
  case (Suc n)
  then have le: "i \<le> mx" using ids_between_empty by fastforce
  note rec = ids_between_rec [OF le assms(1)]
  then have "n = length (ids_between (i + 1) mx)" using Suc(2) by simp
  note IH = Suc(1) [OF this]
  show ?case
    using IH [of acc] IH [of "acc @ [i]"] Suc(3) rec le
    by (cases "ex i") (simp_all add: manifest_ids.simps [of ex i])
qed

lemma manifest_bytes_length:
  "length ids \<le> XND_MANIFEST_ENTRY_MAX \<Longrightarrow> length (manifest_bytes ids) = sizeof_manifest"
  by (simp add: manifest_bytes_def sizeof_manifest_def length_concat comp_def sum_list_triv
      sum_list_replicate)

lemma nth_chunk:
  assumes "\<And>x. x \<in> set xs \<Longrightarrow> length (f x) = k" and "i < length xs"
  shows "take k (drop (k * i) (concat (map f xs))) = f (xs ! i)"
  using assms
proof (induction xs arbitrary: i)
  case (Cons x xs)
  then show ?case by (cases i) (auto simp: mult.commute)
qed simp

text \<open>
  A file system in which every call succeeds and nothing is stored, to run the model on
  concrete inputs.
\<close>

definition quiet_os :: "unit lib_os" where
  "quiet_os =
     \<lparr> os_access = (\<lambda>_ _. True), os_faccessat = (\<lambda>_ _ _. True), os_readdir = (\<lambda>_ _. Some []),
       os_mkdir = (\<lambda>_ w. (0, w)), os_mkdirat = (\<lambda>_ _ w. (0, w)),
       os_unlink = (\<lambda>_ w. (0, w)), os_unlinkat = (\<lambda>_ _ _ w. (0, w)),
       os_open = (\<lambda>_ _ w. (5, w)), os_openat = (\<lambda>_ _ _ w. (6, w)), os_close = (\<lambda>_ w. w),
       os_write = (\<lambda>_ b w. (int (length b), w)), os_read = (\<lambda>_ _ w. (Some [], w)),
       os_uuid_unparse = (\<lambda>_. replicate 36 CHR ''0''),
       os_uuid_parse = (\<lambda>s. if length s = 36 then Some (replicate 16 0) else None) \<rparr>"

lemma quiet_uuid: "length (os_uuid_unparse quiet_os u) = 36"
  by (simp add: quiet_os_def)

section \<open>Properties\<close>

text \<open>
  C24: what is read back from a manifest is what was recorded: the number of checkpoints, and
  the ids in ascending order, each one the id of an existing checkpoint file between the
  bounds, none left out. The hypotheses are the bounds under which the loop that collects
  them ends and stays inside its array.
\<close>

theorem manifest_roundtrip:
  assumes "mx \<noteq> - 1" and "length (filter ex (ids_between mn mx)) \<le> XND_MANIFEST_ENTRY_MAX"
  shows "\<exists>ids. manifest_ids ex mn mx [] = Some (Inr ids) \<and>
           ids = filter ex (ids_between mn mx) \<and>
           length (manifest_bytes ids) = sizeof_manifest \<and>
           fst (manifest_of_bytes (manifest_bytes ids)) = length ids \<and>
           take (length ids) (snd (manifest_of_bytes (manifest_bytes ids))) = ids"
proof -
  let ?ids = "filter ex (ids_between mn mx)"
  let ?all = "?ids @ replicate (XND_MANIFEST_ENTRY_MAX - length ?ids) 0"
  have len: "length ?all = XND_MANIFEST_ENTRY_MAX" using assms(2) by simp
  have bytes: "manifest_bytes ?ids = le_bytes 4 (length ?ids) @ concat (map (le_word 4) ?all)"
    by (simp add: manifest_bytes_def)
  have "word_le (take 4 (drop (4 + 4 * i) (manifest_bytes ?ids))) = ?all ! i"
    if "i < XND_MANIFEST_ENTRY_MAX" for i
    using that len nth_chunk [of ?all "le_word 4" 4 i] unfolding bytes
    by (simp flip: drop_drop)
  then have "snd (manifest_of_bytes (manifest_bytes ?ids)) = ?all"
    using len by (auto simp: manifest_of_bytes_def intro!: nth_equalityI)
  moreover have "fst (manifest_of_bytes (manifest_bytes ?ids)) = length ?ids"
    using assms(2) by (simp add: manifest_of_bytes_def bytes le_value_bytes XND_MANIFEST_ENTRY_MAX_def)
  ultimately show ?thesis
    using manifest_ids_eq [of mx "[]" ex mn] assms manifest_bytes_length [of ?ids] by simp
qed

theorem manifest_roundtrip_witness:
  "\<exists>ids. manifest_ids (\<lambda>i. i \<noteq> 1001) 1000 1003 [] = Some (Inr ids) \<and> ids = [1000, 1002, 1003]"
proof -
  have "ids_between 1000 1003 = [1000, 1001, 1002, 1003]"
    by (simp add: ids_between_def upt_rec)
  then show ?thesis
    using manifest_roundtrip [of 1003 "\<lambda>i. i \<noteq> 1001" 1000]
    by (simp add: XND_MANIFEST_ENTRY_MAX_def)
qed

text \<open>
  C27: no checkpoint path the program generates is truncated by its buffer, and distinct
  epochs, processes or compression settings have distinct paths.
\<close>

theorem xnd_ckptpath_name_injective:
  assumes "length (os_uuid_unparse os uuid) = 36"
    and "xnd_ckptpath_name os uuid e p z = xnd_ckptpath_name os uuid e' p' z'"
  shows "length (xnd_ckptpath_name os uuid e p z) < XND_CKPTPATH_MAXLEN \<and> e = e' \<and> p = p' \<and> z = z'"
proof -
  let ?suf = "\<lambda>z. if z then ''.xnd.gz'' else ''.xnd''"
  have tail: "show_nat (unat e) @ ''/ckpt-'' @ show_nat (unat p) @ ?suf z =
      show_nat (unat e') @ ''/ckpt-'' @ show_nat (unat p') @ ?suf z'"
    using assms(2) unfolding xnd_ckptpath_name_eq [OF assms(1)] by simp
  have 1: "scan_digits 0 (show_nat (unat x) @ ''/ckpt-'' @ y) = (unat x, ''/ckpt-'' @ y)" for x :: u64 and y
    by (rule scan_show_nat_rest) (simp add: is_digit_def)
  have "(unat e, ''/ckpt-'' @ show_nat (unat p) @ ?suf z) = (unat e', ''/ckpt-'' @ show_nat (unat p') @ ?suf z')"
    unfolding 1 [symmetric] tail ..
  then have e: "unat e = unat e'" and tail2: "show_nat (unat p) @ ?suf z = show_nat (unat p') @ ?suf z'"
    by simp_all
  have 2: "scan_digits 0 (show_nat (unat x) @ ?suf y) = (unat x, ?suf y)" for x :: u32 and y
    by (rule scan_show_nat_rest) (simp add: is_digit_def)
  have "(unat p, ?suf z) = (unat p', ?suf z')"
    unfolding 2 [symmetric] tail2 ..
  then have "unat p = unat p'" "?suf z = ?suf z'"
    by simp_all
  then have "p = p'" "z = z'" by (auto simp: word_unat_eq_iff split: if_splits)
  moreover have "e = e'" using e by (simp add: word_unat_eq_iff)
  ultimately show ?thesis
    using assms(1) show_u64_length [of e] show_u32_length [of p]
    by (simp add: xnd_ckptpath_name_eq ckpt_sizes)
qed

theorem xnd_ckptpath_name_injective_witness:
  "length (xnd_ckptpath_name quiet_os [] 3 1000 True) < XND_CKPTPATH_MAXLEN"
  using xnd_ckptpath_name_injective [OF quiet_uuid refl] by blast

text \<open>
  C36: the path of a checkpoint file is never accepted by the function that is meant to take
  it apart: the text after the uuid is read one character too late, at \<^verbatim>\<open>poch-\<close>,
  and the format starts with \<^verbatim>\<open>epoch-\<close>.
\<close>

theorem xnd_ckptfile_parse_rejects_all:
  assumes "length (os_uuid_unparse os uuid) = 36"
  shows "xnd_ckptfile_parse os (xnd_ckptpath_name os uuid epoch xnd_pid z) = Inr (- 1, None)"
proof -
  define t where "t = ''och-'' @ show_nat (unat epoch) @ ''/ckpt-'' @ show_nat (unat xnd_pid) @
      (if z then ''.xnd.gz'' else ''.xnd'')"
  have path: "xnd_ckptpath_name os uuid epoch xnd_pid z =
      (os_uuid_unparse os uuid @ ''-checkpoints/e'') @ CHR ''p'' # t"
    unfolding xnd_ckptpath_name_eq [OF assms] t_def by simp
  have "drop 50 ((os_uuid_unparse os uuid @ ''-checkpoints/e'') @ CHR ''p'' # t) = CHR ''p'' # t"
    using assms by simp
  moreover have "50 \<le> length ((os_uuid_unparse os uuid @ ''-checkpoints/e'') @ CHR ''p'' # t)"
    using assms by simp
  moreover have "scan_lit ''epoch-'' (CHR ''p'' # t) = None"
    by simp
  then have "sscanf_ckpt (CHR ''p'' # t) = None"
    by (simp only: sscanf_ckpt_def option.case)
  ultimately show ?thesis
    unfolding path xnd_ckptfile_parse_def sizeof_lit_def Let_def
    by (simp del: drop_append append_assoc split: option.split)
qed

theorem xnd_ckptfile_parse_rejects_all_witness:
  "xnd_ckptfile_parse quiet_os (xnd_ckptpath_name quiet_os [] 0 1000 False) = Inr (- 1, None)"
  by (rule xnd_ckptfile_parse_rejects_all [OF quiet_uuid])

end
