(* ===== verification/Env.thy ===== *)
theory Env
  imports Encoding
begin

text \<open>
  \<^verbatim>\<open>util/env.c\<close>: the settings that the launcher, the coordinator and the processes
  pass on through the environment, and the pids that survive \<^verbatim>\<open>exec\<close> there.

  The environment maps names to values. \<^verbatim>\<open>setenv\<close> succeeds except when memory is
  exhausted, which is not modelled; the assertions on its result always hold.
\<close>

type_synonym environ = "string \<Rightarrow> string option"

definition setenv :: "string \<Rightarrow> string \<Rightarrow> environ \<Rightarrow> environ" where
  "setenv var val e = e(var \<mapsto> val)"

definition unsetenv :: "string \<Rightarrow> environ \<Rightarrow> environ" where
  "unsetenv var e = e(var := None)"

definition SIGUSR2 :: int where "SIGUSR2 = 31"
definition NSIG :: int where "NSIG = 32"
definition XND_DEFAULT_CKPT_SIGNAL :: int where "XND_DEFAULT_CKPT_SIGNAL = SIGUSR2"

text \<open>
  The text of a pid goes through a buffer of eleven bytes, which holds ten characters.
\<close>

definition env_set_pid :: "string \<Rightarrow> int \<Rightarrow> environ \<Rightarrow> environ" where
  "env_set_pid var pid e = setenv var (snprintf 11 (show_int pid)) e"

definition env_get_pid :: "string \<Rightarrow> environ \<Rightarrow> int res" where
  "env_get_pid var e = (case e var of None \<Rightarrow> Inl Aborted | Some value \<Rightarrow> Inr (atoi value))"

definition env_set_pid_info :: "int \<Rightarrow> int \<Rightarrow> int \<Rightarrow> int \<Rightarrow> environ \<Rightarrow> environ" where
  "env_set_pid_info virt_pid real_pid virt_ppid real_ppid e =
     (let e1 = (if virt_pid \<noteq> - 1 then env_set_pid ''XND_VIRTUAL_PID'' virt_pid e else e);
          e2 = (if real_pid \<noteq> - 1 then env_set_pid ''XND_REAL_PID'' real_pid e1 else e1);
          e3 = (if virt_ppid \<noteq> - 1 then env_set_pid ''XND_VIRTUAL_PPID'' virt_ppid e2 else e2)
      in if real_ppid \<noteq> - 1 then env_set_pid ''XND_REAL_PPID'' real_ppid e3 else e3)"

text \<open>The four out parameters, each of which may be null.\<close>

definition env_get_pid_info ::
  "bool \<Rightarrow> bool \<Rightarrow> bool \<Rightarrow> bool \<Rightarrow> environ \<Rightarrow> (int option \<times> int option \<times> int option \<times> int option) res" where
  "env_get_pid_info want_vp want_rp want_vpp want_rpp e =
     (let get = (\<lambda>want var. if want then res_bind (env_get_pid var e) (\<lambda>p. Inr (Some p)) else Inr None)
      in res_bind (get want_vp ''XND_VIRTUAL_PID'') (\<lambda>vp.
         res_bind (get want_rp ''XND_REAL_PID'') (\<lambda>rp.
         res_bind (get want_vpp ''XND_VIRTUAL_PPID'') (\<lambda>vpp.
         res_bind (get want_rpp ''XND_REAL_PPID'') (\<lambda>rpp.
           Inr (vp, rp, vpp, rpp))))))"

definition env_set_program_name :: "string \<Rightarrow> environ \<Rightarrow> environ" where
  "env_set_program_name value = setenv ''XND_PROGRAM'' value"

definition env_get_program_name :: "environ \<Rightarrow> string option" where
  "env_get_program_name e = e ''XND_PROGRAM''"

definition env_set_tmp_binary :: "string \<Rightarrow> environ \<Rightarrow> environ" where
  "env_set_tmp_binary value = setenv ''XND_TMP_BINARY'' value"

definition env_get_tmp_binary :: "environ \<Rightarrow> string option" where
  "env_get_tmp_binary e = e ''XND_TMP_BINARY''"

definition env_set_unlink_tmp :: "string \<Rightarrow> environ \<Rightarrow> environ" where
  "env_set_unlink_tmp value = setenv ''XND_UNLINK_TMP'' value"

definition env_unlink_tmp_at_init :: "environ \<Rightarrow> bool" where
  "env_unlink_tmp_at_init e = (case e ''XND_UNLINK_TMP'' of None \<Rightarrow> False | Some value \<Rightarrow> atoi value = 0)"

definition env_unlink_tmp_at_exit :: "environ \<Rightarrow> bool" where
  "env_unlink_tmp_at_exit e = (case e ''XND_UNLINK_TMP'' of None \<Rightarrow> False | Some value \<Rightarrow> atoi value = 1)"

definition env_set_ckpt_signal :: "string \<Rightarrow> environ \<Rightarrow> environ" where
  "env_set_ckpt_signal s e =
     (let sig = atoi s;
          sig' = (if sig \<le> 0 \<or> sig \<ge> NSIG \<or> sig = 9 \<or> sig = 17 then XND_DEFAULT_CKPT_SIGNAL else sig)
      in setenv ''XND_CKPT_SIGNAL'' (snprintf 11 (show_int sig')) e)"

text \<open>The static variable of \<^verbatim>\<open>env_get_ckpt_signal\<close> is the cache argument.\<close>

definition env_get_ckpt_signal :: "int \<Rightarrow> environ \<Rightarrow> int \<times> int" where
  "env_get_ckpt_signal cache e =
     (let ckpt_sig = (if cache = - 1
                      then (case e ''XND_CKPT_SIGNAL'' of Some value \<Rightarrow> atoi value | None \<Rightarrow> XND_DEFAULT_CKPT_SIGNAL)
                      else cache)
      in (ckpt_sig, ckpt_sig))"

definition env_set_dyld_shared_region_private :: "environ \<Rightarrow> environ" where
  "env_set_dyld_shared_region_private = setenv ''DYLD_SHARED_REGION'' ''private''"

definition env_unset_dyld_shared_region :: "environ \<Rightarrow> environ" where
  "env_unset_dyld_shared_region = unsetenv ''DYLD_SHARED_REGION''"

definition env_get_dyld_shared_region :: "environ \<Rightarrow> string option" where
  "env_get_dyld_shared_region e = e ''DYLD_SHARED_REGION''"

definition env_dyld_shared_region_is_private :: "environ \<Rightarrow> bool" where
  "env_dyld_shared_region_is_private e =
     (case e ''DYLD_SHARED_REGION'' of None \<Rightarrow> False | Some value \<Rightarrow> if value \<noteq> ''private'' then False else True)"

definition env_set_zlib_compression :: "string \<Rightarrow> environ \<Rightarrow> environ" where
  "env_set_zlib_compression value = setenv ''XND_USE_ZLIB'' value"

definition env_use_zlib_compression :: "environ \<Rightarrow> bool" where
  "env_use_zlib_compression e =
     (case e ''XND_USE_ZLIB'' of None \<Rightarrow> False | Some value \<Rightarrow> if atoi value \<noteq> 0 then True else False)"

definition env_set_ckpt_interval :: "string \<Rightarrow> environ \<Rightarrow> environ" where
  "env_set_ckpt_interval interval = setenv ''XND_CKPT_INTERVAL'' interval"

definition env_get_ckpt_interval :: "environ \<Rightarrow> int" where
  "env_get_ckpt_interval e = (case e ''XND_CKPT_INTERVAL'' of Some value \<Rightarrow> atoi value | None \<Rightarrow> 0)"

section \<open>Properties\<close>

lemma show_pid_fits:
  assumes "0 \<le> p" and "p < 2 ^ 31"
  shows "snprintf 11 (show_int p) = show_int p"
proof -
  have "nat p < 10 ^ 10" using assms by (simp add: nat_less_iff)
  from show_nat_length [OF this] have "length (show_nat (nat p)) \<le> 10" by simp
  then show ?thesis using assms by (simp add: show_int_def)
qed

lemma show_sig_fits:
  assumes "0 < p" and "p < NSIG"
  shows "snprintf 11 (show_int p) = show_int p"
  using assms by (intro show_pid_fits) (auto simp: NSIG_def)

text \<open>
  The pids that a process stores in the environment before \<^verbatim>\<open>exec\<close> are the
  pids that the new image reads, whichever of the four it asks for: no pid is cut by the
  eleven-byte buffer and no name is mixed up with another.
\<close>

theorem env_pid_info_roundtrip:
  assumes "0 \<le> vp" "0 \<le> rp" "0 \<le> vpp" "0 \<le> rpp" and "vp < 2 ^ 31" "rp < 2 ^ 31" "vpp < 2 ^ 31" "rpp < 2 ^ 31"
  shows "env_get_pid_info a b c d (env_set_pid_info vp rp vpp rpp e) =
           Inr (if a then Some vp else None, if b then Some rp else None,
                if c then Some vpp else None, if d then Some rpp else None)"
  using assms
  by (simp add: env_get_pid_info_def env_set_pid_info_def env_get_pid_def env_set_pid_def setenv_def
      show_pid_fits)

theorem env_pid_info_roundtrip_witness:
  "env_get_pid_info True True False True (env_set_pid_info 3 4711 2 2147483647 (\<lambda>_. None)) =
     Inr (Some 3, Some 4711, None, Some 2147483647)"
  using env_pid_info_roundtrip [of 3 4711 2 2147483647 True True False True "\<lambda>_. None"] by simp

text \<open>
  Whatever text the user gives, the checkpoint signal read back from the environment is a
  catchable signal: positive, below \<^verbatim>\<open>NSIG\<close> and neither
  \<^verbatim>\<open>SIGKILL\<close> nor \<^verbatim>\<open>SIGSTOP\<close>; a valid number is taken as given.
\<close>

theorem env_ckpt_signal_valid:
  "\<exists>sig. env_get_ckpt_signal (- 1) (env_set_ckpt_signal s e) = (sig, sig) \<and>
     0 < sig \<and> sig < NSIG \<and> sig \<noteq> 9 \<and> sig \<noteq> 17 \<and>
     (0 < atoi s \<and> atoi s < NSIG \<and> atoi s \<noteq> 9 \<and> atoi s \<noteq> 17 \<longrightarrow> sig = atoi s)"
proof -
  define sig where "sig = (if atoi s \<le> 0 \<or> atoi s \<ge> NSIG \<or> atoi s = 9 \<or> atoi s = 17
    then XND_DEFAULT_CKPT_SIGNAL else atoi s)"
  have ok: "0 < sig" "sig < NSIG" "sig \<noteq> 9" "sig \<noteq> 17"
    by (auto simp: sig_def XND_DEFAULT_CKPT_SIGNAL_def SIGUSR2_def NSIG_def)
  have "env_set_ckpt_signal s e = setenv ''XND_CKPT_SIGNAL'' (snprintf 11 (show_int sig)) e"
    by (simp add: env_set_ckpt_signal_def sig_def Let_def)
  then have "env_get_ckpt_signal (- 1) (env_set_ckpt_signal s e) = (sig, sig)"
    using ok by (simp add: env_get_ckpt_signal_def setenv_def show_sig_fits)
  then show ?thesis using ok by (auto simp: sig_def)
qed

theorem env_ckpt_signal_valid_witness:
  "\<exists>sig. env_get_ckpt_signal (- 1) (env_set_ckpt_signal ''9'' (\<lambda>_. None)) = (sig, sig) \<and> sig \<noteq> 9"
  using env_ckpt_signal_valid [of "''9''" "\<lambda>_. None"] by blast

end
