(* ===== verification/Coord_Msg.thy ===== *)
theory Coord_Msg
  imports Ckptfile
begin

text \<open>
  \<^verbatim>\<open>coordinator/xnd_coord_api.h\<close>: the messages between the coordinator and the
  processes under its control, and the system calls both sides use.
\<close>

datatype xnd_msghdr =
    XND_CONNECT_LAUNCH
  | XND_CONNECT_RESTART
  | XND_EXIT
  | XND_ATFORK_PREPARE
  | XND_ATFORK_CHILD
  | XND_ATFORK_FAILED
  | XND_COMMAND
  | XND_COORD_ACK
  | XND_CLIENT_ACK
  | XND_VIRT_TO_REAL
  | XND_REAL_TO_VIRT
  | XND_CKPT_REQUEST
  | XND_CKPT_READY
  | XND_CKPT_START
  | XND_CKPT_DONE
  | XND_RESUME_AFTER_CKPT
  | XND_RESTART
  | XND_RESUME_AFTER_RESTART

datatype xnd_cmd = XND_NULL_CMD | XND_CKPT_CMD | XND_EXIT_CMD | XND_KILL_CMD

datatype coord_barrier_type = COORD_BARRIER_PRECKPT | COORD_BARRIER_POSTCKPT | COORD_BARRIER_POSTRESTART

datatype xnd_coord_return = XND_SUCCESS | XND_FAILURE

record xnd_msg =
  m_hdr :: xnd_msghdr
  m_cmd :: xnd_cmd
  m_ret :: xnd_coord_return
  m_xnd_uuid :: bytes
  m_xnd_pid :: u32
  m_xnd_ppid :: u32
  m_xnd_pgid :: u32
  m_epoch :: u64
  m_num_peers :: u32
  m_is_root_of_tree :: u32
  m_ckpt_interval :: int
  m_real_pid :: pid_t
  m_real_ppid :: pid_t
  m_virt_pid :: pid_t
  m_virt_ppid :: pid_t

text \<open>
  A message on the stack before its fields are set; fields a function leaves alone have
  these values.
\<close>

definition blank_msg :: xnd_msg where
  "blank_msg =
     \<lparr> m_hdr = XND_CONNECT_LAUNCH, m_cmd = XND_NULL_CMD, m_ret = XND_SUCCESS, m_xnd_uuid = [],
       m_xnd_pid = 0, m_xnd_ppid = 0, m_xnd_pgid = 0, m_epoch = 0, m_num_peers = 0,
       m_is_root_of_tree = 0, m_ckpt_interval = 0,
       m_real_pid = 0, m_real_ppid = 0, m_virt_pid = 0, m_virt_ppid = 0 \<rparr>"

text \<open>The size of \<^verbatim>\<open>struct xnd_msg\<close>: its fields take 76 bytes, aligned to eight.\<close>

definition sizeof_xnd_msg :: nat where
  "sizeof_xnd_msg = 80"

text \<open>
  System calls on processes and sockets. \<open>os_gone pid\<close> is \<^verbatim>\<open>kill(pid, 0)\<close>
  failing with \<^verbatim>\<open>ESRCH\<close>. \<open>os_select\<close> takes whether the descriptors are
  tested for writing, and answers its status and the descriptors that are ready.
  \<open>os_send\<close> and \<open>os_recv\<close> transfer the memory image of a message with
  \<^verbatim>\<open>writeall\<close> and \<^verbatim>\<open>readall\<close> and answer the number of bytes moved.
\<close>

record 'w net_os = "'w lib_os" +
  os_gone :: "pid_t \<Rightarrow> 'w \<Rightarrow> bool \<times> 'w"
  os_kill :: "pid_t \<Rightarrow> int \<Rightarrow> 'w \<Rightarrow> 'w"
  os_getpid :: "'w \<Rightarrow> pid_t"
  os_getppid :: "'w \<Rightarrow> pid_t"
  os_time :: "'w \<Rightarrow> int \<times> 'w"
  os_malloc :: "'w \<Rightarrow> bool \<times> 'w"
  os_getenv :: "string \<Rightarrow> 'w \<Rightarrow> string option"
  os_uuid_generate :: "'w \<Rightarrow> bytes \<times> 'w"
  os_socket :: "'w \<Rightarrow> fd \<times> 'w"
  os_bind :: "fd \<Rightarrow> string \<Rightarrow> 'w \<Rightarrow> int \<times> 'w"
  os_listen :: "fd \<Rightarrow> int \<Rightarrow> 'w \<Rightarrow> int \<times> 'w"
  os_connect :: "fd \<Rightarrow> string \<Rightarrow> 'w \<Rightarrow> int \<times> 'w"
  os_accept :: "fd \<Rightarrow> 'w \<Rightarrow> fd \<times> 'w"
  os_select :: "bool \<Rightarrow> fd list \<Rightarrow> 'w \<Rightarrow> (int \<times> fd list) \<times> 'w"
  os_send :: "fd \<Rightarrow> xnd_msg \<Rightarrow> 'w \<Rightarrow> nat \<times> 'w"
  os_recv :: "fd \<Rightarrow> 'w \<Rightarrow> (nat \<times> xnd_msg) \<times> 'w"

definition XND_COORD_PATH :: string where
  "XND_COORD_PATH = ''xnd_coordinator_v0''"

definition XND_COORD_RESTART_FLAG :: string where
  "XND_COORD_RESTART_FLAG = ''xnd_coord_restart''"

end
