(* ===== verification/Coord.thy ===== *)
theory Coord
  imports Coord_Msg Proc_List Pid_Table Env
begin

text \<open>
  \<^verbatim>\<open>coordinator/xnd_coord.c\<close>: the coordinator process. It accepts connections from
  processes that start, fork or restart, hands out virtual process ids, answers pid
  translations, and runs the checkpoint and restart protocols.

  Its globals are one record, with the world behind the system calls and a log of the messages
  that were sent and received completely. The process list is the list of
  \<^theory_text>\<open>Proc_List\<close> (addresses and processes, head first) whose operations the
  pointer code implements; using an address that is no longer in it is a use after
  \<^verbatim>\<open>free\<close> and has the result \<^const>\<open>Undefined\<close>. \<^verbatim>\<open>malloc\<close>
  returns an address that was never used before. Every handler is a command over this record.
\<close>

section \<open>State\<close>

datatype event = Ev_Send fd xnd_msghdr | Ev_Recv fd xnd_msghdr | Ev_Manifest

record 'w coord =
  c_procs :: plist
  c_table :: "pid_t vtable"
  c_uuid :: bytes
  c_epoch :: u64
  c_next_virt_pid :: pid_t
  c_next_xnd_pid :: u32
  c_num_peers :: u32
  c_listen_fd :: fd
  c_ckpt_interval :: int
  c_next_addr :: nat
  c_sig_blocked :: bool
  c_handlers :: "int list"
  c_log :: "event list"
  c_world :: 'w

definition INITIAL_VIRT_PID :: pid_t where "INITIAL_VIRT_PID = 1"
definition INITIAL_XND_PID :: u32 where "INITIAL_XND_PID = 1000"
definition COORD_MAX_PROC :: int where "COORD_MAX_PROC = 256"
definition COORD_EXIT_SUCCESS :: int where "COORD_EXIT_SUCCESS = 0"
definition COORD_EXIT_FAILURE :: int where "COORD_EXIT_FAILURE = 222"
definition COORD_HEARTBEAT_INTERVAL :: nat where "COORD_HEARTBEAT_INTERVAL = 16"

definition SIGINT :: int where "SIGINT = 2"
definition SIGQUIT :: int where "SIGQUIT = 3"
definition SIGKILL :: int where "SIGKILL = 9"
definition SIGTERM :: int where "SIGTERM = 15"

definition coord_info0 :: "'w \<Rightarrow> 'w coord" where
  "coord_info0 w =
     \<lparr> c_procs = [], c_table = [], c_uuid = [], c_epoch = 0, c_next_virt_pid = INITIAL_VIRT_PID,
       c_next_xnd_pid = INITIAL_XND_PID, c_num_peers = 0, c_listen_fd = - 1, c_ckpt_interval = 0,
       c_next_addr = 0, c_sig_blocked = False, c_handlers = [], c_log = [], c_world = w \<rparr>"

type_synonym ('w, 'a) coord_prog = "('w coord, 'a) prog"

text \<open>System calls, and commands over the world, from the coordinator.\<close>

definition call :: "('w \<Rightarrow> 'a \<times> 'w) \<Rightarrow> ('w, 'a) coord_prog" where
  "call f = (\<lambda>s. case f (c_world s) of (a, w) \<Rightarrow> Some (Inr a, s\<lparr> c_world := w \<rparr>))"

definition on_world :: "('w, 'a) prog \<Rightarrow> ('w, 'a) coord_prog" where
  "on_world m = zoom c_world (\<lambda>w s. s\<lparr> c_world := w \<rparr>) m"

definition log_event :: "event \<Rightarrow> ('w, unit) coord_prog" where
  "log_event e = modify (\<lambda>s. s\<lparr> c_log := c_log s @ [e] \<rparr>)"

text \<open>Reading and writing a process through its address.\<close>

definition deref :: "nat \<Rightarrow> ('w, proc) coord_prog" where
  "deref a = bnd (gets (\<lambda>s. map_of (c_procs s) a)) (\<lambda>p.
     case p of None \<Rightarrow> halt Undefined | Some p \<Rightarrow> ret p)"

definition set_proc :: "nat \<Rightarrow> (proc \<Rightarrow> proc) \<Rightarrow> ('w, unit) coord_prog" where
  "set_proc a f = modify (\<lambda>s. s\<lparr> c_procs := plist_update a f (c_procs s) \<rparr>)"

section \<open>Processes and exit\<close>

definition proc_exit_callback :: "('w, 'm) net_os_scheme \<Rightarrow> proc \<Rightarrow> 'w coord \<Rightarrow> 'w coord" where
  "proc_exit_callback os p s =
     (let w1 = (if p_fd p \<noteq> - 1 then os_close os (p_fd p) (c_world s) else c_world s);
          w2 = (if p_oob_fd p \<noteq> - 1 then os_close os (p_oob_fd p) w1 else w1)
      in s\<lparr> c_world := w2, c_table := vt_erase (p_virt_pid p) (c_table s) \<rparr>)"

definition coord_remove :: "('w, 'm) net_os_scheme \<Rightarrow> nat \<Rightarrow> ('w, unit) coord_prog" where
  "coord_remove os a = bnd (deref a) (\<lambda>p.
     modify (\<lambda>s. run_cleanup (proc_exit_callback os) p (s\<lparr> c_procs := plist_remove a (c_procs s) \<rparr>)))"

definition coord_cleanup :: "('w, 'm) net_os_scheme \<Rightarrow> ('w, unit) coord_prog" where
  "coord_cleanup os =
     sq (modify (\<lambda>s. (plist_destroy (proc_exit_callback os) (c_procs s) s)\<lparr> c_procs := [] \<rparr>))
    (sq (modify (\<lambda>s. if c_listen_fd s \<noteq> - 1
                      then s\<lparr> c_world := os_close os (c_listen_fd s) (c_world s) \<rparr> else s))
    (bnd (gets (\<lambda>s. os_access os XND_COORD_PATH (c_world s))) (\<lambda>present.
       if present then bnd (call (os_unlink os XND_COORD_PATH)) (\<lambda>_. ret ()) else ret ())))"

definition coord_exit :: "('w, 'm) net_os_scheme \<Rightarrow> int \<Rightarrow> ('w, 'a) coord_prog" where
  "coord_exit os status = sq (coord_cleanup os) (halt (Exited status))"

text \<open>Incrementing the largest \<^verbatim>\<open>pid_t\<close> overflows a signed integer.\<close>

definition coord_next_virt_pid :: "('w, 'm) net_os_scheme \<Rightarrow> ('w, pid_t) coord_prog" where
  "coord_next_virt_pid os =
     bnd (gets c_next_virt_pid) (\<lambda>next.
       if next = 2 ^ 31 - 1 then halt Undefined
       else
         sq (modify (\<lambda>s. s\<lparr> c_next_virt_pid := next + 1 \<rparr>))
        (bnd (gets (\<lambda>s. virtual_id_exists (c_table s) next)) (\<lambda>exists.
           if exists then coord_exit os COORD_EXIT_FAILURE else ret next)))"

definition coord_next_xnd_pid :: "('w, u32) coord_prog" where
  "coord_next_xnd_pid =
     bnd (gets c_next_xnd_pid) (\<lambda>next.
       sq (modify (\<lambda>s. s\<lparr> c_next_xnd_pid := next + 1 \<rparr>)) (ret next))"

definition coord_setup_handler :: "int \<Rightarrow> ('w, unit) coord_prog" where
  "coord_setup_handler sig = modify (\<lambda>s. s\<lparr> c_handlers := sig # c_handlers s \<rparr>)"

text \<open>
  Sending a signal to every process in the list.
\<close>

definition kill_all :: "('w, 'm) net_os_scheme \<Rightarrow> int \<Rightarrow> ('w, unit) coord_prog" where
  "kill_all os sig =
     modify (\<lambda>s. s\<lparr> c_world := fold (\<lambda>(_, p). os_kill os (p_real_pid p) sig) (c_procs s) (c_world s) \<rparr>)"

definition coord_handler :: "('w, 'm) net_os_scheme \<Rightarrow> int \<Rightarrow> ('w, unit) coord_prog" where
  "coord_handler os sig =
     sq (kill_all os sig)
    (sq (coord_cleanup os)
        (modify (\<lambda>s. s\<lparr> c_world := os_kill os (os_getpid os (c_world s)) sig (c_world s) \<rparr>)))"

definition coord_broadcast_kill :: "('w, 'm) net_os_scheme \<Rightarrow> ('w, unit) coord_prog" where
  "coord_broadcast_kill os = sq (kill_all os SIGKILL) (coord_exit os COORD_EXIT_SUCCESS)"

section \<open>Messages\<close>

definition coord_send_msg :: "('w, 'm) net_os_scheme \<Rightarrow> fd \<Rightarrow> xnd_msg \<Rightarrow> ('w, int) coord_prog" where
  "coord_send_msg os fd msg =
     bnd (call (os_send os fd msg)) (\<lambda>bytes.
       if bytes \<noteq> sizeof_xnd_msg then ret (- 1) else sq (log_event (Ev_Send fd (m_hdr msg))) (ret 0))"

text \<open>The received message is used only when the call returns zero.\<close>

definition coord_recv_msg :: "('w, 'm) net_os_scheme \<Rightarrow> fd \<Rightarrow> ('w, xnd_msg option) coord_prog" where
  "coord_recv_msg os fd =
     bnd (call (os_recv os fd)) (\<lambda>(bytes, msg).
       if bytes \<noteq> sizeof_xnd_msg then ret None
       else sq (log_event (Ev_Recv fd (m_hdr msg))) (ret (Some msg)))"

text \<open>\<^verbatim>\<open>xnd_assert(coord_send_msg(fd, &resp) == 0)\<close>.\<close>

definition send_or_abort :: "('w, 'm) net_os_scheme \<Rightarrow> fd \<Rightarrow> xnd_msg \<Rightarrow> ('w, unit) coord_prog" where
  "send_or_abort os fd msg = bnd (coord_send_msg os fd msg) (\<lambda>err. assert_p (err = 0))"

definition coord_send_handshake :: "('w, 'm) net_os_scheme \<Rightarrow> proc \<Rightarrow> ('w, unit) coord_prog" where
  "coord_send_handshake os p =
     bnd (gets c_uuid) (\<lambda>uuid.
     bnd (coord_send_msg os (p_fd p)
            (blank_msg\<lparr> m_hdr := XND_COORD_ACK, m_ret := XND_SUCCESS,
               m_real_pid := p_real_pid p, m_virt_pid := p_virt_pid p,
               m_real_ppid := p_real_ppid p, m_virt_ppid := p_virt_ppid p,
               m_xnd_uuid := uuid,
               m_xnd_pid := p_xnd_pid p, m_xnd_ppid := p_xnd_ppid p, m_xnd_pgid := p_xnd_pgid p \<rparr>))
       (\<lambda>err. if err \<noteq> 0 then coord_exit os COORD_EXIT_FAILURE else ret ()))"

definition coord_send_virt_to_real :: "('w, 'm) net_os_scheme \<Rightarrow> fd \<Rightarrow> xnd_msg \<Rightarrow> ('w, unit) coord_prog" where
  "coord_send_virt_to_real os fd msg =
     bnd (gets (\<lambda>s. pid_table_virtual_to_real (c_table s) (m_virt_pid msg))) (\<lambda>real.
     bnd (if real \<noteq> - 1 then ret real
          else gets (\<lambda>s. plist_virt_to_real (c_procs s) (m_virt_pid msg))) (\<lambda>real.
       if real \<noteq> - 1
       then send_or_abort os fd (blank_msg\<lparr> m_hdr := XND_COORD_ACK, m_ret := XND_SUCCESS, m_real_pid := real \<rparr>)
       else send_or_abort os fd (blank_msg\<lparr> m_hdr := XND_COORD_ACK, m_ret := XND_FAILURE, m_real_pid := - 1 \<rparr>)))"

definition coord_send_real_to_virt :: "('w, 'm) net_os_scheme \<Rightarrow> fd \<Rightarrow> xnd_msg \<Rightarrow> ('w, unit) coord_prog" where
  "coord_send_real_to_virt os fd msg =
     bnd (gets (\<lambda>s. pid_table_real_to_virtual (c_table s) (m_real_pid msg))) (\<lambda>virt.
     bnd (if virt \<noteq> - 1 then ret virt
          else gets (\<lambda>s. plist_real_to_virt (c_procs s) (m_real_pid msg))) (\<lambda>virt.
       if virt \<noteq> - 1
       then send_or_abort os fd (blank_msg\<lparr> m_hdr := XND_COORD_ACK, m_ret := XND_SUCCESS, m_virt_pid := virt \<rparr>)
       else send_or_abort os fd (blank_msg\<lparr> m_hdr := XND_COORD_ACK, m_ret := XND_FAILURE, m_virt_pid := - 1 \<rparr>)))"

definition coord_handle_msg :: "('w, 'm) net_os_scheme \<Rightarrow> fd \<Rightarrow> xnd_msg \<Rightarrow> ('w, unit) coord_prog" where
  "coord_handle_msg os fd msg =
     (case m_hdr msg of
        XND_EXIT \<Rightarrow>
          bnd (gets (\<lambda>s. plist_find (\<lambda>p. p_real_pid p = m_real_pid msg) (c_procs s))) (\<lambda>p.
            case p of None \<Rightarrow> ret () | Some (a, _) \<Rightarrow> coord_remove os a)
      | XND_VIRT_TO_REAL \<Rightarrow> coord_send_virt_to_real os fd msg
      | XND_REAL_TO_VIRT \<Rightarrow> coord_send_real_to_virt os fd msg
      | _ \<Rightarrow> coord_exit os COORD_EXIT_FAILURE)"

section \<open>Connections\<close>

text \<open>
  \<^verbatim>\<open>malloc(sizeof(struct proc))\<close> followed by the assertion on its result; the
  address is fresh.
\<close>

definition alloc_proc :: "('w, 'm) net_os_scheme \<Rightarrow> ('w, nat) coord_prog" where
  "alloc_proc os =
     bnd (call (os_malloc os)) (\<lambda>ok.
     sq (assert_p ok)
    (bnd (gets c_next_addr) (\<lambda>a.
     sq (modify (\<lambda>s. s\<lparr> c_next_addr := a + 1 \<rparr>)) (ret a))))"

text \<open>
  The tail that the three ways to register a process share: the handshake, both pid table
  entries, then the list.
\<close>

definition coord_register :: "('w, 'm) net_os_scheme \<Rightarrow> nat \<Rightarrow> proc \<Rightarrow> ('w, unit) coord_prog" where
  "coord_register os a p =
     sq (coord_send_handshake os p)
        (modify (\<lambda>s. s\<lparr>
           c_table := vt_update (p_virt_ppid p) (p_real_ppid p)
                        (vt_update (p_virt_pid p) (p_real_pid p) (c_table s)),
           c_procs := (a, p) # c_procs s \<rparr>))"

text \<open>
  A new process whose fields are all known; \<^verbatim>\<open>num_peers\<close> and
  \<^verbatim>\<open>is_root_of_tree\<close> are not initialised.
\<close>

definition new_proc ::
  "fd \<Rightarrow> u32 \<Rightarrow> u32 \<Rightarrow> u32 \<Rightarrow> pid_t \<Rightarrow> pid_t \<Rightarrow> pid_t \<Rightarrow> pid_t \<Rightarrow> proc_state \<Rightarrow> proc" where
  "new_proc fd xnd_pid xnd_ppid xnd_pgid virt_pid real_pid virt_ppid real_ppid st =
     \<lparr> p_fd = fd, p_oob_fd = - 1, p_xnd_pid = xnd_pid, p_xnd_ppid = xnd_ppid, p_xnd_pgid = xnd_pgid,
       p_virt_pid = virt_pid, p_real_pid = real_pid, p_virt_ppid = virt_ppid, p_real_ppid = real_ppid,
       p_num_peers = 0, p_is_root_of_tree = False, p_state = st, p_cleanup = True \<rparr>"

text \<open>
  The process entry for a message \<^verbatim>\<open>XND_CONNECT_LAUNCH\<close>: of a child of a known
  process, and of a process without one, for whose parent ids are handed out as well.
\<close>

definition launch_child ::
  "('w, 'm) net_os_scheme \<Rightarrow> fd \<Rightarrow> xnd_msg \<Rightarrow> proc \<Rightarrow> ('w, proc) coord_prog" where
  "launch_child os fd msg parent =
     bnd (coord_next_virt_pid os) (\<lambda>virt_pid.
     bnd coord_next_xnd_pid (\<lambda>xnd_pid.
       ret (new_proc fd xnd_pid (p_xnd_pid parent) (p_xnd_pgid parent) virt_pid (m_real_pid msg)
              (p_virt_pid parent) (m_real_ppid msg) PROC_RUNNING)))"

definition launch_first :: "('w, 'm) net_os_scheme \<Rightarrow> fd \<Rightarrow> xnd_msg \<Rightarrow> ('w, proc) coord_prog" where
  "launch_first os fd msg =
     bnd (coord_next_virt_pid os) (\<lambda>virt_ppid.
     bnd (coord_next_virt_pid os) (\<lambda>virt_pid.
     bnd coord_next_xnd_pid (\<lambda>xnd_ppid.
     bnd coord_next_xnd_pid (\<lambda>xnd_pid.
       ret (new_proc fd xnd_pid xnd_ppid xnd_pid virt_pid (m_real_pid msg) virt_ppid
              (m_real_ppid msg) PROC_RUNNING)))))"

text \<open>
  The re-registration of a process that has called \<^verbatim>\<open>exec\<close> dereferences what the
  list lookup returns, and the lookup returns no process when the real pid is in the table
  only as the parent of one.
\<close>

definition coord_connect_with_process_on_launch ::
  "('w, 'm) net_os_scheme \<Rightarrow> fd \<Rightarrow> xnd_msg \<Rightarrow> ('w, unit) coord_prog" where
  "coord_connect_with_process_on_launch os fd msg =
     bnd (gets (\<lambda>s. real_id_exists (c_table s) (m_real_pid msg))) (\<lambda>known.
       if known then
         bnd (gets (\<lambda>s. plist_find (\<lambda>p. p_real_pid p = m_real_pid msg) (c_procs s))) (\<lambda>r.
           case r of
             None \<Rightarrow> halt Undefined
           | Some (a, p) \<Rightarrow>
               sq (modify (\<lambda>s. s\<lparr> c_world := os_close os (p_fd p) (c_world s) \<rparr>))
              (sq (set_proc a (\<lambda>p. p\<lparr> p_fd := fd \<rparr>))
                  (coord_send_handshake os (p\<lparr> p_fd := fd \<rparr>))))
       else
         bnd (alloc_proc os) (\<lambda>a.
         bnd (gets c_epoch) (\<lambda>epoch.
         sq (assert_p (epoch = 0))
        (bnd (gets (\<lambda>s. real_id_exists (c_table s) (m_real_ppid msg))) (\<lambda>has_parent.
         bnd (if has_parent then
                bnd (gets (\<lambda>s. plist_find (\<lambda>p. p_real_pid p = m_real_ppid msg) (c_procs s))) (\<lambda>r.
                  case r of None \<Rightarrow> halt Aborted | Some (_, parent) \<Rightarrow> launch_child os fd msg parent)
              else launch_first os fd msg)
           (\<lambda>p. coord_register os a p))))))"

definition coord_connect_with_process_on_restart ::
  "('w, 'm) net_os_scheme \<Rightarrow> fd \<Rightarrow> xnd_msg \<Rightarrow> ('w, unit) coord_prog" where
  "coord_connect_with_process_on_restart os fd msg =
     bnd (alloc_proc os) (\<lambda>a.
       let p = new_proc fd (m_xnd_pid msg) (m_xnd_ppid msg) (m_xnd_pgid msg) (m_virt_pid msg)
                 (m_real_pid msg) (m_virt_ppid msg) (m_real_ppid msg) PROC_RESTART_IN_PROGRESS
       in bnd (gets c_next_virt_pid) (\<lambda>next.
           if p_virt_pid p \<ge> next \<and> p_virt_pid p = 2 ^ 31 - 1 then halt Undefined
           else
             sq (modify (\<lambda>s. s\<lparr>
                   c_next_virt_pid := (if p_virt_pid p \<ge> next then p_virt_pid p + 1 else next),
                   c_next_xnd_pid := (if p_xnd_pid p \<ge> c_next_xnd_pid s then p_xnd_pid p + 1
                                      else c_next_xnd_pid s) \<rparr>))
                (coord_register os a p)))"

definition coord_atfork :: "('w, 'm) net_os_scheme \<Rightarrow> fd \<Rightarrow> xnd_msg \<Rightarrow> ('w, unit) coord_prog" where
  "coord_atfork os fd parent_msg =
     bnd (alloc_proc os) (\<lambda>a.
     bnd (coord_next_virt_pid os) (\<lambda>virt_pid.
     bnd coord_next_xnd_pid (\<lambda>xnd_pid.
     bnd (coord_send_msg os fd
            (blank_msg\<lparr> m_hdr := XND_COORD_ACK, m_ret := XND_SUCCESS, m_virt_pid := virt_pid \<rparr>)) (\<lambda>err.
       if err \<noteq> 0 then coord_exit os COORD_EXIT_FAILURE
       else
         bnd (gets (\<lambda>s. plist_find (\<lambda>p. p_virt_pid p = m_virt_ppid parent_msg) (c_procs s))) (\<lambda>r.
           case r of
             None \<Rightarrow> coord_exit os COORD_EXIT_FAILURE
           | Some (_, parent) \<Rightarrow>
               bnd (coord_recv_msg os fd) (\<lambda>m.
                 case m of
                   None \<Rightarrow> coord_exit os COORD_EXIT_FAILURE
                 | Some child_msg \<Rightarrow>
                     sq (assert_p (m_hdr child_msg = XND_ATFORK_CHILD))
                    (sq (assert_p (m_real_ppid child_msg = p_real_pid parent))
                       (let child = new_proc fd xnd_pid (m_xnd_ppid parent_msg) (m_xnd_pgid parent_msg)
                                      virt_pid (m_real_pid child_msg) (m_virt_ppid parent_msg)
                                      (m_real_ppid child_msg) PROC_RUNNING
                        in coord_register os a child))))))))"

section \<open>Barriers\<close>

definition barrier_step :: "coord_barrier_type \<Rightarrow> xnd_msghdr \<times> proc_state \<times> proc_state" where
  "barrier_step type =
     (case type of
        COORD_BARRIER_PRECKPT \<Rightarrow> (XND_CKPT_START, PROC_READY_FOR_CKPT, PROC_CKPT_IN_PROGRESS)
      | COORD_BARRIER_POSTCKPT \<Rightarrow> (XND_RESUME_AFTER_CKPT, PROC_CKPT_COMPLETE, PROC_RUNNING)
      | COORD_BARRIER_POSTRESTART \<Rightarrow> (XND_RESUME_AFTER_RESTART, PROC_RESTART_IN_PROGRESS, PROC_RUNNING))"

fun release_loop ::
  "('w, 'm) net_os_scheme \<Rightarrow> coord_barrier_type \<Rightarrow> nat list \<Rightarrow> ('w, int) coord_prog" where
  "release_loop os type [] = ret 0"
| "release_loop os type (a # as) =
     (case barrier_step type of (hdr, expected, next) \<Rightarrow>
        bnd (deref a) (\<lambda>p.
        sq (assert_p (p_state p = expected))
       (bnd (gets c_num_peers) (\<lambda>num_peers.
        bnd (coord_send_msg os (p_fd p)
               (if type = COORD_BARRIER_PRECKPT
                then blank_msg\<lparr> m_hdr := hdr, m_num_peers := num_peers,
                       m_is_root_of_tree := (if p_is_root_of_tree p then 1 else 0) \<rparr>
                else blank_msg\<lparr> m_hdr := hdr \<rparr>)) (\<lambda>err.
          if err \<noteq> 0 then ret (- 1)
          else sq (set_proc a (\<lambda>p. p\<lparr> p_state := next \<rparr>)) (release_loop os type as))))))"

definition coord_release_barrier ::
  "('w, 'm) net_os_scheme \<Rightarrow> coord_barrier_type \<Rightarrow> ('w, int) coord_prog" where
  "coord_release_barrier os type = bnd (gets (\<lambda>s. map fst (c_procs s))) (release_loop os type)"

text \<open>
  One round of \<^verbatim>\<open>coord_collective_prepare\<close>: drop the processes that are gone,
  collect the descriptors of the others. The body removes only the process it is at, so the
  addresses at the start of the round are the ones the loop visits.
\<close>

fun prepare_round :: "('w, 'm) net_os_scheme \<Rightarrow> nat list \<Rightarrow> fd list \<Rightarrow> ('w, fd list) coord_prog" where
  "prepare_round os [] fds = ret fds"
| "prepare_round os (a # as) fds =
     bnd (deref a) (\<lambda>p.
     bnd (call (os_gone os (p_real_pid p))) (\<lambda>gone.
       if gone then sq (coord_remove os a) (prepare_round os as fds)
       else prepare_round os as (fds @ [p_fd p])))"

definition prepare_body :: "('w, 'm) net_os_scheme \<Rightarrow> bool \<Rightarrow> ('w, nat option) coord_prog" where
  "prepare_body os writing =
     bnd (gets (\<lambda>s. map fst (c_procs s))) (\<lambda>as.
     bnd (prepare_round os as []) (\<lambda>fds.
     bnd (call (os_select os writing fds)) (\<lambda>(err, ready).
       if err < 0 then coord_exit os COORD_EXIT_FAILURE
       else ret (if err \<noteq> int (length fds) then None else Some (length fds)))))"

datatype coord_comm_type = COMM_BROADCAST | COMM_REDUCE

definition coord_collective_prepare ::
  "('w, 'm) net_os_scheme \<Rightarrow> coord_comm_type \<Rightarrow> ('w, nat) coord_prog" where
  "coord_collective_prepare os type = repeat_until (prepare_body os (type = COMM_BROADCAST))"

section \<open>Checkpoint\<close>

text \<open>
  One process in a round of \<^verbatim>\<open>coord_suspend_processes\<close>: the step of its state
  machine, answering whether it counts as ready.
\<close>

definition suspend_step :: "('w, 'm) net_os_scheme \<Rightarrow> nat \<Rightarrow> proc \<Rightarrow> ('w, bool) coord_prog" where
  "suspend_step os a p =
     (case p_state p of
        PROC_RUNNING \<Rightarrow>
          bnd (coord_send_msg os (p_fd p) (blank_msg\<lparr> m_hdr := XND_CKPT_REQUEST \<rparr>)) (\<lambda>err.
            if err = 0
            then sq (set_proc a (\<lambda>p. p\<lparr> p_state := PROC_RECV_CKPT_REQUEST \<rparr>)) (ret False)
            else ret False)
      | PROC_RECV_CKPT_REQUEST \<Rightarrow>
          bnd (coord_recv_msg os (p_fd p)) (\<lambda>resp.
            case resp of
              None \<Rightarrow> ret False
            | Some m \<Rightarrow>
                if m_hdr m = XND_CKPT_READY
                then sq (set_proc a (\<lambda>p. p\<lparr> p_state := PROC_READY_FOR_CKPT \<rparr>)) (ret True)
                else ret False)
      | PROC_READY_FOR_CKPT \<Rightarrow> ret True
      | _ \<Rightarrow> ret False)"

fun suspend_round :: "('w, 'm) net_os_scheme \<Rightarrow> nat list \<Rightarrow> nat \<Rightarrow> nat \<Rightarrow> ('w, nat \<times> nat) coord_prog" where
  "suspend_round os [] ready nr = ret (ready, nr)"
| "suspend_round os (a # as) ready nr =
     bnd (deref a) (\<lambda>p.
     bnd (suspend_step os a p) (\<lambda>is_ready.
     bnd (call (os_gone os (p_real_pid p))) (\<lambda>gone.
       if gone then sq (coord_remove os a) (suspend_round os as (if is_ready then ready + 1 else ready) nr)
       else suspend_round os as (if is_ready then ready + 1 else ready) (nr + 1))))"

definition suspend_body :: "('w, 'm) net_os_scheme \<Rightarrow> ('w, unit option) coord_prog" where
  "suspend_body os =
     bnd (gets (\<lambda>s. map fst (c_procs s))) (\<lambda>as.
     bnd (suspend_round os as 0 0) (\<lambda>(ready, nr). ret (if ready \<noteq> nr then None else Some ())))"

definition coord_suspend_processes :: "('w, 'm) net_os_scheme \<Rightarrow> ('w, unit) coord_prog" where
  "coord_suspend_processes os = repeat_until (suspend_body os)"

definition coord_determine_roots :: "('w, unit) coord_prog" where
  "coord_determine_roots =
     bnd (gets (\<lambda>s. map fst (c_procs s))) (each (\<lambda>a.
       bnd (deref a) (\<lambda>p.
       bnd (gets (\<lambda>s. plist_find (\<lambda>q. p_real_pid q = p_real_ppid p) (c_procs s))) (\<lambda>parent.
         set_proc a (\<lambda>p. p\<lparr> p_is_root_of_tree := (parent = None) \<rparr>)))))"

fun completion_loop :: "('w, 'm) net_os_scheme \<Rightarrow> nat list \<Rightarrow> nat \<Rightarrow> ('w, nat) coord_prog" where
  "completion_loop os [] n = ret n"
| "completion_loop os (a # as) n =
     bnd (deref a) (\<lambda>p.
     sq (assert_p (p_state p = PROC_CKPT_IN_PROGRESS))
    (bnd (coord_recv_msg os (p_fd p)) (\<lambda>m.
       case m of
         None \<Rightarrow> completion_loop os as n
       | Some msg \<Rightarrow>
           if m_hdr msg = XND_CKPT_DONE
           then sq (set_proc a (\<lambda>p. p\<lparr> p_state := PROC_CKPT_COMPLETE \<rparr>)) (completion_loop os as (n + 1))
           else completion_loop os as n)))"

text \<open>\<^verbatim>\<open>expected\<close> is an \<^verbatim>\<open>int\<close> that takes the unsigned number of peers.\<close>

definition coord_wait_for_ckpt_completions :: "('w, 'm) net_os_scheme \<Rightarrow> ('w, unit) coord_prog" where
  "coord_wait_for_ckpt_completions os =
     bnd (gets (\<lambda>s. sint (c_num_peers s))) (\<lambda>expected.
     bnd (coord_collective_prepare os COMM_REDUCE) (\<lambda>nr.
       if int nr \<noteq> expected then coord_exit os COORD_EXIT_FAILURE
       else
         bnd (gets (\<lambda>s. map fst (c_procs s))) (\<lambda>as.
         bnd (completion_loop os as 0) (\<lambda>nr.
           if int nr \<noteq> expected then coord_exit os COORD_EXIT_FAILURE else ret ()))))"

definition coord_write_ckpt_manifest :: "('w, 'm) net_os_scheme \<Rightarrow> ('w, unit) coord_prog" where
  "coord_write_ckpt_manifest os =
     bnd (gets (\<lambda>s. fold (\<lambda>(_, p). max (p_xnd_pid p)) (c_procs s) 0)) (\<lambda>max_xnd_pid.
     bnd (gets (\<lambda>s. fold (\<lambda>(_, p). min (p_xnd_pid p)) (c_procs s) (- 1))) (\<lambda>min_xnd_pid.
     bnd (gets (\<lambda>s. (c_num_peers s, c_uuid s, c_epoch s))) (\<lambda>(num_peers, uuid, epoch).
     bnd (on_world (xnd_ckptfile_write_manifest os num_peers min_xnd_pid max_xnd_pid uuid epoch)) (\<lambda>err.
       if err \<noteq> 0 then coord_exit os COORD_EXIT_FAILURE else log_event Ev_Manifest))))"

text \<open>The part of \<^verbatim>\<open>coord_do_checkpoint\<close> after the directory exists.\<close>

definition checkpoint_commit :: "('w, 'm) net_os_scheme \<Rightarrow> u64 \<Rightarrow> ('w, unit) coord_prog" where
  "checkpoint_commit os epoch =
     sq (modify (\<lambda>s. s\<lparr> c_num_peers := of_nat (length (c_procs s)) \<rparr>))
    (sq coord_determine_roots
    (bnd (coord_collective_prepare os COMM_BROADCAST) (\<lambda>nr.
     bnd (gets c_num_peers) (\<lambda>num_peers.
     sq (assert_p (of_nat nr = num_peers))
    (bnd (coord_release_barrier os COORD_BARRIER_PRECKPT) (\<lambda>err.
     sq (assert_p (err = 0))
    (sq (coord_wait_for_ckpt_completions os)
    (sq (coord_write_ckpt_manifest os)
    (bnd (coord_release_barrier os COORD_BARRIER_POSTCKPT) (\<lambda>err.
     sq (assert_p (err = 0))
    (bnd (gets c_uuid) (\<lambda>uuid.
     sq (if epoch \<noteq> 0 then bnd (on_world (xnd_ckptdir_unlink os uuid (epoch - 1))) (\<lambda>_. ret ()) else ret ())
        (modify (\<lambda>s. s\<lparr> c_epoch := c_epoch s + 1 \<rparr>))))))))))))))"

definition set_sigmask :: "bool \<Rightarrow> ('w, unit) coord_prog" where
  "set_sigmask b = modify (\<lambda>s. s\<lparr> c_sig_blocked := b \<rparr>)"

definition coord_do_checkpoint :: "('w, 'm) net_os_scheme \<Rightarrow> ('w, unit) coord_prog" where
  "coord_do_checkpoint os =
     bnd (gets c_epoch) (\<lambda>epoch.
     sq (set_sigmask True)
    (bnd (coord_collective_prepare os COMM_BROADCAST) (\<lambda>nr.
       if nr = 0 then set_sigmask False
       else
         sq (coord_suspend_processes os)
        (bnd (gets c_uuid) (\<lambda>uuid.
         bnd (on_world (xnd_ckptdir_create os uuid epoch)) (\<lambda>err.
         sq (if err \<noteq> 0 then bnd (on_world (xnd_ckptdir_unlink os uuid epoch)) (\<lambda>_. ret ())
             else checkpoint_commit os epoch)
            (set_sigmask False)))))))"

section \<open>The event loop\<close>

definition coord_handle_command :: "('w, 'm) net_os_scheme \<Rightarrow> fd \<Rightarrow> xnd_msg \<Rightarrow> ('w, unit) coord_prog" where
  "coord_handle_command os fd msg =
     sq (assert_p (m_hdr msg = XND_COMMAND))
    (sq (case m_cmd msg of
           XND_CKPT_CMD \<Rightarrow> coord_do_checkpoint os
         | XND_KILL_CMD \<Rightarrow> coord_broadcast_kill os
         | _ \<Rightarrow> coord_exit os COORD_EXIT_FAILURE)
        (send_or_abort os fd (blank_msg\<lparr> m_hdr := XND_COORD_ACK, m_ret := XND_SUCCESS \<rparr>)))"

text \<open>A pid translation over a new connection, which becomes the process's second one.\<close>

definition oob_request ::
  "('w, 'm) net_os_scheme \<Rightarrow> fd \<Rightarrow> xnd_msg \<Rightarrow> ('w, unit) coord_prog \<Rightarrow> ('w, unit) coord_prog" where
  "oob_request os fd msg reply =
     bnd (gets (\<lambda>s. plist_find (\<lambda>p. p_xnd_pid p = m_xnd_pid msg) (c_procs s))) (\<lambda>r.
       case r of
         None \<Rightarrow> halt Aborted
       | Some (a, _) \<Rightarrow> sq (set_proc a (\<lambda>p. p\<lparr> p_oob_fd := fd \<rparr>)) reply)"

definition coord_accept :: "('w, 'm) net_os_scheme \<Rightarrow> fd \<Rightarrow> xnd_msg \<Rightarrow> ('w, unit) coord_prog" where
  "coord_accept os fd msg =
     (case m_hdr msg of
        XND_CONNECT_LAUNCH \<Rightarrow> coord_connect_with_process_on_launch os fd msg
      | XND_CONNECT_RESTART \<Rightarrow>
          sq (modify (\<lambda>s. if c_procs s = []
                then s\<lparr> c_epoch := m_epoch msg, c_num_peers := m_num_peers msg,
                        c_ckpt_interval := m_ckpt_interval msg, c_uuid := m_xnd_uuid msg \<rparr>
                else s))
             (coord_connect_with_process_on_restart os fd msg)
      | XND_ATFORK_PREPARE \<Rightarrow> coord_atfork os fd msg
      | XND_COMMAND \<Rightarrow>
          sq (coord_handle_command os fd msg)
             (modify (\<lambda>s. s\<lparr> c_world := os_close os fd (c_world s) \<rparr>))
      | XND_REAL_TO_VIRT \<Rightarrow> oob_request os fd msg (coord_send_real_to_virt os fd msg)
      | XND_VIRT_TO_REAL \<Rightarrow> oob_request os fd msg (coord_send_virt_to_real os fd msg)
      | _ \<Rightarrow> coord_exit os COORD_EXIT_FAILURE)"

definition coord_wait_for_connection :: "('w, 'm) net_os_scheme \<Rightarrow> ('w, unit) coord_prog" where
  "coord_wait_for_connection os =
     bnd (gets c_listen_fd) (\<lambda>listen_fd.
     bnd (call (os_select os False [listen_fd])) (\<lambda>(err, ready).
       if err \<le> 0 then ret ()
       else
         bnd (call (os_accept os listen_fd)) (\<lambda>fd.
           if fd < 0 then ret ()
           else
             bnd (coord_recv_msg os fd) (\<lambda>m.
               case m of None \<Rightarrow> halt Aborted | Some msg \<Rightarrow> coord_accept os fd msg))))"

text \<open>
  \<^verbatim>\<open>proc_foreach_safe\<close> over a list that the handlers may change: the successor is
  read before the body, and both it and the current process may have been freed when they are
  used next. The successor of an address in the list of this moment:
\<close>

fun plist_next :: "nat \<Rightarrow> plist \<Rightarrow> nat option" where
  "plist_next a [] = None"
| "plist_next a ((b, p) # ps) =
     (if a = b then (case ps of [] \<Rightarrow> None | (c, _) # _ \<Rightarrow> Some c) else plist_next a ps)"

text \<open>
  One descriptor of a process: receive and handle, or remove the process when its connection
  is closed. The answer says whether the loop body goes on.
\<close>

definition serve_fd :: "('w, 'm) net_os_scheme \<Rightarrow> nat \<Rightarrow> fd \<Rightarrow> ('w, bool) coord_prog" where
  "serve_fd os a fd =
     bnd (coord_recv_msg os fd) (\<lambda>m.
       case m of
         None \<Rightarrow> sq (coord_remove os a) (ret False)
       | Some msg \<Rightarrow> sq (coord_handle_msg os fd msg) (ret True))"

definition serve_proc :: "('w, 'm) net_os_scheme \<Rightarrow> fd list \<Rightarrow> nat \<Rightarrow> ('w, unit) coord_prog" where
  "serve_proc os ready a =
     bnd (deref a) (\<lambda>p.
     bnd (if p_fd p \<in> set ready then serve_fd os a (p_fd p) else ret True) (\<lambda>go_on.
       if \<not> go_on then ret ()
       else
         bnd (deref a) (\<lambda>p.
           if p_oob_fd p \<noteq> - 1 \<and> p_oob_fd p \<in> set ready
           then bnd (serve_fd os a (p_oob_fd p)) (\<lambda>_. ret ()) else ret ())))"

partial_function (option) serve_loop ::
  "('w, 'm) net_os_scheme \<Rightarrow> fd list \<Rightarrow> nat option \<Rightarrow> ('w, unit) coord_prog" where
  [code]: "serve_loop os ready cur s =
     (case cur of
        None \<Rightarrow> Some (Inr (), s)
      | Some a \<Rightarrow>
          if map_of (c_procs s) a = None then Some (Inl Undefined, s)
          else
            (case serve_proc os ready a s of
               None \<Rightarrow> None
             | Some (r, s') \<Rightarrow> (case r of
                 Inl e \<Rightarrow> Some (Inl e, s')
               | Inr _ \<Rightarrow> serve_loop os ready (plist_next a (c_procs s)) s')))"

definition proc_fds :: "plist \<Rightarrow> fd list" where
  "proc_fds ps = concat (map (\<lambda>(_, p). p_fd p # (if p_oob_fd p \<noteq> - 1 then [p_oob_fd p] else [])) ps)"

definition coord_wait_for_msg :: "('w, 'm) net_os_scheme \<Rightarrow> ('w, unit) coord_prog" where
  "coord_wait_for_msg os =
     bnd (gets c_procs) (\<lambda>ps.
     bnd (call (os_select os False (proc_fds ps))) (\<lambda>(err, ready).
       if err \<le> 0 then ret ()
       else serve_loop os ready (case ps of [] \<Rightarrow> None | (a, _) # _ \<Rightarrow> Some a)))"

text \<open>
  \<^verbatim>\<open>do { ... } while (proc_list->size == 0)\<close>, the wait for the first process.
\<close>

definition first_connection_body ::
  "('w, 'm) net_os_scheme \<Rightarrow> pid_t \<Rightarrow> ('w, unit option) coord_prog" where
  "first_connection_body os ppid =
     sq (coord_wait_for_connection os)
    (bnd (gets c_procs) (\<lambda>ps.
       if ps \<noteq> [] then ret (Some ())
       else bnd (call (os_gone os ppid)) (\<lambda>gone.
              if gone then coord_exit os COORD_EXIT_FAILURE else ret None)))"

text \<open>
  The heartbeat: \<^verbatim>\<open>proc_list_filter\<close> on the list, with the coordinator itself as
  the world of the callback.
\<close>

definition coord_filter :: "('w, 'm) net_os_scheme \<Rightarrow> ('w, unit) coord_prog" where
  "coord_filter os =
     modify (\<lambda>s. case plist_filter
                        (\<lambda>pid s. case os_gone os pid (c_world s) of (gone, w) \<Rightarrow> (gone, s\<lparr> c_world := w \<rparr>))
                        (proc_exit_callback os) (c_procs s) s of
                 (ps, s') \<Rightarrow> s'\<lparr> c_procs := ps \<rparr>)"

text \<open>
  One turn of the main loop. Its local variables are the start of the current checkpoint
  interval, the refresh flag and the iteration count; the answer is their new values, or
  \<^const>\<open>None\<close> when the loop is left.
\<close>

definition work_body ::
  "('w, 'm) net_os_scheme \<Rightarrow> int \<times> bool \<times> nat \<Rightarrow> ('w, (int \<times> bool \<times> nat) option) coord_prog" where
  "work_body os = (\<lambda>(tv_start, refresh, iter).
     bnd (gets c_ckpt_interval) (\<lambda>interval.
     bnd (if interval \<noteq> 0 \<and> refresh
          then bnd (call (os_time os)) (\<lambda>t. ret (t, False)) else ret (tv_start, refresh)) (\<lambda>(tv_start, refresh).
     sq (coord_wait_for_connection os)
    (sq (coord_wait_for_msg os)
    (bnd (gets c_ckpt_interval) (\<lambda>interval.
     bnd (if interval \<noteq> 0
          then bnd (call (os_time os)) (\<lambda>tv_end.
                 if tv_end - tv_start \<ge> interval then sq (coord_do_checkpoint os) (ret True) else ret refresh)
          else ret refresh) (\<lambda>refresh.
     bnd (gets c_procs) (\<lambda>ps.
       if ps = [] then ret None
       else if iter mod COORD_HEARTBEAT_INTERVAL = 0
       then sq (coord_filter os)
              (bnd (gets c_procs) (\<lambda>ps.
                 ret (if ps = [] then None else Some (tv_start, refresh, iter + 1))))
       else ret (Some (tv_start, refresh, iter + 1))))))))))"

partial_function (option) work_loop ::
  "('w, 'm) net_os_scheme \<Rightarrow> int \<times> bool \<times> nat \<Rightarrow> ('w, unit) coord_prog" where
  [code]: "work_loop os locals s =
     (case work_body os locals s of
        None \<Rightarrow> None
      | Some (r, s') \<Rightarrow> (case r of
          Inl e \<Rightarrow> Some (Inl e, s')
        | Inr None \<Rightarrow> Some (Inr (), s')
        | Inr (Some locals') \<Rightarrow> work_loop os locals' s'))"

definition coord_work :: "('w, 'm) net_os_scheme \<Rightarrow> ('w, unit) coord_prog" where
  "coord_work os =
     bnd (gets (\<lambda>s. os_getppid os (c_world s))) (\<lambda>ppid.
       if ppid = 1 then coord_exit os COORD_EXIT_FAILURE
       else
         sq (repeat_until (first_connection_body os ppid))
        (bnd (call (os_time os)) (\<lambda>t. work_loop os (t, False, 0))))"

section \<open>Start-up and restart\<close>

text \<open>
  A failure before the list exists ends in \<^verbatim>\<open>coord_exit\<close>, whose clean-up walks the list through a
  null pointer.
\<close>

definition coord_init :: "('w, 'm) net_os_scheme \<Rightarrow> ('w, unit) coord_prog" where
  "coord_init os =
     bnd (call (os_uuid_generate os)) (\<lambda>uuid.
     sq (modify (\<lambda>s. s\<lparr> c_uuid := uuid \<rparr>))
    (sq (coord_setup_handler SIGINT)
    (sq (coord_setup_handler SIGTERM)
    (sq (coord_setup_handler SIGQUIT)
    (bnd (call (os_socket os)) (\<lambda>fd.
       if fd < 0 then halt Undefined
       else
         bnd (gets (\<lambda>s. os_access os XND_COORD_PATH (c_world s))) (\<lambda>present.
         sq (assert_p (\<not> present))
        (bnd (call (os_bind os fd XND_COORD_PATH)) (\<lambda>err.
           if err \<noteq> 0 then halt Undefined
           else
             bnd (call (os_listen os fd COORD_MAX_PROC)) (\<lambda>err.
               if err \<noteq> 0 then halt Undefined
               else
                 modify (\<lambda>s. s\<lparr> c_listen_fd := fd,
                   c_ckpt_interval := env_get_ckpt_interval (\<lambda>var. os_getenv os var (c_world s)),
                   c_procs := [], c_table := [] \<rparr>)))))))))))"

text \<open>The second loop of \<^verbatim>\<open>coord_do_restart\<close>, until all peers are connected.\<close>

definition more_connections_body ::
  "('w, 'm) net_os_scheme \<Rightarrow> pid_t \<Rightarrow> ('w, unit option) coord_prog" where
  "more_connections_body os ppid =
     bnd (gets (\<lambda>s. length (c_procs s) < unat (c_num_peers s))) (\<lambda>missing.
       if \<not> missing then ret (Some ())
       else
         sq (coord_wait_for_connection os)
        (bnd (gets (\<lambda>s. length (c_procs s) = unat (c_num_peers s))) (\<lambda>complete.
           if complete then ret (Some ())
           else bnd (call (os_gone os ppid)) (\<lambda>gone.
                  if gone then coord_exit os COORD_EXIT_FAILURE else ret None))))"

definition coord_do_restart :: "('w, 'm) net_os_scheme \<Rightarrow> ('w, unit) coord_prog" where
  "coord_do_restart os =
     bnd (gets (\<lambda>s. os_getppid os (c_world s))) (\<lambda>ppid.
       if ppid = 1 then coord_exit os COORD_EXIT_FAILURE
       else
         sq (repeat_until (first_connection_body os ppid))
        (sq (repeat_until (more_connections_body os ppid))
        (bnd (coord_collective_prepare os COMM_BROADCAST) (\<lambda>nr.
         bnd (gets c_num_peers) (\<lambda>num_peers.
           if of_nat nr \<noteq> num_peers then coord_exit os COORD_EXIT_FAILURE
           else
             bnd (coord_release_barrier os COORD_BARRIER_POSTRESTART) (\<lambda>err.
               if err \<noteq> 0 then coord_exit os COORD_EXIT_FAILURE else ret ()))))))"

definition coord_is_restart :: "string list \<Rightarrow> bool" where
  "coord_is_restart argv =
     (if length argv < 2 \<or> argv ! 1 \<noteq> XND_COORD_RESTART_FLAG then False else True)"

definition coord_main :: "('w, 'm) net_os_scheme \<Rightarrow> string list \<Rightarrow> ('w, unit) coord_prog" where
  "coord_main os argv =
     sq (coord_init os)
    (sq (if coord_is_restart argv then coord_do_restart os else ret ())
    (sq (coord_work os)
        (coord_exit os COORD_EXIT_SUCCESS)))"

end
