(* ===== verification/Coord_Inv.thy ===== *)
theory Coord_Inv
  imports Coord
begin

text \<open>
  The coordinator's invariant and its preservation by every handler, the trace of a completed
  checkpoint, and what happens on the paths where the protocol goes wrong.
\<close>

section \<open>Rules for the coordinator's commands\<close>

text \<open>
  Whenever the coordinator stops through \<^verbatim>\<open>coord_exit\<close> it has dropped all its
  processes; the other ways to stop are an abort and an invalid access.
\<close>

definition exit_clean :: "stop \<Rightarrow> 'w coord \<Rightarrow> bool" where
  "exit_clean e s \<longleftrightarrow> (\<forall>n. e = Exited n \<longrightarrow> c_procs s = [])"

lemma exit_clean_simps [simp]: "exit_clean Aborted s" "exit_clean Undefined s"
  by (simp_all add: exit_clean_def)

lemma wp_call [simp]:
  "wp (call f) Q E s \<longleftrightarrow> (\<forall>a w. f (c_world s) = (a, w) \<longrightarrow> Q a (s\<lparr> c_world := w \<rparr>))"
  by (simp add: wp_def call_def split: prod.splits)

lemma wp_deref [simp]:
  "wp (deref a) Q E s \<longleftrightarrow> (map_of (c_procs s) a = None \<longrightarrow> E Undefined s) \<and>
     (\<forall>p. map_of (c_procs s) a = Some p \<longrightarrow> Q p s)"
  by (simp add: deref_def)

lemma wp_set_proc [simp]:
  "wp (set_proc a f) Q E s = Q () (s\<lparr> c_procs := plist_update a f (c_procs s) \<rparr>)"
  by (simp add: set_proc_def)

lemma wp_log_event [simp]: "wp (log_event e) Q E s = Q () (s\<lparr> c_log := c_log s @ [e] \<rparr>)"
  by (simp add: log_event_def)

lemma run_cleanup_sel [simp]:
  "c_procs (run_cleanup (proc_exit_callback os) p s) = c_procs s"
  "c_next_virt_pid (run_cleanup (proc_exit_callback os) p s) = c_next_virt_pid s"
  "c_next_addr (run_cleanup (proc_exit_callback os) p s) = c_next_addr s"
  "c_log (run_cleanup (proc_exit_callback os) p s) = c_log s"
  "c_epoch (run_cleanup (proc_exit_callback os) p s) = c_epoch s"
  "c_num_peers (run_cleanup (proc_exit_callback os) p s) = c_num_peers s"
  "c_uuid (run_cleanup (proc_exit_callback os) p s) = c_uuid s"
  by (simp_all add: run_cleanup_def proc_exit_callback_def Let_def)

lemma plist_destroy_procs [simp]:
  "c_procs (plist_destroy (proc_exit_callback os) ps s) = c_procs s"
  by (induction ps arbitrary: s) auto

lemma wp_coord_exit [simp]: "wp (coord_exit os n) Q exit_clean s"
  by (simp add: coord_exit_def coord_cleanup_def exit_clean_def split: prod.splits)

text \<open>Messages change the world and the log only.\<close>

lemma wp_send_msg [simp]:
  "wp (coord_send_msg os fd msg) Q E s \<longleftrightarrow>
     (\<forall>n w. os_send os fd msg (c_world s) = (n, w) \<longrightarrow>
        (n \<noteq> sizeof_xnd_msg \<longrightarrow> Q (- 1) (s\<lparr> c_world := w \<rparr>)) \<and>
        (n = sizeof_xnd_msg \<longrightarrow>
           Q 0 (s\<lparr> c_world := w, c_log := c_log s @ [Ev_Send fd (m_hdr msg)] \<rparr>)))"
  by (auto simp: coord_send_msg_def)

lemma wp_recv_msg [simp]:
  "wp (coord_recv_msg os fd) Q E s \<longleftrightarrow>
     (\<forall>n m w. os_recv os fd (c_world s) = ((n, m), w) \<longrightarrow>
        (n \<noteq> sizeof_xnd_msg \<longrightarrow> Q None (s\<lparr> c_world := w \<rparr>)) \<and>
        (n = sizeof_xnd_msg \<longrightarrow>
           Q (Some m) (s\<lparr> c_world := w, c_log := c_log s @ [Ev_Recv fd (m_hdr m)] \<rparr>)))"
  by (auto simp: coord_recv_msg_def)

section \<open>The invariant\<close>

text \<open>
  No two processes of the list share an address or a virtual pid, new virtual pids are larger
  than all in use, and the pid table is well formed and translates the virtual pid of every
  process to its real pid.
\<close>

definition coord_inv :: "'w coord \<Rightarrow> bool" where
  "coord_inv s \<longleftrightarrow>
     distinct (map fst (c_procs s)) \<and>
     (\<forall>ap \<in> set (c_procs s). fst ap < c_next_addr s) \<and>
     distinct (map (p_virt_pid \<circ> snd) (c_procs s)) \<and>
     (\<forall>ap \<in> set (c_procs s). p_virt_pid (snd ap) < c_next_virt_pid s) \<and>
     vt_wf (c_table s) \<and>
     (\<forall>ap \<in> set (c_procs s).
        virtual_to_real (c_table s) (p_virt_pid (snd ap)) = Some (p_real_pid (snd ap)))"

lemma coord_inv_quiet [simp]:
  "coord_inv (s\<lparr> c_world := w \<rparr>) = coord_inv s"
  "coord_inv (s\<lparr> c_log := l \<rparr>) = coord_inv s"
  "coord_inv (s\<lparr> c_epoch := e \<rparr>) = coord_inv s"
  "coord_inv (s\<lparr> c_num_peers := n \<rparr>) = coord_inv s"
  "coord_inv (s\<lparr> c_uuid := u \<rparr>) = coord_inv s"
  "coord_inv (s\<lparr> c_ckpt_interval := i \<rparr>) = coord_inv s"
  "coord_inv (s\<lparr> c_sig_blocked := b \<rparr>) = coord_inv s"
  "coord_inv (s\<lparr> c_next_xnd_pid := x \<rparr>) = coord_inv s"
  by (simp_all add: coord_inv_def)

text \<open>Changing fields of a process other than its pids keeps the invariant.\<close>

lemma coord_inv_update [simp]:
  assumes "\<And>p. p_virt_pid (f p) = p_virt_pid p" and "\<And>p. p_real_pid (f p) = p_real_pid p"
  shows "coord_inv (s\<lparr> c_procs := plist_update a f (c_procs s) \<rparr>) = coord_inv s"
proof -
  have virts: "map (p_virt_pid \<circ> snd) (plist_update a f ps) = map (p_virt_pid \<circ> snd) ps" for ps
    using assms(1) by (auto simp: plist_update_def)
  have ball: "(\<forall>ap \<in> set (plist_update a f ps). R (fst ap) (p_virt_pid (snd ap)) (p_real_pid (snd ap))) \<longleftrightarrow>
      (\<forall>ap \<in> set ps. R (fst ap) (p_virt_pid (snd ap)) (p_real_pid (snd ap)))" for ps R
  proof -
    have "fst (case ap of (b, p) \<Rightarrow> (b, if b = a then f p else p)) = fst ap \<and>
        p_virt_pid (snd (case ap of (b, p) \<Rightarrow> (b, if b = a then f p else p))) = p_virt_pid (snd ap) \<and>
        p_real_pid (snd (case ap of (b, p) \<Rightarrow> (b, if b = a then f p else p))) = p_real_pid (snd ap)" for ap
      using assms by (auto split: prod.splits)
    then show ?thesis by (simp add: plist_update_def)
  qed
  show ?thesis
    using virts [of "c_procs s"] ball [of "c_procs s" "\<lambda>a v r. a < c_next_addr s"]
      ball [of "c_procs s" "\<lambda>a v r. v < c_next_virt_pid s"]
      ball [of "c_procs s" "\<lambda>a v r. virtual_to_real (c_table s) v = Some r"]
    by (simp add: coord_inv_def)
qed

lemma coord_inv_unique_virt:
  assumes "coord_inv s" "ap \<in> set (c_procs s)" "bq \<in> set (c_procs s)"
    and "p_virt_pid (snd ap) = p_virt_pid (snd bq)"
  shows "ap = bq"
proof -
  have "inj_on (p_virt_pid \<circ> snd) (set (c_procs s))"
    using assms(1) by (simp add: coord_inv_def distinct_map)
  from inj_onD [OF this, of ap bq] show ?thesis using assms(2-4) by simp
qed

text \<open>Removing a process, with its clean-up.\<close>

lemma coord_inv_remove:
  assumes "coord_inv s" and "map_of (c_procs s) a = Some p"
  shows "coord_inv (run_cleanup (proc_exit_callback os) p (s\<lparr> c_procs := plist_remove a (c_procs s) \<rparr>))"
proof -
  let ?ps = "plist_remove a (c_procs s)"
  have sub: "set ?ps \<subseteq> set (c_procs s)" by (auto simp: plist_remove_def)
  have mem: "(a, p) \<in> set (c_procs s)" using assms(2) by (rule map_of_SomeD)
  have other: "p_virt_pid (snd ap) \<noteq> p_virt_pid p" if "ap \<in> set ?ps" for ap
  proof
    assume eq: "p_virt_pid (snd ap) = p_virt_pid p"
    have "ap \<in> set (c_procs s)" using that sub by blast
    moreover have "inj_on (p_virt_pid \<circ> snd) (set (c_procs s))"
      using assms(1) by (simp add: coord_inv_def distinct_map)
    ultimately have "ap = (a, p)" using mem eq inj_onD [of _ _ ap "(a, p)"] by fastforce
    then show False using that by (auto simp: plist_remove_def)
  qed
  have dist: "distinct (map fst ?ps)" "distinct (map (p_virt_pid \<circ> snd) ?ps)"
    using assms(1) by (auto simp: coord_inv_def plist_remove_def distinct_map_filter)
  have look: "virtual_to_real (vt_erase (p_virt_pid p) (c_table s)) (p_virt_pid (snd ap)) =
      virtual_to_real (c_table s) (p_virt_pid (snd ap))" if "ap \<in> set ?ps" for ap
    using other [OF that] assms(1) by (simp add: vt_laws coord_inv_def)
  show ?thesis
    using assms(1) dist sub look
    by (auto simp: coord_inv_def run_cleanup_def proc_exit_callback_def Let_def vt_laws)
qed

lemma wp_coord_remove:
  "coord_inv s \<Longrightarrow> (\<And>s'. coord_inv s' \<Longrightarrow> Q () s') \<Longrightarrow> wp (coord_remove os a) Q exit_clean s"
  by (simp add: coord_remove_def coord_inv_remove)

text \<open>Adding a process.\<close>

lemma coord_inv_register:
  assumes inv: "coord_inv s" and a: "a < c_next_addr s" "a \<notin> fst ` set (c_procs s)"
    and v: "p_virt_pid p < c_next_virt_pid s" "p_virt_pid p \<notin> (p_virt_pid \<circ> snd) ` set (c_procs s)"
    and pp: "p_virt_ppid p = p_virt_pid p \<Longrightarrow> p_real_ppid p = p_real_pid p"
      "\<And>ap. ap \<in> set (c_procs s) \<Longrightarrow> p_virt_pid (snd ap) = p_virt_ppid p \<Longrightarrow> p_real_pid (snd ap) = p_real_ppid p"
  shows "coord_inv (s\<lparr> c_table := vt_update (p_virt_ppid p) (p_real_ppid p)
                          (vt_update (p_virt_pid p) (p_real_pid p) (c_table s)),
                        c_procs := (a, p) # c_procs s \<rparr>)"
proof -
  have "p_virt_pid (snd ap) \<noteq> p_virt_pid p" if "ap \<in> set (c_procs s)" for ap
    using that v(2) by force
  then show ?thesis
    using assms by (auto simp: coord_inv_def vt_laws)
qed

section \<open>Every handler keeps the invariant\<close>

text \<open>A fresh virtual pid.\<close>

lemma wp_next_virt_pid:
  assumes "coord_inv s"
    and "\<And>v s'. v = c_next_virt_pid s \<Longrightarrow> s' = s\<lparr> c_next_virt_pid := v + 1 \<rparr> \<Longrightarrow>
           v \<notin> (p_virt_pid \<circ> snd) ` set (c_procs s) \<Longrightarrow> coord_inv s' \<Longrightarrow> Q v s'"
  shows "wp (coord_next_virt_pid os) Q exit_clean s"
proof -
  have "c_next_virt_pid s \<notin> (p_virt_pid \<circ> snd) ` set (c_procs s)"
    using assms(1) by (force simp: coord_inv_def)
  moreover have "coord_inv (s\<lparr> c_next_virt_pid := c_next_virt_pid s + 1 \<rparr>)"
    using assms(1) by (fastforce simp: coord_inv_def)
  ultimately show ?thesis
    using assms(2) by (simp add: coord_next_virt_pid_def)
qed

lemma wp_next_xnd_pid [simp]:
  "wp coord_next_xnd_pid Q E s = Q (c_next_xnd_pid s) (s\<lparr> c_next_xnd_pid := c_next_xnd_pid s + 1 \<rparr>)"
  by (simp add: coord_next_xnd_pid_def)

lemma wp_alloc:
  assumes "coord_inv s"
    and "\<And>a s'. coord_inv s' \<Longrightarrow> a < c_next_addr s' \<Longrightarrow> a \<notin> fst ` set (c_procs s') \<Longrightarrow>
           c_procs s' = c_procs s \<Longrightarrow> c_table s' = c_table s \<Longrightarrow> c_next_virt_pid s' = c_next_virt_pid s \<Longrightarrow> Q a s'"
  shows "wp (alloc_proc os) Q exit_clean s"
proof -
  have "c_next_addr s \<notin> fst ` set (c_procs s)"
    using assms(1) by (force simp: coord_inv_def)
  moreover have "coord_inv (s\<lparr> c_world := w, c_next_addr := c_next_addr s + 1 \<rparr>)" for w
    using assms(1) by (fastforce simp: coord_inv_def)
  ultimately show ?thesis
    using assms(2) by (simp add: alloc_proc_def)
qed

text \<open>The handshake changes the world and the log only, or ends the coordinator.\<close>

lemma wp_handshake:
  assumes "\<And>w l. Q () (s\<lparr> c_world := w, c_log := l \<rparr>)"
  shows "wp (coord_send_handshake os p) Q exit_clean s"
  using assms by (simp add: coord_send_handshake_def)

text \<open>What has to hold to add a process to the list and the table.\<close>

definition registrable :: "nat \<Rightarrow> proc \<Rightarrow> 'w coord \<Rightarrow> bool" where
  "registrable a p s \<longleftrightarrow>
     coord_inv s \<and> a < c_next_addr s \<and> a \<notin> fst ` set (c_procs s) \<and>
     p_virt_pid p < c_next_virt_pid s \<and> p_virt_pid p \<notin> (p_virt_pid \<circ> snd) ` set (c_procs s) \<and>
     (p_virt_ppid p = p_virt_pid p \<longrightarrow> p_real_ppid p = p_real_pid p) \<and>
     (\<forall>ap \<in> set (c_procs s). p_virt_pid (snd ap) = p_virt_ppid p \<longrightarrow> p_real_pid (snd ap) = p_real_ppid p)"

definition fresh_addr :: "nat \<Rightarrow> 'w coord \<Rightarrow> bool" where
  "fresh_addr a s \<longleftrightarrow> coord_inv s \<and> a < c_next_addr s \<and> a \<notin> fst ` set (c_procs s)"

lemma fresh_addr_inv [simp]: "fresh_addr a s \<Longrightarrow> coord_inv s"
  by (simp add: fresh_addr_def)

lemma fresh_addr_quiet [simp]:
  "fresh_addr a (s\<lparr> c_world := w \<rparr>) = fresh_addr a s"
  "fresh_addr a (s\<lparr> c_log := l \<rparr>) = fresh_addr a s"
  "fresh_addr a (s\<lparr> c_next_xnd_pid := x \<rparr>) = fresh_addr a s"
  by (simp_all add: fresh_addr_def)

lemma registrable_quiet [simp]:
  "registrable a p (s\<lparr> c_world := w \<rparr>) = registrable a p s"
  "registrable a p (s\<lparr> c_log := l \<rparr>) = registrable a p s"
  "registrable a p (s\<lparr> c_next_xnd_pid := x \<rparr>) = registrable a p s"
  by (simp_all add: registrable_def)

lemma wp_register:
  assumes "registrable a p s" and "\<And>s'. coord_inv s' \<Longrightarrow> Q () s'"
  shows "wp (coord_register os a p) Q exit_clean s"
  unfolding coord_register_def wp_sq
proof (rule wp_handshake)
  fix w l
  show "wp (modify (\<lambda>s. s\<lparr> c_table := vt_update (p_virt_ppid p) (p_real_ppid p)
        (vt_update (p_virt_pid p) (p_real_pid p) (c_table s)), c_procs := (a, p) # c_procs s \<rparr>))
      Q exit_clean (s\<lparr> c_world := w, c_log := l \<rparr>)"
    using assms coord_inv_register [of "s\<lparr> c_world := w, c_log := l \<rparr>" a p]
    by (simp add: registrable_def)
qed

lemma wp_launch_child:
  assumes "fresh_addr a s" and "(b, q) \<in> set (c_procs s)" "p_real_pid q = m_real_ppid msg"
    and "\<And>p s'. registrable a p s' \<Longrightarrow> Q p s'"
  shows "wp (launch_child os fd msg q) Q exit_clean s"
  unfolding launch_child_def wp_bnd
proof (rule wp_next_virt_pid)
  show "coord_inv s" using assms(1) by simp
next
  fix v s1
  assume 1: "v = c_next_virt_pid s" "s1 = s\<lparr> c_next_virt_pid := v + 1 \<rparr>"
    "v \<notin> (p_virt_pid \<circ> snd) ` set (c_procs s)" "coord_inv s1"
  have "p_virt_pid q \<noteq> v" using 1(3) assms(2) by force
  moreover have "p_real_pid (snd ap) = m_real_ppid msg"
    if "ap \<in> set (c_procs s)" "p_virt_pid (snd ap) = p_virt_pid q" for ap
    using coord_inv_unique_virt [of s ap "(b, q)"] that assms by auto
  ultimately have "registrable a (new_proc fd x (p_xnd_pid q) (p_xnd_pgid q) v (m_real_pid msg)
      (p_virt_pid q) (m_real_ppid msg) PROC_RUNNING) s1" for x
    using 1 assms(1) by (auto simp: registrable_def fresh_addr_def new_proc_def)
  then show "wp coord_next_xnd_pid (\<lambda>x. wp (ret (new_proc fd x (p_xnd_pid q) (p_xnd_pgid q) v
      (m_real_pid msg) (p_virt_pid q) (m_real_ppid msg) PROC_RUNNING)) Q exit_clean) exit_clean s1"
    using assms(4) by simp
qed

lemma wp_launch_first:
  assumes "fresh_addr a s" and "\<And>p s'. registrable a p s' \<Longrightarrow> Q p s'"
  shows "wp (launch_first os fd msg) Q exit_clean s"
  unfolding launch_first_def wp_bnd
proof (rule wp_next_virt_pid)
  show "coord_inv s" using assms(1) by simp
next
  fix v s1
  assume 1: "v = c_next_virt_pid s" "s1 = s\<lparr> c_next_virt_pid := v + 1 \<rparr>"
    "v \<notin> (p_virt_pid \<circ> snd) ` set (c_procs s)" "coord_inv s1"
  have v: "p_virt_pid (snd ap) \<noteq> v" if "ap \<in> set (c_procs s)" for ap
    using that 1(3) by force
  show "wp (coord_next_virt_pid os) (\<lambda>virt_pid. wp coord_next_xnd_pid (\<lambda>xnd_ppid. wp coord_next_xnd_pid
      (\<lambda>x. wp (ret (new_proc fd x xnd_ppid x virt_pid (m_real_pid msg) v (m_real_ppid msg) PROC_RUNNING))
        Q exit_clean) exit_clean) exit_clean) exit_clean s1"
  proof (rule wp_next_virt_pid [OF 1(4)])
    fix v2 s2
    assume 2: "v2 = c_next_virt_pid s1" "s2 = s1\<lparr> c_next_virt_pid := v2 + 1 \<rparr>"
      "v2 \<notin> (p_virt_pid \<circ> snd) ` set (c_procs s1)" "coord_inv s2"
    have "registrable a (new_proc fd x y x v2 (m_real_pid msg) v (m_real_ppid msg) PROC_RUNNING) s2" for x y
      using 1 2 v assms(1) by (auto simp: registrable_def fresh_addr_def new_proc_def)
    then show "wp coord_next_xnd_pid (\<lambda>xnd_ppid. wp coord_next_xnd_pid
        (\<lambda>x. wp (ret (new_proc fd x xnd_ppid x v2 (m_real_pid msg) v (m_real_ppid msg) PROC_RUNNING))
          Q exit_clean) exit_clean) exit_clean s2"
      using assms(2) by simp
  qed
qed

lemma launch_inv:
  assumes inv: "coord_inv s"
  shows "wp (coord_connect_with_process_on_launch os fd msg) (\<lambda>_. coord_inv) exit_clean s"
proof (cases "real_id_exists (c_table s) (m_real_pid msg)")
  case True
  then show ?thesis
    using inv by (auto simp: coord_connect_with_process_on_launch_def intro!: wp_handshake)
next
  case False
  have child: "wp (launch_child os fd msg q) (\<lambda>p. wp (coord_register os a p) (\<lambda>_. coord_inv) exit_clean) exit_clean s'"
    if "fresh_addr a s'" "plist_find (\<lambda>p. p_real_pid p = m_real_ppid msg) (c_procs s') = Some (b, q)"
    for a b q s'
    using that plist_find_SomeD [OF that(2)] by (intro wp_launch_child [OF that(1)] wp_register) auto
  have first: "wp (launch_first os fd msg) (\<lambda>p. wp (coord_register os a p) (\<lambda>_. coord_inv) exit_clean) exit_clean s'"
    if "fresh_addr a s'" for a s'
    using that by (intro wp_launch_first wp_register)
  show ?thesis
    unfolding coord_connect_with_process_on_launch_def
    using False child first by (auto intro!: wp_alloc [OF inv] simp: fresh_addr_def)
qed

text \<open>
  Registering a process that has restarted: its pids come from its checkpoint, and the
  invariant needs that no connected process has its virtual pid, and that it agrees with the
  connected processes on the pid of its parent.
\<close>

definition restart_msg_ok :: "xnd_msg \<Rightarrow> 'w coord \<Rightarrow> bool" where
  "restart_msg_ok msg s \<longleftrightarrow>
     m_virt_pid msg \<notin> (p_virt_pid \<circ> snd) ` set (c_procs s) \<and>
     (m_virt_ppid msg = m_virt_pid msg \<longrightarrow> m_real_ppid msg = m_real_pid msg) \<and>
     (\<forall>ap \<in> set (c_procs s). p_virt_pid (snd ap) = m_virt_ppid msg \<longrightarrow> p_real_pid (snd ap) = m_real_ppid msg)"

lemma restart_inv:
  assumes inv: "coord_inv s" and msg: "restart_msg_ok msg s"
  shows "wp (coord_connect_with_process_on_restart os fd msg) (\<lambda>_. coord_inv) exit_clean s"
  unfolding coord_connect_with_process_on_restart_def wp_bnd Let_def
proof (rule wp_alloc [OF inv])
  fix a and s' :: "'a coord"
  assume s': "coord_inv s'" "a < c_next_addr s'" "a \<notin> fst ` set (c_procs s')" "c_procs s' = c_procs s"
    "c_table s' = c_table s" "c_next_virt_pid s' = c_next_virt_pid s"
  let ?p = "new_proc fd (m_xnd_pid msg) (m_xnd_ppid msg) (m_xnd_pgid msg) (m_virt_pid msg)
      (m_real_pid msg) (m_virt_ppid msg) (m_real_ppid msg) PROC_RESTART_IN_PROGRESS"
  let ?t = "s'\<lparr> c_next_virt_pid := (if c_next_virt_pid s' \<le> p_virt_pid ?p then p_virt_pid ?p + 1 else c_next_virt_pid s'),
      c_next_xnd_pid := (if c_next_xnd_pid s' \<le> p_xnd_pid ?p then p_xnd_pid ?p + 1 else c_next_xnd_pid s') \<rparr>"
  have "coord_inv ?t" using s'(1) by (fastforce simp: coord_inv_def)
  then have "registrable a ?p ?t"
    using s' msg by (auto simp: registrable_def restart_msg_ok_def new_proc_def)
  then have "wp (coord_register os a ?p) (\<lambda>_. coord_inv) exit_clean ?t"
    by (rule wp_register)
  then show "wp (gets c_next_virt_pid) (\<lambda>next. wp (
        if p_virt_pid ?p \<ge> next \<and> p_virt_pid ?p = 2 ^ 31 - 1 then halt Undefined
        else sq (modify (\<lambda>s. s\<lparr>
          c_next_virt_pid := (if p_virt_pid ?p \<ge> next then p_virt_pid ?p + 1 else next),
          c_next_xnd_pid := (if p_xnd_pid ?p \<ge> c_next_xnd_pid s then p_xnd_pid ?p + 1 else c_next_xnd_pid s) \<rparr>))
        (coord_register os a ?p)) (\<lambda>_. coord_inv) exit_clean) exit_clean s'"
    unfolding wp_gets wp_if wp_sq wp_modify wp_halt by simp
qed

text \<open>Registering the child of a fork.\<close>

lemma atfork_inv:
  assumes inv: "coord_inv s"
  shows "wp (coord_atfork os fd msg) (\<lambda>_. coord_inv) exit_clean s"
proof -
  have reg: "registrable a (new_proc fd x (m_xnd_ppid msg) (m_xnd_pgid msg) v (m_real_pid m)
      (m_virt_ppid msg) (p_real_pid q) PROC_RUNNING) (s'\<lparr> c_next_virt_pid := v + 1 \<rparr>)"
    if s': "coord_inv s'" "v = c_next_virt_pid s'" "a < c_next_addr s'" "a \<notin> fst ` set (c_procs s')"
      "coord_inv (s'\<lparr> c_next_virt_pid := v + 1 \<rparr>)"
      "v \<notin> (p_virt_pid \<circ> snd) ` set (c_procs s')"
      and q: "plist_find (\<lambda>p. p_virt_pid p = m_virt_ppid msg) (c_procs s') = Some (b, q)"
    for a v x b q m and s' :: "'a coord"
  proof -
    from plist_find_SomeD [OF q] have mem: "(b, q) \<in> set (c_procs s')" "p_virt_pid q = m_virt_ppid msg"
      by auto
    then have "m_virt_ppid msg \<noteq> v" using s'(6) by force
    moreover have "p_real_pid (snd ap) = p_real_pid q"
      if "ap \<in> set (c_procs s')" "p_virt_pid (snd ap) = m_virt_ppid msg" for ap
      using coord_inv_unique_virt [OF s'(1) that(1) mem(1)] that mem by simp
    ultimately show ?thesis
      using s' by (auto simp: registrable_def new_proc_def)
  qed
  show ?thesis
    unfolding coord_atfork_def
    by (auto intro!: wp_alloc [OF inv] wp_next_virt_pid wp_register simp: Let_def)
      (rule reg, auto simp: comp_def)
qed

text \<open>The file operations never call \<^verbatim>\<open>exit\<close>.\<close>

definition no_exit :: "('w, 'a) prog \<Rightarrow> bool" where
  "no_exit m \<longleftrightarrow> (\<forall>w. wp m (\<lambda>_ _. True) (\<lambda>e _. \<forall>n. e \<noteq> Exited n) w)"

lemma no_exit_basic [simp]:
  "no_exit (ret a)" "no_exit (gets f)" "no_exit (modify g)" "no_exit (sys c)"
  "no_exit (write_bytes os fd b)"
  by (simp_all add: no_exit_def) (auto simp: wp_def write_bytes_def split: option.splits sum.splits)

lemma no_exit_bnd [intro]:
  assumes "no_exit m" and "\<And>a. no_exit (k a)"
  shows "no_exit (bnd m k)"
  using assms unfolding no_exit_def wp_bnd by (blast intro: wp_mono)

lemma no_exit_sq [intro]: "no_exit m \<Longrightarrow> no_exit k \<Longrightarrow> no_exit (sq m k)"
  unfolding sq_def by (rule no_exit_bnd)

lemma no_exit_path [simp]: "no_exit (lift_res (ckptdir_path os n uuid epoch))"
  by (auto simp: no_exit_def ckptdir_path_def xnd_path_join_def Let_def
      split: prod.splits option.splits if_splits)

lemma no_exit_unlink_entries [simp]: "no_exit (unlink_entries os path names)"
  by (induction names) (auto intro!: no_exit_bnd)

lemma manifest_ids_no_exit: "manifest_ids ex i mx acc = Some (Inl e) \<Longrightarrow> e = Undefined"
proof -
  have "r = Inl e \<Longrightarrow> e = Undefined" if "manifest_ids ex i mx acc = Some r" for r
    using that
    by (induction ex i mx acc r rule: manifest_ids.raw_induct [rotated, consumes 1])
      (auto split: if_splits)
  then show "manifest_ids ex i mx acc = Some (Inl e) \<Longrightarrow> e = Undefined" by blast
qed

lemma no_exit_ckptdir [simp]:
  "no_exit (xnd_ckptdir_create os uuid epoch)"
  "no_exit (xnd_ckptdir_open os uuid epoch)"
  "no_exit (xnd_ckptdir_unlink os uuid epoch)"
  unfolding xnd_ckptdir_create_def xnd_ckptdir_open_def xnd_ckptdir_unlink_def
  by (auto intro!: no_exit_bnd no_exit_sq split: prod.split option.split)

lemma no_exit_manifest_ids:
  "no_exit (\<lambda>w. map_option (\<lambda>r. (r, w)) (manifest_ids (ex w) i mx acc))"
  by (auto simp: no_exit_def wp_def split: option.splits sum.splits dest: manifest_ids_no_exit)

lemma no_exit_write_manifest [simp]:
  "no_exit (xnd_ckptfile_write_manifest os n mn mx uuid epoch)"
  unfolding xnd_ckptfile_write_manifest_def xnd_ckptfile_create_manifest_def
  by (auto intro!: no_exit_bnd no_exit_sq no_exit_manifest_ids)

text \<open>
  Commands that keep the invariant and add no process, whatever bounds the pairs of virtual and real pids
  in the list; they may stop or run for ever.
\<close>

definition pids_in :: "(pid_t \<times> pid_t) set \<Rightarrow> 'w coord \<Rightarrow> bool" where
  "pids_in V s \<longleftrightarrow> (\<forall>ap \<in> set (c_procs s). (p_virt_pid (snd ap), p_real_pid (snd ap)) \<in> V)"

definition coord_inv_in :: "(pid_t \<times> pid_t) set \<Rightarrow> 'w coord \<Rightarrow> bool" where
  "coord_inv_in V s \<longleftrightarrow> coord_inv s \<and> pids_in V s"

lemma coord_inv_in_UNIV [simp]: "coord_inv_in UNIV = coord_inv"
  by (simp add: fun_eq_iff coord_inv_in_def pids_in_def)

lemma pids_in_quiet [simp]:
  "pids_in V (s\<lparr> c_world := w \<rparr>) = pids_in V s" "pids_in V (s\<lparr> c_log := l \<rparr>) = pids_in V s"
  "pids_in V (s\<lparr> c_sig_blocked := b \<rparr>) = pids_in V s"
  by (simp_all add: pids_in_def)

lemma pids_in_sub: "pids_in V s \<Longrightarrow> set (c_procs s') \<subseteq> set (c_procs s) \<Longrightarrow> pids_in V s'"
  by (auto simp: pids_in_def)

lemma pids_in_update:
  assumes "\<And>p. p_virt_pid (f p) = p_virt_pid p" and "\<And>p. p_real_pid (f p) = p_real_pid p"
  shows "pids_in V (s\<lparr> c_procs := plist_update a f (c_procs s) \<rparr>) = pids_in V s"
proof -
  have "(p_virt_pid (snd (case ap of (b, p) \<Rightarrow> (b, if b = a then f p else p))),
      p_real_pid (snd (case ap of (b, p) \<Rightarrow> (b, if b = a then f p else p)))) = (p_virt_pid (snd ap), p_real_pid (snd ap))" for ap
    using assms by (cases ap) simp
  then show ?thesis by (simp add: pids_in_def plist_update_def)
qed

lemma pids_in_remove:
  "pids_in V s \<Longrightarrow> pids_in V (run_cleanup (proc_exit_callback os) p (s\<lparr> c_procs := plist_remove a (c_procs s) \<rparr>))"
  by (auto simp: pids_in_def plist_remove_def)

definition keeps :: "('w, 'a) coord_prog \<Rightarrow> bool" where
  "keeps m \<longleftrightarrow> (\<forall>V. hoare (coord_inv_in V) m (\<lambda>_. coord_inv_in V) exit_clean)"

lemma keepsI: "(\<And>V s. coord_inv s \<Longrightarrow> pids_in V s \<Longrightarrow> wp m (\<lambda>_. coord_inv_in V) exit_clean s) \<Longrightarrow> keeps m"
  by (simp add: keeps_def hoare_def coord_inv_in_def)

lemma keepsD: "keeps m \<Longrightarrow> coord_inv s \<Longrightarrow> wp m (\<lambda>_. coord_inv) exit_clean s"
  unfolding keeps_def hoare_def by (drule spec [of _ UNIV]) simp

lemma keeps_inD: "keeps m \<Longrightarrow> coord_inv_in V s \<Longrightarrow> wp m (\<lambda>_. coord_inv_in V) exit_clean s"
  by (simp add: keeps_def hoare_def)

lemma keeps_bnd [intro]: "keeps m \<Longrightarrow> (\<And>a. keeps (k a)) \<Longrightarrow> keeps (bnd m k)"
  unfolding keeps_def by (blast intro: hoare_bnd)

lemma keeps_sq [intro]: "keeps m \<Longrightarrow> keeps k \<Longrightarrow> keeps (sq m k)"
  unfolding keeps_def by (blast intro: hoare_sq)

lemma keeps_basic [simp]:
  "keeps (ret a)" "keeps (gets f)" "keeps (assert_p b)" "keeps (call c)" "keeps (deref d)"
  "keeps (halt Aborted)" "keeps (halt Undefined)" "keeps (coord_exit os n)"
  "keeps (coord_send_msg os fd msg)" "keeps (coord_recv_msg os fd)" "keeps (log_event e)"
  "keeps (set_sigmask sb)" "keeps (kill_all os sig)"
  by (auto intro!: keepsI simp: set_sigmask_def kill_all_def coord_inv_in_def)

lemma keeps_set_proc [simp]:
  assumes "\<And>p. p_virt_pid (f p) = p_virt_pid p" and "\<And>p. p_real_pid (f p) = p_real_pid p"
  shows "keeps (set_proc a f)"
  using assms by (auto intro!: keepsI simp: coord_inv_in_def pids_in_update)

lemma keeps_remove [simp]: "keeps (coord_remove os a)"
  by (auto intro!: keepsI simp: coord_remove_def coord_inv_in_def coord_inv_remove pids_in_remove)

lemma keeps_on_world [simp]:
  assumes "no_exit m"
  shows "keeps (on_world m)"
proof (rule keepsI)
  fix V and s :: "'a coord" assume inv: "coord_inv s" "pids_in V s"
  have "wp m (\<lambda>_ _. True) (\<lambda>e _. \<forall>n. e \<noteq> Exited n) (c_world s)"
    using assms by (simp add: no_exit_def)
  with inv show "wp (on_world m) (\<lambda>_. coord_inv_in V) exit_clean s"
    by (auto simp: coord_inv_in_def wp_def on_world_def zoom_def exit_clean_def split: option.splits sum.splits)
qed

lemma keeps_repeat [intro]: "keeps body \<Longrightarrow> keeps (repeat_until body)"
  unfolding keeps_def
  by (intro allI hoare_repeat) (auto elim!: hoare_post split: option.split)

lemma keeps_each [intro]: "(\<And>x. keeps (f x)) \<Longrightarrow> keeps (each f xs)"
  unfolding keeps_def by (blast intro: hoare_each)

text \<open>The handlers, in the order of the source.\<close>

lemma keeps_case_option [intro]:
  "(x = None \<Longrightarrow> keeps m) \<Longrightarrow> (\<And>a. x = Some a \<Longrightarrow> keeps (k a)) \<Longrightarrow>
     keeps (case x of None \<Rightarrow> m | Some a \<Rightarrow> k a)"
  by (cases x) auto

lemma keeps_if [intro]: "(b \<Longrightarrow> keeps m) \<Longrightarrow> (\<not> b \<Longrightarrow> keeps k) \<Longrightarrow> keeps (if b then m else k)"
  by simp

lemma keeps_prod [intro]: "(\<And>a b. keeps (k a b)) \<Longrightarrow> keeps (case x of (a, b) \<Rightarrow> k a b)"
  by (cases x) simp

lemmas keeps_intros = keeps_bnd keeps_sq keeps_case_option keeps_if keeps_prod keeps_repeat keeps_each

lemma keeps_send_or_abort [simp]: "keeps (send_or_abort os fd msg)"
  unfolding send_or_abort_def by (intro keeps_intros) simp_all

lemma keeps_translations [simp]:
  "keeps (coord_send_virt_to_real os fd msg)" "keeps (coord_send_real_to_virt os fd msg)"
  unfolding coord_send_virt_to_real_def coord_send_real_to_virt_def
  by (intro keeps_intros; simp)+

lemma keeps_handle_msg [simp]: "keeps (coord_handle_msg os fd msg)"
  unfolding coord_handle_msg_def
  by (auto intro!: keeps_intros split: xnd_msghdr.split)

lemma keeps_release_loop [simp]: "keeps (release_loop os type as)"
  by (induction as) (auto intro!: keeps_intros split: prod.split)

lemma keeps_release_barrier [simp]: "keeps (coord_release_barrier os type)"
  unfolding coord_release_barrier_def by (intro keeps_intros) simp_all

lemma keeps_prepare_round [simp]: "keeps (prepare_round os as fds)"
  by (induction as arbitrary: fds) (auto intro!: keeps_intros)

lemma keeps_collective_prepare [simp]: "keeps (coord_collective_prepare os type)"
  unfolding coord_collective_prepare_def prepare_body_def by (intro keeps_intros) simp_all

lemma keeps_suspend_step [simp]: "keeps (suspend_step os a p)"
  unfolding suspend_step_def by (auto intro!: keeps_intros split: proc_state.split)

lemma keeps_suspend_round [simp]: "keeps (suspend_round os as ready nr)"
  by (induction as arbitrary: ready nr) (auto intro!: keeps_intros)

lemma keeps_suspend_processes [simp]: "keeps (coord_suspend_processes os)"
  unfolding coord_suspend_processes_def suspend_body_def by (intro keeps_intros) simp_all

lemma keeps_determine_roots [simp]: "keeps coord_determine_roots"
  unfolding coord_determine_roots_def by (intro keeps_intros) simp_all

lemma keeps_completion_loop [simp]: "keeps (completion_loop os as n)"
  by (induction as arbitrary: n) (auto intro!: keeps_intros)

lemma keeps_wait_for_ckpt_completions [simp]: "keeps (coord_wait_for_ckpt_completions os)"
  unfolding coord_wait_for_ckpt_completions_def by (intro keeps_intros) simp_all

lemma keeps_write_ckpt_manifest [simp]: "keeps (coord_write_ckpt_manifest os)"
  unfolding coord_write_ckpt_manifest_def by (intro keeps_intros) simp_all

lemma keeps_modify [simp]:
  "(\<And>s. coord_inv s \<Longrightarrow> coord_inv (g s)) \<Longrightarrow> (\<And>s. c_procs (g s) = c_procs s) \<Longrightarrow> keeps (modify g)"
  by (auto intro!: keepsI simp: coord_inv_in_def pids_in_def)

lemma keeps_checkpoint_commit [simp]: "keeps (checkpoint_commit os epoch)"
  unfolding checkpoint_commit_def by (intro keeps_intros) simp_all

lemma keeps_do_checkpoint [simp]: "keeps (coord_do_checkpoint os)"
  unfolding coord_do_checkpoint_def by (intro keeps_intros) simp_all

lemma keeps_handle_command [simp]: "keeps (coord_handle_command os fd msg)"
  unfolding coord_handle_command_def coord_broadcast_kill_def
  by (auto intro!: keeps_intros split: xnd_cmd.split)

lemma keeps_oob_request [simp]: "keeps reply \<Longrightarrow> keeps (oob_request os fd msg reply)"
  unfolding oob_request_def by (intro keeps_intros) simp_all

lemma keeps_serve_proc [simp]: "keeps (serve_proc os ready a)"
  unfolding serve_proc_def serve_fd_def by (intro keeps_intros) simp_all

text \<open>The heartbeat erases the table entries of the processes it drops and no others.\<close>

abbreviation virt_of :: "nat \<times> proc \<Rightarrow> pid_t" where
  "virt_of ap \<equiv> p_virt_pid (snd ap)"

definition gone_coord :: "('w, 'm) net_os_scheme \<Rightarrow> pid_t \<Rightarrow> 'w coord \<Rightarrow> bool \<times> 'w coord" where
  "gone_coord os pid s = (case os_gone os pid (c_world s) of (gone, w) \<Rightarrow> (gone, s\<lparr> c_world := w \<rparr>))"

lemma gone_coord_sel:
  assumes "gone_coord os pid s = (d, s')"
  shows "c_table s' = c_table s" "c_next_addr s' = c_next_addr s" "c_next_virt_pid s' = c_next_virt_pid s"
  using assms by (auto simp: gone_coord_def split: prod.splits)

lemma run_cleanup_table:
  "vt_wf (c_table s) \<Longrightarrow> vt_wf (c_table (run_cleanup (proc_exit_callback os) p s))"
  "vt_wf (c_table s) \<Longrightarrow> v \<noteq> p_virt_pid p \<Longrightarrow>
     virtual_to_real (c_table (run_cleanup (proc_exit_callback os) p s)) v = virtual_to_real (c_table s) v"
  by (simp_all add: run_cleanup_def proc_exit_callback_def Let_def vt_laws)

lemma plist_filter_coord:
  assumes "plist_filter (gone_coord os) (proc_exit_callback os) ps s = (ps', s')"
    and "distinct (map fst ps)" and "distinct (map virt_of ps)" and "vt_wf (c_table s)"
  shows "c_next_addr s' = c_next_addr s \<and> c_next_virt_pid s' = c_next_virt_pid s \<and>
         vt_wf (c_table s') \<and> set ps' \<subseteq> set ps \<and>
         distinct (map fst ps') \<and> distinct (map virt_of ps') \<and>
         (\<forall>v. v \<notin> virt_of ` set ps \<or> v \<in> virt_of ` set ps' \<longrightarrow>
            virtual_to_real (c_table s') v = virtual_to_real (c_table s) v)"
  using assms
proof (induction ps arbitrary: s ps')
  case Nil
  then show ?case by simp
next
  case (Cons ap ps)
  obtain a p where ap: "ap = (a, p)" by (cases ap)
  obtain dead s1 where g: "gone_coord os (p_real_pid p) s = (dead, s1)" by fastforce
  note sel = gone_coord_sel [OF g]
  let ?s2 = "run_cleanup (proc_exit_callback os) p s1"
  show ?case
  proof (cases dead)
    case True
    have run: "plist_filter (gone_coord os) (proc_exit_callback os) ps ?s2 = (ps', s')"
      using Cons.prems(1) ap g True by simp
    have "vt_wf (c_table ?s2)" using Cons.prems(4) sel run_cleanup_table(1) by metis
    from Cons.IH [OF run _ _ this] Cons.prems(2,3) ap have IH: "c_next_addr s' = c_next_addr ?s2"
      "c_next_virt_pid s' = c_next_virt_pid ?s2" "vt_wf (c_table s')" "set ps' \<subseteq> set ps"
      "distinct (map fst ps')" "distinct (map virt_of ps')"
      "\<And>v. v \<notin> virt_of ` set ps \<or> v \<in> virt_of ` set ps' \<Longrightarrow>
         virtual_to_real (c_table s') v = virtual_to_real (c_table ?s2) v"
      by auto
    have look: "virtual_to_real (c_table s') v = virtual_to_real (c_table s) v"
      if "v \<notin> virt_of ` set (ap # ps) \<or> v \<in> virt_of ` set ps'" for v
    proof -
      have "p_virt_pid p \<notin> virt_of ` set ps'"
        using Cons.prems(3) ap IH(4) by auto
      then have "v \<noteq> p_virt_pid p" using that ap by auto
      moreover have "vt_wf (c_table s1)" using Cons.prems(4) sel(1) by simp
      ultimately show ?thesis
        using IH(7) [of v] that run_cleanup_table(2) [of s1 v p os] sel(1) by auto
    qed
    show ?thesis using IH(1-6) look sel by auto
  next
    case False
    then obtain qs where run: "plist_filter (gone_coord os) (proc_exit_callback os) ps s1 = (qs, s')"
      and ps': "ps' = (a, p) # qs"
      using Cons.prems(1) ap g by (auto split: prod.splits)
    from Cons.IH [OF run] Cons.prems sel have IH: "c_next_addr s' = c_next_addr s"
      "c_next_virt_pid s' = c_next_virt_pid s" "vt_wf (c_table s')" "set qs \<subseteq> set ps"
      "distinct (map fst qs)" "distinct (map virt_of qs)"
      "\<forall>v. v \<notin> virt_of ` set ps \<or> v \<in> virt_of ` set qs \<longrightarrow>
         virtual_to_real (c_table s') v = virtual_to_real (c_table s) v"
      by auto
    have "a \<notin> fst ` set qs" "p_virt_pid p \<notin> virt_of ` set qs" "p_virt_pid p \<notin> virt_of ` set ps"
      using Cons.prems(2,3) ap IH(4) by auto
    then show ?thesis using IH ap ps' by auto
  qed
qed

lemma keeps_filter [simp]: "keeps (coord_filter os)"
proof (rule keepsI)
  fix V and s :: "'a coord" assume inv: "coord_inv s" "pids_in V s"
  obtain ps' s' where run: "plist_filter (gone_coord os) (proc_exit_callback os) (c_procs s) s = (ps', s')"
    by fastforce
  from plist_filter_coord [OF run] inv
  have "coord_inv_in V (s'\<lparr> c_procs := ps' \<rparr>)"
    by (auto simp: coord_inv_in_def coord_inv_def pids_in_def comp_def)
  then show "wp (coord_filter os) (\<lambda>_. coord_inv_in V) exit_clean s"
    using run by (simp add: coord_filter_def gone_coord_def [abs_def])
qed

text \<open>
  A new connection. A restart message has to agree with the processes that are connected;
  all other messages are taken as they come.
\<close>

lemma accept_inv:
  assumes inv: "coord_inv s" and "m_hdr msg = XND_CONNECT_RESTART \<Longrightarrow> restart_msg_ok msg s"
  shows "wp (coord_accept os fd msg) (\<lambda>_. coord_inv) exit_clean s"
proof -
  have "keeps (sq (coord_handle_command os fd msg) (modify (\<lambda>s. s\<lparr> c_world := os_close os fd (c_world s) \<rparr>)))"
    by (intro keeps_intros) simp_all
  note command = keepsD [OF this inv]
  have restart: "wp (sq (modify (\<lambda>s. if c_procs s = []
                then s\<lparr> c_epoch := m_epoch msg, c_num_peers := m_num_peers msg,
                        c_ckpt_interval := m_ckpt_interval msg, c_uuid := m_xnd_uuid msg \<rparr>
                else s))
             (coord_connect_with_process_on_restart os fd msg)) (\<lambda>_. coord_inv) exit_clean s"
    if "m_hdr msg = XND_CONNECT_RESTART"
    unfolding wp_sq wp_modify using inv assms(2) [OF that]
    by (intro restart_inv) (auto simp: restart_msg_ok_def)
  have oob: "wp (oob_request os fd msg (coord_send_real_to_virt os fd msg)) (\<lambda>_. coord_inv) exit_clean s"
    "wp (oob_request os fd msg (coord_send_virt_to_real os fd msg)) (\<lambda>_. coord_inv) exit_clean s"
    using inv by (simp_all add: keepsD)
  show ?thesis
    using restart launch_inv [OF inv, of os fd msg] atfork_inv [OF inv, of os fd msg] command oob
    by (simp add: coord_accept_def del: wp_sq split: xnd_msghdr.split)
qed

section \<open>The coordinator as a state machine\<close>

text \<open>
  The steps of the main loop: a connection is accepted, a process of the list is served, a
  checkpoint is taken, the heartbeat runs; the environment may change the world at any time.
\<close>

inductive coord_step :: "('w, 'm) net_os_scheme \<Rightarrow> 'w coord \<Rightarrow> 'w coord \<Rightarrow> bool" for os where
  accept: "\<lbrakk> coord_accept os fd msg s = Some (Inr (), s'); m_hdr msg \<noteq> XND_CONNECT_RESTART \<rbrakk> \<Longrightarrow> coord_step os s s'"
| serve: "serve_proc os ready a s = Some (Inr (), s') \<Longrightarrow> coord_step os s s'"
| checkpoint: "coord_do_checkpoint os s = Some (Inr (), s') \<Longrightarrow> coord_step os s s'"
| heartbeat: "coord_filter os s = Some (Inr (), s') \<Longrightarrow> coord_step os s s'"
| environment: "coord_step os s (s\<lparr> c_world := w \<rparr>)"

text \<open>
  A restart. The processes that come back are those an earlier coordinator had: each connects once, with
  the virtual pids it had and a new real pid, \<open>new_pid\<close> of its virtual one. A process whose parent
  comes back too reports the new pid of its parent; for others the pid of the parent is arbitrary.
\<close>

definition comes_back :: "proc set \<Rightarrow> (pid_t \<Rightarrow> pid_t) \<Rightarrow> proc \<Rightarrow> xnd_msg \<Rightarrow> bool" where
  "comes_back family new_pid p msg \<longleftrightarrow> m_hdr msg = XND_CONNECT_RESTART \<and>
     m_virt_pid msg = p_virt_pid p \<and> m_virt_ppid msg = p_virt_ppid p \<and> m_real_pid msg = new_pid (p_virt_pid p) \<and>
     (p_virt_ppid p \<in> p_virt_pid ` family \<longrightarrow> m_real_ppid msg = new_pid (p_virt_ppid p))"

text \<open>
  The coordinator during \<^verbatim>\<open>coord_do_restart\<close>, with the processes that have connected so far: the
  connections, its translations and commands meanwhile, and the parts of the barrier.
\<close>

inductive coord_restarting ::
  "('w, 'm) net_os_scheme \<Rightarrow> proc set \<Rightarrow> (pid_t \<Rightarrow> pid_t) \<Rightarrow> proc set \<Rightarrow> 'w coord \<Rightarrow> bool" for os family new_pid where
  start: "coord_init os (coord_info0 w) = Some (Inr (), s) \<Longrightarrow> coord_restarting os family new_pid {} s"
| connect: "\<lbrakk> coord_restarting os family new_pid got s; p \<in> family - got; comes_back family new_pid p msg;
      coord_accept os fd msg s = Some (Inr (), s') \<rbrakk> \<Longrightarrow> coord_restarting os family new_pid (insert p got) s'"
| other: "\<lbrakk> coord_restarting os family new_pid got s;
      m_hdr msg \<notin> {XND_CONNECT_RESTART, XND_CONNECT_LAUNCH, XND_ATFORK_PREPARE};
      coord_accept os fd msg s = Some (Inr (), s') \<rbrakk> \<Longrightarrow> coord_restarting os family new_pid got s'"
| prepare: "\<lbrakk> coord_restarting os family new_pid got s; coord_collective_prepare os type s = Some (Inr n, s') \<rbrakk>
      \<Longrightarrow> coord_restarting os family new_pid got s'"
| release: "\<lbrakk> coord_restarting os family new_pid got s;
      coord_release_barrier os COORD_BARRIER_POSTRESTART s = Some (Inr err, s') \<rbrakk> \<Longrightarrow> coord_restarting os family new_pid got s'"
| environment: "coord_restarting os family new_pid got s \<Longrightarrow> coord_restarting os family new_pid got (s\<lparr> c_world := w \<rparr>)"

text \<open>
  What a coordinator can get to: it starts a computation, or it restarts one that a coordinator had got to,
  and then runs the main loop.
\<close>

inductive coord_reachable :: "('w, 'm) net_os_scheme \<Rightarrow> 'w coord \<Rightarrow> bool" for os where
  start: "coord_init os (coord_info0 w) = Some (Inr (), s) \<Longrightarrow> coord_reachable os s"
| restart: "coord_reachable os s0 \<Longrightarrow> coord_restarting os (snd ` set (c_procs s0)) new_pid got s \<Longrightarrow> coord_reachable os s"
| step: "coord_reachable os s \<Longrightarrow> coord_step os s s' \<Longrightarrow> coord_reachable os s'"

lemma wpD: "wp m Q E s \<Longrightarrow> m s = Some (Inr a, s') \<Longrightarrow> Q a s'"
  by (simp add: wp_def)

lemma init_inv: "wp (coord_init os) (\<lambda>_. coord_inv) exit_clean (coord_info0 w)"
  by (simp add: coord_init_def coord_setup_handler_def) (simp add: coord_inv_def vt_wf_def)

lemma keeps_step:
  assumes "keeps m" and "coord_inv s" and "m s = Some (Inr a, s')"
  shows "coord_inv s'"
  using keepsD [OF assms(1,2)] assms(3) by (rule wpD)

lemma coord_step_inv:
  assumes "coord_step os s s'" and inv: "coord_inv s"
  shows "coord_inv s'"
  using assms(1)
proof cases
  case (accept fd msg)
  then show ?thesis using wpD [OF accept_inv [OF inv]] by blast
next
  case (serve ready a)
  show ?thesis by (rule keeps_step [OF keeps_serve_proc inv serve])
next
  case checkpoint
  show ?thesis by (rule keeps_step [OF keeps_do_checkpoint inv checkpoint])
next
  case heartbeat
  show ?thesis by (rule keeps_step [OF keeps_filter inv heartbeat])
next
  case (environment w)
  then show ?thesis using inv by simp
qed

subsection \<open>Restarts\<close>

text \<open>The messages that register no process keep the bound on the pids too.\<close>

lemma keeps_accept:
  assumes "m_hdr msg \<notin> {XND_CONNECT_RESTART, XND_CONNECT_LAUNCH, XND_ATFORK_PREPARE}"
  shows "keeps (coord_accept os fd msg)"
  using assms unfolding coord_accept_def
  by (cases "m_hdr msg") (auto intro!: keeps_intros)

lemma keeps_in_step:
  assumes "keeps m" and "coord_inv_in V s" and "m s = Some (Inr a, s')"
  shows "coord_inv_in V s'"
  using keeps_inD [OF assms(1,2)] assms(3) by (rule wpD)

text \<open>A registration adds one process, with the pids of the message.\<close>

lemma connect_adds:
  assumes "m_hdr msg = XND_CONNECT_RESTART" and "pids_in V s"
  shows "wp (coord_accept os fd msg) (\<lambda>_. pids_in (insert (m_virt_pid msg, m_real_pid msg) V)) (\<lambda>_ _. True) s"
proof -
  have exit: "wp (coord_exit os n) Q (\<lambda>_ _. True) t" for n t and Q :: "unit \<Rightarrow> 'a coord \<Rightarrow> bool"
    using wp_coord_exit [of os n Q t] by (rule wp_mono) simp_all
  show ?thesis
    using assms
    by (simp add: coord_accept_def coord_connect_with_process_on_restart_def coord_register_def coord_send_handshake_def
        alloc_proc_def Let_def exit pids_in_def new_proc_def)
qed

lemma restarting_inv:
  assumes "coord_restarting os family new_pid got s" and "inj_on p_virt_pid family"
  shows "got \<subseteq> family \<and> coord_inv_in ((\<lambda>p. (p_virt_pid p, new_pid (p_virt_pid p))) ` got) s"
  using assms
proof (induction rule: coord_restarting.induct)
  case (start w s)
  have "coord_inv s" using init_inv start(1) by (rule wpD)
  moreover have "wp (coord_init os) (\<lambda>_ s. c_procs s = []) (\<lambda>_ _. True) (coord_info0 w)"
    by (simp add: coord_init_def coord_setup_handler_def)
  from wpD [OF this start(1)] have "c_procs s = []" .
  ultimately show ?case by (simp add: coord_inv_in_def pids_in_def)
next
  case (connect got s p msg fd s')
  let ?V = "(\<lambda>p. (p_virt_pid p, new_pid (p_virt_pid p))) ` got"
  have got: "got \<subseteq> family" and inv: "coord_inv s" "pids_in ?V s"
    using connect.IH connect.prems by (simp_all add: coord_inv_in_def)
  have known: "\<exists>q \<in> got. p_virt_pid (snd ap) = p_virt_pid q \<and> p_real_pid (snd ap) = new_pid (p_virt_pid q)"
    if "ap \<in> set (c_procs s)" for ap
    using inv(2) that by (auto simp: pids_in_def)
  have "restart_msg_ok msg s"
    unfolding restart_msg_ok_def
  proof (intro conjI impI ballI)
    show "m_virt_pid msg \<notin> (p_virt_pid \<circ> snd) ` set (c_procs s)"
    proof
      assume "m_virt_pid msg \<in> (p_virt_pid \<circ> snd) ` set (c_procs s)"
      then obtain q where "q \<in> got" "p_virt_pid q = p_virt_pid p"
        using known connect.hyps(3) by (force simp: comes_back_def)
      then show False
        using connect.hyps(2) connect.prems got by (auto dest: inj_onD)
    qed
  next
    assume "m_virt_ppid msg = m_virt_pid msg"
    then show "m_real_ppid msg = m_real_pid msg"
      using connect.hyps(2,3) by (auto simp: comes_back_def)
  next
    fix ap assume ap: "ap \<in> set (c_procs s)" "p_virt_pid (snd ap) = m_virt_ppid msg"
    with known obtain q where "q \<in> got" "p_virt_pid q = m_virt_ppid msg" "p_real_pid (snd ap) = new_pid (p_virt_pid q)"
      by metis
    then have "m_virt_ppid msg \<in> p_virt_pid ` family" "p_real_pid (snd ap) = new_pid (m_virt_ppid msg)"
      using got by auto (metis image_eqI subsetD)
    then show "p_real_pid (snd ap) = m_real_ppid msg"
      using connect.hyps(3) by (auto simp: comes_back_def)
  qed
  then have "coord_inv s'"
    using wpD [OF accept_inv [OF inv(1)] connect.hyps(4)] by blast
  moreover have "pids_in (insert (m_virt_pid msg, m_real_pid msg) ?V) s'"
    using connect.hyps(3) by (intro wpD [OF connect_adds [OF _ inv(2)] connect.hyps(4)]) (simp add: comes_back_def)
  ultimately show ?case
    using connect.hyps(2,3) got by (simp add: coord_inv_in_def comes_back_def)
next
  case (other got s msg fd s')
  then show ?case using keeps_in_step [OF keeps_accept] by blast
next
  case (prepare got s type n s')
  then show ?case using keeps_in_step [OF keeps_collective_prepare] by blast
next
  case (release got s err s')
  then show ?case using keeps_in_step [OF keeps_release_barrier] by blast
next
  case (environment got s w)
  then show ?case by (simp add: coord_inv_in_def)
qed

lemma reachable_inv: "coord_reachable os s \<Longrightarrow> coord_inv s"
proof (induction rule: coord_reachable.induct)
  case (start w s)
  show ?case by (rule wpD [OF init_inv start])
next
  case (restart s0 new_pid got s)
  have "inj_on p_virt_pid (snd ` set (c_procs s0))"
    using restart.IH by (auto simp: coord_inv_def distinct_map intro: inj_on_imageI)
  then show ?case
    using restarting_inv [OF restart.hyps(2)] by (simp add: coord_inv_in_def)
next
  case (step s s')
  then show ?case using coord_step_inv by blast
qed

end
