(* ===== verification/Coord_Ckpt.thy ===== *)
theory Coord_Ckpt
  imports Coord_Inv
begin

text \<open>
  The checkpoint protocol of \<^verbatim>\<open>coord_do_checkpoint\<close>: what each phase adds to the
  message log and does to the states of the processes, and the trace of a checkpoint that was
  committed. A stop of the coordinator may happen anywhere; the lemmas bound the runs that
  return.
\<close>

abbreviation any_stop :: "stop \<Rightarrow> 'w coord \<Rightarrow> bool" where
  "any_stop \<equiv> \<lambda>_ _. True"

lemma wp_coord_exit_any [simp]: "wp (coord_exit os n) Q any_stop s"
  using wp_coord_exit [of os n "\<lambda>_ _. False" s] by (rule wp_mono) simp_all

text \<open>The state of the whole list of processes during a phase.\<close>

definition fd_of :: "plist \<Rightarrow> nat \<Rightarrow> fd" where
  "fd_of ps a = (case map_of ps a of None \<Rightarrow> - 1 | Some p \<Rightarrow> p_fd p)"

definition set_states :: "nat list \<Rightarrow> proc_state \<Rightarrow> plist \<Rightarrow> plist" where
  "set_states as st ps = map (\<lambda>(b, p). (b, if b \<in> set as then p\<lparr> p_state := st \<rparr> else p)) ps"

lemma map_of_update:
  "map_of (plist_update a f ps) b = (case map_of ps b of None \<Rightarrow> None | Some p \<Rightarrow> Some (if b = a then f p else p))"
  by (induction ps) (auto simp: plist_update_def)

lemma fd_of_update_state [simp]: "fd_of (plist_update a (\<lambda>p. p\<lparr> p_state := st \<rparr>) ps) b = fd_of ps b"
  by (simp add: fd_of_def map_of_update split: option.split)

lemma set_states_Nil [simp]: "set_states [] st ps = ps"
  by (simp add: set_states_def)

lemma set_states_Cons:
  "set_states as st (plist_update a (\<lambda>p. p\<lparr> p_state := st \<rparr>) ps) = set_states (a # as) st ps"
  by (auto simp: set_states_def plist_update_def)

lemma set_states_all:
  "set_states (map fst ps) st ps = map (\<lambda>(b, p). (b, p\<lparr> p_state := st \<rparr>)) ps"
  by (auto simp: set_states_def rev_image_eqI)

lemma fds_eq:
  assumes "distinct (map fst ps)"
  shows "map (fd_of ps) (map fst ps) = map (p_fd \<circ> snd) ps"
  using assms by (auto simp: fd_of_def)

section \<open>Releasing a barrier\<close>

text \<open>
  \<open>after s w evs as st\<close>: the messages \<open>evs\<close> have been logged and the
  processes at the addresses \<open>as\<close> are in state \<open>st\<close>; the world is \<open>w\<close>,
  all else is as in \<open>s\<close>.
\<close>

definition after :: "'w coord \<Rightarrow> 'w \<Rightarrow> event list \<Rightarrow> nat list \<Rightarrow> proc_state \<Rightarrow> 'w coord" where
  "after s w evs as st =
     s\<lparr> c_world := w, c_log := c_log s @ evs, c_procs := set_states as st (c_procs s) \<rparr>"

lemma after_Nil: "after s (c_world s) [] [] st = s"
  by (simp add: after_def)

lemma after_step:
  "after (s\<lparr> c_world := w1, c_log := c_log s @ [e],
             c_procs := plist_update a (\<lambda>p. p\<lparr> p_state := st \<rparr>) (c_procs s) \<rparr>) w evs as st
     = after s w (e # evs) (a # as) st"
  by (simp add: after_def set_states_Cons)

definition all_in_state :: "proc_state \<Rightarrow> nat list \<Rightarrow> plist \<Rightarrow> bool" where
  "all_in_state st as ps \<longleftrightarrow> (\<forall>a \<in> set as. \<exists>p. map_of ps a = Some p \<and> p_state p = st)"

lemma all_in_state_update:
  assumes "a \<notin> set as"
  shows "all_in_state st as (plist_update a f ps) = all_in_state st as ps"
  using assms by (auto simp: all_in_state_def map_of_update split: option.splits)

definition released ::
  "xnd_msghdr \<Rightarrow> proc_state \<Rightarrow> proc_state \<Rightarrow> nat list \<Rightarrow> 'w coord \<Rightarrow> int \<Rightarrow> 'w coord \<Rightarrow> bool" where
  "released hdr expected st as s r s' \<longleftrightarrow> (r = 0 \<longrightarrow>
     all_in_state expected as (c_procs s) \<and>
     (\<exists>w. s' = after s w (map (\<lambda>a. Ev_Send (fd_of (c_procs s) a) hdr) as) as st))"

lemma released_step:
  assumes "released hdr expected st as (s\<lparr> c_world := w, c_log := c_log s @ [Ev_Send (p_fd p) hdr],
      c_procs := plist_update a (\<lambda>p. p\<lparr> p_state := st \<rparr>) (c_procs s) \<rparr>) r s'"
    and "map_of (c_procs s) a = Some p" "p_state p = expected" "a \<notin> set as"
  shows "released hdr expected st (a # as) s r s'"
proof -
  have "fd_of (c_procs s) a = p_fd p" using assms(2) by (simp add: fd_of_def)
  then show ?thesis
    using assms by (auto simp: released_def after_step all_in_state_update) (simp add: all_in_state_def)
qed

lemma wp_release_loop:
  assumes "barrier_step type = (hdr, expected, st)" and "distinct as"
  shows "wp (release_loop os type as) (released hdr expected st as s) any_stop s"
  using assms(2)
proof (induction as arbitrary: s)
  case Nil
  then show ?case using after_Nil [of s st] by (auto simp: released_def all_in_state_def) metis
next
  case (Cons a as)
  have fail: "released hdr expected st (a # as) s (- 1) s'" for s'
    by (simp add: released_def)
  have step: "wp (release_loop os type as) (released hdr expected st (a # as) s) any_stop
      (s\<lparr> c_world := w1, c_log := c_log s @ [Ev_Send (p_fd p) hdr],
          c_procs := plist_update a (\<lambda>p. p\<lparr> p_state := st \<rparr>) (c_procs s) \<rparr>)"
    if "map_of (c_procs s) a = Some p" "p_state p = expected" for p w1
    using Cons.prems that by (auto intro!: wp_mono [OF Cons.IH] elim: released_step)
  show ?case
    using assms(1) step fail by auto
qed

section \<open>Collecting the completions\<close>

definition completed :: "nat list \<Rightarrow> nat \<Rightarrow> 'w coord \<Rightarrow> nat \<Rightarrow> 'w coord \<Rightarrow> bool" where
  "completed as n s r s' \<longleftrightarrow> r \<le> n + length as \<and> (r = n + length as \<longrightarrow>
     (\<exists>w. s' = after s w (map (\<lambda>a. Ev_Recv (fd_of (c_procs s) a) XND_CKPT_DONE) as) as PROC_CKPT_COMPLETE))"

lemma completed_step:
  assumes "completed as (Suc n) (s\<lparr> c_world := w, c_log := c_log s @ [Ev_Recv (p_fd p) XND_CKPT_DONE],
      c_procs := plist_update a (\<lambda>p. p\<lparr> p_state := PROC_CKPT_COMPLETE \<rparr>) (c_procs s) \<rparr>) r s'"
    and "map_of (c_procs s) a = Some p"
  shows "completed (a # as) n s r s'"
proof -
  have "fd_of (c_procs s) a = p_fd p" using assms(2) by (simp add: fd_of_def)
  then show ?thesis
    using assms by (auto simp: completed_def after_step)
qed

lemma completed_skip: "completed as n s1 r s' \<Longrightarrow> completed (a # as) n s r s'"
  by (auto simp: completed_def)

lemma wp_completion_loop:
  "distinct as \<Longrightarrow> wp (completion_loop os as n) (completed as n s) any_stop s"
proof (induction as arbitrary: s n)
  case Nil
  then show ?case using after_Nil [of s PROC_CKPT_COMPLETE] by (auto simp: completed_def) metis
next
  case (Cons a as)
  have skip: "wp (completion_loop os as n) (completed (a # as) n s) any_stop s1" for s1
    using Cons by (auto intro!: wp_mono [OF Cons.IH] elim: completed_skip)
  have step: "wp (completion_loop os as (n + 1)) (completed (a # as) n s) any_stop
      (s\<lparr> c_world := w1, c_log := c_log s @ [Ev_Recv (p_fd p) XND_CKPT_DONE],
          c_procs := plist_update a (\<lambda>p. p\<lparr> p_state := PROC_CKPT_COMPLETE \<rparr>) (c_procs s) \<rparr>)"
    if "map_of (c_procs s) a = Some p" for p w1
    using Cons.prems that by (auto intro!: wp_mono [OF Cons.IH] elim: completed_step)
  show ?case
    using skip step by simp
qed

section \<open>Preparing a collective operation\<close>

text \<open>
  The round drops processes from the list; what is left is a sub-sequence of the list before,
  with one descriptor each. Only the list, the table and the world change.
\<close>

definition shrunk :: "'w coord \<Rightarrow> 'w coord \<Rightarrow> bool" where
  "shrunk s s' \<longleftrightarrow>
     (\<exists>P w t. s' = s\<lparr> c_world := w, c_table := t, c_procs := filter P (c_procs s) \<rparr>)"

lemma shrunkI: "s' = s\<lparr> c_world := w, c_table := t, c_procs := filter P (c_procs s) \<rparr> \<Longrightarrow> shrunk s s'"
  unfolding shrunk_def by blast

lemma shrunk_refl [simp]: "shrunk s s"
  by (rule shrunkI [where w = "c_world s" and t = "c_table s" and P = "\<lambda>_. True"]) simp

lemma shrunk_trans:
  assumes "shrunk s s1" and "shrunk s1 s2"
  shows "shrunk s s2"
proof -
  from assms obtain P w t P' w' t' where
    "s1 = s\<lparr> c_world := w, c_table := t, c_procs := filter P (c_procs s) \<rparr>"
    "s2 = s1\<lparr> c_world := w', c_table := t', c_procs := filter P' (c_procs s1) \<rparr>"
    unfolding shrunk_def by blast
  then have "s2 = s\<lparr> c_world := w', c_table := t', c_procs := filter (\<lambda>x. P x \<and> P' x) (c_procs s) \<rparr>"
    by (simp add: conj_commute)
  then show ?thesis by (rule shrunkI)
qed

lemma shrunk_world: "shrunk s s1 \<Longrightarrow> shrunk s (s1\<lparr> c_world := w \<rparr>)"
  by (rule shrunk_trans [of _ s1])
    (auto intro: shrunkI [where w = w and t = "c_table s1" and P = "\<lambda>_. True"])

lemma shrunk_procs: "shrunk s s' \<Longrightarrow> \<exists>P. c_procs s' = filter P (c_procs s)"
  by (auto simp: shrunk_def)

lemma shrunk_same:
  assumes "shrunk s s'" and "length (c_procs s') = length (c_procs s)"
  shows "c_procs s' = c_procs s \<and> (\<exists>w t. s' = s\<lparr> c_world := w, c_table := t \<rparr>)"
proof -
  from assms(1) obtain P w t where s': "s' = s\<lparr> c_world := w, c_table := t, c_procs := filter P (c_procs s) \<rparr>"
    unfolding shrunk_def by blast
  then have "filter P (c_procs s) = c_procs s"
    using assms(2) by simp (metis filter_True length_filter_less not_less_iff_gr_or_eq)
  with s' show ?thesis by (auto intro: exI [of _ w] exI [of _ t])
qed

lemma shrunk_remove:
  "shrunk s (run_cleanup (proc_exit_callback os) p (s\<lparr> c_procs := plist_remove a (c_procs s) \<rparr>))"
proof (rule shrunkI)
  let ?r = "run_cleanup (proc_exit_callback os) p (s\<lparr> c_procs := plist_remove a (c_procs s) \<rparr>)"
  show "?r = s\<lparr> c_world := c_world ?r, c_table := c_table ?r,
      c_procs := filter (\<lambda>bp. fst bp \<noteq> a) (c_procs s) \<rparr>"
    by (simp add: plist_remove_def run_cleanup_def proc_exit_callback_def Let_def)
qed

lemma wp_prepare_round:
  assumes "distinct (map fst (xs @ ys))" and "c_procs s = xs @ ys" and "shrunk s0 s"
  shows "wp (prepare_round os (map fst ys) fds)
     (\<lambda>fds' s'. shrunk s0 s' \<and> (\<exists>zs. c_procs s' = xs @ zs \<and> length fds' = length fds + length zs))
     any_stop s"
  using assms
proof (induction ys arbitrary: s xs fds)
  case Nil
  then show ?case by simp
next
  case (Cons ap ys)
  obtain a p where ap: "ap = (a, p)" by (cases ap)
  have look: "map_of (c_procs s) a = Some p"
    using Cons.prems ap by (auto simp: map_add_def split: option.splits dest!: map_of_SomeD)
      (metis fst_conv image_eqI)
  have rm: "plist_remove a (c_procs s) = xs @ ys"
    using Cons.prems(1,2) ap plist_remove_split by metis
  have dead: "wp (prepare_round os (map fst ys) fds)
     (\<lambda>fds' s'. shrunk s0 s' \<and> (\<exists>zs. c_procs s' = xs @ zs \<and> length fds' = length fds + length zs)) any_stop
     (run_cleanup (proc_exit_callback os) p (s\<lparr> c_world := w, c_procs := xs @ ys \<rparr>))" for w
  proof (rule Cons.IH)
    show "distinct (map fst (xs @ ys))" using Cons.prems(1) by auto
    show "shrunk s0 (run_cleanup (proc_exit_callback os) p (s\<lparr> c_world := w, c_procs := xs @ ys \<rparr>))"
      using shrunk_trans [OF shrunk_world [OF Cons.prems(3), of w]
          shrunk_remove [of "s\<lparr> c_world := w \<rparr>" os p a]] rm by simp
  qed simp
  have alive: "wp (prepare_round os (map fst ys) (fds @ [p_fd p]))
     (\<lambda>fds' s'. shrunk s0 s' \<and> (\<exists>zs. c_procs s' = xs @ zs \<and> length fds' = length fds + length zs)) any_stop
     (s\<lparr> c_world := w \<rparr>)" for w
    using Cons.prems ap
    by (intro wp_mono [OF Cons.IH [of "xs @ [ap]"]]) (auto intro: shrunk_world)
  show ?case
    using look ap rm dead alive by (simp add: coord_remove_def)
qed

lemma wp_collective_prepare:
  assumes "distinct (map fst (c_procs s))"
  shows "wp (coord_collective_prepare os type) (\<lambda>n s'. shrunk s s' \<and> n = length (c_procs s')) any_stop s"
proof -
  let ?I = "\<lambda>t. shrunk s t"
  have dist: "distinct (map fst (c_procs t))" if "?I t" for t
    using that assms shrunk_procs [OF that] by (auto simp: distinct_map_filter)
  have "hoare ?I (prepare_body os b)
      (\<lambda>r t. case r of None \<Rightarrow> ?I t | Some n \<Rightarrow> shrunk s t \<and> n = length (c_procs t)) any_stop" for b
  proof (rule hoareI)
    fix t assume t: "?I t"
    from wp_prepare_round [of "[]" "c_procs t" t s os "[]"] dist [OF t] t
    have "wp (prepare_round os (map fst (c_procs t)) [])
        (\<lambda>fds' s'. shrunk s s' \<and> length fds' = length (c_procs s')) any_stop t" by simp
    then show "wp (prepare_body os b)
        (\<lambda>r t. case r of None \<Rightarrow> ?I t | Some n \<Rightarrow> shrunk s t \<and> n = length (c_procs t)) any_stop t"
      unfolding prepare_body_def wp_bnd wp_gets by (rule wp_mono) (auto intro: shrunk_world)
  qed
  from hoare_repeat [OF this] show ?thesis
    unfolding coord_collective_prepare_def by (simp add: hoare_def)
qed

section \<open>Roots of the process trees\<close>

text \<open>A process is a root when no process of the list has the pid of its parent.\<close>

definition mark_roots :: "pid_t set \<Rightarrow> plist \<Rightarrow> plist" where
  "mark_roots pids ps = map (\<lambda>(a, p). (a, p\<lparr> p_is_root_of_tree := (p_real_ppid p \<notin> pids) \<rparr>)) ps"

definition real_pids :: "plist \<Rightarrow> pid_t set" where
  "real_pids ps = (p_real_pid \<circ> snd) ` set ps"

lemma mark_roots_sel [simp]:
  "map fst (mark_roots R ps) = map fst ps"
  "map (p_fd \<circ> snd) (mark_roots R ps) = map (p_fd \<circ> snd) ps"
  "length (mark_roots R ps) = length ps"
  "real_pids (mark_roots R ps) = real_pids ps"
  by (simp_all add: mark_roots_def real_pids_def comp_def case_prod_unfold image_image)

lemma real_pids_append: "real_pids (xs @ ys) = real_pids xs \<union> real_pids ys"
  by (simp add: real_pids_def image_Un)

lemma plist_find_real_pid: "plist_find (\<lambda>q. p_real_pid q = r) ps = None \<longleftrightarrow> r \<notin> real_pids ps"
  by (auto simp: plist_find_None_iff real_pids_def)

lemma update_mark:
  assumes "distinct (map fst (xs @ (a, p) # ys))"
  shows "plist_update a f (mark_roots R xs @ (a, p) # ys) = mark_roots R xs @ (a, f p) # ys"
proof -
  have "plist_update a f zs = zs" if "a \<notin> fst ` set zs" for zs
    using that by (induction zs) (auto simp: plist_update_def)
  moreover have "a \<notin> fst ` set (mark_roots R xs)" "a \<notin> fst ` set ys"
    using assms by (auto simp: mark_roots_def rev_image_eqI split: prod.splits)
  ultimately show ?thesis by (simp add: plist_update_def)
qed

lemma wp_determine_roots:
  assumes "distinct (map fst (c_procs s))"
  shows "wp coord_determine_roots
     (\<lambda>_ s'. s' = s\<lparr> c_procs := mark_roots (real_pids (c_procs s)) (c_procs s) \<rparr>) any_stop s"
proof -
  let ?body = "\<lambda>a. bnd (deref a) (\<lambda>p. bnd (gets (\<lambda>s. plist_find (\<lambda>q. p_real_pid q = p_real_ppid p) (c_procs s)))
       (\<lambda>parent. set_proc a (\<lambda>p. p\<lparr> p_is_root_of_tree := (parent = None) \<rparr>)))"
  have "wp (each ?body (map fst ys))
      (\<lambda>_ s'. s' = s\<lparr> c_procs := mark_roots R (xs @ ys) \<rparr>) any_stop (s\<lparr> c_procs := mark_roots R xs @ ys \<rparr>)"
    if "distinct (map fst (xs @ ys))" "R = real_pids (xs @ ys)" for xs ys R
    using that
  proof (induction ys arbitrary: xs)
    case Nil
    then show ?case by simp
  next
    case (Cons ap ys)
    obtain a p where ap: "ap = (a, p)" by (cases ap)
    have "a \<notin> set (map fst (mark_roots R xs))"
      using Cons.prems(1) ap unfolding mark_roots_sel by auto
    then have "map_of (mark_roots R xs) a = None"
      by (metis map_of_eq_None_iff list.set_map)
    then have look: "map_of (mark_roots R xs @ (a, p) # ys) a = Some p"
      by (simp add: map_add_def)
    have pids: "real_pids (mark_roots R xs @ (a, p) # ys) = R"
      using Cons.prems(2) ap by (simp add: real_pids_append)
    note upd = update_mark [OF Cons.prems(1) [unfolded ap]]
    have eq: "mark_roots R (xs @ [ap]) @ ys
        = mark_roots R xs @ (a, p\<lparr> p_is_root_of_tree := (p_real_ppid p \<notin> R) \<rparr>) # ys"
      using ap by (simp add: mark_roots_def)
    have "wp (each ?body (map fst ys)) (\<lambda>_ s'. s' = s\<lparr> c_procs := mark_roots R ((xs @ [ap]) @ ys) \<rparr>)
        any_stop (s\<lparr> c_procs := mark_roots R (xs @ [ap]) @ ys \<rparr>)"
      by (rule Cons.IH) (use Cons.prems in simp_all)
    then show ?case
      unfolding eq using ap look pids upd by (simp add: plist_find_real_pid)
  qed
  from this [of "[]" "c_procs s"] assms show ?thesis
    unfolding coord_determine_roots_def by (simp add: mark_roots_def)
qed

section \<open>The commit\<close>

lemma wp_on_world:
  assumes "\<And>a w. Q a (s\<lparr> c_world := w \<rparr>)"
  shows "wp (on_world m) Q any_stop s"
  using assms by (auto simp: wp_def on_world_def zoom_def split: option.splits sum.splits)

lemma wp_write_manifest:
  assumes "\<And>w. Q () (s\<lparr> c_world := w, c_log := c_log s @ [Ev_Manifest] \<rparr>)"
  shows "wp (coord_write_ckpt_manifest os) Q any_stop s"
  using assms by (auto simp: coord_write_ckpt_manifest_def intro!: wp_on_world)

lemma of_nat_u32_eq:
  assumes "(of_nat m :: u32) = of_nat n" and "m \<le> n" and "n < 2 ^ 32"
  shows "m = n"
proof -
  from assms(1) have "unat (of_nat m :: u32) = unat (of_nat n :: u32)" by simp
  then show ?thesis using assms(2,3) by (simp add: unat_of_nat)
qed

lemma shrunk_count:
  assumes "shrunk s s'" and "(of_nat (length (c_procs s')) :: u32) = of_nat (length (c_procs s))"
    and "length (c_procs s) < 2 ^ 32"
  shows "c_procs s' = c_procs s \<and> (\<exists>w t. s' = s\<lparr> c_world := w, c_table := t \<rparr>)"
proof (rule shrunk_same [OF assms(1)])
  have "length (c_procs s') \<le> length (c_procs s)"
    using shrunk_procs [OF assms(1)] by auto
  then show "length (c_procs s') = length (c_procs s)"
    using of_nat_u32_eq assms(2,3) by blast
qed

text \<open>The messages of the commit, and the processes after it.\<close>

definition commit_trace :: "fd list \<Rightarrow> event list" where
  "commit_trace fds =
     map (\<lambda>fd. Ev_Send fd XND_CKPT_START) fds @
     map (\<lambda>fd. Ev_Recv fd XND_CKPT_DONE) fds @
     [Ev_Manifest] @
     map (\<lambda>fd. Ev_Send fd XND_RESUME_AFTER_CKPT) fds"

definition committed_procs :: "plist \<Rightarrow> plist" where
  "committed_procs ps =
     map (\<lambda>(a, p). (a, p\<lparr> p_is_root_of_tree := (p_real_ppid p \<notin> real_pids ps), p_state := PROC_RUNNING \<rparr>)) ps"

lemma set_states_sel [simp]:
  "map fst (set_states as st ps) = map fst ps"
  "map (p_fd \<circ> snd) (set_states as st ps) = map (p_fd \<circ> snd) ps"
  "length (set_states as st ps) = length ps"
  by (auto simp: set_states_def comp_def case_prod_unfold)

lemma committed_procs_eq:
  fixes ps :: plist
  defines "as \<equiv> map fst ps" and "m \<equiv> mark_roots (real_pids ps) ps"
  shows "set_states as PROC_RUNNING (set_states as PROC_CKPT_COMPLETE (set_states as PROC_CKPT_IN_PROGRESS m))
           = committed_procs ps"
proof -
  have as: "as = map fst m" "as = map fst (set_states as st m)" "as = map fst (set_states as st' (set_states as st m))"
    for st st'
    by (simp_all add: as_def m_def)
  have "set_states as PROC_CKPT_IN_PROGRESS m = map (\<lambda>(b, p). (b, p\<lparr> p_state := PROC_CKPT_IN_PROGRESS \<rparr>)) m"
    using set_states_all [of m] as(1) by simp
  moreover have "set_states as PROC_CKPT_COMPLETE (set_states as PROC_CKPT_IN_PROGRESS m)
      = map (\<lambda>(b, p). (b, p\<lparr> p_state := PROC_CKPT_COMPLETE \<rparr>)) (set_states as PROC_CKPT_IN_PROGRESS m)"
    using set_states_all [of "set_states as PROC_CKPT_IN_PROGRESS m"] as(2) by metis
  moreover have "set_states as PROC_RUNNING (set_states as PROC_CKPT_COMPLETE (set_states as PROC_CKPT_IN_PROGRESS m))
      = map (\<lambda>(b, p). (b, p\<lparr> p_state := PROC_RUNNING \<rparr>))
          (set_states as PROC_CKPT_COMPLETE (set_states as PROC_CKPT_IN_PROGRESS m))"
    using set_states_all [of "set_states as PROC_CKPT_COMPLETE (set_states as PROC_CKPT_IN_PROGRESS m)"] as(3)
    by metis
  ultimately show ?thesis
    by (simp add: m_def mark_roots_def committed_procs_def comp_def case_prod_unfold)
qed

lemma wp_release_barrier:
  assumes "barrier_step type = (hdr, expected, st)" and "distinct (map fst (c_procs s))"
  shows "wp (coord_release_barrier os type)
     (\<lambda>r s'. r = 0 \<longrightarrow>
        all_in_state expected (map fst (c_procs s)) (c_procs s) \<and>
        (\<exists>w. s' = s\<lparr> c_world := w, c_log := c_log s @ map (\<lambda>fd. Ev_Send fd hdr) (map (p_fd \<circ> snd) (c_procs s)),
                      c_procs := set_states (map fst (c_procs s)) st (c_procs s) \<rparr>)) any_stop s"
proof -
  have log: "map (\<lambda>a. Ev_Send (fd_of (c_procs s) a) hdr) (map fst (c_procs s)) =
      map (\<lambda>fd. Ev_Send fd hdr) (map (p_fd \<circ> snd) (c_procs s))"
    using fds_eq [OF assms(2), symmetric] by simp
  show ?thesis
    unfolding coord_release_barrier_def wp_bnd wp_gets
    by (rule wp_mono [OF wp_release_loop [OF assms]])
      (simp_all only: released_def after_def log simp_thms)
qed

lemma wp_wait_completions:
  assumes dist: "distinct (map fst (c_procs s))" and num: "c_num_peers s = of_nat (length (c_procs s))"
    and len: "length (c_procs s) < 2 ^ 32"
  shows "wp (coord_wait_for_ckpt_completions os)
     (\<lambda>_ s'. \<exists>w t. s' = s\<lparr> c_world := w, c_table := t,
         c_log := c_log s @ map (\<lambda>fd. Ev_Recv fd XND_CKPT_DONE) (map (p_fd \<circ> snd) (c_procs s)),
         c_procs := set_states (map fst (c_procs s)) PROC_CKPT_COMPLETE (c_procs s) \<rparr>) any_stop s"
proof -
  have count: "(of_nat n :: u32) = of_nat (length (c_procs s))" if "int n = sint (c_num_peers s)" for n
  proof -
    have "(of_int (int n) :: u32) = of_int (sint (c_num_peers s))" using that by simp
    then show ?thesis using num by simp
  qed
  have log: "map (\<lambda>a. Ev_Recv (fd_of (c_procs s) a) XND_CKPT_DONE) (map fst (c_procs s)) =
      map (\<lambda>fd. Ev_Recv fd XND_CKPT_DONE) (map (p_fd \<circ> snd) (c_procs s))"
    using fds_eq [OF dist, symmetric] by simp
  have loop: "wp (completion_loop os (map fst (c_procs s)) 0)
      (\<lambda>nr. wp (if int nr \<noteq> sint (c_num_peers s) then coord_exit os COORD_EXIT_FAILURE else ret ())
        (\<lambda>_ s'. \<exists>w t. s' = s\<lparr> c_world := w, c_table := t,
           c_log := c_log s @ map (\<lambda>fd. Ev_Recv fd XND_CKPT_DONE) (map (p_fd \<circ> snd) (c_procs s)),
           c_procs := set_states (map fst (c_procs s)) PROC_CKPT_COMPLETE (c_procs s) \<rparr>) any_stop)
      any_stop (s\<lparr> c_world := w, c_table := t \<rparr>)" for w t
  proof (rule wp_mono [OF wp_completion_loop])
    show "distinct (map fst (c_procs s))" by (fact dist)
  next
    fix n s' assume c: "completed (map fst (c_procs s)) 0 (s\<lparr> c_world := w, c_table := t \<rparr>) n s'"
    show "wp (if int n \<noteq> sint (c_num_peers s) then coord_exit os COORD_EXIT_FAILURE else ret ())
        (\<lambda>_ s'. \<exists>w t. s' = s\<lparr> c_world := w, c_table := t,
           c_log := c_log s @ map (\<lambda>fd. Ev_Recv fd XND_CKPT_DONE) (map (p_fd \<circ> snd) (c_procs s)),
           c_procs := set_states (map fst (c_procs s)) PROC_CKPT_COMPLETE (c_procs s) \<rparr>) any_stop s'"
    proof (cases "int n = sint (c_num_peers s)")
      case True
      then have "n = length (c_procs s)"
        using of_nat_u32_eq [OF count [OF True]] c len by (simp add: completed_def)
      then obtain w' where "s' = after (s\<lparr> c_world := w, c_table := t \<rparr>) w'
          (map (\<lambda>fd. Ev_Recv fd XND_CKPT_DONE) (map (p_fd \<circ> snd) (c_procs s)))
          (map fst (c_procs s)) PROC_CKPT_COMPLETE"
        using c log by (auto simp: completed_def comp_def cong: map_cong)
      then have "s' = s\<lparr> c_world := w', c_table := t,
           c_log := c_log s @ map (\<lambda>fd. Ev_Recv fd XND_CKPT_DONE) (map (p_fd \<circ> snd) (c_procs s)),
           c_procs := set_states (map fst (c_procs s)) PROC_CKPT_COMPLETE (c_procs s) \<rparr>"
        by (simp add: after_def)
      then show ?thesis using True by simp blast
    qed simp
  qed simp
  show ?thesis
    unfolding coord_wait_for_ckpt_completions_def wp_bnd wp_gets
  proof (rule wp_mono [OF wp_collective_prepare [OF dist]])
    fix n s1 assume s1: "shrunk s s1 \<and> n = length (c_procs s1)"
    show "wp (if int n \<noteq> sint (c_num_peers s) then coord_exit os COORD_EXIT_FAILURE
        else bnd (gets (\<lambda>s. map fst (c_procs s))) (\<lambda>as. bnd (completion_loop os as 0)
          (\<lambda>nr. if int nr \<noteq> sint (c_num_peers s) then coord_exit os COORD_EXIT_FAILURE else ret ())))
        (\<lambda>_ s'. \<exists>w t. s' = s\<lparr> c_world := w, c_table := t,
           c_log := c_log s @ map (\<lambda>fd. Ev_Recv fd XND_CKPT_DONE) (map (p_fd \<circ> snd) (c_procs s)),
           c_procs := set_states (map fst (c_procs s)) PROC_CKPT_COMPLETE (c_procs s) \<rparr>) any_stop s1"
    proof (cases "int n = sint (c_num_peers s)")
      case True
      from shrunk_count [of s s1] s1 count [OF True] len
      obtain w t where eq: "c_procs s1 = c_procs s" "s1 = s\<lparr> c_world := w, c_table := t \<rparr>" by auto
      show ?thesis using True loop [of t w] by (simp add: eq)
    qed simp
  qed simp
qed

lemma all_in_state_roots: "all_in_state st as (mark_roots R ps) = all_in_state st as ps"
proof -
  have "map_of (mark_roots R ps) a = map_option (\<lambda>p. p\<lparr> p_is_root_of_tree := (p_real_ppid p \<notin> R) \<rparr>) (map_of ps a)" for a
    by (induction ps) (auto simp: mark_roots_def)
  then show ?thesis by (auto simp: all_in_state_def)
qed

text \<open>
  The whole commit: a run that returns found every process ready, kept the list as it was, and
  has the trace of a two-phase protocol. Its last steps, the removal of the previous directory
  and the increment of the epoch, are the modification of the epoch and the world.
\<close>

lemma wp_checkpoint_commit:
  assumes dist: "distinct (map fst (c_procs s))" and len: "length (c_procs s) < 2 ^ 32"
  shows "wp (checkpoint_commit os epoch)
     (\<lambda>_ s'. all_in_state PROC_READY_FOR_CKPT (map fst (c_procs s)) (c_procs s) \<and>
        c_procs s' = committed_procs (c_procs s) \<and>
        c_log s' = c_log s @ commit_trace (map (p_fd \<circ> snd) (c_procs s)) \<and>
        c_epoch s' = c_epoch s + 1 \<and> c_uuid s' = c_uuid s) any_stop s"
proof -
  let ?n = "of_nat (length (c_procs s)) :: u32"
  let ?as = "map fst (c_procs s)" and ?fds = "map (p_fd \<circ> snd) (c_procs s)"
  let ?R = "real_pids (c_procs s)"
  let ?m0 = "mark_roots ?R (c_procs s)"
  let ?m1 = "set_states ?as PROC_CKPT_IN_PROGRESS ?m0"
  let ?m2 = "set_states ?as PROC_CKPT_COMPLETE ?m1"
  let ?m3 = "set_states ?as PROC_RUNNING ?m2"
  let ?l1 = "c_log s @ map (\<lambda>fd. Ev_Send fd XND_CKPT_START) ?fds"
  let ?l2 = "?l1 @ map (\<lambda>fd. Ev_Recv fd XND_CKPT_DONE) ?fds"
  let ?l3 = "(?l2 @ [Ev_Manifest]) @ map (\<lambda>fd. Ev_Send fd XND_RESUME_AFTER_CKPT) ?fds"
  let ?Q = "\<lambda>(_ :: unit) s'. all_in_state PROC_READY_FOR_CKPT (map fst (c_procs s)) (c_procs s) \<and>
        c_procs s' = committed_procs (c_procs s) \<and>
        c_log s' = c_log s @ commit_trace (map (p_fd \<circ> snd) (c_procs s)) \<and>
        c_epoch s' = c_epoch s + 1 \<and> c_uuid s' = c_uuid s"
  let ?fin = "bnd (gets c_uuid) (\<lambda>uuid.
     sq (if epoch \<noteq> 0 then bnd (on_world (xnd_ckptdir_unlink os uuid (epoch - 1))) (\<lambda>_. ret ()) else ret ())
        (modify (\<lambda>s. s\<lparr> c_epoch := c_epoch s + 1 \<rparr>)))"
  let ?post = "bnd (coord_release_barrier os COORD_BARRIER_POSTCKPT) (\<lambda>err. sq (assert_p (err = 0)) ?fin)"
  let ?wait = "sq (coord_wait_for_ckpt_completions os) (sq (coord_write_ckpt_manifest os) ?post)"
  let ?start = "bnd (coord_release_barrier os COORD_BARRIER_PRECKPT) (\<lambda>err. sq (assert_p (err = 0)) ?wait)"
  define S where "S = (\<lambda>w t l m. s\<lparr> c_num_peers := ?n, c_world := w, c_table := t, c_log := l, c_procs := m \<rparr>)"
  have S [simp]: "c_procs (S w t l m) = m" "c_log (S w t l m) = l" "c_num_peers (S w t l m) = ?n"
    "c_uuid (S w t l m) = c_uuid s" "c_epoch (S w t l m) = c_epoch s"
    "(S w t l m)\<lparr> c_world := w' \<rparr> = S w' t l m" "(S w t l m)\<lparr> c_table := t' \<rparr> = S w t' l m"
    "(S w t l m)\<lparr> c_log := l' \<rparr> = S w t l' m" "(S w t l m)\<lparr> c_procs := m' \<rparr> = S w t l m'"
    for w t l m w' t' l' m'
    by (simp_all add: S_def)
  have fin: "wp ?fin ?Q any_stop (S w t ?l3 ?m3)"
    if "all_in_state PROC_READY_FOR_CKPT ?as (c_procs s)" for w t
    using that committed_procs_eq [of "c_procs s"]
    by (auto simp: commit_trace_def intro!: wp_on_world)
  have post: "wp ?post ?Q any_stop (S w t (?l2 @ [Ev_Manifest]) ?m2)"
    if "all_in_state PROC_READY_FOR_CKPT ?as (c_procs s)" for w t
    unfolding wp_bnd
  proof (rule wp_mono [OF wp_release_barrier])
    show "barrier_step COORD_BARRIER_POSTCKPT = (XND_RESUME_AFTER_CKPT, PROC_CKPT_COMPLETE, PROC_RUNNING)"
      by (simp add: barrier_step_def)
    show "distinct (map fst (c_procs (S w t (?l2 @ [Ev_Manifest]) ?m2)))"
      unfolding S set_states_sel mark_roots_sel by (rule dist)
  next
    fix r s' assume "r = 0 \<longrightarrow>
        all_in_state PROC_CKPT_COMPLETE (map fst (c_procs (S w t (?l2 @ [Ev_Manifest]) ?m2)))
          (c_procs (S w t (?l2 @ [Ev_Manifest]) ?m2)) \<and>
        (\<exists>w'. s' = (S w t (?l2 @ [Ev_Manifest]) ?m2)\<lparr> c_world := w',
            c_log := c_log (S w t (?l2 @ [Ev_Manifest]) ?m2) @ map (\<lambda>fd. Ev_Send fd XND_RESUME_AFTER_CKPT)
                 (map (p_fd \<circ> snd) (c_procs (S w t (?l2 @ [Ev_Manifest]) ?m2))),
            c_procs := set_states (map fst (c_procs (S w t (?l2 @ [Ev_Manifest]) ?m2))) PROC_RUNNING
                 (c_procs (S w t (?l2 @ [Ev_Manifest]) ?m2)) \<rparr>)"
    then have "r = 0 \<longrightarrow> (\<exists>w'. s' = S w' t ?l3 ?m3)"
      unfolding S set_states_sel mark_roots_sel by blast
    then show "wp (sq (assert_p (r = 0)) ?fin) ?Q any_stop s'"
      unfolding wp_sq wp_assert using fin [OF that] by blast
  qed simp
  have wait: "wp ?wait ?Q any_stop (S w t ?l1 ?m1)"
    if "all_in_state PROC_READY_FOR_CKPT ?as (c_procs s)" for w t
    unfolding wp_sq
  proof (rule wp_mono [OF wp_wait_completions])
    show "distinct (map fst (c_procs (S w t ?l1 ?m1)))"
      unfolding S set_states_sel mark_roots_sel by (rule dist)
    show "c_num_peers (S w t ?l1 ?m1) = of_nat (length (c_procs (S w t ?l1 ?m1)))" by simp
    show "length (c_procs (S w t ?l1 ?m1)) < 2 ^ 32" using len by simp
  next
    fix r s' assume "\<exists>w' t'. s' = (S w t ?l1 ?m1)\<lparr> c_world := w', c_table := t',
         c_log := c_log (S w t ?l1 ?m1) @ map (\<lambda>fd. Ev_Recv fd XND_CKPT_DONE) (map (p_fd \<circ> snd) (c_procs (S w t ?l1 ?m1))),
         c_procs := set_states (map fst (c_procs (S w t ?l1 ?m1))) PROC_CKPT_COMPLETE (c_procs (S w t ?l1 ?m1)) \<rparr>"
    then obtain w' t' where s': "s' = S w' t' ?l2 ?m2"
      unfolding S set_states_sel mark_roots_sel by blast
    show "wp (coord_write_ckpt_manifest os) (\<lambda>_. wp ?post ?Q any_stop) any_stop s'"
      unfolding s' by (rule wp_write_manifest) (unfold S, rule post [OF that])
  qed simp
  have start: "wp ?start ?Q any_stop (S w t (c_log s) ?m0)" for w t
    unfolding wp_bnd
  proof (rule wp_mono [OF wp_release_barrier])
    show "barrier_step COORD_BARRIER_PRECKPT = (XND_CKPT_START, PROC_READY_FOR_CKPT, PROC_CKPT_IN_PROGRESS)"
      by (simp add: barrier_step_def)
    show "distinct (map fst (c_procs (S w t (c_log s) ?m0)))"
      unfolding S mark_roots_sel by (rule dist)
  next
    fix r s' assume "r = 0 \<longrightarrow>
        all_in_state PROC_READY_FOR_CKPT (map fst (c_procs (S w t (c_log s) ?m0))) (c_procs (S w t (c_log s) ?m0)) \<and>
        (\<exists>w'. s' = (S w t (c_log s) ?m0)\<lparr> c_world := w',
            c_log := c_log (S w t (c_log s) ?m0) @ map (\<lambda>fd. Ev_Send fd XND_CKPT_START)
                 (map (p_fd \<circ> snd) (c_procs (S w t (c_log s) ?m0))),
            c_procs := set_states (map fst (c_procs (S w t (c_log s) ?m0))) PROC_CKPT_IN_PROGRESS
                 (c_procs (S w t (c_log s) ?m0)) \<rparr>)"
    then have "r = 0 \<longrightarrow> all_in_state PROC_READY_FOR_CKPT ?as (c_procs s) \<and> (\<exists>w'. s' = S w' t ?l1 ?m1)"
      unfolding S mark_roots_sel all_in_state_roots by blast
    then show "wp (sq (assert_p (r = 0)) ?wait) ?Q any_stop s'"
      unfolding wp_sq wp_assert using wait [unfolded wp_sq] by blast
  qed simp
  have prepare: "wp (bnd (coord_collective_prepare os COMM_BROADCAST) (\<lambda>nr. bnd (gets c_num_peers)
       (\<lambda>num_peers. sq (assert_p (of_nat nr = num_peers)) ?start))) ?Q any_stop (S w t (c_log s) ?m0)" for w t
    unfolding wp_bnd
  proof (rule wp_mono [OF wp_collective_prepare])
    show "distinct (map fst (c_procs (S w t (c_log s) ?m0)))"
      unfolding S mark_roots_sel by (rule dist)
  next
    fix n s1 assume s1: "shrunk (S w t (c_log s) ?m0) s1 \<and> n = length (c_procs s1)"
    then have num: "c_num_peers s1 = ?n" by (auto simp: shrunk_def)
    show "wp (gets c_num_peers) (\<lambda>num_peers. wp (sq (assert_p (of_nat n = num_peers)) ?start) ?Q any_stop) any_stop s1"
    proof (cases "(of_nat n :: u32) = ?n")
      case True
      have "\<exists>w' t'. s1 = (S w t (c_log s) ?m0)\<lparr> c_world := w', c_table := t' \<rparr>"
        using shrunk_count [of "S w t (c_log s) ?m0" s1] s1 True len by simp
      then show ?thesis
        unfolding wp_gets wp_sq wp_assert num S using start [unfolded S] True by auto
    next
      case False
      then show ?thesis unfolding wp_gets wp_sq wp_assert num by simp
    qed
  qed simp
  show ?thesis
    unfolding checkpoint_commit_def wp_sq wp_modify
  proof (rule wp_mono [OF wp_determine_roots])
    show "distinct (map fst (c_procs (s\<lparr> c_num_peers := ?n \<rparr>)))" using dist by simp
  next
    fix r s' assume "s' = s\<lparr> c_num_peers := ?n,
        c_procs := mark_roots (real_pids (c_procs (s\<lparr> c_num_peers := ?n \<rparr>))) (c_procs (s\<lparr> c_num_peers := ?n \<rparr>)) \<rparr>"
    then have "s' = S (c_world s) (c_table s) (c_log s) ?m0" by (simp add: S_def)
    then show "wp (bnd (coord_collective_prepare os COMM_BROADCAST) (\<lambda>nr. bnd (gets c_num_peers)
       (\<lambda>num_peers. sq (assert_p (of_nat nr = num_peers)) ?start))) ?Q any_stop s'"
      using prepare by simp
  qed simp
qed

section \<open>Suspending the processes\<close>

text \<open>
  During the first phase only checkpoint requests are sent. Relative to the log \<open>l\<close>
  at the start, a process that is ready has been sent the request and has answered.
\<close>

definition quiet_event :: "event \<Rightarrow> bool" where
  "quiet_event e = (case e of Ev_Send fd h \<Rightarrow> h = XND_CKPT_REQUEST | Ev_Recv fd h \<Rightarrow> True | Ev_Manifest \<Rightarrow> False)"

text \<open>The answer is received after the request was sent.\<close>

definition asked_then_ready :: "event list \<Rightarrow> fd \<Rightarrow> bool" where
  "asked_then_ready evs fd \<longleftrightarrow>
     (\<exists>xs ys. evs = xs @ Ev_Recv fd XND_CKPT_READY # ys \<and> Ev_Send fd XND_CKPT_REQUEST \<in> set xs)"

lemma asked_then_ready_mono: "asked_then_ready evs fd \<Longrightarrow> asked_then_ready (evs @ evs') fd"
  unfolding asked_then_ready_def by (metis append.assoc append_Cons)

lemma asked_then_ready_last:
  "Ev_Send fd XND_CKPT_REQUEST \<in> set xs \<Longrightarrow> asked_then_ready (xs @ [Ev_Recv fd XND_CKPT_READY]) fd"
  by (auto simp: asked_then_ready_def)

definition proc_heard :: "event list \<Rightarrow> proc \<Rightarrow> bool" where
  "proc_heard evs p \<longleftrightarrow>
     (p_state p \<noteq> PROC_RUNNING \<longrightarrow> Ev_Send (p_fd p) XND_CKPT_REQUEST \<in> set evs) \<and>
     (p_state p = PROC_READY_FOR_CKPT \<longrightarrow> asked_then_ready evs (p_fd p))"

definition suspending :: "event list \<Rightarrow> u64 \<Rightarrow> nat \<Rightarrow> 'w coord \<Rightarrow> bool" where
  "suspending l epoch n s \<longleftrightarrow>
     (\<exists>evs. c_log s = l @ evs \<and> list_all quiet_event evs \<and> (\<forall>ap \<in> set (c_procs s). proc_heard evs (snd ap))) \<and>
     distinct (map fst (c_procs s)) \<and> c_epoch s = epoch \<and> length (c_procs s) \<le> n"

lemma proc_heard_mono: "proc_heard evs p \<Longrightarrow> proc_heard (evs @ evs') p"
  by (auto simp: proc_heard_def asked_then_ready_mono)

lemma suspending_world [simp]: "suspending l e n (s\<lparr> c_world := w \<rparr>) = suspending l e n s"
  by (simp add: suspending_def)

lemma suspending_event:
  assumes "suspending l e n s" and "quiet_event ev"
  shows "suspending l e n (s\<lparr> c_world := w, c_log := c_log s @ [ev] \<rparr>)"
proof -
  from assms(1) obtain evs where evs: "c_log s = l @ evs" "list_all quiet_event evs"
    "\<forall>ap \<in> set (c_procs s). proc_heard evs (snd ap)"
    by (auto simp: suspending_def)
  have "c_log s @ [ev] = l @ (evs @ [ev])" "list_all quiet_event (evs @ [ev])"
    "\<forall>ap \<in> set (c_procs s). proc_heard (evs @ [ev]) (snd ap)"
    using evs assms(2) proc_heard_mono by simp_all
  then show ?thesis using assms(1) unfolding suspending_def by auto
qed

lemma suspending_update:
  assumes "suspending l e n s" and "map_of (c_procs s) a = Some p"
    and ev: "c_log s = l' @ [ev]" "quiet_event ev" "length l \<le> length l'"
    and p: "\<And>xs. proc_heard (xs @ [ev]) p \<Longrightarrow> proc_heard (xs @ [ev]) (f p)"
  shows "suspending l e n (s\<lparr> c_procs := plist_update a f (c_procs s) \<rparr>)"
proof -
  from assms(1) obtain evs where evs: "c_log s = l @ evs" "list_all quiet_event evs"
    "\<forall>ap \<in> set (c_procs s). proc_heard evs (snd ap)" and dist: "distinct (map fst (c_procs s))"
    by (auto simp: suspending_def)
  have "last (c_log s) = ev" "length l < length (c_log s)" using ev by auto
  then obtain xs where "evs = xs @ [ev]" using evs(1) by (cases evs rule: rev_cases) auto
  then have "proc_heard evs p \<Longrightarrow> proc_heard evs (f p)" using p by simp
  moreover have "q = p" if "(a, q) \<in> set (c_procs s)" for q
    using that assms(2) dist by simp
  ultimately have "\<forall>ap \<in> set (plist_update a f (c_procs s)). proc_heard evs (snd ap)"
    using evs(3) by (fastforce simp: plist_update_def split: if_splits)
  then show ?thesis using assms(1) evs(1,2) by (auto simp: suspending_def)
qed

lemma suspending_log_length: "suspending l e n s \<Longrightarrow> length l \<le> length (c_log s)"
  by (auto simp: suspending_def)

lemma suspending_filter:
  assumes "suspending l e n s" and "c_procs s' = filter P (c_procs s)"
    and "c_log s' = c_log s" "c_epoch s' = c_epoch s"
  shows "suspending l e n s'"
proof -
  from assms(1) obtain evs where evs: "c_log s = l @ evs" "list_all quiet_event evs"
    "\<forall>ap \<in> set (c_procs s). proc_heard evs (snd ap)"
    by (auto simp: suspending_def)
  then have "\<forall>ap \<in> set (c_procs s'). proc_heard evs (snd ap)"
    using assms(2) by simp
  moreover have "length (c_procs s') \<le> n"
    using assms(1,2) le_trans [OF length_filter_le] by (auto simp: suspending_def)
  moreover have "distinct (map fst (c_procs s'))"
    using assms(1,2) by (simp add: suspending_def distinct_map_filter)
  ultimately show ?thesis
    using assms evs unfolding suspending_def by auto
qed

lemma suspending_remove:
  "suspending l e n s \<Longrightarrow>
     suspending l e n (run_cleanup (proc_exit_callback os) p (s\<lparr> c_procs := plist_remove a (c_procs s) \<rparr>))"
  by (rule suspending_filter [where P = "\<lambda>bp. fst bp \<noteq> a"]) (simp_all add: plist_remove_def)

lemma wp_suspend_step:
  assumes inv: "suspending l e n s" and p: "map_of (c_procs s) a = Some p"
  shows "wp (suspend_step os a p) (\<lambda>_. suspending l e n) any_stop s"
proof -
  have req: "suspending l e n (s\<lparr> c_world := w, c_log := c_log s @ [Ev_Send (p_fd p) XND_CKPT_REQUEST],
      c_procs := plist_update a (\<lambda>p. p\<lparr> p_state := PROC_RECV_CKPT_REQUEST \<rparr>) (c_procs s) \<rparr>)" for w
    using suspending_update [of l e n "s\<lparr> c_world := w, c_log := c_log s @ [Ev_Send (p_fd p) XND_CKPT_REQUEST] \<rparr>"
        a p "c_log s" "Ev_Send (p_fd p) XND_CKPT_REQUEST" "\<lambda>p. p\<lparr> p_state := PROC_RECV_CKPT_REQUEST \<rparr>"]
      suspending_event [OF inv] p suspending_log_length [OF inv]
    by (simp add: quiet_event_def proc_heard_def)
  have ready: "suspending l e n (s\<lparr> c_world := w, c_log := c_log s @ [Ev_Recv (p_fd p) XND_CKPT_READY],
      c_procs := plist_update a (\<lambda>p. p\<lparr> p_state := PROC_READY_FOR_CKPT \<rparr>) (c_procs s) \<rparr>)"
    if "p_state p = PROC_RECV_CKPT_REQUEST" for w
    using suspending_update [of l e n "s\<lparr> c_world := w, c_log := c_log s @ [Ev_Recv (p_fd p) XND_CKPT_READY] \<rparr>"
        a p "c_log s" "Ev_Recv (p_fd p) XND_CKPT_READY" "\<lambda>p. p\<lparr> p_state := PROC_READY_FOR_CKPT \<rparr>"]
      suspending_event [OF inv] p suspending_log_length [OF inv] that
    by (simp add: quiet_event_def proc_heard_def asked_then_ready_last)
  have recv: "suspending l e n (s\<lparr> c_world := w, c_log := c_log s @ [Ev_Recv fd h] \<rparr>)" for w fd h
    using suspending_event [OF inv] by (simp add: quiet_event_def)
  show ?thesis
    using inv req ready recv by (simp add: suspend_step_def split: proc_state.split)
qed

lemma wp_suspend_round:
  fixes s :: "'w coord"
  shows "suspending l e n s \<Longrightarrow> wp (suspend_round os as ready nr) (\<lambda>_. suspending l e n) any_stop s"
proof (induction as arbitrary: s ready nr)
  case Nil
  then show ?case by simp
next
  case (Cons a as)
  have rest: "wp (suspend_round os as r m) (\<lambda>_. suspending l e n) any_stop s1" if "suspending l e n s1" for s1 r m
    using that by (rule Cons.IH)
  show ?case
    unfolding suspend_round.simps wp_bnd wp_deref
  proof (intro conjI allI impI)
    fix p assume p: "map_of (c_procs s) a = Some p"
    show "wp (suspend_step os a p)
        (\<lambda>is_ready. wp (call (os_gone os (p_real_pid p)))
          (\<lambda>gone. wp (if gone then sq (coord_remove os a) (suspend_round os as (if is_ready then ready + 1 else ready) nr)
                   else suspend_round os as (if is_ready then ready + 1 else ready) (nr + 1))
            (\<lambda>_. suspending l e n) any_stop) any_stop) any_stop s"
    proof (rule wp_mono [OF wp_suspend_step [OF Cons.prems p]])
      fix is_ready and s' :: "'w coord" assume s': "suspending l e n s'"
      have "suspending l e n (run_cleanup (proc_exit_callback os) q
          (s'\<lparr> c_world := w, c_procs := plist_remove a (c_procs s') \<rparr>))" for w q
        using suspending_remove [of l e n "s'\<lparr> c_world := w \<rparr>"] s' by simp
      then show "wp (call (os_gone os (p_real_pid p)))
          (\<lambda>gone. wp (if gone then sq (coord_remove os a) (suspend_round os as (if is_ready then ready + 1 else ready) nr)
                   else suspend_round os as (if is_ready then ready + 1 else ready) (nr + 1))
            (\<lambda>_. suspending l e n) any_stop) any_stop s'"
        using rest s' by (simp add: coord_remove_def)
    qed simp
  qed simp
qed

lemma wp_suspend:
  assumes "suspending l e n s"
  shows "wp (coord_suspend_processes os) (\<lambda>_. suspending l e n) any_stop s"
proof -
  have "hoare (suspending l e n) (suspend_body os)
      (\<lambda>r t. case r of None \<Rightarrow> suspending l e n t | Some u \<Rightarrow> suspending l e n t) any_stop"
    unfolding suspend_body_def
    by (intro hoareI) (simp, rule wp_mono [OF wp_suspend_round], simp_all, auto)
  from hoare_repeat [OF this] show ?thesis
    using assms by (simp add: coord_suspend_processes_def hoare_def)
qed

lemma suspending_shrunk: "suspending l e n s \<Longrightarrow> shrunk s s' \<Longrightarrow> suspending l e n s'"
  unfolding shrunk_def by (elim exE) (rule suspending_filter, simp_all)

section \<open>A whole checkpoint\<close>

text \<open>
  What a checkpoint that returns can have done: nothing was committed and the epoch is the
  same, or the list is running again with its roots marked, the epoch is one higher, and the
  log is the first phase, in which every process was asked and every one answered that it is
  ready, followed by the trace of the commit.
\<close>

definition committed :: "'w coord \<Rightarrow> 'w coord \<Rightarrow> bool" where
  "committed s s' \<longleftrightarrow>
     (\<exists>evs. c_log s' = c_log s @ evs @ commit_trace (map (p_fd \<circ> snd) (c_procs s')) \<and>
        list_all quiet_event evs \<and>
        (\<forall>ap \<in> set (c_procs s'). asked_then_ready evs (p_fd (snd ap)))) \<and>
     (\<forall>ap \<in> set (c_procs s'). p_state (snd ap) = PROC_RUNNING \<and>
        (p_is_root_of_tree (snd ap) \<longleftrightarrow> p_real_ppid (snd ap) \<notin> real_pids (c_procs s')))"

lemma committed_procs_sel [simp]:
  "map (p_fd \<circ> snd) (committed_procs ps) = map (p_fd \<circ> snd) ps"
  "real_pids (committed_procs ps) = real_pids ps"
  by (simp_all add: committed_procs_def real_pids_def comp_def case_prod_unfold image_image)

lemma committed_procs_states:
  "ap \<in> set (committed_procs ps) \<Longrightarrow> p_state (snd ap) = PROC_RUNNING \<and>
     (p_is_root_of_tree (snd ap) \<longleftrightarrow> p_real_ppid (snd ap) \<notin> real_pids ps)"
  by (auto simp: committed_procs_def)

lemma suspending_ready:
  assumes "suspending l e n s" and "all_in_state PROC_READY_FOR_CKPT (map fst (c_procs s)) (c_procs s)"
  shows "\<exists>evs. c_log s = l @ evs \<and> list_all quiet_event evs \<and>
           (\<forall>fd \<in> set (map (p_fd \<circ> snd) (c_procs s)). asked_then_ready evs fd)"
proof -
  from assms(1) obtain evs where evs: "c_log s = l @ evs" "list_all quiet_event evs"
    "\<forall>ap \<in> set (c_procs s). proc_heard evs (snd ap)" and dist: "distinct (map fst (c_procs s))"
    by (auto simp: suspending_def)
  have "p_state (snd ap) = PROC_READY_FOR_CKPT" if "ap \<in> set (c_procs s)" for ap
  proof -
    have "map_of (c_procs s) (fst ap) = Some (snd ap)"
      using that dist by simp
    then show ?thesis
      using assms(2) that by (auto simp: all_in_state_def)
  qed
  then show ?thesis using evs by (auto simp: proc_heard_def intro!: exI [of _ evs])
qed

lemma committedI:
  assumes "suspending (c_log s) e n t"
    and "all_in_state PROC_READY_FOR_CKPT (map fst (c_procs t)) (c_procs t) \<and>
        c_procs t' = committed_procs (c_procs t) \<and>
        c_log t' = c_log t @ commit_trace (map (p_fd \<circ> snd) (c_procs t)) \<and>
        c_epoch t' = c_epoch t + 1 \<and> c_uuid t' = c_uuid t"
  shows "committed s t'"
proof -
  from assms obtain evs where evs: "c_log t = c_log s @ evs" "list_all quiet_event evs"
    "\<forall>fd \<in> set (map (p_fd \<circ> snd) (c_procs t)). asked_then_ready evs fd"
    using suspending_ready [OF assms(1)] by blast
  have fds: "map (p_fd \<circ> snd) (c_procs t') = map (p_fd \<circ> snd) (c_procs t)"
    using assms(2) by simp
  have "p_fd (snd ap) \<in> set (map (p_fd \<circ> snd) (c_procs t))" if "ap \<in> set (c_procs t')" for ap
    using that unfolding fds [symmetric] by simp
  then have "\<forall>ap \<in> set (c_procs t'). asked_then_ready evs (p_fd (snd ap))"
    using evs(3) by blast
  moreover have "\<forall>ap \<in> set (c_procs t'). p_state (snd ap) = PROC_RUNNING \<and>
        (p_is_root_of_tree (snd ap) \<longleftrightarrow> p_real_ppid (snd ap) \<notin> real_pids (c_procs t'))"
    using assms(2) committed_procs_states by simp
  ultimately show ?thesis
    using evs(1,2) assms(2) unfolding committed_def fds by auto
qed

lemma wp_do_checkpoint:
  fixes s :: "'w coord"
  assumes inv: "distinct (map fst (c_procs s))" and len: "length (c_procs s) < 2 ^ 32"
    and running: "\<forall>ap \<in> set (c_procs s). p_state (snd ap) = PROC_RUNNING"
  defines "P \<equiv> \<lambda>s'. (\<exists>evs. c_epoch s' = c_epoch s \<and> c_log s' = c_log s @ evs \<and> list_all quiet_event evs) \<or>
         c_epoch s' = c_epoch s + 1 \<and> committed s s'"
  shows "wp (coord_do_checkpoint os) (\<lambda>_ s'. \<not> c_sig_blocked s' \<and> P s') any_stop s"
proof -
  let ?S = "suspending (c_log s) (c_epoch s) (length (c_procs s))"
  let ?Q = "\<lambda>(_ :: unit) s'. \<not> c_sig_blocked s' \<and> P s'"
  have P_mask: "P (t\<lparr> c_sig_blocked := b \<rparr>) = P t" for t b
    by (simp add: P_def committed_def)
  have S_P: "P t" if "?S t" for t
    using that by (auto simp: suspending_def P_def)
  have start: "?S (s\<lparr> c_sig_blocked := True \<rparr>)"
    using inv running by (auto simp: suspending_def proc_heard_def)
  have commit: "wp (checkpoint_commit os epoch) (\<lambda>_. P) any_stop t" if t: "?S t" for t :: "'w coord" and epoch
  proof (rule wp_mono [OF wp_checkpoint_commit])
    show "distinct (map fst (c_procs t))" using t by (simp add: suspending_def)
    show "length (c_procs t) < 2 ^ 32" using t len by (simp add: suspending_def)
  next
    fix r and t' :: "'w coord"
    assume t': "all_in_state PROC_READY_FOR_CKPT (map fst (c_procs t)) (c_procs t) \<and>
        c_procs t' = committed_procs (c_procs t) \<and>
        c_log t' = c_log t @ commit_trace (map (p_fd \<circ> snd) (c_procs t)) \<and>
        c_epoch t' = c_epoch t + 1 \<and> c_uuid t' = c_uuid t"
    then have "committed s t'" using t by (blast intro: committedI)
    moreover have "c_epoch t' = c_epoch s + 1" using t t' by (simp add: suspending_def)
    ultimately show "P t'" by (simp add: P_def)
  qed simp
  have mask: "wp (set_sigmask False) ?Q any_stop t" if "P t" for t
    using that by (simp add: set_sigmask_def P_mask)
  have finish: "wp (if err \<noteq> 0 then bnd (on_world (xnd_ckptdir_unlink os uuid epoch)) (\<lambda>_. ret ())
          else checkpoint_commit os epoch) (\<lambda>_. wp (set_sigmask False) ?Q any_stop) any_stop t"
    if t: "?S t" for t :: "'w coord" and err uuid epoch
  proof (cases "err = 0")
    case True
    then show ?thesis by simp (rule wp_mono [OF commit [OF t] mask], simp_all)
  next
    case False
    then show ?thesis using t by (auto intro!: wp_on_world mask S_P)
  qed
  have suspend: "wp (coord_suspend_processes os) (\<lambda>_. wp (bnd (gets c_uuid) (\<lambda>uuid.
         bnd (on_world (xnd_ckptdir_create os uuid epoch)) (\<lambda>err.
         sq (if err \<noteq> 0 then bnd (on_world (xnd_ckptdir_unlink os uuid epoch)) (\<lambda>_. ret ())
             else checkpoint_commit os epoch)
            (set_sigmask False)))) ?Q any_stop) any_stop t" if t: "?S t" for t :: "'w coord" and epoch
  proof (rule wp_mono [OF wp_suspend [OF t]])
    fix r and t' :: "'w coord" assume t': "?S t'"
    show "wp (bnd (gets c_uuid) (\<lambda>uuid.
         bnd (on_world (xnd_ckptdir_create os uuid epoch)) (\<lambda>err.
         sq (if err \<noteq> 0 then bnd (on_world (xnd_ckptdir_unlink os uuid epoch)) (\<lambda>_. ret ())
             else checkpoint_commit os epoch)
            (set_sigmask False)))) ?Q any_stop t'"
      unfolding wp_bnd wp_sq wp_gets by (rule wp_on_world, rule finish) (use t' in simp)
  qed simp
  show ?thesis
    unfolding coord_do_checkpoint_def wp_bnd wp_sq wp_gets set_sigmask_def wp_modify
  proof (rule wp_mono [OF wp_collective_prepare])
    show "distinct (map fst (c_procs (s\<lparr> c_sig_blocked := True \<rparr>)))" using inv by simp
  next
    fix n and t :: "'w coord"
    assume "shrunk (s\<lparr> c_sig_blocked := True \<rparr>) t \<and> n = length (c_procs t)"
    then have t: "?S t" using suspending_shrunk [OF start] by blast
    show "wp (if n = 0 then modify (\<lambda>s. s\<lparr> c_sig_blocked := False \<rparr>)
        else sq (coord_suspend_processes os)
         (bnd (gets c_uuid) (\<lambda>uuid. bnd (on_world (xnd_ckptdir_create os uuid (c_epoch s))) (\<lambda>err.
           sq (if err \<noteq> 0 then bnd (on_world (xnd_ckptdir_unlink os uuid (c_epoch s))) (\<lambda>_. ret ())
               else checkpoint_commit os (c_epoch s))
              (modify (\<lambda>s. s\<lparr> c_sig_blocked := False \<rparr>)))))) ?Q any_stop t"
    proof (cases "n = 0")
      case True
      then show ?thesis using S_P [OF t] P_mask by simp
    next
      case False
      then show ?thesis
        using suspend [OF t, of "c_epoch s"] unfolding set_sigmask_def by (simp only: wp_sq if_False)
    qed
  qed simp
qed

end
