(* ===== verification/Coord_Props.thy ===== *)
theory Coord_Props
  imports Coord_Ckpt
begin

text \<open>
  The properties of the coordinator: the invariant of its reachable states, the trace of a
  checkpoint, its progress when the processes answer, and the runs in which the protocol goes
  wrong. A simulated system, in which every call succeeds and the messages to be received are
  listed, runs the model on concrete inputs.
\<close>

section \<open>A simulated system\<close>

definition sim_os :: "xnd_msg list net_os" where
  "sim_os =
     \<lparr> os_access = (\<lambda>p _. p \<noteq> XND_COORD_PATH), os_faccessat = (\<lambda>_ _ _. True), os_readdir = (\<lambda>_ _. Some []),
       os_mkdir = (\<lambda>_ w. (0, w)), os_mkdirat = (\<lambda>_ _ w. (0, w)),
       os_unlink = (\<lambda>_ w. (0, w)), os_unlinkat = (\<lambda>_ _ _ w. (0, w)),
       os_open = (\<lambda>_ _ w. (5, w)), os_openat = (\<lambda>_ _ _ w. (6, w)), os_close = (\<lambda>_ w. w),
       os_write = (\<lambda>_ b w. (int (length b), w)), os_read = (\<lambda>_ _ w. (Some [], w)),
       os_uuid_unparse = (\<lambda>_. ''u''), os_uuid_parse = (\<lambda>_. Some []),
       os_gone = (\<lambda>_ w. (False, w)), os_kill = (\<lambda>_ _ w. w),
       os_getpid = (\<lambda>_. 50), os_getppid = (\<lambda>_. 40), os_time = (\<lambda>w. (0, w)),
       os_malloc = (\<lambda>w. (True, w)), os_getenv = (\<lambda>_ _. None), os_uuid_generate = (\<lambda>w. ([], w)),
       os_socket = (\<lambda>w. (3, w)), os_bind = (\<lambda>_ _ w. (0, w)), os_listen = (\<lambda>_ _ w. (0, w)),
       os_connect = (\<lambda>_ _ w. (0, w)), os_accept = (\<lambda>_ w. (4, w)),
       os_select = (\<lambda>_ fds w. ((int (length fds), fds), w)),
       os_send = (\<lambda>_ _ w. (sizeof_xnd_msg, w)),
       os_recv = (\<lambda>_ w. case w of [] \<Rightarrow> ((0, blank_msg), []) | m # ms \<Rightarrow> ((sizeof_xnd_msg, m), ms)) \<rparr>"

definition msg_of :: "xnd_msghdr \<Rightarrow> xnd_msg" where
  "msg_of h = blank_msg\<lparr> m_hdr := h, m_real_pid := 100, m_real_ppid := 99 \<rparr>"

definition sim_proc :: proc where
  "sim_proc = new_proc 7 1001 1000 1001 2 100 1 99 PROC_RUNNING"

text \<open>One process at address zero and the given messages to come.\<close>

definition sim_state :: "xnd_msghdr list \<Rightarrow> xnd_msg list coord" where
  "sim_state hs = (coord_info0 (map msg_of hs))\<lparr>
     c_procs := [(0, sim_proc)], c_next_virt_pid := 3, c_next_addr := 1,
     c_table := vt_update 1 99 (vt_update 2 100 []) \<rparr>"

text \<open>The state after a command that returns.\<close>

definition state_after :: "('s, 'a) prog \<Rightarrow> 's \<Rightarrow> 's" where
  "state_after m s = (case m s of Some (Inr _, s') \<Rightarrow> s' | _ \<Rightarrow> s)"

definition returned :: "('s, 'a) prog \<Rightarrow> 's \<Rightarrow> bool" where
  "returned m s = (case m s of Some (Inr _, _) \<Rightarrow> True | _ \<Rightarrow> False)"

lemma returnedD: "returned m s \<Longrightarrow> m s = Some (Inr (), state_after m s)"
  by (auto simp: returned_def state_after_def split: option.splits sum.splits)

lemma sim_inv: "coord_inv (sim_state hs)"
  by (simp add: coord_inv_def sim_state_def sim_proc_def new_proc_def coord_info0_def)
    (simp add: vt_update_def vt_erase_def virtual_to_real_def vt_wf_def)

section \<open>Reachable states\<close>

text \<open>
  C3: in every state the coordinator can get to, no two processes have the same virtual pid, and the pid
  table translates the virtual pid of each process to its real pid. It gets to a state by starting a
  computation or restarting one, in which those processes come back that a coordinator had, each once with
  its virtual pids and under a new real pid, and by the steps of the main loop: connections, messages,
  checkpoints and the heartbeat.
\<close>

theorem reachable_pids_translate:
  assumes "coord_reachable os s"
  shows "distinct (map (p_virt_pid \<circ> snd) (c_procs s)) \<and>
         (\<forall>ap \<in> set (c_procs s).
            pid_table_virtual_to_real (c_table s) (p_virt_pid (snd ap)) = p_real_pid (snd ap) \<and>
            p_virt_pid (snd ap) < c_next_virt_pid s)"
  using reachable_inv [OF assms] by (auto simp: coord_inv_def pid_table_virtual_to_real_def)

theorem reachable_pids_translate_witness:
  "\<exists>s. coord_reachable sim_os s \<and> length (c_procs s) = 1 \<and>
     (\<forall>ap \<in> set (c_procs s). pid_table_virtual_to_real (c_table s) (p_virt_pid (snd ap)) = p_real_pid (snd ap))"
proof -
  let ?s0 = "state_after (coord_init sim_os) (coord_info0 [])"
  let ?s1 = "state_after (coord_accept sim_os 4 (msg_of XND_CONNECT_LAUNCH)) ?s0"
  have "returned (coord_init sim_os) (coord_info0 [])" by code_simp
  from returnedD [OF this] have s0: "coord_reachable sim_os ?s0" by (rule coord_reachable.start)
  have "returned (coord_accept sim_os 4 (msg_of XND_CONNECT_LAUNCH)) ?s0" by code_simp
  then have "coord_step sim_os ?s0 ?s1"
    by (intro coord_step.accept [OF returnedD]) (simp_all add: msg_of_def)
  with s0 have s1: "coord_reachable sim_os ?s1" by (rule coord_reachable.step)
  have "length (c_procs ?s1) = 1" by code_simp
  then show ?thesis using s1 reachable_pids_translate [OF s1] by blast
qed

section \<open>The checkpoint\<close>

text \<open>
  C2: a checkpoint that begins with every process running and returns has unblocked the signals and has
  either committed nothing (the epoch stays, no process was told to start, no manifest was written), or
  gone through a two-phase protocol: every process was sent the request and after that had answered that it
  is ready, and both before the first was told to start, all had reported completion before the manifest
  was written, the manifest was written before the first was resumed, the epoch is one higher, all processes
  run again, and the roots are the processes whose parent is not in the list.
\<close>

theorem coord_do_checkpoint_two_phase:
  assumes "coord_inv s" and "length (c_procs s) < 2 ^ 32"
    and "\<forall>ap \<in> set (c_procs s). p_state (snd ap) = PROC_RUNNING"
    and "coord_do_checkpoint os s = Some (Inr (), s')"
  shows "\<not> c_sig_blocked s' \<and> coord_inv s' \<and>
         ((\<exists>evs. c_epoch s' = c_epoch s \<and> c_log s' = c_log s @ evs \<and> list_all quiet_event evs) \<or>
          c_epoch s' = c_epoch s + 1 \<and> committed s s')"
  using wpD [OF wp_do_checkpoint assms(4)] assms keeps_step [OF keeps_do_checkpoint assms(1,4)]
  by (simp add: coord_inv_def)

theorem coord_do_checkpoint_two_phase_witness:
  "\<exists>s'. coord_do_checkpoint sim_os (sim_state [XND_CKPT_READY, XND_CKPT_DONE]) = Some (Inr (), s') \<and>
      c_epoch s' = 1 \<and> committed (sim_state [XND_CKPT_READY, XND_CKPT_DONE]) s'"
proof -
  let ?s = "sim_state [XND_CKPT_READY, XND_CKPT_DONE]"
  let ?s' = "state_after (coord_do_checkpoint sim_os) ?s"
  have "returned (coord_do_checkpoint sim_os) ?s" by code_simp
  then have run: "coord_do_checkpoint sim_os ?s = Some (Inr (), ?s')" by (rule returnedD)
  have e: "c_epoch ?s' = 1" by code_simp
  have "c_epoch ?s = 0" "length (c_procs ?s) < 2 ^ 32"
    "\<forall>ap \<in> set (c_procs ?s). p_state (snd ap) = PROC_RUNNING"
    by (simp_all add: sim_state_def sim_proc_def new_proc_def coord_info0_def)
  then show ?thesis
    using coord_do_checkpoint_two_phase [OF sim_inv _ _ run] e run by auto
qed

section \<open>Progress of the first phase\<close>

text \<open>
  A system in which nobody dies, messages are transferred completely, and every process
  answers a checkpoint request that it is ready.
\<close>

definition responsive :: "('w, 'm) net_os_scheme \<Rightarrow> bool" where
  "responsive os \<longleftrightarrow>
     (\<forall>pid w. \<not> fst (os_gone os pid w)) \<and>
     (\<forall>b fds w. fst (os_select os b fds w) = (int (length fds), fds)) \<and>
     (\<forall>fd m w. fst (os_send os fd m w) = sizeof_xnd_msg) \<and>
     (\<forall>fd w. fst (fst (os_recv os fd w)) = sizeof_xnd_msg \<and>
        m_hdr (snd (fst (os_recv os fd w))) = XND_CKPT_READY)"

lemma runs_call [simp]:
  "runs (call f) Q s \<longleftrightarrow> Q (fst (f (c_world s))) (s\<lparr> c_world := snd (f (c_world s)) \<rparr>)"
  by (simp add: runs_def call_def split: prod.splits)

lemma runs_deref [simp]: "runs (deref a) Q s \<longleftrightarrow> (\<exists>p. map_of (c_procs s) a = Some p \<and> Q p s)"
  by (auto simp: deref_def runs_def bnd_def gets_def halt_def ret_def split: option.splits)

lemma runs_set_proc [simp]:
  "runs (set_proc a f) Q s = Q () (s\<lparr> c_procs := plist_update a f (c_procs s) \<rparr>)"
  by (simp add: set_proc_def)

lemma runs_log_event [simp]: "runs (log_event e) Q s = Q () (s\<lparr> c_log := c_log s @ [e] \<rparr>)"
  by (simp add: log_event_def)

definition with_states :: "proc_state \<Rightarrow> plist \<Rightarrow> plist" where
  "with_states st ps = map (\<lambda>(a, p). (a, p\<lparr> p_state := st \<rparr>)) ps"

lemma with_states_sel [simp]:
  "map fst (with_states st ps) = map fst ps"
  "length (with_states st ps) = length ps"
  "with_states st' (with_states st ps) = with_states st' ps"
  "with_states st [] = []"
  "with_states st (xs @ ys) = with_states st xs @ with_states st ys"
  by (auto simp: with_states_def)

lemma with_states_id: "\<forall>ap \<in> set ps. p_state (snd ap) = st \<Longrightarrow> with_states st ps = ps"
  by (induction ps) (auto simp: with_states_def)

text \<open>The two rounds: the first asks every process, the second hears every answer.\<close>

definition round_to :: "proc_state \<Rightarrow> proc_state" where
  "round_to st = (if st = PROC_RUNNING then PROC_RECV_CKPT_REQUEST else PROC_READY_FOR_CKPT)"

lemma map_of_middle:
  assumes "distinct (map fst (xs @ (a, p) # ys))"
  shows "map_of (xs @ (a, p) # ys) a = Some p"
  using assms by (subst map_of_eq_Some_iff) simp_all

lemma update_middle:
  assumes "distinct (map fst (xs @ (a, p) # ys))"
  shows "plist_update a f (xs @ (a, p) # ys) = xs @ (a, f p) # ys"
proof -
  have "plist_update a f zs = zs" if "a \<notin> fst ` set zs" for zs
    using that by (induction zs) (auto simp: plist_update_def)
  then show ?thesis using assms by (simp add: plist_update_def)
qed

lemma runs_send_msg:
  assumes "responsive os"
  shows "runs (coord_send_msg os fd m) Q s \<longleftrightarrow>
     Q 0 (s\<lparr> c_world := snd (os_send os fd m (c_world s)), c_log := c_log s @ [Ev_Send fd (m_hdr m)] \<rparr>)"
  using assms by (simp add: coord_send_msg_def responsive_def)

lemma runs_recv_msg:
  assumes "responsive os"
  shows "runs (coord_recv_msg os fd) Q s \<longleftrightarrow>
     (\<exists>m. m_hdr m = XND_CKPT_READY \<and> Q (Some m)
       (s\<lparr> c_world := snd (os_recv os fd (c_world s)), c_log := c_log s @ [Ev_Recv fd XND_CKPT_READY] \<rparr>) \<and>
       m = snd (fst (os_recv os fd (c_world s))))"
proof -
  obtain n m w where r: "os_recv os fd (c_world s) = ((n, m), w)" by (metis prod.exhaust)
  have "n = sizeof_xnd_msg" "m_hdr m = XND_CKPT_READY"
    using assms r unfolding responsive_def by (metis fst_conv snd_conv)+
  then show ?thesis using r by (auto simp: coord_recv_msg_def)
qed

lemma runs_suspend_step:
  assumes os: "responsive os" and p: "map_of (c_procs s) a = Some p" "p_state p = st"
    and st: "st \<in> {PROC_RUNNING, PROC_RECV_CKPT_REQUEST}"
  shows "runs (suspend_step os a p) (\<lambda>r s'. r = (st \<noteq> PROC_RUNNING) \<and> (\<exists>w l. s' = s\<lparr> c_world := w, c_log := l,
      c_procs := plist_update a (\<lambda>p. p\<lparr> p_state := round_to st \<rparr>) (c_procs s) \<rparr>)) s"
proof (cases "st = PROC_RUNNING")
  case True
  then show ?thesis
    using p(2) by (simp add: suspend_step_def round_to_def runs_send_msg [OF os]) blast
next
  case False
  have hdr: "m_hdr (snd (fst (os_recv os fd w))) = XND_CKPT_READY" for fd w
    using os by (simp add: responsive_def)
  have st: "st = PROC_RECV_CKPT_REQUEST" using False st by simp
  have recv: "runs (coord_recv_msg os (p_fd p)) Q s \<longleftrightarrow>
     Q (Some (snd (fst (os_recv os (p_fd p) (c_world s)))))
       (s\<lparr> c_world := snd (os_recv os (p_fd p) (c_world s)), c_log := c_log s @ [Ev_Recv (p_fd p) XND_CKPT_READY] \<rparr>)" for Q
    unfolding runs_recv_msg [OF os] using hdr by auto
  show ?thesis
    using st p(2) hdr by (simp add: suspend_step_def round_to_def recv) blast
qed

lemma runs_suspend_round:
  assumes os: "responsive os" and st: "st \<in> {PROC_RUNNING, PROC_RECV_CKPT_REQUEST}"
    and "distinct (map fst (xs @ ys))" and "\<forall>ap \<in> set ys. p_state (snd ap) = st"
    and "c_procs s = with_states (round_to st) xs @ ys"
  shows "runs (suspend_round os (map fst ys) ready nr)
     (\<lambda>r s'. r = (ready + (if st = PROC_RUNNING then 0 else length ys), nr + length ys) \<and>
        (\<exists>w l. s' = s\<lparr> c_world := w, c_log := l, c_procs := with_states (round_to st) (xs @ ys) \<rparr>)) s"
  using assms(3-5)
proof (induction ys arbitrary: xs s ready nr)
  case Nil
  then show ?case by (auto intro!: exI [of _ "c_world s"] exI [of _ "c_log s"])
next
  case (Cons ap ys)
  obtain a p where ap: "ap = (a, p)" by (cases ap)
  have dist: "distinct (map fst (with_states (round_to st) xs @ (a, p) # ys))"
    using Cons.prems(1) ap unfolding map_append with_states_sel by simp
  have look: "map_of (c_procs s) a = Some p"
    using map_of_middle [OF dist] Cons.prems(3) ap by simp
  have upd: "plist_update a (\<lambda>p. p\<lparr> p_state := round_to st \<rparr>) (c_procs s) =
      with_states (round_to st) (xs @ [ap]) @ ys"
    using update_middle [OF dist] Cons.prems(3) ap by (simp add: with_states_def)
  have pst: "p_state p = st" using Cons.prems(2) ap by simp
  have gone: "\<not> fst (os_gone os (p_real_pid p) w)" for w
    using os by (simp add: responsive_def)
  let ?ready = "if st = PROC_RUNNING then ready else ready + 1"
  let ?post = "\<lambda>r s'. r = (ready + (if st = PROC_RUNNING then 0 else length (ap # ys)), nr + length (ap # ys)) \<and>
        (\<exists>w l. s' = s\<lparr> c_world := w, c_log := l, c_procs := with_states (round_to st) (xs @ ap # ys) \<rparr>)"
  have rest: "runs (suspend_round os (map fst ys) ?ready (nr + 1)) ?post (s2\<lparr> c_world := w' \<rparr>)"
    if s2: "s2 = s\<lparr> c_world := w, c_log := l, c_procs := with_states (round_to st) (xs @ [ap]) @ ys \<rparr>" for s2 w l w'
    by (rule runs_mono [OF Cons.IH [of "xs @ [ap]"]]) (use Cons.prems in \<open>auto simp: s2\<close>)
  have after: "runs (call (os_gone os (p_real_pid p))) (\<lambda>gone.
      runs (if gone then sq (coord_remove os a) (suspend_round os (map fst ys) (if r then ready + 1 else ready) nr)
            else suspend_round os (map fst ys) (if r then ready + 1 else ready) (nr + 1)) ?post) s2"
    if r: "r = (st \<noteq> PROC_RUNNING)" and
      s2: "s2 = s\<lparr> c_world := w, c_log := l, c_procs := with_states (round_to st) (xs @ [ap]) @ ys \<rparr>" for r s2 w l
  proof -
    have "(if r then ready + 1 else ready) = ?ready" using r by simp
    then show ?thesis using rest [OF s2] gone by (simp only: runs_call if_False)
  qed
  have step: "runs (suspend_step os a p) (\<lambda>r s'. runs (call (os_gone os (p_real_pid p))) (\<lambda>gone.
      runs (if gone then sq (coord_remove os a) (suspend_round os (map fst ys) (if r then ready + 1 else ready) nr)
            else suspend_round os (map fst ys) (if r then ready + 1 else ready) (nr + 1)) ?post) s') s"
    by (rule runs_mono [OF runs_suspend_step [OF os look pst st]]) (unfold upd, use after in blast)
  show ?case
    unfolding ap list.map fst_conv suspend_round.simps runs_bnd runs_deref
    by (intro exI conjI) (rule look, rule step [unfolded ap])
qed

lemma round_to_simps [simp]:
  "round_to PROC_RUNNING = PROC_RECV_CKPT_REQUEST"
  "round_to PROC_RECV_CKPT_REQUEST = PROC_READY_FOR_CKPT"
  by (simp_all add: round_to_def)

lemma with_states_state: "ap \<in> set (with_states st ps) \<Longrightarrow> p_state (snd ap) = st"
  by (auto simp: with_states_def)

lemma runs_suspend_body:
  "runs (suspend_round os (map fst (c_procs s)) 0 0) (\<lambda>r. Q (if fst r \<noteq> snd r then None else Some ())) s \<Longrightarrow>
     runs (suspend_body os) Q s"
  by (auto simp: suspend_body_def elim!: runs_mono)

lemma runs_suspend:
  assumes os: "responsive os" and dist: "distinct (map fst (c_procs s))"
    and running: "\<forall>ap \<in> set (c_procs s). p_state (snd ap) = PROC_RUNNING"
  shows "runs (coord_suspend_processes os) (\<lambda>_ s'. \<exists>w l. s' = s\<lparr> c_world := w, c_log := l,
      c_procs := with_states PROC_READY_FOR_CKPT (c_procs s) \<rparr>) s"
proof -
  let ?Q = "\<lambda>(_ :: unit) s'. \<exists>w l. s' = s\<lparr> c_world := w, c_log := l,
      c_procs := with_states PROC_READY_FOR_CKPT (c_procs s) \<rparr>"
  let ?ps1 = "with_states PROC_RECV_CKPT_REQUEST (c_procs s)"
  have round2: "runs (repeat_until (suspend_body os)) ?Q t"
    if t: "t = s\<lparr> c_world := w, c_log := l, c_procs := ?ps1 \<rparr>" for t w l
  proof (rule runs_repeat_step, rule runs_suspend_body,
      rule runs_mono [OF runs_suspend_round [OF os, of PROC_RECV_CKPT_REQUEST "[]" "c_procs t" t 0 0]])
    show "distinct (map fst ([] @ c_procs t))" using dist t by simp
    show "\<forall>ap \<in> set (c_procs t). p_state (snd ap) = PROC_RECV_CKPT_REQUEST"
      using t with_states_state by simp
  qed (use t in auto)
  show ?thesis
    unfolding coord_suspend_processes_def
  proof (rule runs_repeat_step, rule runs_suspend_body,
      rule runs_mono [OF runs_suspend_round [OF os, of PROC_RUNNING "[]" "c_procs s" s 0 0]])
    show "distinct (map fst ([] @ c_procs s))" using dist by simp
    show "\<forall>ap \<in> set (c_procs s). p_state (snd ap) = PROC_RUNNING" by (rule running)
  next
    fix r s'
    assume "r = (0 + (if PROC_RUNNING = PROC_RUNNING then 0 else length (c_procs s)), 0 + length (c_procs s)) \<and>
       (\<exists>w l. s' = s\<lparr> c_world := w, c_log := l, c_procs := with_states (round_to PROC_RUNNING) ([] @ c_procs s) \<rparr>)"
    then have r: "r = (0, length (c_procs s))" and "\<exists>w l. s' = s\<lparr> c_world := w, c_log := l, c_procs := ?ps1 \<rparr>"
      by auto
    then obtain w l where s': "s' = s\<lparr> c_world := w, c_log := l, c_procs := ?ps1 \<rparr>" by blast
    have "?Q () s'" if "c_procs s = []" using s' that by auto
    then show "case (if fst r \<noteq> snd r then None else Some ()) of
        None \<Rightarrow> runs (repeat_until (suspend_body os)) ?Q s' | Some a \<Rightarrow> ?Q a s'"
      using r round2 [OF s'] by (simp del: with_states_sel)
  qed simp_all
qed

lemma runs_prepare_round:
  assumes os: "responsive os" and "\<forall>a \<in> set as. a \<in> fst ` set (c_procs s)"
  shows "runs (prepare_round os as fds) (\<lambda>fds' s'. length fds' = length fds + length as \<and> (\<exists>w. s' = s\<lparr> c_world := w \<rparr>)) s"
  using assms(2)
proof (induction as arbitrary: s fds)
  case Nil
  then show ?case by (auto intro!: exI [of _ "c_world s"])
next
  case (Cons a as)
  have "map_of (c_procs s) a \<noteq> None"
    using Cons.prems by (simp add: map_of_eq_None_iff)
  then obtain p where p: "map_of (c_procs s) a = Some p" by blast
  have "runs (prepare_round os as (fds @ [p_fd p]))
     (\<lambda>fds' s'. length fds' = length fds + length (a # as) \<and> (\<exists>w. s' = s\<lparr> c_world := w \<rparr>)) (s\<lparr> c_world := w' \<rparr>)" for w'
    by (rule runs_mono [OF Cons.IH]) (use Cons.prems in auto)
  moreover have "\<not> fst (os_gone os (p_real_pid p) w)" for w
    using os by (simp add: responsive_def)
  ultimately show ?case using p by simp
qed

lemma runs_prepare_body:
  assumes os: "responsive os"
  shows "runs (prepare_body os b)
     (\<lambda>r s'. r = Some (length (c_procs s)) \<and> (\<exists>w. s' = s\<lparr> c_world := w \<rparr>)) s"
proof -
  have select: "fst (os_select os b fds w) = (int (length fds), fds)" for fds w
    using os by (simp add: responsive_def)
  have prep: "runs (prepare_round os (map fst (c_procs s)) [])
      (\<lambda>fds s'. length fds = length (c_procs s) \<and> (\<exists>w. s' = s\<lparr> c_world := w \<rparr>)) s"
    by (rule runs_mono [OF runs_prepare_round [OF os]]) simp_all
  show ?thesis
    unfolding prepare_body_def runs_bnd runs_gets
    by (rule runs_mono [OF prep]) (auto simp: select)
qed

lemma runs_collective_prepare:
  assumes "responsive os"
  shows "runs (coord_collective_prepare os type)
     (\<lambda>n s'. n = length (c_procs s) \<and> (\<exists>w. s' = s\<lparr> c_world := w \<rparr>)) s"
  unfolding coord_collective_prepare_def
  by (rule runs_repeat_step, rule runs_mono [OF runs_prepare_body [OF assms]]) auto

lemma runs_on_world:
  "m (c_world s) = Some (Inr a, w) \<Longrightarrow> Q a (s\<lparr> c_world := w \<rparr>) \<Longrightarrow> runs (on_world m) Q s"
  by (simp add: runs_def on_world_def zoom_def)

text \<open>
  C19: the first phase ends when the processes answer: every process that was running is then
  ready, and nothing else of the coordinator has changed.
\<close>

theorem coord_suspend_processes_ends:
  assumes "responsive os" and "coord_inv s" and "\<forall>ap \<in> set (c_procs s). p_state (snd ap) = PROC_RUNNING"
  shows "\<exists>s' w l. coord_suspend_processes os s = Some (Inr (), s') \<and>
           s' = s\<lparr> c_world := w, c_log := l, c_procs := with_states PROC_READY_FOR_CKPT (c_procs s) \<rparr>"
  using runs_suspend [OF assms(1) _ assms(3)] assms(2) by (auto simp: runs_def coord_inv_def)

theorem coord_suspend_processes_ends_witness:
  "\<exists>s'. coord_suspend_processes (sim_os\<lparr> os_recv := \<lambda>_ w. ((sizeof_xnd_msg, msg_of XND_CKPT_READY), w) \<rparr>) (sim_state [])
           = Some (Inr (), s')"
proof -
  have "responsive (sim_os\<lparr> os_recv := \<lambda>_ w. ((sizeof_xnd_msg, msg_of XND_CKPT_READY), w) \<rparr>)"
    by (simp add: responsive_def sim_os_def msg_of_def)
  moreover have "\<forall>ap \<in> set (c_procs (sim_state [])). p_state (snd ap) = PROC_RUNNING"
    by (simp add: sim_state_def sim_proc_def new_proc_def)
  ultimately show ?thesis
    using coord_suspend_processes_ends [OF _ sim_inv] by blast
qed

section \<open>Where the protocol goes wrong\<close>

text \<open>
  C35: when the directory of the checkpoint cannot be created, the coordinator returns to its
  main loop with every process suspended: all are in the state in which they wait for the
  barrier, and none is released.
\<close>

theorem failed_directory_leaves_processes_suspended:
  assumes "responsive os" and "coord_inv s" and "c_procs s \<noteq> []"
    and "\<forall>ap \<in> set (c_procs s). p_state (snd ap) = PROC_RUNNING"
    and "\<And>w. \<exists>w'. xnd_ckptdir_create os (c_uuid s) (c_epoch s) w = Some (Inr (- 1), w')"
    and "\<And>w. \<exists>e w'. xnd_ckptdir_unlink os (c_uuid s) (c_epoch s) w = Some (Inr e, w')"
  shows "\<exists>s'. coord_do_checkpoint os s = Some (Inr (), s') \<and>
           c_procs s' = with_states PROC_READY_FOR_CKPT (c_procs s) \<and> \<not> c_sig_blocked s'"
proof -
  have dist: "distinct (map fst (c_procs s))" using assms(2) by (simp add: coord_inv_def)
  let ?Q = "\<lambda>(_ :: unit) s'. c_procs s' = with_states PROC_READY_FOR_CKPT (c_procs s) \<and> \<not> c_sig_blocked s'"
  have tail: "runs (bnd (gets c_uuid) (\<lambda>uuid. bnd (on_world (xnd_ckptdir_create os uuid (c_epoch s))) (\<lambda>err.
      sq (if err \<noteq> 0 then bnd (on_world (xnd_ckptdir_unlink os uuid (c_epoch s))) (\<lambda>_. ret ())
          else checkpoint_commit os (c_epoch s)) (set_sigmask False)))) ?Q t"
    if "c_uuid t = c_uuid s" "c_procs t = with_states PROC_READY_FOR_CKPT (c_procs s)" for t
  proof -
    obtain w1 where w1: "xnd_ckptdir_create os (c_uuid s) (c_epoch s) (c_world t) = Some (Inr (- 1), w1)"
      using assms(5) by blast
    obtain e w2 where w2: "xnd_ckptdir_unlink os (c_uuid s) (c_epoch s) w1 = Some (Inr e, w2)"
      using assms(6) by blast
    show ?thesis
      using that w1 w2 unfolding runs_bnd runs_gets that(1)
      by (intro runs_on_world [where m = "xnd_ckptdir_create os (c_uuid s) (c_epoch s)"])
        (auto intro!: runs_on_world simp: set_sigmask_def)
  qed
  have "runs (coord_do_checkpoint os) ?Q s"
    unfolding coord_do_checkpoint_def runs_bnd runs_sq runs_gets set_sigmask_def runs_modify
  proof (rule runs_mono [OF runs_collective_prepare [OF assms(1)]])
    fix n s1
    assume "n = length (c_procs (s\<lparr> c_sig_blocked := True \<rparr>)) \<and> (\<exists>w. s1 = s\<lparr> c_sig_blocked := True \<rparr>\<lparr> c_world := w \<rparr>)"
    then have n: "n \<noteq> 0" and s1: "c_procs s1 = c_procs s" "c_uuid s1 = c_uuid s"
      using assms(3) by auto
    have "runs (coord_suspend_processes os) (\<lambda>_. runs (bnd (gets c_uuid) (\<lambda>uuid. bnd (on_world (xnd_ckptdir_create os uuid (c_epoch s))) (\<lambda>err.
      sq (if err \<noteq> 0 then bnd (on_world (xnd_ckptdir_unlink os uuid (c_epoch s))) (\<lambda>_. ret ())
          else checkpoint_commit os (c_epoch s)) (set_sigmask False)))) ?Q) s1"
      by (rule runs_mono [OF runs_suspend [OF assms(1)]]) (use s1 dist assms(4) in \<open>auto intro!: tail simp del: runs_bnd\<close>)
    then show "runs (if n = 0 then modify (\<lambda>s. s\<lparr> c_sig_blocked := False \<rparr>)
        else sq (coord_suspend_processes os)
         (bnd (gets c_uuid) (\<lambda>uuid. bnd (on_world (xnd_ckptdir_create os uuid (c_epoch s))) (\<lambda>err.
           sq (if err \<noteq> 0 then bnd (on_world (xnd_ckptdir_unlink os uuid (c_epoch s))) (\<lambda>_. ret ())
               else checkpoint_commit os (c_epoch s))
              (modify (\<lambda>s. s\<lparr> c_sig_blocked := False \<rparr>)))))) ?Q s1"
      using n unfolding set_sigmask_def by (simp only: runs_sq if_False)
  qed
  then show ?thesis by (auto simp: runs_def)
qed

definition full_disk_os :: "xnd_msg list net_os" where
  "full_disk_os = sim_os\<lparr> os_open := \<lambda>_ _ w. (- 1, w), os_readdir := \<lambda>_ _. None,
     os_recv := \<lambda>_ w. ((sizeof_xnd_msg, msg_of XND_CKPT_READY), w) \<rparr>"

theorem failed_directory_leaves_processes_suspended_witness:
  "\<exists>s'. coord_do_checkpoint full_disk_os (sim_state []) = Some (Inr (), s') \<and>
      map (p_state \<circ> snd) (c_procs s') = [PROC_READY_FOR_CKPT]"
proof -
  have "responsive full_disk_os"
    by (simp add: full_disk_os_def responsive_def sim_os_def msg_of_def)
  moreover have "\<forall>ap \<in> set (c_procs (sim_state [])). p_state (snd ap) = PROC_RUNNING" "c_procs (sim_state []) \<noteq> []"
    by (simp_all add: sim_state_def sim_proc_def new_proc_def)
  moreover have id: "c_uuid (sim_state []) = []" "c_epoch (sim_state []) = 0"
    by (simp_all add: sim_state_def coord_info0_def)
  have path: "ckptdir_path full_disk_os XND_CKPTDIR_MAXLEN [] 0 = Inr (0, Some ''u-checkpoints/epoch-0'')"
    by code_simp
  have "xnd_ckptdir_create full_disk_os (c_uuid (sim_state [])) (c_epoch (sim_state [])) w = Some (Inr (- 1), w)" for w
    by (simp add: xnd_ckptdir_create_def xnd_ckptdir_name_def full_disk_os_def sim_os_def prog_defs sys_def)
  moreover have "xnd_ckptdir_unlink full_disk_os (c_uuid (sim_state [])) (c_epoch (sim_state [])) w = Some (Inr (- 1), w)" for w
    unfolding id xnd_ckptdir_unlink_def path
    by (simp add: xnd_ckptdir_name_def full_disk_os_def prog_defs)
  ultimately obtain s' where "coord_do_checkpoint full_disk_os (sim_state []) = Some (Inr (), s')"
    "c_procs s' = with_states PROC_READY_FOR_CKPT (c_procs (sim_state []))"
    using failed_directory_leaves_processes_suspended [of full_disk_os "sim_state []"] sim_inv by meson
  then show ?thesis by (simp add: with_states_def sim_state_def)
qed

text \<open>
  C33: the first phase can end although a process is not ready. A process that is ready and
  dies is counted as ready in the round that removes it, in place of another one that has not
  answered; the barrier that follows aborts the coordinator.
\<close>

theorem suspend_ends_with_unready_process:
  assumes "c_procs s = [(a, p), (b, q)]" and "a \<noteq> b"
    and "p_state p = PROC_READY_FOR_CKPT" and "p_state q = PROC_RECV_CKPT_REQUEST"
    and "\<And>w. fst (os_gone os (p_real_pid p) w)" and "\<And>w. \<not> fst (os_gone os (p_real_pid q) w)"
    and "\<And>w. m_hdr (snd (fst (os_recv os (p_fd q) w))) \<noteq> XND_CKPT_READY"
  shows "\<exists>s'. coord_suspend_processes os s = Some (Inr (), s') \<and> c_procs s' = [(b, q)] \<and>
           (\<exists>s''. coord_release_barrier os COORD_BARRIER_PRECKPT s' = Some (Inl Aborted, s''))"
proof -
  have step: "runs (suspend_step os b q) (\<lambda>r s'. \<not> r \<and> c_procs s' = c_procs t) t" for t
    using assms(4,7) by (auto simp: suspend_step_def coord_recv_msg_def case_prod_unfold)
  have second: "runs (suspend_round os [b] 1 0) (\<lambda>r s'. r = (1, 1) \<and> c_procs s' = [(b, q)]) t"
    if "c_procs t = [(b, q)]" for t
    using that by (auto intro!: runs_mono [OF step] simp: assms(6))
  have ready: "suspend_step os a p = ret True"
    by (simp add: suspend_step_def assms(3))
  have round: "runs (suspend_round os [a, b] 0 0) (\<lambda>r s'. r = (1, 1) \<and> c_procs s' = [(b, q)]) s"
    unfolding suspend_round.simps(2) [of os a]
    using assms(1,2,5) second
    by (simp add: ready coord_remove_def plist_remove_def del: suspend_round.simps)
  have abort: "\<exists>s''. coord_release_barrier os COORD_BARRIER_PRECKPT t = Some (Inl Aborted, s'')"
    if "c_procs t = [(b, q)]" for t
    using that assms(4) by (simp add: coord_release_barrier_def barrier_step_def deref_def prog_defs)
  have "runs (coord_suspend_processes os) (\<lambda>_ s'. c_procs s' = [(b, q)]) s"
    unfolding coord_suspend_processes_def
    by (rule runs_repeat_step, rule runs_suspend_body, unfold assms(1) list.map fst_conv, rule runs_mono [OF round])
      simp
  then show ?thesis using abort by (auto simp: runs_def)
qed

definition dying_os :: "xnd_msg list net_os" where
  "dying_os = sim_os\<lparr> os_gone := \<lambda>pid w. (pid = 100, w), os_recv := \<lambda>_ w. ((0, blank_msg), w) \<rparr>"

definition dying_state :: "xnd_msg list coord" where
  "dying_state = (sim_state [])\<lparr> c_procs :=
     [(0, sim_proc\<lparr> p_state := PROC_READY_FOR_CKPT \<rparr>),
      (1, sim_proc\<lparr> p_virt_pid := 3, p_real_pid := 101, p_state := PROC_RECV_CKPT_REQUEST \<rparr>)] \<rparr>"

theorem suspend_ends_with_unready_process_witness:
  "\<exists>s'. coord_suspend_processes dying_os dying_state = Some (Inr (), s') \<and>
      c_procs s' = [(1, sim_proc\<lparr> p_virt_pid := 3, p_real_pid := 101, p_state := PROC_RECV_CKPT_REQUEST \<rparr>)] \<and>
      (\<exists>s''. coord_release_barrier dying_os COORD_BARRIER_PRECKPT s' = Some (Inl Aborted, s''))"
  by (rule suspend_ends_with_unready_process [where a = 0 and b = 1 and p = "sim_proc\<lparr> p_state := PROC_READY_FOR_CKPT \<rparr>"])
    (simp_all add: dying_state_def dying_os_def sim_os_def sim_proc_def new_proc_def blank_msg_def)

text \<open>
  C34: a process that announces its exit on the connection it has is removed and freed by the
  handler, and the loop that called the handler then reads its \<^verbatim>\<open>oob_fd\<close>.
\<close>

theorem serve_exit_message_uses_freed_process:
  assumes "map_of (c_procs s) a = Some p" and "p_fd p \<in> set ready"
    and "os_recv os (p_fd p) (c_world s) = ((sizeof_xnd_msg, msg), w)" and "m_hdr msg = XND_EXIT"
    and "plist_find (\<lambda>p. p_real_pid p = m_real_pid msg) (c_procs s) = Some (a, p)"
  shows "\<exists>s'. serve_proc os ready a s = Some (Inl Undefined, s') \<and> c_procs s' = plist_remove a (c_procs s)"
proof -
  have "map_of (plist_remove a (c_procs s)) a = None"
    by (auto simp: plist_remove_def map_of_eq_None_iff)
  then show ?thesis
    using assms
    by (simp add: serve_proc_def serve_fd_def deref_def coord_recv_msg_def call_def log_event_def
        coord_handle_msg_def coord_remove_def prog_defs)
qed

theorem serve_exit_message_uses_freed_process_witness:
  "\<exists>s'. serve_proc sim_os [7] 0 (sim_state [XND_EXIT]) = Some (Inl Undefined, s') \<and> c_procs s' = []"
  using serve_exit_message_uses_freed_process
    [of "sim_state [XND_EXIT]" 0 sim_proc "[7]" sim_os "msg_of XND_EXIT" "[]"]
  by (simp add: sim_state_def sim_proc_def new_proc_def sim_os_def msg_of_def plist_find_def coord_info0_def
      plist_remove_def)

text \<open>
  A process whose real pid the coordinator knows only as the parent of another one cannot
  connect: the lookup in the list fails and its result is used.
\<close>

theorem launch_of_known_parent_is_undefined:
  assumes "real_id_exists (c_table s) (m_real_pid msg)"
    and "\<forall>ap \<in> set (c_procs s). p_real_pid (snd ap) \<noteq> m_real_pid msg"
  shows "coord_connect_with_process_on_launch os fd msg s = Some (Inl Undefined, s)"
proof -
  have "plist_find (\<lambda>p. p_real_pid p = m_real_pid msg) (c_procs s) = None"
    using assms(2) by (simp add: plist_find_None_iff)
  then show ?thesis
    using assms(1) by (simp add: coord_connect_with_process_on_launch_def prog_defs)
qed

text \<open>The parent of the simulated process connects: the state is one the coordinator reaches.\<close>

theorem launch_of_known_parent_is_undefined_witness:
  "\<exists>s. coord_inv s \<and> length (c_procs s) = 1 \<and>
     coord_connect_with_process_on_launch sim_os 8 ((msg_of XND_CONNECT_LAUNCH)\<lparr> m_real_pid := 99 \<rparr>) s
       = Some (Inl Undefined, s)"
proof (intro exI conjI)
  show "coord_inv (sim_state [])" by (rule sim_inv)
  show "length (c_procs (sim_state [])) = 1" by (simp add: sim_state_def)
  show "coord_connect_with_process_on_launch sim_os 8 ((msg_of XND_CONNECT_LAUNCH)\<lparr> m_real_pid := 99 \<rparr>) (sim_state [])
       = Some (Inl Undefined, sim_state [])"
  proof (rule launch_of_known_parent_is_undefined)
    show "real_id_exists (c_table (sim_state [])) (m_real_pid ((msg_of XND_CONNECT_LAUNCH)\<lparr> m_real_pid := 99 \<rparr>))"
      by code_simp
    show "\<forall>ap \<in> set (c_procs (sim_state [])). p_real_pid (snd ap) \<noteq> m_real_pid ((msg_of XND_CONNECT_LAUNCH)\<lparr> m_real_pid := 99 \<rparr>)"
      by (simp add: sim_state_def sim_proc_def new_proc_def)
  qed
qed

end
