(* ===== verification/Vm.thy ===== *)
theory Vm
  imports Coord_Msg
begin

text \<open>
  \<^verbatim>\<open>vm_region.h\<close>, \<^verbatim>\<open>vm_checkpoint.c\<close>, \<^verbatim>\<open>vm_common.c\<close>
  and \<^verbatim>\<open>vm_restore.c\<close>: which memory regions of a process are saved, and how a region
  is mapped and filled again when the process restarts.

  The Mach calls on the address space are a record of functions over the world, as the system
  calls are. \<open>os_load\<close> and \<open>os_store\<close> are the memory itself; a transfer between
  a file and memory names the address, so that it can fail with \<^verbatim>\<open>EFAULT\<close>.
\<close>

section \<open>Regions\<close>

definition VM_PROT_NONE :: u32 where "VM_PROT_NONE = 0"
definition VM_PROT_READ :: u32 where "VM_PROT_READ = 1"
definition VM_PROT_WRITE :: u32 where "VM_PROT_WRITE = 2"
definition VM_PROT_EXECUTE :: u32 where "VM_PROT_EXECUTE = 4"
definition VM_PROT_COPY :: u32 where "VM_PROT_COPY = 16"
definition VM_PROT_DEFAULT :: u32 where "VM_PROT_DEFAULT = 3"
definition VM_PROT_ALL :: u32 where "VM_PROT_ALL = 7"
definition VM_INHERIT_COPY :: u32 where "VM_INHERIT_COPY = 1"
definition VM_INHERIT_NONE :: u32 where "VM_INHERIT_NONE = 2"
definition VM_INHERIT_DEFAULT :: u32 where "VM_INHERIT_DEFAULT = VM_INHERIT_COPY"
definition VM_BEHAVIOR_RSEQNTL :: u32 where "VM_BEHAVIOR_RSEQNTL = 3"
definition VM_PAGE_QUERY_PAGE_DIRTY :: u32 where "VM_PAGE_QUERY_PAGE_DIRTY = 8"

definition VM_MEMORY_MALLOC :: u32 where "VM_MEMORY_MALLOC = 1"
definition VM_MEMORY_MALLOC_SMALL :: u32 where "VM_MEMORY_MALLOC_SMALL = 2"
definition VM_MEMORY_MALLOC_LARGE :: u32 where "VM_MEMORY_MALLOC_LARGE = 3"
definition VM_MEMORY_MALLOC_HUGE :: u32 where "VM_MEMORY_MALLOC_HUGE = 4"
definition VM_MEMORY_REALLOC :: u32 where "VM_MEMORY_REALLOC = 6"
definition VM_MEMORY_MALLOC_TINY :: u32 where "VM_MEMORY_MALLOC_TINY = 7"
definition VM_MEMORY_MALLOC_LARGE_REUSABLE :: u32 where "VM_MEMORY_MALLOC_LARGE_REUSABLE = 8"
definition VM_MEMORY_MALLOC_LARGE_REUSED :: u32 where "VM_MEMORY_MALLOC_LARGE_REUSED = 9"
definition VM_MEMORY_MALLOC_NANO :: u32 where "VM_MEMORY_MALLOC_NANO = 11"
definition VM_MEMORY_MALLOC_MEDIUM :: u32 where "VM_MEMORY_MALLOC_MEDIUM = 12"
definition VM_MEMORY_MALLOC_PROB_GUARD :: u32 where "VM_MEMORY_MALLOC_PROB_GUARD = 13"
definition VM_MEMORY_STACK :: u32 where "VM_MEMORY_STACK = 30"
definition VM_MEMORY_GUARD :: u32 where "VM_MEMORY_GUARD = 31"
definition VM_MEMORY_SHARED_PMAP :: u32 where "VM_MEMORY_SHARED_PMAP = 32"
definition VM_MEMORY_DYLIB :: u32 where "VM_MEMORY_DYLIB = 33"
definition VM_MEMORY_UNSHARED_PMAP :: u32 where "VM_MEMORY_UNSHARED_PMAP = 35"
definition VM_MEMORY_DYLD :: u32 where "VM_MEMORY_DYLD = 60"
definition VM_MEMORY_DYLD_MALLOC :: u32 where "VM_MEMORY_DYLD_MALLOC = 61"
definition VM_MEMORY_OS_ALLOC_ONCE :: u32 where "VM_MEMORY_OS_ALLOC_ONCE = 73"
definition VM_KERN_MEMORY_UBC :: u32 where "VM_KERN_MEMORY_UBC = 22"
definition VM_MEMORY_RESTART_STACK :: u32 where "VM_MEMORY_RESTART_STACK = 240"

lemmas vm_consts =
  VM_PROT_NONE_def VM_PROT_READ_def VM_PROT_WRITE_def VM_PROT_EXECUTE_def VM_PROT_COPY_def
  VM_PROT_DEFAULT_def VM_PROT_ALL_def VM_INHERIT_COPY_def VM_INHERIT_NONE_def VM_INHERIT_DEFAULT_def
  VM_BEHAVIOR_RSEQNTL_def VM_PAGE_QUERY_PAGE_DIRTY_def
  VM_MEMORY_MALLOC_def VM_MEMORY_MALLOC_SMALL_def VM_MEMORY_MALLOC_LARGE_def VM_MEMORY_MALLOC_HUGE_def
  VM_MEMORY_REALLOC_def VM_MEMORY_MALLOC_TINY_def VM_MEMORY_MALLOC_LARGE_REUSABLE_def
  VM_MEMORY_MALLOC_LARGE_REUSED_def VM_MEMORY_MALLOC_NANO_def VM_MEMORY_MALLOC_MEDIUM_def
  VM_MEMORY_MALLOC_PROB_GUARD_def VM_MEMORY_STACK_def VM_MEMORY_GUARD_def VM_MEMORY_SHARED_PMAP_def
  VM_MEMORY_DYLIB_def VM_MEMORY_UNSHARED_PMAP_def VM_MEMORY_DYLD_def VM_MEMORY_DYLD_MALLOC_def
  VM_MEMORY_OS_ALLOC_ONCE_def VM_KERN_MEMORY_UBC_def VM_MEMORY_RESTART_STACK_def

record xnd_vm_region =
  r_start :: u64
  r_size :: u64
  r_inherit :: u32
  r_prot :: u32
  r_max_prot :: u32
  r_mode :: u32
  r_tag :: u32
  r_pages_dirtied :: u32
  r_dirty_only :: bool

text \<open>What the kernel reports of a region.\<close>

record vm_info =
  vi_protection :: u32
  vi_max_protection :: u32
  vi_inheritance :: u32
  vi_behavior :: u32
  vi_share_mode :: u32
  vi_user_tag :: u32
  vi_pages_resident :: u32
  vi_pages_dirtied :: u32
  vi_is_submap :: bool

text \<open>
  The constants of the machine and of the build: the page size, the range of the shared cache,
  the range of the restart program, the guard segment, and the address of
  \<^verbatim>\<open>mach_task_self_\<close>. \<open>os_vm_recurse\<close> takes the address and the depth and
  answers the region at or after it with the depth it was found at. \<open>os_vm_map\<close> takes
  the tag and whether a mapping may be overwritten, \<open>os_vm_protect\<close> whether the maximum
  is set; a Boolean answer says that the call succeeded. \<open>os_fix_task_self\<close> stores the
  true task port at the address of \<^verbatim>\<open>mach_task_self_\<close>.
\<close>

record 'w vm_os = "'w net_os" +
  os_page :: nat
  os_shared_base :: u64
  os_shared_size :: u64
  os_restart_base :: u64
  os_restart_end :: u64
  os_guard :: "u64 \<times> u64"
  os_task_self_addr :: u64
  os_load :: "u64 \<Rightarrow> nat \<Rightarrow> 'w \<Rightarrow> bytes"
  os_store :: "u64 \<Rightarrow> bytes \<Rightarrow> 'w \<Rightarrow> 'w"
  os_write_from :: "fd \<Rightarrow> u64 \<Rightarrow> bytes \<Rightarrow> 'w \<Rightarrow> int \<times> 'w"
  os_read_to :: "fd \<Rightarrow> u64 \<Rightarrow> nat \<Rightarrow> 'w \<Rightarrow> bytes option \<times> 'w"
  os_errno :: "'w \<Rightarrow> int"
  os_tell :: "fd \<Rightarrow> 'w \<Rightarrow> int \<times> 'w"
  os_seek :: "fd \<Rightarrow> int \<Rightarrow> 'w \<Rightarrow> int \<times> 'w"
  os_vm_recurse :: "u64 \<Rightarrow> u32 \<Rightarrow> 'w \<Rightarrow> (u64 \<times> u64 \<times> u32 \<times> vm_info) option"
  os_vm_protect :: "u64 \<Rightarrow> u64 \<Rightarrow> bool \<Rightarrow> u32 \<Rightarrow> 'w \<Rightarrow> bool \<times> 'w"
  os_vm_inherit :: "u64 \<Rightarrow> u64 \<Rightarrow> u32 \<Rightarrow> 'w \<Rightarrow> bool \<times> 'w"
  os_vm_behavior_set :: "u64 \<Rightarrow> u64 \<Rightarrow> u32 \<Rightarrow> 'w \<Rightarrow> bool \<times> 'w"
  os_vm_map :: "u64 \<Rightarrow> u64 \<Rightarrow> u32 \<Rightarrow> bool \<Rightarrow> 'w \<Rightarrow> u64 option \<times> 'w"
  os_vm_deallocate :: "u64 \<Rightarrow> u64 \<Rightarrow> 'w \<Rightarrow> bool \<times> 'w"
  os_vm_page_query :: "u64 \<Rightarrow> u64 \<Rightarrow> 'w \<Rightarrow> u32 list option \<times> 'w"
  os_fix_task_self :: "'w \<Rightarrow> 'w"

definition EFAULT :: int where "EFAULT = 14"

section \<open>Predicates on regions\<close>

definition PAGEZERO :: "u64 \<Rightarrow> u64 \<Rightarrow> bool" where
  "PAGEZERO addr sz \<longleftrightarrow> addr \<ge> 0 \<and> addr + sz < 0x100000000"

definition DYLD_SHARED_CACHE_REGION :: "('w, 'm) vm_os_scheme \<Rightarrow> u64 \<Rightarrow> u64 \<Rightarrow> bool" where
  "DYLD_SHARED_CACHE_REGION os addr sz \<longleftrightarrow>
     addr \<ge> os_shared_base os \<and> addr + sz < os_shared_base os + os_shared_size os"

text \<open>The branch of the macro that the checkpoint library is compiled with.\<close>

definition RESTART_REGION :: "('w, 'm) vm_os_scheme \<Rightarrow> vm_info \<Rightarrow> u64 \<Rightarrow> u64 \<Rightarrow> bool" where
  "RESTART_REGION os info addr sz \<longleftrightarrow>
     (addr \<ge> os_restart_base os \<and> addr + sz < os_restart_end os) \<or>
     (vi_inheritance info = VM_INHERIT_NONE \<and> vi_behavior info = VM_BEHAVIOR_RSEQNTL) \<or>
     vi_user_tag info = VM_MEMORY_RESTART_STACK"

definition IN_VM_RANGE :: "u64 \<Rightarrow> u64 \<Rightarrow> u64 \<Rightarrow> bool" where
  "IN_VM_RANGE ptr start stop \<longleftrightarrow> ptr \<ge> start \<and> ptr < stop"

definition ONLY_RESTORE_DIRTY_PAGES :: "('w, 'm) vm_os_scheme \<Rightarrow> xnd_vm_region \<Rightarrow> bool" where
  "ONLY_RESTORE_DIRTY_PAGES os r \<longleftrightarrow>
     DYLD_SHARED_CACHE_REGION os (r_start r) (r_size r) \<or>
     r_tag r = VM_MEMORY_MALLOC_NANO \<or> r_tag r = VM_MEMORY_MALLOC_TINY \<or>
     r_tag r = VM_MEMORY_MALLOC_SMALL \<or> r_tag r = VM_MEMORY_MALLOC_MEDIUM \<or>
     r_tag r = VM_MEMORY_MALLOC_LARGE"

definition ONLY_SAVE_DIRTY_PAGES :: "('w, 'm) vm_os_scheme \<Rightarrow> xnd_vm_region \<Rightarrow> bool" where
  "ONLY_SAVE_DIRTY_PAGES os r \<longleftrightarrow> ONLY_RESTORE_DIRTY_PAGES os r"

section \<open>Choosing the regions of a checkpoint\<close>

text \<open>The switch over the tag, its labels with the same body together.\<close>

definition ckpt_vm_valid_region :: "('w, 'm) vm_os_scheme \<Rightarrow> vm_info \<Rightarrow> u64 \<Rightarrow> u64 \<Rightarrow> bool res" where
  "ckpt_vm_valid_region os info addr sz =
     (if PAGEZERO addr sz \<or> RESTART_REGION os info addr sz \<or> vi_max_protection info = VM_PROT_NONE
      then Inr False
      else if DYLD_SHARED_CACHE_REGION os addr sz then Inr (vi_pages_dirtied info \<noteq> 0)
      else if vi_user_tag info \<in> {VM_MEMORY_MALLOC, VM_MEMORY_MALLOC_NANO, VM_MEMORY_MALLOC_TINY,
             VM_MEMORY_MALLOC_SMALL, VM_MEMORY_MALLOC_MEDIUM, VM_MEMORY_MALLOC_LARGE,
             VM_MEMORY_MALLOC_HUGE, VM_MEMORY_MALLOC_LARGE_REUSABLE, VM_MEMORY_MALLOC_LARGE_REUSED,
             VM_MEMORY_MALLOC_PROB_GUARD, VM_MEMORY_STACK}
      then Inr True
      else if vi_user_tag info \<in> {VM_MEMORY_DYLD, VM_MEMORY_DYLD_MALLOC}
      then (if vi_pages_resident info \<noteq> 0 \<and> vi_pages_dirtied info \<noteq> 0
            then xnd_assert (vi_max_protection info AND VM_PROT_WRITE \<noteq> 0) (Inr True)
            else Inr False)
      else if vi_user_tag info \<in> {VM_MEMORY_REALLOC, VM_MEMORY_GUARD, VM_MEMORY_SHARED_PMAP,
             VM_MEMORY_UNSHARED_PMAP}
      then Inr False
      else if vi_user_tag info \<in> {VM_MEMORY_DYLIB, VM_MEMORY_OS_ALLOC_ONCE} then Inr True
      else if vi_user_tag info = VM_KERN_MEMORY_UBC
      then Inr (\<not> addr \<ge> os_shared_base os + os_shared_size os)
      else Inr True)"

text \<open>
  The regions array of the caller has \<^const>\<open>XND_CKPT_VM_REGION_MAX\<close> elements, which the
  loop does not check; the fields of an element that it does not set keep what was on the
  stack (\<open>junk\<close>).
\<close>

definition region_of_info :: "bool \<Rightarrow> u64 \<Rightarrow> u64 \<Rightarrow> vm_info \<Rightarrow> xnd_vm_region" where
  "region_of_info junk addr sz info =
     \<lparr> r_start = addr, r_size = sz, r_inherit = vi_inheritance info, r_prot = vi_protection info,
       r_max_prot = vi_max_protection info, r_mode = vi_share_mode info, r_tag = vi_user_tag info,
       r_pages_dirtied = vi_pages_dirtied info, r_dirty_only = junk \<rparr>"

partial_function (option) save_regions_loop ::
  "('w, 'm) vm_os_scheme \<Rightarrow> bool \<Rightarrow> u64 \<Rightarrow> u32 \<Rightarrow> xnd_vm_region list \<Rightarrow> ('w, xnd_vm_region list) prog" where
  [code]: "save_regions_loop os junk addr depth regions w =
     (case os_vm_recurse os addr depth w of
        None \<Rightarrow> Some (Inr regions, w)
      | Some (addr', sz, depth', info) \<Rightarrow>
          if vi_is_submap info then save_regions_loop os junk addr' (depth' + 1) regions w
          else (case ckpt_vm_valid_region os info addr' sz of
                  Inl e \<Rightarrow> Some (Inl e, w)
                | Inr valid \<Rightarrow>
                    if \<not> valid then save_regions_loop os junk (addr' + sz) depth' regions w
                    else if length regions \<ge> XND_CKPT_VM_REGION_MAX then Some (Inl Undefined, w)
                    else save_regions_loop os junk (addr' + sz) depth'
                           (regions @ [region_of_info junk addr' sz info]) w))"

definition ckpt_vm_save_regions :: "('w, 'm) vm_os_scheme \<Rightarrow> bool \<Rightarrow> ('w, xnd_vm_region list) prog" where
  "ckpt_vm_save_regions os junk = save_regions_loop os junk 0 0 []"

section \<open>Mapping and protecting\<close>

definition ckpt_vm_protect :: "('w, 'm) vm_os_scheme \<Rightarrow> xnd_vm_region \<Rightarrow> bool \<Rightarrow> u32 \<Rightarrow> ('w, int) prog" where
  "ckpt_vm_protect os region mx prot =
     bnd (sys (os_vm_protect os (r_start region) (r_size region) mx prot)) (\<lambda>ok.
       ret (if \<not> ok then - 1 else 0))"

definition ckpt_vm_mark :: "('w, 'm) vm_os_scheme \<Rightarrow> u64 \<Rightarrow> u64 \<Rightarrow> ('w, int) prog" where
  "ckpt_vm_mark os addr sz =
     bnd (sys (os_vm_inherit os addr sz VM_INHERIT_NONE)) (\<lambda>ok.
       if \<not> ok then ret (- 1)
       else bnd (sys (os_vm_behavior_set os addr sz VM_BEHAVIOR_RSEQNTL)) (\<lambda>ok.
              ret (if \<not> ok then - 1 else 0)))"

text \<open>A submap leaves the depth as the kernel returned it, and the call is repeated.\<close>

partial_function (option) mark_loop :: "('w, 'm) vm_os_scheme \<Rightarrow> u64 \<Rightarrow> u32 \<Rightarrow> ('w, int) prog" where
  [code]: "mark_loop os addr depth w =
     (case os_vm_recurse os addr depth w of
        None \<Rightarrow> Some (Inr 0, w)
      | Some (addr', sz, depth', info) \<Rightarrow>
          if vi_is_submap info then mark_loop os addr' depth' w
          else if PAGEZERO addr' sz \<or> DYLD_SHARED_CACHE_REGION os addr' sz
          then mark_loop os (addr' + sz) depth' w
          else (case ckpt_vm_mark os addr' sz w of
                  None \<Rightarrow> None
                | Some (r, w') \<Rightarrow> (case r of
                    Inl e \<Rightarrow> Some (Inl e, w')
                  | Inr err \<Rightarrow> if err < 0 then Some (Inr (- 1), w')
                               else mark_loop os (addr' + sz) depth' w')))"

definition ckpt_vm_mark_regions :: "('w, 'm) vm_os_scheme \<Rightarrow> ('w, int) prog" where
  "ckpt_vm_mark_regions os = mark_loop os 0 0"

partial_function (option) find_ubc_loop ::
  "('w, 'm) vm_os_scheme \<Rightarrow> u64 \<Rightarrow> u32 \<Rightarrow> 'w \<Rightarrow> (u64 \<times> u64) option option" where
  [code]: "find_ubc_loop os addr depth w =
     (case os_vm_recurse os addr depth w of
        None \<Rightarrow> Some None
      | Some (addr', sz, depth', info) \<Rightarrow>
          if vi_is_submap info then find_ubc_loop os addr' depth' w
          else if vi_user_tag info = VM_KERN_MEMORY_UBC then Some (Some (addr', sz))
          else find_ubc_loop os (addr' + sz) depth' w)"

text \<open>Address and size of the region; address zero when there is none.\<close>

definition ckpt_vm_find_ubc_region :: "('w, 'm) vm_os_scheme \<Rightarrow> ('w, u64 \<times> u64 option) prog" where
  "ckpt_vm_find_ubc_region os = (\<lambda>w. map_option (\<lambda>r. (Inr (case r of
       None \<Rightarrow> (0, None) | Some (addr, sz) \<Rightarrow> (addr, Some sz)), w)) (find_ubc_loop os 0 0 w))"

definition ckpt_vm_remove_xnd_guard :: "('w, 'm) vm_os_scheme \<Rightarrow> ('w, int) prog" where
  "ckpt_vm_remove_xnd_guard os =
     bnd (sys (os_vm_deallocate os (fst (os_guard os)) (snd (os_guard os)))) (\<lambda>ok.
       ret (if \<not> ok then - 1 else 0))"

definition ckpt_vm_map_region :: "('w, 'm) vm_os_scheme \<Rightarrow> xnd_vm_region \<Rightarrow> ('w, int) prog" where
  "ckpt_vm_map_region os region =
     bnd (sys (os_vm_map os (r_start region) (r_size region) (r_tag region) True)) (\<lambda>r.
       case r of
         None \<Rightarrow> ret (- 1)
       | Some addr \<Rightarrow> sq (assert_p (r_start region = addr)) (ret 0))"

text \<open>Three attributes, each set only when it differs from what a new mapping has.\<close>

definition ckpt_vm_refresh_region :: "('w, 'm) vm_os_scheme \<Rightarrow> xnd_vm_region \<Rightarrow> ('w, int) prog" where
  "ckpt_vm_refresh_region os region =
     bnd (if r_prot region \<noteq> VM_PROT_DEFAULT then ckpt_vm_protect os region False (r_prot region) else ret 0) (\<lambda>e.
       if e \<noteq> 0 then ret (- 1)
       else
         bnd (if r_max_prot region \<noteq> VM_PROT_ALL then ckpt_vm_protect os region True (r_max_prot region) else ret 0) (\<lambda>e.
           if e \<noteq> 0 then ret (- 1)
           else
             bnd (if r_inherit region \<noteq> VM_INHERIT_DEFAULT
                  then sys (os_vm_inherit os (r_start region) (r_size region) (r_inherit region)) else ret True) (\<lambda>ok.
               ret (if \<not> ok then - 1 else 0))))"

section \<open>Filling a region from the file\<close>

text \<open>
  \<^verbatim>\<open>sys_readall(fd, addr, n)\<close>: what was read is stored when the loop ends, also
  when it is less than was asked for.
\<close>

definition read_mem :: "('w, 'm) vm_os_scheme \<Rightarrow> fd \<Rightarrow> u64 \<Rightarrow> nat \<Rightarrow> ('w, nat) prog" where
  "read_mem os fd addr n =
     bnd (\<lambda>w. map_option (\<lambda>(b, w'). (Inr b, w'))
              (readall (\<lambda>k. os_read_to os fd (addr + of_nat (n - k)) k) n w)) (\<lambda>b.
     sq (modify (os_store os addr b)) (ret (length b)))"

definition page_addr :: "xnd_vm_region \<Rightarrow> u64 \<Rightarrow> u64" where
  "page_addr region offset = r_start region + offset"

definition ckpt_vm_refresh_page :: "('w, 'm) vm_os_scheme \<Rightarrow> xnd_vm_region \<Rightarrow> u64 \<Rightarrow> ('w, int) prog" where
  "ckpt_vm_refresh_page os rgn offset =
     (let addr = page_addr rgn offset; sz = of_nat (os_page os) in
      bnd (if r_prot rgn \<noteq> VM_PROT_DEFAULT then sys (os_vm_protect os addr sz False (r_prot rgn)) else ret True) (\<lambda>ok.
        if \<not> ok then ret (- 1)
        else
          bnd (if r_max_prot rgn \<noteq> VM_PROT_ALL then sys (os_vm_protect os addr sz True (r_max_prot rgn)) else ret True) (\<lambda>ok.
            if \<not> ok then ret (- 1)
            else
              bnd (if r_inherit rgn \<noteq> VM_INHERIT_DEFAULT then sys (os_vm_inherit os addr sz (r_inherit rgn)) else ret True) (\<lambda>ok.
                ret (if \<not> ok then - 1 else 0)))))"

text \<open>The assertion compares the address of the page with the start of the region.\<close>

definition ckpt_vm_map_page :: "('w, 'm) vm_os_scheme \<Rightarrow> xnd_vm_region \<Rightarrow> u64 \<Rightarrow> ('w, int) prog" where
  "ckpt_vm_map_page os rgn offset =
     bnd (sys (os_vm_map os (page_addr rgn offset) (of_nat (os_page os)) (r_tag rgn) False)) (\<lambda>r.
       case r of
         None \<Rightarrow> ret (- 1)
       | Some addr \<Rightarrow> sq (assert_p (r_start rgn = addr)) (ret 0))"

definition ckpt_vm_page_restore :: "('w, 'm) vm_os_scheme \<Rightarrow> fd \<Rightarrow> xnd_vm_region \<Rightarrow> u64 \<Rightarrow> ('w, int) prog" where
  "ckpt_vm_page_restore os fd rgn offset =
     bnd (read_mem os fd (page_addr rgn offset) (os_page os)) (\<lambda>bytes.
       if bytes = os_page os then ret 0
       else
         bnd (gets (os_errno os)) (\<lambda>errno.
           if errno \<noteq> EFAULT then ret (- 1)
           else
             sq (assert_p (bytes = 0))
            (bnd (ckpt_vm_map_page os rgn offset) (\<lambda>e.
               if e \<noteq> 0 then ret (- 1)
               else
                 bnd (read_mem os fd (page_addr rgn offset) (os_page os)) (\<lambda>bytes.
                   if bytes \<noteq> os_page os then ret (- 1)
                   else bnd (ckpt_vm_refresh_page os rgn offset) (\<lambda>_. ret 0))))))"

text \<open>\<^verbatim>\<open>sizeof(struct xnd_vm_page)\<close> is eight, the offset of the page in its region.\<close>

fun restore_pages_loop :: "('w, 'm) vm_os_scheme \<Rightarrow> fd \<Rightarrow> xnd_vm_region \<Rightarrow> nat \<Rightarrow> ('w, int) prog" where
  "restore_pages_loop os fd rgn 0 = ret 0"
| "restore_pages_loop os fd rgn (Suc n) =
     bnd (read_bytes os fd 8) (\<lambda>b.
       if length b \<noteq> 8 then ret (- 1)
       else
         bnd (ckpt_vm_page_restore os fd rgn (word_le b)) (\<lambda>e.
           if e \<noteq> 0 then ret (- 1) else restore_pages_loop os fd rgn n))"

definition ckpt_vm_restore_pages :: "('w, 'm) vm_os_scheme \<Rightarrow> fd \<Rightarrow> xnd_vm_region \<Rightarrow> ('w, int) prog" where
  "ckpt_vm_restore_pages os fd rgn = restore_pages_loop os fd rgn (unat (r_pages_dirtied rgn))"

definition fix_task_self :: "('w, 'm) vm_os_scheme \<Rightarrow> xnd_vm_region \<Rightarrow> ('w, unit) prog" where
  "fix_task_self os region =
     (if IN_VM_RANGE (os_task_self_addr os) (r_start region) (r_start region + r_size region)
      then modify (os_fix_task_self os) else ret ())"

definition ckpt_vm_restore_region_pages :: "('w, 'm) vm_os_scheme \<Rightarrow> fd \<Rightarrow> xnd_vm_region \<Rightarrow> ('w, int) prog" where
  "ckpt_vm_restore_region_pages os fd region =
     (let shared = DYLD_SHARED_CACHE_REGION os (r_start region) (r_size region) in
      bnd (if shared then ckpt_vm_protect os region False (VM_PROT_READ OR VM_PROT_WRITE OR VM_PROT_COPY)
           else ckpt_vm_map_region os region) (\<lambda>r.
        if r \<noteq> 0 then ret (- 1)
        else
          bnd (ckpt_vm_restore_pages os fd region) (\<lambda>r.
            if r \<noteq> 0 then ret (- 1)
            else
              sq (fix_task_self os region)
                 (if shared then ckpt_vm_protect os region False (r_prot region)
                  else ckpt_vm_refresh_region os region))))"

definition ckpt_vm_restore_region :: "('w, 'm) vm_os_scheme \<Rightarrow> fd \<Rightarrow> xnd_vm_region \<Rightarrow> ('w, int) prog" where
  "ckpt_vm_restore_region os fd region =
     (if ONLY_RESTORE_DIRTY_PAGES os region \<and> r_dirty_only region
      then ckpt_vm_restore_region_pages os fd region
      else
        bnd (ckpt_vm_map_region os region) (\<lambda>e.
          if e \<noteq> 0 then ret (- 1)
          else
            bnd (read_mem os fd (r_start region) (unat (r_size region))) (\<lambda>bread.
              if bread \<noteq> unat (r_size region) then ret (- 1)
              else
                sq (fix_task_self os region)
               (bnd (ckpt_vm_refresh_region os region) (\<lambda>e.
                  ret (if e \<noteq> 0 then - 1 else 0))))))"

end
