(* ===== verification/Image.thy ===== *)
theory Image
  imports Vm Env
begin

text \<open>
  \<^verbatim>\<open>writeckpt.c\<close> and \<^verbatim>\<open>readckpt.c\<close>: the checkpoint file of a process.
  After the header come the entries, each a four-byte code and its contents: a region, with all
  of its memory or with its dirty pages only, or the context of the thread that took the
  checkpoint.

  Structures are written as their memory images: fields little-endian at their offsets,
  padding as zeros.
\<close>

section \<open>Memory images\<close>

definition sizeof_region :: nat where "sizeof_region = 48"

definition region_bytes :: "xnd_vm_region \<Rightarrow> bytes" where
  "region_bytes r =
     le_word 8 (r_start r) @ le_word 8 (r_size r) @
     le_word 4 (r_inherit r) @ le_word 4 (r_prot r) @ le_word 4 (r_max_prot r) @
     le_word 4 (r_mode r) @ le_word 4 (r_tag r) @ le_word 4 (r_pages_dirtied r) @
     [if r_dirty_only r then 1 else 0] @ replicate 7 0"

definition region_of_bytes :: "bytes \<Rightarrow> xnd_vm_region" where
  "region_of_bytes b =
     \<lparr> r_start = word_le (take 8 b), r_size = word_le (take 8 (drop 8 b)),
       r_inherit = word_le (take 4 (drop 16 b)), r_prot = word_le (take 4 (drop 20 b)),
       r_max_prot = word_le (take 4 (drop 24 b)), r_mode = word_le (take 4 (drop 28 b)),
       r_tag = word_le (take 4 (drop 32 b)), r_pages_dirtied = word_le (take 4 (drop 36 b)),
       r_dirty_only = (b ! 40 \<noteq> 0) \<rparr>"

definition sizeof_header :: nat where "sizeof_header = 120"

definition header_bytes :: "xnd_ckpt_header \<Rightarrow> bytes" where
  "header_bytes h =
     h_magic h @ h_xnd_uuid h @
     le_word 4 (h_xnd_pid h) @ le_word 4 (h_xnd_ppid h) @ le_word 4 (h_xnd_pgid h) @
     le_word 4 (h_pid h) @ le_word 4 (h_ppid h) @ le_word 4 (h_pgid h) @ le_word 4 (h_sid h) @
     le_word 4 (h_task_self h) @ le_word 4 (h_host_self h) @
     le_word 4 (h_num_peers h) @ le_word 4 (h_is_root_of_tree h) @
     le_word 4 (h_entry_count h) @ le_word 4 (h_region_count h) @ replicate 4 0 @
     le_word 8 (sc_base (h_shared_cache_info h)) @ le_word 8 (sc_size (h_shared_cache_info h)) @
     sc_uuid (h_shared_cache_info h)"

datatype xnd_ckpt_entry = XND_VM_REGION_ENTRY | XND_VM_PAGE_ENTRY | XND_UCONTEXT_ENTRY

fun entry_code :: "xnd_ckpt_entry \<Rightarrow> nat" where
  "entry_code XND_VM_REGION_ENTRY = 0"
| "entry_code XND_VM_PAGE_ENTRY = 1"
| "entry_code XND_UCONTEXT_ENTRY = 2"

definition entry_bytes :: "xnd_ckpt_entry \<Rightarrow> bytes" where
  "entry_bytes e = le_bytes 4 (entry_code e)"

text \<open>
  The saved context is the memory image of a \<^verbatim>\<open>ucontext_t\<close>, whose size and the
  relocation of whose \<^verbatim>\<open>uc_mcontext\<close> pointer belong to the system.
\<close>

record ucontext_abi =
  uc_size :: nat
  uc_relocate :: "bytes \<Rightarrow> bytes"

section \<open>Writing a region\<close>

text \<open>\<^verbatim>\<open>writeall(fd, addr, n)\<close> from the memory of the process.\<close>

definition write_mem :: "('w, 'm) vm_os_scheme \<Rightarrow> fd \<Rightarrow> u64 \<Rightarrow> nat \<Rightarrow> ('w, nat) prog" where
  "write_mem os fd addr n =
     bnd (gets (os_load os addr n)) (\<lambda>buf w. map_option (\<lambda>(k, w'). (Inr k, w'))
       (writeall (\<lambda>b. os_write_from os fd (addr + of_nat (n - length b)) b) buf w))"

definition write_vm_page :: "('w, 'm) vm_os_scheme \<Rightarrow> fd \<Rightarrow> xnd_vm_region \<Rightarrow> u64 \<Rightarrow> ('w, int) prog" where
  "write_vm_page os fd region offset =
     bnd (write_bytes os fd (le_word 8 offset)) (\<lambda>bytes.
       if bytes \<noteq> 8 then ret (- 1)
       else
         bnd (write_mem os fd (page_addr region offset) (os_page os)) (\<lambda>bytes.
           ret (if bytes \<noteq> os_page os then - 1 else 0)))"

definition page_dirty :: "u32 \<Rightarrow> bool" where
  "page_dirty v \<longleftrightarrow> v AND VM_PAGE_QUERY_PAGE_DIRTY \<noteq> 0"

text \<open>
  The second loop over the page vector: \<open>idx\<close> is the index of the next page,
  \<open>done\<close> the number of pages written.
\<close>

fun write_dirty_loop ::
  "('w, 'm) vm_os_scheme \<Rightarrow> fd \<Rightarrow> xnd_vm_region \<Rightarrow> nat \<Rightarrow> nat \<Rightarrow> nat \<Rightarrow> u32 list \<Rightarrow> ('w, int) prog" where
  "write_dirty_loop os fd region dirty idx wrote [] = sq (assert_p (wrote = dirty)) (ret 0)"
| "write_dirty_loop os fd region dirty idx wrote (v # vs) =
     (if wrote \<ge> dirty then sq (assert_p (idx \<ge> dirty)) (sq (assert_p (wrote = dirty)) (ret 0))
      else if page_dirty v then
        bnd (write_vm_page os fd region (of_nat (idx * os_page os))) (\<lambda>e.
          if e \<noteq> 0 then ret (- 1) else write_dirty_loop os fd region dirty (idx + 1) (wrote + 1) vs)
      else write_dirty_loop os fd region dirty (idx + 1) wrote vs)"

text \<open>
  The functions that change the region answer it too. The kernel reports one element per page;
  another length fails the assertion.
\<close>

definition write_vm_region_dirty ::
  "('w, 'm) vm_os_scheme \<Rightarrow> fd \<Rightarrow> xnd_vm_region \<Rightarrow> ('w, int \<times> xnd_vm_region) prog" where
  "write_vm_region_dirty os fd region =
     sq (assert_p (unat (r_size region) mod os_page os = 0))
    (bnd (sys (os_vm_page_query os (r_start region) (r_size region))) (\<lambda>q.
       case q of
         None \<Rightarrow> ret (- 1, region)
       | Some vec \<Rightarrow>
           sq (assert_p (length vec = unat (r_size region) div os_page os))
             (let dirty = length (filter page_dirty vec);
                  region = region\<lparr> r_pages_dirtied := of_nat dirty \<rparr>
              in bnd (write_bytes os fd (region_bytes region)) (\<lambda>bytes.
                   if bytes \<noteq> sizeof_region then ret (- 1, region)
                   else bnd (write_dirty_loop os fd region dirty 0 0 vec) (\<lambda>e. ret (e, region))))))"

text \<open>
  Writing one page at a time; the answer is the number of pages before the first that was not
  written completely. After a partial write the file offset is set to \<open>seek - bytes\<close>.
\<close>

fun all_pages_loop ::
  "('w, 'm) vm_os_scheme \<Rightarrow> fd \<Rightarrow> xnd_vm_region \<Rightarrow> int \<Rightarrow> nat \<Rightarrow> nat \<Rightarrow> ('w, nat) prog" where
  "all_pages_loop os fd region seek p 0 = ret p"
| "all_pages_loop os fd region seek p (Suc n) =
     bnd (write_mem os fd (page_addr region (of_nat (p * os_page os))) (os_page os)) (\<lambda>bytes.
       if bytes \<noteq> os_page os then
         (if bytes \<noteq> 0
          then bnd (sys (os_seek os fd (seek - int bytes))) (\<lambda>r. sq (assert_p (r \<noteq> - 1)) (ret p))
          else ret p)
       else all_pages_loop os fd region (seek + int (os_page os)) (p + 1) n)"

definition write_vm_region_all_pages :: "('w, 'm) vm_os_scheme \<Rightarrow> fd \<Rightarrow> xnd_vm_region \<Rightarrow> ('w, nat) prog" where
  "write_vm_region_all_pages os fd region =
     bnd (sys (os_tell os fd)) (\<lambda>seek.
     sq (assert_p (seek \<noteq> - 1))
        (all_pages_loop os fd region seek 0 (unat (r_size region) div os_page os)))"

text \<open>The cost of saving dirty pages only, a product of \<^verbatim>\<open>size_t\<close>s.\<close>

definition dirty_cost :: "nat \<Rightarrow> xnd_vm_region \<Rightarrow> u64" where
  "dirty_cost page region = ucast (r_pages_dirtied region) * (8 + of_nat page)"

text \<open>The end of the function: the protection of the region is put back.\<close>

definition reprotect :: "('w, 'm) vm_os_scheme \<Rightarrow> bool \<Rightarrow> xnd_vm_region \<Rightarrow> ('w, unit) prog" where
  "reprotect os read_protect region =
     (if read_protect then bnd (ckpt_vm_protect os region False (r_prot region)) (\<lambda>_. ret ()) else ret ())"

text \<open>The region after a write that ended early: its size is corrected in the file.\<close>

definition shrink_region ::
  "('w, 'm) vm_os_scheme \<Rightarrow> fd \<Rightarrow> xnd_vm_region \<Rightarrow> int \<Rightarrow> nat \<Rightarrow> bool \<Rightarrow> ('w, int \<times> xnd_vm_region) prog" where
  "shrink_region os fd region before pages read_protect =
     bnd (sys (os_tell os fd)) (\<lambda>after.
     sq (assert_p (after \<noteq> - 1))
    (bnd (sys (os_seek os fd before)) (\<lambda>r.
       if r < 0 then ret (- 1, region)
       else
         (let region = region\<lparr> r_size := of_nat (pages * os_page os) \<rparr> in
          bnd (write_bytes os fd (region_bytes region)) (\<lambda>bytes.
            if bytes \<noteq> sizeof_region then ret (- 1, region)
            else
              bnd (sys (os_seek os fd after)) (\<lambda>r.
                if r < 0 then ret (- 1, region)
                else sq (reprotect os read_protect region) (ret (0, region))))))))"

definition write_vm_region_full ::
  "('w, 'm) vm_os_scheme \<Rightarrow> fd \<Rightarrow> xnd_vm_region \<Rightarrow> ('w, int \<times> xnd_vm_region) prog" where
  "write_vm_region_full os fd region =
     bnd (sys (os_tell os fd)) (\<lambda>before.
     sq (assert_p (before \<noteq> - 1))
    (bnd (write_bytes os fd (region_bytes region)) (\<lambda>bytes.
       if bytes \<noteq> sizeof_region then ret (- 1, region)
       else
         (let read_protect = (r_prot region AND VM_PROT_READ = 0) in
          bnd (if read_protect then ckpt_vm_protect os region False (r_prot region OR VM_PROT_READ) else ret 0) (\<lambda>e.
            if e \<noteq> 0 then ret (- 1, region)
            else
              bnd (write_vm_region_all_pages os fd region) (\<lambda>pages.
                if pages = unat (r_size region) div os_page os
                then sq (reprotect os read_protect region) (ret (0, region))
                else shrink_region os fd region before pages read_protect))))))"

definition write_vm_region ::
  "('w, 'm) vm_os_scheme \<Rightarrow> fd \<Rightarrow> xnd_vm_region \<Rightarrow> ('w, int \<times> xnd_vm_region) prog" where
  "write_vm_region os fd region =
     (if ONLY_SAVE_DIRTY_PAGES os region then
        (if dirty_cost (os_page os) region < r_size region + of_nat sizeof_region
         then write_vm_region_dirty os fd (region\<lparr> r_dirty_only := True \<rparr>)
         else write_vm_region_full os fd (region\<lparr> r_dirty_only := False \<rparr>))
      else write_vm_region_full os fd region)"

section \<open>The checkpoint file\<close>

definition write_context :: "('w, 'm) vm_os_scheme \<Rightarrow> fd \<Rightarrow> bytes \<Rightarrow> ('w, int) prog" where
  "write_context os fd uctx =
     bnd (write_bytes os fd uctx) (\<lambda>bytes. ret (if bytes \<noteq> length uctx then - 1 else 0))"

text \<open>
  The loop over the entries. Taking a region when none is left reads past the array.
\<close>

fun write_entries ::
  "('w, 'm) vm_os_scheme \<Rightarrow> fd \<Rightarrow> xnd_ckpt_entry list \<Rightarrow> xnd_vm_region list \<Rightarrow> bytes \<Rightarrow> ('w, int) prog" where
  "write_entries os fd [] regions uctx = ret 0"
| "write_entries os fd (e # es) regions uctx =
     bnd (write_bytes os fd (entry_bytes e)) (\<lambda>bytes.
       if bytes \<noteq> 4 then ret (- 1)
       else
         (case e of
            XND_VM_REGION_ENTRY \<Rightarrow>
              (case regions of
                 [] \<Rightarrow> halt Undefined
               | r # rs \<Rightarrow>
                   bnd (write_vm_region os fd r) (\<lambda>(err, _).
                     if err \<noteq> 0 then ret (- 1) else write_entries os fd es rs uctx))
          | XND_UCONTEXT_ENTRY \<Rightarrow>
              bnd (write_context os fd uctx) (\<lambda>err.
                if err \<noteq> 0 then ret (- 1) else write_entries os fd es regions uctx)
          | XND_VM_PAGE_ENTRY \<Rightarrow> halt Aborted))"

text \<open>
  The compression of the finished file is a call of another component (\<open>compress\<close>). The
  two descriptors are closed on every way out.
\<close>

definition write_ckpt ::
  "('w, 'm) vm_os_scheme \<Rightarrow> (fd \<Rightarrow> string \<Rightarrow> ('w, int) prog) \<Rightarrow> u64 \<Rightarrow> u32 \<Rightarrow>
     xnd_ckpt_header \<Rightarrow> xnd_ckpt_entry list \<Rightarrow> xnd_vm_region list \<Rightarrow> bytes \<Rightarrow> ('w, int) prog" where
  "write_ckpt os compress epoch xnd_pid header entries regions uctx =
     bnd (gets (\<lambda>w. env_use_zlib_compression (\<lambda>var. os_getenv os var w))) (\<lambda>use_zlib.
     let ckptfile = the (snd (xnd_ckptfile_name XND_CKPTFILE_MAXLEN xnd_pid)) in
     bnd (xnd_ckptdir_open os (h_xnd_uuid header) epoch) (\<lambda>dirfd.
       if dirfd < 0 then ret (- 1)
       else
         bnd (xnd_ckptfile_create os dirfd ckptfile) (\<lambda>fd.
           if fd < 0 then sq (modify (os_close os dirfd)) (ret (- 1))
           else
             bnd (bnd (write_bytes os fd (header_bytes header)) (\<lambda>bytes.
                    if bytes \<noteq> sizeof_header then ret (- 1)
                    else if unat (h_entry_count header) > length entries then halt Undefined
                    else
                      bnd (write_entries os fd (take (unat (h_entry_count header)) entries) regions uctx) (\<lambda>err.
                        if err \<noteq> 0 then ret (- 1)
                        else if use_zlib then bnd (compress dirfd ckptfile) (\<lambda>e. ret (if e \<noteq> 0 then - 1 else 0))
                        else ret 0)))
               (\<lambda>r. sq (modify (os_close os dirfd)) (sq (modify (os_close os fd)) (ret r))))))"

section \<open>Reading\<close>

definition read_vm_region :: "('w, 'm) vm_os_scheme \<Rightarrow> fd \<Rightarrow> ('w, xnd_vm_region option) prog" where
  "read_vm_region os fd =
     bnd (read_bytes os fd sizeof_region) (\<lambda>b.
       if length b \<noteq> sizeof_region then ret None
       else
         bnd (ckpt_vm_restore_region os fd (region_of_bytes b)) (\<lambda>e.
           ret (if e < 0 then None else Some (region_of_bytes b))))"

definition read_context :: "('w, 'm) vm_os_scheme \<Rightarrow> ucontext_abi \<Rightarrow> fd \<Rightarrow> ('w, bytes option) prog" where
  "read_context os abi fd =
     bnd (read_bytes os fd (uc_size abi)) (\<lambda>b.
       ret (if length b \<noteq> uc_size abi then None else Some (uc_relocate abi b)))"

text \<open>
  The loop over \<open>n\<close> entries, with the regions and the context read so far; the caller's
  array of regions has \<open>max_regions\<close> elements.
\<close>

fun read_entries ::
  "('w, 'm) vm_os_scheme \<Rightarrow> ucontext_abi \<Rightarrow> fd \<Rightarrow> nat \<Rightarrow> nat \<Rightarrow> xnd_vm_region list \<Rightarrow> bytes option
     \<Rightarrow> ('w, (xnd_vm_region list \<times> bytes option) option) prog" where
  "read_entries os abi fd max_regions 0 regions uctx = ret (Some (regions, uctx))"
| "read_entries os abi fd max_regions (Suc n) regions uctx =
     bnd (read_bytes os fd 4) (\<lambda>b.
       if length b \<noteq> 4 then ret None
       else if le_value b = 0 then
         (if length regions \<ge> max_regions then halt Undefined
          else
            bnd (read_vm_region os fd) (\<lambda>r. case r of
                None \<Rightarrow> ret None
              | Some region \<Rightarrow> read_entries os abi fd max_regions n (regions @ [region]) uctx))
       else if le_value b = 2 then
         bnd (read_context os abi fd) (\<lambda>c. case c of
             None \<Rightarrow> ret None
           | Some ctx \<Rightarrow> read_entries os abi fd max_regions n regions (Some ctx))
       else ret None)"

definition read_ckpt ::
  "('w, 'm) vm_os_scheme \<Rightarrow> ucontext_abi \<Rightarrow> fd \<Rightarrow> nat \<Rightarrow> nat
     \<Rightarrow> ('w, (xnd_vm_region list \<times> bytes option) option) prog" where
  "read_ckpt os abi fd entry_count region_count =
     bnd (read_entries os abi fd region_count entry_count [] None) (\<lambda>r.
     sq (modify (os_close os fd)) (ret r))"

end
