(* ===== verification/Kernel.thy ===== *)
theory Kernel
  imports Image
begin

text \<open>
  The part of the kernel that the checkpoint image depends on: one open regular file, the memory
  of the process with its permissions and the dirty state of its pages. It gives the calls of
  \<^theory_text>\<open>vm_os\<close> that work on files and memory their documented behaviour, over an
  arbitrary rest of the system, and meets the contract of the transfer loops.
\<close>

record kern =
  k_file :: rfile
  k_mem :: "u64 \<Rightarrow> u8"
  k_readable :: "u64 \<Rightarrow> bool"
  k_writable :: "u64 \<Rightarrow> bool"
  k_dirty :: "u64 \<Rightarrow> bool"
  k_errno :: int
  k_port :: "u64 \<Rightarrow> u8"

text \<open>The \<open>n\<close> bytes from \<open>a\<close> on, modulo the size of the address space.\<close>

definition in_range :: "u64 \<Rightarrow> nat \<Rightarrow> u64 \<Rightarrow> bool" where
  "in_range a n x \<longleftrightarrow> unat (x - a) < n"

definition mem_bytes :: "(u64 \<Rightarrow> u8) \<Rightarrow> u64 \<Rightarrow> nat \<Rightarrow> bytes" where
  "mem_bytes m a n = map (\<lambda>i. m (a + of_nat i)) [0..<n]"

definition mem_store :: "u64 \<Rightarrow> bytes \<Rightarrow> (u64 \<Rightarrow> u8) \<Rightarrow> u64 \<Rightarrow> u8" where
  "mem_store a b m = (\<lambda>x. if in_range a (length b) x then b ! unat (x - a) else m x)"

definition k_write :: "bytes \<Rightarrow> kern \<Rightarrow> int \<times> kern" where
  "k_write b k = (case file_write b (k_file k) of (r, f) \<Rightarrow> (r, k\<lparr> k_file := f \<rparr>))"

definition k_read :: "nat \<Rightarrow> kern \<Rightarrow> bytes option \<times> kern" where
  "k_read n k = (case file_read n (k_file k) of (r, f) \<Rightarrow> (r, k\<lparr> k_file := f \<rparr>))"

definition k_write_from :: "u64 \<Rightarrow> bytes \<Rightarrow> kern \<Rightarrow> int \<times> kern" where
  "k_write_from a b k =
     (if \<forall>i < length b. k_readable k (a + of_nat i) then k_write b k
      else (- 1, k\<lparr> k_errno := EFAULT \<rparr>))"

definition k_read_to :: "u64 \<Rightarrow> nat \<Rightarrow> kern \<Rightarrow> bytes option \<times> kern" where
  "k_read_to a n k =
     (if \<forall>i < n. k_writable k (a + of_nat i) then k_read n k
      else (None, k\<lparr> k_errno := EFAULT \<rparr>))"

definition k_seek :: "int \<Rightarrow> kern \<Rightarrow> int \<times> kern" where
  "k_seek off k = (case file_seek off (k_file k) of (r, f) \<Rightarrow> (r, k\<lparr> k_file := f \<rparr>))"

definition k_protect :: "u64 \<Rightarrow> u64 \<Rightarrow> bool \<Rightarrow> u32 \<Rightarrow> kern \<Rightarrow> bool \<times> kern" where
  "k_protect a n mx prot k =
     (True,
      if mx then k
      else k\<lparr> k_readable := (\<lambda>x. if in_range a (unat n) x then prot AND VM_PROT_READ \<noteq> 0 else k_readable k x),
              k_writable := (\<lambda>x. if in_range a (unat n) x then prot AND VM_PROT_WRITE \<noteq> 0 else k_writable k x) \<rparr>)"

definition k_map :: "u64 \<Rightarrow> u64 \<Rightarrow> u32 \<Rightarrow> bool \<Rightarrow> kern \<Rightarrow> u64 option \<times> kern" where
  "k_map a n tag ow k =
     (Some a,
      k\<lparr> k_mem := (\<lambda>x. if in_range a (unat n) x then 0 else k_mem k x),
         k_readable := (\<lambda>x. in_range a (unat n) x \<or> k_readable k x),
         k_writable := (\<lambda>x. in_range a (unat n) x \<or> k_writable k x) \<rparr>)"

definition k_query :: "nat \<Rightarrow> u64 \<Rightarrow> u64 \<Rightarrow> kern \<Rightarrow> u32 list option \<times> kern" where
  "k_query page a n k =
     (Some (map (\<lambda>i. if k_dirty k (a + of_nat (i * page)) then VM_PAGE_QUERY_PAGE_DIRTY else 0)
              [0..<unat n div page]), k)"

definition k_fix :: "u64 \<Rightarrow> kern \<Rightarrow> kern" where
  "k_fix tsa k = k\<lparr> k_mem := (\<lambda>x. if in_range tsa 4 x then k_port k x else k_mem k x) \<rparr>"

text \<open>A system with this kernel under it.\<close>

definition kern_os :: "(kern, 'm) vm_os_scheme \<Rightarrow> (kern, 'm) vm_os_scheme" where
  "kern_os base = base\<lparr>
     os_write := \<lambda>_. k_write, os_read := \<lambda>_. k_read,
     os_load := \<lambda>a n k. mem_bytes (k_mem k) a n,
     os_store := \<lambda>a b k. k\<lparr> k_mem := mem_store a b (k_mem k) \<rparr>,
     os_write_from := \<lambda>_. k_write_from, os_read_to := \<lambda>_. k_read_to,
     os_errno := k_errno,
     os_tell := \<lambda>_ k. (int (f_pos (k_file k)), k), os_seek := \<lambda>_. k_seek,
     os_vm_protect := k_protect, os_vm_inherit := \<lambda>_ _ _ k. (True, k),
     os_vm_map := k_map, os_vm_page_query := k_query (os_page base),
     os_fix_task_self := k_fix (os_task_self_addr base) \<rparr>"

lemma kern_os_sel [simp]:
  "os_write (kern_os base) = (\<lambda>_. k_write)" "os_read (kern_os base) = (\<lambda>_. k_read)"
  "os_load (kern_os base) = (\<lambda>a n k. mem_bytes (k_mem k) a n)"
  "os_store (kern_os base) = (\<lambda>a b k. k\<lparr> k_mem := mem_store a b (k_mem k) \<rparr>)"
  "os_write_from (kern_os base) = (\<lambda>_. k_write_from)" "os_read_to (kern_os base) = (\<lambda>_. k_read_to)"
  "os_tell (kern_os base) = (\<lambda>_ k. (int (f_pos (k_file k)), k))" "os_seek (kern_os base) = (\<lambda>_. k_seek)"
  "os_vm_protect (kern_os base) = k_protect" "os_vm_inherit (kern_os base) = (\<lambda>_ _ _ k. (True, k))"
  "os_vm_map (kern_os base) = k_map" "os_vm_page_query (kern_os base) = k_query (os_page base)"
  "os_fix_task_self (kern_os base) = k_fix (os_task_self_addr base)"
  "os_page (kern_os base) = os_page base"
  "os_shared_base (kern_os base) = os_shared_base base" "os_shared_size (kern_os base) = os_shared_size base"
  "os_task_self_addr (kern_os base) = os_task_self_addr base"
  by (simp_all add: kern_os_def)

lemma kern_os_region [simp]:
  "DYLD_SHARED_CACHE_REGION (kern_os base) = DYLD_SHARED_CACHE_REGION base"
  "ONLY_RESTORE_DIRTY_PAGES (kern_os base) = ONLY_RESTORE_DIRTY_PAGES base"
  "ONLY_SAVE_DIRTY_PAGES (kern_os base) = ONLY_SAVE_DIRTY_PAGES base"
  by (simp_all add: fun_eq_iff DYLD_SHARED_CACHE_REGION_def ONLY_RESTORE_DIRTY_PAGES_def ONLY_SAVE_DIRTY_PAGES_def)

section \<open>Memory\<close>

lemma mem_bytes_length [simp]: "length (mem_bytes m a n) = n"
  by (simp add: mem_bytes_def)

lemma mem_bytes_nth [simp]: "i < n \<Longrightarrow> mem_bytes m a n ! i = m (a + of_nat i)"
  by (simp add: mem_bytes_def)

lemma mem_bytes_append: "mem_bytes m a (n + k) = mem_bytes m a n @ mem_bytes m (a + of_nat n) k"
  by (rule nth_equalityI) (auto simp: nth_append add.assoc simp flip: of_nat_add)

lemma in_range_index: "in_range a n x \<Longrightarrow> a + of_nat (unat (x - a)) = x"
  by simp

lemma in_range_offset: "i < n \<Longrightarrow> n \<le> 2 ^ 64 \<Longrightarrow> in_range a n (a + of_nat i)"
  by (simp add: in_range_def unat_of_nat)

text \<open>Storing what was loaded from another memory copies the range.\<close>

lemma mem_store_bytes: "mem_store a (mem_bytes m a n) m' = (\<lambda>x. if in_range a n x then m x else m' x)"
  by (auto simp: mem_store_def fun_eq_iff in_range_def)

section \<open>Transfers without failures\<close>

definition no_failures :: "kern \<Rightarrow> bool" where
  "no_failures k \<longleftrightarrow> None \<notin> set (f_sched (k_file k))"

definition only_file :: "kern \<Rightarrow> kern \<Rightarrow> bool" where
  "only_file k k' \<longleftrightarrow> k_mem k' = k_mem k \<and> k_readable k' = k_readable k \<and> k_writable k' = k_writable k \<and>
     k_dirty k' = k_dirty k \<and> k_port k' = k_port k"

lemma only_file_refl [simp]: "only_file k k"
  by (simp add: only_file_def)

lemma only_file_trans: "only_file k1 k2 \<Longrightarrow> only_file k2 k3 \<Longrightarrow> only_file k1 k3"
  by (simp add: only_file_def)

lemma file_limit_ok: "None \<notin> set sched \<Longrightarrow> file_limit sched n \<noteq> None"
  by (auto simp: file_limit_def split: list.splits option.splits)

lemma set_tl: "x \<in> set (tl xs) \<Longrightarrow> x \<in> set xs"
  by (cases xs) auto

lemma k_write_ok:
  assumes "no_failures k" and "k_write b k = (r, k')"
  shows "r \<noteq> - 1 \<and> no_failures k' \<and> only_file k k'"
  using assms file_limit_ok [of "f_sched (k_file k)" "length b"]
  by (auto simp: k_write_def file_write_def no_failures_def only_file_def split: prod.splits option.splits
      dest: set_tl)

lemma k_read_ok:
  assumes "no_failures k" and "k_read n k = (r, k')"
  shows "r \<noteq> None \<and> no_failures k' \<and> only_file k k'"
  using assms file_limit_ok [of "f_sched (k_file k)" n]
  by (auto simp: k_read_def file_read_def no_failures_def only_file_def Let_def split: prod.splits option.splits
      dest: set_tl)

text \<open>
  \<open>appended b k k'\<close>: the file of \<open>k'\<close> is that of \<open>k\<close> with
  \<open>b\<close> at its end; memory is unchanged and no transfer will fail.
  \<open>consumed b k k'\<close>: what is left of the file of \<open>k\<close> starts with
  \<open>b\<close>, and that has been read.
\<close>

definition appended :: "bytes \<Rightarrow> kern \<Rightarrow> kern \<Rightarrow> bool" where
  "appended b k k' \<longleftrightarrow> no_failures k' \<and> at_end (k_file k') \<and>
     f_data (k_file k') = f_data (k_file k) @ b \<and> only_file k k'"

lemma appended_trans: "appended b k1 k2 \<Longrightarrow> appended c k2 k3 \<Longrightarrow> appended (b @ c) k1 k3"
  by (auto simp: appended_def intro: only_file_trans)

definition ready :: "kern \<Rightarrow> bool" where
  "ready k \<longleftrightarrow> no_failures k \<and> at_end (k_file k)"

lemma appended_ready: "appended b k k' \<Longrightarrow> ready k'"
  by (simp add: appended_def ready_def)

lemma ready_appended: "ready k \<Longrightarrow> appended [] k k"
  by (simp add: appended_def ready_def)

text \<open>The kernel's calls provide the contract of the transfer loops.\<close>

lemma kern_writer:
  "byte_writer (\<lambda>b k. if ok b k then k_write b k else (- 1, k\<lparr> k_errno := EFAULT \<rparr>))
     (\<lambda>k. ready k \<and> only_file k0 k) (\<lambda>k. f_data (k_file k))"
proof (unfold_locales, goal_cases)
  case (1 k b r k')
  show ?case
  proof (cases "ok b k")
    case False
    then show ?thesis
      using 1 by (auto simp: ready_def no_failures_def only_file_def)
  next
    case True
    obtain f' where f': "file_write b (k_file k) = (r, f')" "k' = k\<lparr> k_file := f' \<rparr>"
      using 1(2) True by (auto simp: k_write_def split: prod.splits)
    have "k_write b k = (r, k')" using 1(2) True by simp
    from k_write_ok [OF _ this] 1 have "no_failures k'" "only_file k k'" "r \<noteq> - 1"
      by (auto simp: ready_def)
    moreover have "at_end (k_file k)" using 1(1) by (simp add: ready_def)
    ultimately show ?thesis
      using fw.wr_step [OF _ f'(1)] 1(1) f'(2) by (auto simp: ready_def intro: only_file_trans)
  qed
qed

lemma kern_reader:
  "byte_reader (\<lambda>n k. if ok n k then k_read n k else (None, k\<lparr> k_errno := EFAULT \<rparr>))
     (\<lambda>k. no_failures k \<and> only_file k0 k) (\<lambda>k. file_left (k_file k))"
proof (unfold_locales, goal_cases)
  case (1 k n r k')
  show ?case
  proof (cases "ok n k")
    case False
    then show ?thesis
      using 1 by (auto simp: no_failures_def only_file_def)
  next
    case True
    obtain f' where f': "file_read n (k_file k) = (r, f')" "k' = k\<lparr> k_file := f' \<rparr>"
      using 1(2) True by (auto simp: k_read_def split: prod.splits)
    have "k_read n k = (r, k')" using 1(2) True by simp
    from k_read_ok [OF _ this] 1 have "no_failures k'" "only_file k k'" by auto
    then show ?thesis
      using fr.rd_step [OF _ f'(1)] 1(1) f'(2) by (auto split: option.splits intro: only_file_trans)
  qed
qed

lemma runs_sys [simp]: "runs (sys f) Q w = Q (fst (f w)) (snd (f w))"
  by (simp add: runs_def sys_def split: prod.splits)

lemma runs_write_bytes:
  assumes "ready k"
  shows "runs (write_bytes (kern_os base) fd b) (\<lambda>n k'. n = length b \<and> appended b k k') k"
proof -
  have wr: "byte_writer k_write (\<lambda>k'. ready k' \<and> only_file k k') (\<lambda>k. f_data (k_file k))"
    using kern_writer [of "\<lambda>_ _. True" k] by simp
  have "r \<noteq> - 1" if "ready k1 \<and> only_file k k1" "k_write (drop i b) k1 = (r, k2)" for i k1 r k2
    using k_write_ok [of k1] that by (auto simp: ready_def)
  from byte_writer.writeall_all [OF wr _ this] assms show ?thesis
    by (fastforce simp: runs_def write_bytes_def appended_def ready_def)
qed

lemma runs_write_mem:
  assumes "ready k" and readable: "\<And>i. i < n \<Longrightarrow> k_readable k (a + of_nat i)"
  shows "runs (write_mem (kern_os base) fd a n) (\<lambda>m k'. m = n \<and> appended (mem_bytes (k_mem k) a n) k k') k"
proof -
  let ?buf = "mem_bytes (k_mem k) a n"
  let ?wr = "\<lambda>b. k_write_from (a + of_nat (n - length b)) b"
  have wr: "byte_writer ?wr (\<lambda>k'. ready k' \<and> only_file k k') (\<lambda>k. f_data (k_file k))"
    using kern_writer [of "\<lambda>b k. \<forall>i < length b. k_readable k (a + of_nat (n - length b) + of_nat i)" k]
    by (simp add: k_write_from_def [abs_def])
  have "r \<noteq> - 1" if k1: "ready k1 \<and> only_file k k1" and run: "?wr (drop i ?buf) k1 = (r, k2)" for i k1 r k2
  proof -
    have "k_readable k1 (a + of_nat (n - (n - i)) + of_nat j)" if "j < n - i" for j
      using readable [of "i + j"] that k1 by (simp add: only_file_def add.assoc)
    then have "k_write (drop i ?buf) k1 = (r, k2)"
      using run by (simp add: k_write_from_def [abs_def])
    then show ?thesis using k_write_ok [of k1] k1 by (auto simp: ready_def)
  qed
  note ok = this
  have "\<exists>k'. writeall ?wr ?buf k = Some (length ?buf, k') \<and> (ready k' \<and> only_file k k') \<and>
      f_data (k_file k') = f_data (k_file k) @ ?buf"
    by (rule byte_writer.writeall_all [OF wr]) (simp add: assms(1), rule ok)
  then obtain k' where
    "writeall ?wr ?buf k = Some (length ?buf, k')" "ready k'" "only_file k k'"
    "f_data (k_file k') = f_data (k_file k) @ ?buf"
    by blast
  then show ?thesis
    by (simp add: write_mem_def runs_def gets_def bnd_def appended_def ready_def)
qed

lemma runs_read_bytes:
  assumes "no_failures k" and "file_left (k_file k) = b @ rest" and "length b = n"
  shows "runs (read_bytes (kern_os base) fd n)
     (\<lambda>c k'. c = b \<and> no_failures k' \<and> file_left (k_file k') = rest \<and> only_file k k') k"
proof -
  have rd: "byte_reader k_read (\<lambda>k'. no_failures k' \<and> only_file k k') (\<lambda>k. file_left (k_file k))"
    using kern_reader [of "\<lambda>_ _. True" k] by simp
  have "r \<noteq> None" if "no_failures k1 \<and> only_file k k1" "k_read i k1 = (r, k2)" for i k1 r k2
    using k_read_ok [of k1] that by auto
  from byte_reader.readall_all [OF rd _ this assms(2,3)] assms(1) show ?thesis
    by (fastforce simp: runs_def read_bytes_def)
qed

lemma runs_read_mem:
  assumes "no_failures k" and "file_left (k_file k) = b @ rest" and "length b = n"
    and writable: "\<And>i. i < n \<Longrightarrow> k_writable k (a + of_nat i)"
  shows "runs (read_mem (kern_os base) fd a n)
     (\<lambda>m k'. m = n \<and> no_failures k' \<and> file_left (k_file k') = rest \<and>
        only_file (k\<lparr> k_mem := mem_store a b (k_mem k) \<rparr>) k') k"
proof -
  let ?rd = "\<lambda>m. k_read_to (a + of_nat (n - m)) m"
  have rd: "byte_reader ?rd (\<lambda>k'. no_failures k' \<and> only_file k k') (\<lambda>k. file_left (k_file k))"
    using kern_reader [of "\<lambda>m k. \<forall>i < m. k_writable k (a + of_nat (n - m) + of_nat i)" k]
    by (simp add: k_read_to_def [abs_def])
  have "r \<noteq> None" if k1: "no_failures k1 \<and> only_file k k1" and m: "m \<le> n" and run: "?rd m k1 = (r, k2)" for m k1 r k2
  proof -
    have "k_writable k1 (a + of_nat (n - m) + of_nat j)" if "j < m" for j
    proof -
      have "a + of_nat (n - m) + of_nat j = a + of_nat (n - m + j)"
        by (simp only: of_nat_add add.assoc)
      moreover have "n - m + j < n" using that m by simp
      ultimately show ?thesis using writable [of "n - m + j"] k1 by (simp only: only_file_def)
    qed
    then have "k_read m k1 = (r, k2)"
      using run by (simp add: k_read_to_def [abs_def])
    then show ?thesis using k_read_ok [of k1] k1 by auto
  qed
  note ok = this
  have "\<exists>k'. readall ?rd n k = Some (b, k') \<and> (no_failures k' \<and> only_file k k') \<and> file_left (k_file k') = rest"
    by (rule byte_reader.readall_all [OF rd _ _ assms(2,3)]) (simp add: assms(1), rule ok)
  then obtain k' where
    "readall ?rd n k = Some (b, k')" "no_failures k'" "only_file k k'" "file_left (k_file k') = rest"
    by blast
  then show ?thesis
    using assms(3)
    by (simp add: read_mem_def runs_def bnd_def sq_def modify_def ret_def no_failures_def only_file_def)
qed

section \<open>A rest of the system\<close>

text \<open>
  Calls that neither fail nor do anything, with pages of four bytes: under the kernel above, the
  concrete system of the witnesses.
\<close>

definition idle_os :: "(kern, unit) vm_os_scheme" where
  "idle_os =
     \<lparr> os_access = (\<lambda>_ _. True), os_faccessat = (\<lambda>_ _ _. True), os_readdir = (\<lambda>_ _. Some []),
       os_mkdir = (\<lambda>_ w. (0, w)), os_mkdirat = (\<lambda>_ _ w. (0, w)),
       os_unlink = (\<lambda>_ w. (0, w)), os_unlinkat = (\<lambda>_ _ _ w. (0, w)),
       os_open = (\<lambda>_ _ w. (5, w)), os_openat = (\<lambda>_ _ _ w. (6, w)), os_close = (\<lambda>_ w. w),
       os_write = (\<lambda>_. k_write), os_read = (\<lambda>_. k_read),
       os_uuid_unparse = (\<lambda>_. ''u''), os_uuid_parse = (\<lambda>_. Some []),
       os_gone = (\<lambda>_ w. (False, w)), os_kill = (\<lambda>_ _ w. w),
       os_getpid = (\<lambda>_. 50), os_getppid = (\<lambda>_. 40), os_time = (\<lambda>w. (0, w)),
       os_malloc = (\<lambda>w. (True, w)), os_getenv = (\<lambda>_ _. None), os_uuid_generate = (\<lambda>w. ([], w)),
       os_socket = (\<lambda>w. (3, w)), os_bind = (\<lambda>_ _ w. (0, w)), os_listen = (\<lambda>_ _ w. (0, w)),
       os_connect = (\<lambda>_ _ w. (0, w)), os_accept = (\<lambda>_ w. (4, w)),
       os_select = (\<lambda>_ fds w. ((int (length fds), fds), w)),
       os_send = (\<lambda>_ _ w. (sizeof_xnd_msg, w)), os_recv = (\<lambda>_ w. ((sizeof_xnd_msg, blank_msg), w)),
       os_page = 4, os_shared_base = 0x180000000, os_shared_size = 0x1000,
       os_restart_base = 0, os_restart_end = 0, os_guard = (0, 0), os_task_self_addr = 0x1000,
       os_load = (\<lambda>a n k. mem_bytes (k_mem k) a n), os_store = (\<lambda>a b k. k\<lparr> k_mem := mem_store a b (k_mem k) \<rparr>),
       os_write_from = (\<lambda>_. k_write_from), os_read_to = (\<lambda>_. k_read_to), os_errno = k_errno,
       os_tell = (\<lambda>_ k. (int (f_pos (k_file k)), k)), os_seek = (\<lambda>_. k_seek),
       os_vm_recurse = (\<lambda>_ _ _. None), os_vm_protect = k_protect, os_vm_inherit = (\<lambda>_ _ _ k. (True, k)),
       os_vm_behavior_set = (\<lambda>_ _ _ k. (True, k)), os_vm_map = k_map, os_vm_deallocate = (\<lambda>_ _ k. (True, k)),
       os_vm_page_query = k_query 4, os_fix_task_self = k_fix 0x1000 \<rparr>"

lemma idle_os_sel [simp]:
  "os_page idle_os = 4" "os_shared_base idle_os = 0x180000000" "os_shared_size idle_os = 0x1000"
  "os_task_self_addr idle_os = 0x1000"
  by (simp_all add: idle_os_def)

end
