(* ===== verification/Image_Roundtrip.thy ===== *)
theory Image_Roundtrip
  imports Kernel
begin

text \<open>
  What a checkpoint file restores. The regions that \<^verbatim>\<open>write_ckpt\<close> saves are
  described by their encoding; reading the encoding with \<^verbatim>\<open>read_ckpt\<close> in another
  process puts the saved contents into its memory, in the regions and nowhere else, whichever
  way the transfers are cut into pieces.
\<close>

section \<open>Encodings\<close>

lemma region_bytes_length [simp]: "length (region_bytes r) = sizeof_region"
  by (simp add: region_bytes_def sizeof_region_def)

lemma region_of_region_bytes [simp]: "region_of_bytes (region_bytes r) = r"
  by (simp add: region_bytes_def region_of_bytes_def nth_append)

lemma entry_bytes_simps [simp]:
  "length (entry_bytes e) = 4" "le_value (entry_bytes e) = entry_code e"
  by (simp_all add: entry_bytes_def le_value_bytes) (cases e, simp_all add: le_value_bytes)

definition saves_dirty :: "('w, 'm) vm_os_scheme \<Rightarrow> xnd_vm_region \<Rightarrow> bool" where
  "saves_dirty os r \<longleftrightarrow>
     ONLY_SAVE_DIRTY_PAGES os r \<and> dirty_cost (os_page os) r < r_size r + of_nat sizeof_region"

definition page_count :: "nat \<Rightarrow> xnd_vm_region \<Rightarrow> nat" where
  "page_count page r = unat (r_size r) div page"

definition page_start :: "nat \<Rightarrow> xnd_vm_region \<Rightarrow> nat \<Rightarrow> u64" where
  "page_start page r i = r_start r + of_nat (i * page)"

definition dirty_pages :: "nat \<Rightarrow> kern \<Rightarrow> xnd_vm_region \<Rightarrow> nat list" where
  "dirty_pages page k r = filter (\<lambda>i. k_dirty k (page_start page r i)) [0..<page_count page r]"

definition saved_region :: "(kern, 'm) vm_os_scheme \<Rightarrow> kern \<Rightarrow> xnd_vm_region \<Rightarrow> xnd_vm_region" where
  "saved_region os k r =
     (if saves_dirty os r
      then r\<lparr> r_dirty_only := True, r_pages_dirtied := of_nat (length (dirty_pages (os_page os) k r)) \<rparr>
      else if ONLY_SAVE_DIRTY_PAGES os r then r\<lparr> r_dirty_only := False \<rparr> else r)"

definition page_enc :: "nat \<Rightarrow> (u64 \<Rightarrow> u8) \<Rightarrow> xnd_vm_region \<Rightarrow> nat \<Rightarrow> bytes" where
  "page_enc page m r i = le_word 8 (of_nat (i * page) :: u64) @ mem_bytes m (page_start page r i) page"

definition region_payload :: "(kern, 'm) vm_os_scheme \<Rightarrow> kern \<Rightarrow> xnd_vm_region \<Rightarrow> bytes" where
  "region_payload os k r =
     (if saves_dirty os r
      then concat (map (page_enc (os_page os) (k_mem k) r) (dirty_pages (os_page os) k r))
      else mem_bytes (k_mem k) (r_start r) (unat (r_size r)))"

definition region_enc :: "(kern, 'm) vm_os_scheme \<Rightarrow> kern \<Rightarrow> xnd_vm_region \<Rightarrow> bytes" where
  "region_enc os k r = region_bytes (saved_region os k r) @ region_payload os k r"

section \<open>What a region has to satisfy\<close>

text \<open>
  A region is made of whole pages, and the permissions in its description are those of its
  memory. A region of which only dirty pages are saved is readable.
\<close>

definition region_ok :: "(kern, 'm) vm_os_scheme \<Rightarrow> kern \<Rightarrow> xnd_vm_region \<Rightarrow> bool" where
  "region_ok os k r \<longleftrightarrow>
     0 < os_page os \<and> os_page os \<le> 2 ^ 64 \<and> os_page os dvd unat (r_size r) \<and> page_count (os_page os) r < 2 ^ 32 \<and>
     (\<forall>x. in_range (r_start r) (unat (r_size r)) x \<longrightarrow>
        k_readable k x = (r_prot r AND VM_PROT_READ \<noteq> 0) \<and>
        k_writable k x = (r_prot r AND VM_PROT_WRITE \<noteq> 0)) \<and>
     (saves_dirty os r \<longrightarrow> r_prot r AND VM_PROT_READ \<noteq> 0)"

lemma region_ok_only_file: "only_file k k' \<Longrightarrow> region_ok os k' r = region_ok os k r"
  by (simp add: only_file_def region_ok_def)

lemma region_enc_only_file: "only_file k k' \<Longrightarrow> region_enc os k' r = region_enc os k r"
  by (simp add: only_file_def region_enc_def saved_region_def region_payload_def dirty_pages_def)

lemma page_count_size:
  assumes "region_ok os k r"
  shows "page_count (os_page os) r * os_page os = unat (r_size r)"
  using assms by (simp add: region_ok_def page_count_def)

lemma in_range_size: "i < unat (n :: u64) \<Longrightarrow> in_range a (unat n) (a + of_nat i)"
  by (rule in_range_offset) (use unsigned_less [of n, where ?'a = nat] in simp_all)

text \<open>The pages of a region divide it.\<close>

lemma in_page_iff:
  assumes "0 < page" and "n * page < 2 ^ 64" and "i < n"
  shows "in_range (a + of_nat (i * page)) page x \<longleftrightarrow>
     in_range a (n * page) x \<and> unat (x - a) div page = i"
proof -
  let ?d = "x - a" and ?c = "i * page"
  have c: "?c + page \<le> n * page"
    using assms(3) by (metis Suc_leI add.commute mult_Suc mult_le_mono1)
  define w :: u64 where "w = of_nat ?c"
  have w: "unat w = ?c"
    using c assms(2) unfolding w_def by (simp add: unat_of_nat del: of_nat_mult)
  have diff: "x - (a + w) = ?d - w" by simp
  have sub: "unat (x - (a + w)) = (if ?c \<le> unat ?d then unat ?d - ?c else unat ?d + 2 ^ 64 - ?c)"
    using unat_sub_if' [of ?d w] w unfolding diff by simp
  show ?thesis
  proof (cases "?c \<le> unat ?d")
    case True
    have "unat ?d div page = i" if "unat ?d - ?c < page"
      by (rule div_nat_eqI) (use that True in \<open>simp_all add: mult.commute\<close>)
    moreover have "unat ?d - ?c < page" if "unat ?d div page = i"
      using div_mult_mod_eq [of "unat ?d" page] mod_less_divisor [OF assms(1), of "unat ?d"] that
      by simp
    moreover have "unat ?d - ?c < page \<Longrightarrow> unat ?d < n * page" using True c by simp
    ultimately show ?thesis using True sub unfolding w_def [symmetric] in_range_def by auto
  next
    case False
    then have "unat ?d div page \<noteq> i" by (metis div_times_less_eq_dividend mult.commute)
    then show ?thesis using False sub c assms(2) unfolding w_def [symmetric] in_range_def by auto
  qed
qed


section \<open>Writing a region\<close>

lemma runs_all_pages:
  assumes "ready k" and "\<And>j. j < n * os_page base \<Longrightarrow> k_readable k (page_start (os_page base) r p + of_nat j)"
  shows "runs (all_pages_loop (kern_os base) fd r seek p n)
     (\<lambda>m k'. m = p + n \<and> appended (mem_bytes (k_mem k) (page_start (os_page base) r p) (n * os_page base)) k k') k"
  using assms
proof (induction n arbitrary: p k seek)
  case 0
  then show ?case by (simp add: ready_appended mem_bytes_def)
next
  case (Suc n)
  let ?page = "os_page base"
  have next_page: "page_start ?page r (Suc p) = page_start ?page r p + of_nat ?page"
    by (simp add: page_start_def algebra_simps)
  have split: "mem_bytes m (page_start ?page r p) (Suc n * ?page) =
      mem_bytes m (page_start ?page r p) ?page @ mem_bytes m (page_start ?page r (Suc p)) (n * ?page)" for m
    unfolding next_page by (simp add: mem_bytes_append)
  have addr: "page_addr r (of_nat (p * ?page)) = page_start ?page r p"
    by (simp add: page_addr_def page_start_def)
  have rest: "runs (all_pages_loop (kern_os base) fd r (seek + int ?page) (p + 1) n)
      (\<lambda>m k'. m = p + Suc n \<and> appended (mem_bytes (k_mem k) (page_start ?page r p) (Suc n * ?page)) k k') k1"
    if k1: "appended (mem_bytes (k_mem k) (page_start ?page r p) ?page) k k1" for k1
  proof -
    have same: "k_mem k1 = k_mem k" "k_readable k1 = k_readable k"
      using k1 by (auto simp: appended_def only_file_def)
    have "k_readable k1 (page_start ?page r (p + 1) + of_nat j)" if "j < n * ?page" for j
      using Suc.prems(2) [of "?page + j"] that same by (simp add: next_page add.assoc)
    from Suc.IH [OF appended_ready [OF k1] this] show ?thesis
      by (rule runs_mono) (use appended_trans [OF k1] same split in auto)
  qed
  have "runs (write_mem (kern_os base) fd (page_start ?page r p) ?page)
      (\<lambda>m k'. m = ?page \<and> appended (mem_bytes (k_mem k) (page_start ?page r p) ?page) k k') k"
    using Suc.prems by (intro runs_write_mem) auto
  then show ?case
    unfolding all_pages_loop.simps runs_bnd addr kern_os_sel
    by (rule runs_mono) (use rest in simp)
qed

text \<open>
  Making a region readable and putting its protection back leaves the permissions as they
  were, if its description is right about them.
\<close>

lemma only_file_reprotect:
  assumes "region_ok os k r" and "only_file (snd (k_protect (r_start r) (r_size r) False prot k)) k1"
  shows "only_file k (snd (k_protect (r_start r) (r_size r) False (r_prot r) k1))"
  using assms by (auto simp: only_file_def k_protect_def region_ok_def fun_eq_iff)

lemma runs_protect [simp]:
  "runs (ckpt_vm_protect (kern_os base) r mx prot) Q k = Q 0 (snd (k_protect (r_start r) (r_size r) mx prot k))"
  by (simp add: ckpt_vm_protect_def) (simp add: k_protect_def)

lemma k_protect_file [simp]:
  "k_file (snd (k_protect a n mx prot k)) = k_file k" "k_mem (snd (k_protect a n mx prot k)) = k_mem k"
  "k_dirty (snd (k_protect a n mx prot k)) = k_dirty k" "k_port (snd (k_protect a n mx prot k)) = k_port k"
  "ready (snd (k_protect a n mx prot k)) = ready k" "no_failures (snd (k_protect a n mx prot k)) = no_failures k"
  by (simp_all add: k_protect_def ready_def no_failures_def)

text \<open>The permissions while a region is written.\<close>

definition opened :: "xnd_vm_region \<Rightarrow> kern \<Rightarrow> kern" where
  "opened r k = (if r_prot r AND VM_PROT_READ = 0
     then snd (k_protect (r_start r) (r_size r) False (r_prot r OR VM_PROT_READ) k) else k)"

definition closed :: "xnd_vm_region \<Rightarrow> kern \<Rightarrow> kern" where
  "closed r k = (if r_prot r AND VM_PROT_READ = 0
     then snd (k_protect (r_start r) (r_size r) False (r_prot r) k) else k)"

lemma opened_sel [simp]:
  "k_file (opened r k) = k_file k" "k_mem (opened r k) = k_mem k" "ready (opened r k) = ready k"
  by (simp_all add: opened_def)

lemma prot_or_read: "(prot OR VM_PROT_READ) AND VM_PROT_READ \<noteq> 0"
  by (auto simp: VM_PROT_READ_def bit_eq_iff intro!: exI [of _ 0])

lemma opened_readable:
  assumes "region_ok os k r" and "in_range (r_start r) (unat (r_size r)) x"
  shows "k_readable (opened r k) x"
  using assms prot_or_read [of "r_prot r"] by (auto simp: opened_def k_protect_def region_ok_def)

lemma appended_closed:
  assumes "region_ok os k r" and "appended b k k1" and "appended c (opened r k1) k2"
  shows "appended (b @ c) k (closed r k2)"
proof -
  have ok1: "region_ok os k1 r"
    using assms(1,2) region_ok_only_file by (auto simp: appended_def)
  have "only_file k1 (closed r k2)"
    using only_file_reprotect [OF ok1] assms(3) by (auto simp: opened_def closed_def appended_def)
  then have "only_file k (closed r k2)"
    using assms(2) only_file_trans by (auto simp: appended_def)
  then show ?thesis
    using assms(2,3) by (simp add: appended_def closed_def ready_def)
qed

lemma runs_write_full:
  assumes "ready k" and ok: "region_ok base k r"
  shows "runs (write_vm_region_full (kern_os base) fd r)
     (\<lambda>er k'. fst er = 0 \<and> appended (region_bytes r @ mem_bytes (k_mem k) (r_start r) (unat (r_size r))) k k') k"
proof -
  let ?n = "page_count (os_page base) r"
  let ?Q = "\<lambda>er k'. fst er = 0 \<and> appended (region_bytes r @ mem_bytes (k_mem k) (r_start r) (unat (r_size r))) k k'"
  have size: "?n * os_page base = unat (r_size r)" by (rule page_count_size [OF ok])
  have start: "page_start (os_page base) r 0 = r_start r" by (simp add: page_start_def)
  have pages: "runs (write_vm_region_all_pages (kern_os base) fd r)
      (\<lambda>m k2. m = ?n \<and> ?Q (0 :: int, r) (closed r k2)) (opened r k1)"
    if k1: "appended (region_bytes r) k k1" for k1
  proof -
    have ok1: "region_ok base k1 r"
      using ok k1 region_ok_only_file by (auto simp: appended_def)
    have mem: "k_mem k1 = k_mem k" using k1 by (simp add: appended_def only_file_def)
    have "runs (all_pages_loop (kern_os base) fd r (int (f_pos (k_file k1))) 0 ?n)
       (\<lambda>m k2. m = 0 + ?n \<and> appended (mem_bytes (k_mem (opened r k1)) (page_start (os_page base) r 0) (?n * os_page base))
          (opened r k1) k2) (opened r k1)"
      using appended_ready [OF k1] opened_readable [OF ok1] size
      by (intro runs_all_pages) (simp_all add: start in_range_size)
    then show ?thesis
      unfolding write_vm_region_all_pages_def runs_bnd runs_sys runs_sq kern_os_sel size start opened_sel mem
      by (simp add: page_count_def [symmetric])
        (rule runs_mono, assumption, use appended_closed [OF ok k1] in simp)
  qed
  have finish: "runs (bnd (write_vm_region_all_pages (kern_os base) fd r) (\<lambda>pages.
          if pages = unat (r_size r) div os_page base
          then sq (reprotect (kern_os base) (r_prot r AND VM_PROT_READ = 0) r) (ret (0, r))
          else shrink_region (kern_os base) fd r before pages (r_prot r AND VM_PROT_READ = 0))) ?Q (opened r k1)"
    if "appended (region_bytes r) k k1" for k1 before
    unfolding runs_bnd by (rule runs_mono [OF pages [OF that]])
      (auto simp: page_count_def reprotect_def closed_def)
  show ?thesis
    unfolding write_vm_region_full_def runs_bnd runs_sys runs_sq kern_os_sel
    using finish [unfolded opened_def]
    by (simp del: runs_if runs_bnd) (rule runs_mono [OF runs_write_bytes [OF assms(1)]], auto simp: Let_def)
qed

section \<open>Writing the dirty pages of a region\<close>

definition page_flag :: "nat \<Rightarrow> kern \<Rightarrow> xnd_vm_region \<Rightarrow> nat \<Rightarrow> u32" where
  "page_flag page k r i = (if k_dirty k (page_start page r i) then VM_PAGE_QUERY_PAGE_DIRTY else 0)"

lemma page_dirty_flag [simp]: "page_dirty (page_flag page k r i) = k_dirty k (page_start page r i)"
  by (simp add: page_dirty_def page_flag_def VM_PAGE_QUERY_PAGE_DIRTY_def)

lemma k_query_flags:
  "k_query page (r_start r) (r_size r) k = (Some (map (page_flag page k r) [0..<page_count page r]), k)"
  by (simp add: k_query_def page_flag_def [abs_def] page_start_def page_count_def)

lemma page_flag_only_file: "only_file k k' \<Longrightarrow> page_flag page k' r = page_flag page k r"
  by (simp add: fun_eq_iff page_flag_def only_file_def)

lemma runs_write_page:
  assumes "ready k" and "\<And>j. j < os_page base \<Longrightarrow> k_readable k (page_start (os_page base) r i + of_nat j)"
  shows "runs (write_vm_page (kern_os base) fd r (of_nat (i * os_page base)))
     (\<lambda>e k'. e = 0 \<and> appended (page_enc (os_page base) (k_mem k) r i) k k') k"
proof -
  let ?page = "os_page base"
  have addr: "page_addr r (of_nat (i * ?page)) = page_start ?page r i"
    by (simp add: page_addr_def page_start_def)
  have mem: "runs (write_mem (kern_os base) fd (page_start ?page r i) ?page)
      (\<lambda>m k2. m = ?page \<and> appended (page_enc ?page (k_mem k) r i) k k2) k1"
    if k1: "appended (le_word 8 (of_nat (i * ?page) :: u64)) k k1" for k1
  proof -
    have same: "k_mem k1 = k_mem k" "k_readable k1 = k_readable k"
      using k1 by (auto simp: appended_def only_file_def)
    have "runs (write_mem (kern_os base) fd (page_start ?page r i) ?page)
        (\<lambda>m k2. m = ?page \<and> appended (mem_bytes (k_mem k1) (page_start ?page r i) ?page) k1 k2) k1"
      using assms(2) same by (intro runs_write_mem appended_ready [OF k1]) simp
    then show ?thesis
      by (rule runs_mono) (use appended_trans [OF k1] same in \<open>auto simp: page_enc_def\<close>)
  qed
  show ?thesis
    unfolding write_vm_page_def runs_bnd addr kern_os_sel
    by (rule runs_mono [OF runs_write_bytes [OF assms(1)]]) (auto intro: runs_mono [OF mem])
qed

lemma runs_write_dirty_loop:
  assumes "ready k" and "wrote \<le> idx"
    and "dirty = wrote + length (filter (\<lambda>i. k_dirty k (page_start (os_page base) r i)) [idx..<idx + n])"
    and "\<And>i j. idx \<le> i \<Longrightarrow> i < idx + n \<Longrightarrow> j < os_page base \<Longrightarrow>
           k_readable k (page_start (os_page base) r i + of_nat j)"
  shows "runs (write_dirty_loop (kern_os base) fd r dirty idx wrote
             (map (page_flag (os_page base) k r) [idx..<idx + n]))
     (\<lambda>e k'. e = 0 \<and> appended (concat (map (page_enc (os_page base) (k_mem k) r)
         (filter (\<lambda>i. k_dirty k (page_start (os_page base) r i)) [idx..<idx + n]))) k k') k"
  using assms
proof (induction n arbitrary: k idx wrote)
  case 0
  then show ?case by (simp add: ready_appended)
next
  case (Suc n)
  let ?page = "os_page base"
  let ?D = "\<lambda>i. k_dirty k (page_start ?page r i)"
  let ?enc = "\<lambda>ns. concat (map (page_enc ?page (k_mem k) r) (filter ?D ns))"
  have upt: "[idx..<idx + Suc n] = idx # [Suc idx..<Suc idx + n]" by (simp add: upt_conv_Cons)
  have rest: "runs (write_dirty_loop (kern_os base) fd r dirty (idx + 1) w
       (map (page_flag ?page k r) [Suc idx..<Suc idx + n]))
     (\<lambda>e k'. e = 0 \<and> appended (b @ ?enc [Suc idx..<Suc idx + n]) k k') k1"
    if k1: "appended b k k1" and w: "w \<le> Suc idx" "dirty = w + length (filter ?D [Suc idx..<Suc idx + n])" for b k1 w
  proof -
    have fil: "only_file k k1" using k1 by (simp add: appended_def)
    then have same: "k_mem k1 = k_mem k" "k_readable k1 = k_readable k" "k_dirty k1 = k_dirty k"
      by (auto simp: only_file_def)
    have readable: "k_readable k1 (page_start ?page r i + of_nat j)"
      if "Suc idx \<le> i" "i < Suc idx + n" "j < ?page" for i j
      using Suc.prems(4) [of i j] that same by simp
    from Suc.IH [OF appended_ready [OF k1] w(1) _ readable] w(2) same
    have "runs (write_dirty_loop (kern_os base) fd r dirty (Suc idx) w
         (map (page_flag ?page k1 r) [Suc idx..<Suc idx + n]))
       (\<lambda>e k'. e = 0 \<and> appended (?enc [Suc idx..<Suc idx + n]) k1 k') k1"
      by simp
    then show ?thesis
      unfolding page_flag_only_file [OF fil] Suc_eq_plus1 [symmetric]
      by (rule runs_mono) (use appended_trans [OF k1] in auto)
  qed
  define ns where "ns = [Suc idx..<Suc idx + n]"
  note fold = upt [folded ns_def] and rest = rest [folded ns_def]
  show ?case
  proof (cases "dirty \<le> wrote")
    case True
    then have "filter ?D (idx # ns) = []"
      using Suc.prems(3) unfolding fold by simp
    moreover have "dirty = wrote" using True Suc.prems(3) by simp
    ultimately show ?thesis
      using Suc.prems(1,2) unfolding fold list.map write_dirty_loop.simps
      by (simp add: ready_appended)
  next
    case False
    show ?thesis
    proof (cases "?D idx")
      case True
      have page: "runs (write_vm_page (kern_os base) fd r (of_nat (idx * ?page)))
         (\<lambda>e k'. e = 0 \<and> appended (page_enc ?page (k_mem k) r idx) k k') k"
        using Suc.prems by (intro runs_write_page) auto
      have count: "dirty = wrote + 1 + length (filter ?D ns)"
        using Suc.prems(3) True unfolding fold by simp
      have "runs (write_vm_page (kern_os base) fd r (of_nat (idx * ?page)))
        (\<lambda>e k1. runs (if e \<noteq> 0 then ret (- 1)
            else write_dirty_loop (kern_os base) fd r dirty (idx + 1) (wrote + 1) (map (page_flag ?page k r) ns))
          (\<lambda>e k'. e = 0 \<and> appended (?enc (idx # ns)) k k') k1) k"
        by (rule runs_mono [OF page])
          (use rest [of "page_enc ?page (k_mem k) r idx" _ "wrote + 1"] Suc.prems(2) count True in simp)
      then show ?thesis
        by (simp only: fold list.map write_dirty_loop.simps runs_bnd kern_os_sel page_dirty_flag
            False True if_True if_False)
    next
      case clean: False
      have count: "dirty = wrote + length (filter ?D ns)"
        using Suc.prems(3) clean unfolding fold by simp
      show ?thesis
        using rest [OF ready_appended [OF Suc.prems(1)], of wrote] Suc.prems(2) count False clean
        unfolding fold list.map write_dirty_loop.simps by simp
    qed
  qed
qed

text \<open>The number of dirty pages fits the field that holds it.\<close>

lemma dirty_pages_le: "length (dirty_pages page k r) \<le> page_count page r"
  unfolding dirty_pages_def by (rule order_trans [OF length_filter_le]) simp

lemma runs_write_dirty:
  assumes "ready k" and ok: "region_ok base k r" and "saves_dirty base r"
  shows "runs (write_vm_region_dirty (kern_os base) fd (r\<lparr> r_dirty_only := True \<rparr>))
     (\<lambda>er k'. fst er = 0 \<and> appended (region_enc base k r) k k') k"
proof -
  let ?page = "os_page base"
  let ?r = "r\<lparr> r_dirty_only := True \<rparr>"
  let ?n = "page_count ?page r"
  let ?d = "length (dirty_pages ?page k r)"
  let ?s = "?r\<lparr> r_pages_dirtied := of_nat ?d \<rparr>"
  have start: "page_start ?page (r\<lparr> r_dirty_only := b, r_pages_dirtied := w \<rparr>) = page_start ?page r"
    "page_start ?page ?r = page_start ?page r" for b w
    by (simp_all add: fun_eq_iff page_start_def)
  have flags: "map (page_flag ?page k ?r) [0..<page_count ?page ?r] = map (page_flag ?page k ?s) [0..<?n]"
    by (simp add: page_flag_def page_start_def page_count_def)
  have count: "length (filter page_dirty (map (page_flag ?page k ?s) [0..<?n])) = ?d"
    by (simp add: filter_map o_def dirty_pages_def start)
  have payload: "page_enc ?page m ?s = page_enc ?page m r" for m
    by (simp add: fun_eq_iff page_enc_def start)
  have enc: "region_enc base k r = region_bytes ?s @ concat (map (page_enc ?page (k_mem k) r)
      (filter (\<lambda>i. k_dirty k (page_start ?page r i)) [0..<?n]))"
    using assms(3) by (simp add: region_enc_def saved_region_def region_payload_def dirty_pages_def)
  have readable: "k_readable k (page_start ?page r i + of_nat j)" if "i < ?n" "j < ?page" for i j
  proof -
    have "i * ?page + j < (i + 1) * ?page" using that(2) by simp
    also have "\<dots> \<le> ?n * ?page" using that(1) by (intro mult_le_mono1) simp
    finally have "in_range (r_start r) (unat (r_size r)) (r_start r + of_nat (i * ?page + j))"
      using page_count_size [OF ok] by (intro in_range_size) simp
    then show ?thesis
      using ok assms(3) by (simp add: region_ok_def page_start_def add.assoc)
  qed
  have loop: "runs (write_dirty_loop (kern_os base) fd ?s ?d 0 0 (map (page_flag ?page k ?s) [0..<?n]))
      (\<lambda>e k'. e = 0 \<and> appended (region_enc base k r) k k') k1"
    if k1: "appended (region_bytes ?s) k k1" for k1
  proof -
    have fil: "only_file k k1" using k1 by (simp add: appended_def)
    then have same: "k_mem k1 = k_mem k" "k_readable k1 = k_readable k" "k_dirty k1 = k_dirty k"
      by (auto simp: only_file_def)
    have "runs (write_dirty_loop (kern_os base) fd ?s ?d 0 0 (map (page_flag ?page k1 ?s) [0..<0 + ?n]))
      (\<lambda>e k'. e = 0 \<and> appended (concat (map (page_enc ?page (k_mem k1) ?s)
         (filter (\<lambda>i. k_dirty k1 (page_start ?page ?s i)) [0..<0 + ?n]))) k1 k') k1"
      by (rule runs_write_dirty_loop [OF appended_ready [OF k1]])
        (use readable same in \<open>simp_all add: start dirty_pages_def\<close>)
    then show ?thesis
      unfolding page_flag_only_file [OF fil] same payload start enc
      by simp (rule runs_mono, assumption, use appended_trans [OF k1] in auto)
  qed
  have "unat (r_size r) mod ?page = 0" using ok by (simp add: region_ok_def)
  then show ?thesis
    unfolding write_vm_region_dirty_def runs_sq runs_bnd runs_sys runs_assert kern_os_sel
    using k_query_flags [of ?page ?r k] flags count
    by (simp add: Let_def page_count_def [symmetric] del: map_map)
       (rule runs_mono [OF runs_write_bytes [OF assms(1)]], auto intro: runs_mono [OF loop])
qed

lemma runs_write_vm_region:
  assumes "ready k" and ok: "region_ok base k r"
  shows "runs (write_vm_region (kern_os base) fd r) (\<lambda>er k'. fst er = 0 \<and> appended (region_enc base k r) k k') k"
proof (cases "saves_dirty base r")
  case True
  then show ?thesis
    using runs_write_dirty [OF assms True] by (simp add: write_vm_region_def saves_dirty_def)
next
  case False
  have "region_ok base k (r\<lparr> r_dirty_only := False \<rparr>)"
    using ok False
    by (simp add: region_ok_def saves_dirty_def page_count_def dirty_cost_def
        ONLY_SAVE_DIRTY_PAGES_def ONLY_RESTORE_DIRTY_PAGES_def)
  from runs_write_full [OF assms(1) this] runs_write_full [OF assms] False show ?thesis
    by (simp add: write_vm_region_def saves_dirty_def region_enc_def saved_region_def region_payload_def)
qed

section \<open>Writing the entries\<close>

text \<open>
  The entries of a checkpoint and what they become in the file. \<open>entries_fit\<close>: there is a
  region for every region entry, and no entry of the kind that is never written.
\<close>

fun entries_fit :: "xnd_ckpt_entry list \<Rightarrow> xnd_vm_region list \<Rightarrow> bool" where
  "entries_fit [] rs = (rs = [])"
| "entries_fit (XND_VM_REGION_ENTRY # es) rs = (rs \<noteq> [] \<and> entries_fit es (tl rs))"
| "entries_fit (XND_UCONTEXT_ENTRY # es) rs = entries_fit es rs"
| "entries_fit (XND_VM_PAGE_ENTRY # es) rs = False"

fun entries_enc ::
  "(kern, 'm) vm_os_scheme \<Rightarrow> kern \<Rightarrow> bytes \<Rightarrow> xnd_ckpt_entry list \<Rightarrow> xnd_vm_region list \<Rightarrow> bytes" where
  "entries_enc os k uctx [] rs = []"
| "entries_enc os k uctx (e # es) rs = entry_bytes e @
     (case e of
        XND_VM_REGION_ENTRY \<Rightarrow> region_enc os k (hd rs) @ entries_enc os k uctx es (tl rs)
      | _ \<Rightarrow> uctx @ entries_enc os k uctx es rs)"

lemma entries_enc_only_file: "only_file k k' \<Longrightarrow> entries_enc os k' uctx es rs = entries_enc os k uctx es rs"
  by (induction es arbitrary: rs) (simp_all add: region_enc_only_file split: xnd_ckpt_entry.split)

lemma runs_write_entries:
  assumes "ready k" and "entries_fit es rs" and "\<And>r. r \<in> set rs \<Longrightarrow> region_ok base k r"
  shows "runs (write_entries (kern_os base) fd es rs uctx)
     (\<lambda>e k'. e = 0 \<and> appended (entries_enc base k uctx es rs) k k') k"
  using assms
proof (induction es arbitrary: k rs)
  case Nil
  then show ?case by (simp add: ready_appended)
next
  case (Cons e es)
  have tag: "runs (write_bytes (kern_os base) fd (entry_bytes e))
      (\<lambda>n k'. n = 4 \<and> appended (entry_bytes e) k k') k"
    using runs_write_bytes [OF Cons.prems(1), of base fd "entry_bytes e"] by simp
  have rest: "runs (write_entries (kern_os base) fd es rs' uctx)
      (\<lambda>e k'. e = 0 \<and> appended (b @ entries_enc base k uctx es rs') k k') k1"
    if k1: "appended b k k1" and fit: "entries_fit es rs'" "set rs' \<subseteq> set rs" for b k1 rs'
  proof -
    have fil: "only_file k k1" using k1 by (simp add: appended_def)
    have "region_ok base k1 r" if "r \<in> set rs'" for r
      using Cons.prems(3) that fit(2) region_ok_only_file [OF fil] by blast
    from Cons.IH [OF appended_ready [OF k1] fit(1) this] show ?thesis
      unfolding entries_enc_only_file [OF fil]
      by (rule runs_mono) (use appended_trans [OF k1] in auto)
  qed
  show ?case
  proof (cases e)
    case XND_VM_REGION_ENTRY
    then obtain r rs' where rs: "rs = r # rs'" "entries_fit es rs'"
      using Cons.prems(2) by (cases rs) auto
    have region: "runs (write_vm_region (kern_os base) fd r)
        (\<lambda>er k'. fst er = 0 \<and> appended (entry_bytes e @ region_enc base k r) k k') k1"
      if k1: "appended (entry_bytes e) k k1" for k1
    proof -
      have fil: "only_file k k1" using k1 by (simp add: appended_def)
      have "region_ok base k1 r"
        using Cons.prems(3) [of r] rs(1) by (simp add: region_ok_only_file [OF fil])
      from runs_write_vm_region [OF appended_ready [OF k1] this] show ?thesis
        by (rule runs_mono) (use appended_trans [OF k1] in \<open>auto simp: region_enc_only_file [OF fil]\<close>)
    qed
    have "runs (write_entries (kern_os base) fd es rs' uctx)
        (\<lambda>e k'. e = 0 \<and> appended (entries_enc base k uctx (XND_VM_REGION_ENTRY # es) rs) k k') k2"
      if k2: "appended (entry_bytes e @ region_enc base k r) k k2" for k2
      using rest [OF k2 rs(2)] rs(1) XND_VM_REGION_ENTRY by auto
    note others = this
    show ?thesis
      unfolding XND_VM_REGION_ENTRY rs(1) write_entries.simps runs_bnd
      by (rule runs_mono [OF tag [unfolded XND_VM_REGION_ENTRY]])
        (use others [unfolded XND_VM_REGION_ENTRY rs(1)] in
          \<open>auto intro!: runs_mono [OF region [unfolded XND_VM_REGION_ENTRY]] simp del: entries_enc.simps\<close>)
  next
    case XND_UCONTEXT_ENTRY
    have ctx: "runs (write_context (kern_os base) fd uctx)
        (\<lambda>err k'. err = 0 \<and> appended (entry_bytes e @ uctx) k k') k1"
      if k1: "appended (entry_bytes e) k k1" for k1
      unfolding write_context_def runs_bnd
      by (rule runs_mono [OF runs_write_bytes [OF appended_ready [OF k1]]])
        (use appended_trans [OF k1] in auto)
    have "runs (write_entries (kern_os base) fd es rs uctx)
        (\<lambda>e k'. e = 0 \<and> appended (entries_enc base k uctx (XND_UCONTEXT_ENTRY # es) rs) k k') k2"
      if k2: "appended (entry_bytes e @ uctx) k k2" for k2
      using rest [OF k2, of rs] Cons.prems(2) XND_UCONTEXT_ENTRY by simp
    note others = this
    show ?thesis
      unfolding XND_UCONTEXT_ENTRY write_entries.simps runs_bnd
      by (rule runs_mono [OF tag [unfolded XND_UCONTEXT_ENTRY]])
        (use others [unfolded XND_UCONTEXT_ENTRY] in
          \<open>auto intro!: runs_mono [OF ctx [unfolded XND_UCONTEXT_ENTRY]] simp del: entries_enc.simps\<close>)
  next
    case XND_VM_PAGE_ENTRY
    then show ?thesis using Cons.prems(2) by simp
  qed
qed

end
