(* ===== verification/Image_Restore.thy ===== *)
theory Image_Restore
  imports Image_Roundtrip
begin

text \<open>
  Reading the encoding of a checkpoint back: every region of the saved process gets its saved
  contents and permissions, also when only its dirty pages were saved, and the rest of the
  memory of the restarting process is left alone.
\<close>

section \<open>Reading pages\<close>

text \<open>\<open>holds rest m k k'\<close>: \<open>rest\<close> is still to be read and memory is \<open>m\<close>.\<close>

definition holds :: "bytes \<Rightarrow> (u64 \<Rightarrow> u8) \<Rightarrow> kern \<Rightarrow> kern \<Rightarrow> bool" where
  "holds rest m k k' \<longleftrightarrow> no_failures k' \<and> file_left (k_file k') = rest \<and> only_file (k\<lparr> k_mem := m \<rparr>) k'"

definition pages_mem :: "nat \<Rightarrow> (u64 \<Rightarrow> u8) \<Rightarrow> xnd_vm_region \<Rightarrow> nat list \<Rightarrow> (u64 \<Rightarrow> u8) \<Rightarrow> u64 \<Rightarrow> u8" where
  "pages_mem page m r ns m0 = (\<lambda>x. if \<exists>i \<in> set ns. in_range (page_start page r i) page x then m x else m0 x)"

lemma runs_restore_page:
  assumes "no_failures k" and "file_left (k_file k) = page_enc (os_page base) m r i @ rest"
    and "\<And>x. in_range (page_start (os_page base) r i) (os_page base) x \<Longrightarrow> k_writable k x"
    and "os_page base \<le> 2 ^ 64"
  shows "runs (bnd (read_bytes (kern_os base) fd 8) (\<lambda>b. if length b \<noteq> 8 then ret (- 1)
       else ckpt_vm_page_restore (kern_os base) fd r (word_le b)))
     (\<lambda>e k'. e = 0 \<and> holds rest (pages_mem (os_page base) m r [i] (k_mem k)) k k') k"
proof -
  let ?page = "os_page base" and ?off = "le_word 8 (of_nat (i * os_page base) :: u64)"
  let ?b = "mem_bytes m (page_start ?page r i) ?page"
  have addr: "page_addr r (of_nat (i * ?page)) = page_start ?page r i"
    by (simp add: page_addr_def page_start_def)
  have store: "mem_store (page_start ?page r i) ?b m0 = pages_mem ?page m r [i] m0" for m0
    by (simp add: mem_store_bytes pages_mem_def)
  have page: "runs (read_mem (kern_os base) fd (page_start ?page r i) ?page)
      (\<lambda>n k'. n = ?page \<and> holds rest (pages_mem ?page m r [i] (k_mem k)) k k') k1"
    if "no_failures k1" "file_left (k_file k1) = ?b @ rest" "only_file k k1" for k1
  proof -
    have "k_writable k1 (page_start ?page r i + of_nat j)" if "j < ?page" for j
      using assms(3) in_range_offset [OF that assms(4)] \<open>only_file k k1\<close> by (simp add: only_file_def)
    from runs_read_mem [OF that(1,2) _ this, where base = base and fd = fd]
    have "runs (read_mem (kern_os base) fd (page_start ?page r i) ?page)
        (\<lambda>n k'. n = ?page \<and> no_failures k' \<and> file_left (k_file k') = rest \<and>
           only_file (k1\<lparr> k_mem := pages_mem ?page m r [i] (k_mem k1) \<rparr>) k') k1"
      by (simp add: store)
    then show ?thesis
      by (rule runs_mono) (use that(3) in \<open>auto simp: holds_def only_file_def\<close>)
  qed
  have "file_left (k_file k) = ?off @ ?b @ rest" using assms(2) by (simp add: page_enc_def)
  from runs_read_bytes [OF assms(1) this] show ?thesis
    unfolding runs_bnd
    by (rule runs_mono) (auto simp: ckpt_vm_page_restore_def addr simp del: of_nat_mult intro!: runs_mono [OF page])
qed

lemma runs_restore_pages:
  assumes "no_failures k" and "file_left (k_file k) = concat (map (page_enc (os_page base) m r) ns) @ rest"
    and "\<And>i x. i \<in> set ns \<Longrightarrow> in_range (page_start (os_page base) r i) (os_page base) x \<Longrightarrow> k_writable k x"
    and "os_page base \<le> 2 ^ 64"
  shows "runs (restore_pages_loop (kern_os base) fd r (length ns))
     (\<lambda>e k'. e = 0 \<and> holds rest (pages_mem (os_page base) m r ns (k_mem k)) k k') k"
  using assms
proof (induction ns arbitrary: k)
  case Nil
  then show ?case by (simp add: holds_def pages_mem_def only_file_def)
next
  case (Cons i ns)
  let ?page = "os_page base"
  let ?rest = "concat (map (page_enc ?page m r) ns) @ rest"
  have "runs (bnd (read_bytes (kern_os base) fd 8) (\<lambda>b. if length b \<noteq> 8 then ret (- 1)
       else ckpt_vm_page_restore (kern_os base) fd r (word_le b)))
     (\<lambda>e k'. e = 0 \<and> holds ?rest (pages_mem ?page m r [i] (k_mem k)) k k') k"
    by (rule runs_restore_page) (use Cons.prems in auto)
  moreover have "runs (restore_pages_loop (kern_os base) fd r (length ns))
      (\<lambda>e k'. e = 0 \<and> holds rest (pages_mem ?page m r (i # ns) (k_mem k)) k k') k1"
    if k1: "holds ?rest (pages_mem ?page m r [i] (k_mem k)) k k1" for k1
  proof -
    have "k_writable k1 x" if "j \<in> set ns" "in_range (page_start ?page r j) ?page x" for j x
      using Cons.prems(3) [of j x] that k1 by (simp add: holds_def only_file_def)
    note writable = this
    have "runs (restore_pages_loop (kern_os base) fd r (length ns))
        (\<lambda>e k'. e = 0 \<and> holds rest (pages_mem ?page m r ns (k_mem k1)) k1 k') k1"
      by (rule Cons.IH) (use k1 writable Cons.prems(4) in \<open>auto simp: holds_def\<close>)
    then show ?thesis
      by (rule runs_mono) (use k1 in \<open>auto simp: holds_def only_file_def pages_mem_def fun_eq_iff\<close>)
  qed
  ultimately show ?case
    by (auto elim!: runs_mono)
qed

section \<open>Reading a region\<close>

abbreviation in_region :: "xnd_vm_region \<Rightarrow> u64 \<Rightarrow> bool" where
  "in_region r \<equiv> in_range (r_start r) (unat (r_size r))"

text \<open>
  \<open>restored base k rs k1 k'\<close>: from \<open>k1\<close>, the memory of the regions \<open>rs\<close>
  became that of \<open>k\<close>. The four bytes of \<^verbatim>\<open>mach_task_self_\<close> are
  left out: the restarted task has another port there.
\<close>

definition restored ::
  "(kern, 'm) vm_os_scheme \<Rightarrow> kern \<Rightarrow> xnd_vm_region list \<Rightarrow> kern \<Rightarrow> kern \<Rightarrow> bool" where
  "restored base k rs k1 k' \<longleftrightarrow>
     (\<forall>x. let from_k = (if \<exists>r \<in> set rs. in_region r x then k else k1) in
        (in_range (os_task_self_addr base) 4 x \<or> k_mem k' x = k_mem from_k x) \<and>
        k_readable k' x = k_readable from_k x \<and> k_writable k' x = k_writable from_k x)"

lemma restored_mem:
  assumes "restored base k rs k1 k'" and "\<not> in_range (os_task_self_addr base) 4 x"
  shows "k_mem k' x = (if \<exists>r \<in> set rs. in_region r x then k_mem k x else k_mem k1 x)"
  using assms by (fastforce simp: restored_def Let_def split: if_splits)

lemma restored_Nil: "only_file k1 k' \<Longrightarrow> restored base k [] k1 k'"
  by (simp add: restored_def only_file_def)

lemma restored_trans:
  "restored base k rs k1 k2 \<Longrightarrow> restored base k rs' k2 k3 \<Longrightarrow> restored base k (rs @ rs') k1 k3"
  by (fastforce simp: restored_def Let_def split: if_splits)

text \<open>
  The pages that are not saved must be what the restarting process already has: fresh pages of a
  new mapping, or its own copy of the shared cache.
\<close>

definition pristine ::
  "(kern, 'm) vm_os_scheme \<Rightarrow> kern \<Rightarrow> kern \<Rightarrow> xnd_vm_region \<Rightarrow> bool" where
  "pristine base k k1 r \<longleftrightarrow>
     (saves_dirty base r \<longrightarrow>
       (\<forall>i < page_count (os_page base) r. \<not> k_dirty k (page_start (os_page base) r i) \<longrightarrow>
         (\<forall>x. in_range (page_start (os_page base) r i) (os_page base) x \<longrightarrow>
            in_range (os_task_self_addr base) 4 x \<or>
            k_mem k x = (if DYLD_SHARED_CACHE_REGION base (r_start r) (r_size r) then k_mem k1 x else 0))))"

lemma pristine_restored:
  "pristine base k k1 r \<Longrightarrow> restored base k rs k1 k2 \<Longrightarrow> pristine base k k2 r"
  by (fastforce simp: restored_def pristine_def Let_def split: if_splits)

text \<open>The state before the permissions of a region are set.\<close>

definition filled :: "bytes \<Rightarrow> (u64 \<Rightarrow> u8) \<Rightarrow> xnd_vm_region \<Rightarrow> kern \<Rightarrow> kern \<Rightarrow> bool" where
  "filled rest m r k1 k' \<longleftrightarrow> no_failures k' \<and> file_left (k_file k') = rest \<and> k_mem k' = m \<and>
     (\<forall>x. if in_region r x then k_readable k' x \<and> k_writable k' x
          else k_readable k' x = k_readable k1 x \<and> k_writable k' x = k_writable k1 x)"

definition granted :: "xnd_vm_region \<Rightarrow> kern \<Rightarrow> kern \<Rightarrow> bool" where
  "granted r k k' \<longleftrightarrow> no_failures k' = no_failures k \<and> k_file k' = k_file k \<and> k_mem k' = k_mem k \<and>
     (\<forall>x. if in_region r x
          then k_readable k' x = (r_prot r AND VM_PROT_READ \<noteq> 0) \<and>
               k_writable k' x = (r_prot r AND VM_PROT_WRITE \<noteq> 0)
          else k_readable k' x = k_readable k x \<and> k_writable k' x = k_writable k x)"

lemma granted_protect: "granted r k (snd (k_protect (r_start r) (r_size r) False (r_prot r) k))"
  by (simp add: granted_def k_protect_def no_failures_def)

lemma runs_refresh:
  assumes "\<And>x. in_region r x \<Longrightarrow> k_readable k x \<and> k_writable k x"
  shows "runs (ckpt_vm_refresh_region (kern_os base) r) (\<lambda>e k'. e = 0 \<and> granted r k k') k"
proof -
  have "granted r k k" if "r_prot r = VM_PROT_DEFAULT"
    using assms that by (auto simp: granted_def VM_PROT_DEFAULT_def VM_PROT_READ_def VM_PROT_WRITE_def)
  moreover have "snd (k_protect a n True prot k') = k'" for a n prot k' by (simp add: k_protect_def)
  ultimately show ?thesis
    using granted_protect [of r k] by (simp add: ckpt_vm_refresh_region_def)
qed

lemma runs_fix_task_self [simp]:
  "runs (fix_task_self (kern_os base) r) Q k =
     Q () (if IN_VM_RANGE (os_task_self_addr base) (r_start r) (r_start r + r_size r)
           then k_fix (os_task_self_addr base) k else k)"
  by (simp add: fix_task_self_def)

lemma runs_finish_region:
  assumes "filled rest m r k1 k2" and ok: "region_ok base k r"
    and "\<And>x. in_range (os_task_self_addr base) 4 x \<or>
           m x = (if in_region r x then k_mem k x else k_mem k1 x)"
  shows "runs (sq (fix_task_self (kern_os base) r)
       (if shared then ckpt_vm_protect (kern_os base) r False (r_prot r)
        else ckpt_vm_refresh_region (kern_os base) r))
     (\<lambda>e k'. e = 0 \<and> no_failures k' \<and> file_left (k_file k') = rest \<and> restored base k [r] k1 k') k2"
proof -
  define k3 where "k3 = (if IN_VM_RANGE (os_task_self_addr base) (r_start r) (r_start r + r_size r)
    then k_fix (os_task_self_addr base) k2 else k2)"
  have fixed: "no_failures k3 = no_failures k2" "k_file k3 = k_file k2"
    "k_readable k3 = k_readable k2" "k_writable k3 = k_writable k2"
    "in_range (os_task_self_addr base) 4 x \<or> k_mem k3 x = k_mem k2 x" for x
    by (simp_all add: k3_def k_fix_def no_failures_def)
  have done_with: "no_failures k' \<and> file_left (k_file k') = rest \<and> restored base k [r] k1 k'"
    if "granted r k3 k'" for k'
  proof -
    have "restored base k [r] k1 k'"
      unfolding restored_def Let_def
    proof
      fix x
      have "k_mem k' x = k_mem k3 x" using that by (simp add: granted_def)
      then show "(in_range (os_task_self_addr base) 4 x \<or>
          k_mem k' x = k_mem (if \<exists>r \<in> set [r]. in_region r x then k else k1) x) \<and>
        k_readable k' x = k_readable (if \<exists>r \<in> set [r]. in_region r x then k else k1) x \<and>
        k_writable k' x = k_writable (if \<exists>r \<in> set [r]. in_region r x then k else k1) x"
        using that assms(1) assms(3) [of x] fixed(3,4) fixed(5) [of x] ok
        by (cases "in_region r x") (auto simp: granted_def filled_def region_ok_def)
    qed
    then show ?thesis using that assms(1) fixed(1,2) by (simp add: granted_def filled_def)
  qed
  have "runs (ckpt_vm_refresh_region (kern_os base) r) (\<lambda>e k'. e = 0 \<and> granted r k3 k') k3"
    by (rule runs_refresh) (use assms(1) fixed in \<open>simp add: filled_def\<close>)
  moreover note done_with [OF granted_protect]
  ultimately show ?thesis
    unfolding runs_sq runs_fix_task_self runs_if runs_protect k3_def [symmetric]
    using done_with by (auto elim!: runs_mono)
qed

lemma saved_region_sel [simp]:
  "r_start (saved_region base k r) = r_start r" "r_size (saved_region base k r) = r_size r"
  "r_prot (saved_region base k r) = r_prot r" "r_tag (saved_region base k r) = r_tag r"
  "page_start page (saved_region base k r) = page_start page r"
  "page_enc page m (saved_region base k r) = page_enc page m r"
  by (simp_all add: fun_eq_iff saved_region_def page_start_def page_enc_def)

lemma saved_region_ok: "region_ok base k r \<Longrightarrow> region_ok base k (saved_region base k r)"
  by (auto simp: saved_region_def region_ok_def saves_dirty_def page_count_def dirty_cost_def
      ONLY_SAVE_DIRTY_PAGES_def ONLY_RESTORE_DIRTY_PAGES_def)

lemma saved_region_dirty:
  "ONLY_RESTORE_DIRTY_PAGES base (saved_region base k r) \<and> r_dirty_only (saved_region base k r) \<longleftrightarrow>
     saves_dirty base r"
  by (auto simp: saved_region_def saves_dirty_def ONLY_SAVE_DIRTY_PAGES_def ONLY_RESTORE_DIRTY_PAGES_def)

lemma saved_region_count:
  assumes "region_ok base k r" and "saves_dirty base r"
  shows "unat (r_pages_dirtied (saved_region base k r)) = length (dirty_pages (os_page base) k r)"
  using assms dirty_pages_le [of "os_page base" k r]
  by (simp add: saved_region_def region_ok_def unat_of_nat)

lemma restored_saved_region: "restored base k [saved_region base k r] = restored base k [r]"
  by (simp add: fun_eq_iff restored_def)

text \<open>Which page of a region an address is in, and what the saved pages give it.\<close>

lemma in_region_page:
  assumes "region_ok base k r" and "i < page_count (os_page base) r"
  shows "in_range (page_start (os_page base) r i) (os_page base) x \<longleftrightarrow>
     in_region r x \<and> unat (x - r_start r) div os_page base = i"
proof -
  have size: "page_count (os_page base) r * os_page base = unat (r_size r)"
    by (rule page_count_size [OF assms(1)])
  have "unat (r_size r) < 2 ^ 64" using unsigned_less [of "r_size r", where ?'a = nat] by simp
  then show ?thesis
    using in_page_iff [of "os_page base" "page_count (os_page base) r" i "r_start r" x] assms size
    by (simp add: page_start_def region_ok_def)
qed

lemma pages_mem_region:
  assumes ok: "region_ok base k r" and "saves_dirty base r" and "pristine base k k1 r"
    and m0: "\<And>x. m0 x = (if in_region r x \<and> \<not> DYLD_SHARED_CACHE_REGION base (r_start r) (r_size r)
                          then 0 else k_mem k1 x)"
  shows "in_range (os_task_self_addr base) 4 x \<or>
     pages_mem (os_page base) (k_mem k) r (dirty_pages (os_page base) k r) m0 x =
       (if in_region r x then k_mem k x else k_mem k1 x)"
proof (cases "in_region r x")
  case False
  then show ?thesis
    using in_region_page [OF ok] by (auto simp: pages_mem_def dirty_pages_def m0)
next
  case True
  let ?i = "unat (x - r_start r) div os_page base"
  have "?i < page_count (os_page base) r"
    using True ok by (simp add: in_range_def page_count_def region_ok_def less_mult_imp_div_less
        dvd_div_mult_self)
  moreover from in_region_page [OF ok this] True
  have "in_range (page_start (os_page base) r ?i) (os_page base) x" by simp
  ultimately have page: "?i < page_count (os_page base) r"
    "in_range (page_start (os_page base) r ?i) (os_page base) x" by auto
  show ?thesis
  proof (cases "k_dirty k (page_start (os_page base) r ?i)")
    case saved: True
    then show ?thesis using True page by (auto simp: pages_mem_def dirty_pages_def)
  next
    case clean: False
    then have "in_range (os_task_self_addr base) 4 x \<or>
        k_mem k x = (if DYLD_SHARED_CACHE_REGION base (r_start r) (r_size r) then k_mem k1 x else 0)"
      using assms(2,3) page unfolding pristine_def by blast
    then have "in_range (os_task_self_addr base) 4 x \<or> k_mem k x = m0 x"
      using m0 [of x] True by auto
    then show ?thesis using True by (auto simp: pages_mem_def)
  qed
qed

text \<open>Mapping the region, or opening the shared cache for writing.\<close>

lemma runs_map_region [simp]:
  "runs (ckpt_vm_map_region (kern_os base) r) Q k = Q 0 (snd (k_map (r_start r) (r_size r) (r_tag r) True k))"
  by (simp add: ckpt_vm_map_region_def) (simp add: k_map_def)

lemma read_write_copy:
  "(VM_PROT_READ OR VM_PROT_WRITE OR VM_PROT_COPY) AND VM_PROT_READ \<noteq> 0"
  "(VM_PROT_READ OR VM_PROT_WRITE OR VM_PROT_COPY) AND VM_PROT_WRITE \<noteq> 0"
  by (simp_all add: VM_PROT_READ_def VM_PROT_WRITE_def VM_PROT_COPY_def)

lemma runs_restore_region_pages:
  assumes "no_failures k1" and "file_left (k_file k1) = region_payload base k r @ rest"
    and ok: "region_ok base k r" and dirty: "saves_dirty base r" and clean: "pristine base k k1 r"
  shows "runs (ckpt_vm_restore_region_pages (kern_os base) fd (saved_region base k r))
     (\<lambda>e k'. e = 0 \<and> no_failures k' \<and> file_left (k_file k') = rest \<and> restored base k [r] k1 k') k1"
proof -
  let ?r = "saved_region base k r" and ?page = "os_page base"
  let ?ns = "dirty_pages ?page k r"
  let ?shared = "DYLD_SHARED_CACHE_REGION base (r_start r) (r_size r)"
  define k2 where "k2 = (if ?shared
    then snd (k_protect (r_start r) (r_size r) False (VM_PROT_READ OR VM_PROT_WRITE OR VM_PROT_COPY) k1)
    else snd (k_map (r_start r) (r_size r) (r_tag r) True k1))"
  have k2: "no_failures k2" "k_file k2 = k_file k1"
    "k_mem k2 x = (if in_region r x \<and> \<not> ?shared then 0 else k_mem k1 x)"
    "in_region r x \<Longrightarrow> k_readable k2 x \<and> k_writable k2 x"
    "\<not> in_region r x \<Longrightarrow> k_readable k2 x = k_readable k1 x \<and> k_writable k2 x = k_writable k1 x" for x
    using assms(1) read_write_copy by (simp_all add: k2_def k_protect_def k_map_def no_failures_def)
  have count: "unat (r_pages_dirtied ?r) = length ?ns" by (rule saved_region_count [OF ok dirty])
  have "k_writable k2 x" if "i \<in> set ?ns" "in_range (page_start ?page r i) ?page x" for i x
    using in_region_page [OF ok, of i x] that k2(4) by (simp add: dirty_pages_def)
  note writable = this
  have "runs (restore_pages_loop (kern_os base) fd ?r (length ?ns))
     (\<lambda>e k'. e = 0 \<and> holds rest (pages_mem ?page (k_mem k) ?r ?ns (k_mem k2)) k2 k') k2"
    by (rule runs_restore_pages)
      (use k2(1,2) assms(2) dirty writable ok in \<open>auto simp: region_payload_def region_ok_def\<close>)
  moreover have "filled rest (pages_mem ?page (k_mem k) r ?ns (k_mem k2)) ?r k1 k3"
    if "holds rest (pages_mem ?page (k_mem k) ?r ?ns (k_mem k2)) k2 k3" for k3
    using that k2 by (auto simp: holds_def filled_def only_file_def pages_mem_def)
  moreover have "runs (sq (fix_task_self (kern_os base) ?r)
       (if ?shared then ckpt_vm_protect (kern_os base) ?r False (r_prot r)
        else ckpt_vm_refresh_region (kern_os base) ?r))
     (\<lambda>e k'. e = 0 \<and> no_failures k' \<and> file_left (k_file k') = rest \<and> restored base k [r] k1 k') k3"
    if "filled rest (pages_mem ?page (k_mem k) r ?ns (k_mem k2)) ?r k1 k3" for k3
  proof -
    have "in_range (os_task_self_addr base) 4 x \<or>
      pages_mem ?page (k_mem k) r ?ns (k_mem k2) x = (if in_region ?r x then k_mem k x else k_mem k1 x)" for x
      using pages_mem_region [OF ok dirty clean k2(3)] by simp
    from runs_finish_region [OF that saved_region_ok [OF ok] this, of ?shared] show ?thesis
      by (simp only: restored_saved_region saved_region_sel)
  qed
  moreover have "runs (if ?shared
         then ckpt_vm_protect (kern_os base) ?r False (VM_PROT_READ OR VM_PROT_WRITE OR VM_PROT_COPY)
         else ckpt_vm_map_region (kern_os base) ?r) P k1 = P 0 k2" for P
    by (simp add: k2_def)
  ultimately show ?thesis
    unfolding ckpt_vm_restore_region_pages_def ckpt_vm_restore_pages_def count Let_def saved_region_sel
      kern_os_region runs_bnd
    by (auto elim!: runs_mono simp del: runs_sq runs_if)
qed

lemma runs_restore_region_full:
  assumes "no_failures k1" and "file_left (k_file k1) = region_payload base k r @ rest"
    and ok: "region_ok base k r" and whole: "\<not> saves_dirty base r"
  shows "runs (bnd (ckpt_vm_map_region (kern_os base) (saved_region base k r)) (\<lambda>e.
          if e \<noteq> 0 then ret (- 1)
          else
            bnd (read_mem (kern_os base) fd (r_start r) (unat (r_size r))) (\<lambda>bread.
              if bread \<noteq> unat (r_size r) then ret (- 1)
              else
                sq (fix_task_self (kern_os base) (saved_region base k r))
               (bnd (ckpt_vm_refresh_region (kern_os base) (saved_region base k r)) (\<lambda>e.
                  ret (if e \<noteq> 0 then - 1 else 0))))))
     (\<lambda>e k'. e = (0 :: int) \<and> no_failures k' \<and> file_left (k_file k') = rest \<and> restored base k [r] k1 k') k1"
proof -
  let ?r = "saved_region base k r" and ?b = "mem_bytes (k_mem k) (r_start r) (unat (r_size r))"
  let ?Q = "\<lambda>e k'. e = (0 :: int) \<and> no_failures k' \<and> file_left (k_file k') = rest \<and> restored base k [r] k1 k'"
  define k2 where "k2 = snd (k_map (r_start r) (r_size r) (r_tag r) True k1)"
  have k2: "no_failures k2" "file_left (k_file k2) = ?b @ rest"
    "k_mem k2 x = (if in_region r x then 0 else k_mem k1 x)"
    "in_region r x \<Longrightarrow> k_readable k2 x \<and> k_writable k2 x"
    "\<not> in_region r x \<Longrightarrow> k_readable k2 x = k_readable k1 x \<and> k_writable k2 x = k_writable k1 x" for x
    using assms(1,2) whole by (simp_all add: k2_def k_map_def no_failures_def region_payload_def)
  define m where "m = mem_store (r_start r) ?b (k_mem k2)"
  have m: "m x = (if in_region r x then k_mem k x else k_mem k1 x)" for x
    by (simp add: m_def mem_store_bytes k2(3))
  have load: "runs (read_mem (kern_os base) fd (r_start r) (unat (r_size r)))
     (\<lambda>n k'. n = unat (r_size r) \<and> no_failures k' \<and> file_left (k_file k') = rest \<and>
        only_file (k2\<lparr> k_mem := m \<rparr>) k') k2"
    unfolding m_def by (rule runs_read_mem [OF k2(1,2)]) (use k2(4) in \<open>simp_all add: in_range_size\<close>)
  have finish: "runs (sq (fix_task_self (kern_os base) ?r)
       (bnd (ckpt_vm_refresh_region (kern_os base) ?r) (\<lambda>e. ret (if e \<noteq> 0 then - 1 else 0)))) ?Q k3"
    if "no_failures k3" "file_left (k_file k3) = rest" "only_file (k2\<lparr> k_mem := m \<rparr>) k3" for k3
  proof -
    have "filled rest m ?r k1 k3"
      using that k2(4,5) by (auto simp: filled_def only_file_def)
    from runs_finish_region [OF this saved_region_ok [OF ok], of False]
    have "runs (sq (fix_task_self (kern_os base) ?r) (ckpt_vm_refresh_region (kern_os base) ?r)) ?Q k3"
      using m by (simp only: restored_saved_region saved_region_sel if_False simp_thms)
    then show ?thesis
      unfolding runs_sq runs_bnd runs_fix_task_self by (rule runs_mono) simp
  qed
  show ?thesis
    unfolding runs_bnd runs_map_region saved_region_sel k2_def [symmetric] runs_if
    by (simp del: runs_sq runs_bnd runs_fix_task_self)
      (rule runs_mono [OF load], simp del: runs_sq runs_bnd runs_fix_task_self add: finish)
qed

lemma runs_restore_region:
  assumes "no_failures k1" and "file_left (k_file k1) = region_payload base k r @ rest"
    and "region_ok base k r" and "pristine base k k1 r"
  shows "runs (ckpt_vm_restore_region (kern_os base) fd (saved_region base k r))
     (\<lambda>e k'. e = 0 \<and> no_failures k' \<and> file_left (k_file k') = rest \<and> restored base k [r] k1 k') k1"
  unfolding ckpt_vm_restore_region_def kern_os_region saved_region_dirty saved_region_sel
  using runs_restore_region_pages [OF assms(1-3) _ assms(4)] runs_restore_region_full [OF assms(1-3)]
  by (cases "saves_dirty base r") (simp_all del: runs_bnd)

lemma runs_read_vm_region:
  assumes "no_failures k1" and "file_left (k_file k1) = region_enc base k r @ rest"
    and "region_ok base k r" and "pristine base k k1 r"
  shows "runs (read_vm_region (kern_os base) fd)
     (\<lambda>x k'. x = Some (saved_region base k r) \<and> no_failures k' \<and> file_left (k_file k') = rest \<and>
        restored base k [r] k1 k') k1"
proof -
  have left: "file_left (k_file k1) = region_bytes (saved_region base k r) @ region_payload base k r @ rest"
    using assms(2) by (simp add: region_enc_def)
  have payload: "runs (ckpt_vm_restore_region (kern_os base) fd (saved_region base k r))
     (\<lambda>e k'. e = 0 \<and> no_failures k' \<and> file_left (k_file k') = rest \<and> restored base k [r] k1 k') k2"
    if "no_failures k2" "file_left (k_file k2) = region_payload base k r @ rest" "only_file k1 k2" for k2
  proof -
    have "pristine base k k2 r" "restored base k [r] k2 k' = restored base k [r] k1 k'" for k'
      using pristine_restored [OF assms(4) restored_Nil [OF that(3)]] that(3)
      by (simp_all add: restored_def only_file_def)
    with runs_restore_region [OF that(1,2) assms(3)] show ?thesis by simp
  qed
  show ?thesis
    unfolding read_vm_region_def runs_bnd
    by (rule runs_mono [OF runs_read_bytes [OF assms(1) left]]) (auto intro: runs_mono [OF payload])
qed

section \<open>Reading the entries\<close>

fun last_context :: "xnd_ckpt_entry list \<Rightarrow> bytes \<Rightarrow> bytes option \<Rightarrow> bytes option" where
  "last_context es c u = (if XND_UCONTEXT_ENTRY \<in> set es then Some c else u)"

lemma runs_read_entries:
  assumes "no_failures k1" and "file_left (k_file k1) = entries_enc base k uctx es rs @ rest"
    and "entries_fit es rs" and "\<And>r. r \<in> set rs \<Longrightarrow> region_ok base k r \<and> pristine base k k1 r"
    and "length acc + length rs \<le> max_regions" and "uc_size abi = length uctx"
  shows "runs (read_entries (kern_os base) abi fd max_regions (length es) acc u)
     (\<lambda>x k'. x = Some (acc @ map (saved_region base k) rs, last_context es (uc_relocate abi uctx) u) \<and>
        no_failures k' \<and> file_left (k_file k') = rest \<and> restored base k rs k1 k') k1"
  using assms
proof (induction es arbitrary: k1 rs acc u)
  case Nil
  then show ?case by (simp add: restored_Nil)
next
  case (Cons e es)
  define Q where "Q = (\<lambda>x k'. x = Some (acc @ map (saved_region base k) rs, last_context (e # es) (uc_relocate abi uctx) u) \<and>
        no_failures k' \<and> file_left (k_file k') = rest \<and> restored base k rs k1 k')"
  let ?body = "case e of XND_VM_REGION_ENTRY \<Rightarrow> region_enc base k (hd rs) @ entries_enc base k uctx es (tl rs)
      | _ \<Rightarrow> uctx @ entries_enc base k uctx es rs"
  have left: "file_left (k_file k1) = entry_bytes e @ ?body @ rest"
    using Cons.prems(2) by simp
  note tag = runs_mono [OF runs_read_bytes [OF Cons.prems(1) left, of 4]]
  show ?case
  proof (cases e)
    case XND_VM_REGION_ENTRY
    then obtain r rs' where rs: "rs = r # rs'" "entries_fit es rs'"
      using Cons.prems(3) by (cases rs) auto
    have others: "runs (read_entries (kern_os base) abi fd max_regions (length es)
        (acc @ [saved_region base k r]) u) Q k3"
      if k3: "no_failures k3" "file_left (k_file k3) = entries_enc base k uctx es rs' @ rest"
        "restored base k [r] k1 k3" for k3
    proof -
      have "region_ok base k r' \<and> pristine base k k3 r'" if "r' \<in> set rs'" for r'
        using Cons.prems(4) [of r'] that rs(1) pristine_restored [OF _ k3(3)] by simp
      note ok = this
      show ?thesis
        unfolding Q_def
        by (rule runs_mono [OF Cons.IH [OF k3(1,2) rs(2) ok]])
          (use Cons.prems(5,6) rs(1) XND_VM_REGION_ENTRY restored_trans [OF k3(3)] in auto)
    qed
    have region: "runs (read_vm_region (kern_os base) fd)
        (\<lambda>x k'. x = Some (saved_region base k r) \<and> no_failures k' \<and>
           file_left (k_file k') = entries_enc base k uctx es rs' @ rest \<and> restored base k [r] k1 k') k2"
      if k2: "no_failures k2" "file_left (k_file k2) = region_enc base k r @ entries_enc base k uctx es rs' @ rest"
        "only_file k1 k2" for k2
    proof -
      have "restored base k [r] k2 k' = restored base k [r] k1 k'" for k'
        using k2(3) by (simp add: restored_def only_file_def)
      moreover have "region_ok base k r" "pristine base k k2 r"
        using Cons.prems(4) [of r] rs(1) by (simp_all add: pristine_restored [OF _ restored_Nil [OF k2(3)]])
      ultimately show ?thesis using runs_read_vm_region [OF k2(1,2)] by simp
    qed
    have room: "\<not> max_regions \<le> length acc" using Cons.prems(5) rs(1) by simp
    show ?thesis
      unfolding list.size add.right_neutral add_Suc_right read_entries.simps runs_bnd Q_def [symmetric]
      by (rule tag) (use XND_VM_REGION_ENTRY rs(1) room in \<open>auto intro!: runs_mono [OF region] others\<close>)
  next
    case XND_UCONTEXT_ENTRY
    have others: "runs (read_entries (kern_os base) abi fd max_regions (length es) acc
        (Some (uc_relocate abi uctx))) Q k3"
      if k3: "no_failures k3" "file_left (k_file k3) = entries_enc base k uctx es rs @ rest" "only_file k1 k3" for k3
    proof -
      have "region_ok base k r' \<and> pristine base k k3 r'" if "r' \<in> set rs" for r'
        using Cons.prems(4) [OF that] by (simp add: pristine_restored [OF _ restored_Nil [OF k3(3)]])
      note ok = this
      have "entries_fit es rs" using Cons.prems(3) XND_UCONTEXT_ENTRY by simp
      then show ?thesis
        unfolding Q_def
        by (intro runs_mono [OF Cons.IH [OF k3(1,2) _ ok]])
          (use Cons.prems(5,6) XND_UCONTEXT_ENTRY restored_trans [OF restored_Nil [OF k3(3)], where k = k] in auto)
    qed
    have ctx: "runs (read_context (kern_os base) abi fd)
        (\<lambda>x k'. x = Some (uc_relocate abi uctx) \<and> no_failures k' \<and>
           file_left (k_file k') = entries_enc base k uctx es rs @ rest \<and> only_file k1 k') k2"
      if k2: "no_failures k2" "file_left (k_file k2) = uctx @ entries_enc base k uctx es rs @ rest"
        "only_file k1 k2" for k2
      unfolding read_context_def runs_bnd
      by (rule runs_mono [OF runs_read_bytes [OF k2(1,2)]])
        (use Cons.prems(6) only_file_trans [OF k2(3)] in auto)
    show ?thesis
      unfolding list.size add.right_neutral add_Suc_right read_entries.simps runs_bnd Q_def [symmetric]
      by (rule tag) (use XND_UCONTEXT_ENTRY in \<open>auto intro!: runs_mono [OF ctx] others\<close>)
  next
    case XND_VM_PAGE_ENTRY
    then show ?thesis using Cons.prems(3) by simp
  qed
qed

section \<open>The checkpoint and its restoration\<close>

text \<open>Another process with a file of the same contents open.\<close>

definition reopened :: "kern \<Rightarrow> nat \<Rightarrow> nat option list \<Rightarrow> kern \<Rightarrow> kern" where
  "reopened k pos sched k1 = k1\<lparr> k_file := \<lparr> f_data = f_data (k_file k), f_pos = pos, f_sched = sched \<rparr> \<rparr>"

text \<open>
  C1: the entries of a checkpoint are written without an error, and a process that reads the
  file from where they start gets the regions of the saved process back: their descriptions,
  their contents (but for the four bytes of its own \<^verbatim>\<open>mach_task_self_\<close>) and
  their permissions, and the saved context; the rest of its memory stays as it was. This holds
  for every way the transfers are split, also for the regions of which only dirty pages are
  saved, if the clean pages of those are what the restarting process has there.
\<close>

theorem checkpoint_restores_memory:
  assumes "ready k" and "entries_fit es rs" and "uc_size abi = length uctx" and "None \<notin> set sched"
    and "\<forall>r \<in> set rs. region_ok base k r \<and> pristine base k k1 r"
  shows "\<exists>k2 k3.
     write_entries (kern_os base) fd es rs uctx k = Some (Inr 0, k2) \<and>
     read_entries (kern_os base) abi fd' (length rs) (length es) [] None
         (reopened k2 (length (f_data (k_file k))) sched k1) =
       Some (Inr (Some (map (saved_region base k) rs, last_context es (uc_relocate abi uctx) None)), k3) \<and>
     restored base k rs k1 k3"
proof -
  from runs_write_entries [OF assms(1,2), of base fd uctx] assms(5)
  obtain k2 where k2: "write_entries (kern_os base) fd es rs uctx k = Some (Inr 0, k2)"
    "appended (entries_enc base k uctx es rs) k k2"
    by (auto simp: runs_def)
  let ?k1 = "reopened k2 (length (f_data (k_file k))) sched k1"
  have fresh: "no_failures ?k1" "file_left (k_file ?k1) = entries_enc base k uctx es rs @ []"
    using k2(2) assms(4) by (simp_all add: reopened_def no_failures_def file_left_def appended_def)
  have same: "restored base k rs ?k1 k3 = restored base k rs k1 k3" "pristine base k ?k1 r = pristine base k k1 r" for k3 r
    by (simp_all add: reopened_def restored_def pristine_def)
  have "runs (read_entries (kern_os base) abi fd' (length rs) (length es) [] None)
     (\<lambda>x k'. x = Some ([] @ map (saved_region base k) rs, last_context es (uc_relocate abi uctx) None) \<and>
        no_failures k' \<and> file_left (k_file k') = [] \<and> restored base k rs ?k1 k') ?k1"
    by (rule runs_read_entries [OF fresh assms(2)]) (use assms(3,5) same in auto)
  then show ?thesis
    using k2(1) same by (auto simp: runs_def)
qed

definition saved_kern :: kern where
  "saved_kern = \<lparr> k_file = \<lparr> f_data = [1, 2], f_pos = 2, f_sched = [Some 3] \<rparr>,
     k_mem = (\<lambda>x. if x = 0x2001 then 7 else if x = 0x3000 then 9 else 0),
     k_readable = (\<lambda>_. True), k_writable = (\<lambda>_. True), k_dirty = (\<lambda>x. x = 0x2000),
     k_errno = 0, k_port = (\<lambda>_. 0) \<rparr>"

definition malloc_region :: xnd_vm_region where
  "malloc_region = \<lparr> r_start = 0x2000, r_size = 8, r_inherit = VM_INHERIT_DEFAULT, r_prot = 3,
     r_max_prot = 7, r_mode = 0, r_tag = VM_MEMORY_MALLOC_TINY, r_pages_dirtied = 1, r_dirty_only = False \<rparr>"

definition data_region :: xnd_vm_region where
  "data_region = malloc_region\<lparr> r_start := 0x3000, r_size := 4, r_tag := 0 \<rparr>"

lemmas demo_region_defs = saved_kern_def malloc_region_def data_region_def saves_dirty_def dirty_cost_def
  ONLY_SAVE_DIRTY_PAGES_def ONLY_RESTORE_DIRTY_PAGES_def DYLD_SHARED_CACHE_REGION_def sizeof_region_def

theorem checkpoint_restores_memory_witness:
  "\<exists>k2 k3.
     write_entries (kern_os idle_os) 3 [XND_VM_REGION_ENTRY, XND_UCONTEXT_ENTRY, XND_VM_REGION_ENTRY]
       [malloc_region, data_region] [5, 6] saved_kern = Some (Inr 0, k2) \<and>
     restored idle_os saved_kern [malloc_region, data_region]
       (saved_kern\<lparr> k_mem := (\<lambda>_. 1) \<rparr>) k3 \<and>
     k_mem k3 0x2001 = 7 \<and> k_mem k3 0x2004 = 0 \<and> k_mem k3 0x3000 = 9 \<and> k_mem k3 0x3004 = 1"
proof -
  let ?es = "[XND_VM_REGION_ENTRY, XND_UCONTEXT_ENTRY, XND_VM_REGION_ENTRY]"
  let ?rs = "[malloc_region, data_region]" and ?k1 = "saved_kern\<lparr> k_mem := (\<lambda>_. 1) \<rparr>"
  let ?abi = "\<lparr> uc_size = 2, uc_relocate = (\<lambda>b. b) \<rparr>"
  have ok: "region_ok idle_os saved_kern malloc_region" "region_ok idle_os saved_kern data_region"
    by (simp_all add: region_ok_def page_count_def demo_region_defs VM_PROT_READ_def VM_PROT_WRITE_def)
  have clean: "pristine idle_os saved_kern ?k1 malloc_region" "pristine idle_os saved_kern ?k1 data_region"
    by (auto simp: pristine_def page_count_def page_start_def demo_region_defs in_range_def vm_consts less_2_cases_iff)
  have "\<exists>k2 k3. write_entries (kern_os idle_os) 3 ?es ?rs [5, 6] saved_kern = Some (Inr 0, k2) \<and>
      read_entries (kern_os idle_os) ?abi 4 (length ?rs) (length ?es) [] None
        (reopened k2 (length (f_data (k_file saved_kern))) [] ?k1) =
        Some (Inr (Some (map (saved_region idle_os saved_kern) ?rs, last_context ?es (uc_relocate ?abi [5, 6]) None)), k3) \<and>
      restored idle_os saved_kern ?rs ?k1 k3"
    by (rule checkpoint_restores_memory)
      (use ok clean in \<open>simp_all add: ready_def no_failures_def at_end_def saved_kern_def\<close>)
  moreover have "k_mem k3 0x2001 = 7 \<and> k_mem k3 0x2004 = 0 \<and> k_mem k3 0x3000 = 9 \<and> k_mem k3 0x3004 = 1"
    if "restored idle_os saved_kern ?rs ?k1 k3" for k3
    using restored_mem [OF that] by (simp add: in_range_def demo_region_defs)
  ultimately show ?thesis by blast
qed

end
