(* ===== verification/Image_Props.thy ===== *)
theory Image_Props
  imports Image_Restore
begin

text \<open>
  Behaviour of the image code on its rare paths: a page that is written partially, a page that
  has to be mapped during a restart, and the loops over the memory regions.
\<close>

section \<open>Partial writes\<close>

lemma partial_write_mem:
  assumes "at_end (k_file k)" and "f_sched (k_file k) = Some n # None # rest" and "0 < n" and "n < m"
    and readable: "\<And>i. i < m \<Longrightarrow> k_readable k (a + of_nat i)"
  shows "write_mem (kern_os base) fd a m k = Some (Inr n, k\<lparr> k_file :=
     \<lparr> f_data = f_data (k_file k) @ mem_bytes (k_mem k) a n, f_pos = f_pos (k_file k) + n, f_sched = rest \<rparr> \<rparr>)"
proof -
  let ?buf = "mem_bytes (k_mem k) a m"
  let ?k1 = "k\<lparr> k_file := \<lparr> f_data = f_data (k_file k) @ mem_bytes (k_mem k) a n,
     f_pos = f_pos (k_file k) + n, f_sched = None # rest \<rparr> \<rparr>"
  have take: "take n ?buf = mem_bytes (k_mem k) a n"
    using assms(4) by (intro nth_equalityI) simp_all
  have first: "k_write_from (a + of_nat (m - length ?buf)) ?buf k = (int n, ?k1)"
    using assms by (simp add: k_write_from_def k_write_def file_write_def file_limit_def at_end_def
        overwrite_def take min_def)
  have second: "k_write_from (a + of_nat (m - length (drop n ?buf))) (drop n ?buf) ?k1 =
      (- 1, k\<lparr> k_file := \<lparr> f_data = f_data (k_file k) @ mem_bytes (k_mem k) a n,
         f_pos = f_pos (k_file k) + n, f_sched = rest \<rparr> \<rparr>)"
  proof -
    have "k_readable k (a + of_nat n + of_nat i)" if "i < m - n" for i
      using readable [of "n + i"] that by (simp add: add.assoc)
    then show ?thesis
      using assms(4) by (simp add: k_write_from_def k_write_def file_write_def file_limit_def)
  qed
  let ?wr = "\<lambda>b. k_write_from (a + of_nat (m - length b)) b"
  have "writeall ?wr ?buf k = Some (n, k\<lparr> k_file :=
     \<lparr> f_data = f_data (k_file k) @ mem_bytes (k_mem k) a n, f_pos = f_pos (k_file k) + n, f_sched = rest \<rparr> \<rparr>)"
    unfolding writeall_def
    by (subst writeall_loop.simps, use first assms(3,4) in simp)
       (subst writeall_loop.simps, use second in simp)
  then show ?thesis
    by (simp add: write_mem_def bnd_def gets_def)
qed

text \<open>
  C37: when the first page of a region is written partially, the offset of the file is not put
  back to where the page started, as the comment says, but as many bytes before that as were
  written: what is written next replaces the end of what came before the page, the description
  of the region.
\<close>

theorem partial_page_write_moves_offset_back:
  assumes "at_end (k_file k)" and "f_sched (k_file k) = Some n # None # rest"
    and "0 < n" and "n < os_page base" and "os_page base \<le> unat (r_size r)" and "n \<le> length (f_data (k_file k))"
    and "\<forall>i < os_page base. k_readable k (r_start r + of_nat i)"
  shows "\<exists>k'. write_vm_region_all_pages (kern_os base) fd r k = Some (Inr 0, k') \<and>
     f_data (k_file k') = f_data (k_file k) @ mem_bytes (k_mem k) (r_start r) n \<and>
     f_pos (k_file k') = length (f_data (k_file k)) - n"
proof -
  obtain q where q: "unat (r_size r) div os_page base = Suc q"
    using assms(3-5) by (metis div_greater_zero_iff gr0_implies_Suc less_trans)
  have "write_mem (kern_os base) fd (r_start r) (os_page base) k = Some (Inr n, k\<lparr> k_file :=
     \<lparr> f_data = f_data (k_file k) @ mem_bytes (k_mem k) (r_start r) n,
        f_pos = f_pos (k_file k) + n, f_sched = rest \<rparr> \<rparr>)"
    by (rule partial_write_mem) (use assms in auto)
  then show ?thesis
    using assms(1,3,4,6)
    by (simp add: write_vm_region_all_pages_def q page_addr_def bnd_def sq_def sys_def assert_p_def ret_def
        halt_def k_seek_def file_seek_def at_end_def nat_diff_distrib)
qed

theorem partial_page_write_moves_offset_back_witness:
  "\<exists>k'. write_vm_region_all_pages (kern_os idle_os) 3 malloc_region
       (saved_kern\<lparr> k_file := \<lparr> f_data = [1, 2, 3], f_pos = 3, f_sched = [Some 2, None] \<rparr> \<rparr>) = Some (Inr 0, k') \<and>
     f_data (k_file k') = [1, 2, 3, 0, 7] \<and> f_pos (k_file k') = 1"
proof -
  let ?k = "saved_kern\<lparr> k_file := \<lparr> f_data = [1, 2, 3], f_pos = 3, f_sched = [Some 2, None] \<rparr> \<rparr>"
  have "\<exists>k'. write_vm_region_all_pages (kern_os idle_os) 3 malloc_region ?k = Some (Inr 0, k') \<and>
     f_data (k_file k') = f_data (k_file ?k) @ mem_bytes (k_mem ?k) (r_start malloc_region) 2 \<and>
     f_pos (k_file k') = length (f_data (k_file ?k)) - 2"
    by (rule partial_page_write_moves_offset_back)
      (simp_all add: at_end_def malloc_region_def saved_kern_def)
  moreover have two: "mem_bytes m a 2 = [m a, m (a + 1)]" for m a
    by (simp add: mem_bytes_def numeral_2_eq_2)
  have "mem_bytes (k_mem ?k) (r_start malloc_region) 2 = [0, 7]"
    by (simp add: two saved_kern_def malloc_region_def)
  ultimately show ?thesis by simp
qed

section \<open>Pages that have to be mapped\<close>

text \<open>
  A saved page that is not mapped (reading into it fails with \<^verbatim>\<open>EFAULT\<close>) is
  mapped at its address; the code then compares that address with the start of the region, so
  the restart is aborted for every page but the first.
\<close>

theorem missing_page_aborts_restart:
  fixes os :: "('w, 'm) vm_os_scheme"
  assumes "offset \<noteq> 0"
    and "read_mem os fd (page_addr r offset) (os_page os) w = Some (Inr 0, w1)" and "os_page os \<noteq> 0"
    and "os_errno os w1 = EFAULT"
    and "os_vm_map os (page_addr r offset) (of_nat (os_page os)) (r_tag r) False w1 = (Some (page_addr r offset), w2)"
  shows "ckpt_vm_page_restore os fd r offset w = Some (Inl Aborted, w2)"
  using assms
  by (simp add: ckpt_vm_page_restore_def ckpt_vm_map_page_def bnd_def sq_def gets_def sys_def assert_p_def
      ret_def halt_def page_addr_def)

theorem missing_page_aborts_restart_witness:
  "ckpt_vm_page_restore (kern_os idle_os) 3 malloc_region 4 (saved_kern\<lparr> k_writable := (\<lambda>_. False) \<rparr>) =
     Some (Inl Aborted, snd (k_map 0x2004 4 VM_MEMORY_MALLOC_TINY False
       (saved_kern\<lparr> k_writable := (\<lambda>_. False), k_errno := EFAULT \<rparr>)))"
proof -
  let ?k = "saved_kern\<lparr> k_writable := (\<lambda>_. False) \<rparr>" and ?os = "kern_os idle_os"
  let ?k1 = "?k\<lparr> k_errno := EFAULT \<rparr>"
  have store: "mem_store a [] m = m" for a m by (simp add: mem_store_def fun_eq_iff in_range_def)
  have "k_read_to a 4 ?k = (None, ?k1)" for a by (auto simp: k_read_to_def dest: spec [of _ 0])
  then have read: "read_mem ?os 3 (page_addr malloc_region 4) (os_page ?os) ?k = Some (Inr 0, ?k1)"
    by (simp add: read_mem_def bnd_def readall_def readall_loop.simps sq_def modify_def ret_def store)
  show ?thesis
    by (rule missing_page_aborts_restart [OF _ read])
      (simp_all add: kern_os_def k_map_def page_addr_def malloc_region_def saved_kern_def)
qed

section \<open>Submaps\<close>

text \<open>
  C38: if the kernel answers a submap, and answers it again when it is asked with the address
  and the depth it returned, marking the regions of the restart program does not end: the
  depth is not increased, as \<^verbatim>\<open>ckpt_vm_save_regions\<close> does. The search for the
  buffer cache region has the same loop.
\<close>

lemma mark_loop_submap:
  assumes "os_vm_recurse os a d w = Some (a, sz, d, info)" and "vi_is_submap info"
  shows "mark_loop os a d w = None"
proof -
  have "\<not> (os = os \<and> a = a \<and> d = d \<and> w = w)" if "mark_loop os a d w = Some r" for r
    by (rule mark_loop.raw_induct [OF _ that, where P = "\<lambda>os' a' d' v r. \<not> (os' = os \<and> a' = a \<and> d' = d \<and> v = w)"])
      (use assms in fastforce)
  then show ?thesis by (cases "mark_loop os a d w") auto
qed

lemma find_ubc_loop_submap:
  assumes "os_vm_recurse os a d w = Some (a, sz, d, info)" and "vi_is_submap info"
  shows "find_ubc_loop os a d w = None"
proof -
  have "\<not> (os = os \<and> a = a \<and> d = d \<and> w = w)" if "find_ubc_loop os a d w = Some r" for r
    by (rule find_ubc_loop.raw_induct [OF _ that, where P = "\<lambda>os' a' d' v r. \<not> (os' = os \<and> a' = a \<and> d' = d \<and> v = w)"])
      (use assms in fastforce)
  then show ?thesis by (cases "find_ubc_loop os a d w") auto
qed

theorem marking_regions_hangs_on_submap:
  assumes "os_vm_recurse os 0 0 w = Some (a, sz, d, info)" and "vi_is_submap info"
    and "os_vm_recurse os a d w = Some (a, sz, d, info)"
  shows "ckpt_vm_mark_regions os w = None \<and> ckpt_vm_find_ubc_region os w = None"
  using assms mark_loop_submap [OF assms(3,2)] find_ubc_loop_submap [OF assms(3,2)]
  by (simp add: ckpt_vm_mark_regions_def ckpt_vm_find_ubc_region_def mark_loop.simps [of os 0]
      find_ubc_loop.simps [of os 0])

definition submap_os :: "(kern, unit) vm_os_scheme" where
  "submap_os = idle_os\<lparr> os_vm_recurse := \<lambda>addr depth k.
     if 0x180000000 < addr then None
     else Some (0x180000000, 0x1000, depth,
       \<lparr> vi_protection = 1, vi_max_protection = 1, vi_inheritance = 1, vi_behavior = 0, vi_share_mode = 0,
         vi_user_tag = 0, vi_pages_resident = 1, vi_pages_dirtied = 0, vi_is_submap = True \<rparr>) \<rparr>"

theorem marking_regions_hangs_on_submap_witness:
  "ckpt_vm_mark_regions submap_os saved_kern = None \<and> ckpt_vm_find_ubc_region submap_os saved_kern = None"
  by (rule marking_regions_hangs_on_submap [where a = "0x180000000" and sz = "0x1000" and d = 0]) (simp_all add: submap_os_def)

end
