(* ===== verification/Fd_Table.thy ===== *)
theory Fd_Table
  imports Prog
begin

text \<open>
  \<^verbatim>\<open>fd_table.c\<close>: the table of the open files and directories of the process,
  from which a restart opens them again. An entry of the table points to a description that
  several descriptors share after a \<^verbatim>\<open>dup\<close>; descriptions are blocks of a heap
  with a reference count. The calls into the system are a record over a world \<open>'w\<close>; the
  lock is not modelled, every operation runs with it held.
\<close>

section \<open>Data\<close>

definition MAXFILES :: int where "MAXFILES = 512"

definition PATH_MAX :: nat where "PATH_MAX = 1024"

datatype fd_state = FD_STATE_NULL | FD_STATE_SAVED | FD_STATE_RESTORED

datatype fd_type = FD_NULL | FD_INHERITED | FD_FILE | FD_DIRECTORY

definition O_RDONLY :: u32 where "O_RDONLY = 0"
definition O_WRONLY :: u32 where "O_WRONLY = 1"
definition O_RDWR :: u32 where "O_RDWR = 2"
definition O_NONBLOCK :: u32 where "O_NONBLOCK = 4"
definition O_APPEND :: u32 where "O_APPEND = 8"
definition O_CREAT :: u32 where "O_CREAT = 0x200"
definition O_TRUNC :: u32 where "O_TRUNC = 0x400"
definition O_EXCL :: u32 where "O_EXCL = 0x800"
definition O_DIRECTORY :: u32 where "O_DIRECTORY = 0x100000"
definition O_CLOEXEC :: u32 where "O_CLOEXEC = 0x1000000"
definition FD_CLOEXEC :: u32 where "FD_CLOEXEC = 1"

lemmas open_flags = O_RDONLY_def O_WRONLY_def O_RDWR_def O_NONBLOCK_def O_APPEND_def O_CREAT_def
  O_TRUNC_def O_EXCL_def O_DIRECTORY_def O_CLOEXEC_def FD_CLOEXEC_def

record fd_source =
  s_type :: fd_type
  s_state :: fd_state
  s_path :: string
  s_flags :: u32
  s_mode :: u32
  s_offset :: int
  s_ref :: int
  s_root :: fd
  s_dirp :: nat

text \<open>
  The calls: \<open>fo_malloc\<close> answers the contents of a new block, which are arbitrary, or
  none; \<open>fo_getfl\<close> and \<open>fo_getfd\<close> are the two queries of
  \<^verbatim>\<open>fcntl\<close>, none if they fail; \<open>fo_tell\<close> and \<open>fo_seek\<close> the two
  uses of \<^verbatim>\<open>lseek\<close>. A \<^verbatim>\<open>DIR *\<close> is a number.
\<close>

record 'w fd_os =
  fo_malloc :: "'w \<Rightarrow> fd_source option \<times> 'w"
  fo_tell :: "fd \<Rightarrow> 'w \<Rightarrow> int \<times> 'w"
  fo_seek :: "fd \<Rightarrow> int \<Rightarrow> 'w \<Rightarrow> int \<times> 'w"
  fo_getfl :: "fd \<Rightarrow> 'w \<Rightarrow> u32 option"
  fo_getfd :: "fd \<Rightarrow> 'w \<Rightarrow> u32 option"
  fo_open :: "string \<Rightarrow> u32 \<Rightarrow> u32 \<Rightarrow> 'w \<Rightarrow> fd \<times> 'w"
  fo_dup2 :: "fd \<Rightarrow> fd \<Rightarrow> 'w \<Rightarrow> fd \<times> 'w"
  fo_close :: "fd \<Rightarrow> 'w \<Rightarrow> int \<times> 'w"
  fo_telldir :: "nat \<Rightarrow> 'w \<Rightarrow> int \<times> 'w"
  fo_seekdir :: "nat \<Rightarrow> int \<Rightarrow> 'w \<Rightarrow> 'w"
  fo_dirfd :: "nat \<Rightarrow> 'w \<Rightarrow> fd"

text \<open>The table with the heap its entries point into, and the world.\<close>

record 'w fdt =
  t_table :: "fd \<Rightarrow> nat option"
  t_heap :: "nat \<Rightarrow> fd_source option"
  t_next :: nat
  t_init :: bool
  t_world :: 'w

definition os_call :: "('w \<Rightarrow> 'a \<times> 'w) \<Rightarrow> (('w, 'm) fdt_scheme, 'a) prog" where
  "os_call f = (\<lambda>s. case f (t_world s) of (a, w) \<Rightarrow> Some (Inr a, s\<lparr> t_world := w \<rparr>))"

text \<open>Accesses: \<open>table[fd]\<close> out of the array and a freed or null description have no meaning.\<close>

definition slot :: "fd \<Rightarrow> (('w, 'm) fdt_scheme, nat option) prog" where
  "slot fd = (if 0 \<le> fd \<and> fd < MAXFILES then gets (\<lambda>s. t_table s fd) else halt Undefined)"

definition set_slot :: "fd \<Rightarrow> nat option \<Rightarrow> (('w, 'm) fdt_scheme, unit) prog" where
  "set_slot fd p = (if 0 \<le> fd \<and> fd < MAXFILES then modify (\<lambda>s. s\<lparr> t_table := (t_table s)(fd := p) \<rparr>)
     else halt Undefined)"

definition load :: "nat \<Rightarrow> (('w, 'm) fdt_scheme, fd_source) prog" where
  "load p = bnd (gets (\<lambda>s. t_heap s p)) (\<lambda>v. case v of None \<Rightarrow> halt Undefined | Some src \<Rightarrow> ret src)"

definition store :: "nat \<Rightarrow> (fd_source \<Rightarrow> fd_source) \<Rightarrow> (('w, 'm) fdt_scheme, unit) prog" where
  "store p f = bnd (load p) (\<lambda>src. modify (\<lambda>s. s\<lparr> t_heap := (t_heap s)(p \<mapsto> f src) \<rparr>))"

definition source_of :: "fd \<Rightarrow> (('w, 'm) fdt_scheme, nat) prog" where
  "source_of fd = bnd (slot fd) (\<lambda>p. case p of None \<Rightarrow> halt Undefined | Some p \<Rightarrow> ret p)"

text \<open>\<^verbatim>\<open>malloc\<close>, with the abort of its callers when it fails, and \<^verbatim>\<open>free\<close>.\<close>

definition malloc_source :: "('w, 'n) fd_os_scheme \<Rightarrow> (('w, 'm) fdt_scheme, nat) prog" where
  "malloc_source os =
     bnd (os_call (fo_malloc os)) (\<lambda>b. case b of
         None \<Rightarrow> halt Aborted
       | Some junk \<Rightarrow>
           bnd (gets t_next) (\<lambda>p.
           sq (modify (\<lambda>s. s\<lparr> t_heap := (t_heap s)(p \<mapsto> junk), t_next := p + 1 \<rparr>)) (ret p)))"

definition free_source :: "nat \<Rightarrow> (('w, 'm) fdt_scheme, unit) prog" where
  "free_source p = modify (\<lambda>s. s\<lparr> t_heap := (t_heap s)(p := None) \<rparr>)"

definition tracked :: "fd \<Rightarrow> (('w, 'm) fdt_scheme, fd_source option) prog" where
  "tracked fd = bnd (slot fd) (\<lambda>p. case p of
       None \<Rightarrow> ret None
     | Some p \<Rightarrow> bnd (load p) (\<lambda>src. ret (Some src)))"

section \<open>Saving and restoring one descriptor\<close>

text \<open>The close-on-exec flag of the description follows that of the descriptor.\<close>

definition sync_cloexec :: "u32 \<Rightarrow> u32 \<Rightarrow> u32" where
  "sync_cloexec r flags =
     (if flags AND O_CLOEXEC \<noteq> 0 \<and> r AND FD_CLOEXEC = 0 then flags AND NOT O_CLOEXEC
      else if r AND FD_CLOEXEC \<noteq> 0 \<and> flags AND O_CLOEXEC = 0 then flags OR O_CLOEXEC
      else flags)"

definition file_save :: "('w, 'n) fd_os_scheme \<Rightarrow> fd \<Rightarrow> (('w, 'm) fdt_scheme, int) prog" where
  "file_save os fd =
     bnd (source_of fd) (\<lambda>src.
     bnd (os_call (fo_tell os fd)) (\<lambda>off.
     sq (store src (\<lambda>s. s\<lparr> s_offset := off \<rparr>))
    (if off < 0 then ret (- 1)
     else
       bnd (gets (\<lambda>s. fo_getfl os fd (t_world s))) (\<lambda>r. case r of
           None \<Rightarrow> ret (- 1)
         | Some r \<Rightarrow>
             sq (store src (\<lambda>s. s\<lparr> s_flags := s_flags s OR (r AND (O_APPEND OR O_NONBLOCK)) \<rparr>))
            (bnd (gets (\<lambda>s. fo_getfd os fd (t_world s))) (\<lambda>r. case r of
                 None \<Rightarrow> ret (- 1)
               | Some r \<Rightarrow>
                   sq (store src (\<lambda>s. s\<lparr> s_flags := (sync_cloexec r (s_flags s) AND NOT O_TRUNC) AND NOT O_EXCL,
                                         s_state := FD_STATE_SAVED \<rparr>))
                      (ret 0)))))))"

text \<open>The steps that the two restore functions share: open the file again at the same number.\<close>

definition reopen_at :: "('w, 'n) fd_os_scheme \<Rightarrow> fd \<Rightarrow> nat \<Rightarrow> (('w, 'm) fdt_scheme, int) prog" where
  "reopen_at os fd src =
     bnd (load src) (\<lambda>s.
     bnd (os_call (fo_open os (s_path s) (s_flags s) (s_mode s))) (\<lambda>r.
       if r < 0 then ret (- 1)
       else if r \<noteq> fd then
         bnd (os_call (fo_dup2 os r fd)) (\<lambda>d.
           if d \<noteq> fd then ret (- 1) else bnd (os_call (fo_close os r)) (\<lambda>_. ret 0))
       else ret 0))"

definition file_restore :: "('w, 'n) fd_os_scheme \<Rightarrow> fd \<Rightarrow> (('w, 'm) fdt_scheme, int) prog" where
  "file_restore os fd =
     bnd (source_of fd) (\<lambda>src.
     bnd (reopen_at os fd src) (\<lambda>e.
       if e < 0 then ret (- 1)
       else
         bnd (load src) (\<lambda>s.
         bnd (os_call (fo_seek os fd (s_offset s))) (\<lambda>r.
           if r \<noteq> s_offset s then ret (- 1)
           else
             sq (store src (\<lambda>s. s\<lparr> s_root := fd, s_state := FD_STATE_RESTORED \<rparr>)) (ret 0)))))"

definition dir_save :: "('w, 'n) fd_os_scheme \<Rightarrow> fd \<Rightarrow> (('w, 'm) fdt_scheme, int) prog" where
  "dir_save os fd =
     bnd (source_of fd) (\<lambda>src.
     bnd (load src) (\<lambda>s.
     bnd (os_call (fo_telldir os (s_dirp s))) (\<lambda>tell.
       if tell < 0 then ret (- 1)
       else
         sq (store src (\<lambda>s. s\<lparr> s_offset := tell \<rparr>))
        (bnd (gets (\<lambda>s. fo_getfd os fd (t_world s))) (\<lambda>r. case r of
             None \<Rightarrow> ret (- 1)
           | Some r \<Rightarrow>
               sq (store src (\<lambda>s. s\<lparr> s_flags := sync_cloexec r (s_flags s), s_state := FD_STATE_SAVED \<rparr>))
                  (ret 0))))))"

definition dir_restore :: "('w, 'n) fd_os_scheme \<Rightarrow> fd \<Rightarrow> (('w, 'm) fdt_scheme, int) prog" where
  "dir_restore os fd =
     bnd (source_of fd) (\<lambda>src.
     bnd (reopen_at os fd src) (\<lambda>e.
       if e < 0 then ret (- 1)
       else
         bnd (load src) (\<lambda>s.
         sq (os_call (\<lambda>w. ((), fo_seekdir os (s_dirp s) (s_offset s) w)))
        (sq (store src (\<lambda>s. s\<lparr> s_root := fd, s_state := FD_STATE_RESTORED \<rparr>)) (ret 0)))))"

text \<open>The table of operations; the other types have null pointers there.\<close>

definition fd_ops_save :: "('w, 'n) fd_os_scheme \<Rightarrow> fd_type \<Rightarrow> fd \<Rightarrow> (('w, 'm) fdt_scheme, int) prog" where
  "fd_ops_save os t fd = (case t of FD_FILE \<Rightarrow> file_save os fd | FD_DIRECTORY \<Rightarrow> dir_save os fd | _ \<Rightarrow> halt Undefined)"

definition fd_ops_restore :: "('w, 'n) fd_os_scheme \<Rightarrow> fd_type \<Rightarrow> fd \<Rightarrow> (('w, 'm) fdt_scheme, int) prog" where
  "fd_ops_restore os t fd =
     (case t of FD_FILE \<Rightarrow> file_restore os fd | FD_DIRECTORY \<Rightarrow> dir_restore os fd | _ \<Rightarrow> halt Undefined)"

section \<open>The table\<close>

definition all_fds :: "fd list" where "all_fds = map int [0..<nat MAXFILES]"

definition standard_fds :: "fd list" where "standard_fds = [0, 1, 2]"

definition init_slot :: "('w, 'n) fd_os_scheme \<Rightarrow> fd \<Rightarrow> (('w, 'm) fdt_scheme, unit) prog" where
  "init_slot os fd =
     bnd (malloc_source os) (\<lambda>p.
     sq (set_slot fd (Some p))
        (store p (\<lambda>s. s\<lparr> s_type := FD_INHERITED, s_ref := 1, s_state := FD_STATE_NULL, s_root := fd \<rparr>)))"

definition fd_table_init :: "('w, 'n) fd_os_scheme \<Rightarrow> (('w, 'm) fdt_scheme, unit) prog" where
  "fd_table_init os = sq (each (init_slot os) standard_fds) (modify (\<lambda>s. s\<lparr> t_init := True \<rparr>))"

text \<open>Giving up a reference, freeing the description with the last one.\<close>

definition drop_ref :: "nat \<Rightarrow> (('w, 'm) fdt_scheme, bool) prog" where
  "drop_ref p =
     sq (store p (\<lambda>s. s\<lparr> s_ref := s_ref s - 1 \<rparr>))
    (bnd (load p) (\<lambda>s. if s_ref s = 0 then sq (free_source p) (ret True) else ret False))"

definition destroy_slot :: "fd \<Rightarrow> (('w, 'm) fdt_scheme, unit) prog" where
  "destroy_slot fd =
     bnd (slot fd) (\<lambda>p. case p of
         None \<Rightarrow> ret ()
       | Some p \<Rightarrow> bnd (drop_ref p) (\<lambda>freed. if freed then set_slot fd None else ret ()))"

definition fd_table_destroy :: "(('w, 'm) fdt_scheme, unit) prog" where
  "fd_table_destroy = each destroy_slot all_fds"

text \<open>A failure to save one descriptor is not looked at.\<close>

definition save_slot :: "('w, 'n) fd_os_scheme \<Rightarrow> fd \<Rightarrow> (('w, 'm) fdt_scheme, unit) prog" where
  "save_slot os fd =
     bnd (tracked fd) (\<lambda>s. case s of
         None \<Rightarrow> ret ()
       | Some s \<Rightarrow>
           if s_type s = FD_INHERITED then ret ()
           else if s_state s \<noteq> FD_STATE_SAVED then bnd (fd_ops_save os (s_type s) fd) (\<lambda>_. ret ())
           else ret ())"

definition fd_table_save :: "('w, 'n) fd_os_scheme \<Rightarrow> (('w, 'm) fdt_scheme, unit) prog" where
  "fd_table_save os = each (save_slot os) all_fds"

definition dup2_or_abort :: "('w, 'n) fd_os_scheme \<Rightarrow> fd \<Rightarrow> fd \<Rightarrow> (('w, 'm) fdt_scheme, unit) prog" where
  "dup2_or_abort os root fd = bnd (os_call (fo_dup2 os root fd)) (\<lambda>d. if d \<noteq> fd then halt Aborted else ret ())"

definition restore_inherited :: "('w, 'n) fd_os_scheme \<Rightarrow> fd \<Rightarrow> (('w, 'm) fdt_scheme, unit) prog" where
  "restore_inherited os fd =
     bnd (tracked fd) (\<lambda>s. case s of
         None \<Rightarrow> ret ()
       | Some s \<Rightarrow>
           if s_type s \<noteq> FD_INHERITED then ret ()
           else if fd \<noteq> s_root s then dup2_or_abort os (s_root s) fd else ret ())"

definition restore_slot :: "('w, 'n) fd_os_scheme \<Rightarrow> fd \<Rightarrow> (('w, 'm) fdt_scheme, unit) prog" where
  "restore_slot os fd =
     bnd (tracked fd) (\<lambda>s. case s of
         None \<Rightarrow> ret ()
       | Some s \<Rightarrow>
           if s_type s = FD_INHERITED then ret ()
           else if s_state s = FD_STATE_RESTORED then dup2_or_abort os (s_root s) fd
           else bnd (fd_ops_restore os (s_type s) fd) (\<lambda>e. if e < 0 then halt Aborted else ret ()))"

definition close_untracked :: "('w, 'n) fd_os_scheme \<Rightarrow> fd \<Rightarrow> (('w, 'm) fdt_scheme, unit) prog" where
  "close_untracked os fd =
     bnd (slot fd) (\<lambda>p. if p = None then bnd (os_call (fo_close os fd)) (\<lambda>_. ret ()) else ret ())"

definition fd_table_restore :: "('w, 'n) fd_os_scheme \<Rightarrow> (('w, 'm) fdt_scheme, unit) prog" where
  "fd_table_restore os =
     sq (each (restore_inherited os) all_fds)
    (sq (each (restore_slot os) all_fds)
        (each (close_untracked os) standard_fds))"

section \<open>Recording what the program opens and closes\<close>

text \<open>\<^verbatim>\<open>strncpy\<close> with the length of the path overruns the array for a longer one.\<close>

definition copy_path :: "nat \<Rightarrow> string \<Rightarrow> (('w, 'm) fdt_scheme, unit) prog" where
  "copy_path p path =
     (if length path + 1 > PATH_MAX then halt Undefined else store p (\<lambda>s. s\<lparr> s_path := path \<rparr>))"

definition fd_table_open ::
  "('w, 'n) fd_os_scheme \<Rightarrow> fd \<Rightarrow> string \<Rightarrow> u32 \<Rightarrow> u32 \<Rightarrow> (('w, 'm) fdt_scheme, unit) prog" where
  "fd_table_open os fd path flags mode =
     bnd (gets t_init) (\<lambda>init.
       if \<not> init then ret ()
       else
         bnd (malloc_source os) (\<lambda>p.
         sq (set_slot fd (Some p))
        (sq (store p (\<lambda>s. s\<lparr> s_type := FD_FILE, s_ref := 1, s_mode := mode, s_flags := flags,
                            s_state := FD_STATE_NULL \<rparr>))
            (copy_path p path))))"

definition fd_table_opendir ::
  "('w, 'n) fd_os_scheme \<Rightarrow> nat \<Rightarrow> string \<Rightarrow> (('w, 'm) fdt_scheme, unit) prog" where
  "fd_table_opendir os dirp path =
     bnd (gets t_init) (\<lambda>init.
       if \<not> init then ret ()
       else
         bnd (gets (\<lambda>s. fo_dirfd os dirp (t_world s))) (\<lambda>fd.
         bnd (slot fd) (\<lambda>p.
         bnd (case p of
                Some p \<Rightarrow> ret p
              | None \<Rightarrow>
                  bnd (malloc_source os) (\<lambda>p.
                  sq (set_slot fd (Some p))
                 (sq (store p (\<lambda>s. s\<lparr> s_ref := 1, s_mode := 0, s_state := FD_STATE_NULL,
                                     s_flags := O_RDONLY OR O_DIRECTORY \<rparr>))
                 (sq (copy_path p path) (ret p))))) (\<lambda>p.
           store p (\<lambda>s. s\<lparr> s_type := FD_DIRECTORY, s_dirp := dirp \<rparr>)))))"

definition fd_table_dup :: "fd \<Rightarrow> fd \<Rightarrow> (('w, 'm) fdt_scheme, unit) prog" where
  "fd_table_dup oldfd newfd =
     bnd (gets t_init) (\<lambda>init.
       if \<not> init then ret ()
       else
         bnd (slot oldfd) (\<lambda>p. case p of
             None \<Rightarrow> ret ()
           | Some p \<Rightarrow>
               bnd (load p) (\<lambda>s.
                 if s_type s = FD_NULL then ret ()
                 else sq (set_slot newfd (Some p)) (store p (\<lambda>s. s\<lparr> s_ref := s_ref s + 1 \<rparr>)))))"

definition fd_table_close :: "fd \<Rightarrow> (('w, 'm) fdt_scheme, unit) prog" where
  "fd_table_close fd =
     bnd (gets t_init) (\<lambda>init.
       if \<not> init then ret ()
       else
         bnd (slot fd) (\<lambda>p. case p of
             None \<Rightarrow> ret ()
           | Some p \<Rightarrow>
               bnd (load p) (\<lambda>s.
                 if s_type s = FD_NULL then ret ()
                 else bnd (drop_ref p) (\<lambda>_. set_slot fd None))))"

end
