(* ===== verification/Thread_Info.thy ===== *)
theory Thread_Info
  imports Fd_Table
begin

text \<open>
  The data of \<^verbatim>\<open>thread_info.h\<close>, \<^verbatim>\<open>xnd_lib.h\<close> and
  \<^verbatim>\<open>interpose.h\<close> that every wrapper of a library function uses: the state of the
  calling thread, the state of the checkpoint library, and the two functions that keep a
  checkpoint from interrupting a wrapper.
\<close>

section \<open>Data\<close>

datatype thread_state =
  ST_EMBRYO | ST_RUNNING | ST_SIGNALED | ST_SUSPINPROG | ST_SUSPENDED | ST_CKPT_THREAD | ST_UNSAFE

datatype xnd_state =
  XND_UNINITIALIZED | XND_RUNNING | XND_CKPT_PENDING | XND_SUSPINPROG | XND_CKPTINPROG | XND_ATFORK | XND_EXITING

text \<open>
  Thread descriptors. Contexts and stacks are opaque; the mutex and the condition variable of a
  descriptor are part of the interleaving model.
\<close>

record thread_info =
  ti_self :: nat
  ti_start_routine :: nat
  ti_arg :: nat
  ti_state :: thread_state
  ti_depth :: u32
  ti_exiting :: bool
  ti_joined :: bool
  ti_uctx :: bytes
  ti_ss :: "u64 \<times> u64 \<times> u32"
  ti_sigblocked :: u32
  ti_tls :: u64

definition thread_state_cas :: "thread_info \<Rightarrow> thread_state \<Rightarrow> thread_state \<Rightarrow> bool \<times> thread_info" where
  "thread_state_cas th expected desired =
     (if ti_state th = expected then (True, th\<lparr> ti_state := desired \<rparr>) else (False, th))"

text \<open>
  The process as a wrapper sees it: the descriptor table and the world, the descriptor of the
  calling thread (none before it is set up), the state of the library, and the slot of
  thread-local storage that says whether the thread has its thread-local variables.
\<close>

record 'w lib = "'w fdt" +
  l_self :: "thread_info option"
  l_state :: xnd_state
  l_tlv :: u64

definition TSD_XND_INIT :: u64 where "TSD_XND_INIT = 0x0000000005203090"
definition TSD_XND_FINI :: u64 where "TSD_XND_FINI = 0x0000000020471120"

definition xnd_tlv_init :: "(('w, 'm) lib_scheme, unit) prog" where
  "xnd_tlv_init = modify (\<lambda>s. s\<lparr> l_tlv := TSD_XND_INIT \<rparr>)"

definition xnd_tlv_fini :: "(('w, 'm) lib_scheme, unit) prog" where
  "xnd_tlv_fini = modify (\<lambda>s. s\<lparr> l_tlv := TSD_XND_FINI \<rparr>)"

definition xnd_tlv_ok :: "('w, 'm) lib_scheme \<Rightarrow> bool" where
  "xnd_tlv_ok s \<longleftrightarrow> l_tlv s = TSD_XND_INIT"

definition XND_SKIP_INTERPOSE :: "('w, 'm) lib_scheme \<Rightarrow> bool" where
  "XND_SKIP_INTERPOSE s \<longleftrightarrow> \<not> xnd_tlv_ok s \<or> l_state s = XND_UNINITIALIZED"

section \<open>Sections a checkpoint must not interrupt\<close>

text \<open>
  The outermost wrapper waits until the state is \<^const>\<open>ST_RUNNING\<close>, for ever if nobody
  else changes it; the depth is unsigned.
\<close>

definition unsafe_enter :: "(('w, 'm) lib_scheme, unit) prog" where
  "unsafe_enter s =
     (case l_self s of
        None \<Rightarrow> Some (Inr (), s)
      | Some self \<Rightarrow>
          if ti_state self = ST_EMBRYO \<or> ti_state self = ST_CKPT_THREAD then Some (Inr (), s)
          else if ti_depth self = 0 then
            (case thread_state_cas (self\<lparr> ti_depth := 1 \<rparr>) ST_RUNNING ST_UNSAFE of
               (True, self') \<Rightarrow> Some (Inr (), s\<lparr> l_self := Some self' \<rparr>)
             | (False, _) \<Rightarrow> None)
          else Some (Inr (), s\<lparr> l_self := Some (self\<lparr> ti_depth := ti_depth self + 1 \<rparr>) \<rparr>))"

definition unsafe_exit :: "(('w, 'm) lib_scheme, unit) prog" where
  "unsafe_exit s =
     (case l_self s of
        None \<Rightarrow> Some (Inr (), s)
      | Some self \<Rightarrow>
          if ti_state self = ST_CKPT_THREAD \<or> ti_state self = ST_EMBRYO then Some (Inr (), s)
          else
            (let self = self\<lparr> ti_depth := ti_depth self - 1 \<rparr> in
             Some (Inr (), s\<lparr> l_self := Some (if ti_depth self = 0
                then snd (thread_state_cas self ST_UNSAFE ST_RUNNING) else self) \<rparr>)))"

text \<open>A wrapper around a call: nothing but the call if interposition is to be skipped.\<close>

definition wrapped :: "(('w, 'm) lib_scheme, 'a) prog \<Rightarrow> (('w, 'm) lib_scheme, 'a) prog \<Rightarrow> (('w, 'm) lib_scheme, 'a) prog" where
  "wrapped real hook = bnd (gets XND_SKIP_INTERPOSE) (\<lambda>skip.
     if skip then real
     else sq unsafe_enter (bnd hook (\<lambda>r. sq unsafe_exit (ret r))))"

text \<open>A section that a checkpoint does not interrupt, in a wrapper that is never skipped.\<close>

definition unsafe_section :: "(('w, 'm) lib_scheme, 'a) prog \<Rightarrow> (('w, 'm) lib_scheme, 'a) prog" where
  "unsafe_section m = sq unsafe_enter (bnd m (\<lambda>r. sq unsafe_exit (ret r)))"

text \<open>
  The thread can enter a wrapper: it runs, or it is in another wrapper already, less than
  \<open>2 ^ 32 - 1\<close> deep.
\<close>

definition can_enter :: "('w, 'm) lib_scheme \<Rightarrow> bool" where
  "can_enter s \<longleftrightarrow>
     (case l_self s of
        None \<Rightarrow> True
      | Some th \<Rightarrow> ti_state th = ST_EMBRYO \<or> ti_state th = ST_CKPT_THREAD \<or>
          (if ti_depth th = 0 then ti_state th = ST_RUNNING
           else ti_state th = ST_UNSAFE \<and> ti_depth th \<noteq> - 1))"

text \<open>Inside, and what leaving does: the descriptor of the thread is as before.\<close>

definition entered :: "thread_info option \<Rightarrow> thread_info option" where
  "entered t = map_option (\<lambda>th.
     if ti_state th = ST_EMBRYO \<or> ti_state th = ST_CKPT_THREAD then th
     else th\<lparr> ti_depth := ti_depth th + 1, ti_state := ST_UNSAFE \<rparr>) t"

lemma runs_unsafe_enter:
  assumes "can_enter s"
  shows "runs unsafe_enter (\<lambda>_ s'. s' = s\<lparr> l_self := entered (l_self s) \<rparr>) s"
proof (cases "l_self s")
  case (Some th)
  then show ?thesis
    using assms by (cases th) (auto simp: runs_def unsafe_enter_def can_enter_def entered_def thread_state_cas_def)
qed (simp add: runs_def unsafe_enter_def entered_def)

lemma runs_unsafe_exit:
  assumes "can_enter s" and "l_self s' = entered (l_self s)"
  shows "runs unsafe_exit (\<lambda>_ s2. s2 = s'\<lparr> l_self := l_self s \<rparr>) s'"
proof (cases "l_self s")
  case None
  then show ?thesis using assms(2) by (simp add: runs_def unsafe_exit_def entered_def)
next
  case (Some th)
  have depth: "ti_depth th + 1 - 1 = ti_depth th" by simp
  have unsafe: "ti_state th = ST_UNSAFE" if "ti_depth th \<noteq> 0" "ti_state th \<noteq> ST_EMBRYO" "ti_state th \<noteq> ST_CKPT_THREAD"
    using assms(1) Some that by (simp add: can_enter_def split: if_splits)
  show ?thesis
    using assms Some by (cases th) (auto simp: runs_def unsafe_exit_def can_enter_def entered_def thread_state_cas_def Let_def)
qed

lemma runs_unsafe_section:
  assumes "can_enter s"
    and "runs m (\<lambda>r s'. l_self s' = entered (l_self s) \<and> Q r (s'\<lparr> l_self := l_self s \<rparr>)) (s\<lparr> l_self := entered (l_self s) \<rparr>)"
  shows "runs (unsafe_section m) Q s"
proof -
  have leave: "runs unsafe_exit (\<lambda>_. Q r) s'"
    if "l_self s' = entered (l_self s) \<and> Q r (s'\<lparr> l_self := l_self s \<rparr>)" for r s'
    by (rule runs_mono [OF runs_unsafe_exit [OF assms(1)]]) (use that in auto)
  have "runs (bnd m (\<lambda>r. sq unsafe_exit (ret r))) Q (s\<lparr> l_self := entered (l_self s) \<rparr>)"
    unfolding runs_bnd by (rule runs_mono [OF assms(2)]) (use leave in simp)
  then show ?thesis
    by (simp add: unsafe_section_def) (rule runs_mono [OF runs_unsafe_enter [OF assms(1)]], simp)
qed

lemma wrapped_section: "wrapped real hook = bnd (gets XND_SKIP_INTERPOSE) (\<lambda>skip. if skip then real else unsafe_section hook)"
  by (simp add: wrapped_def unsafe_section_def cong: if_cong)

text \<open>
  A wrapper returns what the wrapped part returns and leaves the thread as it was, if the
  wrapped part does not touch the descriptor of the thread.
\<close>

lemma runs_wrapped:
  assumes "can_enter s" and skip: "XND_SKIP_INTERPOSE s \<Longrightarrow> runs real Q s"
    and hook: "\<not> XND_SKIP_INTERPOSE s \<Longrightarrow>
      runs hook (\<lambda>r s'. l_self s' = entered (l_self s) \<and> Q r (s'\<lparr> l_self := l_self s \<rparr>)) (s\<lparr> l_self := entered (l_self s) \<rparr>)"
  shows "runs (wrapped real hook) Q s"
  using skip runs_unsafe_section [OF assms(1) hook] by (simp add: wrapped_section)

end
