(* ===== verification/File_Wrappers.thy ===== *)
theory File_Wrappers
  imports Thread_Info
begin

text \<open>
  \<^verbatim>\<open>wrappers/file_wrappers.c\<close>: the functions on files that the library puts in
  place of those of the C library. Each makes the real call and records its effect in the
  descriptor table, in a section that a checkpoint does not interrupt.
\<close>

section \<open>The real calls\<close>

text \<open>
  Streams and directory handles are numbers, zero is the null pointer. \<open>fw_getpath\<close> is
  \<^verbatim>\<open>fcntl(fd, F_GETPATH, buf)\<close>.
\<close>

record 'w file_os = "'w fd_os" +
  fw_openat :: "fd \<Rightarrow> string \<Rightarrow> u32 \<Rightarrow> u32 \<Rightarrow> 'w \<Rightarrow> fd \<times> 'w"
  fw_dup :: "fd \<Rightarrow> 'w \<Rightarrow> fd \<times> 'w"
  fw_fcntl :: "fd \<Rightarrow> int \<Rightarrow> u64 \<Rightarrow> 'w \<Rightarrow> int \<times> 'w"
  fw_getpath :: "fd \<Rightarrow> 'w \<Rightarrow> string option"
  fw_fopen :: "string \<Rightarrow> string \<Rightarrow> 'w \<Rightarrow> nat \<times> 'w"
  fw_fclose :: "nat \<Rightarrow> 'w \<Rightarrow> int \<times> 'w"
  fw_freopen :: "string option \<Rightarrow> string \<Rightarrow> nat \<Rightarrow> 'w \<Rightarrow> nat \<times> 'w"
  fw_fileno :: "nat \<Rightarrow> 'w \<Rightarrow> fd"
  fw_opendir :: "string \<Rightarrow> 'w \<Rightarrow> nat \<times> 'w"
  fw_fdopendir :: "fd \<Rightarrow> 'w \<Rightarrow> nat \<times> 'w"
  fw_closedir :: "nat \<Rightarrow> 'w \<Rightarrow> int \<times> 'w"
  fw_readdir :: "nat \<Rightarrow> 'w \<Rightarrow> nat \<times> 'w"
  fw_readdir_r :: "nat \<Rightarrow> 'w \<Rightarrow> (int \<times> nat) \<times> 'w"
  fw_rewinddir :: "nat \<Rightarrow> 'w \<Rightarrow> 'w"

definition AT_FDCWD :: fd where "AT_FDCWD = - 2"
definition EOF :: int where "EOF = - 1"
definition F_DUPFD :: int where "F_DUPFD = 0"
definition F_DUPFD_CLOEXEC :: int where "F_DUPFD_CLOEXEC = 67"

text \<open>The flags of an open mode; \<^verbatim>\<open>x\<close> is only looked at without \<^verbatim>\<open>e\<close>.\<close>

definition mode_to_oflag :: "string \<Rightarrow> u32 res" where
  "mode_to_oflag mode =
     (let c = (case mode of [] \<Rightarrow> CHR 0x00 | c # _ \<Rightarrow> c);
          plus = CHR ''+'' \<in> set mode;
          extra = (if CHR ''e'' \<in> set mode then O_CLOEXEC else if CHR ''x'' \<in> set mode then O_EXCL else 0)
      in if c = CHR ''r'' then Inr ((if plus then O_RDWR else O_RDONLY) OR extra)
         else if c = CHR ''w'' then Inr ((O_CREAT OR O_TRUNC) OR (if plus then O_RDWR else O_WRONLY) OR extra)
         else if c = CHR ''a'' then Inr ((O_CREAT OR O_APPEND) OR (if plus then O_RDWR else O_WRONLY) OR extra)
         else Inl Aborted)"

section \<open>Descriptors\<close>

definition openat_hook ::
  "('w, 'n) file_os_scheme \<Rightarrow> fd \<Rightarrow> string \<Rightarrow> u32 \<Rightarrow> u32 \<Rightarrow> (('w, 'm) lib_scheme, int) prog" where
  "openat_hook os dirfd path flags va_mode =
     (let mode = (if flags AND O_CREAT \<noteq> 0 then va_mode else 0) in
      wrapped (os_call (fw_openat os dirfd path flags mode))
        (bnd (os_call (fw_openat os dirfd path flags mode)) (\<lambda>retval.
           sq (if retval \<noteq> - 1 then fd_table_open os retval path flags mode else ret ()) (ret retval))))"

definition open_hook :: "('w, 'n) file_os_scheme \<Rightarrow> string \<Rightarrow> u32 \<Rightarrow> u32 \<Rightarrow> (('w, 'm) lib_scheme, int) prog" where
  "open_hook os path flags va_mode =
     (let mode = (if flags AND O_CREAT \<noteq> 0 then va_mode else 0) in openat_hook os AT_FDCWD path flags mode)"

definition creat_hook :: "('w, 'n) file_os_scheme \<Rightarrow> string \<Rightarrow> u32 \<Rightarrow> (('w, 'm) lib_scheme, int) prog" where
  "creat_hook os path mode = openat_hook os AT_FDCWD path (O_CREAT OR O_TRUNC OR O_WRONLY) mode"

definition close_hook :: "('w, 'n) file_os_scheme \<Rightarrow> fd \<Rightarrow> (('w, 'm) lib_scheme, int) prog" where
  "close_hook os fd =
     wrapped (os_call (fo_close os fd))
       (bnd (os_call (fo_close os fd)) (\<lambda>retval.
          sq (if retval \<noteq> - 1 then fd_table_close fd else ret ()) (ret retval)))"

definition dup_hook :: "('w, 'n) file_os_scheme \<Rightarrow> fd \<Rightarrow> (('w, 'm) lib_scheme, int) prog" where
  "dup_hook os oldfd =
     wrapped (os_call (fw_dup os oldfd))
       (bnd (os_call (fw_dup os oldfd)) (\<lambda>newfd.
          sq (if newfd \<noteq> - 1 then fd_table_dup oldfd newfd else ret ()) (ret newfd)))"

definition dup2_hook :: "('w, 'n) file_os_scheme \<Rightarrow> fd \<Rightarrow> fd \<Rightarrow> (('w, 'm) lib_scheme, int) prog" where
  "dup2_hook os oldfd newfd =
     wrapped (os_call (fo_dup2 os oldfd newfd))
       (bnd (os_call (fo_dup2 os oldfd newfd)) (\<lambda>retval.
          sq (if retval \<noteq> - 1 then sq (assert_p (retval = newfd)) (fd_table_dup oldfd newfd) else ret ())
             (ret retval)))"

definition fcntl_hook :: "('w, 'n) file_os_scheme \<Rightarrow> fd \<Rightarrow> int \<Rightarrow> u64 \<Rightarrow> (('w, 'm) lib_scheme, int) prog" where
  "fcntl_hook os fd cmd arg =
     wrapped (os_call (fw_fcntl os fd cmd arg))
       (bnd (os_call (fw_fcntl os fd cmd arg)) (\<lambda>r.
          sq (if r \<noteq> - 1 \<and> (cmd = F_DUPFD \<or> cmd = F_DUPFD_CLOEXEC) then fd_table_dup fd r else ret ()) (ret r)))"

section \<open>Streams\<close>

definition fopen_hook :: "('w, 'n) file_os_scheme \<Rightarrow> string \<Rightarrow> string \<Rightarrow> (('w, 'm) lib_scheme, nat) prog" where
  "fopen_hook os path mode =
     wrapped (os_call (fw_fopen os path mode))
       (bnd (os_call (fw_fopen os path mode)) (\<lambda>stream.
          sq (if stream \<noteq> 0
              then bnd (lift_res (mode_to_oflag mode)) (\<lambda>flags.
                   bnd (gets (\<lambda>s. fw_fileno os stream (t_world s))) (\<lambda>fd.
                   fd_table_open os fd path flags 0x1B6))
              else ret ())
             (ret stream)))"

definition fclose_hook :: "('w, 'n) file_os_scheme \<Rightarrow> nat \<Rightarrow> (('w, 'm) lib_scheme, int) prog" where
  "fclose_hook os stream =
     wrapped (os_call (fw_fclose os stream))
       (bnd (gets (\<lambda>s. fw_fileno os stream (t_world s))) (\<lambda>fd.
        bnd (os_call (fw_fclose os stream)) (\<lambda>r.
          sq (if r \<noteq> EOF then fd_table_close fd else ret ()) (ret r))))"

definition freopen_hook ::
  "('w, 'n) file_os_scheme \<Rightarrow> string option \<Rightarrow> string \<Rightarrow> nat \<Rightarrow> (('w, 'm) lib_scheme, nat) prog" where
  "freopen_hook os path mode oldfp =
     wrapped (os_call (fw_freopen os path mode oldfp))
       (bnd (gets (\<lambda>s. fw_fileno os oldfp (t_world s))) (\<lambda>oldfd.
        bnd (gets (\<lambda>s. case path of
               Some p \<Rightarrow> p
             | None \<Rightarrow> (case fw_getpath os oldfd (t_world s) of None \<Rightarrow> '''' | Some p \<Rightarrow> p))) (\<lambda>path.
        bnd (os_call (fw_freopen os (Some path) mode oldfp)) (\<lambda>newfp.
          sq (if newfp \<noteq> 0
              then bnd (gets (\<lambda>s. fw_fileno os newfp (t_world s))) (\<lambda>newfd.
                   bnd (lift_res (mode_to_oflag mode)) (\<lambda>oflag.
                   sq (if newfd \<noteq> oldfd then fd_table_close oldfd else ret ())
                  (sq (fd_table_close newfd)
                      (fd_table_open os newfd path oflag 0x1B6))))
              else ret ())
             (ret newfp)))))"

section \<open>Directories\<close>

definition opendir_hook :: "('w, 'n) file_os_scheme \<Rightarrow> string \<Rightarrow> (('w, 'm) lib_scheme, nat) prog" where
  "opendir_hook os path =
     wrapped (os_call (fw_opendir os path))
       (bnd (os_call (fw_opendir os path)) (\<lambda>dirp.
          sq (if dirp \<noteq> 0 then fd_table_opendir os dirp path else ret ()) (ret dirp)))"

text \<open>The path is asked for before the section starts.\<close>

definition fdopendir_hook :: "('w, 'n) file_os_scheme \<Rightarrow> fd \<Rightarrow> (('w, 'm) lib_scheme, nat) prog" where
  "fdopendir_hook os fd =
     bnd (gets (\<lambda>s. case fw_getpath os fd (t_world s) of None \<Rightarrow> '''' | Some p \<Rightarrow> p)) (\<lambda>path.
       wrapped (os_call (fw_fdopendir os fd))
         (bnd (os_call (fw_fdopendir os fd)) (\<lambda>dirp.
            sq (if dirp \<noteq> 0 then fd_table_opendir os dirp path else ret ()) (ret dirp))))"

definition closedir_hook :: "('w, 'n) file_os_scheme \<Rightarrow> nat \<Rightarrow> (('w, 'm) lib_scheme, int) prog" where
  "closedir_hook os dirp =
     bnd (gets (\<lambda>s. fo_dirfd os dirp (t_world s))) (\<lambda>fd.
       wrapped (os_call (fw_closedir os dirp))
         (bnd (os_call (fw_closedir os dirp)) (\<lambda>r.
            sq (if r = 0 then fd_table_close fd else ret ()) (ret r))))"

text \<open>The rest only keep checkpoints away.\<close>

definition plain_hook :: "('w \<Rightarrow> 'a \<times> 'w) \<Rightarrow> (('w, 'm) lib_scheme, 'a) prog" where
  "plain_hook call = wrapped (os_call call) (os_call call)"

definition readdir_hook :: "('w, 'n) file_os_scheme \<Rightarrow> nat \<Rightarrow> (('w, 'm) lib_scheme, nat) prog" where
  "readdir_hook os dirp = plain_hook (fw_readdir os dirp)"

definition readdir_r_hook :: "('w, 'n) file_os_scheme \<Rightarrow> nat \<Rightarrow> (('w, 'm) lib_scheme, int \<times> nat) prog" where
  "readdir_r_hook os dirp = plain_hook (fw_readdir_r os dirp)"

definition telldir_hook :: "('w, 'n) file_os_scheme \<Rightarrow> nat \<Rightarrow> (('w, 'm) lib_scheme, int) prog" where
  "telldir_hook os dirp = plain_hook (fo_telldir os dirp)"

definition seekdir_hook :: "('w, 'n) file_os_scheme \<Rightarrow> nat \<Rightarrow> int \<Rightarrow> (('w, 'm) lib_scheme, unit) prog" where
  "seekdir_hook os dirp loc = plain_hook (\<lambda>w. ((), fo_seekdir os dirp loc w))"

definition rewinddir_hook :: "('w, 'n) file_os_scheme \<Rightarrow> nat \<Rightarrow> (('w, 'm) lib_scheme, unit) prog" where
  "rewinddir_hook os dirp = plain_hook (\<lambda>w. ((), fw_rewinddir os dirp w))"

end
