(* ===== verification/Fd_Restore.thy ===== *)
theory Fd_Restore
  imports Fd_Table
begin

text \<open>
  The descriptors of a process after a restart. Under the calls of a Unix system (descriptors
  that refer to open files, each with a path and an offset) saving the table in one process and
  restoring it in another gives every descriptor its file, its offset and its sharing back.
\<close>

section \<open>Commands over the table\<close>

lemma runs_os_call [simp]:
  "runs (os_call f) Q s = Q (fst (f (t_world s))) (s\<lparr> t_world := snd (f (t_world s)) \<rparr>)"
  by (simp add: runs_def os_call_def split: prod.splits)

lemma runs_slot [simp]: "runs (slot fd) Q s \<longleftrightarrow> 0 \<le> fd \<and> fd < MAXFILES \<and> Q (t_table s fd) s"
  by (auto simp: slot_def)

lemma runs_set_slot [simp]:
  "runs (set_slot fd p) Q s \<longleftrightarrow> 0 \<le> fd \<and> fd < MAXFILES \<and> Q () (s\<lparr> t_table := (t_table s)(fd := p) \<rparr>)"
  by (auto simp: set_slot_def)

lemma runs_load [simp]: "runs (load p) Q s \<longleftrightarrow> (\<exists>src. t_heap s p = Some src \<and> Q src s)"
  by (cases "t_heap s p") (simp_all add: load_def)

lemma runs_store [simp]:
  "runs (store p f) Q s \<longleftrightarrow> (\<exists>src. t_heap s p = Some src \<and> Q () (s\<lparr> t_heap := (t_heap s)(p \<mapsto> f src) \<rparr>))"
  by (simp add: store_def)

lemma runs_source_of [simp]:
  "runs (source_of fd) Q s \<longleftrightarrow> 0 \<le> fd \<and> fd < MAXFILES \<and> (\<exists>p. t_table s fd = Some p \<and> Q p s)"
  by (cases "t_table s fd") (simp_all add: source_of_def)

lemma runs_tracked [simp]:
  "runs (tracked fd) Q s \<longleftrightarrow> 0 \<le> fd \<and> fd < MAXFILES \<and>
     (case t_table s fd of None \<Rightarrow> Q None s | Some p \<Rightarrow> \<exists>src. t_heap s p = Some src \<and> Q (Some src) s)"
  by (cases "t_table s fd") (auto simp: tracked_def)

lemma runs_malloc [simp]:
  "runs (malloc_source os) Q s \<longleftrightarrow>
     (\<exists>junk. fst (fo_malloc os (t_world s)) = Some junk \<and>
        Q (t_next s) (s\<lparr> t_world := snd (fo_malloc os (t_world s)),
                        t_heap := (t_heap s)(t_next s \<mapsto> junk), t_next := t_next s + 1 \<rparr>))"
  by (cases "fst (fo_malloc os (t_world s))") (simp_all add: malloc_source_def)

text \<open>A loop over a list, with an invariant that knows which elements were done.\<close>

lemma runs_each:
  assumes "I {} s"
    and "\<And>x D s. x \<in> set xs \<Longrightarrow> x \<notin> D \<Longrightarrow> I D s \<Longrightarrow> runs (f x) (\<lambda>_. I (insert x D)) s"
    and "distinct xs"
  shows "runs (each f xs) (\<lambda>_. I (set xs)) s"
proof -
  have "runs (each f ys) (\<lambda>_. I (D \<union> set ys)) s"
    if "I D s" "set ys \<subseteq> set xs" "distinct ys" "D \<inter> set ys = {}" for D ys s
    using that
  proof (induction ys arbitrary: D s)
    case (Cons y ys)
    have "runs (each f ys) (\<lambda>_. I (insert y D \<union> set ys)) s'" if "I (insert y D) s'" for s'
      using Cons.IH [OF that] Cons.prems by auto
    moreover have "runs (f y) (\<lambda>_. I (insert y D)) s"
      using assms(2) [of y D s] Cons.prems by simp
    ultimately show ?case by (auto elim!: runs_mono)
  qed simp
  from this [of "{}" s xs] assms(1,3) show ?thesis by simp
qed

lemma all_fds_set [simp]: "set all_fds = {0..<MAXFILES}" "distinct all_fds"
proof -
  have "\<exists>n \<in> {0..<512}. x = int n" if "0 \<le> x" "x < 512" for x
    using that by (intro bexI [of _ "nat x"]) auto
  then show "set all_fds = {0..<MAXFILES}" by (auto simp: all_fds_def MAXFILES_def image_def)
qed (simp add: all_fds_def distinct_map)

section \<open>The kernel's descriptors\<close>

record open_file =
  o_path :: string
  o_off :: int
  o_flags :: u32

record ufd =
  u_fds :: "fd \<Rightarrow> nat option"
  u_ofs :: "nat \<Rightarrow> open_file"
  u_cloexec :: "fd \<Rightarrow> bool"
  u_next :: nat
  u_exists :: "string \<Rightarrow> bool"

text \<open>A process has at most 1024 descriptors; a new one gets the lowest free number.\<close>

definition u_lowest :: "ufd \<Rightarrow> fd option" where
  "u_lowest k = find (\<lambda>fd. u_fds k fd = None) (map int [0..<1024])"

definition u_open :: "string \<Rightarrow> u32 \<Rightarrow> u32 \<Rightarrow> ufd \<Rightarrow> fd \<times> ufd" where
  "u_open path flags mode k =
     (case u_lowest k of
        None \<Rightarrow> (- 1, k)
      | Some fd \<Rightarrow>
          if \<not> u_exists k path then (- 1, k)
          else (fd, k\<lparr> u_fds := (u_fds k)(fd \<mapsto> u_next k),
                        u_ofs := (u_ofs k)(u_next k := \<lparr> o_path = path, o_off = 0, o_flags = flags \<rparr>),
                        u_cloexec := (u_cloexec k)(fd := flags AND O_CLOEXEC \<noteq> 0),
                        u_next := u_next k + 1 \<rparr>))"

definition u_dup2 :: "fd \<Rightarrow> fd \<Rightarrow> ufd \<Rightarrow> fd \<times> ufd" where
  "u_dup2 old new k =
     (if u_fds k old = None then (- 1, k)
      else if old = new then (new, k)
      else (new, k\<lparr> u_fds := (u_fds k)(new := u_fds k old), u_cloexec := (u_cloexec k)(new := False) \<rparr>))"

definition u_close :: "fd \<Rightarrow> ufd \<Rightarrow> int \<times> ufd" where
  "u_close fd k = (if u_fds k fd = None then (- 1, k) else (0, k\<lparr> u_fds := (u_fds k)(fd := None) \<rparr>))"

definition u_tell :: "fd \<Rightarrow> ufd \<Rightarrow> int \<times> ufd" where
  "u_tell fd k = (case u_fds k fd of None \<Rightarrow> (- 1, k) | Some o' \<Rightarrow> (o_off (u_ofs k o'), k))"

definition u_seek :: "fd \<Rightarrow> int \<Rightarrow> ufd \<Rightarrow> int \<times> ufd" where
  "u_seek fd off k =
     (case u_fds k fd of
        None \<Rightarrow> (- 1, k)
      | Some o' \<Rightarrow> if off < 0 then (- 1, k)
                  else (off, k\<lparr> u_ofs := (u_ofs k)(o' := (u_ofs k o')\<lparr> o_off := off \<rparr>) \<rparr>))"

definition unix_os :: "(ufd, 'n) fd_os_scheme \<Rightarrow> (ufd, 'n) fd_os_scheme" where
  "unix_os base = base\<lparr>
     fo_tell := u_tell, fo_seek := u_seek,
     fo_getfl := (\<lambda>fd k. map_option (\<lambda>o'. o_flags (u_ofs k o')) (u_fds k fd)),
     fo_getfd := (\<lambda>fd k. map_option (\<lambda>_. if u_cloexec k fd then FD_CLOEXEC else 0) (u_fds k fd)),
     fo_open := u_open, fo_dup2 := u_dup2, fo_close := u_close \<rparr>"

lemma unix_os_sel [simp]:
  "fo_tell (unix_os base) = u_tell" "fo_seek (unix_os base) = u_seek" "fo_open (unix_os base) = u_open"
  "fo_dup2 (unix_os base) = u_dup2" "fo_close (unix_os base) = u_close"
  "fo_getfl (unix_os base) fd k = map_option (\<lambda>o'. o_flags (u_ofs k o')) (u_fds k fd)"
  "fo_getfd (unix_os base) fd k = map_option (\<lambda>_. if u_cloexec k fd then FD_CLOEXEC else 0) (u_fds k fd)"
  by (simp_all add: unix_os_def)

text \<open>Opening a file and moving it to \<open>fd\<close> changes \<open>fd\<close> only.\<close>

lemma u_lowest_free: "u_lowest k = Some fd \<Longrightarrow> u_fds k fd = None \<and> 0 \<le> fd"
  by (auto simp: u_lowest_def find_Some_iff)

lemma runs_reopen_at:
  assumes "t_heap s p = Some src" and "u_exists (t_world s) (s_path src)" and "u_lowest (t_world s) \<noteq> None"
  shows "runs (reopen_at (unix_os base) fd p) (\<lambda>e s'. e = 0 \<and> (\<exists>c. s' = s\<lparr> t_world := (t_world s)\<lparr>
     u_fds := (u_fds (t_world s))(fd \<mapsto> u_next (t_world s)),
     u_ofs := (u_ofs (t_world s))(u_next (t_world s) :=
        \<lparr> o_path = s_path src, o_off = 0, o_flags = s_flags src \<rparr>),
     u_cloexec := c, u_next := u_next (t_world s) + 1 \<rparr> \<rparr>)) s"
proof -
  obtain r where r: "u_lowest (t_world s) = Some r" using assms(3) by auto
  note free = u_lowest_free [OF r]
  let ?k = "t_world s" and ?n = "u_next (t_world s)"
  let ?of = "\<lparr> o_path = s_path src, o_off = 0, o_flags = s_flags src \<rparr>"
  define k1 where "k1 = ?k\<lparr> u_fds := (u_fds ?k)(r \<mapsto> ?n), u_ofs := (u_ofs ?k)(?n := ?of),
    u_cloexec := (u_cloexec ?k)(r := s_flags src AND O_CLOEXEC \<noteq> 0), u_next := ?n + 1 \<rparr>"
  have opened: "u_open (s_path src) (s_flags src) mode ?k = (r, k1)" for mode
    using r assms(2) by (simp add: u_open_def k1_def)
  show ?thesis
  proof (cases "r = fd")
    case True
    then show ?thesis
      using assms(1) opened free by (simp add: reopen_at_def k1_def) (rule exI, rule refl)
  next
    case False
    have "(f(r \<mapsto> n, fd \<mapsto> n))(r := None) = f(fd \<mapsto> n)" if "f r = None" for f :: "fd \<Rightarrow> nat option" and n
      using that False by (auto simp: fun_eq_iff)
    then have "snd (u_close r (snd (u_dup2 r fd k1))) = ?k\<lparr> u_fds := (u_fds ?k)(fd \<mapsto> ?n),
        u_ofs := (u_ofs ?k)(?n := ?of), u_cloexec := (u_cloexec k1)(fd := False), u_next := ?n + 1 \<rparr>"
      using False free by (simp add: u_close_def u_dup2_def k1_def)
    moreover have "fst (u_dup2 r fd k1) = fd" using False by (simp add: u_dup2_def k1_def)
    ultimately show ?thesis
      using assms(1) opened free False by (simp add: reopen_at_def) (rule exI, rule refl)
  qed
qed

section \<open>Saving\<close>

text \<open>
  The table of a process that has regular files and its standard descriptors open agrees with
  the kernel: the descriptors of one description are those of one open file.
\<close>

definition is_file :: "(ufd, 'm) fdt_scheme \<Rightarrow> fd \<Rightarrow> nat \<Rightarrow> fd_source \<Rightarrow> bool" where
  "is_file s fd p src \<longleftrightarrow> t_table s fd = Some p \<and> t_heap s p = Some src \<and> s_type src = FD_FILE"

definition table_ok :: "(ufd, 'm) fdt_scheme \<Rightarrow> bool" where
  "table_ok s \<longleftrightarrow>
     (\<forall>fd p. t_table s fd = Some p \<longrightarrow> 0 \<le> fd \<and> fd < MAXFILES \<and>
        (\<exists>src. t_heap s p = Some src \<and>
           (s_type src = FD_FILE \<or> s_type src = FD_INHERITED \<and> s_root src = fd)))"

definition file_open :: "ufd \<Rightarrow> fd \<Rightarrow> string \<Rightarrow> int \<Rightarrow> bool" where
  "file_open k fd path off \<longleftrightarrow>
     (\<exists>o'. u_fds k fd = Some o' \<and> o_path (u_ofs k o') = path \<and> o_off (u_ofs k o') = off)"

definition agrees :: "(ufd, 'm) fdt_scheme \<Rightarrow> bool" where
  "agrees s \<longleftrightarrow> table_ok s \<and>
     (\<forall>fd p src. is_file s fd p src \<longrightarrow>
        s_state src \<noteq> FD_STATE_SAVED \<and> (\<exists>off \<ge> 0. file_open (t_world s) fd (s_path src) off)) \<and>
     (\<forall>fd p src fd' p' src'. is_file s fd p src \<longrightarrow> is_file s fd' p' src' \<longrightarrow>
        (p = p' \<longleftrightarrow> u_fds (t_world s) fd = u_fds (t_world s) fd'))"

text \<open>What saving the descriptors \<open>D\<close> has changed.\<close>

definition block_saved :: "fd set \<Rightarrow> (ufd, 'm) fdt_scheme \<Rightarrow> nat \<Rightarrow> fd_source \<Rightarrow> fd_source \<Rightarrow> bool" where
  "block_saved D s p src src' \<longleftrightarrow>
     s_type src' = s_type src \<and> s_path src' = s_path src \<and> s_root src' = s_root src \<and>
     (if s_type src = FD_FILE \<and> (\<exists>g \<in> D. t_table s g = Some p)
      then s_state src' = FD_STATE_SAVED \<and>
        (\<forall>g. t_table s g = Some p \<longrightarrow> file_open (t_world s) g (s_path src) (s_offset src'))
      else src' = src)"

definition saved_on :: "fd set \<Rightarrow> (ufd, 'm) fdt_scheme \<Rightarrow> (ufd, 'm) fdt_scheme \<Rightarrow> bool" where
  "saved_on D s s' \<longleftrightarrow> t_table s' = t_table s \<and> t_world s' = t_world s \<and>
     (\<forall>p src. t_heap s p = Some src \<longrightarrow> (\<exists>src'. t_heap s' p = Some src' \<and> block_saved D s p src src'))"

lemma saved_on_refl: "saved_on {} s s"
  by (simp add: saved_on_def block_saved_def)

lemma saved_on_heap:
  assumes "saved_on D s s'" and "t_heap s p = Some src"
  obtains src' where "t_heap s' p = Some src'" "block_saved D s p src src'"
  using assms by (auto simp: saved_on_def)

lemma saved_on_skip:
  assumes "saved_on D s s'" and "\<And>p src. t_table s fd = Some p \<Longrightarrow> t_heap s p = Some src \<Longrightarrow>
      s_type src = FD_FILE \<Longrightarrow> \<exists>g \<in> D. t_table s g = Some p"
  shows "saved_on (insert fd D) s s'"
proof -
  have "block_saved (insert fd D) s p src src'"
    if "block_saved D s p src src'" "t_heap s p = Some src" for p src src'
  proof -
    have eq: "(s_type src = FD_FILE \<and> (\<exists>g \<in> insert fd D. t_table s g = Some p)) =
        (s_type src = FD_FILE \<and> (\<exists>g \<in> D. t_table s g = Some p))"
      using assms(2) [of p src] that(2) by auto
    show ?thesis using that(1) unfolding block_saved_def eq .
  qed
  then show ?thesis using assms(1) by (fastforce simp: saved_on_def)
qed

lemma runs_file_save:
  assumes "0 \<le> fd" and "fd < MAXFILES" and "t_table s fd = Some p" and "t_heap s p = Some src"
    and "u_fds (t_world s) fd = Some o'" and "0 \<le> o_off (u_ofs (t_world s) o')"
  shows "runs (file_save (unix_os base) fd) (\<lambda>e s'. \<exists>fl. s' = s\<lparr> t_heap := (t_heap s)(p \<mapsto>
     src\<lparr> s_offset := o_off (u_ofs (t_world s) o'), s_flags := fl, s_state := FD_STATE_SAVED \<rparr>) \<rparr>) s"
  using assms by (simp add: file_save_def u_tell_def) (intro conjI impI; rule exI, rule refl)

lemma runs_save_slot:
  assumes ok: "agrees s" and inv: "saved_on D s s'" and fd: "0 \<le> fd" "fd < MAXFILES"
  shows "runs (save_slot (unix_os base) fd) (\<lambda>_. saved_on (insert fd D) s) s'"
proof (cases "t_table s fd")
  case None
  moreover have "saved_on (insert fd D) s s'" by (rule saved_on_skip [OF inv]) (simp add: None)
  ultimately show ?thesis using inv fd by (simp add: save_slot_def saved_on_def)
next
  case (Some p)
  have "table_ok s" using ok by (simp add: agrees_def)
  then obtain src where src: "t_heap s p = Some src"
    "s_type src = FD_FILE \<or> s_type src = FD_INHERITED \<and> s_root src = fd"
    using Some unfolding table_ok_def by blast
  obtain src' where src': "t_heap s' p = Some src'" "block_saved D s p src src'"
    using saved_on_heap [OF inv src(1)] by blast
  have same: "t_table s' = t_table s" "t_world s' = t_world s" using inv by (simp_all add: saved_on_def)
  show ?thesis
  proof (cases "s_type src = FD_FILE \<and> (\<forall>g \<in> D. t_table s g \<noteq> Some p)")
    case False
    then have "saved_on (insert fd D) s s'"
      using Some src(1) by (intro saved_on_skip [OF inv]) auto
    moreover have "s_type src' = s_type src" "s_type src = FD_FILE \<Longrightarrow> s_state src' = FD_STATE_SAVED"
      using False src'(2) by (auto simp: block_saved_def)
    ultimately show ?thesis
      using Some src src'(1) same fd by (auto simp: save_slot_def)
  next
    case True
    then have isf: "is_file s fd p src" "src' = src" using Some src(1) src'(2) by (auto simp: is_file_def block_saved_def)
    have "s_state src \<noteq> FD_STATE_SAVED" "\<exists>off \<ge> 0. file_open (t_world s) fd (s_path src) off"
      using ok isf(1) unfolding agrees_def by blast+
    then obtain o' where o': "u_fds (t_world s) fd = Some o'" "o_path (u_ofs (t_world s) o') = s_path src"
      "0 \<le> o_off (u_ofs (t_world s) o')" "s_state src \<noteq> FD_STATE_SAVED"
      by (auto simp: file_open_def)
    have shared: "u_fds (t_world s) g = Some o'" if "t_table s g = Some p" for g
    proof -
      have "is_file s g p src" using that isf(1) by (simp add: is_file_def)
      then show ?thesis using ok isf(1) o'(1) unfolding agrees_def by metis
    qed
    have "saved_on (insert fd D) s (s'\<lparr> t_heap := (t_heap s')(p \<mapsto>
        src\<lparr> s_offset := o_off (u_ofs (t_world s) o'), s_flags := fl, s_state := FD_STATE_SAVED \<rparr>) \<rparr>)" for fl
    proof -
      have "block_saved (insert fd D) s p src (src\<lparr> s_offset := o_off (u_ofs (t_world s) o'),
          s_flags := fl, s_state := FD_STATE_SAVED \<rparr>)"
        using True Some shared o'(2) by (auto simp: block_saved_def file_open_def)
      moreover have "block_saved (insert fd D) s q b b'" if "block_saved D s q b b'" "q \<noteq> p" for q b b'
        using that Some by (auto simp: block_saved_def)
      ultimately show ?thesis using inv src(1) unfolding saved_on_def by (auto, blast)
    qed
    note stored = this
    have "runs (file_save (unix_os base) fd) (\<lambda>_. saved_on (insert fd D) s) s'"
      by (rule runs_mono [OF runs_file_save [where o' = o']])
        (use fd Some src'(1) isf(2) o' same stored in auto)
    then show ?thesis
      using True Some src'(1) isf(2) o'(4) same fd
      by (simp add: save_slot_def fd_ops_save_def)
  qed
qed

lemma runs_fd_table_save:
  assumes "agrees s"
  shows "runs (fd_table_save (unix_os base)) (\<lambda>_. saved_on {0..<MAXFILES} s) s"
  unfolding fd_table_save_def all_fds_set(1) [symmetric]
  by (rule runs_each) (auto simp: saved_on_refl intro!: runs_save_slot [OF assms])

section \<open>Restoring\<close>

text \<open>
  \<open>s\<close> is the state after the save, in the new process, so with another kernel;
  \<open>restored_on D s s'\<close> is what restoring the descriptors \<open>D\<close> has changed.
\<close>

definition block_restored :: "fd set \<Rightarrow> (ufd, 'm) fdt_scheme \<Rightarrow> nat \<Rightarrow> fd_source \<Rightarrow> fd_source \<Rightarrow> bool" where
  "block_restored D s p src src' \<longleftrightarrow>
     s_type src' = s_type src \<and> s_path src' = s_path src \<and> s_offset src' = s_offset src \<and>
     (if s_type src = FD_FILE \<and> (\<exists>g \<in> D. t_table s g = Some p)
      then s_state src' = FD_STATE_RESTORED \<and> s_root src' \<in> D \<and> t_table s (s_root src') = Some p
      else src' = src)"

definition file_fds :: "(ufd, 'm) fdt_scheme \<Rightarrow> fd set" where
  "file_fds s = {fd. \<exists>p src. is_file s fd p src}"

definition restored_on :: "fd set \<Rightarrow> (ufd, 'm) fdt_scheme \<Rightarrow> (ufd, 'm) fdt_scheme \<Rightarrow> bool" where
  "restored_on D s s' \<longleftrightarrow> t_table s' = t_table s \<and>
     (\<forall>p src. t_heap s p = Some src \<longrightarrow> (\<exists>src'. t_heap s' p = Some src' \<and> block_restored D s p src src')) \<and>
     u_next (t_world s) \<le> u_next (t_world s') \<and> u_exists (t_world s') = u_exists (t_world s) \<and>
     (\<forall>g. g \<notin> D \<inter> file_fds s \<longrightarrow> u_fds (t_world s') g = u_fds (t_world s) g) \<and>
     (\<forall>g \<in> D. \<forall>p src. is_file s g p src \<longrightarrow> file_open (t_world s') g (s_path src) (s_offset src) \<and>
        (\<exists>o' < u_next (t_world s'). u_fds (t_world s') g = Some o')) \<and>
     (\<forall>g \<in> D. \<forall>h \<in> D. \<forall>p src q src'. is_file s g p src \<longrightarrow> is_file s h q src' \<longrightarrow>
        (p = q \<longleftrightarrow> u_fds (t_world s') g = u_fds (t_world s') h))"

text \<open>The new process: the files exist, and there is room for one more descriptor.\<close>

definition restorable :: "(ufd, 'm) fdt_scheme \<Rightarrow> bool" where
  "restorable s \<longleftrightarrow> table_ok s \<and>
     (\<forall>fd p src. is_file s fd p src \<longrightarrow> s_state src = FD_STATE_SAVED \<and> 0 \<le> s_offset src \<and>
        u_exists (t_world s) (s_path src)) \<and>
     (\<exists>g. MAXFILES \<le> g \<and> g < 1024 \<and> u_fds (t_world s) g = None)"

lemma restored_on_refl: "restored_on {} s s"
  by (simp add: restored_on_def block_restored_def)

lemma restored_onD:
  assumes "restored_on D s s'" and "g \<in> D" and "is_file s g p src"
  shows "file_open (t_world s') g (s_path src) (s_offset src)"
    and "\<exists>o'. u_fds (t_world s') g = Some o' \<and> o' < u_next (t_world s')"
proof -
  have "\<forall>g \<in> D. \<forall>p src. is_file s g p src \<longrightarrow> file_open (t_world s') g (s_path src) (s_offset src) \<and>
        (\<exists>o' < u_next (t_world s'). u_fds (t_world s') g = Some o')"
    using assms(1) by (simp add: restored_on_def)
  from this [THEN bspec, OF assms(2), THEN spec, THEN spec, THEN mp, OF assms(3)]
  show "file_open (t_world s') g (s_path src) (s_offset src)"
    "\<exists>o'. u_fds (t_world s') g = Some o' \<and> o' < u_next (t_world s')" by auto
qed

lemma restored_on_heap:
  assumes "restored_on D s s'" and "t_heap s p = Some src"
  obtains src' where "t_heap s' p = Some src'" "block_restored D s p src src'"
proof -
  have "\<forall>p src. t_heap s p = Some src \<longrightarrow> (\<exists>src'. t_heap s' p = Some src' \<and> block_restored D s p src src')"
    using assms(1) by (simp add: restored_on_def)
  then show ?thesis using assms(2) that by blast
qed

lemma restored_on_pairs:
  assumes "restored_on D s s'" and "g \<in> D" "h \<in> D" "is_file s g p src" "is_file s h q src'"
  shows "p = q \<longleftrightarrow> u_fds (t_world s') g = u_fds (t_world s') h"
proof -
  have "\<forall>g \<in> D. \<forall>h \<in> D. \<forall>p src q src'. is_file s g p src \<longrightarrow> is_file s h q src' \<longrightarrow>
        (p = q \<longleftrightarrow> u_fds (t_world s') g = u_fds (t_world s') h)"
    using assms(1) by (simp add: restored_on_def)
  from this [rule_format, OF assms(2-5)] show ?thesis .
qed

lemma block_restored_skip:
  assumes "\<And>src. t_table s fd = Some p \<Longrightarrow> t_heap s p = Some src \<Longrightarrow> s_type src = FD_FILE \<Longrightarrow> False"
    and "t_heap s p = Some src"
  shows "block_restored (insert fd D) s p src src' = block_restored D s p src src'"
proof -
  have "t_table s (s_root src') = Some p \<Longrightarrow> s_type src = FD_FILE \<Longrightarrow> s_root src' \<noteq> fd"
    "(s_type src = FD_FILE \<and> (\<exists>g \<in> insert fd D. t_table s g = Some p)) =
     (s_type src = FD_FILE \<and> (\<exists>g \<in> D. t_table s g = Some p))"
    using assms by auto
  then show ?thesis by (auto simp: block_restored_def)
qed

lemma restored_on_skip:
  assumes "restored_on D s s'" and none: "\<And>p src. \<not> is_file s fd p src"
  shows "restored_on (insert fd D) s s'"
proof -
  have "block_restored (insert fd D) s p src src' = block_restored D s p src src'"
    if "t_heap s p = Some src" for p src src'
    using none that by (intro block_restored_skip) (auto simp: is_file_def)
  moreover have "fd \<notin> file_fds s" using none by (simp add: file_fds_def)
  ultimately show ?thesis using assms(1) none unfolding restored_on_def by auto
qed

lemma lowest_exists:
  assumes "restorable s" and "restored_on D s s'"
  shows "u_lowest (t_world s') \<noteq> None"
proof -
  obtain g where g: "MAXFILES \<le> g" "g < 1024" "u_fds (t_world s) g = None"
    using assms(1) by (auto simp: restorable_def)
  have "g \<notin> file_fds s"
    using assms(1) g(1) by (force simp: file_fds_def is_file_def restorable_def table_ok_def)
  then have "u_fds (t_world s') g = None" using assms(2) g(3) by (auto simp: restored_on_def)
  moreover have "g \<in> set (map int [0..<1024])"
    using g by (auto simp: MAXFILES_def image_iff intro!: bexI [of _ "nat g"])
  ultimately show ?thesis unfolding u_lowest_def find_None_iff by blast
qed

text \<open>The two ways a descriptor comes back.\<close>

lemma runs_file_restore:
  assumes "0 \<le> fd" and "fd < MAXFILES" and "t_table s fd = Some p" and "t_heap s p = Some src"
    and "u_exists (t_world s) (s_path src)" and "u_lowest (t_world s) \<noteq> None" and "0 \<le> s_offset src"
  shows "runs (file_restore (unix_os base) fd) (\<lambda>e s'. e = 0 \<and> (\<exists>c. s' = s\<lparr>
     t_world := (t_world s)\<lparr> u_fds := (u_fds (t_world s))(fd \<mapsto> u_next (t_world s)),
       u_cloexec := c, u_next := u_next (t_world s) + 1,
       u_ofs := (u_ofs (t_world s))(u_next (t_world s) :=
          \<lparr> o_path = s_path src, o_off = s_offset src, o_flags = s_flags src \<rparr>) \<rparr>,
     t_heap := (t_heap s)(p \<mapsto> src\<lparr> s_root := fd, s_state := FD_STATE_RESTORED \<rparr>) \<rparr>)) s"
  using assms(1-4,7)
  by (auto simp: file_restore_def u_seek_def intro!: runs_mono [OF runs_reopen_at [OF assms(4-6)]])

text \<open>One more file descriptor refers to the open file \<open>oid\<close>.\<close>

lemma restored_on_insert:
  fixes s s' s2 :: "(ufd, 'm) fdt_scheme"
  assumes inv: "restored_on D s s'" and isf: "is_file s fd p src" and fd: "fd \<notin> D"
    and tab: "t_table s2 = t_table s'"
    and blk: "t_heap s2 = (t_heap s')(p \<mapsto> b)" "block_restored (insert fd D) s p src b"
    and fds: "u_fds (t_world s2) = (u_fds (t_world s'))(fd \<mapsto> oid)"
    and nxt: "u_exists (t_world s2) = u_exists (t_world s')" "u_next (t_world s') \<le> u_next (t_world s2)"
      "oid < u_next (t_world s2)"
    and ofs: "o_path (u_ofs (t_world s2) oid) = s_path src" "o_off (u_ofs (t_world s2) oid) = s_offset src"
      "\<And>o'. o' < u_next (t_world s') \<Longrightarrow> u_ofs (t_world s2) o' = u_ofs (t_world s') o'"
    and same: "\<And>g q b. g \<in> D \<Longrightarrow> is_file s g q b \<Longrightarrow> (q = p) = (u_fds (t_world s') g = Some oid)"
  shows "restored_on (insert fd D) s s2"
proof -
  have file_old: "file_open (t_world s2) g (s_path c) (s_offset c) \<and>
      (\<exists>o' < u_next (t_world s2). u_fds (t_world s2) g = Some o')"
    if g: "g \<in> D" "is_file s g q c" for g q c
  proof -
    obtain o' where o': "u_fds (t_world s') g = Some o'" "o' < u_next (t_world s')"
      "file_open (t_world s') g (s_path c) (s_offset c)"
      using restored_onD [OF inv g] by blast
    moreover have "g \<noteq> fd" using g(1) fd by blast
    ultimately show ?thesis using fds ofs(3) nxt(2) by (auto simp: file_open_def)
  qed
  have file_new: "file_open (t_world s2) fd (s_path c) (s_offset c) \<and>
      (\<exists>o' < u_next (t_world s2). u_fds (t_world s2) fd = Some o')" if "is_file s fd q c" for q c
    using that isf fds ofs(1,2) nxt(3) by (auto simp: file_open_def is_file_def)
  have pairs: "q = q' \<longleftrightarrow> u_fds (t_world s2) g = u_fds (t_world s2) h"
    if "g \<in> insert fd D" "h \<in> insert fd D" "is_file s g q c" "is_file s h q' c'" for g h q q' c c'
  proof -
    have p: "q'' = p" if "is_file s fd q'' d" for q'' d using that isf by (simp add: is_file_def)
    have old: "q = q' \<longleftrightarrow> u_fds (t_world s') g = u_fds (t_world s') h" if "g \<in> D" "h \<in> D"
      by (rule restored_on_pairs [OF inv that \<open>is_file s g q c\<close> \<open>is_file s h q' c'\<close>])
    show ?thesis
      using that old p same [of g q c] same [of h q' c'] fds fd by (cases "g = fd"; cases "h = fd") auto
  qed
  have heap: "\<exists>c'. t_heap s2 q = Some c' \<and> block_restored (insert fd D) s q c c'" if c: "t_heap s q = Some c" for q c
  proof (cases "q = p")
    case True
    then show ?thesis using c isf blk by (auto simp: is_file_def)
  next
    case False
    obtain c' where "t_heap s' q = Some c'" "block_restored D s q c c'"
      using restored_on_heap [OF inv c] .
    then show ?thesis
      using False block_restored_skip [of s fd q c D c'] c isf blk(1) by (auto simp: is_file_def)
  qed
  have rest: "u_fds (t_world s2) g = u_fds (t_world s) g" if "g \<notin> insert fd D \<inter> file_fds s" for g
  proof -
    have "fd \<in> file_fds s" using isf by (auto simp: file_fds_def)
    then have "g \<noteq> fd" "g \<notin> D \<inter> file_fds s" using that by auto
    then show ?thesis using inv fds unfolding restored_on_def by simp
  qed
  have "t_table s2 = t_table s" "u_next (t_world s) \<le> u_next (t_world s2)"
    "u_exists (t_world s2) = u_exists (t_world s)"
    using inv tab nxt by (auto simp: restored_on_def)
  then show ?thesis
    using file_old file_new pairs heap rest unfolding restored_on_def by blast
qed

lemma runs_restore_slot:
  assumes ok: "restorable s" and inv: "restored_on D s s'" and fd: "0 \<le> fd" "fd < MAXFILES" "fd \<notin> D"
  shows "runs (restore_slot (unix_os base) fd) (\<lambda>_. restored_on (insert fd D) s) s'"
proof (cases "\<exists>p src. is_file s fd p src")
  case False
  have "restored_on (insert fd D) s s'" using restored_on_skip [OF inv] False by blast
  moreover have "t_table s' = t_table s" using inv by (simp add: restored_on_def)
  moreover have "\<exists>src'. t_heap s' p = Some src' \<and> s_type src' = FD_INHERITED" if p: "t_table s fd = Some p" for p
  proof -
    have "table_ok s" using ok by (simp add: restorable_def)
    then obtain src where src: "t_heap s p = Some src" "s_type src = FD_FILE \<or> s_type src = FD_INHERITED"
      using p unfolding table_ok_def by blast
    obtain src' where "t_heap s' p = Some src'" "block_restored D s p src src'"
      using restored_on_heap [OF inv src(1)] .
    then show ?thesis using False p src by (auto simp: is_file_def block_restored_def)
  qed
  ultimately show ?thesis using fd by (cases "t_table s fd") (auto simp: restore_slot_def)
next
  case True
  then obtain p src where isf: "is_file s fd p src" by blast
  then have src: "t_table s fd = Some p" "t_heap s p = Some src" "s_type src = FD_FILE"
    by (simp_all add: is_file_def)
  have saved: "s_state src = FD_STATE_SAVED" "0 \<le> s_offset src" "u_exists (t_world s) (s_path src)"
    using ok isf by (auto simp: restorable_def)
  obtain src' where src': "t_heap s' p = Some src'" "block_restored D s p src src'"
    using restored_on_heap [OF inv src(2)] .
  have tab: "t_table s' = t_table s" using inv by (simp add: restored_on_def)
  have others: "block_restored (insert fd D) s q b b'" if "block_restored D s q b b'" "q \<noteq> p" "t_heap s q = Some b" for q b b'
    using block_restored_skip [of s fd q b D b'] that src(1) by auto
  show ?thesis
  proof (cases "\<exists>g \<in> D. t_table s g = Some p")
    case shared: True
    then have root: "s_state src' = FD_STATE_RESTORED" "s_root src' \<in> D" "t_table s (s_root src') = Some p"
      "s_type src' = FD_FILE"
      using src' src(3) by (simp_all add: block_restored_def)
    let ?root = "s_root src'"
    have rootf: "is_file s ?root p src" using root(3) src(2,3) by (simp add: is_file_def)
    obtain o' where o': "u_fds (t_world s') ?root = Some o'" "o' < u_next (t_world s')"
      "file_open (t_world s') ?root (s_path src) (s_offset src)"
      using restored_onD [OF inv root(2) rootf] by blast
    let ?w = "t_world s'"
    have ne: "?root \<noteq> fd" using root(2) fd(3) by blast
    have dup: "u_dup2 ?root fd ?w = (fd, ?w\<lparr> u_fds := (u_fds ?w)(fd \<mapsto> o'), u_cloexec := (u_cloexec ?w)(fd := False) \<rparr>)"
      using o'(1) ne by (simp add: u_dup2_def)
    have eq: "(q = p) = (u_fds ?w g = Some o')" if "g \<in> D" "is_file s g q b" for g q b
      using restored_on_pairs [OF inv that(1) root(2) that(2) rootf] o'(1) by simp
    have "block_restored (insert fd D) s p src src'"
      using src'(2) shared root(2) by (auto simp: block_restored_def)
    then have "restored_on (insert fd D) s (s'\<lparr> t_world := ?w\<lparr> u_fds := (u_fds ?w)(fd \<mapsto> o'),
        u_cloexec := (u_cloexec ?w)(fd := False) \<rparr> \<rparr>)"
      using o' eq src'(1) by (intro restored_on_insert [OF inv isf fd(3)])
        (auto simp: file_open_def fun_upd_idem)
    then show ?thesis
      using fd tab src(1) src'(1) root dup by (simp add: restore_slot_def dup2_or_abort_def)
  next
    case first: False
    then have same: "src' = src" using src' by (simp add: block_restored_def)
    let ?w = "t_world s'"
    have exists: "u_exists ?w (s_path src)" using inv saved(3) by (simp add: restored_on_def)
    have old: "u_fds ?w g \<noteq> Some (u_next ?w)" if "g \<in> D" "is_file s g q b" for g q b
      using restored_onD(2) [OF inv that] by auto
    have "block_restored (insert fd D) s p src (src\<lparr> s_root := fd, s_state := FD_STATE_RESTORED \<rparr>)"
      using src by (simp add: block_restored_def)
    then have "restored_on (insert fd D) s (s'\<lparr>
       t_world := ?w\<lparr> u_fds := (u_fds ?w)(fd \<mapsto> u_next ?w), u_cloexec := c, u_next := u_next ?w + 1,
         u_ofs := (u_ofs ?w)(u_next ?w :=
           \<lparr> o_path = s_path src, o_off = s_offset src, o_flags = s_flags src \<rparr>) \<rparr>,
       t_heap := (t_heap s')(p \<mapsto> src\<lparr> s_root := fd, s_state := FD_STATE_RESTORED \<rparr>) \<rparr>)" for c
      using old first by (intro restored_on_insert [OF inv isf fd(3), where oid = "u_next ?w"])
        (auto simp: is_file_def)
    note step = this
    have "runs (file_restore (unix_os base) fd) (\<lambda>e s2. e = 0 \<and> restored_on (insert fd D) s s2) s'"
      by (rule runs_mono [OF runs_file_restore [of fd s' p src]])
        (use fd tab src(1) src'(1) same exists lowest_exists [OF ok inv] saved(2) step in auto)
    then have "runs (fd_ops_restore (unix_os base) (s_type src) fd)
        (\<lambda>e s2. runs (if e < 0 then halt Aborted else ret ()) (\<lambda>_. restored_on (insert fd D) s) s2) s'"
      unfolding fd_ops_restore_def src(3) fd_type.case by (rule runs_mono) auto
    then show ?thesis
      using fd tab src src'(1) same saved(1) by (simp add: restore_slot_def del: runs_if)
  qed
qed

lemma runs_fd_table_restore:
  assumes ok: "restorable s"
  shows "runs (fd_table_restore (unix_os base)) (\<lambda>_ s'. \<exists>s1. restored_on {0..<MAXFILES} s s1 \<and>
     u_ofs (t_world s') = u_ofs (t_world s1) \<and>
     (\<forall>fd. u_fds (t_world s') fd =
        (if fd \<in> {0, 1, 2} \<and> t_table s fd = None then None else u_fds (t_world s1) fd))) s"
proof -
  have inherited: "runs (each (restore_inherited (unix_os base)) all_fds) (\<lambda>_ s'. s' = s) s"
  proof (rule runs_each [where I = "\<lambda>_ s'. s' = s"])
    fix fd D and s' :: "(ufd, 'a) fdt_scheme"
    assume fd: "fd \<in> set all_fds" and "s' = s"
    have "\<exists>src. t_heap s p = Some src \<and> (s_type src = FD_FILE \<or> s_type src = FD_INHERITED \<and> s_root src = fd)"
      if "t_table s fd = Some p" for p
    proof -
      have "table_ok s" using ok by (simp add: restorable_def)
      then show ?thesis using that unfolding table_ok_def by blast
    qed
    then show "runs (restore_inherited (unix_os base) fd) (\<lambda>_ s'. s' = s) s'"
      using fd \<open>s' = s\<close> by (cases "t_table s fd") (auto simp: restore_inherited_def)
  qed simp_all
  have files: "runs (each (restore_slot (unix_os base)) all_fds) (\<lambda>_. restored_on {0..<MAXFILES} s) s"
    unfolding all_fds_set(1) [symmetric]
    by (rule runs_each) (auto simp: restored_on_refl intro!: runs_restore_slot [OF ok])
  have close: "runs (each (close_untracked (unix_os base)) standard_fds) (\<lambda>_ s'. t_table s' = t_table s \<and>
     u_ofs (t_world s') = u_ofs (t_world s1) \<and>
     (\<forall>fd. u_fds (t_world s') fd =
        (if fd \<in> set standard_fds \<and> t_table s fd = None then None else u_fds (t_world s1) fd))) s1"
    if "restored_on {0..<MAXFILES} s s1" for s1
  proof (rule runs_each [where I = "\<lambda>D s'. t_table s' = t_table s \<and> u_ofs (t_world s') = u_ofs (t_world s1) \<and>
     (\<forall>fd. u_fds (t_world s') fd = (if fd \<in> D \<and> t_table s fd = None then None else u_fds (t_world s1) fd))"])
    fix fd D and s' :: "(ufd, 'a) fdt_scheme"
    assume "fd \<in> set standard_fds" and inv: "t_table s' = t_table s \<and> u_ofs (t_world s') = u_ofs (t_world s1) \<and>
     (\<forall>fd. u_fds (t_world s') fd = (if fd \<in> D \<and> t_table s fd = None then None else u_fds (t_world s1) fd))"
    then have "0 \<le> fd \<and> fd < MAXFILES" by (auto simp: standard_fds_def MAXFILES_def)
    then show "runs (close_untracked (unix_os base) fd) (\<lambda>_ s'. t_table s' = t_table s \<and>
     u_ofs (t_world s') = u_ofs (t_world s1) \<and>
     (\<forall>fd'. u_fds (t_world s') fd' =
        (if fd' \<in> insert fd D \<and> t_table s fd' = None then None else u_fds (t_world s1) fd'))) s'"
      using inv by (auto simp: close_untracked_def u_close_def)
  qed (use that in \<open>simp_all add: restored_on_def standard_fds_def\<close>)
  have std: "{0, 1, 2} = set standard_fds" by (simp add: standard_fds_def)
  have last: "runs (each (close_untracked (unix_os base)) standard_fds) (\<lambda>_ s'. \<exists>s1. restored_on {0..<MAXFILES} s s1 \<and>
     u_ofs (t_world s') = u_ofs (t_world s1) \<and>
     (\<forall>fd. u_fds (t_world s') fd =
        (if fd \<in> set standard_fds \<and> t_table s fd = None then None else u_fds (t_world s1) fd))) s1"
    if "restored_on {0..<MAXFILES} s s1" for s1
    by (rule runs_mono [OF close [OF that]]) (rule exI [of _ s1], simp add: that)
  show ?thesis
    unfolding fd_table_restore_def runs_sq std
    by (rule runs_mono [OF inherited], simp only:) (rule runs_mono [OF files], rule last)
qed

section \<open>Both\<close>

lemma saved_file:
  assumes "table_ok s" and "saved_on {0..<MAXFILES} s s1" and f: "is_file s fd p src"
  shows "\<exists>src'. is_file s1 fd p src' \<and> s_path src' = s_path src \<and> s_state src' = FD_STATE_SAVED \<and>
      file_open (t_world s) fd (s_path src) (s_offset src')"
proof -
  have src: "t_heap s p = Some src" "t_table s fd = Some p" "s_type src = FD_FILE"
    using f by (simp_all add: is_file_def)
  then have "fd \<in> {0..<MAXFILES}" using assms(1) by (auto simp: table_ok_def)
  obtain src' where "t_heap s1 p = Some src'" "block_saved {0..<MAXFILES} s p src src'"
    using saved_on_heap [OF assms(2) src(1)] .
  moreover have "\<exists>g \<in> {0..<MAXFILES}. t_table s g = Some p" using \<open>fd \<in> _\<close> src(2) by blast
  moreover have "t_table s1 = t_table s" using assms(2) by (simp add: saved_on_def)
  ultimately show ?thesis using src by (auto simp: is_file_def block_saved_def)
qed

lemma saved_block:
  assumes "table_ok s" and "saved_on D s s1" and "t_table s fd = Some p"
  shows "\<exists>src src'. t_heap s p = Some src \<and> t_heap s1 p = Some src' \<and> s_type src' = s_type src \<and>
     s_root src' = s_root src \<and> (s_type src = FD_FILE \<or> s_type src = FD_INHERITED \<and> s_root src = fd) \<and>
     0 \<le> fd \<and> fd < MAXFILES"
proof -
  obtain src where src: "t_heap s p = Some src" "0 \<le> fd" "fd < MAXFILES"
    "s_type src = FD_FILE \<or> s_type src = FD_INHERITED \<and> s_root src = fd"
    using assms(1,3) unfolding table_ok_def by blast
  obtain b where "t_heap s1 p = Some b" "block_saved D s p src b"
    using saved_on_heap [OF assms(2) src(1)] .
  then show ?thesis using src by (auto simp: block_saved_def)
qed

lemma saved_file_back:
  assumes "table_ok s" and "saved_on D s s1" and f: "is_file s1 fd p src'"
  shows "\<exists>src. is_file s fd p src"
proof -
  have "t_table s fd = Some p" using f assms(2) by (simp add: is_file_def saved_on_def)
  from saved_block [OF assms(1,2) this] f this show ?thesis by (auto simp: is_file_def)
qed

lemma restorable_after_save:
  assumes "agrees s" and saved: "saved_on {0..<MAXFILES} s s1"
    and "\<forall>fd p src. is_file s fd p src \<longrightarrow> u_exists k1 (s_path src)"
    and "\<exists>g. MAXFILES \<le> g \<and> g < 1024 \<and> u_fds k1 g = None"
  shows "restorable (s1\<lparr> t_world := k1 \<rparr>)"
proof -
  let ?r = "s1\<lparr> t_world := k1 \<rparr>"
  have tok: "table_ok s" using assms(1) by (simp add: agrees_def)
  have file_r: "is_file ?r = is_file s1" by (simp add: fun_eq_iff is_file_def)
  have "table_ok ?r"
    using saved_block [OF tok saved] saved unfolding table_ok_def by (fastforce simp: saved_on_def)
  moreover have "s_state src' = FD_STATE_SAVED \<and> 0 \<le> s_offset src' \<and> u_exists k1 (s_path src')"
    if f: "is_file s1 fd p src'" for fd p src'
  proof -
    obtain src where src: "is_file s fd p src" using saved_file_back [OF tok saved f] by blast
    then obtain b where b: "is_file s1 fd p b" "s_path b = s_path src" "s_state b = FD_STATE_SAVED"
      "file_open (t_world s) fd (s_path src) (s_offset b)"
      using saved_file [OF tok saved] by blast
    have "b = src'" using f b(1) by (simp add: is_file_def)
    moreover have "\<exists>off \<ge> 0. file_open (t_world s) fd (s_path src) off"
      using assms(1) src unfolding agrees_def by blast
    ultimately show ?thesis using assms(3) src b by (auto simp: file_open_def)
  qed
  ultimately show ?thesis using assms(4) by (simp add: restorable_def file_r)
qed

text \<open>
  C4: what a checkpoint records of regular files a restart opens again. The process has not been
  checkpointed since it started or was restarted, so that no entry is marked as saved, and its table holds
  regular files, which agree with the kernel, and inherited descriptors under their own numbers, but no
  directories; the files exist when it restarts and a descriptor is free above the table. Then every
  descriptor of a file has its file at its offset again, two of them share an open file after the restart if
  and only if they did before the checkpoint, standard descriptors that the table does not hold are closed,
  and all other descriptors are those of the new process.
\<close>

theorem descriptors_survive_restart:
  assumes "agrees s"
    and "\<forall>fd p src. is_file s fd p src \<longrightarrow> u_exists k1 (s_path src)"
    and "\<exists>g. MAXFILES \<le> g \<and> g < 1024 \<and> u_fds k1 g = None"
  shows "\<exists>s1 s2. fd_table_save (unix_os base) s = Some (Inr (), s1) \<and>
     fd_table_restore (unix_os base) (s1\<lparr> t_world := k1 \<rparr>) = Some (Inr (), s2) \<and>
     (\<forall>fd \<in> file_fds s. \<exists>path off. file_open (t_world s) fd path off \<and> file_open (t_world s2) fd path off) \<and>
     (\<forall>fd \<in> file_fds s. \<forall>fd' \<in> file_fds s.
        (u_fds (t_world s2) fd = u_fds (t_world s2) fd') = (u_fds (t_world s) fd = u_fds (t_world s) fd')) \<and>
     (\<forall>fd. fd \<notin> file_fds s \<longrightarrow> u_fds (t_world s2) fd =
        (if fd \<in> {0, 1, 2} \<and> t_table s fd = None then None else u_fds k1 fd))"
proof -
  obtain s1 where s1: "fd_table_save (unix_os base) s = Some (Inr (), s1)" "saved_on {0..<MAXFILES} s s1"
    using runs_fd_table_save [OF assms(1), of base] by (auto simp: runs_def)
  let ?r = "s1\<lparr> t_world := k1 \<rparr>"
  have tok: "table_ok s" using assms(1) by (simp add: agrees_def)
  have tab: "t_table s1 = t_table s" using s1(2) by (simp add: saved_on_def)
  have file_r: "is_file ?r = is_file s1" by (simp add: fun_eq_iff is_file_def)
  from runs_fd_table_restore [OF restorable_after_save [OF assms(1) s1(2) assms(2,3)], of base]
  obtain s2 r where
    s2: "fd_table_restore (unix_os base) ?r = Some (Inr (), s2)" "restored_on {0..<MAXFILES} ?r r"
      "u_ofs (t_world s2) = u_ofs (t_world r)"
      "\<And>fd. u_fds (t_world s2) fd =
        (if fd \<in> {0, 1, 2} \<and> t_table s fd = None then None else u_fds (t_world r) fd)"
    using tab by (auto simp: runs_def)
  have bound: "fd \<in> {0..<MAXFILES}" if "is_file s fd p src" for fd p src
    using tok that unfolding table_ok_def is_file_def by auto
  have kept: "u_fds (t_world s2) fd = u_fds (t_world r) fd" if "is_file s fd p src" for fd p src
    using that s2(4) by (simp add: is_file_def)
  have "\<exists>path off. file_open (t_world s) fd path off \<and> file_open (t_world s2) fd path off"
    if f: "is_file s fd p src" for fd p src
  proof -
    obtain b where b: "is_file ?r fd p b" "file_open (t_world s) fd (s_path b) (s_offset b)"
      using saved_file [OF tok s1(2) f] unfolding file_r by auto
    have "file_open (t_world r) fd (s_path b) (s_offset b)" by (rule restored_onD(1) [OF s2(2) bound [OF f] b(1)])
    then show ?thesis using b(2) kept [OF f] s2(3) by (auto simp: file_open_def)
  qed
  moreover have "(u_fds (t_world s2) fd = u_fds (t_world s2) fd') = (u_fds (t_world s) fd = u_fds (t_world s) fd')"
    if f: "is_file s fd p src" "is_file s fd' p' src'" for fd p src fd' p' src'
  proof -
    obtain b b' where "is_file ?r fd p b" "is_file ?r fd' p' b'"
      using saved_file [OF tok s1(2) f(1)] saved_file [OF tok s1(2) f(2)] unfolding file_r by blast
    from restored_on_pairs [OF s2(2) bound [OF f(1)] bound [OF f(2)] this]
    have "(p = p') = (u_fds (t_world s2) fd = u_fds (t_world s2) fd')"
      using kept [OF f(1)] kept [OF f(2)] by simp
    moreover have "(p = p') = (u_fds (t_world s) fd = u_fds (t_world s) fd')"
      using assms(1) f unfolding agrees_def by blast
    ultimately show ?thesis by simp
  qed
  moreover have "u_fds (t_world r) fd = u_fds k1 fd" if "fd \<notin> file_fds s" for fd
  proof -
    have "fd \<notin> file_fds ?r" using that saved_file_back [OF tok s1(2)] unfolding file_fds_def file_r by blast
    then show ?thesis using s2(2) by (simp add: restored_on_def)
  qed
  ultimately show ?thesis
    using s1(1) s2(1,4) unfolding file_fds_def by (intro exI conjI) auto
qed

end
