(* ===== verification/Fd_Props.thy ===== *)
theory Fd_Props
  imports Fd_Restore
begin

text \<open>
  Further properties of the descriptor table: its reference counts, what a second checkpoint
  records, and what becomes of the close-on-exec flag; and a concrete process for the witnesses.
\<close>

section \<open>A concrete process\<close>

definition blank_source :: fd_source where
  "blank_source = \<lparr> s_type = FD_NULL, s_state = FD_STATE_NULL, s_path = '''', s_flags = 0, s_mode = 0,
     s_offset = 0, s_ref = 0, s_root = 0, s_dirp = 0 \<rparr>"

definition plain_fd_os :: "ufd fd_os" where
  "plain_fd_os =
     \<lparr> fo_malloc = (\<lambda>k. (Some blank_source, k)), fo_tell = u_tell, fo_seek = u_seek,
       fo_getfl = (\<lambda>_ _. Some 0), fo_getfd = (\<lambda>_ _. Some 0), fo_open = u_open, fo_dup2 = u_dup2,
       fo_close = u_close, fo_telldir = (\<lambda>_ k. (0, k)), fo_seekdir = (\<lambda>_ _ k. k), fo_dirfd = (\<lambda>_ _. 3) \<rparr>"

definition fresh_ufd :: ufd where
  "fresh_ufd = \<lparr> u_fds = (\<lambda>_. None)(0 \<mapsto> 0, 1 \<mapsto> 1, 2 \<mapsto> 2),
     u_ofs = (\<lambda>_. \<lparr> o_path = ''tty'', o_off = 0, o_flags = 0 \<rparr>), u_cloexec = (\<lambda>_. False), u_next = 3,
     u_exists = (\<lambda>_. True) \<rparr>"

definition standard_source :: "fd \<Rightarrow> fd_source" where
  "standard_source fd = blank_source\<lparr> s_type := FD_INHERITED, s_ref := 1, s_root := fd \<rparr>"

definition demo_source :: fd_source where
  "demo_source = blank_source\<lparr> s_type := FD_FILE, s_ref := 2, s_path := ''a'', s_flags := O_RDWR OR O_CLOEXEC \<rparr>"

lemma demo_source_sel [simp]:
  "s_type (standard_source fd) = FD_INHERITED" "s_root (standard_source fd) = fd"
  "s_type demo_source = FD_FILE" "s_path demo_source = ''a''" "s_state demo_source = FD_STATE_NULL"
  "s_ref demo_source = 2" "s_flags demo_source = O_RDWR OR O_CLOEXEC" "s_offset demo_source = 0"
  by (simp_all add: standard_source_def demo_source_def blank_source_def)

text \<open>Descriptors four and five share a file, the standard descriptors are as at the start.\<close>

definition demo_fdt :: "ufd fdt" where
  "demo_fdt =
     \<lparr> t_table = (\<lambda>_. None)(0 \<mapsto> 0, 1 \<mapsto> 1, 2 \<mapsto> 2, 4 \<mapsto> 3, 5 \<mapsto> 3),
       t_heap = (\<lambda>_. None)(0 \<mapsto> standard_source 0, 1 \<mapsto> standard_source 1, 2 \<mapsto> standard_source 2,
         3 \<mapsto> demo_source),
       t_next = 4, t_init = True,
       t_world = fresh_ufd\<lparr> u_fds := (u_fds fresh_ufd)(4 \<mapsto> 7, 5 \<mapsto> 7), u_next := 8,
         u_ofs := (u_ofs fresh_ufd)(7 := \<lparr> o_path = ''a'', o_off = 10, o_flags = O_RDWR \<rparr>) \<rparr> \<rparr>"

lemma demo_file: "is_file demo_fdt fd p src \<longleftrightarrow> (fd = 4 \<or> fd = 5) \<and> p = 3 \<and> src = demo_source"
  by (auto simp: is_file_def demo_fdt_def split: if_splits)

lemma demo_world:
  "u_fds (t_world demo_fdt) 4 = Some 7" "u_fds (t_world demo_fdt) 5 = Some 7"
  "u_ofs (t_world demo_fdt) 7 = \<lparr> o_path = ''a'', o_off = 10, o_flags = O_RDWR \<rparr>"
  by (simp_all add: demo_fdt_def)

lemma demo_agrees: "agrees demo_fdt"
proof -
  have "table_ok demo_fdt"
    by (simp add: table_ok_def demo_fdt_def MAXFILES_def)
  then show ?thesis
    unfolding agrees_def demo_file by (auto simp: file_open_def demo_world)
qed

theorem descriptors_survive_restart_witness:
  "\<exists>s1 s2. fd_table_save (unix_os plain_fd_os) demo_fdt = Some (Inr (), s1) \<and>
     fd_table_restore (unix_os plain_fd_os) (s1\<lparr> t_world := fresh_ufd \<rparr>) = Some (Inr (), s2) \<and>
     file_open (t_world s2) 4 ''a'' 10 \<and> u_fds (t_world s2) 4 = u_fds (t_world s2) 5"
proof -
  have room: "\<exists>g. MAXFILES \<le> g \<and> g < 1024 \<and> u_fds fresh_ufd g = None"
    by (rule exI [of _ 600]) (simp add: MAXFILES_def fresh_ufd_def)
  have files: "4 \<in> file_fds demo_fdt" "5 \<in> file_fds demo_fdt"
    by (simp_all add: file_fds_def demo_file)
  have exist: "\<forall>fd p src. is_file demo_fdt fd p src \<longrightarrow> u_exists fresh_ufd (s_path src)"
    by (simp add: fresh_ufd_def)
  obtain s1 s2 where s: "fd_table_save (unix_os plain_fd_os) demo_fdt = Some (Inr (), s1)"
    "fd_table_restore (unix_os plain_fd_os) (s1\<lparr> t_world := fresh_ufd \<rparr>) = Some (Inr (), s2)"
    "\<forall>fd \<in> file_fds demo_fdt. \<exists>path off. file_open (t_world demo_fdt) fd path off \<and> file_open (t_world s2) fd path off"
    "\<forall>fd \<in> file_fds demo_fdt. \<forall>fd' \<in> file_fds demo_fdt.
        (u_fds (t_world s2) fd = u_fds (t_world s2) fd') =
        (u_fds (t_world demo_fdt) fd = u_fds (t_world demo_fdt) fd')"
    using descriptors_survive_restart [OF demo_agrees exist room, of plain_fd_os] by blast
  have "file_open (t_world s2) 4 ''a'' 10"
    using s(3) files(1) by (fastforce simp: file_open_def demo_world)
  moreover have "u_fds (t_world s2) 4 = u_fds (t_world s2) 5"
    using s(4) [rule_format, OF files] by (simp add: demo_world)
  ultimately show ?thesis using s(1,2) by blast
qed

section \<open>A second checkpoint\<close>

text \<open>
  C40: after a checkpoint of a process that then goes on, a second checkpoint records nothing:
  the entries are still marked as saved, whatever the program has done to its files meanwhile.
  A restart from the second checkpoint puts the offsets of the first one back.
\<close>

theorem second_checkpoint_keeps_old_offsets:
  assumes "agrees s" and "fd_table_save (unix_os base) s = Some (Inr (), s1)"
  shows "fd_table_save (unix_os base) (s1\<lparr> t_world := k \<rparr>) = Some (Inr (), s1\<lparr> t_world := k \<rparr>)"
proof -
  let ?r = "s1\<lparr> t_world := k \<rparr>"
  have tok: "table_ok s" using assms(1) by (simp add: agrees_def)
  have saved: "saved_on {0..<MAXFILES} s s1"
    using runs_fd_table_save [OF assms(1), of base] assms(2) by (simp add: runs_def)
  have "\<exists>src. t_heap s1 p = Some src \<and> (s_type src = FD_INHERITED \<or> s_state src = FD_STATE_SAVED)"
    if p: "t_table s1 fd = Some p" for fd p
  proof -
    have "t_table s fd = Some p" using p saved by (simp add: saved_on_def)
    from saved_block [OF tok saved this] obtain src src' where src: "t_heap s p = Some src" "t_heap s1 p = Some src'"
      "s_type src' = s_type src" "s_type src = FD_FILE \<or> s_type src = FD_INHERITED" by blast
    show ?thesis
    proof (cases "s_type src = FD_FILE")
      case True
      then have "is_file s fd p src" using src(1) \<open>t_table s fd = Some p\<close> by (simp add: is_file_def)
      from saved_file [OF tok saved this] src(2) show ?thesis by (auto simp: is_file_def)
    qed (use src in auto)
  qed
  then have "runs (save_slot (unix_os base) fd) (\<lambda>_ s'. s' = ?r) ?r" if "fd \<in> set all_fds" for fd
    using that by (cases "t_table s1 fd") (fastforce simp: save_slot_def)+
  then have "runs (each (save_slot (unix_os base)) all_fds) (\<lambda>_ s'. s' = ?r) ?r"
    by (intro runs_each [where I = "\<lambda>_ s'. s' = ?r"]) auto
  then show ?thesis by (auto simp: fd_table_save_def runs_def)
qed

theorem second_checkpoint_keeps_old_offsets_witness:
  "\<exists>s1. fd_table_save (unix_os plain_fd_os) demo_fdt = Some (Inr (), s1) \<and>
     fd_table_save (unix_os plain_fd_os) (s1\<lparr> t_world := fresh_ufd \<rparr>) = Some (Inr (), s1\<lparr> t_world := fresh_ufd \<rparr>)"
proof -
  obtain s1 where "fd_table_save (unix_os plain_fd_os) demo_fdt = Some (Inr (), s1)"
    using runs_fd_table_save [OF demo_agrees, of plain_fd_os] by (auto simp: runs_def)
  with second_checkpoint_keeps_old_offsets [OF demo_agrees this] show ?thesis by blast
qed

lemma small_lowest:
  assumes "u_fds k 0 \<noteq> None" "u_fds k 1 \<noteq> None" "u_fds k 2 \<noteq> None" "u_fds k 3 = None"
  shows "u_lowest k = Some 3"
proof -
  define xs where "xs = [4..<4 + 1020 :: nat]"
  have n: "(1024 :: nat) = 4 + 1020" by simp
  have four: "[0..<4 :: nat] = [0, 1, 2, 3]" by (simp add: upt_rec)
  have "[0..<4 + 1020] = [0..<4] @ xs" unfolding xs_def by (rule upt_add_eq_append) simp
  then have all: "[0..<4 + 1020] = 0 # 1 # 2 # 3 # xs" unfolding four append.simps .
  show ?thesis unfolding u_lowest_def n all using assms by simp
qed

section \<open>Close-on-exec\<close>

text \<open>
  When the file of a descriptor is opened again at another number, the descriptor is made
  with \<^verbatim>\<open>dup2\<close> and is not close-on-exec any more, whatever the saved
  flags say.
\<close>

theorem restored_descriptor_loses_close_on_exec:
  assumes "0 \<le> fd" "fd < MAXFILES" and "is_file s fd p src" and "s_flags src AND O_CLOEXEC \<noteq> 0"
    and "u_exists (t_world s) (s_path src)" and "u_lowest (t_world s) = Some r" "r \<noteq> fd" and "0 \<le> s_offset src"
  shows "\<exists>s'. file_restore (unix_os base) fd s = Some (Inr 0, s') \<and>
     u_fds (t_world s') fd = Some (u_next (t_world s)) \<and> \<not> u_cloexec (t_world s') fd"
proof -
  have "runs (file_restore (unix_os base) fd) (\<lambda>e s'. e = 0 \<and>
     u_fds (t_world s') fd = Some (u_next (t_world s)) \<and> \<not> u_cloexec (t_world s') fd) s"
    using assms u_lowest_free [OF assms(6)]
    by (simp add: is_file_def file_restore_def reopen_at_def u_open_def u_dup2_def u_close_def u_seek_def)
  then show ?thesis by (auto simp: runs_def)
qed

theorem restored_descriptor_loses_close_on_exec_witness:
  "\<exists>s'. file_restore (unix_os plain_fd_os) 4 (demo_fdt\<lparr> t_world := fresh_ufd \<rparr>) = Some (Inr 0, s') \<and>
     u_fds (t_world s') 4 = Some 3 \<and> \<not> u_cloexec (t_world s') 4"
proof -
  let ?s = "demo_fdt\<lparr> t_world := fresh_ufd \<rparr>"
  have "\<exists>s'. file_restore (unix_os plain_fd_os) 4 ?s = Some (Inr 0, s') \<and>
     u_fds (t_world s') 4 = Some (u_next (t_world ?s)) \<and> \<not> u_cloexec (t_world s') 4"
  proof (rule restored_descriptor_loses_close_on_exec [where r = 3])
    show "is_file ?s 4 3 demo_source" by (simp add: is_file_def demo_fdt_def)
    show "u_lowest (t_world ?s) = Some 3" by (rule small_lowest) (simp_all add: fresh_ufd_def)
  qed (simp_all add: MAXFILES_def open_flags fresh_ufd_def)
  then show ?thesis by (simp add: fresh_ufd_def)
qed

section \<open>Reference counts\<close>

text \<open>
  Every description in the heap is referred to, by as many descriptors as its count says, and
  no descriptor refers to a freed one.
\<close>

definition table_refs :: "('w, 'm) fdt_scheme \<Rightarrow> bool" where
  "table_refs s \<longleftrightarrow>
     (\<forall>fd p. t_table s fd = Some p \<longrightarrow> 0 \<le> fd \<and> fd < MAXFILES \<and> t_heap s p \<noteq> None) \<and>
     (\<forall>p src. t_heap s p = Some src \<longrightarrow>
        p < t_next s \<and> 0 < s_ref src \<and> s_ref src = int (card {fd. t_table s fd = Some p}))"

lemma table_refsD:
  assumes "table_refs s"
  shows "t_table s fd = Some p \<Longrightarrow> \<exists>src. t_heap s p = Some src"
    and "t_table s fd = Some p \<Longrightarrow> 0 \<le> fd \<and> fd < MAXFILES"
    and "t_heap s p = Some src \<Longrightarrow> p < t_next s \<and> 0 < s_ref src \<and> s_ref src = int (card {fd. t_table s fd = Some p})"
  using assms unfolding table_refs_def by blast+

lemma table_refsI:
  assumes "\<And>fd p. tab fd = Some p \<Longrightarrow> 0 \<le> fd \<and> fd < MAXFILES \<and> heap p \<noteq> None"
    and "\<And>p src. heap p = Some src \<Longrightarrow>
      p < n \<and> 0 < s_ref src \<and> s_ref src = int (card {fd. tab fd = Some p})"
    and "t_table s = tab" "t_heap s = heap" "t_next s = n"
  shows "table_refs s"
  using assms unfolding table_refs_def by blast

lemma referring_finite:
  assumes "table_refs s"
  shows "finite {fd. t_table s fd = Some p}"
  by (rule finite_subset [of _ "{0..<MAXFILES}"]) (use assms in \<open>auto simp: table_refs_def\<close>)

lemma referring_insert:
  assumes "table_refs s" and "t_table s fd = None"
  shows "card {g. ((t_table s)(fd \<mapsto> p)) g = Some q} =
    (if q = p then Suc (card {g. t_table s g = Some q}) else card {g. t_table s g = Some q})"
proof (cases "q = p")
  case True
  then have "{g. ((t_table s)(fd \<mapsto> p)) g = Some q} = insert fd {g. t_table s g = Some q}" by auto
  then show ?thesis using True referring_finite [OF assms(1)] assms(2) by simp
next
  case False
  then have "{g. ((t_table s)(fd \<mapsto> p)) g = Some q} = {g. t_table s g = Some q}" using assms(2) by auto
  then show ?thesis using False by simp
qed

lemma referring_remove:
  assumes "table_refs s" and "t_table s fd = Some p"
  shows "card {g. ((t_table s)(fd := None)) g = Some q} =
    (if q = p then card {g. t_table s g = Some q} - 1 else card {g. t_table s g = Some q})"
proof -
  have "{g. ((t_table s)(fd := None)) g = Some q} = {g. t_table s g = Some q} - {fd}" by auto
  then show ?thesis using referring_finite [OF assms(1)] assms(2) by auto
qed

lemma runs_table_open:
  assumes "table_refs s" "t_init s" and "0 \<le> fd" "fd < MAXFILES" "t_table s fd = None"
    and "length path < PATH_MAX" and "fst (fo_malloc os (t_world s)) \<noteq> None"
  shows "runs (fd_table_open os fd path flags mode) (\<lambda>_. table_refs) s"
proof -
  have fresh: "t_heap s (t_next s) = None" "\<And>g. t_table s g \<noteq> Some (t_next s)"
    using assms(1) unfolding table_refs_def by (metis not_Some_eq order_less_irrefl)+
  have "card {g. ((t_table s)(fd \<mapsto> t_next s)) g = Some (t_next s)} = 1"
    using referring_insert [OF assms(1,5), of "t_next s" "t_next s"] fresh(2) by simp
  then show ?thesis
    using assms fresh referring_insert [OF assms(1,5), of "t_next s"]
    by (fastforce simp: fd_table_open_def copy_path_def table_refs_def)
qed

lemma runs_table_dup:
  assumes "table_refs s" "t_init s" and "0 \<le> old" "old < MAXFILES"
    and "0 \<le> fd" "fd < MAXFILES" "t_table s fd = None"
  shows "runs (fd_table_dup old fd) (\<lambda>_. table_refs) s"
proof (cases "t_table s old")
  case None
  then show ?thesis using assms by (simp add: fd_table_dup_def)
next
  case (Some p)
  then obtain src where src: "t_heap s p = Some src" using table_refsD(1) [OF assms(1)] by blast
  have "table_refs (s\<lparr> t_table := (t_table s)(fd \<mapsto> p), t_heap := (t_heap s)(p \<mapsto> src\<lparr> s_ref := s_ref src + 1 \<rparr>) \<rparr>)"
    using assms src referring_insert [OF assms(1,7), of p] by (fastforce simp: table_refs_def)
  then show ?thesis using assms Some src by (simp add: fd_table_dup_def)
qed

lemma runs_table_close:
  assumes "table_refs s" "t_init s" and "0 \<le> fd" "fd < MAXFILES"
  shows "runs (fd_table_close fd) (\<lambda>_. table_refs) s"
proof (cases "t_table s fd")
  case None
  then show ?thesis using assms by (simp add: fd_table_close_def)
next
  case (Some p)
  then obtain src where src: "t_heap s p = Some src" "s_ref src = int (card {g. t_table s g = Some p})" "0 < s_ref src"
    using table_refsD [OF assms(1)] by blast
  note card = referring_remove [OF assms(1) Some]
  have gone: "t_table s g \<noteq> Some p" if "s_ref src = 1" "g \<noteq> fd" for g
  proof -
    have "card {g. ((t_table s)(fd := None)) g = Some p} = 0" using card [of p] src(2) that(1) by simp
    moreover have "finite {g. ((t_table s)(fd := None)) g = Some p}"
      using referring_finite [OF assms(1), of p] by (rule rev_finite_subset) auto
    ultimately have "{g. ((t_table s)(fd := None)) g = Some p} = {}" by simp
    then have "((t_table s)(fd := None)) g \<noteq> Some p" by blast
    then show ?thesis using that(2) by simp
  qed
  let ?tab = "(t_table s)(fd := None)"
  have freed: "table_refs (s\<lparr> t_heap := (t_heap s)(p := None), t_table := ?tab \<rparr>)" if "s_ref src = 1"
  proof -
    have refs: "?tab g = Some q \<Longrightarrow> 0 \<le> g \<and> g < MAXFILES \<and> ((t_heap s)(p := None)) q \<noteq> None" for g q
      using gone [OF that, of g] table_refsD(1,2) [OF assms(1), of g q] by (auto split: if_splits)
    have counts: "((t_heap s)(p := None)) q = Some b \<Longrightarrow>
        q < t_next s \<and> 0 < s_ref b \<and> s_ref b = int (card {g. ?tab g = Some q})" for q b
      using table_refsD(3) [OF assms(1), of q b] card [of q] by (auto split: if_splits)
    show ?thesis by (rule table_refsI [OF refs counts]) (simp_all add: fun_upd_def)
  qed
  have kept: "table_refs (s\<lparr> t_heap := (t_heap s)(p \<mapsto> src\<lparr> s_ref := s_ref src - 1 \<rparr>), t_table := ?tab \<rparr>)"
    if "s_ref src \<noteq> 1"
  proof -
    let ?heap = "(t_heap s)(p \<mapsto> src\<lparr> s_ref := s_ref src - 1 \<rparr>)"
    have refs: "?tab g = Some q \<Longrightarrow> 0 \<le> g \<and> g < MAXFILES \<and> ?heap q \<noteq> None" for g q
      using table_refsD(1,2) [OF assms(1), of g q] by (auto split: if_splits)
    have counts: "?heap q = Some b \<Longrightarrow> q < t_next s \<and> 0 < s_ref b \<and> s_ref b = int (card {g. ?tab g = Some q})" for q b
      using table_refsD(3) [OF assms(1), of q] card [of q] src that by (auto split: if_splits)
    show ?thesis by (rule table_refsI [OF refs counts]) (simp_all add: fun_upd_def)
  qed
  show ?thesis
    using assms Some src freed kept by (auto simp: fd_table_close_def drop_ref_def free_source_def)
qed

lemma demo_refs: "table_refs demo_fdt"
proof -
  have fds: "{fd. t_table demo_fdt fd = Some 0} = {0}" "{fd. t_table demo_fdt fd = Some 1} = {1}"
    "{fd. t_table demo_fdt fd = Some 2} = {2}" "{fd. t_table demo_fdt fd = Some 3} = {4, 5}"
    by (auto simp: demo_fdt_def split: if_splits)
  have one: "s_ref (standard_source g) = 1" for g by (simp add: standard_source_def blank_source_def)
  have heap: "t_heap demo_fdt p = Some src \<Longrightarrow> p = 0 \<and> src = standard_source 0 \<or> p = 1 \<and> src = standard_source 1 \<or>
      p = 2 \<and> src = standard_source 2 \<or> p = 3 \<and> src = demo_source" for p src
    by (auto simp: demo_fdt_def split: if_splits)
  have "t_next demo_fdt = 4" by (simp add: demo_fdt_def)
  then have "p < t_next demo_fdt \<and> 0 < s_ref src \<and> s_ref src = int (card {fd. t_table demo_fdt fd = Some p})"
    if "t_heap demo_fdt p = Some src" for p src
    using heap [OF that] fds one by (elim disjE) simp_all
  moreover have "t_table demo_fdt fd = Some p \<Longrightarrow> 0 \<le> fd \<and> fd < MAXFILES \<and> t_heap demo_fdt p \<noteq> None" for fd p
    by (auto simp: demo_fdt_def MAXFILES_def split: if_splits)
  ultimately show ?thesis unfolding table_refs_def by blast
qed

text \<open>
  C39: opening a file at a free descriptor, duplicating onto a free descriptor and closing a
  descriptor return and keep the reference counts exact: nothing is freed that a descriptor
  refers to, and nothing stays allocated without one.
\<close>

theorem table_operations_keep_references:
  assumes "table_refs s" "t_init s" and "0 \<le> fd" "fd < MAXFILES"
    and "0 \<le> fd'" "fd' < MAXFILES" "t_table s fd' = None"
    and "length path < PATH_MAX" and "fst (fo_malloc os (t_world s)) \<noteq> None"
  shows "(\<exists>s'. fd_table_open os fd' path flags mode s = Some (Inr (), s') \<and> table_refs s') \<and>
     (\<exists>s'. fd_table_dup fd fd' s = Some (Inr (), s') \<and> table_refs s') \<and>
     (\<exists>s'. fd_table_close fd s = Some (Inr (), s') \<and> table_refs s')"
  using runs_table_open [OF assms(1,2,5-9), of flags mode] runs_table_dup [OF assms(1-7)]
    runs_table_close [OF assms(1-4)]
  by (simp add: runs_def)

theorem table_operations_keep_references_witness:
  "(\<exists>s'. fd_table_open plain_fd_os 6 ''b'' 0 0 demo_fdt = Some (Inr (), s') \<and> table_refs s') \<and>
     (\<exists>s'. fd_table_dup 4 6 demo_fdt = Some (Inr (), s') \<and> table_refs s') \<and>
     (\<exists>s'. fd_table_close 4 demo_fdt = Some (Inr (), s') \<and> table_refs s')"
  by (rule table_operations_keep_references [OF demo_refs])
    (simp_all add: demo_fdt_def MAXFILES_def PATH_MAX_def plain_fd_os_def)

end
