(* ===== verification/File_Props.thy ===== *)
theory File_Props
  imports File_Wrappers Fd_Props
begin

text \<open>
  The wrappers on descriptors: they answer what the real call answers and leave the thread as
  it was, and together with the kernel they keep the table in the state from which a restart
  gives every descriptor its file back.
\<close>

section \<open>Transparency\<close>

text \<open>The parts of the state that operations on the table do not touch.\<close>

definition same_env :: "('w, 'm) lib_scheme \<Rightarrow> ('w, 'm) lib_scheme \<Rightarrow> bool" where
  "same_env s s' \<longleftrightarrow> l_self s' = l_self s \<and> l_state s' = l_state s \<and> l_tlv s' = l_tlv s \<and> t_world s' = t_world s"

definition no_dangling :: "('w, 'm) fdt_scheme \<Rightarrow> bool" where
  "no_dangling s \<longleftrightarrow> (\<forall>fd p. t_table s fd = Some p \<longrightarrow> t_heap s p \<noteq> None)"

definition valid_fd :: "fd \<Rightarrow> bool" where
  "valid_fd fd \<longleftrightarrow> 0 \<le> fd \<and> fd < MAXFILES"

lemma no_danglingD: "no_dangling s \<Longrightarrow> t_table s fd = Some p \<Longrightarrow> \<exists>src. t_heap s p = Some src"
  by (auto simp: no_dangling_def)

lemma runs_dup_env:
  assumes "no_dangling s" and "valid_fd old" and "valid_fd fd"
  shows "runs (fd_table_dup old fd) (\<lambda>_. same_env s) s"
  using assms no_danglingD [OF assms(1), of old]
  by (cases "t_table s old") (auto simp: fd_table_dup_def same_env_def valid_fd_def)

lemma runs_close_env:
  assumes "no_dangling s" and "valid_fd fd"
  shows "runs (fd_table_close fd) (\<lambda>_. same_env s) s"
  using assms no_danglingD [OF assms(1), of fd]
  by (cases "t_table s fd") (auto simp: fd_table_close_def drop_ref_def free_source_def same_env_def valid_fd_def)

lemma runs_open_env:
  assumes "valid_fd fd" and "length path < PATH_MAX" and "fst (fo_malloc os (t_world s)) \<noteq> None"
    and "snd (fo_malloc os (t_world s)) = t_world s"
  shows "runs (fd_table_open os fd path flags mode) (\<lambda>_. same_env s) s"
  using assms by (auto simp: fd_table_open_def copy_path_def same_env_def valid_fd_def)

lemma same_env_trans: "same_env s1 s2 \<Longrightarrow> same_env s2 s3 \<Longrightarrow> same_env s1 s3"
  by (simp add: same_env_def)

text \<open>A wrapper whose recording part touches the table only answers as the real call does.\<close>

lemma wrapped_transparent:
  assumes "can_enter s"
    and "runs (record_it (fst (call (t_world s)))) (\<lambda>_. same_env (s\<lparr> l_self := entered (l_self s), t_world := snd (call (t_world s)) \<rparr>))
           (s\<lparr> l_self := entered (l_self s), t_world := snd (call (t_world s)) \<rparr>)"
  shows "\<exists>s'. wrapped (os_call call) (bnd (os_call call) (\<lambda>r. sq (record_it r) (ret r))) s =
           Some (Inr (fst (call (t_world s))), s') \<and>
         t_world s' = snd (call (t_world s)) \<and> l_self s' = l_self s"
proof -
  let ?Q = "\<lambda>r s'. r = fst (call (t_world s)) \<and> t_world s' = snd (call (t_world s)) \<and> l_self s' = l_self s"
  have "runs (wrapped (os_call call) (bnd (os_call call) (\<lambda>r. sq (record_it r) (ret r)))) ?Q s"
  proof (rule runs_wrapped [OF assms(1)])
    show "runs (os_call call) ?Q s" by simp
    show "runs (bnd (os_call call) (\<lambda>r. sq (record_it r) (ret r)))
        (\<lambda>r s'. l_self s' = entered (l_self s) \<and> ?Q r (s'\<lparr> l_self := l_self s \<rparr>)) (s\<lparr> l_self := entered (l_self s) \<rparr>)"
      using runs_mono [OF assms(2)] by (simp add: same_env_def)
  qed
  then show ?thesis by (auto simp: runs_def)
qed

text \<open>
  C6: a program cannot tell the wrappers of \<^verbatim>\<open>openat\<close>,
  \<^verbatim>\<open>close\<close>, \<^verbatim>\<open>dup\<close> and \<^verbatim>\<open>dup2\<close> from
  the real calls: they return, with the same answer and the same effect on the system, and the
  thread is in the state it was in, outside or inside another wrapper.
\<close>

theorem descriptor_wrappers_are_transparent:
  fixes s :: "('w, 'm) lib_scheme" and os :: "('w, 'n) file_os_scheme"
  assumes "can_enter s" and "no_dangling s" and "valid_fd fd" and "length path < PATH_MAX"
    and mode: "flags AND O_CREAT \<noteq> 0 \<or> mode = 0"
    and malloc: "\<And>w. fst (fo_malloc os w) \<noteq> None" "\<And>w. snd (fo_malloc os w) = w"
    and opened: "\<And>r w. fw_openat os dirfd path flags mode (t_world s) = (r, w) \<Longrightarrow> r = - 1 \<or> valid_fd r"
    and dupped: "\<And>r w. fw_dup os fd (t_world s) = (r, w) \<Longrightarrow> r = - 1 \<or> valid_fd r"
    and dup2ed: "\<And>r w. fo_dup2 os fd newfd (t_world s) = (r, w) \<Longrightarrow> r = - 1 \<or> r = newfd \<and> valid_fd r"
  shows "(\<exists>s'. openat_hook os dirfd path flags mode s =
            Some (Inr (fst (fw_openat os dirfd path flags mode (t_world s))), s') \<and>
            t_world s' = snd (fw_openat os dirfd path flags mode (t_world s)) \<and> l_self s' = l_self s) \<and>
         (\<exists>s'. close_hook os fd s = Some (Inr (fst (fo_close os fd (t_world s))), s') \<and>
            t_world s' = snd (fo_close os fd (t_world s)) \<and> l_self s' = l_self s) \<and>
         (\<exists>s'. dup_hook os fd s = Some (Inr (fst (fw_dup os fd (t_world s))), s') \<and>
            t_world s' = snd (fw_dup os fd (t_world s)) \<and> l_self s' = l_self s) \<and>
         (\<exists>s'. dup2_hook os fd newfd s = Some (Inr (fst (fo_dup2 os fd newfd (t_world s))), s') \<and>
            t_world s' = snd (fo_dup2 os fd newfd (t_world s)) \<and> l_self s' = l_self s)"
proof (intro conjI)
  have dangling: "no_dangling (s\<lparr> l_self := t, t_world := w \<rparr>)" for t w
    using assms(2) by (simp add: no_dangling_def)
  have refl: "same_env t t" for t :: "('w, 'm) lib_scheme" by (simp add: same_env_def)
  have m: "(if flags AND O_CREAT \<noteq> 0 then mode else 0) = mode" using mode by auto
  show "\<exists>s'. openat_hook os dirfd path flags mode s =
            Some (Inr (fst (fw_openat os dirfd path flags mode (t_world s))), s') \<and>
            t_world s' = snd (fw_openat os dirfd path flags mode (t_world s)) \<and> l_self s' = l_self s"
    unfolding openat_hook_def m Let_def
    by (rule wrapped_transparent [OF assms(1)])
      (use opened runs_open_env assms(4) malloc refl in \<open>fastforce simp: prod_eq_iff\<close>)
  show "\<exists>s'. close_hook os fd s = Some (Inr (fst (fo_close os fd (t_world s))), s') \<and>
            t_world s' = snd (fo_close os fd (t_world s)) \<and> l_self s' = l_self s"
    unfolding close_hook_def
    by (rule wrapped_transparent [OF assms(1)]) (simp add: refl runs_close_env [OF dangling assms(3)])
  show "\<exists>s'. dup_hook os fd s = Some (Inr (fst (fw_dup os fd (t_world s))), s') \<and>
            t_world s' = snd (fw_dup os fd (t_world s)) \<and> l_self s' = l_self s"
    unfolding dup_hook_def
    by (rule wrapped_transparent [OF assms(1)])
      (use dupped runs_dup_env [OF dangling assms(3)] refl in \<open>auto simp: prod_eq_iff\<close>)
  show "\<exists>s'. dup2_hook os fd newfd s = Some (Inr (fst (fo_dup2 os fd newfd (t_world s))), s') \<and>
            t_world s' = snd (fo_dup2 os fd newfd (t_world s)) \<and> l_self s' = l_self s"
    unfolding dup2_hook_def
    by (rule wrapped_transparent [OF assms(1)])
      (use dup2ed runs_dup_env [OF dangling assms(3)] refl in \<open>auto simp: prod_eq_iff\<close>)
qed

section \<open>A concrete process\<close>

definition u_dup :: "fd \<Rightarrow> ufd \<Rightarrow> fd \<times> ufd" where
  "u_dup old k =
     (case u_fds k old of
        None \<Rightarrow> (- 1, k)
      | Some of' \<Rightarrow> (case u_lowest k of
            None \<Rightarrow> (- 1, k)
          | Some fd \<Rightarrow> (fd, k\<lparr> u_fds := (u_fds k)(fd \<mapsto> of'), u_cloexec := (u_cloexec k)(fd := False) \<rparr>)))"

definition plain_file_os :: "ufd file_os" where
  "plain_file_os =
     \<lparr> fo_malloc = (\<lambda>k. (Some blank_source, k)), fo_tell = u_tell, fo_seek = u_seek,
       fo_getfl = (\<lambda>fd k. map_option (\<lambda>i. o_flags (u_ofs k i)) (u_fds k fd)),
       fo_getfd = (\<lambda>fd k. map_option (\<lambda>_. if u_cloexec k fd then FD_CLOEXEC else 0) (u_fds k fd)),
       fo_open = u_open, fo_dup2 = u_dup2, fo_close = u_close,
       fo_telldir = (\<lambda>_ k. (0, k)), fo_seekdir = (\<lambda>_ _ k. k), fo_dirfd = (\<lambda>_ _. 3),
       fw_openat = (\<lambda>_. u_open), fw_dup = u_dup, fw_fcntl = (\<lambda>_ _ _ k. (0, k)),
       fw_getpath = (\<lambda>fd k. map_option (\<lambda>i. o_path (u_ofs k i)) (u_fds k fd)),
       fw_fopen = (\<lambda>_ _ k. (0, k)), fw_fclose = (\<lambda>_ k. (0, k)), fw_freopen = (\<lambda>_ _ _ k. (0, k)),
       fw_fileno = (\<lambda>_ _. 0), fw_opendir = (\<lambda>_ k. (0, k)), fw_fdopendir = (\<lambda>_ k. (0, k)),
       fw_closedir = (\<lambda>_ k. (0, k)), fw_readdir = (\<lambda>_ k. (0, k)), fw_readdir_r = (\<lambda>_ k. ((0, 0), k)),
       fw_rewinddir = (\<lambda>_ k. k) \<rparr>"

definition running_thread :: thread_info where
  "running_thread = \<lparr> ti_self = 1, ti_start_routine = 0, ti_arg = 0, ti_state = ST_RUNNING, ti_depth = 0,
     ti_exiting = False, ti_joined = False, ti_uctx = [], ti_ss = (0, 0, 0), ti_sigblocked = 0, ti_tls = 0 \<rparr>"

definition demo_lib :: "ufd lib" where
  "demo_lib =
     \<lparr> t_table = t_table demo_fdt, t_heap = t_heap demo_fdt, t_next = 4, t_init = True, t_world = t_world demo_fdt,
       l_self = Some running_thread, l_state = XND_RUNNING, l_tlv = TSD_XND_INIT \<rparr>"

lemma demo_lib_sel [simp]:
  "t_table demo_lib = t_table demo_fdt" "t_heap demo_lib = t_heap demo_fdt" "t_world demo_lib = t_world demo_fdt"
  "l_self demo_lib = Some running_thread" "t_init demo_lib" "t_next demo_lib = 4"
  by (simp_all add: demo_lib_def)

lemma demo_lib_enter: "can_enter demo_lib"
  by (simp add: can_enter_def running_thread_def)

lemma demo_lowest: "u_lowest (t_world demo_fdt) = Some 3"
  by (rule small_lowest) (simp_all add: demo_fdt_def fresh_ufd_def)

theorem descriptor_wrappers_are_transparent_witness:
  "\<exists>s'. dup_hook plain_file_os 4 demo_lib = Some (Inr 3, s') \<and>
     u_fds (t_world s') 3 = Some 7 \<and> l_self s' = Some running_thread"
proof -
  have dup: "u_dup 4 (t_world demo_fdt) = (3, (t_world demo_fdt)\<lparr> u_fds := (u_fds (t_world demo_fdt))(3 \<mapsto> 7),
      u_cloexec := (u_cloexec (t_world demo_fdt))(3 := False) \<rparr>)"
    by (simp add: u_dup_def demo_lowest demo_world)
  have open_dup: "u_open ''b'' 0 0 (t_world demo_fdt) = (r, w) \<Longrightarrow> r = - 1 \<or> valid_fd r" for r w
    by (auto simp: u_open_def demo_lowest valid_fd_def MAXFILES_def split: if_splits)
  have "(\<exists>s'. dup_hook plain_file_os 4 demo_lib = Some (Inr (fst (fw_dup plain_file_os 4 (t_world demo_lib))), s') \<and>
      t_world s' = snd (fw_dup plain_file_os 4 (t_world demo_lib)) \<and> l_self s' = l_self demo_lib)"
    using demo_lib_enter dup open_dup
    by (intro descriptor_wrappers_are_transparent [where path = "''b''" and flags = 0 and mode = 0 and dirfd = AT_FDCWD and newfd = 5,
          THEN conjunct2, THEN conjunct2, THEN conjunct1])
      (auto simp: plain_file_os_def valid_fd_def MAXFILES_def PATH_MAX_def no_dangling_def demo_fdt_def u_dup2_def
        split: if_splits)
  then show ?thesis
    using dup by (auto simp: plain_file_os_def)
qed

section \<open>The table follows the kernel\<close>

definition unix_file_os :: "(ufd, 'n) file_os_scheme \<Rightarrow> (ufd, 'n) file_os_scheme" where
  "unix_file_os base = (unix_os base)\<lparr> fw_openat := (\<lambda>_. u_open), fw_dup := u_dup \<rparr>"

lemma unix_file_os_sel [simp]:
  "fw_openat (unix_file_os base) dirfd = u_open" "fw_dup (unix_file_os base) = u_dup"
  "fo_close (unix_file_os base) = u_close" "fo_malloc (unix_file_os base) = fo_malloc base"
  by (simp_all add: unix_file_os_def unix_os_def)

definition tracks :: "(ufd, 'm) fdt_scheme \<Rightarrow> bool" where
  "tracks s \<longleftrightarrow> agrees s \<and> table_refs s \<and> t_init s \<and>
     (\<forall>fd. valid_fd fd \<longrightarrow> (t_table s fd = None) = (u_fds (t_world s) fd = None)) \<and>
     (\<forall>fd i. u_fds (t_world s) fd = Some i \<longrightarrow> i < u_next (t_world s))"

text \<open>
  The agreement carries over to a state all of whose file descriptors refer to what some file
  descriptor referred to before.
\<close>

lemma agrees_transfer:
  assumes "agrees s" and "table_ok s2"
    and old: "\<And>g q b. is_file s2 g q b \<Longrightarrow> \<exists>g0 b0. is_file s g0 q b0 \<and> s_state b = s_state b0 \<and>
      s_path b = s_path b0 \<and> u_fds (t_world s2) g = u_fds (t_world s) g0"
    and "u_ofs (t_world s2) = u_ofs (t_world s)"
  shows "agrees s2"
proof -
  have one: "s_state b \<noteq> FD_STATE_SAVED \<and> (\<exists>off \<ge> 0. file_open (t_world s2) g (s_path b) off)"
    if f: "is_file s2 g q b" for g q b
  proof -
    obtain g0 b0 where o: "is_file s g0 q b0" "s_state b = s_state b0" "s_path b = s_path b0"
      "u_fds (t_world s2) g = u_fds (t_world s) g0"
      using old [OF f] by blast
    then have "s_state b0 \<noteq> FD_STATE_SAVED \<and> (\<exists>off \<ge> 0. file_open (t_world s) g0 (s_path b0) off)"
      using assms(1) unfolding agrees_def by blast
    then show ?thesis using o assms(4) by (simp add: file_open_def)
  qed
  have two: "q = q' \<longleftrightarrow> u_fds (t_world s2) g = u_fds (t_world s2) g'"
    if f: "is_file s2 g q b" "is_file s2 g' q' b'" for g q b g' q' b'
  proof -
    obtain g0 b0 g1 b1 where o: "is_file s g0 q b0" "u_fds (t_world s2) g = u_fds (t_world s) g0"
      "is_file s g1 q' b1" "u_fds (t_world s2) g' = u_fds (t_world s) g1"
      using old [OF f(1)] old [OF f(2)] by blast
    then have "q = q' \<longleftrightarrow> u_fds (t_world s) g0 = u_fds (t_world s) g1"
      using assms(1) unfolding agrees_def by blast
    then show ?thesis using o by simp
  qed
  show ?thesis unfolding agrees_def using assms(2) one two by blast
qed

lemma tracksD:
  assumes "tracks s"
  shows "agrees s" "table_refs s" "t_init s" "table_ok s"
    and "valid_fd fd \<Longrightarrow> (t_table s fd = None) = (u_fds (t_world s) fd = None)"
    and "u_fds (t_world s) fd = Some i \<Longrightarrow> i < u_next (t_world s)"
  using assms by (simp_all add: tracks_def agrees_def)

lemma table_refs_world [simp]: "table_refs (s\<lparr> t_world := k \<rparr>) = table_refs s"
  unfolding table_refs_def by simp

lemma is_file_bound: "table_refs s \<Longrightarrow> is_file s fd p src \<Longrightarrow> p < t_next s"
  unfolding is_file_def using table_refsD(3) by blast

lemma tracks_open:
  assumes "tracks s" and "u_lowest (t_world s) = Some fd" and "valid_fd fd" and "u_exists (t_world s) path"
    and "length path < PATH_MAX" and malloc: "\<And>w. fst (fo_malloc os w) \<noteq> None" "\<And>w. snd (fo_malloc os w) = w"
  shows "runs (fd_table_open os fd path flags mode) (\<lambda>_. tracks)
    (s\<lparr> t_world := snd (u_open path flags m (t_world s)) \<rparr>)"
proof -
  note free = u_lowest_free [OF assms(2)] and tr = tracksD [OF assms(1)]
  define k where "k = snd (u_open path flags m (t_world s))"
  let ?s = "s\<lparr> t_world := k \<rparr>" and ?n = "t_next s" and ?u = "u_next (t_world s)"
  have k: "u_fds k = (u_fds (t_world s))(fd \<mapsto> ?u)" "u_next k = ?u + 1"
    "u_ofs k = (u_ofs (t_world s))(?u := \<lparr> o_path = path, o_off = 0, o_flags = flags \<rparr>)"
    using assms(2,4) by (simp_all add: u_open_def k_def)
  have empty: "t_table s fd = None" using tr(5) [OF assms(3)] free by simp
  have "table_refs ?s" using tr(2) by simp
  then have "runs (fd_table_open os fd path flags mode) (\<lambda>_. table_refs) ?s"
    by (rule runs_table_open) (use tr(3) assms(3,5) malloc empty in \<open>simp_all add: valid_fd_def\<close>)
  moreover obtain junk where junk: "fst (fo_malloc os k) = Some junk" using malloc(1) [of k] by auto
  define b where "b = junk\<lparr> s_type := FD_FILE, s_ref := 1, s_mode := mode, s_flags := flags,
      s_state := FD_STATE_NULL, s_path := path \<rparr>"
  have "runs (fd_table_open os fd path flags mode) (\<lambda>_ s2. t_table s2 = (t_table s)(fd \<mapsto> ?n) \<and>
      t_heap s2 = (t_heap s)(?n \<mapsto> b) \<and> t_world s2 = k \<and> t_init s2) ?s"
    using assms(3,5) malloc(2) junk tr(3) by (simp add: fd_table_open_def copy_path_def valid_fd_def b_def)
  moreover have "tracks s2" if refs: "table_refs s2"
    and s2: "t_table s2 = (t_table s)(fd \<mapsto> ?n)" "t_heap s2 = (t_heap s)(?n \<mapsto> b)" "t_world s2 = k" "t_init s2" for s2
  proof -
    have b: "s_type b = FD_FILE" "s_state b = FD_STATE_NULL" "s_path b = path" by (simp_all add: b_def)
    have unused: "t_table s g \<noteq> Some ?n" for g
      using table_refsD(1) [OF tr(2), of g ?n] table_refsD(3) [OF tr(2), of ?n] by auto
    have file2: "is_file s2 g q c \<longleftrightarrow> (g = fd \<and> q = ?n \<and> c = b) \<or> (g \<noteq> fd \<and> is_file s g q c)" for g q c
      using s2 b unused by (auto simp: is_file_def)
    have "table_ok s2"
    proof -
      have "\<exists>c. t_heap s2 q = Some c \<and> (s_type c = FD_FILE \<or> s_type c = FD_INHERITED \<and> s_root c = g)"
        if "t_table s2 g = Some q" for g q
        using that s2 b unused tr(4) unfolding table_ok_def by (cases "g = fd") fastforce+
      then show ?thesis using table_refsD(2) [OF refs] unfolding table_ok_def by blast
    qed
    moreover have "s_state c \<noteq> FD_STATE_SAVED \<and> (\<exists>off \<ge> 0. file_open k g (s_path c) off)"
      if f: "is_file s2 g q c" for g q c
    proof (cases "g = fd")
      case True
      then show ?thesis using f b k by (auto simp: file2 file_open_def)
    next
      case False
      then have "is_file s g q c" using f file2 by simp
      then have "s_state c \<noteq> FD_STATE_SAVED \<and> (\<exists>off \<ge> 0. file_open (t_world s) g (s_path c) off)"
        using tr(1) unfolding agrees_def by blast
      then show ?thesis using k False tr(6) [of g] by (fastforce simp: file_open_def)
    qed
    moreover have "(q = q') = (u_fds k g = u_fds k g')" if f: "is_file s2 g q c" "is_file s2 g' q' c'" for g q c g' q' c'
    proof -
      have old: "u_fds (t_world s) h \<noteq> Some ?u" for h using tr(6) [of h] by auto
      have pairs: "(q = q') = (u_fds (t_world s) g = u_fds (t_world s) g')" if "is_file s g q c" "is_file s g' q' c'"
        using tr(1) that unfolding agrees_def by blast
      show ?thesis
        using f pairs old old [THEN not_sym] k(1) is_file_bound [OF tr(2), of g q c] is_file_bound [OF tr(2), of g' q' c']
        by (auto simp: file2)
    qed
    ultimately have "agrees s2" using s2(3) unfolding agrees_def by blast
    then show ?thesis
      using refs s2 k tr(5,6) by (auto simp: tracks_def less_Suc_eq)
  qed
  ultimately show ?thesis
    unfolding k_def [symmetric] using runs_conj runs_mono by (smt (verit, best))
qed

lemma tracks_dup:
  assumes "tracks s" and "u_lowest (t_world s) = Some fd" and "valid_fd fd" "valid_fd old" and "is_file s old p src"
  shows "runs (fd_table_dup old fd) (\<lambda>_. tracks) (s\<lparr> t_world := snd (u_dup old (t_world s)) \<rparr>)"
proof -
  note free = u_lowest_free [OF assms(2)] and tr = tracksD [OF assms(1)]
  define k where "k = snd (u_dup old (t_world s))"
  let ?s = "s\<lparr> t_world := k \<rparr>"
  have src: "t_table s old = Some p" "t_heap s p = Some src" "s_type src = FD_FILE"
    using assms(5) by (simp_all add: is_file_def)
  obtain i where i: "u_fds (t_world s) old = Some i" using tr(5) [OF assms(4)] src(1) by auto
  have k: "u_fds k = (u_fds (t_world s))(fd \<mapsto> i)" "u_next k = u_next (t_world s)" "u_ofs k = u_ofs (t_world s)"
    using assms(2) i by (simp_all add: u_dup_def k_def)
  have empty: "t_table s fd = None" using tr(5) [OF assms(3)] free by simp
  define b where "b = src\<lparr> s_ref := s_ref src + 1 \<rparr>"
  have "runs (fd_table_dup old fd) (\<lambda>_. table_refs) ?s"
    by (rule runs_table_dup) (use tr(2,3) assms(3,4) empty in \<open>simp_all add: valid_fd_def\<close>)
  moreover have "runs (fd_table_dup old fd) (\<lambda>_ s2. t_table s2 = (t_table s)(fd \<mapsto> p) \<and>
      t_heap s2 = (t_heap s)(p \<mapsto> b) \<and> t_world s2 = k \<and> t_init s2) ?s"
    using assms(3,4) src tr(3) by (simp add: fd_table_dup_def valid_fd_def b_def)
  moreover have "tracks s2" if refs: "table_refs s2"
    and s2: "t_table s2 = (t_table s)(fd \<mapsto> p)" "t_heap s2 = (t_heap s)(p \<mapsto> b)" "t_world s2 = k" "t_init s2" for s2
  proof -
    have b: "s_type b = FD_FILE" "s_state b = s_state src" "s_path b = s_path src" using src by (simp_all add: b_def)
    have ok: "table_ok s2"
    proof -
      have "\<exists>c. t_heap s2 q = Some c \<and> (s_type c = FD_FILE \<or> s_type c = FD_INHERITED \<and> s_root c = g)"
        if "t_table s2 g = Some q" for g q
        using that s2 b src tr(4) unfolding table_ok_def by (cases "q = p"; cases "g = fd") fastforce+
      then show ?thesis using table_refsD(2) [OF refs] unfolding table_ok_def by blast
    qed
    have "\<exists>g0 b0. is_file s g0 q b0 \<and> s_state c = s_state b0 \<and> s_path c = s_path b0 \<and>
        u_fds (t_world s2) g = u_fds (t_world s) g0" if f: "is_file s2 g q c" for g q c
    proof (cases "g = fd")
      case True
      then have "q = p" "c = b" using f s2 by (auto simp: is_file_def)
      then show ?thesis using assms(5) b k i s2(3) True by (intro exI [of _ old] exI [of _ src]) simp
    next
      case False
      then have tab: "t_table s g = Some q" using f s2 by (simp add: is_file_def)
      show ?thesis
      proof (cases "q = p")
        case True
        then have "c = b" using f s2 by (simp add: is_file_def)
        then show ?thesis using True tab src b k s2(3) False
          by (intro exI [of _ g] exI [of _ src]) (simp add: is_file_def)
      next
        case other: False
        then have "is_file s g q c" using f s2 tab by (simp add: is_file_def)
        then show ?thesis using k s2(3) False by (intro exI [of _ g] exI [of _ c]) simp
      qed
    qed
    then have "agrees s2" by (rule agrees_transfer [OF tr(1) ok]) (simp_all add: k s2(3))
    then show ?thesis
      using refs s2 k tr(5,6) i by (auto simp: tracks_def)
  qed
  ultimately show ?thesis
    unfolding k_def [symmetric] using runs_conj runs_mono by (smt (verit, best))
qed

lemma tracks_close:
  assumes "tracks s" and "valid_fd fd" and "is_file s fd p src"
  shows "runs (fd_table_close fd) (\<lambda>_. tracks) (s\<lparr> t_world := snd (u_close fd (t_world s)) \<rparr>)"
proof -
  note tr = tracksD [OF assms(1)]
  define k where "k = snd (u_close fd (t_world s))"
  let ?s = "s\<lparr> t_world := k \<rparr>"
  have src: "t_table s fd = Some p" "t_heap s p = Some src" "s_type src = FD_FILE"
    using assms(3) by (simp_all add: is_file_def)
  have k: "u_fds k = (u_fds (t_world s))(fd := None)" "u_next k = u_next (t_world s)" "u_ofs k = u_ofs (t_world s)"
    using tr(5) [OF assms(2)] src(1) by (auto simp: u_close_def k_def)
  define heap where "heap = (t_heap s)(p := (if s_ref src = 1 then None else Some (src\<lparr> s_ref := s_ref src - 1 \<rparr>)))"
  have "runs (fd_table_close fd) (\<lambda>_. table_refs) ?s"
    by (rule runs_table_close) (use tr(2,3) assms(2) in \<open>simp_all add: valid_fd_def\<close>)
  moreover have "runs (fd_table_close fd) (\<lambda>_ s2. t_table s2 = (t_table s)(fd := None) \<and>
      t_heap s2 = heap \<and> t_world s2 = k \<and> t_init s2) ?s"
    using assms(2) src tr(3)
    by (auto simp: fd_table_close_def drop_ref_def free_source_def valid_fd_def heap_def)
  moreover have "tracks s2" if refs: "table_refs s2"
    and s2: "t_table s2 = (t_table s)(fd := None)" "t_heap s2 = heap" "t_world s2 = k" "t_init s2" for s2
  proof -
    have old: "\<exists>c0. t_heap s q = Some c0 \<and> s_type c = s_type c0 \<and> s_state c = s_state c0 \<and> s_path c = s_path c0 \<and>
        s_root c = s_root c0" if "t_heap s2 q = Some c" for q c
      using that src(2) by (auto simp: s2(2) heap_def split: if_splits)
    have "\<exists>c. t_heap s2 q = Some c \<and> (s_type c = FD_FILE \<or> s_type c = FD_INHERITED \<and> s_root c = g)"
      if t: "t_table s2 g = Some q" for g q
    proof -
      obtain c where c: "t_heap s2 q = Some c" using table_refsD(1) [OF refs t] by blast
      moreover have "t_table s g = Some q" using t s2(1) by (simp split: if_splits)
      ultimately show ?thesis using old [OF c] tr(4) unfolding table_ok_def by fastforce
    qed
    then have ok: "table_ok s2" using table_refsD(2) [OF refs] unfolding table_ok_def by blast
    have "\<exists>g0 b0. is_file s g0 q b0 \<and> s_state c = s_state b0 \<and> s_path c = s_path b0 \<and>
        u_fds (t_world s2) g = u_fds (t_world s) g0" if f: "is_file s2 g q c" for g q c
    proof -
      have g: "g \<noteq> fd" "t_table s g = Some q" "t_heap s2 q = Some c" "s_type c = FD_FILE"
        using f s2(1) by (auto simp: is_file_def split: if_splits)
      obtain c0 where "is_file s g q c0" "s_state c = s_state c0" "s_path c = s_path c0"
        using old [OF g(3)] g(2,4) by (auto simp: is_file_def)
      then show ?thesis using k s2(3) g(1) by (intro exI [of _ g] exI [of _ c0]) simp
    qed
    then have "agrees s2" by (rule agrees_transfer [OF tr(1) ok]) (simp_all add: k s2(3))
    then show ?thesis
      using refs s2 k tr(5,6) by (auto simp: tracks_def split: if_splits)
  qed
  ultimately show ?thesis
    unfolding k_def [symmetric] using runs_conj runs_mono by (smt (verit, best))
qed

lemma tracks_self [simp]: "tracks (s\<lparr> l_self := t \<rparr>) = tracks s"
  by (simp add: tracks_def agrees_def table_ok_def table_refs_def is_file_def)

text \<open>
  C5: on a Unix system the wrappers of \<^verbatim>\<open>open\<close>,
  \<^verbatim>\<open>dup\<close> and \<^verbatim>\<open>close\<close> return and keep the
  descriptor table in agreement with the kernel: the state from which a checkpoint and a
  restart give every descriptor its file, its offset and its sharing back.
\<close>

theorem descriptor_wrappers_track_the_kernel:
  fixes s :: "(ufd, 'm) lib_scheme" and base :: "(ufd, 'n) file_os_scheme"
  assumes "can_enter s" and "\<not> XND_SKIP_INTERPOSE s" and "tracks s" and "is_file s fd p src"
    and "u_lowest (t_world s) = Some fd'" "valid_fd fd'" and "length path < PATH_MAX" and "u_exists (t_world s) path"
    and malloc: "\<And>w. fst (fo_malloc base w) \<noteq> None" "\<And>w. snd (fo_malloc base w) = w"
  shows "(\<exists>s'. open_hook (unix_file_os base) path flags mode s = Some (Inr fd', s') \<and> tracks s') \<and>
         (\<exists>s'. dup_hook (unix_file_os base) fd s = Some (Inr fd', s') \<and> tracks s') \<and>
         (\<exists>s'. close_hook (unix_file_os base) fd s = Some (Inr 0, s') \<and> tracks s')"
proof (intro conjI)
  note tr = tracksD [OF assms(3)] and free = u_lowest_free [OF assms(5)]
  have fd: "valid_fd fd" using table_refsD(2) [OF tr(2)] assms(4) by (simp add: is_file_def valid_fd_def)
  have open_fd: "u_fds (t_world s) fd \<noteq> None" using tr(5) [OF fd] assms(4) by (auto simp: is_file_def)
  have neg: "fd' \<noteq> - 1" using assms(6) by (simp add: valid_fd_def)
  let ?in = "s\<lparr> l_self := entered (l_self s) \<rparr>"
  have inside: "tracks ?in" "u_lowest (t_world ?in) = Some fd'" "is_file ?in fd p src" "u_exists (t_world ?in) path"
    using assms by (simp_all add: is_file_def)
  have finish: "\<exists>s'. wrapped (os_call call) (bnd (os_call call) (\<lambda>r. sq (record_it r) (ret r))) s = Some (Inr r, s') \<and> tracks s'"
    if call: "fst (call (t_world s)) = r"
      and env: "runs (record_it r) (\<lambda>_. same_env (?in\<lparr> t_world := snd (call (t_world s)) \<rparr>)) (?in\<lparr> t_world := snd (call (t_world s)) \<rparr>)"
      and trk: "runs (record_it r) (\<lambda>_. tracks) (?in\<lparr> t_world := snd (call (t_world s)) \<rparr>)"
    for call :: "ufd \<Rightarrow> int \<times> ufd" and record_it :: "int \<Rightarrow> ((ufd, 'm) lib_scheme, unit) prog" and r
  proof -
    have "runs (wrapped (os_call call) (bnd (os_call call) (\<lambda>r. sq (record_it r) (ret r)))) (\<lambda>x s'. x = r \<and> tracks s') s"
      by (rule runs_wrapped [OF assms(1)])
        (use assms(2) call in \<open>auto simp: same_env_def intro!: runs_mono [OF runs_conj [OF env [folded call] trk [folded call]]]\<close>)
    then show ?thesis by (auto simp: runs_def)
  qed
  have dangling: "no_dangling t" if "tracks t" for t :: "(ufd, 'm) lib_scheme"
    using table_refsD(1) [OF tracksD(2) [OF that]] by (fastforce simp: no_dangling_def)
  have dangling_w: "no_dangling (?in\<lparr> t_world := k \<rparr>)" for k
    using dangling [OF inside(1)] by (simp add: no_dangling_def)
  show "\<exists>s'. open_hook (unix_file_os base) path flags mode s = Some (Inr fd', s') \<and> tracks s'"
    unfolding open_hook_def openat_hook_def Let_def unix_file_os_sel
    by (rule finish) (use assms(5,7,8) neg malloc runs_open_env [OF assms(6,7), where os = "unix_file_os base"]
          tracks_open [OF inside(1,2) assms(6) inside(4) assms(7), where os = "unix_file_os base"]
        in \<open>auto simp: u_open_def\<close>)
  show "\<exists>s'. dup_hook (unix_file_os base) fd s = Some (Inr fd', s') \<and> tracks s'"
    unfolding dup_hook_def unix_file_os_sel
    by (rule finish) (use assms(5) open_fd neg runs_dup_env [OF dangling_w fd assms(6)] tracks_dup [OF inside(1,2) assms(6) fd inside(3)]
        in \<open>auto simp: u_dup_def\<close>)
  show "\<exists>s'. close_hook (unix_file_os base) fd s = Some (Inr 0, s') \<and> tracks s'"
    unfolding close_hook_def unix_file_os_sel
    by (rule finish) (use open_fd runs_close_env [OF dangling_w fd] tracks_close [OF inside(1) fd inside(3)]
        in \<open>auto simp: u_close_def\<close>)
qed

lemma demo_tracks: "tracks demo_lib"
proof -
  have sel: "is_file demo_lib = is_file demo_fdt" by (simp add: fun_eq_iff is_file_def)
  have "agrees demo_lib" using demo_agrees unfolding agrees_def table_ok_def sel by simp
  moreover have nxt: "t_next demo_lib = t_next demo_fdt" by (simp add: demo_fdt_def)
  have "table_refs demo_lib" using demo_refs unfolding table_refs_def demo_lib_sel(1,2) nxt .
  moreover have "(t_table demo_lib fd = None) = (u_fds (t_world demo_lib) fd = None)" for fd
    by (simp add: demo_fdt_def fresh_ufd_def)
  moreover have "u_fds (t_world demo_lib) fd = Some i \<Longrightarrow> i < u_next (t_world demo_lib)" for fd i
    by (auto simp: demo_fdt_def fresh_ufd_def split: if_splits)
  ultimately show ?thesis unfolding tracks_def by (simp add: demo_lib_def)
qed

theorem descriptor_wrappers_track_the_kernel_witness:
  "(\<exists>s'. open_hook (unix_file_os plain_file_os) ''b'' 0 0 demo_lib = Some (Inr 3, s') \<and> tracks s') \<and>
   (\<exists>s'. dup_hook (unix_file_os plain_file_os) 4 demo_lib = Some (Inr 3, s') \<and> tracks s') \<and>
   (\<exists>s'. close_hook (unix_file_os plain_file_os) 4 demo_lib = Some (Inr 0, s') \<and> tracks s')"
proof (rule descriptor_wrappers_track_the_kernel [OF demo_lib_enter _ demo_tracks])
  show "is_file demo_lib 4 3 demo_source" using demo_file [of 4 3 demo_source] by (simp add: is_file_def)
  show "\<not> XND_SKIP_INTERPOSE demo_lib"
    by (simp add: XND_SKIP_INTERPOSE_def xnd_tlv_ok_def demo_lib_def)
qed (simp_all add: demo_lowest valid_fd_def MAXFILES_def PATH_MAX_def plain_file_os_def, simp add: demo_fdt_def fresh_ufd_def)

end
