(* ===== verification/Thread_Sched.thy ===== *)
theory Thread_Sched
  imports Thread_Info
begin

text \<open>
  The threads of a process and its checkpoint thread, as an interleaving of the atomic steps of
  \<^verbatim>\<open>thread_info.c\<close>: the scan of \<^verbatim>\<open>suspend_threads\<close>, the wait for exiting
  threads, the barrier, the signal handler, thread creation and exit, and the threads that are
  created anew after a restart. A program point is one access to state that other threads
  can reach: an access to an atomic variable, to a descriptor, or to data behind a lock. Every
  function of the source is a function from a state to its successor, or to none where the
  thread is blocked; which thread moves next is an argument of \<open>sched_act\<close>.
\<close>

section \<open>Program points\<close>

datatype owner = Ckpt | User nat

text \<open>Inside \<^verbatim>\<open>thread_barrier\<close>.\<close>

datatype bpc = B_LOCK | B_TEST_SUSP | B_WAIT_SUSP | B_WOKEN_SUSP | B_ARRIVE | B_TEST_CKPT | B_WAIT_CKPT
  | B_WOKEN_CKPT | B_UNLOCK

text \<open>
  The frame of the signal handler on top of the interrupted code, and the start routine of a
  thread that is created again after a restart.
\<close>

datatype hpc = H_ENTER | H_SAVE | H_SUSPEND | H_BARRIER bpc | H_RESUME | R_START | R_BARRIER bpc | R_CONTEXT

text \<open>The code below that frame.\<close>

datatype upc = U_RUN | U_SPIN | U_UNSAFE | U_CREATE nat | U_JOIN nat | U_EXIT | U_EXIT_HELD | U_EXIT_SET
  | U_EXITING | U_DEAD | N_START | N_ADDED | N_HELD | N_SET

text \<open>
  The checkpoint thread. In the scan: the descriptors left, how many were suspended, whether to
  scan again; for one descriptor the test that is next. In the wait for exiting threads: the
  descriptors left, and the counts of exiting and of ended threads.
\<close>

datatype ktest = T_RUNNING | T_CAS | T_KILL | T_SIGNALED | T_PROBE | T_SUSPENDED | T_SUSPINPROG | T_UNSAFE | T_EMBRYO

datatype xtest = X_EXITING | X_JOINED | X_SUSPENDED | X_SUSPINPROG

datatype kpc =
    K_WAIT_REQUEST | K_PENDING | K_SUSPEND | K_RESET | K_SCAN_LOCK | K_SCAN_LIST
  | K_SCAN "nat list" int bool | K_TH_LOCK nat "nat list" int bool | K_TEST nat "nat list" int bool ktest
  | K_SCAN_END int bool
  | K_EXIT_LOCK | K_EXIT "nat list" nat nat | K_EXIT_TEST nat "nat list" nat nat xtest
  | K_ARRIVE_LOCK bool | K_ARRIVE_TEST bool | K_ARRIVE_WAIT bool | K_ARRIVE_WOKEN bool
  | K_PRECHECKPOINT | K_CHECKPOINT | K_POSTCHECKPOINT | K_FILTER
  | K_RELEASE_LOCK | K_RELEASE
  | K_RESTORE | K_RESTORE_LIST | K_RESTORING "nat list" | K_RESTORE_END

record uthread = thread_info +
  u_lock :: "owner option"
  u_pc :: upc
  u_frame :: "hpc option"
  u_sig :: bool

record sys =
  s_state :: xnd_state
  s_expected :: int
  s_arrived :: int
  s_list :: "nat list"
  s_zombies :: "nat list"
  s_th :: "nat \<Rightarrow> uthread option"
  s_mtx :: "owner option"
  s_lst :: "owner option"
  s_ck :: kpc
  s_abort :: bool

section \<open>Helpers\<close>

definition upd :: "nat \<Rightarrow> (uthread \<Rightarrow> uthread) \<Rightarrow> sys \<Rightarrow> sys" where
  "upd a f s = s\<lparr> s_th := (s_th s)(a := map_option f (s_th s a)) \<rparr>"

definition crash :: "sys \<Rightarrow> sys" where
  "crash s = s\<lparr> s_abort := True \<rparr>"

text \<open>
  \<^verbatim>\<open>pthread_cond_broadcast(&cond_released)\<close>: a thread that waits has to take the
  mutex again.
\<close>

fun wake_b :: "bpc \<Rightarrow> bpc" where
  "wake_b B_WAIT_SUSP = B_WOKEN_SUSP"
| "wake_b B_WAIT_CKPT = B_WOKEN_CKPT"
| "wake_b b = b"

fun wake_h :: "hpc \<Rightarrow> hpc" where
  "wake_h (H_BARRIER b) = H_BARRIER (wake_b b)"
| "wake_h (R_BARRIER b) = R_BARRIER (wake_b b)"
| "wake_h h = h"

definition broadcast :: "sys \<Rightarrow> sys" where
  "broadcast s = s\<lparr> s_th := (\<lambda>a. map_option (\<lambda>u. u\<lparr> u_frame := map_option wake_h (u_frame u) \<rparr>) (s_th s a)) \<rparr>"

text \<open>\<^verbatim>\<open>pthread_cond_signal(&cond_arrived)\<close>: only the checkpoint thread waits there.\<close>

definition signal_arrived :: "sys \<Rightarrow> sys" where
  "signal_arrived s = (case s_ck s of K_ARRIVE_WAIT r \<Rightarrow> s\<lparr> s_ck := K_ARRIVE_WOKEN r \<rparr> | _ \<Rightarrow> s)"

definition dead :: "uthread \<Rightarrow> bool" where
  "dead u \<longleftrightarrow> u_pc u = U_DEAD"

section \<open>The lists\<close>

definition thread_reap :: "nat \<Rightarrow> sys \<Rightarrow> sys" where
  "thread_reap a s = s\<lparr> s_th := (s_th s)(a := None) \<rparr>"

definition zombie_list_add :: "nat \<Rightarrow> sys \<Rightarrow> sys" where
  "zombie_list_add a s =
     (case s_th s a of
        None \<Rightarrow> s
      | Some u \<Rightarrow> if ti_joined u then thread_reap a s else s\<lparr> s_zombies := a # s_zombies s \<rparr>)"

definition thread_list_remove :: "nat \<Rightarrow> sys \<Rightarrow> sys" where
  "thread_list_remove a s =
     (let s = s\<lparr> s_list := remove1 a (s_list s) \<rparr> in
      case s_th s a of
        None \<Rightarrow> s
      | Some u \<Rightarrow> if ti_joined u then thread_reap a s else zombie_list_add a s)"

definition thread_list_add :: "nat \<Rightarrow> sys \<Rightarrow> sys option" where
  "thread_list_add a s = (if s_lst s = None then Some (s\<lparr> s_list := a # s_list s \<rparr>) else None)"

definition zombie_list_remove :: "nat \<Rightarrow> sys \<Rightarrow> sys" where
  "zombie_list_remove a s =
     (case s_th s a of
        None \<Rightarrow> crash s
      | Some u \<Rightarrow> if \<not> ti_joined u then crash s
                  else thread_reap a (s\<lparr> s_zombies := remove1 a (s_zombies s) \<rparr>))"

definition zombie_list_filter :: "sys \<Rightarrow> sys" where
  "zombie_list_filter s =
     fold (\<lambda>a s. case s_th s a of
             None \<Rightarrow> s
           | Some u \<Rightarrow> if ti_joined u then zombie_list_remove a s else s) (s_zombies s) s"

section \<open>The barrier and the signal handler\<close>

text \<open>One step of \<^verbatim>\<open>thread_barrier\<close>; it answers the next program point, none at the end.\<close>

fun thread_barrier :: "nat \<Rightarrow> bpc \<Rightarrow> sys \<Rightarrow> (bpc option \<times> sys) option" where
  "thread_barrier a B_LOCK s =
     (if s_mtx s = None then Some (Some B_TEST_SUSP, s\<lparr> s_mtx := Some (User a) \<rparr>) else None)"
| "thread_barrier a B_TEST_SUSP s =
     (if s_state s = XND_SUSPINPROG then Some (Some B_WAIT_SUSP, s\<lparr> s_mtx := None \<rparr>)
      else Some (Some B_ARRIVE, s))"
| "thread_barrier a B_WAIT_SUSP s = None"
| "thread_barrier a B_WOKEN_SUSP s =
     (if s_mtx s = None then Some (Some B_TEST_SUSP, s\<lparr> s_mtx := Some (User a) \<rparr>) else None)"
| "thread_barrier a B_ARRIVE s =
     (let s = s\<lparr> s_arrived := s_arrived s + 1 \<rparr> in
      Some (Some B_TEST_CKPT, if s_arrived s = s_expected s then signal_arrived s else s))"
| "thread_barrier a B_TEST_CKPT s =
     (if s_state s = XND_CKPTINPROG then Some (Some B_WAIT_CKPT, s\<lparr> s_mtx := None \<rparr>)
      else Some (Some B_UNLOCK, s))"
| "thread_barrier a B_WAIT_CKPT s = None"
| "thread_barrier a B_WOKEN_CKPT s =
     (if s_mtx s = None then Some (Some B_TEST_CKPT, s\<lparr> s_mtx := Some (User a) \<rparr>) else None)"
| "thread_barrier a B_UNLOCK s = Some (None, s\<lparr> s_mtx := None \<rparr>)"

text \<open>
  A change of state the code asserts. The first argument is the frame the thread goes on with.
\<close>

definition assert_cas ::
  "hpc option \<Rightarrow> nat \<Rightarrow> uthread \<Rightarrow> thread_state \<Rightarrow> thread_state \<Rightarrow> sys \<Rightarrow> sys" where
  "assert_cas f a u expected desired s =
     (if ti_state u = expected then upd a (\<lambda>u. u\<lparr> ti_state := desired, u_frame := f \<rparr>) s else crash s)"

text \<open>
  Saving thread-local storage, the signal state and the context are accesses to the thread's own
  descriptor, one step together; so are the calls of \<open>xnd_tlv_fini\<close> and
  \<open>xnd_tlv_init\<close> and the change of state beside each.
\<close>

fun thread_sighandler :: "nat \<Rightarrow> uthread \<Rightarrow> hpc \<Rightarrow> sys \<Rightarrow> sys option" where
  "thread_sighandler a u H_ENTER s =
     (if ti_state u = ST_CKPT_THREAD then Some (upd a (\<lambda>u. u\<lparr> u_frame := None \<rparr>) s)
      else Some (assert_cas (Some H_SAVE) a u ST_SIGNALED ST_SUSPINPROG s))"
| "thread_sighandler a u H_SAVE s = Some (upd a (\<lambda>u. u\<lparr> u_frame := Some H_SUSPEND \<rparr>) s)"
| "thread_sighandler a u H_SUSPEND s =
     Some (assert_cas (Some (H_BARRIER B_LOCK)) a u ST_SUSPINPROG ST_SUSPENDED s)"
| "thread_sighandler a u (H_BARRIER b) s =
     map_option (\<lambda>(b', s'). upd a (\<lambda>u. u\<lparr> u_frame :=
       Some (case b' of Some b' \<Rightarrow> H_BARRIER b' | None \<Rightarrow> H_RESUME) \<rparr>) s') (thread_barrier a b s)"
| "thread_sighandler a u H_RESUME s = Some (assert_cas None a u ST_SUSPENDED ST_RUNNING s)"
| "thread_sighandler a u _ s = None"

fun thread_restart :: "nat \<Rightarrow> uthread \<Rightarrow> hpc \<Rightarrow> sys \<Rightarrow> sys option" where
  "thread_restart a u R_START s =
     Some (upd a (\<lambda>u. u\<lparr> ti_self := a, ti_state := ST_RUNNING, u_frame := Some (R_BARRIER B_LOCK) \<rparr>) s)"
| "thread_restart a u (R_BARRIER b) s =
     map_option (\<lambda>(b', s'). upd a (\<lambda>u. u\<lparr> u_frame :=
       Some (case b' of Some b' \<Rightarrow> R_BARRIER b' | None \<Rightarrow> R_CONTEXT) \<rparr>) s') (thread_barrier a b s)"
| "thread_restart a u R_CONTEXT s = Some (upd a (\<lambda>u. u\<lparr> u_frame := None \<rparr>) s)"
| "thread_restart a u _ s = None"

section \<open>User threads\<close>

text \<open>
  Starting and ending a thread. \<^verbatim>\<open>thread_list_add\<close> is one step: it only touches the list, under
  its lock.
\<close>

fun thread_start :: "nat \<Rightarrow> uthread \<Rightarrow> sys \<Rightarrow> sys option" where
  "thread_start a u s =
     (case u_pc u of
        N_START \<Rightarrow> map_option (upd a (\<lambda>u. u\<lparr> ti_self := a, u_pc := N_ADDED \<rparr>)) (thread_list_add a s)
      | N_ADDED \<Rightarrow> if u_lock u = None then Some (upd a (\<lambda>u. u\<lparr> u_lock := Some (User a), u_pc := N_HELD \<rparr>) s) else None
      | N_HELD \<Rightarrow> Some (upd a (\<lambda>u. u\<lparr> ti_state := ST_RUNNING, u_pc := N_SET \<rparr>) s)
      | N_SET \<Rightarrow> Some (upd a (\<lambda>u. u\<lparr> u_lock := None, u_pc := U_RUN \<rparr>) s)
      | _ \<Rightarrow> None)"

fun thread_exit :: "nat \<Rightarrow> uthread \<Rightarrow> sys \<Rightarrow> sys option" where
  "thread_exit a u s =
     (case u_pc u of
        U_EXIT \<Rightarrow> if u_lock u = None then Some (upd a (\<lambda>u. u\<lparr> u_lock := Some (User a), u_pc := U_EXIT_HELD \<rparr>) s) else None
      | U_EXIT_HELD \<Rightarrow> Some (upd a (\<lambda>u. u\<lparr> ti_exiting := True, u_pc := U_EXIT_SET \<rparr>) s)
      | U_EXIT_SET \<Rightarrow> Some (upd a (\<lambda>u. u\<lparr> u_lock := None, u_pc := U_EXITING \<rparr>) s)
      | U_EXITING \<Rightarrow> Some (upd a (\<lambda>u. u\<lparr> u_pc := U_DEAD \<rparr>) s)
      | _ \<Rightarrow> None)"

text \<open>
  The parts of wrappers that wait for another thread: for a new thread to leave
  \<^const>\<open>ST_EMBRYO\<close>, and for a thread that is joined to end.
\<close>

definition create_wait :: "nat \<Rightarrow> nat \<Rightarrow> sys \<Rightarrow> sys option" where
  "create_wait a c s =
     (case s_th s c of
        None \<Rightarrow> None
      | Some t \<Rightarrow> if u_lock t = None \<and> ti_state t \<noteq> ST_EMBRYO then Some (upd a (\<lambda>u. u\<lparr> u_pc := U_UNSAFE \<rparr>) s)
                  else None)"

definition join_wait :: "nat \<Rightarrow> nat \<Rightarrow> sys \<Rightarrow> sys option" where
  "join_wait a c s =
     (case s_th s c of
        None \<Rightarrow> None
      | Some t \<Rightarrow> if dead t then Some (upd c (\<lambda>t. t\<lparr> ti_joined := True \<rparr>) (upd a (\<lambda>u. u\<lparr> u_pc := U_UNSAFE \<rparr>) s))
                  else None)"

text \<open>The next step of a thread where it has no choice.\<close>

definition thread_act :: "nat \<Rightarrow> uthread \<Rightarrow> sys \<Rightarrow> sys option" where
  "thread_act a u s =
     (case u_frame u of
        Some f \<Rightarrow> (case thread_sighandler a u f s of Some s' \<Rightarrow> Some s' | None \<Rightarrow> thread_restart a u f s)
      | None \<Rightarrow>
          (case u_pc u of
             U_SPIN \<Rightarrow> if ti_state u = ST_RUNNING then Some (upd a (\<lambda>u. u\<lparr> ti_state := ST_UNSAFE, u_pc := U_UNSAFE \<rparr>) s) else None
           | U_CREATE c \<Rightarrow> create_wait a c s
           | U_JOIN c \<Rightarrow> join_wait a c s
           | _ \<Rightarrow> (case thread_start a u s of Some s' \<Rightarrow> Some s' | None \<Rightarrow> thread_exit a u s)))"

text \<open>A descriptor as \<^verbatim>\<open>thread_init\<close> leaves it.\<close>

definition new_thread :: uthread where
  "new_thread = \<lparr> ti_self = 0, ti_start_routine = 0, ti_arg = 0, ti_state = ST_EMBRYO, ti_depth = 0,
     ti_exiting = False, ti_joined = False, ti_uctx = [], ti_ss = (0, 0, 0), ti_sigblocked = 0, ti_tls = 0,
     u_lock = None, u_pc = N_START, u_frame = None, u_sig = False \<rparr>"

section \<open>The checkpoint thread\<close>

text \<open>Going on with the scan, with or without the descriptor's lock.\<close>

definition scan_on :: "nat list \<Rightarrow> int \<Rightarrow> bool \<Rightarrow> sys \<Rightarrow> sys" where
  "scan_on ts n r s = s\<lparr> s_ck := K_SCAN ts n r \<rparr>"

definition unlock_th :: "nat \<Rightarrow> sys \<Rightarrow> sys" where
  "unlock_th a s = upd a (\<lambda>u. u\<lparr> u_lock := None \<rparr>) s"

text \<open>
  One test of the chain of conditions, each a load of the atomic state of its own.
  \<^verbatim>\<open>pthread_kill\<close> answers \<^verbatim>\<open>ESRCH\<close> for a thread that has ended.
\<close>

fun suspend_test :: "nat \<Rightarrow> uthread \<Rightarrow> nat list \<Rightarrow> int \<Rightarrow> bool \<Rightarrow> ktest \<Rightarrow> sys \<Rightarrow> sys" where
  "suspend_test a u ts n r T_RUNNING s =
     s\<lparr> s_ck := K_TEST a ts n r (if ti_state u = ST_RUNNING then T_CAS else T_SIGNALED) \<rparr>"
| "suspend_test a u ts n r T_CAS s =
     (if ti_state u = ST_RUNNING
      then upd a (\<lambda>u. u\<lparr> ti_state := ST_SIGNALED \<rparr>) (s\<lparr> s_ck := K_TEST a ts n r T_KILL \<rparr>)
      else s\<lparr> s_ck := K_TEST a ts n r T_SIGNALED \<rparr>)"
| "suspend_test a u ts n r T_KILL s =
     (if dead u then scan_on ts n r (thread_list_remove a (unlock_th a s))
      else scan_on ts n True (unlock_th a (upd a (\<lambda>u. u\<lparr> u_sig := True \<rparr>) s)))"
| "suspend_test a u ts n r T_SIGNALED s =
     s\<lparr> s_ck := K_TEST a ts n r (if ti_state u = ST_SIGNALED then T_PROBE else T_SUSPENDED) \<rparr>"
| "suspend_test a u ts n r T_PROBE s =
     (if dead u then scan_on ts n r (thread_list_remove a (unlock_th a s))
      else scan_on ts n True (unlock_th a s))"
| "suspend_test a u ts n r T_SUSPENDED s =
     (if ti_state u = ST_SUSPENDED then scan_on ts (n + 1) r (unlock_th a s)
      else s\<lparr> s_ck := K_TEST a ts n r T_SUSPINPROG \<rparr>)"
| "suspend_test a u ts n r T_SUSPINPROG s =
     (if ti_state u = ST_SUSPINPROG then scan_on ts (n + 1) r (unlock_th a s)
      else s\<lparr> s_ck := K_TEST a ts n r T_UNSAFE \<rparr>)"
| "suspend_test a u ts n r T_UNSAFE s =
     (if ti_state u = ST_UNSAFE then scan_on ts n True (unlock_th a s)
      else s\<lparr> s_ck := K_TEST a ts n r T_EMBRYO \<rparr>)"
| "suspend_test a u ts n r T_EMBRYO s =
     scan_on ts n (r \<or> ti_state u = ST_EMBRYO) (unlock_th a s)"

fun suspend_threads :: "kpc \<Rightarrow> sys \<Rightarrow> sys option" where
  "suspend_threads K_SUSPEND s = Some (s\<lparr> s_state := XND_SUSPINPROG, s_ck := K_RESET \<rparr>)"
| "suspend_threads K_RESET s = Some (s\<lparr> s_arrived := 0, s_ck := K_SCAN_LOCK \<rparr>)"
| "suspend_threads K_SCAN_LOCK s =
     (if s_mtx s = None then Some (s\<lparr> s_mtx := Some Ckpt, s_ck := K_SCAN_LIST \<rparr>) else None)"
| "suspend_threads K_SCAN_LIST s =
     (if s_lst s = None then Some (s\<lparr> s_lst := Some Ckpt, s_ck := K_SCAN (s_list s) 0 False \<rparr>) else None)"
| "suspend_threads (K_SCAN [] n r) s = Some (s\<lparr> s_mtx := None, s_ck := K_SCAN_END n r \<rparr>)"
| "suspend_threads (K_SCAN (a # ts) n r) s =
     (case s_th s a of
        None \<Rightarrow> None
      | Some u \<Rightarrow>
          if ti_state u = ST_CKPT_THREAD then Some (crash s)
          else if ti_exiting u then Some (scan_on ts n r s)
          else if ti_joined u then Some (scan_on ts n r (thread_list_remove a s))
          else Some (s\<lparr> s_ck := K_TH_LOCK a ts n r \<rparr>))"
| "suspend_threads (K_TH_LOCK a ts n r) s =
     (case s_th s a of
        None \<Rightarrow> None
      | Some u \<Rightarrow>
          if u_lock u = None
          then Some (upd a (\<lambda>u. u\<lparr> u_lock := Some Ckpt \<rparr>) (s\<lparr> s_ck := K_TEST a ts n r T_RUNNING \<rparr>)) else None)"
| "suspend_threads (K_TEST a ts n r t) s =
     (case s_th s a of None \<Rightarrow> None | Some u \<Rightarrow> Some (suspend_test a u ts n r t s))"
| "suspend_threads (K_SCAN_END n r) s =
     Some (let s = s\<lparr> s_lst := None \<rparr> in
           if r then s\<lparr> s_ck := K_SCAN_LOCK \<rparr> else s\<lparr> s_expected := n, s_ck := K_EXIT_LOCK \<rparr>)"
| "suspend_threads _ s = None"

definition exit_on :: "nat list \<Rightarrow> nat \<Rightarrow> nat \<Rightarrow> sys \<Rightarrow> sys" where
  "exit_on ts e k s = s\<lparr> s_ck := K_EXIT ts e k \<rparr>"

fun exit_test :: "nat \<Rightarrow> uthread \<Rightarrow> nat list \<Rightarrow> nat \<Rightarrow> nat \<Rightarrow> xtest \<Rightarrow> sys \<Rightarrow> sys" where
  "exit_test a u ts e k X_EXITING s =
     s\<lparr> s_ck := K_EXIT_TEST a ts e k (if ti_exiting u then X_JOINED else X_SUSPENDED) \<rparr>"
| "exit_test a u ts e k X_JOINED s =
     (if ti_joined u then exit_on ts e k (thread_list_remove a s)
      else if dead u then exit_on ts (e + 1) (k + 1) (thread_list_remove a s)
      else exit_on ts (e + 1) k s)"
| "exit_test a u ts e k X_SUSPENDED s =
     (if ti_state u = ST_SUSPENDED then exit_on ts e k s
      else s\<lparr> s_ck := K_EXIT_TEST a ts e k X_SUSPINPROG \<rparr>)"
| "exit_test a u ts e k X_SUSPINPROG s =
     (if ti_state u = ST_SUSPINPROG then exit_on ts e k s else crash s)"

fun wait_for_exiting_threads :: "kpc \<Rightarrow> sys \<Rightarrow> sys option" where
  "wait_for_exiting_threads K_EXIT_LOCK s =
     (if s_lst s = None then Some (s\<lparr> s_lst := Some Ckpt, s_ck := K_EXIT (s_list s) 0 0 \<rparr>) else None)"
| "wait_for_exiting_threads (K_EXIT [] e k) s =
     Some (s\<lparr> s_lst := None, s_ck := (if e \<noteq> k then K_EXIT_LOCK else K_ARRIVE_LOCK False) \<rparr>)"
| "wait_for_exiting_threads (K_EXIT (a # ts) e k) s =
     (case s_th s a of
        None \<Rightarrow> None
      | Some u \<Rightarrow> Some (if ti_joined u then exit_on ts e k (thread_list_remove a s)
                        else s\<lparr> s_ck := K_EXIT_TEST a ts e k X_EXITING \<rparr>))"
| "wait_for_exiting_threads (K_EXIT_TEST a ts e k t) s =
     (case s_th s a of None \<Rightarrow> None | Some u \<Rightarrow> Some (exit_test a u ts e k t s))"
| "wait_for_exiting_threads _ s = None"

text \<open>
  The wait for arrival, after a suspension (argument \<^const>\<open>False\<close>) or after a restart. The state is
  published and the waiting threads are woken while the mutex is held.
\<close>

fun barrier_arrival_wait :: "kpc \<Rightarrow> sys \<Rightarrow> sys option" where
  "barrier_arrival_wait (K_ARRIVE_LOCK r) s =
     (if s_mtx s = None
      then Some (broadcast (s\<lparr> s_state := XND_CKPTINPROG, s_mtx := Some Ckpt, s_ck := K_ARRIVE_TEST r \<rparr>)) else None)"
| "barrier_arrival_wait (K_ARRIVE_TEST r) s =
     Some (s\<lparr> s_mtx := None, s_ck := (if s_arrived s < s_expected s then K_ARRIVE_WAIT r
                                      else if r then K_FILTER else K_PRECHECKPOINT) \<rparr>)"
| "barrier_arrival_wait (K_ARRIVE_WOKEN r) s =
     (if s_mtx s = None then Some (s\<lparr> s_mtx := Some Ckpt, s_ck := K_ARRIVE_TEST r \<rparr>) else None)"
| "barrier_arrival_wait _ s = None"

fun barrier_release :: "kpc \<Rightarrow> sys \<Rightarrow> sys option" where
  "barrier_release K_RELEASE_LOCK s =
     (if s_mtx s = None then Some (s\<lparr> s_mtx := Some Ckpt, s_ck := K_RELEASE \<rparr>) else None)"
| "barrier_release K_RELEASE s =
     Some (broadcast (s\<lparr> s_state := XND_RUNNING, s_mtx := None, s_ck := K_WAIT_REQUEST \<rparr>))"
| "barrier_release _ s = None"

text \<open>
  After a restart every thread of the list is created again, with both locks held; the new thread
  begins in \<^verbatim>\<open>thread_restart\<close>. A thread that cannot be created ends the process.
\<close>

fun restore_threads :: "kpc \<Rightarrow> sys \<Rightarrow> sys option" where
  "restore_threads K_RESTORE s =
     (if s_lst s = None then Some (s\<lparr> s_lst := Some Ckpt, s_ck := K_RESTORE_LIST \<rparr>) else None)"
| "restore_threads K_RESTORE_LIST s =
     (if s_mtx s = None
      then Some (s\<lparr> s_mtx := Some Ckpt, s_arrived := 0, s_expected := 0, s_ck := K_RESTORING (s_list s) \<rparr>) else None)"
| "restore_threads (K_RESTORING (a # ts)) s =
     Some (upd a (\<lambda>u. u\<lparr> u_frame := Some R_START \<rparr>)
             (s\<lparr> s_expected := s_expected s + 1, s_ck := K_RESTORING ts \<rparr>))"
| "restore_threads (K_RESTORING []) s = Some (s\<lparr> s_lst := None, s_ck := K_RESTORE_END \<rparr>)"
| "restore_threads K_RESTORE_END s = Some (s\<lparr> s_mtx := None, s_ck := K_ARRIVE_LOCK True \<rparr>)"
| "restore_threads _ s = None"

text \<open>
  The loop of the checkpoint thread. What it does between the barrier of the threads and their release
  is one step each here; those functions are modelled on their own.
\<close>

fun ckpt_thread_work :: "kpc \<Rightarrow> sys \<Rightarrow> sys option" where
  "ckpt_thread_work K_WAIT_REQUEST s = Some (s\<lparr> s_state := XND_CKPT_PENDING, s_ck := K_PENDING \<rparr>)"
| "ckpt_thread_work K_PENDING s = Some (s\<lparr> s_ck := K_SUSPEND \<rparr>)"
| "ckpt_thread_work K_PRECHECKPOINT s = Some (s\<lparr> s_ck := K_CHECKPOINT \<rparr>)"
| "ckpt_thread_work K_CHECKPOINT s = Some (s\<lparr> s_ck := K_POSTCHECKPOINT \<rparr>)"
| "ckpt_thread_work K_POSTCHECKPOINT s = Some (s\<lparr> s_ck := K_RELEASE_LOCK \<rparr>)"
| "ckpt_thread_work K_FILTER s = Some (zombie_list_filter (s\<lparr> s_ck := K_RELEASE_LOCK \<rparr>))"
| "ckpt_thread_work k s =
     (case suspend_threads k s of Some s' \<Rightarrow> Some s' | None \<Rightarrow>
     (case wait_for_exiting_threads k s of Some s' \<Rightarrow> Some s' | None \<Rightarrow>
     (case barrier_arrival_wait k s of Some s' \<Rightarrow> Some s' | None \<Rightarrow>
     (case barrier_release k s of Some s' \<Rightarrow> Some s' | None \<Rightarrow> restore_threads k s))))"

section \<open>Interleaving\<close>

text \<open>
  The checkpoint thread or a thread takes its next step; a thread that runs user code enters or leaves a
  section of a wrapper, creates a thread at a fresh address, joins a thread that is exiting, exits, or is
  cancelled; a pending signal is delivered; a wait on a condition variable ends without a signal.
\<close>

datatype action = A_Ckpt | A_Step nat | A_Deliver nat | A_Enter nat | A_Leave nat | A_Create nat nat | A_Join nat nat
  | A_Exit nat | A_Cancel nat | A_Spurious nat | A_Spurious_Ckpt

text \<open>The choices a thread has where its descriptor has the program point and no handler runs.\<close>

definition at_pc :: "nat \<Rightarrow> upc \<Rightarrow> sys \<Rightarrow> bool" where
  "at_pc a p s \<longleftrightarrow> (case s_th s a of None \<Rightarrow> False | Some u \<Rightarrow> u_pc u = p \<and> u_frame u = None)"

definition set_pc :: "nat \<Rightarrow> upc \<Rightarrow> sys \<Rightarrow> sys" where
  "set_pc a p s = upd a (\<lambda>u. u\<lparr> u_pc := p \<rparr>) s"

fun sched_act :: "action \<Rightarrow> sys \<Rightarrow> sys option" where
  "sched_act A_Ckpt s = ckpt_thread_work (s_ck s) s"
| "sched_act (A_Step a) s = (case s_th s a of None \<Rightarrow> None | Some u \<Rightarrow> thread_act a u s)"
| "sched_act (A_Deliver a) s =
     (case s_th s a of
        None \<Rightarrow> None
      | Some u \<Rightarrow> if u_sig u \<and> u_frame u = None \<and> \<not> dead u
                  then Some (upd a (\<lambda>u. u\<lparr> u_sig := False, u_frame := Some H_ENTER \<rparr>) s) else None)"
| "sched_act (A_Enter a) s = (if at_pc a U_RUN s then Some (set_pc a U_SPIN s) else None)"
| "sched_act (A_Leave a) s =
     (if at_pc a U_UNSAFE s
      then Some (upd a (\<lambda>u. u\<lparr> ti_state := (if ti_state u = ST_UNSAFE then ST_RUNNING else ti_state u), u_pc := U_RUN \<rparr>) s)
      else None)"
| "sched_act (A_Create a c) s =
     (if at_pc a U_UNSAFE s \<and> s_th s c = None \<and> c \<notin> set (s_list s)
      then Some (set_pc a (U_CREATE c) (s\<lparr> s_th := (s_th s)(c := Some new_thread) \<rparr>)) else None)"
| "sched_act (A_Join a c) s =
     (if at_pc a U_UNSAFE s \<and> a \<noteq> c \<and> (case s_th s c of None \<Rightarrow> False | Some t \<Rightarrow> ti_exiting t)
      then Some (set_pc a (U_JOIN c) s) else None)"
| "sched_act (A_Exit a) s = (if at_pc a U_RUN s then Some (set_pc a U_EXIT s) else None)"
| "sched_act (A_Cancel a) s = (if at_pc a U_RUN s then Some (set_pc a U_DEAD s) else None)"
| "sched_act (A_Spurious a) s =
     (case s_th s a of
        None \<Rightarrow> None
      | Some u \<Rightarrow> if u_frame u \<noteq> map_option wake_h (u_frame u)
                  then Some (upd a (\<lambda>u. u\<lparr> u_frame := map_option wake_h (u_frame u) \<rparr>) s) else None)"
| "sched_act A_Spurious_Ckpt s =
     (case s_ck s of K_ARRIVE_WAIT r \<Rightarrow> Some (s\<lparr> s_ck := K_ARRIVE_WOKEN r \<rparr>) | _ \<Rightarrow> None)"

inductive sched_step :: "sys \<Rightarrow> sys \<Rightarrow> bool" where
  sched_step: "\<not> s_abort s \<Longrightarrow> sched_act e s = Some s' \<Longrightarrow> sched_step s s'"

inductive_cases sched_stepE: "sched_step s s'"

text \<open>Executing a schedule.\<close>

fun sched_run :: "action list \<Rightarrow> sys \<Rightarrow> sys option" where
  "sched_run [] s = Some s"
| "sched_run (e # es) s =
     (if s_abort s then None else case sched_act e s of None \<Rightarrow> None | Some s' \<Rightarrow> sched_run es s')"

lemma sched_run_steps: "sched_run es s = Some s' \<Longrightarrow> sched_step\<^sup>*\<^sup>* s s'"
proof (induction es arbitrary: s)
  case (Cons e es)
  then obtain t where "\<not> s_abort s" "sched_act e s = Some t" "sched_run es t = Some s'"
    by (auto split: if_splits option.splits)
  then show ?case
    using Cons.IH by (blast intro: converse_rtranclp_into_rtranclp sched_step)
qed simp

end
