(* ===== verification/Thread_Safety.thy ===== *)
theory Thread_Safety
  imports Thread_Sched
begin

text \<open>
  What the suspension of threads achieves. An invariant of one round, from a state in which every
  thread has left the previous barrier: when the checkpoint thread writes the image, every thread that is
  alive is inside the signal handler. It rests on the wait for exiting threads, which looks at every
  thread under the lock of the list, and not on the count of the scan.
\<close>

section \<open>The invariant of a descriptor\<close>

text \<open>
  The frames of a suspended thread: the handler has acknowledged the signal and the barrier has not
  been released.
\<close>

fun held :: "hpc \<Rightarrow> bool" where
  "held H_SAVE = True"
| "held H_SUSPEND = True"
| "held (H_BARRIER b) = (b \<noteq> B_UNLOCK)"
| "held _ = False"

fun passed :: "hpc \<Rightarrow> bool" where
  "passed (H_BARRIER b) = (b \<in> {B_ARRIVE, B_TEST_CKPT, B_WAIT_CKPT, B_WOKEN_CKPT})"
| "passed _ = False"

fun released :: "hpc \<Rightarrow> bool" where
  "released (H_BARRIER b) = (b = B_UNLOCK)"
| "released H_RESUME = True"
| "released _ = False"

fun frame_state :: "hpc option \<Rightarrow> thread_state \<Rightarrow> bool" where
  "frame_state None st = (st \<noteq> ST_SUSPINPROG \<and> st \<noteq> ST_SUSPENDED)"
| "frame_state (Some H_ENTER) st = (st \<noteq> ST_SUSPINPROG \<and> st \<noteq> ST_SUSPENDED)"
| "frame_state (Some H_SAVE) st = (st = ST_SUSPINPROG)"
| "frame_state (Some H_SUSPEND) st = (st = ST_SUSPINPROG)"
| "frame_state (Some (H_BARRIER b)) st = (st = ST_SUSPENDED)"
| "frame_state (Some H_RESUME) st = (st = ST_SUSPENDED)"
| "frame_state (Some _) st = False"

definition suspended :: "uthread \<Rightarrow> bool" where
  "suspended u \<longleftrightarrow> (case u_frame u of None \<Rightarrow> False | Some f \<Rightarrow> held f)"

definition thread_ok :: "xnd_state \<Rightarrow> uthread \<Rightarrow> bool" where
  "thread_ok st u \<longleftrightarrow>
     frame_state (u_frame u) (ti_state u) \<and>
     (\<forall>f. u_frame u = Some f \<longrightarrow> (passed f \<longrightarrow> st \<noteq> XND_SUSPINPROG) \<and>
        (released f \<longrightarrow> st \<noteq> XND_SUSPINPROG \<and> st \<noteq> XND_CKPTINPROG)) \<and>
     (ti_joined u \<longrightarrow> dead u) \<and>
     (u_pc u \<in> {U_UNSAFE} \<union> range U_CREATE \<union> range U_JOIN \<longrightarrow> ti_state u = ST_UNSAFE)"

definition threads_ok :: "sys \<Rightarrow> bool" where
  "threads_ok s \<longleftrightarrow> (\<forall>a u. s_th s a = Some u \<longrightarrow> thread_ok (s_state s) u)"

text \<open>
  Every thread that is alive is in \<open>X\<close>, or suspended where \<open>A\<close> allows it, or it is a new
  thread that is not in the list yet while the thread that creates it, which is in \<open>X\<close>, waits in a
  wrapper.
\<close>

definition embryo :: "nat set \<Rightarrow> nat \<Rightarrow> uthread \<Rightarrow> sys \<Rightarrow> bool" where
  "embryo X a u s \<longleftrightarrow> u_pc u = N_START \<and> ti_state u = ST_EMBRYO \<and>
     (\<exists>c \<in> X. \<exists>v. s_th s c = Some v \<and> u_pc v = U_CREATE a \<and> ti_state v = ST_UNSAFE)"

definition cover :: "nat set \<Rightarrow> bool \<Rightarrow> sys \<Rightarrow> bool" where
  "cover X A s \<longleftrightarrow> (\<forall>a u. s_th s a = Some u \<longrightarrow> \<not> dead u \<longrightarrow> a \<in> X \<or> A \<and> suspended u \<or> embryo X a u s)"

definition quiet :: "sys \<Rightarrow> bool" where
  "quiet s \<longleftrightarrow> (\<forall>a u. s_th s a = Some u \<longrightarrow> u_frame u = None \<and> \<not> u_sig u)"

section \<open>The invariant of a round\<close>

fun ck_inv :: "kpc \<Rightarrow> sys \<Rightarrow> bool" where
  "ck_inv K_WAIT_REQUEST s = True"
| "ck_inv K_PENDING s = quiet s"
| "ck_inv K_SUSPEND s = quiet s"
| "ck_inv (K_EXIT ts e k) s =
     (s_state s = XND_SUSPINPROG \<and> s_lst s = Some Ckpt \<and> k \<le> e \<and> (e = k \<longrightarrow> cover (set ts) True s))"
| "ck_inv (K_EXIT_TEST a ts e k t) s =
     (s_state s = XND_SUSPINPROG \<and> s_lst s = Some Ckpt \<and> k \<le> e \<and> (e = k \<longrightarrow> cover (insert a (set ts)) True s))"
| "ck_inv (K_ARRIVE_LOCK r) s = (\<not> r \<and> s_state s = XND_SUSPINPROG \<and> cover {} True s)"
| "ck_inv (K_ARRIVE_TEST r) s = (\<not> r \<and> s_state s = XND_CKPTINPROG \<and> cover {} True s)"
| "ck_inv (K_ARRIVE_WAIT r) s = (\<not> r \<and> s_state s = XND_CKPTINPROG \<and> cover {} True s)"
| "ck_inv (K_ARRIVE_WOKEN r) s = (\<not> r \<and> s_state s = XND_CKPTINPROG \<and> cover {} True s)"
| "ck_inv K_PRECHECKPOINT s = (s_state s = XND_CKPTINPROG \<and> cover {} True s)"
| "ck_inv K_CHECKPOINT s = (s_state s = XND_CKPTINPROG \<and> cover {} True s)"
| "ck_inv K_POSTCHECKPOINT s = (s_state s = XND_CKPTINPROG \<and> cover {} True s)"
| "ck_inv K_RELEASE_LOCK s = (s_state s = XND_CKPTINPROG \<and> cover {} True s)"
| "ck_inv K_RELEASE s = (s_state s = XND_CKPTINPROG \<and> cover {} True s)"
| "ck_inv K_FILTER s = False"
| "ck_inv K_RESTORE s = False"
| "ck_inv K_RESTORE_LIST s = False"
| "ck_inv (K_RESTORING ts) s = False"
| "ck_inv K_RESTORE_END s = False"
| "ck_inv _ s = (s_state s = XND_SUSPINPROG)"

definition round_inv :: "sys \<Rightarrow> bool" where
  "round_inv s \<longleftrightarrow> threads_ok s \<and> cover (set (s_list s)) False s \<and> ck_inv (s_ck s) s"

section \<open>Steps that change one descriptor\<close>

lemma upd_simps [simp]:
  "s_state (upd a f s) = s_state s" "s_list (upd a f s) = s_list s" "s_ck (upd a f s) = s_ck s"
  "s_lst (upd a f s) = s_lst s" "s_abort (upd a f s) = s_abort s" "s_mtx (upd a f s) = s_mtx s"
  "s_expected (upd a f s) = s_expected s" "s_arrived (upd a f s) = s_arrived s"
  "s_zombies (upd a f s) = s_zombies s"
  "s_th (upd a f s) = (s_th s)(a := map_option f (s_th s a))"
  by (simp_all add: upd_def)

lemma threads_ok_upd:
  assumes "threads_ok s" and "s_th s a = Some u" and "thread_ok (s_state s) u \<Longrightarrow> thread_ok (s_state s) (f u)"
  shows "threads_ok (upd a f s)"
  using assms by (auto simp: threads_ok_def)

text \<open>
  A change of a descriptor keeps a cover if the thread stays where the cover has it, and if a thread
  that waits for a new thread goes on waiting.
\<close>

lemma cover_upd:
  assumes "cover X A s" and "s_th s b = Some v"
    and "\<not> dead (f v) \<Longrightarrow> \<not> dead v \<or> b \<in> X"
    and "A \<Longrightarrow> suspended v \<Longrightarrow> b \<notin> X \<Longrightarrow> suspended (f v) \<or> dead (f v)"
    and "u_pc v = N_START \<Longrightarrow> ti_state v = ST_EMBRYO \<Longrightarrow> b \<notin> X \<Longrightarrow> u_pc (f v) = N_START \<and> ti_state (f v) = ST_EMBRYO"
    and "\<And>c. u_pc v = U_CREATE c \<Longrightarrow> ti_state v = ST_UNSAFE \<Longrightarrow>
           (u_pc (f v) = U_CREATE c \<and> ti_state (f v) = ST_UNSAFE) \<or> (\<exists>t. s_th s c = Some t \<and> ti_state t \<noteq> ST_EMBRYO)"
  shows "cover X A (upd b f s)"
  unfolding cover_def
proof (intro allI impI)
  fix a u
  assume a: "s_th (upd b f s) a = Some u" "\<not> dead u"
  have keep: "embryo X a u' (upd b f s)" if "embryo X a w s" "s_th s a = Some w" "u_pc u' = N_START" "ti_state u' = ST_EMBRYO" for w u'
  proof -
    from that(1) obtain c x where c: "c \<in> X" "s_th s c = Some x" "u_pc x = U_CREATE a" "ti_state x = ST_UNSAFE"
      by (auto simp: embryo_def)
    then have "\<exists>x'. s_th (upd b f s) c = Some x' \<and> u_pc x' = U_CREATE a \<and> ti_state x' = ST_UNSAFE"
      using that(1,2) assms(2) assms(6) [of a] by (cases "c = b") (auto simp: embryo_def)
    then show ?thesis unfolding embryo_def using that(3,4) c(1) by blast
  qed
  show "a \<in> X \<or> A \<and> suspended u \<or> embryo X a u (upd b f s)"
  proof (cases "a = b")
    case True
    then have u: "u = f v" using a assms(2) by simp
    consider "b \<in> X" | "A" "suspended v" "b \<notin> X" | "embryo X b v s" "b \<notin> X"
      using assms(1,2,3) a(2) u unfolding cover_def by blast
    then show ?thesis
    proof cases
      case 3
      then show ?thesis using True u keep [of v u] assms(2) assms(5) by (simp add: embryo_def)
    qed (use True u a assms(4) in auto)
  next
    case False
    then have "s_th s a = Some u" using a by simp
    then show ?thesis using assms(1) a(2) keep [of u u] unfolding cover_def embryo_def by blast
  qed
qed

lemma cover_cong: "s_th s = s_th t \<Longrightarrow> cover X A s = cover X A t"
  by (simp add: cover_def embryo_def)

lemma cover_mono: "cover X A s \<Longrightarrow> X \<subseteq> Y \<Longrightarrow> cover Y A s"
  unfolding cover_def embryo_def by blast

lemma threads_ok_cong: "s_th s = s_th t \<Longrightarrow> s_state s = s_state t \<Longrightarrow> threads_ok s = threads_ok t"
  by (simp add: threads_ok_def)

section \<open>Steps of threads\<close>

text \<open>
  What the steps of a thread leave alone: the state of the library and the lock of the list. The
  checkpoint thread is at most woken.
\<close>

definition aside :: "sys \<Rightarrow> sys \<Rightarrow> bool" where
  "aside s s' \<longleftrightarrow> s_state s' = s_state s \<and> s_lst s' = s_lst s \<and>
     (s_ck s' = s_ck s \<or> (\<exists>r. s_ck s = K_ARRIVE_WAIT r \<and> s_ck s' = K_ARRIVE_WOKEN r))"

lemma signal_arrived_facts [simp]:
  "s_th (signal_arrived s) = s_th s" "s_state (signal_arrived s) = s_state s" "s_list (signal_arrived s) = s_list s"
  "s_lst (signal_arrived s) = s_lst s" "s_abort (signal_arrived s) = s_abort s"
  by (simp_all add: signal_arrived_def split: kpc.split)

lemma signal_arrived_ck:
  "s_ck (signal_arrived s) = s_ck s \<or> (\<exists>r. s_ck s = K_ARRIVE_WAIT r \<and> s_ck (signal_arrived s) = K_ARRIVE_WOKEN r)"
  by (simp add: signal_arrived_def split: kpc.split)

lemma thread_barrier_facts:
  assumes "thread_barrier a b s = Some (b', s')"
  shows "s_th s' = s_th s" "s_list s' = s_list s" "s_abort s' = s_abort s" "aside s s'"
  using assms signal_arrived_ck [of "s\<lparr> s_arrived := s_arrived s + 1 \<rparr>"]
  by (cases b; auto simp: aside_def Let_def split: if_splits)+

text \<open>The state that must hold before the barrier lets a thread go on.\<close>

lemma thread_barrier_next:
  assumes "thread_barrier a b s = Some (b', s')"
    and "b \<in> {B_ARRIVE, B_TEST_CKPT, B_WAIT_CKPT, B_WOKEN_CKPT} \<longrightarrow> s_state s \<noteq> XND_SUSPINPROG"
    and "b = B_UNLOCK \<longrightarrow> s_state s \<noteq> XND_SUSPINPROG \<and> s_state s \<noteq> XND_CKPTINPROG"
  shows "case b' of
      Some c \<Rightarrow> (c \<in> {B_ARRIVE, B_TEST_CKPT, B_WAIT_CKPT, B_WOKEN_CKPT} \<longrightarrow> s_state s \<noteq> XND_SUSPINPROG) \<and>
        (c = B_UNLOCK \<longrightarrow> s_state s \<noteq> XND_SUSPINPROG \<and> s_state s \<noteq> XND_CKPTINPROG)
    | None \<Rightarrow> s_state s \<noteq> XND_SUSPINPROG \<and> s_state s \<noteq> XND_CKPTINPROG"
  using assms by (cases b) (auto simp: Let_def split: if_splits)

text \<open>
  A step of the thread with descriptor \<open>u\<close> at \<open>a\<close> keeps the invariants of the
  descriptors and any cover that the state of the library allows.
\<close>

definition keeps_round :: "sys \<Rightarrow> sys \<Rightarrow> bool" where
  "keeps_round s s' \<longleftrightarrow> aside s s' \<and> threads_ok s' \<and>
     (\<forall>X A. cover X A s \<longrightarrow> (A \<longrightarrow> s_state s \<in> {XND_SUSPINPROG, XND_CKPTINPROG}) \<longrightarrow>
        cover (if s_list s' = s_list s then X else X \<union> set (s_list s')) A s') \<and>
     (s_list s' \<noteq> s_list s \<longrightarrow> s_lst s = None \<and>
        (\<exists>a u. s_list s' = a # s_list s \<and> s_th s a = Some u \<and> u_frame u = None \<and> u_pc u = N_START))"

lemma keeps_round_upd:
  assumes "threads_ok s" and "s_th s b = Some v" and "s_th s1 = s_th s" and "s_list s1 = s_list s" and "aside s s1"
    and "thread_ok (s_state s) v \<Longrightarrow> thread_ok (s_state s) (f v)"
    and "\<not> dead (f v) \<Longrightarrow> \<not> dead v"
    and "s_state s \<in> {XND_SUSPINPROG, XND_CKPTINPROG} \<Longrightarrow> suspended v \<Longrightarrow> suspended (f v) \<or> dead (f v)"
    and "u_pc v = N_START \<Longrightarrow> ti_state v = ST_EMBRYO \<Longrightarrow> u_pc (f v) = N_START \<and> ti_state (f v) = ST_EMBRYO"
    and "\<And>c. u_pc v = U_CREATE c \<Longrightarrow> ti_state v = ST_UNSAFE \<Longrightarrow>
           (u_pc (f v) = U_CREATE c \<and> ti_state (f v) = ST_UNSAFE) \<or> (\<exists>t. s_th s c = Some t \<and> ti_state t \<noteq> ST_EMBRYO)"
  shows "keeps_round s (upd b f s1)"
proof -
  have "threads_ok (upd b f s1)"
    by (rule threads_ok_upd [where u = v]) (use assms threads_ok_cong [of s s1] in \<open>auto simp: aside_def\<close>)
  moreover have "cover X A (upd b f s1)" if "cover X A s" "A \<longrightarrow> s_state s \<in> {XND_SUSPINPROG, XND_CKPTINPROG}" for X A
    by (rule cover_upd [where v = v]) (use that assms cover_cong [of s s1 X A] in auto)
  ultimately show ?thesis
    using assms(4,5) by (simp add: keeps_round_def aside_def)
qed

lemma aside_refl [simp]: "aside s s"
  by (simp add: aside_def)

lemma thread_ok_frameD:
  "thread_ok st u \<Longrightarrow> u_frame u = Some f \<Longrightarrow> frame_state (Some f) (ti_state u)"
  by (simp add: thread_ok_def)

lemma keeps_assert_cas:
  assumes "threads_ok s" and "s_th s a = Some u" and "\<not> s_abort (assert_cas f a u x y s)"
    and "x \<noteq> ST_UNSAFE" and "x \<noteq> ST_EMBRYO" and "frame_state f y"
    and "\<And>h. f = Some h \<Longrightarrow> \<not> passed h \<and> \<not> released h"
    and "s_state s \<in> {XND_SUSPINPROG, XND_CKPTINPROG} \<Longrightarrow> suspended u \<Longrightarrow> \<exists>h. f = Some h \<and> held h"
  shows "keeps_round s (assert_cas f a u x y s)"
proof (cases "ti_state u = x")
  case True
  have ok: "thread_ok (s_state s) u" using assms(1,2) by (simp add: threads_ok_def)
  have "keeps_round s (upd a (\<lambda>u. u\<lparr> ti_state := y, u_frame := f \<rparr>) s)"
  proof (rule keeps_round_upd [OF assms(1,2) refl refl aside_refl])
    show "thread_ok (s_state s) (u\<lparr> ti_state := y, u_frame := f \<rparr>)"
      using ok True assms(4,6,7) by (simp add: thread_ok_def dead_def)
    show "suspended (u\<lparr> ti_state := y, u_frame := f \<rparr>) \<or> dead (u\<lparr> ti_state := y, u_frame := f \<rparr>)"
      if "s_state s \<in> {XND_SUSPINPROG, XND_CKPTINPROG}" "suspended u"
      using assms(8) [OF that] by (auto simp: suspended_def)
  qed (use True assms(4,5) in \<open>simp_all add: dead_def\<close>)
  then show ?thesis using True by (simp add: assert_cas_def)
next
  case False
  then show ?thesis using assms(3) by (simp add: assert_cas_def crash_def)
qed

lemma keeps_frame:
  assumes "threads_ok s" and "s_th s a = Some u" and "s_th s1 = s_th s" and "s_list s1 = s_list s" and "aside s s1"
    and "thread_ok (s_state s) u \<Longrightarrow> frame_state g (ti_state u)"
    and "\<And>h. thread_ok (s_state s) u \<Longrightarrow> g = Some h \<Longrightarrow> (passed h \<longrightarrow> s_state s \<noteq> XND_SUSPINPROG) \<and>
        (released h \<longrightarrow> s_state s \<noteq> XND_SUSPINPROG \<and> s_state s \<noteq> XND_CKPTINPROG)"
    and "s_state s \<in> {XND_SUSPINPROG, XND_CKPTINPROG} \<Longrightarrow> suspended u \<Longrightarrow> \<exists>h. g = Some h \<and> held h"
  shows "keeps_round s (upd a (\<lambda>u. u\<lparr> u_frame := g \<rparr>) s1)"
proof (rule keeps_round_upd [OF assms(1-5)])
  have ok: "thread_ok (s_state s) u" using assms(1,2) by (simp add: threads_ok_def)
  show "thread_ok (s_state s) (u\<lparr> u_frame := g \<rparr>)"
    using ok assms(6) [OF ok] assms(7) [OF ok] unfolding thread_ok_def dead_def by simp
  show "suspended (u\<lparr> u_frame := g \<rparr>) \<or> dead (u\<lparr> u_frame := g \<rparr>)"
    if "s_state s \<in> {XND_SUSPINPROG, XND_CKPTINPROG}" "suspended u"
    using assms(8) [OF that] by (auto simp: suspended_def)
qed (simp_all add: dead_def)

lemma keeps_sighandler:
  assumes "threads_ok s" and "s_th s a = Some u" and "u_frame u = Some f"
    and "thread_sighandler a u f s = Some s'" and "\<not> s_abort s'"
  shows "keeps_round s s'"
proof -
  have ok: "thread_ok (s_state s) u" using assms(1,2) by (simp add: threads_ok_def)
  have susp: "suspended u = held f" using assms(3) by (simp add: suspended_def)
  show ?thesis
  proof (cases f)
    case H_ENTER
    then show ?thesis
      using assms ok susp
      by (auto simp: thread_ok_def split: if_splits intro!: keeps_assert_cas [where u = u] keeps_frame [where u = u])
  next
    case H_SAVE
    then show ?thesis
      using assms ok susp by (auto simp: thread_ok_def intro!: keeps_frame [where u = u])
  next
    case H_SUSPEND
    then show ?thesis
      using assms ok susp by (auto intro!: keeps_assert_cas [where u = u])
  next
    case (H_BARRIER b)
    then obtain b' s1 where b: "thread_barrier a b s = Some (b', s1)"
      and s': "s' = upd a (\<lambda>u. u\<lparr> u_frame := Some (case b' of Some b' \<Rightarrow> H_BARRIER b' | None \<Rightarrow> H_RESUME) \<rparr>) s1"
      using assms(4) by auto
    have nxt: "case b' of
          Some c \<Rightarrow> (c \<in> {B_ARRIVE, B_TEST_CKPT, B_WAIT_CKPT, B_WOKEN_CKPT} \<longrightarrow> s_state s \<noteq> XND_SUSPINPROG) \<and>
            (c = B_UNLOCK \<longrightarrow> s_state s \<noteq> XND_SUSPINPROG \<and> s_state s \<noteq> XND_CKPTINPROG)
        | None \<Rightarrow> s_state s \<noteq> XND_SUSPINPROG \<and> s_state s \<noteq> XND_CKPTINPROG"
      by (rule thread_barrier_next [OF b]) (use ok assms(3) H_BARRIER in \<open>auto simp: thread_ok_def\<close>)
    show ?thesis
      unfolding s'
    proof (rule keeps_frame [where u = u])
      show "frame_state (Some (case b' of Some b' \<Rightarrow> H_BARRIER b' | None \<Rightarrow> H_RESUME)) (ti_state u)"
        using ok assms(3) H_BARRIER by (auto simp: thread_ok_def split: option.split)
    qed (use assms(1,2) nxt thread_barrier_facts [OF b] in \<open>auto split: option.splits\<close>)
  next
    case H_RESUME
    then show ?thesis
      using assms ok susp by (auto intro!: keeps_assert_cas [where u = u])
  qed (use assms(4) in auto)
qed

lemma no_restart_frame:
  assumes "threads_ok s" and "s_th s a = Some u" and "u_frame u = Some f"
  shows "thread_restart a u f s = None"
  using assms by (cases f) (auto simp: threads_ok_def thread_ok_def dest!: spec)

lemma keeps_round_trans:
  assumes "keeps_round s t" and "keeps_round t s'" and "s_list t = s_list s" and "s_ck t = s_ck s"
    and "s_list s' = s_list s"
  shows "keeps_round s s'"
  using assms by (auto simp: keeps_round_def aside_def)

text \<open>A change of the code point alone, of a thread that no handler interrupts.\<close>

lemma keeps_pc:
  assumes "threads_ok s" and "s_th s a = Some u" and "u_frame u = None"
    and "u_pc (g u) \<in> {U_UNSAFE} \<union> range U_CREATE \<union> range U_JOIN \<Longrightarrow> ti_state (g u) = ST_UNSAFE"
    and "u_frame (g u) = None \<or> u_frame (g u) = Some H_ENTER"
    and "ti_state u \<noteq> ST_SUSPINPROG \<Longrightarrow> ti_state u \<noteq> ST_SUSPENDED \<Longrightarrow>
           ti_state (g u) \<noteq> ST_SUSPINPROG \<and> ti_state (g u) \<noteq> ST_SUSPENDED"
    and "ti_joined (g u) \<Longrightarrow> dead (g u)"
    and "dead u \<Longrightarrow> dead (g u)"
    and "u_pc u = N_START \<Longrightarrow> ti_state u = ST_EMBRYO \<Longrightarrow> u_pc (g u) = N_START \<and> ti_state (g u) = ST_EMBRYO"
    and "\<And>c. u_pc u = U_CREATE c \<Longrightarrow> ti_state u = ST_UNSAFE \<Longrightarrow>
           (u_pc (g u) = U_CREATE c \<and> ti_state (g u) = ST_UNSAFE) \<or> (\<exists>t. s_th s c = Some t \<and> ti_state t \<noteq> ST_EMBRYO)"
  shows "keeps_round s (upd a g s)"
proof (rule keeps_round_upd [OF assms(1,2) refl refl aside_refl])
  have ok: "thread_ok (s_state s) u" using assms(1,2) by (simp add: threads_ok_def)
  then have st: "ti_state u \<noteq> ST_SUSPINPROG" "ti_state u \<noteq> ST_SUSPENDED"
    using assms(3) by (simp_all add: thread_ok_def)
  have "frame_state (u_frame (g u)) (ti_state (g u))"
    using assms(5) assms(6) [OF st] by auto
  moreover have "\<forall>f. u_frame (g u) = Some f \<longrightarrow> \<not> passed f \<and> \<not> released f"
    using assms(5) by auto
  ultimately show "thread_ok (s_state s) (g u)"
    using assms(4,7) unfolding thread_ok_def by blast
qed (use assms in \<open>auto simp: suspended_def dead_def\<close>)

lemma keeps_exit:
  assumes "threads_ok s" and "s_th s a = Some u" and "u_frame u = None" and "thread_exit a u s = Some s'"
  shows "keeps_round s s'"
  using assms(4)
  by (auto split: upc.splits if_splits intro!: keeps_pc [OF assms(1-3)])
     (use assms(1-3) in \<open>auto simp: threads_ok_def thread_ok_def dead_def\<close>)

lemma keeps_add:
  assumes "threads_ok s" and "s_th s a = Some u" and "u_frame u = None" and "u_pc u = N_START" and "s_lst s = None"
  shows "keeps_round s (upd a (\<lambda>u. u\<lparr> ti_self := a, u_pc := N_ADDED \<rparr>) (s\<lparr> s_list := a # s_list s \<rparr>))"
    (is "keeps_round s (upd a ?f ?t)")
proof -
  have t: "threads_ok ?t" using assms(1) by (simp add: threads_ok_def)
  have ok: "thread_ok (s_state s) u" using assms(1,2) by (simp add: threads_ok_def)
  have "threads_ok (upd a ?f ?t)"
    by (rule threads_ok_upd [OF t, where u = u])
       (use ok assms in \<open>auto simp: thread_ok_def dead_def\<close>)
  moreover have "cover (X \<union> set (a # s_list s)) A (upd a ?f ?t)" if "cover X A s" for X A
  proof -
    have "cover (X \<union> set (a # s_list s)) A ?t"
      using cover_mono [OF that, of "X \<union> set (a # s_list s)"] cover_cong [of s ?t] by auto
    then show ?thesis
      by (rule cover_upd [where v = u]) (use assms in \<open>auto simp: dead_def\<close>)
  qed
  ultimately show ?thesis
    using assms by (simp add: keeps_round_def aside_def)
qed

lemma keeps_start:
  assumes "threads_ok s" and "s_th s a = Some u" and "u_frame u = None" and "thread_start a u s = Some s'"
  shows "keeps_round s s'"
proof (cases "u_pc u = N_START")
  case True
  then show ?thesis
    using assms(4) keeps_add [OF assms(1-3)] by (auto simp: thread_list_add_def split: if_splits)
next
  case False
  then show ?thesis
    using assms(4)
    by (auto split: upc.splits if_splits intro!: keeps_pc [OF assms(1-3)])
       (use assms(1-3) in \<open>auto simp: threads_ok_def thread_ok_def dead_def\<close>)
qed

lemma keeps_join:
  assumes "threads_ok s" and "s_th s a = Some u" and "u_frame u = None" and "u_pc u = U_JOIN c" and "join_wait a c s = Some s'"
  shows "keeps_round s s'"
proof -
  have ok: "thread_ok (s_state s) u" using assms(1,2) by (simp add: threads_ok_def)
  obtain t where t: "s_th s c = Some t" "dead t"
    and s': "s' = upd c (\<lambda>t. t\<lparr> ti_joined := True \<rparr>) (upd a (\<lambda>u. u\<lparr> u_pc := U_UNSAFE \<rparr>) s)"
    using assms(5) by (auto simp: join_wait_def split: option.splits if_splits)
  have ac: "a \<noteq> c" using t assms(2,4) by (auto simp: dead_def)
  have one: "keeps_round s (upd a (\<lambda>u. u\<lparr> u_pc := U_UNSAFE \<rparr>) s)" (is "keeps_round s ?m")
    by (rule keeps_pc [OF assms(1-3)]) (use ok assms(3,4) in \<open>auto simp: thread_ok_def dead_def\<close>)
  then have "threads_ok ?m" by (simp add: keeps_round_def)
  moreover have "s_th ?m c = Some t" using ac t by simp
  ultimately have "keeps_round ?m (upd c (\<lambda>t. t\<lparr> ti_joined := True \<rparr>) ?m)"
    by (rule keeps_round_upd) (use t in \<open>auto simp: thread_ok_def dead_def suspended_def\<close>)
  then show ?thesis
    using keeps_round_trans [OF one] s' by simp
qed

lemma keeps_create:
  assumes "threads_ok s" and "s_th s a = Some u" and "u_frame u = None" and "u_pc u = U_UNSAFE" and "s_th s c = None"
  shows "keeps_round s (set_pc a (U_CREATE c) (s\<lparr> s_th := (s_th s)(c := Some new_thread) \<rparr>))"
proof -
  have ok: "thread_ok (s_state s) u" using assms(1,2) by (simp add: threads_ok_def)
  define s' where "s' = set_pc a (U_CREATE c) (s\<lparr> s_th := (s_th s)(c := Some new_thread) \<rparr>)"
  have ac: "a \<noteq> c" using assms(2,5) by auto
  have th: "s_th s' = (s_th s)(c := Some new_thread, a := Some (u\<lparr> u_pc := U_CREATE c \<rparr>))"
    using ac assms(2) by (simp add: s'_def set_pc_def fun_upd_twist)
  have rest: "s_state s' = s_state s" "s_list s' = s_list s" "aside s s'"
    by (simp_all add: s'_def set_pc_def aside_def)
  have unsafe: "ti_state u = ST_UNSAFE" using ok assms(4) by (simp add: thread_ok_def)
  have "thread_ok st new_thread" "thread_ok (s_state s) (u\<lparr> u_pc := U_CREATE c \<rparr>)" for st
    using ok assms(3,4) by (auto simp: thread_ok_def new_thread_def dead_def)
  then have "threads_ok s'"
    using assms(1) by (simp add: threads_ok_def th rest)
  moreover have "cover X A s'" if cov: "cover X A s" for X A
    unfolding cover_def
  proof (intro allI impI)
    fix b v
    assume v: "s_th s' b = Some v" "\<not> dead v"
    have a: "a \<in> X"
      using cov [unfolded cover_def, rule_format, OF assms(2)] assms(3,4)
      by (auto simp: dead_def suspended_def embryo_def)
    show "b \<in> X \<or> A \<and> suspended v \<or> embryo X b v s'"
    proof (cases "b = c \<or> b = a")
      case True
      then show ?thesis
        using v ac a unsafe by (auto simp: th embryo_def new_thread_def)
    next
      case False
      then have b: "s_th s b = Some v" using v by (simp add: th)
      moreover have "embryo X b v s'" if "embryo X b v s"
      proof -
        from that obtain d x where d: "d \<in> X" "s_th s d = Some x" "u_pc x = U_CREATE b" "ti_state x = ST_UNSAFE"
          by (auto simp: embryo_def)
        then have "d \<noteq> a" "d \<noteq> c" using assms(2,4,5) by auto
        then show ?thesis using that d by (auto simp: embryo_def th)
      qed
      ultimately show ?thesis using cov v(2) by (auto simp: cover_def)
    qed
  qed
  ultimately show ?thesis
    unfolding s'_def [symmetric] by (simp add: keeps_round_def rest)
qed

lemma keeps_thread_act:
  assumes "threads_ok s" and "s_th s a = Some u" and "thread_act a u s = Some s'" and "\<not> s_abort s'"
  shows "keeps_round s s'"
proof (cases "u_frame u")
  case (Some f)
  then show ?thesis
    using assms keeps_sighandler [OF assms(1,2) Some] no_restart_frame [OF assms(1,2) Some]
    by (auto simp: thread_act_def split: option.splits)
next
  case None
  have ok: "thread_ok (s_state s) u" using assms(1,2) by (simp add: threads_ok_def)
  consider (spin) "u_pc u = U_SPIN" | (create) c where "u_pc u = U_CREATE c" | (join) c where "u_pc u = U_JOIN c"
    | (other) "thread_start a u s = Some s' \<or> thread_exit a u s = Some s'"
    using assms(3) None by (auto simp: thread_act_def split: upc.splits option.splits)
  then show ?thesis
  proof cases
    case spin
    then have "s' = upd a (\<lambda>u. u\<lparr> ti_state := ST_UNSAFE, u_pc := U_UNSAFE \<rparr>) s"
      using assms(3) None by (simp add: thread_act_def split: if_splits)
    then show ?thesis
      using keeps_pc [OF assms(1,2) None, where g = "\<lambda>u. u\<lparr> ti_state := ST_UNSAFE, u_pc := U_UNSAFE \<rparr>"] ok spin None
      by (auto simp: dead_def thread_ok_def)
  next
    case create
    then obtain t where "s_th s c = Some t" "ti_state t \<noteq> ST_EMBRYO" and s': "s' = upd a (\<lambda>u. u\<lparr> u_pc := U_UNSAFE \<rparr>) s"
      using assms(3) None by (auto simp: thread_act_def create_wait_def split: option.splits if_splits)
    then show ?thesis
      using ok create None unfolding s'
      by (intro keeps_pc [OF assms(1,2) None]) (auto simp: thread_ok_def dead_def)
  next
    case join
    then show ?thesis
      using assms(3) None keeps_join [OF assms(1,2) None] by (simp add: thread_act_def)
  next
    case other
    then show ?thesis
      using keeps_start [OF assms(1,2) None] keeps_exit [OF assms(1,2) None] by blast
  qed
qed

lemma at_pcE:
  assumes "at_pc a p s"
  obtains u where "s_th s a = Some u" "u_pc u = p" "u_frame u = None"
  using assms by (auto simp: at_pc_def split: option.splits)

lemma keeps_set_pc:
  assumes "threads_ok s" and "at_pc a p s" and "p = U_RUN \<and> q \<in> {U_SPIN, U_EXIT, U_DEAD} \<or> p = U_UNSAFE \<and> q \<in> range U_JOIN"
  shows "keeps_round s (set_pc a q s)"
proof -
  obtain u where u: "s_th s a = Some u" "u_pc u = p" "u_frame u = None"
    using assms(2) by (rule at_pcE)
  then have "thread_ok (s_state s) u" using assms(1) by (simp add: threads_ok_def)
  then show ?thesis
    using u assms(3) unfolding set_pc_def
    by (intro keeps_pc [OF assms(1) u(1,3)]) (auto simp: thread_ok_def dead_def)
qed

lemma wake_b_facts [simp]:
  "wake_b b = B_UNLOCK \<longleftrightarrow> b = B_UNLOCK" "wake_b b = B_ARRIVE \<longleftrightarrow> b = B_ARRIVE"
  "wake_b b = B_TEST_CKPT \<longleftrightarrow> b = B_TEST_CKPT" "wake_b b \<noteq> B_WAIT_CKPT"
  "wake_b b = B_WOKEN_CKPT \<longleftrightarrow> b = B_WAIT_CKPT \<or> b = B_WOKEN_CKPT"
  by (cases b; simp)+

lemma wake_h_facts:
  "held (wake_h h) = held h" "passed (wake_h h) = passed h" "released (wake_h h) = released h"
  "frame_state (Some (wake_h h)) st = frame_state (Some h) st"
  by (cases h; auto)+

lemma keeps_user:
  assumes "threads_ok s" and "sched_act e s = Some s'" and "e \<noteq> A_Ckpt" and "\<not> s_abort s'"
  shows "keeps_round s s'"
proof (cases e)
  case A_Ckpt
  then show ?thesis using assms(3) by simp
next
  case (A_Step a)
  then show ?thesis using assms keeps_thread_act by (auto split: option.splits)
next
  case (A_Deliver a)
  then obtain u where u: "s_th s a = Some u" "u_frame u = None"
    and s': "s' = upd a (\<lambda>u. u\<lparr> u_sig := False, u_frame := Some H_ENTER \<rparr>) s"
    using assms(2) by (auto split: option.splits if_splits)
  then have "thread_ok (s_state s) u" using assms(1) by (simp add: threads_ok_def)
  then show ?thesis
    unfolding s' using u by (intro keeps_pc [OF assms(1) u]) (auto simp: thread_ok_def dead_def)
next
  case (A_Enter a)
  then show ?thesis using assms keeps_set_pc [of s a U_RUN] by (auto split: if_splits)
next
  case (A_Leave a)
  then obtain u where u: "s_th s a = Some u" "u_pc u = U_UNSAFE" "u_frame u = None"
    using assms(2) by (auto split: if_splits elim: at_pcE)
  then have "thread_ok (s_state s) u" using assms(1) by (simp add: threads_ok_def)
  then show ?thesis
    using A_Leave assms(2) u
    by (auto split: if_splits intro!: keeps_pc [OF assms(1) u(1,3)] simp: thread_ok_def dead_def)
next
  case (A_Create a c)
  then show ?thesis
    using assms(2) keeps_create [OF assms(1)] by (auto split: if_splits elim!: at_pcE)
next
  case (A_Join a c)
  then show ?thesis using assms keeps_set_pc [of s a U_UNSAFE] by (auto split: if_splits)
next
  case (A_Exit a)
  then show ?thesis using assms keeps_set_pc [of s a U_RUN] by (auto split: if_splits)
next
  case (A_Cancel a)
  then show ?thesis using assms keeps_set_pc [of s a U_RUN] by (auto split: if_splits)
next
  case (A_Spurious a)
  then obtain u where u: "s_th s a = Some u" and ne: "u_frame u \<noteq> map_option wake_h (u_frame u)"
    and s': "s' = upd a (\<lambda>u. u\<lparr> u_frame := map_option wake_h (u_frame u) \<rparr>) s"
    using assms(2) by (auto split: option.splits if_splits)
  then obtain f where f: "u_frame u = Some f" by (cases "u_frame u") auto
  have "keeps_round s (upd a (\<lambda>u. u\<lparr> u_frame := Some (wake_h f) \<rparr>) s)"
    by (rule keeps_frame [OF assms(1) u refl refl aside_refl])
       (use f in \<open>auto simp: thread_ok_def suspended_def wake_h_facts\<close>)
  moreover have "s' = upd a (\<lambda>u. u\<lparr> u_frame := Some (wake_h f) \<rparr>) s"
    using s' u f by (simp add: upd_def)
  ultimately show ?thesis by simp
next
  case A_Spurious_Ckpt
  then obtain r where r: "s_ck s = K_ARRIVE_WAIT r" and s': "s' = s\<lparr> s_ck := K_ARRIVE_WOKEN r \<rparr>"
    using assms(2) by (auto split: kpc.splits)
  have "cover X A s' = cover X A s" for X A
    by (rule cover_cong) (simp add: s')
  moreover have "threads_ok s'"
    using assms(1) threads_ok_cong [of s s'] by (simp add: s')
  ultimately show ?thesis
    using r by (simp add: keeps_round_def aside_def s')
qed

lemma quiet_user:
  assumes "quiet s" and "sched_act e s = Some s'" and "e \<noteq> A_Ckpt"
  shows "quiet s'"
proof -
  have q: "u_frame u = None \<and> \<not> u_sig u" if "s_th s a = Some u" for a u
    using assms(1) that by (simp add: quiet_def)
  show ?thesis
  proof (cases e)
    case (A_Step a)
    then obtain u where u: "s_th s a = Some u" and act: "thread_act a u s = Some s'"
      using assms(2) by (auto split: option.splits)
    then show ?thesis
      using q [OF u] q
      by (auto simp: thread_act_def create_wait_def join_wait_def thread_list_add_def quiet_def
               split: upc.splits option.splits if_splits)
  qed (use assms q in \<open>auto split: if_splits option.splits kpc.splits simp: set_pc_def quiet_def new_thread_def\<close>)
qed

lemma cover_empty_list:
  assumes "keeps_round s s'" and "cover {} True s"
  shows "s_list s' = s_list s"
proof (rule ccontr)
  assume "s_list s' \<noteq> s_list s"
  then obtain a u where u: "s_th s a = Some u" "u_frame u = None" "u_pc u = N_START"
    using assms(1) by (auto simp: keeps_round_def)
  then show False
    using assms(2) [unfolded cover_def, rule_format, OF u(1)] by (simp add: dead_def suspended_def embryo_def)
qed

lemma round_inv_user:
  assumes "round_inv s" and "sched_act e s = Some s'" and "e \<noteq> A_Ckpt" and "\<not> s_abort s'"
  shows "round_inv s'"
proof -
  have inv: "threads_ok s" "cover (set (s_list s)) False s" "ck_inv (s_ck s) s"
    using assms(1) by (simp_all add: round_inv_def)
  have k: "keeps_round s s'" by (rule keeps_user [OF inv(1) assms(2-4)])
  then have st: "s_state s' = s_state s" and lst: "s_lst s' = s_lst s" and ok: "threads_ok s'"
    and ck: "s_ck s' = s_ck s \<or> (\<exists>r. s_ck s = K_ARRIVE_WAIT r \<and> s_ck s' = K_ARRIVE_WOKEN r)"
    by (simp_all add: keeps_round_def aside_def)
  have keep: "cover (if s_list s' = s_list s then X else X \<union> set (s_list s')) A s'"
    if "cover X A s" "A \<longrightarrow> s_state s \<in> {XND_SUSPINPROG, XND_CKPTINPROG}" for X A
    using k that by (simp add: keeps_round_def)
  have list: "set (s_list s) \<union> set (s_list s') = set (s_list s')"
    using k by (auto simp: keeps_round_def)
  have L: "cover (set (s_list s')) False s'"
    using keep [OF inv(2)] list by (auto split: if_splits)
  have none: "cover {} True s'" if "cover {} True s" "s_state s \<in> {XND_SUSPINPROG, XND_CKPTINPROG}"
    using keep [of "{}" True] that cover_empty_list [OF k] by simp
  have locked: "cover X True s'" if "cover X True s" "s_state s = XND_SUSPINPROG" "s_lst s = Some Ckpt" for X
    using keep [of X True] that k by (auto simp: keeps_round_def split: if_splits)
  have "ck_inv (s_ck s') s'"
  proof (cases "s_ck s")
    case K_PENDING
    then show ?thesis using ck inv(3) quiet_user [OF _ assms(2,3)] by simp
  next
    case K_SUSPEND
    then show ?thesis using ck inv(3) quiet_user [OF _ assms(2,3)] by simp
  next
    case (K_EXIT ts e k)
    then show ?thesis using ck inv(3) st lst locked by auto
  next
    case (K_EXIT_TEST a ts e k t)
    then show ?thesis using ck inv(3) st lst locked by auto
  qed (use ck inv(3) st none in auto)
  with ok L show ?thesis by (simp add: round_inv_def)
qed

section \<open>Steps of the checkpoint thread\<close>

lemma remove_th:
  "s_state (thread_list_remove a s) = s_state s" "s_lst (thread_list_remove a s) = s_lst s"
  "s_ck (thread_list_remove a s) = s_ck s" "s_abort (thread_list_remove a s) = s_abort s"
  "s_list (thread_list_remove a s) = remove1 a (s_list s)"
  "s_th (thread_list_remove a s) b = s_th s b \<or> a = b \<and> s_th (thread_list_remove a s) b = None"
  by (auto simp: thread_list_remove_def zombie_list_add_def thread_reap_def Let_def split: option.split)

lemma remove_other: "b \<noteq> a \<Longrightarrow> s_th (thread_list_remove a s) b = s_th s b"
  using remove_th(6) [of a s b] by auto

lemma threads_ok_remove:
  assumes "threads_ok s"
  shows "threads_ok (thread_list_remove a s)"
  unfolding threads_ok_def
proof (intro allI impI)
  fix b v
  assume "s_th (thread_list_remove a s) b = Some v"
  then have "s_th s b = Some v" using remove_th(6) [of a s b] by auto
  then show "thread_ok (s_state (thread_list_remove a s)) v"
    using assms by (simp add: threads_ok_def remove_th)
qed

text \<open>Removing a thread that has ended keeps a cover.\<close>

lemma cover_remove:
  assumes "cover X A s" and "s_th s a = Some u" and "dead u" and "X - {a} \<subseteq> Y"
  shows "cover Y A (thread_list_remove a s)"
  unfolding cover_def
proof (intro allI impI)
  fix b v
  assume b: "s_th (thread_list_remove a s) b = Some v" "\<not> dead v"
  then have ab: "b \<noteq> a" and v: "s_th s b = Some v"
    using remove_th(6) [of a s b] assms(2,3) by auto
  have "embryo Y b v (thread_list_remove a s)" if "embryo X b v s"
  proof -
    from that obtain c x where c: "c \<in> X" "s_th s c = Some x" "u_pc x = U_CREATE b" "ti_state x = ST_UNSAFE"
      by (auto simp: embryo_def)
    then have "c \<noteq> a" using assms(2,3) by (auto simp: dead_def)
    then show ?thesis using that c assms(4) remove_other [of c a s] unfolding embryo_def by auto
  qed
  then show "b \<in> Y \<or> A \<and> suspended v \<or> embryo Y b v (thread_list_remove a s)"
    using assms(1,4) v b(2) ab unfolding cover_def by blast
qed

text \<open>A change of a descriptor that the invariants do not look at, as taking or giving back its lock.\<close>

definition same :: "(uthread \<Rightarrow> uthread) \<Rightarrow> bool" where
  "same f \<longleftrightarrow> (\<forall>u. u_pc (f u) = u_pc u \<and> u_frame (f u) = u_frame u \<and> ti_state (f u) = ti_state u \<and>
     ti_joined (f u) = ti_joined u)"

lemma same_intros [simp]:
  "same (\<lambda>u. u\<lparr> u_lock := x \<rparr>)" "same (\<lambda>u. u\<lparr> u_sig := y \<rparr>)"
  by (simp_all add: same_def)

lemma same_upd:
  assumes "same f"
  shows "threads_ok s \<Longrightarrow> threads_ok (upd a f s)" and "cover X A s \<Longrightarrow> cover X A (upd a f s)"
proof -
  show "threads_ok (upd a f s)" if "threads_ok s"
    using that assms by (auto simp: threads_ok_def thread_ok_def same_def dead_def split: if_splits)
  show "cover X A (upd a f s)" if "cover X A s"
  proof (cases "s_th s a")
    case None
    then have "s_th (upd a f s) = s_th s" by auto
    then show ?thesis using that cover_cong by blast
  next
    case (Some u)
    show ?thesis
      by (rule cover_upd [OF that Some]) (use assms in \<open>auto simp: same_def dead_def suspended_def\<close>)
  qed
qed

text \<open>Fields of the state that neither looks at.\<close>

lemma ck_fields [simp]:
  "threads_ok (s\<lparr> s_ck := k \<rparr>) = threads_ok s" "threads_ok (s\<lparr> s_lst := l \<rparr>) = threads_ok s"
  "threads_ok (s\<lparr> s_mtx := l \<rparr>) = threads_ok s" "threads_ok (s\<lparr> s_expected := i \<rparr>) = threads_ok s"
  "threads_ok (s\<lparr> s_arrived := i \<rparr>) = threads_ok s"
  "cover X A (s\<lparr> s_ck := k \<rparr>) = cover X A s" "cover X A (s\<lparr> s_lst := l \<rparr>) = cover X A s"
  "cover X A (s\<lparr> s_mtx := l \<rparr>) = cover X A s" "cover X A (s\<lparr> s_expected := i \<rparr>) = cover X A s"
  "cover X A (s\<lparr> s_arrived := i \<rparr>) = cover X A s" "cover X A (s\<lparr> s_state := x \<rparr>) = cover X A s"
  by (simp_all add: threads_ok_def cover_def embryo_def)

lemma broadcast_simps [simp]:
  "s_state (broadcast s) = s_state s" "s_list (broadcast s) = s_list s" "s_ck (broadcast s) = s_ck s"
  "s_lst (broadcast s) = s_lst s" "s_abort (broadcast s) = s_abort s" "s_mtx (broadcast s) = s_mtx s"
  "s_expected (broadcast s) = s_expected s" "s_arrived (broadcast s) = s_arrived s"
  "s_th (broadcast s) a = map_option (\<lambda>u. u\<lparr> u_frame := map_option wake_h (u_frame u) \<rparr>) (s_th s a)"
  by (simp_all add: broadcast_def)

lemma frame_state_wake [simp]: "frame_state (map_option wake_h f) st = frame_state f st"
  by (cases f) (simp_all add: wake_h_facts del: frame_state.simps)

lemma threads_ok_broadcast: "threads_ok s \<Longrightarrow> threads_ok (broadcast s)"
  by (auto simp: threads_ok_def thread_ok_def dead_def wake_h_facts)

lemma suspended_wake [simp]: "suspended (u\<lparr> u_frame := map_option wake_h (u_frame u) \<rparr>) = suspended u"
  by (simp add: suspended_def wake_h_facts split: option.split)

lemma cover_broadcast:
  assumes "cover X A s"
  shows "cover X A (broadcast s)"
  unfolding cover_def
proof (intro allI impI)
  fix a v
  assume v: "s_th (broadcast s) a = Some v" "\<not> dead v"
  then obtain u where u: "s_th s a = Some u" and vu: "v = u\<lparr> u_frame := map_option wake_h (u_frame u) \<rparr>"
    by auto
  have "embryo X a v (broadcast s)" if "embryo X a u s"
  proof -
    from that obtain c x where c: "c \<in> X" "s_th s c = Some x" "u_pc x = U_CREATE a" "ti_state x = ST_UNSAFE"
      by (auto simp: embryo_def)
    then have "s_th (broadcast s) c = Some (x\<lparr> u_frame := map_option wake_h (u_frame x) \<rparr>)" by simp
    moreover have "u_pc v = N_START" "ti_state v = ST_EMBRYO" using that vu by (simp_all add: embryo_def)
    ultimately show ?thesis
      using c unfolding embryo_def
      by (intro conjI bexI [of _ c] exI [of _ "x\<lparr> u_frame := map_option wake_h (u_frame x) \<rparr>"]) simp_all
  qed
  then show "a \<in> X \<or> A \<and> suspended v \<or> embryo X a v (broadcast s)"
    using assms [unfolded cover_def, rule_format, OF u] v(2) vu by (auto simp: dead_def)
qed

lemma threads_ok_state:
  assumes "threads_ok s" and "quiet s \<or> st \<noteq> XND_SUSPINPROG \<and> (st = XND_CKPTINPROG \<longrightarrow> s_state s = XND_SUSPINPROG)"
  shows "threads_ok (s\<lparr> s_state := st \<rparr>)"
  using assms by (fastforce simp: threads_ok_def thread_ok_def quiet_def)

text \<open>The scan.\<close>

definition scanning :: "sys \<Rightarrow> bool" where
  "scanning s \<longleftrightarrow> threads_ok s \<and> cover (set (s_list s)) False s \<and> s_state s = XND_SUSPINPROG"

lemma scanning_ck [simp]: "scanning (s\<lparr> s_ck := k \<rparr>) = scanning s" "scanning (scan_on ts n r s) = scanning s"
  by (simp_all add: scanning_def scan_on_def)

lemma scanning_same: "same f \<Longrightarrow> scanning s \<Longrightarrow> scanning (upd a f s)"
  by (simp add: scanning_def same_upd)

lemma scanning_unlock: "scanning s \<Longrightarrow> scanning (unlock_th a s)"
  by (simp add: unlock_th_def scanning_same)

lemma scanning_remove:
  assumes "scanning s" and "s_th s a = Some u" and "dead u"
  shows "scanning (thread_list_remove a s)"
proof -
  have "set (s_list s) - {a} \<subseteq> set (remove1 a (s_list s))"
    using in_set_remove1 [of _ a "s_list s"] by blast
  then show ?thesis
    using assms threads_ok_remove [of s a] cover_remove [of "set (s_list s)" False s a u]
    by (simp add: scanning_def remove_th)
qed

lemma upd_ck: "upd a f (s\<lparr> s_ck := k \<rparr>) = (upd a f s)\<lparr> s_ck := k \<rparr>"
  by (simp add: upd_def)

lemma scanning_test:
  assumes "scanning s" and "s_th s a = Some u"
  shows "scanning (suspend_test a u ts n r t s)"
proof -
  have ok: "thread_ok (s_state s) u" using assms by (auto simp: scanning_def threads_ok_def)
  have unl: "s_th (unlock_th a s) a = Some (u\<lparr> u_lock := None \<rparr>)" "scanning (unlock_th a s)"
    using assms scanning_unlock by (simp_all add: unlock_th_def)
  have rm: "scanning (thread_list_remove a (unlock_th a s))" if "dead u"
    using scanning_remove [OF unl(2,1)] that by (simp add: dead_def)
  show ?thesis
  proof (cases t)
    case T_CAS
    have "scanning (upd a (\<lambda>u. u\<lparr> ti_state := ST_SIGNALED \<rparr>) s)" if run: "ti_state u = ST_RUNNING"
    proof -
      have "threads_ok (upd a (\<lambda>u. u\<lparr> ti_state := ST_SIGNALED \<rparr>) s)"
      proof (rule threads_ok_upd [where u = u])
        have "frame_state (u_frame u) ST_SIGNALED"
          using ok run by (auto simp: thread_ok_def elim!: frame_state.elims)
        then show "thread_ok (s_state s) (u\<lparr> ti_state := ST_SIGNALED \<rparr>)"
          using ok run by (auto simp: thread_ok_def dead_def)
      qed (use assms in \<open>simp_all add: scanning_def\<close>)
      moreover have "cover (set (s_list s)) False (upd a (\<lambda>u. u\<lparr> ti_state := ST_SIGNALED \<rparr>) s)"
        by (rule cover_upd [where v = u]) (use assms run in \<open>auto simp: scanning_def dead_def\<close>)
      ultimately show ?thesis using assms(1) by (simp add: scanning_def)
    qed
    then show ?thesis using T_CAS assms(1) by (simp add: upd_ck)
  next
    case T_KILL
    have "scanning (unlock_th a (upd a (\<lambda>u. u\<lparr> u_sig := True \<rparr>) s))"
      by (intro scanning_unlock scanning_same assms(1)) simp
    then show ?thesis using T_KILL rm by simp
  next
    case T_PROBE
    then show ?thesis using unl rm by simp
  qed (use assms(1) unl(2) in simp_all)
qed

lemma suspend_round:
  assumes "round_inv s" and "suspend_threads (s_ck s) s = Some s'" and "\<not> s_abort s'"
  shows "round_inv s'"
proof -
  have inv: "threads_ok s" "cover (set (s_list s)) False s" "ck_inv (s_ck s) s"
    using assms(1) by (simp_all add: round_inv_def)
  have joined: "dead u" if "s_th s a = Some u" "ti_joined u" for a u
    using inv(1) that by (auto simp: threads_ok_def thread_ok_def)
  have lift: "round_inv t" if "scanning t" "s_ck t = K_SCAN ts n r \<or> s_ck t = K_TEST a ts n r x \<or> s_ck t = K_TH_LOCK a ts n r
      \<or> s_ck t \<in> {K_RESET, K_SCAN_LOCK, K_SCAN_LIST, K_EXIT_LOCK} \<or> s_ck t = K_SCAN_END n r" for t a ts n r x
    using that by (auto simp: scanning_def round_inv_def)
  show ?thesis
  proof (cases "s_ck s")
    case K_SUSPEND
    then have "quiet s" using inv(3) by simp
    then have "threads_ok (s\<lparr> s_state := XND_SUSPINPROG \<rparr>)"
      using threads_ok_state [OF inv(1)] by blast
    then show ?thesis
      using assms(2) inv(2) K_SUSPEND by (auto simp: round_inv_def)
  next
    case (K_SCAN ts n r)
    then have sc: "scanning s" using inv by (simp add: scanning_def)
    show ?thesis
    proof (cases ts)
      case Nil
      then show ?thesis using assms(2) K_SCAN inv by (auto simp: round_inv_def)
    next
      case (Cons a us)
      then obtain u where u: "s_th s a = Some u" using assms(2) K_SCAN by (auto split: option.splits)
      then have "scanning (thread_list_remove a s)" if "ti_joined u"
        using scanning_remove [OF sc u] joined [OF u] that by simp
      then show ?thesis
        using assms(2,3) K_SCAN Cons u sc
        by (auto split: if_splits simp: crash_def scan_on_def intro!: lift)
    qed
  next
    case (K_TH_LOCK a ts n r)
    then have "scanning s" using inv by (simp add: scanning_def)
    then show ?thesis
      using assms(2) K_TH_LOCK by (auto split: option.splits if_splits simp: upd_ck intro!: lift scanning_same)
  next
    case (K_TEST a ts n r t)
    then have sc: "scanning s" using inv by (simp add: scanning_def)
    obtain u where u: "s_th s a = Some u" and s': "s' = suspend_test a u ts n r t s"
      using assms(2) K_TEST by (auto split: option.splits)
    have "(\<exists>n r. s_ck s' = K_SCAN ts n r) \<or> (\<exists>n r x. s_ck s' = K_TEST a ts n r x)"
      unfolding s' by (cases t) (auto simp: scan_on_def)
    then show ?thesis using scanning_test [OF sc u, of ts n r t] lift s' by blast
  next
    case (K_SCAN_END n r)
    then show ?thesis using assms(2) inv by (auto simp: round_inv_def Let_def split: if_splits)
  qed (use assms(2) inv in \<open>auto simp: round_inv_def split: if_splits\<close>)
qed

text \<open>The wait for exiting threads.\<close>

lemma exit_test_round:
  assumes "threads_ok s" and "cover (set (s_list s)) False s" and "s_state s = XND_SUSPINPROG" and "s_lst s = Some Ckpt"
    and "k \<le> e" and "e = k \<longrightarrow> cover (insert a (set ts)) True s" and "s_th s a = Some u"
    and "s' = exit_test a u ts e k t s" and "\<not> s_abort s'"
  shows "round_inv s'"
proof -
  have ok: "thread_ok XND_SUSPINPROG u" using assms(1,3,7) by (auto simp: threads_ok_def)
  have rm: "round_inv (exit_on ts i j (thread_list_remove a s))" if "dead u" "i = e \<and> j = k \<or> i = e + 1 \<and> j = k + 1" for i j
  proof -
    have "set (s_list s) - {a} \<subseteq> set (remove1 a (s_list s))"
      using in_set_remove1 [of _ a "s_list s"] by blast
    then show ?thesis
      using that assms threads_ok_remove [of s a] cover_remove [of "set (s_list s)" False s a u]
        cover_remove [of "insert a (set ts)" True s a u "set ts"]
      by (auto simp: round_inv_def exit_on_def remove_th)
  qed
  have skip: "round_inv (exit_on ts e k s)" if "ti_state u = ST_SUSPENDED \<or> ti_state u = ST_SUSPINPROG"
  proof -
    have "suspended u"
      using ok that by (cases "u_frame u") (auto simp: thread_ok_def suspended_def elim!: frame_state.elims)
    moreover have "ti_state u \<noteq> ST_UNSAFE" using that by auto
    ultimately have "cover (set ts) True s" if "cover (insert a (set ts)) True s"
      using that assms(7) unfolding cover_def embryo_def by fastforce
    then show ?thesis
      using assms(1-6) by (simp add: round_inv_def exit_on_def)
  qed
  show ?thesis
    using assms ok rm skip by (cases t) (auto simp: round_inv_def exit_on_def crash_def thread_ok_def split: if_splits)
qed

lemma exiting_round:
  assumes "round_inv s" and "wait_for_exiting_threads (s_ck s) s = Some s'" and "\<not> s_abort s'"
  shows "round_inv s'"
proof -
  have inv: "threads_ok s" "cover (set (s_list s)) False s" "ck_inv (s_ck s) s"
    using assms(1) by (simp_all add: round_inv_def)
  show ?thesis
  proof (cases "s_ck s")
    case K_EXIT_LOCK
    then show ?thesis
      using assms(2) inv cover_def [of "set (s_list s)" True s] cover_def [of "set (s_list s)" False s]
      by (auto simp: round_inv_def split: if_splits)
  next
    case (K_EXIT ts e k)
    show ?thesis
    proof (cases ts)
      case Nil
      then show ?thesis using assms(2) K_EXIT inv by (auto simp: round_inv_def)
    next
      case (Cons a us)
      then obtain u where u: "s_th s a = Some u"
        and s': "s' = (if ti_joined u then exit_on us e k (thread_list_remove a s)
                       else s\<lparr> s_ck := K_EXIT_TEST a us e k X_EXITING \<rparr>)"
        using assms(2) K_EXIT by (auto split: option.splits)
      have ck: "s_state s = XND_SUSPINPROG" "s_lst s = Some Ckpt" "k \<le> e"
        "e = k \<longrightarrow> cover (insert a (set us)) True s"
        using inv(3) K_EXIT Cons by simp_all
      have "exit_on us e k (thread_list_remove a s) = exit_test a u us e k X_JOINED s" if "ti_joined u"
        using that by simp
      then show ?thesis
        using s' exit_test_round [OF inv(1,2) ck u, of _ X_JOINED] assms(3) inv ck
        by (auto simp: round_inv_def split: if_splits)
    qed
  next
    case (K_EXIT_TEST a ts e k t)
    then obtain u where u: "s_th s a = Some u" and s': "s' = exit_test a u ts e k t s"
      using assms(2) by (auto split: option.splits)
    have ck: "s_state s = XND_SUSPINPROG" "s_lst s = Some Ckpt" "k \<le> e"
        "e = k \<longrightarrow> cover (insert a (set ts)) True s"
        using inv(3) K_EXIT_TEST by simp_all
    show ?thesis by (rule exit_test_round [OF inv(1,2) ck u s' assms(3)])
  qed (use assms(2) in auto)
qed

lemma arrival_round:
  assumes "round_inv s" and "barrier_arrival_wait (s_ck s) s = Some s'"
  shows "round_inv s'"
proof -
  have inv: "threads_ok s" "cover (set (s_list s)) False s" "ck_inv (s_ck s) s"
    using assms(1) by (simp_all add: round_inv_def)
  show ?thesis
  proof (cases "s_ck s")
    case (K_ARRIVE_LOCK r)
    then have "s_state s = XND_SUSPINPROG" using inv(3) by simp
    then have "threads_ok (s\<lparr> s_state := XND_CKPTINPROG \<rparr>)"
      using threads_ok_state [OF inv(1), of XND_CKPTINPROG] by simp
    then have "threads_ok (s\<lparr> s_state := XND_CKPTINPROG, s_mtx := Some Ckpt, s_ck := K_ARRIVE_TEST r \<rparr>)"
      by simp
    then show ?thesis
      using assms(2) K_ARRIVE_LOCK inv
      by (auto simp: round_inv_def split: if_splits intro!: threads_ok_broadcast cover_broadcast)
  qed (use assms(2) inv in \<open>auto simp: round_inv_def split: if_splits\<close>)
qed

lemma release_round:
  assumes "round_inv s" and "barrier_release (s_ck s) s = Some s'"
  shows "round_inv s'"
proof -
  have inv: "threads_ok s" "cover (set (s_list s)) False s" "ck_inv (s_ck s) s"
    using assms(1) by (simp_all add: round_inv_def)
  have "threads_ok (s\<lparr> s_state := XND_RUNNING \<rparr>)"
    using threads_ok_state [OF inv(1), of XND_RUNNING] by simp
  then have "threads_ok (s\<lparr> s_state := XND_RUNNING, s_mtx := None, s_ck := K_WAIT_REQUEST \<rparr>)"
    by simp
  then show ?thesis
    using assms(2) inv
    by (cases "s_ck s") (auto simp: round_inv_def split: if_splits intro!: threads_ok_broadcast cover_broadcast)
qed

lemma round_inv_ckpt:
  assumes "round_inv s" and "ckpt_thread_work (s_ck s) s = Some s'" and "\<not> s_abort s'" and "s_ck s \<noteq> K_WAIT_REQUEST"
  shows "round_inv s'"
proof -
  have inv: "threads_ok s" "cover (set (s_list s)) False s" "ck_inv (s_ck s) s"
    using assms(1) by (simp_all add: round_inv_def)
  have no: "restore_threads (s_ck s) s = None"
    using inv(3) by (cases "s_ck s") auto
  consider (own) "s_ck s \<in> {K_PENDING, K_PRECHECKPOINT, K_CHECKPOINT, K_POSTCHECKPOINT}"
    | (susp) "suspend_threads (s_ck s) s = Some s'" | (exit) "wait_for_exiting_threads (s_ck s) s = Some s'"
    | (arrive) "barrier_arrival_wait (s_ck s) s = Some s'" | (release) "barrier_release (s_ck s) s = Some s'"
  proof (cases "s_ck s \<in> {K_PENDING, K_PRECHECKPOINT, K_CHECKPOINT, K_POSTCHECKPOINT}")
    case False
    moreover have "s_ck s \<noteq> K_FILTER" using inv(3) by auto
    ultimately have "(case suspend_threads (s_ck s) s of Some s' \<Rightarrow> Some s' | None \<Rightarrow>
       (case wait_for_exiting_threads (s_ck s) s of Some s' \<Rightarrow> Some s' | None \<Rightarrow>
       (case barrier_arrival_wait (s_ck s) s of Some s' \<Rightarrow> Some s' | None \<Rightarrow>
       (case barrier_release (s_ck s) s of Some s' \<Rightarrow> Some s' | None \<Rightarrow> restore_threads (s_ck s) s)))) = Some s'"
      using assms(2,4) by (cases "s_ck s") (simp_all only: ckpt_thread_work.simps insert_iff simp_thms)
    then show ?thesis using no that by (auto split: option.splits)
  qed (use that in blast)
  then show ?thesis
  proof cases
    case own
    then show ?thesis
      using assms(2) inv by (auto simp: round_inv_def quiet_def)
  qed (use assms suspend_round exiting_round arrival_round release_round in blast)+
qed

section \<open>The theorem\<close>

text \<open>
  The start of a round: a request has come in, no thread is in the handler or about to enter it, every
  thread alive is in the list, and its state fits where it is.
\<close>

definition round_start :: "sys \<Rightarrow> bool" where
  "round_start s \<longleftrightarrow> s_ck s = K_PENDING \<and> quiet s \<and>
     (\<forall>a u. s_th s a = Some u \<longrightarrow>
        (\<not> dead u \<longrightarrow> a \<in> set (s_list s)) \<and> (ti_joined u \<longrightarrow> dead u) \<and>
        ti_state u \<notin> {ST_SUSPINPROG, ST_SUSPENDED} \<and>
        (u_pc u \<in> {U_UNSAFE} \<union> range U_CREATE \<union> range U_JOIN \<longrightarrow> ti_state u = ST_UNSAFE))"

text \<open>Steps of one round: the checkpoint thread does not take up another request.\<close>

inductive round_step :: "sys \<Rightarrow> sys \<Rightarrow> bool" where
  round_step: "\<not> s_abort s \<Longrightarrow> sched_act e s = Some s' \<Longrightarrow> e = A_Ckpt \<longrightarrow> s_ck s \<noteq> K_WAIT_REQUEST \<Longrightarrow> round_step s s'"

inductive_cases round_stepE: "round_step s s'"

lemma round_inv_start:
  assumes "round_start s"
  shows "round_inv s"
proof -
  have "thread_ok (s_state s) u" if "s_th s a = Some u" for a u
    using assms that unfolding round_start_def quiet_def thread_ok_def by auto
  moreover have "cover (set (s_list s)) False s"
    using assms by (auto simp: round_start_def cover_def)
  ultimately show ?thesis
    using assms by (simp add: round_inv_def threads_ok_def round_start_def)
qed

lemma round_step_inv:
  assumes "round_step s s'" and "round_inv s" and "\<not> s_abort s'"
  shows "round_inv s'"
  using assms
proof cases
  case (round_step e)
  then show ?thesis
    using assms(2,3) round_inv_ckpt [OF assms(2)] round_inv_user [OF assms(2)] by (cases "e = A_Ckpt") auto
qed

lemma round_steps_inv:
  assumes "round_step\<^sup>*\<^sup>* s s'" and "round_inv s" and "\<not> s_abort s'"
  shows "round_inv s'"
  using assms
proof (induction rule: rtranclp_induct)
  case (step t t')
  moreover have "\<not> s_abort t" using step(2) by (auto elim: round_stepE)
  ultimately show ?case using round_step_inv by blast
qed

end
