(* ===== verification/Thread_Live.thy ===== *)
theory Thread_Live
  imports Thread_Safety
begin

text \<open>
  The barrier is always passed. From the restart of the threads, or from the end of a suspension
  that counted every thread, the checkpoint thread and the threads in the barrier can always go on
  until every thread has left it, and they take a bounded number of steps. The bound is a rank that
  every step decreases; wake-ups without a signal are not steps here.
\<close>

section \<open>Frames\<close>

definition fr :: "sys \<Rightarrow> nat \<Rightarrow> hpc option" where
  "fr s a = (case s_th s a of None \<Rightarrow> None | Some u \<Rightarrow> u_frame u)"

fun bar :: "hpc \<Rightarrow> bpc option" where
  "bar (H_BARRIER b) = Some b"
| "bar (R_BARRIER b) = Some b"
| "bar _ = None"

datatype phase = Before | Within | After

fun phase_of :: "kpc \<Rightarrow> phase" where
  "phase_of K_WAIT_REQUEST = After"
| "phase_of K_RESTORE = Before"
| "phase_of K_RESTORE_LIST = Before"
| "phase_of (K_RESTORING ts) = Before"
| "phase_of K_RESTORE_END = Before"
| "phase_of (K_ARRIVE_LOCK r) = Before"
| "phase_of _ = Within"

text \<open>Not yet counted as arrived.\<close>

fun pre :: "hpc \<Rightarrow> bool" where
  "pre H_SAVE = True"
| "pre H_SUSPEND = True"
| "pre R_START = True"
| "pre (H_BARRIER b) = (b \<in> {B_LOCK, B_TEST_SUSP, B_WAIT_SUSP, B_WOKEN_SUSP, B_ARRIVE})"
| "pre (R_BARRIER b) = (b \<in> {B_LOCK, B_TEST_SUSP, B_WAIT_SUSP, B_WOKEN_SUSP, B_ARRIVE})"
| "pre _ = False"

fun ok_bar :: "phase \<Rightarrow> xnd_state \<Rightarrow> bpc \<Rightarrow> bool" where
  "ok_bar After st b = (b \<in> {B_TEST_CKPT, B_WOKEN_CKPT, B_UNLOCK})"
| "ok_bar ph st b =
     (if st = XND_SUSPINPROG then b \<in> {B_LOCK, B_TEST_SUSP, B_WAIT_SUSP, B_WOKEN_SUSP}
      else b \<in> {B_LOCK, B_TEST_SUSP, B_WOKEN_SUSP, B_ARRIVE, B_TEST_CKPT, B_WAIT_CKPT, B_WOKEN_CKPT})"

fun ok_frame :: "phase \<Rightarrow> xnd_state \<Rightarrow> hpc \<Rightarrow> bool" where
  "ok_frame ph st (H_BARRIER b) = ok_bar ph st b"
| "ok_frame ph st (R_BARRIER b) = ok_bar ph st b"
| "ok_frame ph st H_SAVE = (ph \<noteq> After)"
| "ok_frame ph st H_SUSPEND = (ph \<noteq> After)"
| "ok_frame ph st R_START = (ph \<noteq> After)"
| "ok_frame ph st H_RESUME = (ph = After)"
| "ok_frame ph st R_CONTEXT = (ph = After)"
| "ok_frame ph st H_ENTER = False"

fun holds :: "hpc option \<Rightarrow> bool" where
  "holds (Some (H_BARRIER b)) = (b \<in> {B_TEST_SUSP, B_ARRIVE, B_TEST_CKPT, B_UNLOCK})"
| "holds (Some (R_BARRIER b)) = (b \<in> {B_TEST_SUSP, B_ARRIVE, B_TEST_CKPT, B_UNLOCK})"
| "holds _ = False"

section \<open>The rank\<close>

fun bar_rank :: "phase \<Rightarrow> bpc \<Rightarrow> nat" where
  "bar_rank Before b =
     (case b of B_LOCK \<Rightarrow> 50 | B_WOKEN_SUSP \<Rightarrow> 50 | B_TEST_SUSP \<Rightarrow> 48 | B_WAIT_SUSP \<Rightarrow> 40 | B_ARRIVE \<Rightarrow> 47
      | B_WOKEN_CKPT \<Rightarrow> 37 | B_TEST_CKPT \<Rightarrow> 36 | B_WAIT_CKPT \<Rightarrow> 30 | B_UNLOCK \<Rightarrow> 0)"
| "bar_rank Within b =
     (case b of B_LOCK \<Rightarrow> 25 | B_WOKEN_SUSP \<Rightarrow> 25 | B_TEST_SUSP \<Rightarrow> 24 | B_WAIT_SUSP \<Rightarrow> 0 | B_ARRIVE \<Rightarrow> 23
      | B_WOKEN_CKPT \<Rightarrow> 18 | B_TEST_CKPT \<Rightarrow> 17 | B_WAIT_CKPT \<Rightarrow> 16 | B_UNLOCK \<Rightarrow> 0)"
| "bar_rank After b = (case b of B_WOKEN_CKPT \<Rightarrow> 8 | B_TEST_CKPT \<Rightarrow> 7 | B_UNLOCK \<Rightarrow> 6 | _ \<Rightarrow> 0)"

fun rank :: "phase \<Rightarrow> hpc \<Rightarrow> nat" where
  "rank ph (H_BARRIER b) = bar_rank ph b"
| "rank ph (R_BARRIER b) = bar_rank ph b"
| "rank ph H_SAVE = (if ph = Before then 60 else 30)"
| "rank ph H_SUSPEND = (if ph = Before then 59 else 29)"
| "rank ph R_START = (if ph = Before then 59 else 29)"
| "rank ph H_RESUME = 5"
| "rank ph R_CONTEXT = 5"
| "rank ph H_ENTER = 0"

fun ck_rank :: "kpc \<Rightarrow> nat" where
  "ck_rank (K_ARRIVE_LOCK r) = 20"
| "ck_rank (K_ARRIVE_WOKEN r) = 18"
| "ck_rank (K_ARRIVE_TEST r) = 16"
| "ck_rank (K_ARRIVE_WAIT r) = 14"
| "ck_rank K_PRECHECKPOINT = 10"
| "ck_rank K_CHECKPOINT = 9"
| "ck_rank K_POSTCHECKPOINT = 8"
| "ck_rank K_FILTER = 8"
| "ck_rank K_RELEASE_LOCK = 7"
| "ck_rank K_RELEASE = 6"
| "ck_rank K_RESTORE_END = 21"
| "ck_rank (K_RESTORING ts) = 22 + 100 * length ts"
| "ck_rank _ = 0"

definition framed :: "sys \<Rightarrow> nat set" where
  "framed s = {a. fr s a \<noteq> None}"

definition waiting :: "sys \<Rightarrow> nat set" where
  "waiting s = {a. \<exists>f. fr s a = Some f \<and> pre f}"

text \<open>
  Before the threads are created anew the rank counts what it takes to do so.
\<close>

definition sys_rank :: "sys \<Rightarrow> nat" where
  "sys_rank s =
     (case s_ck s of
        K_RESTORE \<Rightarrow> 24 + 100 * length (s_list s)
      | K_RESTORE_LIST \<Rightarrow> 23 + 100 * length (s_list s)
      | k \<Rightarrow> ck_rank k) + (\<Sum>a \<in> framed s. rank (phase_of (s_ck s)) (the (fr s a)))"

section \<open>The invariant\<close>

fun ck_holds :: "kpc \<Rightarrow> bool" where
  "ck_holds (K_ARRIVE_TEST r) = True"
| "ck_holds K_RELEASE = True"
| "ck_holds (K_RESTORING ts) = True"
| "ck_holds K_RESTORE_END = True"
| "ck_holds _ = False"

definition counted :: "sys \<Rightarrow> bool" where
  "counted s \<longleftrightarrow> s_expected s = s_arrived s + int (card (waiting s))"

definition restorable :: "nat list \<Rightarrow> sys \<Rightarrow> bool" where
  "restorable ts s \<longleftrightarrow> distinct ts \<and> (\<forall>a \<in> set ts. s_th s a \<noteq> None \<and> fr s a = None \<and> a \<notin> set (s_zombies s))"

fun live_ck :: "kpc \<Rightarrow> sys \<Rightarrow> bool" where
  "live_ck K_WAIT_REQUEST s = (s_state s = XND_RUNNING)"
| "live_ck K_RESTORE s = (s_state s = XND_CKPTINPROG \<and> s_lst s = None \<and> restorable (s_list s) s \<and> framed s = {})"
| "live_ck K_RESTORE_LIST s = (s_state s = XND_CKPTINPROG \<and> restorable (s_list s) s \<and> framed s = {})"
| "live_ck (K_RESTORING ts) s = (s_state s = XND_CKPTINPROG \<and> restorable ts s \<and> counted s)"
| "live_ck K_RESTORE_END s = (s_state s = XND_CKPTINPROG \<and> counted s)"
| "live_ck (K_ARRIVE_LOCK r) s = (s_state s = (if r then XND_CKPTINPROG else XND_SUSPINPROG) \<and> counted s)"
| "live_ck (K_ARRIVE_TEST r) s = (s_state s = XND_CKPTINPROG \<and> counted s)"
| "live_ck (K_ARRIVE_WAIT r) s = (s_state s = XND_CKPTINPROG \<and> counted s \<and> waiting s \<noteq> {})"
| "live_ck (K_ARRIVE_WOKEN r) s = (s_state s = XND_CKPTINPROG \<and> counted s)"
| "live_ck K_PRECHECKPOINT s = (s_state s = XND_CKPTINPROG \<and> waiting s = {})"
| "live_ck K_CHECKPOINT s = (s_state s = XND_CKPTINPROG \<and> waiting s = {})"
| "live_ck K_POSTCHECKPOINT s = (s_state s = XND_CKPTINPROG \<and> waiting s = {})"
| "live_ck K_FILTER s = (s_state s = XND_CKPTINPROG \<and> waiting s = {})"
| "live_ck K_RELEASE_LOCK s = (s_state s = XND_CKPTINPROG \<and> waiting s = {})"
| "live_ck K_RELEASE s = (s_state s = XND_CKPTINPROG \<and> waiting s = {})"
| "live_ck _ s = False"

fun handler_state :: "hpc option \<Rightarrow> thread_state \<Rightarrow> bool" where
  "handler_state (Some H_SAVE) st = (st = ST_SUSPINPROG)"
| "handler_state (Some H_SUSPEND) st = (st = ST_SUSPINPROG)"
| "handler_state (Some (H_BARRIER b)) st = (st = ST_SUSPENDED)"
| "handler_state (Some H_RESUME) st = (st = ST_SUSPENDED)"
| "handler_state _ st = True"

definition live_inv :: "sys \<Rightarrow> bool" where
  "live_inv s \<longleftrightarrow> \<not> s_abort s \<and> finite (framed s) \<and>
     (\<forall>a f. fr s a = Some f \<longrightarrow> ok_frame (phase_of (s_ck s)) (s_state s) f) \<and>
     (\<forall>a u. s_th s a = Some u \<longrightarrow> handler_state (u_frame u) (ti_state u)) \<and>
     (\<forall>a. holds (fr s a) \<longleftrightarrow> s_mtx s = Some (User a)) \<and>
     (s_mtx s = Some Ckpt \<longleftrightarrow> ck_holds (s_ck s)) \<and>
     (\<forall>z \<in> set (s_zombies s). fr s z = None) \<and>
     live_ck (s_ck s) s"

text \<open>A step of the checkpoint thread before it waits for the next request, or of a thread in a frame.\<close>

inductive barrier_step :: "sys \<Rightarrow> sys \<Rightarrow> bool" where
  ckpt: "s_ck s \<noteq> K_WAIT_REQUEST \<Longrightarrow> ckpt_thread_work (s_ck s) s = Some s' \<Longrightarrow> barrier_step s s'"
| thread: "s_th s a = Some u \<Longrightarrow> u_frame u \<noteq> None \<Longrightarrow> thread_act a u s = Some s' \<Longrightarrow> barrier_step s s'"

definition barrier_done :: "sys \<Rightarrow> bool" where
  "barrier_done s \<longleftrightarrow> s_ck s = K_WAIT_REQUEST \<and> s_state s = XND_RUNNING \<and> \<not> s_abort s \<and>
     (\<forall>a u. s_th s a = Some u \<longrightarrow> u_frame u = None)"

section \<open>Progress\<close>

lemma frE:
  assumes "fr s a = Some f"
  obtains u where "s_th s a = Some u" "u_frame u = Some f"
  using assms by (auto simp: fr_def split: option.splits)

text \<open>A thread whose next step does not need the mutex, or finds it free, can take that step.\<close>

lemma thread_can_step:
  assumes "live_inv s" and "fr s a = Some f"
    and "s_mtx s = None \<or> s_mtx s = Some (User a) \<or> f \<in> {H_SAVE, H_SUSPEND, H_RESUME, R_START, R_CONTEXT}"
    and "bar f \<noteq> Some B_WAIT_SUSP" and "bar f \<noteq> Some B_WAIT_CKPT"
  shows "\<exists>s'. barrier_step s s'"
proof -
  obtain u where u: "s_th s a = Some u" "u_frame u = Some f"
    using assms(2) by (rule frE)
  have ok: "ok_frame (phase_of (s_ck s)) (s_state s) f" and h: "holds (Some f) \<longleftrightarrow> s_mtx s = Some (User a)"
    using assms(1,2) by (auto simp: live_inv_def dest!: spec [of _ a])
  have "\<exists>s'. thread_act a u s = Some s'"
  proof (cases f)
    case (H_BARRIER b)
    then show ?thesis
      using assms(3-5) h u by (cases b) (auto simp: thread_act_def Let_def)
  next
    case (R_BARRIER b)
    then show ?thesis
      using assms(3-5) h u by (cases b) (auto simp: thread_act_def Let_def)
  qed (use u ok in \<open>auto simp: thread_act_def\<close>)
  then show ?thesis using u by (auto intro: barrier_step.thread)
qed

lemma live_progress:
  assumes "live_inv s" and "\<not> barrier_done s"
  shows "\<exists>s'. barrier_step s s'"
proof -
  have inv: "\<And>a f. fr s a = Some f \<Longrightarrow> ok_frame (phase_of (s_ck s)) (s_state s) f"
    "\<And>a. holds (fr s a) \<longleftrightarrow> s_mtx s = Some (User a)" "s_mtx s = Some Ckpt \<longleftrightarrow> ck_holds (s_ck s)"
    "live_ck (s_ck s) s" "\<not> s_abort s"
    using assms(1) by (auto simp: live_inv_def)
  have ckpt: ?thesis if "ckpt_thread_work (s_ck s) s = Some s'" "s_ck s \<noteq> K_WAIT_REQUEST" for s'
    using that barrier_step.ckpt by blast
  show ?thesis
  proof (cases "s_mtx s")
    case (Some o')
    show ?thesis
    proof (cases o')
      case Ckpt
      then have holds: "ck_holds (s_ck s)" using Some inv(3) by simp
      show ?thesis
      proof (cases "s_ck s")
        case (K_RESTORING ts)
        then show ?thesis using ckpt by (cases ts) auto
      qed (use holds ckpt in auto)
    next
      case (User a)
      then have "holds (fr s a)" using inv(2) Some by blast
      then obtain f where "fr s a = Some f" "holds (Some f)" by (cases "fr s a") auto
      then show ?thesis
        using thread_can_step [OF assms(1), of a f] Some User by (cases f) auto
    qed
  next
    case None
    show ?thesis
    proof (cases "\<exists>r. s_ck s = K_ARRIVE_WAIT r")
      case True
      then obtain a f where a: "fr s a = Some f" "pre f" "s_state s = XND_CKPTINPROG" "phase_of (s_ck s) = Within"
        using inv(4) by (auto simp: waiting_def)
      then have "bar f \<noteq> Some B_WAIT_SUSP" "bar f \<noteq> Some B_WAIT_CKPT"
        using inv(1) [OF a(1)] by (cases f; auto)+
      then show ?thesis using thread_can_step [OF assms(1) a(1)] None by blast
    next
      case False
      show ?thesis
      proof (cases "s_ck s = K_WAIT_REQUEST")
        case True
        then obtain a u where u: "s_th s a = Some u" "u_frame u \<noteq> None"
          using assms(2) inv(4,5) by (auto simp: barrier_done_def)
        then obtain f where f: "fr s a = Some f" by (auto simp: fr_def)
        then have "bar f \<noteq> Some B_WAIT_SUSP" "bar f \<noteq> Some B_WAIT_CKPT"
          using inv(1) [OF f] True by (cases f; auto)+
        then show ?thesis using thread_can_step [OF assms(1) f] None by blast
      next
        case other: False
        then show ?thesis
          using None False inv(3,4) ckpt by (cases "s_ck s") auto
      qed
    qed
  qed
qed

section \<open>Steps of threads\<close>

lemma fr_upd: "fr (upd a g s) b = (if b = a \<and> s_th s a \<noteq> None then u_frame (g (the (s_th s a))) else fr s b)"
  by (auto simp: fr_def)

text \<open>
  The effect of a step of the thread at \<open>a\<close> on the frames and on the shared data, as the
  invariant sees it.
\<close>

definition moves :: "sys \<Rightarrow> nat \<Rightarrow> hpc option \<Rightarrow> sys \<Rightarrow> bool" where
  "moves s a g s' \<longleftrightarrow>
     (\<forall>b. fr s' b = (if b = a then g else fr s b)) \<and> s_state s' = s_state s \<and> s_zombies s' = s_zombies s \<and>
     s_list s' = s_list s \<and> s_lst s' = s_lst s \<and> s_expected s' = s_expected s \<and> \<not> s_abort s' \<and>
     (\<forall>b. s_th s' b = None \<longleftrightarrow> s_th s b = None) \<and>
     (\<forall>b u. s_th s' b = Some u \<longrightarrow> handler_state (u_frame u) (ti_state u))"

lemma sum_move:
  assumes "finite (framed s)" and "fr s a = Some f" and "\<forall>b. fr s' b = (if b = a then g else fr s b)"
  shows "(\<Sum>b \<in> framed s. rank ph (the (fr s b))) =
           (\<Sum>b \<in> framed s - {a}. rank ph (the (fr s b))) + rank ph f"
    and "(\<Sum>b \<in> framed s'. rank ph (the (fr s' b))) =
           (\<Sum>b \<in> framed s - {a}. rank ph (the (fr s b))) + (case g of None \<Rightarrow> 0 | Some f' \<Rightarrow> rank ph f')"
    and "finite (framed s')"
proof -
  have a: "a \<in> framed s" using assms(2) by (simp add: framed_def)
  show "(\<Sum>b \<in> framed s. rank ph (the (fr s b))) = (\<Sum>b \<in> framed s - {a}. rank ph (the (fr s b))) + rank ph f"
    using sum.remove [OF assms(1) a, of "\<lambda>b. rank ph (the (fr s b))"] assms(2) by simp
  have fs: "framed s' = (if g = None then framed s - {a} else insert a (framed s - {a}))"
    using assms(3) by (auto simp: framed_def)
  have rest: "(\<Sum>b \<in> framed s - {a}. rank ph (the (fr s' b))) = (\<Sum>b \<in> framed s - {a}. rank ph (the (fr s b)))"
    using assms(3) by (intro sum.cong) auto
  show "(\<Sum>b \<in> framed s'. rank ph (the (fr s' b))) =
           (\<Sum>b \<in> framed s - {a}. rank ph (the (fr s b))) + (case g of None \<Rightarrow> 0 | Some f' \<Rightarrow> rank ph f')"
  proof (cases g)
    case None
    then show ?thesis using rest fs by simp
  next
    case (Some f')
    then have "(\<Sum>b \<in> framed s'. rank ph (the (fr s' b))) = (\<Sum>b \<in> insert a (framed s - {a}). rank ph (the (fr s' b)))"
      using fs by simp
    also have "\<dots> = rank ph (the (fr s' a)) + (\<Sum>b \<in> framed s - {a}. rank ph (the (fr s' b)))"
      by (rule sum.insert) (use assms(1) in auto)
    finally show ?thesis using rest assms(3) Some by simp
  qed
  show "finite (framed s')" using assms(1) fs by simp
qed

lemma card_waiting_move:
  assumes "finite (framed s)" and "fr s a = Some f" and "\<forall>b. fr s' b = (if b = a then g else fr s b)"
  shows "waiting s' = (if (case g of None \<Rightarrow> False | Some f' \<Rightarrow> pre f') then insert a (waiting s) else waiting s - {a})"
    and "finite (waiting s)" and "a \<in> waiting s \<longleftrightarrow> pre f"
proof -
  show "waiting s' = (if (case g of None \<Rightarrow> False | Some f' \<Rightarrow> pre f') then insert a (waiting s) else waiting s - {a})"
    using assms(3) by (auto simp: waiting_def split: option.splits)
  have "waiting s \<subseteq> framed s" by (auto simp: waiting_def framed_def)
  then show "finite (waiting s)" using assms(1) finite_subset by blast
  show "a \<in> waiting s \<longleftrightarrow> pre f" using assms(2) by (simp add: waiting_def)
qed

lemma thread_step_inv:
  assumes inv: "live_inv s" and f: "fr s a = Some f" and m: "moves s a g s'"
    and mtx: "\<And>b. holds (fr s' b) \<longleftrightarrow> s_mtx s' = Some (User b)" "s_mtx s' = Some Ckpt \<longleftrightarrow> s_mtx s = Some Ckpt"
    and ok: "\<And>h. g = Some h \<Longrightarrow> ok_frame (phase_of (s_ck s)) (s_state s) h"
    and pre: "\<And>h. g = Some h \<Longrightarrow> pre h \<Longrightarrow> pre f"
    and arrived: "s_arrived s' = s_arrived s + (if pre f \<and> (case g of None \<Rightarrow> True | Some h \<Rightarrow> \<not> pre h) then 1 else 0)"
    and ckeq: "s_ck s' = s_ck s \<and> (\<forall>r. s_ck s = K_ARRIVE_WAIT r \<longrightarrow> waiting s' \<noteq> {}) \<or>
      (\<exists>r. s_ck s = K_ARRIVE_WAIT r \<and> s_ck s' = K_ARRIVE_WOKEN r)"
    and less: "(case g of None \<Rightarrow> 0 | Some h \<Rightarrow> rank (phase_of (s_ck s)) h) + (if s_ck s' = s_ck s then 0 else 5)
      \<le> rank (phase_of (s_ck s)) f - 1" "0 < rank (phase_of (s_ck s)) f"
  shows "live_inv s' \<and> sys_rank s' < sys_rank s"
proof -
  have fin: "finite (framed s)" and lck: "live_ck (s_ck s) s" and zom: "\<forall>z \<in> set (s_zombies s). fr s z = None"
    and fok: "\<And>b h. fr s b = Some h \<Longrightarrow> ok_frame (phase_of (s_ck s)) (s_state s) h"
    and own: "s_mtx s = Some Ckpt \<longleftrightarrow> ck_holds (s_ck s)"
    using inv by (auto simp: live_inv_def)
  have fr': "\<forall>b. fr s' b = (if b = a then g else fr s b)" and st: "s_state s' = s_state s" "s_zombies s' = s_zombies s"
    "s_list s' = s_list s" "s_lst s' = s_lst s" "s_expected s' = s_expected s" "\<not> s_abort s'"
    and th: "\<forall>b. s_th s' b = None \<longleftrightarrow> s_th s b = None"
    and hs: "\<forall>b u. s_th s' b = Some u \<longrightarrow> handler_state (u_frame u) (ti_state u)"
    using m by (auto simp: moves_def)
  note w = card_waiting_move [OF fin f fr']
  have ph: "phase_of (s_ck s') = phase_of (s_ck s)" and hold': "ck_holds (s_ck s') = ck_holds (s_ck s)"
    using ckeq by auto
  have counted: "counted s'" if "counted s"
  proof (cases "(case g of None \<Rightarrow> False | Some h \<Rightarrow> pre h)")
    case True
    then have "pre f" using pre by (auto split: option.splits)
    then have "waiting s' = waiting s" using True w by (simp add: insert_absorb)
    then show ?thesis using that arrived True st by (auto simp: counted_def split: option.splits)
  next
    case False
    then have ws: "waiting s' = waiting s - {a}" using w(1) by simp
    show ?thesis
    proof (cases "pre f")
      case True
      then have "int (card (waiting s)) = int (card (waiting s')) + 1"
        using w(3) ws card.remove [OF w(2), of a] by simp
      then show ?thesis using that arrived False True st by (auto simp: counted_def split: option.splits)
    next
      case npre: False
      then have "waiting s' = waiting s" using w(3) ws by simp
      then show ?thesis using that arrived npre st by (auto simp: counted_def)
    qed
  qed
  have none: "waiting s' = {}" if "waiting s = {}"
    using that w pre by (auto split: option.splits if_splits)
  have rest: "restorable ts s'" if "restorable ts s" for ts
    using that f th fr' st by (auto simp: restorable_def)
  have some: "framed s \<noteq> {}" using f by (auto simp: framed_def)
  have "live_ck (s_ck s') s'"
    using ckeq
  proof
    assume "s_ck s' = s_ck s \<and> (\<forall>r. s_ck s = K_ARRIVE_WAIT r \<longrightarrow> waiting s' \<noteq> {})"
    then show ?thesis
      using lck counted none rest some st by (cases "s_ck s") auto
  next
    assume "\<exists>r. s_ck s = K_ARRIVE_WAIT r \<and> s_ck s' = K_ARRIVE_WOKEN r"
    then show ?thesis using lck counted st by auto
  qed
  moreover have "\<forall>b h. fr s' b = Some h \<longrightarrow> ok_frame (phase_of (s_ck s')) (s_state s') h"
    using fr' fok ok ph st by (auto split: if_splits)
  moreover have "\<forall>z \<in> set (s_zombies s'). fr s' z = None"
    using zom fr' f st by auto
  ultimately have "live_inv s'"
    using st hs mtx own hold' sum_move(3) [OF fin f fr'] by (simp add: live_inv_def)
  moreover have "sys_rank s' < sys_rank s"
  proof -
    have "ck_rank (s_ck s') \<le> ck_rank (s_ck s) + (if s_ck s' = s_ck s then 0 else 5)"
      using ckeq by auto
    moreover have "s_ck s \<noteq> K_RESTORE" "s_ck s \<noteq> K_RESTORE_LIST" using lck some by auto
    then have "sys_rank s = ck_rank (s_ck s) + (\<Sum>a \<in> framed s. rank (phase_of (s_ck s)) (the (fr s a)))"
      and "sys_rank s' = ck_rank (s_ck s') + (\<Sum>a \<in> framed s'. rank (phase_of (s_ck s)) (the (fr s' a)))"
      using ckeq ph by (auto simp: sys_rank_def split: kpc.splits)
    ultimately show ?thesis
      using less sum_move(1,2) [OF fin f fr', of "phase_of (s_ck s)"] by (simp split: if_splits) 
  qed
  ultimately show ?thesis by blast
qed

lemma moves_upd:
  assumes "live_inv s" and "s_th s a = Some u" and "s_th s1 = s_th s" and "s_state s1 = s_state s" and "s_zombies s1 = s_zombies s"
    and "s_list s1 = s_list s" and "s_lst s1 = s_lst s" and "s_expected s1 = s_expected s" and "s_abort s1 = s_abort s"
    and "handler_state (u_frame (g u)) (ti_state (g u))"
  shows "moves s a (u_frame (g u)) (upd a g s1)"
  using assms by (auto simp: moves_def fr_upd live_inv_def) (auto simp: fr_def)

lemma signal_arrived_mtx [simp]: "s_mtx (signal_arrived s) = s_mtx s"
  by (simp add: signal_arrived_def split: kpc.split)

lemma barrier_mtx:
  assumes "thread_barrier a b s = Some (b', s1)" and "b \<in> {B_TEST_SUSP, B_ARRIVE, B_TEST_CKPT, B_UNLOCK} \<longleftrightarrow> s_mtx s = Some (User a)"
  shows "c \<noteq> a \<Longrightarrow> s_mtx s1 = Some (User c) \<longleftrightarrow> s_mtx s = Some (User c)"
    and "s_mtx s1 = Some Ckpt \<longleftrightarrow> s_mtx s = Some Ckpt"
    and "s_mtx s1 = Some (User a) \<longleftrightarrow> (case b' of Some d \<Rightarrow> d \<in> {B_TEST_SUSP, B_ARRIVE, B_TEST_CKPT, B_UNLOCK} | None \<Rightarrow> False)"
  using assms by (cases b; auto simp: Let_def split: if_splits)+

text \<open>Both kinds of frame in the barrier at once.\<close>

lemma barrier_live:
  assumes inv: "live_inv s" and u: "s_th s a = Some u" "u_frame u = Some (w b)" and bar: "thread_barrier a b s = Some (b', s1)"
    and w: "w = H_BARRIER \<and> fin = H_RESUME \<or> w = R_BARRIER \<and> fin = R_CONTEXT"
    and s': "s' = upd a (\<lambda>u. u\<lparr> u_frame := Some (case b' of Some c \<Rightarrow> w c | None \<Rightarrow> fin) \<rparr>) s1"
  shows "live_inv s' \<and> sys_rank s' < sys_rank s"
proof -
  define g where "g = (case b' of Some c \<Rightarrow> w c | None \<Rightarrow> fin)"
  have f: "fr s a = Some (w b)" using u by (simp add: fr_def)
  have fok: "ok_frame (phase_of (s_ck s)) (s_state s) (w b)" and own: "\<And>c. holds (fr s c) \<longleftrightarrow> s_mtx s = Some (User c)"
    and lck: "live_ck (s_ck s) s" and fin: "finite (framed s)"
    using inv f by (auto simp: live_inv_def)
  have hs: "handler_state (Some (w b)) (ti_state u)"
    using inv u unfolding live_inv_def by metis
  have hs': "handler_state (Some g) (ti_state u)" using hs w by (auto simp: g_def split: option.split)
  have s1: "s_th s1 = s_th s" "s_state s1 = s_state s" "s_zombies s1 = s_zombies s" "s_list s1 = s_list s"
    "s_lst s1 = s_lst s" "s_expected s1 = s_expected s" "s_abort s1 = s_abort s"
    using bar by (cases b; auto simp: Let_def signal_arrived_def split: if_splits kpc.splits)+
  have m: "moves s a (Some g) s'"
    using moves_upd [OF inv u(1) s1, of "\<lambda>u. u\<lparr> u_frame := Some g \<rparr>"] hs' s' by (simp add: g_def)
  then have fr': "\<forall>c. fr s' c = (if c = a then Some g else fr s c)" by (simp add: moves_def)
  have "holds (Some (w b)) \<longleftrightarrow> s_mtx s = Some (User a)" using own [of a] f by simp
  then have me': "b \<in> {B_TEST_SUSP, B_ARRIVE, B_TEST_CKPT, B_UNLOCK} \<longleftrightarrow> s_mtx s = Some (User a)" using w by auto
  have ph: "phase_of (s_ck s) = After \<Longrightarrow> s_state s = XND_RUNNING"
    "phase_of (s_ck s) = Within \<Longrightarrow> s_state s = XND_CKPTINPROG"
    "phase_of (s_ck s) = Before \<Longrightarrow> s_state s = XND_CKPTINPROG \<or> s_state s = XND_SUSPINPROG"
    using lck by (cases "s_ck s"; auto split: if_splits)+
  have wmtx: "s_mtx s' = s_mtx s1" "s_arrived s' = s_arrived s1" "s_ck s' = s_ck s1" using s' by simp_all
  note wait = card_waiting_move [OF fin f fr']
  have stay: "s_ck s = K_ARRIVE_WAIT r \<Longrightarrow> waiting s' \<noteq> {}" if "pre (w b) \<Longrightarrow> pre g" for r
  proof -
    assume ckw: "s_ck s = K_ARRIVE_WAIT r"
    then have ne: "waiting s \<noteq> {}" using lck by simp
    show "waiting s' \<noteq> {}"
    proof (cases "pre g")
      case True
      then show ?thesis using wait(1) by simp
    next
      case False
      then have "a \<notin> waiting s" using that wait(3) by blast
      then show ?thesis using False ne wait(1) by simp
    qed
  qed
  show ?thesis
  proof (rule thread_step_inv [OF inv f m])
    show "holds (fr s' c) \<longleftrightarrow> s_mtx s' = Some (User c)" for c
    proof (cases "c = a")
      case True
      have "holds (Some g) \<longleftrightarrow> (case b' of Some d \<Rightarrow> d \<in> {B_TEST_SUSP, B_ARRIVE, B_TEST_CKPT, B_UNLOCK} | None \<Rightarrow> False)"
        using w by (auto simp: g_def split: option.split)
      then show ?thesis using True fr' wmtx(1) barrier_mtx(3) [OF bar me'] by simp
    next
      case False
      then show ?thesis using own [of c] fr' wmtx(1) barrier_mtx(1) [OF bar me'] by simp
    qed
    show "s_mtx s' = Some Ckpt \<longleftrightarrow> s_mtx s = Some Ckpt"
      using wmtx(1) barrier_mtx(2) [OF bar me'] by simp
    show "ok_frame (phase_of (s_ck s)) (s_state s) h" if "Some g = Some h" for h
      using bar w fok ph that
      by (cases b; cases "phase_of (s_ck s)") (auto simp: g_def Let_def split: if_splits)
    show "pre (w b)" if "Some g = Some h" "pre h" for h
      using bar w that by (cases b) (auto simp: g_def Let_def split: if_splits)
    show "s_arrived s' = s_arrived s + (if pre (w b) \<and> (case Some g of None \<Rightarrow> True | Some h \<Rightarrow> \<not> pre h) then 1 else 0)"
      using bar w wmtx by (cases b) (auto simp: g_def Let_def signal_arrived_def split: if_splits kpc.splits)
    show "s_ck s' = s_ck s \<and> (\<forall>r. s_ck s = K_ARRIVE_WAIT r \<longrightarrow> waiting s' \<noteq> {}) \<or>
        (\<exists>r. s_ck s = K_ARRIVE_WAIT r \<and> s_ck s' = K_ARRIVE_WOKEN r)"
    proof (cases "b = B_ARRIVE")
      case True
      then have g: "g = w B_TEST_CKPT" and s1': "s1 = (if s_arrived s + 1 = s_expected s
            then signal_arrived (s\<lparr> s_arrived := s_arrived s + 1 \<rparr>) else s\<lparr> s_arrived := s_arrived s + 1 \<rparr>)"
        using bar by (auto simp: g_def Let_def)
      have "waiting s' \<noteq> {}" if "s_ck s = K_ARRIVE_WAIT r" "s_arrived s + 1 \<noteq> s_expected s" for r
      proof
        assume "waiting s' = {}"
        moreover have "a \<in> waiting s" "waiting s' = waiting s - {a}"
          using wait(1,3) w True g by auto
        ultimately have "waiting s = {a}" by blast
        then have "card (waiting s) = 1" by simp
        then show False using lck that by (simp add: counted_def)
      qed
      then show ?thesis
        using wmtx(3) s1' by (auto simp: signal_arrived_def split: kpc.splits)
    next
      case False
      then have "pre (w b) \<Longrightarrow> pre g"
        using bar w by (cases b) (auto simp: g_def Let_def split: if_splits)
      moreover have "s_ck s' = s_ck s" using bar wmtx(3) False by (cases b) (auto split: if_splits)
      ultimately show ?thesis using stay by auto
    qed
    have "rank (phase_of (s_ck s)) g + (if b = B_ARRIVE then 5 else 0) < rank (phase_of (s_ck s)) (w b)"
      using bar w fok ph
      by (cases b; cases "phase_of (s_ck s)") (auto simp: g_def Let_def split: if_splits)
    moreover have "s_ck s' = s_ck s" if "b \<noteq> B_ARRIVE"
      using bar wmtx(3) that by (cases b) (auto split: if_splits)
    ultimately show "(case Some g of None \<Rightarrow> 0 | Some h \<Rightarrow> rank (phase_of (s_ck s)) h) + (if s_ck s' = s_ck s then 0 else 5)
        \<le> rank (phase_of (s_ck s)) (w b) - 1" and "0 < rank (phase_of (s_ck s)) (w b)"
      by (auto split: if_splits)
  qed
qed

text \<open>A step outside the barrier.\<close>

lemma plain_live:
  assumes inv: "live_inv s" and u: "s_th s a = Some u" "u_frame u = Some f"
    and "\<not> holds (Some f)" and "\<not> holds (u_frame (h u))"
    and "handler_state (u_frame (h u)) (ti_state (h u))"
    and "\<And>g. u_frame (h u) = Some g \<Longrightarrow> ok_frame (phase_of (s_ck s)) (s_state s) g"
    and "pre f \<longleftrightarrow> (\<exists>g. u_frame (h u) = Some g \<and> pre g)"
    and "(case u_frame (h u) of None \<Rightarrow> 0 | Some g \<Rightarrow> rank (phase_of (s_ck s)) g) < rank (phase_of (s_ck s)) f"
  shows "live_inv (upd a h s) \<and> sys_rank (upd a h s) < sys_rank s"
proof -
  have f: "fr s a = Some f" using u by (simp add: fr_def)
  have m: "moves s a (u_frame (h u)) (upd a h s)"
    by (rule moves_upd [OF inv u(1)]) (use assms(6) in simp_all)
  then have fr': "\<forall>c. fr (upd a h s) c = (if c = a then u_frame (h u) else fr s c)" by (simp add: moves_def)
  have fin: "finite (framed s)" and own: "\<And>c. holds (fr s c) \<longleftrightarrow> s_mtx s = Some (User c)" and lck: "live_ck (s_ck s) s"
    using inv by (auto simp: live_inv_def)
  note wait = card_waiting_move [OF fin f fr']
  have same: "waiting (upd a h s) = waiting s"
    using wait assms(8) by (cases "u_frame (h u)") auto
  show ?thesis
  proof (rule thread_step_inv [OF inv f m])
    show "holds (fr (upd a h s) c) \<longleftrightarrow> s_mtx (upd a h s) = Some (User c)" for c
      using own [of c] own [of a] f fr' assms(4,5) by (cases "c = a") auto
    show "s_arrived (upd a h s) = s_arrived s + (if pre f \<and> (case u_frame (h u) of None \<Rightarrow> True | Some h \<Rightarrow> \<not> pre h) then 1 else 0)"
      using assms(8) by (auto split: option.split)
    show "s_ck (upd a h s) = s_ck s \<and> (\<forall>r. s_ck s = K_ARRIVE_WAIT r \<longrightarrow> waiting (upd a h s) \<noteq> {}) \<or>
        (\<exists>r. s_ck s = K_ARRIVE_WAIT r \<and> s_ck (upd a h s) = K_ARRIVE_WOKEN r)"
      using lck same by auto
  qed (use assms in auto)
qed

lemma thread_live:
  assumes inv: "live_inv s" and u: "s_th s a = Some u" "u_frame u = Some f" and act: "thread_act a u s = Some s'"
  shows "live_inv s' \<and> sys_rank s' < sys_rank s"
proof -
  have "fr s a = Some f" using u by (simp add: fr_def)
  then have ok: "ok_frame (phase_of (s_ck s)) (s_state s) f" using inv by (auto simp: live_inv_def)
  have hs: "handler_state (Some f) (ti_state u)" using inv u unfolding live_inv_def by metis
  have lck: "live_ck (s_ck s) s" using inv by (simp add: live_inv_def)
  have ph: "phase_of (s_ck s) \<noteq> After \<Longrightarrow> ok_bar (phase_of (s_ck s)) (s_state s) B_LOCK"
    using lck by (cases "s_ck s") (auto split: if_splits)
  have low: "p \<noteq> After \<Longrightarrow> p \<noteq> Before \<Longrightarrow> bar_rank p B_LOCK < 29" for p
    by (cases p) auto
  show ?thesis
  proof (cases f)
    case (H_BARRIER b)
    then obtain b' s1 where "thread_barrier a b s = Some (b', s1)"
      and "s' = upd a (\<lambda>u. u\<lparr> u_frame := Some (case b' of Some c \<Rightarrow> H_BARRIER c | None \<Rightarrow> H_RESUME) \<rparr>) s1"
      using act u by (auto simp: thread_act_def split: option.splits)
    then show ?thesis using barrier_live [OF inv u(1)] u(2) H_BARRIER by blast
  next
    case (R_BARRIER b)
    then obtain b' s1 where "thread_barrier a b s = Some (b', s1)"
      and "s' = upd a (\<lambda>u. u\<lparr> u_frame := Some (case b' of Some c \<Rightarrow> R_BARRIER c | None \<Rightarrow> R_CONTEXT) \<rparr>) s1"
      using act u by (auto simp: thread_act_def split: option.splits)
    then show ?thesis using barrier_live [OF inv u(1)] u(2) R_BARRIER by blast
  next
    case H_ENTER
    then show ?thesis using ok by simp
  next
    case H_SAVE
    then have s': "s' = upd a (\<lambda>u. u\<lparr> u_frame := Some H_SUSPEND \<rparr>) s"
      using act u hs by (simp add: thread_act_def assert_cas_def)
    show ?thesis
      unfolding s' by (rule plain_live [OF inv u]) (use ok hs ph H_SAVE u in auto)
  next
    case H_SUSPEND
    then have s': "s' = upd a (\<lambda>u. u\<lparr> ti_state := ST_SUSPENDED, u_frame := Some (H_BARRIER B_LOCK) \<rparr>) s"
      using act u hs by (simp add: thread_act_def assert_cas_def)
    show ?thesis
      unfolding s' by (rule plain_live [OF inv u]) (use ok hs ph low H_SUSPEND u in auto)
  next
    case H_RESUME
    then have s': "s' = upd a (\<lambda>u. u\<lparr> ti_state := ST_RUNNING, u_frame := None \<rparr>) s"
      using act u hs by (simp add: thread_act_def assert_cas_def)
    show ?thesis
      unfolding s' by (rule plain_live [OF inv u]) (use ok hs ph H_RESUME u in auto)
  next
    case R_START
    then have s': "s' = upd a (\<lambda>u. u\<lparr> ti_self := a, ti_state := ST_RUNNING, u_frame := Some (R_BARRIER B_LOCK) \<rparr>) s"
      using act u hs by (simp add: thread_act_def assert_cas_def)
    show ?thesis
      unfolding s' by (rule plain_live [OF inv u]) (use ok hs ph low R_START u in auto)
  next
    case R_CONTEXT
    then have s': "s' = upd a (\<lambda>u. u\<lparr> u_frame := None \<rparr>) s"
      using act u hs by (simp add: thread_act_def assert_cas_def)
    show ?thesis
      unfolding s' by (rule plain_live [OF inv u]) (use ok hs ph R_CONTEXT u in auto)
  qed
qed

section \<open>Steps of the checkpoint thread\<close>

lemma zombie_filter_facts:
  assumes "\<forall>z \<in> set (s_zombies s). fr s z = None"
  shows "fr (zombie_list_filter s) = fr s" "s_abort (zombie_list_filter s) = s_abort s"
    "s_state (zombie_list_filter s) = s_state s" "s_ck (zombie_list_filter s) = s_ck s" "s_mtx (zombie_list_filter s) = s_mtx s"
    "s_expected (zombie_list_filter s) = s_expected s" "s_arrived (zombie_list_filter s) = s_arrived s"
    "s_list (zombie_list_filter s) = s_list s"
    "set (s_zombies (zombie_list_filter s)) \<subseteq> set (s_zombies s)"
    "s_th (zombie_list_filter s) a = Some u \<Longrightarrow> s_th s a = Some u"
proof -
  define one where "one = (\<lambda>a s. case s_th s a of None \<Rightarrow> s | Some u \<Rightarrow> if ti_joined u then zombie_list_remove a s else s)"
  have one: "fr (one z t) = fr t \<and> s_abort (one z t) = s_abort t \<and> s_state (one z t) = s_state t \<and> s_ck (one z t) = s_ck t \<and>
      s_mtx (one z t) = s_mtx t \<and> s_expected (one z t) = s_expected t \<and> s_arrived (one z t) = s_arrived t \<and>
      s_list (one z t) = s_list t \<and> set (s_zombies (one z t)) \<subseteq> set (s_zombies t) \<and>
      (\<forall>a u. s_th (one z t) a = Some u \<longrightarrow> s_th t a = Some u)" if "fr t z = None" for z t
  proof -
    have "fr (t\<lparr> s_zombies := zs, s_th := (s_th t)(z := None) \<rparr>) = fr t" for zs
      using that by (auto simp: fr_def fun_eq_iff split: option.splits)
    then show ?thesis
      using set_remove1_subset [of z "s_zombies t"]
      by (auto simp: one_def zombie_list_remove_def thread_reap_def split: option.split)
  qed
  have "fr (fold one zs t) = fr t \<and> s_abort (fold one zs t) = s_abort t \<and> s_state (fold one zs t) = s_state t \<and>
      s_ck (fold one zs t) = s_ck t \<and> s_mtx (fold one zs t) = s_mtx t \<and> s_expected (fold one zs t) = s_expected t \<and>
      s_arrived (fold one zs t) = s_arrived t \<and> s_list (fold one zs t) = s_list t \<and>
      set (s_zombies (fold one zs t)) \<subseteq> set (s_zombies t) \<and>
      (\<forall>a u. s_th (fold one zs t) a = Some u \<longrightarrow> s_th t a = Some u)" if "\<forall>z \<in> set zs. fr t z = None" for zs t
    using that
  proof (induction zs arbitrary: t)
    case (Cons z zs)
    have o1: "fr t z = None" using Cons.prems by simp
    have "\<forall>z' \<in> set zs. fr (one z t) z' = None" using Cons.prems one [OF o1] by simp
    then show ?case using Cons.IH [of "one z t"] one [OF o1] by (simp; blast)
  qed simp
  from this [OF assms] show "fr (zombie_list_filter s) = fr s" "s_abort (zombie_list_filter s) = s_abort s"
    "s_state (zombie_list_filter s) = s_state s" "s_ck (zombie_list_filter s) = s_ck s" "s_mtx (zombie_list_filter s) = s_mtx s"
    "s_expected (zombie_list_filter s) = s_expected s" "s_arrived (zombie_list_filter s) = s_arrived s"
    "s_list (zombie_list_filter s) = s_list s"
    "set (s_zombies (zombie_list_filter s)) \<subseteq> set (s_zombies s)"
    "s_th (zombie_list_filter s) a = Some u \<Longrightarrow> s_th s a = Some u"
    by (simp_all add: zombie_list_filter_def one_def)
qed

text \<open>A step that leaves all frames as they are.\<close>

lemma still_live:
  assumes inv: "live_inv s" and "fr s' = fr s" and "s_state s' = s_state s" and "\<not> s_abort s'"
    and "set (s_zombies s') \<subseteq> set (s_zombies s)" and "\<And>a u. s_th s' a = Some u \<Longrightarrow> s_th s a = Some u"
    and "phase_of (s_ck s') = phase_of (s_ck s)" and "s_mtx s' = s_mtx s \<or> s_mtx s' \<in> {None, Some Ckpt} \<and> s_mtx s \<in> {None, Some Ckpt}"
    and "s_mtx s' = Some Ckpt \<longleftrightarrow> ck_holds (s_ck s')" and "live_ck (s_ck s') s'"
  shows "live_inv s'" and "(\<Sum>a \<in> framed s'. rank (phase_of (s_ck s')) (the (fr s' a))) =
    (\<Sum>a \<in> framed s. rank (phase_of (s_ck s)) (the (fr s a)))"
proof -
  have h: "\<forall>a u. s_th s a = Some u \<longrightarrow> handler_state (u_frame u) (ti_state u)"
    and own: "\<forall>a. holds (fr s a) \<longleftrightarrow> s_mtx s = Some (User a)"
    and rest: "finite (framed s)" "\<forall>z \<in> set (s_zombies s). fr s z = None"
      "\<forall>a f. fr s a = Some f \<longrightarrow> ok_frame (phase_of (s_ck s)) (s_state s) f"
    using inv by (simp_all add: live_inv_def)
  have "\<forall>a u. s_th s' a = Some u \<longrightarrow> handler_state (u_frame u) (ti_state u)"
  proof (intro allI impI)
    fix a u
    assume "s_th s' a = Some u"
    then have "s_th s a = Some u" by (rule assms(6))
    then show "handler_state (u_frame u) (ti_state u)" using h by simp
  qed
  moreover have "\<forall>a. holds (fr s' a) \<longleftrightarrow> s_mtx s' = Some (User a)"
  proof
    fix a
    have "s_mtx s' = Some (User a) \<longleftrightarrow> s_mtx s = Some (User a)"
      using assms(8) by (elim disjE) auto
    then show "holds (fr s' a) \<longleftrightarrow> s_mtx s' = Some (User a)"
      using own unfolding assms(2) by simp
  qed
  moreover have "framed s' = framed s" using assms(2) by (simp add: framed_def)
  moreover have "\<forall>z \<in> set (s_zombies s'). fr s' z = None" using rest(2) assms(2,5) by auto
  ultimately show "live_inv s'"
    using rest assms(2,3,4,7,9,10) by (simp add: live_inv_def)
  show "(\<Sum>a \<in> framed s'. rank (phase_of (s_ck s')) (the (fr s' a))) =
    (\<Sum>a \<in> framed s. rank (phase_of (s_ck s)) (the (fr s a)))"
    using assms(2,7) by (simp add: framed_def)
qed

lemma waiting_cong: "fr s' = fr s \<Longrightarrow> waiting s' = waiting s" "fr s' = fr s \<Longrightarrow> framed s' = framed s"
  by (simp_all add: waiting_def framed_def)

lemma fr_fields [simp]:
  "fr (s\<lparr> s_ck := k \<rparr>) = fr s" "fr (s\<lparr> s_mtx := m \<rparr>) = fr s" "fr (s\<lparr> s_lst := m \<rparr>) = fr s" "fr (s\<lparr> s_state := x \<rparr>) = fr s"
  "fr (s\<lparr> s_expected := i \<rparr>) = fr s" "fr (s\<lparr> s_arrived := i \<rparr>) = fr s"
  by (auto simp: fr_def fun_eq_iff)

lemma waiting_fields [simp]:
  "waiting (s\<lparr> s_ck := k \<rparr>) = waiting s" "waiting (s\<lparr> s_mtx := m \<rparr>) = waiting s" "waiting (s\<lparr> s_lst := m \<rparr>) = waiting s"
  "waiting (s\<lparr> s_state := x \<rparr>) = waiting s" "waiting (s\<lparr> s_expected := i \<rparr>) = waiting s" "waiting (s\<lparr> s_arrived := i \<rparr>) = waiting s"
  "framed (s\<lparr> s_ck := k \<rparr>) = framed s" "framed (s\<lparr> s_mtx := m \<rparr>) = framed s" "framed (s\<lparr> s_lst := m \<rparr>) = framed s"
  "framed (s\<lparr> s_state := x \<rparr>) = framed s" "framed (s\<lparr> s_expected := i \<rparr>) = framed s" "framed (s\<lparr> s_arrived := i \<rparr>) = framed s"
  by (simp_all add: waiting_def framed_def)

lemma fr_broadcast: "fr (broadcast s) a = map_option wake_h (fr s a)"
  by (simp add: fr_def broadcast_def split: option.split)

lemma pre_wake [simp]: "pre (wake_h f) = pre f"
  by (cases f) (auto elim: wake_b.elims)

lemma waiting_broadcast [simp]: "waiting (broadcast s) = waiting s" "framed (broadcast s) = framed s"
  by (auto simp: waiting_def framed_def fr_broadcast)

lemma counted_broadcast [simp]: "counted (broadcast s) = counted s"
  by (simp add: counted_def)

lemma holds_wake [simp]: "holds (map_option wake_h f) = holds f"
  by (cases f rule: holds.cases) (auto elim: wake_b.elims)

lemma handler_state_wake: "handler_state (map_option wake_h f) st = handler_state f st"
  by (cases f rule: holds.cases) auto

lemma wake_rank:
  assumes "ok_frame ph st f"
  shows "ph = Before \<Longrightarrow> rank Within (wake_h f) \<le> rank Before f"
    and "ph = Before \<Longrightarrow> ok_frame Within XND_CKPTINPROG (wake_h f)"
    and "ph = Within \<Longrightarrow> st = XND_CKPTINPROG \<Longrightarrow> \<not> pre f \<Longrightarrow> rank After (wake_h f) \<le> rank Within f"
    and "ph = Within \<Longrightarrow> st = XND_CKPTINPROG \<Longrightarrow> \<not> pre f \<Longrightarrow> ok_frame After XND_RUNNING (wake_h f)"
proof -
  have bar: "ok_bar Before st b \<Longrightarrow> bar_rank Within (wake_b b) \<le> bar_rank Before b"
    "ok_bar Before st b \<Longrightarrow> ok_bar Within XND_CKPTINPROG (wake_b b)"
    "ok_bar Within XND_CKPTINPROG b \<Longrightarrow> b \<in> {B_TEST_CKPT, B_WAIT_CKPT, B_WOKEN_CKPT} \<Longrightarrow> bar_rank After (wake_b b) \<le> bar_rank Within b" for b
    by (cases b; simp split: if_splits)+
  show "ph = Before \<Longrightarrow> rank Within (wake_h f) \<le> rank Before f"
    using assms bar(1) by (cases f) auto
  show "ph = Before \<Longrightarrow> ok_frame Within XND_CKPTINPROG (wake_h f)"
    using assms bar(2) by (cases f) (simp_all del: ok_bar.simps)
  show "ph = Within \<Longrightarrow> st = XND_CKPTINPROG \<Longrightarrow> \<not> pre f \<Longrightarrow> rank After (wake_h f) \<le> rank Within f"
    using assms by (cases f) auto
  show "ph = Within \<Longrightarrow> st = XND_CKPTINPROG \<Longrightarrow> \<not> pre f \<Longrightarrow> ok_frame After XND_RUNNING (wake_h f)"
    using assms by (cases f) auto
qed

lemma broadcast_rank:
  assumes "finite (framed s)" and "\<And>a f. fr s a = Some f \<Longrightarrow> rank ph' (wake_h f) \<le> rank ph f"
  shows "(\<Sum>a \<in> framed (broadcast s). rank ph' (the (fr (broadcast s) a))) \<le> (\<Sum>a \<in> framed s. rank ph (the (fr s a)))"
proof -
  have "rank ph' (the (fr (broadcast s) a)) \<le> rank ph (the (fr s a))" if "a \<in> framed s" for a
    using that assms(2) by (auto simp: framed_def fr_broadcast)
  then show ?thesis by (simp add: sum_mono)
qed

lemma still_rank:
  assumes "live_inv s" and "fr s' = fr s" and "s_state s' = s_state s" and "\<not> s_abort s'"
    and "set (s_zombies s') \<subseteq> set (s_zombies s)" and "\<And>a u. s_th s' a = Some u \<Longrightarrow> s_th s a = Some u"
    and "phase_of (s_ck s') = phase_of (s_ck s)" and "s_mtx s' = s_mtx s \<or> s_mtx s' \<in> {None, Some Ckpt} \<and> s_mtx s \<in> {None, Some Ckpt}"
    and "s_mtx s' = Some Ckpt \<longleftrightarrow> ck_holds (s_ck s')" and "live_ck (s_ck s') s'"
    and "s_ck s \<notin> {K_RESTORE, K_RESTORE_LIST}" and "s_ck s' \<notin> {K_RESTORE, K_RESTORE_LIST}" and "ck_rank (s_ck s') < ck_rank (s_ck s)"
  shows "live_inv s' \<and> sys_rank s' < sys_rank s"
proof -
  have "sys_rank t = ck_rank (s_ck t) + (\<Sum>a \<in> framed t. rank (phase_of (s_ck t)) (the (fr t a)))"
    if "s_ck t \<notin> {K_RESTORE, K_RESTORE_LIST}" for t
    using that by (simp add: sys_rank_def split: kpc.split)
  then show ?thesis
    using still_live [OF assms(1-10)] assms(11-13) by simp
qed

lemma empty_sum: "framed s = {} \<Longrightarrow> (\<Sum>a \<in> framed s. rank p (the (fr s a))) = 0"
  by simp

lemma waiting_framed: "framed s = {} \<Longrightarrow> waiting s = {}"
  by (auto simp: framed_def waiting_def)

lemma ckpt_live_restore:
  assumes inv: "live_inv s" and "restore_threads (s_ck s) s = Some s'"
  shows "live_inv s' \<and> sys_rank s' < sys_rank s"
proof -
  have lck: "live_ck (s_ck s) s" and own: "s_mtx s = Some Ckpt \<longleftrightarrow> ck_holds (s_ck s)" and ab: "\<not> s_abort s"
    and fin: "finite (framed s)" and zom: "\<forall>z \<in> set (s_zombies s). fr s z = None"
    and hold: "\<And>b. holds (fr s b) \<longleftrightarrow> s_mtx s = Some (User b)"
    using inv by (simp_all add: live_inv_def)
  show ?thesis
  proof (cases "s_ck s")
    case K_RESTORE
    then have s': "s' = s\<lparr> s_lst := Some Ckpt, s_ck := K_RESTORE_LIST \<rparr>"
      using assms(2) by (auto split: if_splits)
    have "live_inv s'"
      by (rule still_live(1) [OF inv]) (use s' lck own ab K_RESTORE in \<open>auto simp: restorable_def fr_def\<close>)
    then show ?thesis using s' K_RESTORE lck by (simp add: sys_rank_def)
  next
    case K_RESTORE_LIST
    then have s': "s' = s\<lparr> s_mtx := Some Ckpt, s_arrived := 0, s_expected := 0, s_ck := K_RESTORING (s_list s) \<rparr>"
      and mtx: "s_mtx s = None"
      using assms(2) by (auto split: if_splits)
    have "counted s'" using s' K_RESTORE_LIST lck waiting_framed [of s] by (simp add: counted_def)
    moreover have "restorable (s_list s) s'" using s' K_RESTORE_LIST lck by (auto simp: restorable_def fr_def)
    ultimately have "live_inv s'"
      by (intro still_live(1) [OF inv]) (use s' lck own ab K_RESTORE_LIST mtx in \<open>auto simp: fun_eq_iff fr_def\<close>)
    then show ?thesis using s' K_RESTORE_LIST lck by (simp add: sys_rank_def)
  next
    case (K_RESTORING ts)
    show ?thesis
    proof (cases ts)
      case Nil
      then have s': "s' = s\<lparr> s_lst := None, s_ck := K_RESTORE_END \<rparr>" using assms(2) K_RESTORING by simp
      show ?thesis
        by (rule still_rank [OF inv]) (use s' lck own ab K_RESTORING Nil in \<open>auto simp: counted_def\<close>)
    next
      case (Cons a us)
      have res: "restorable (a # us) s" and cnt: "counted s" and st: "s_state s = XND_CKPTINPROG"
        using lck K_RESTORING Cons by simp_all
      then obtain u where u: "s_th s a = Some u" and fa: "fr s a = None" by (auto simp: restorable_def)
      have s': "s' = upd a (\<lambda>u. u\<lparr> u_frame := Some R_START \<rparr>) (s\<lparr> s_expected := s_expected s + 1, s_ck := K_RESTORING us \<rparr>)"
        using assms(2) K_RESTORING Cons by simp
      have fr': "fr s' b = (if b = a then Some R_START else fr s b)" for b
        using s' u by (auto simp: fr_def)
      have fs: "framed s' = insert a (framed s)" "a \<notin> framed s" and ws: "waiting s' = insert a (waiting s)" "a \<notin> waiting s"
        using fa by (auto simp: framed_def waiting_def fr')
      have "waiting s \<subseteq> framed s" by (auto simp: waiting_def framed_def)
      then have finw: "finite (waiting s)" using fin finite_subset by blast
      have hst: "handler_state (u_frame v) (ti_state v)" if "s_th s' b = Some v" for b v
      proof (cases "b = a")
        case True
        then show ?thesis using that s' u by auto
      next
        case False
        then have "s_th s b = Some v" using that s' by simp
        then show ?thesis using inv by (simp add: live_inv_def)
      qed
      have "s_mtx s = Some Ckpt" using own K_RESTORING by simp
      then have "holds (fr s' b) \<longleftrightarrow> s_mtx s' = Some (User b)" for b
        using hold [of b] fr' s' by simp
      moreover have "counted s'"
        using cnt ws finw s' by (simp add: counted_def)
      moreover have "restorable us s'"
        using res s' fr' by (auto simp: restorable_def)
      moreover have "ok_frame Before XND_CKPTINPROG f" if "fr s b = Some f" for b f
        using inv that K_RESTORING st by (auto simp: live_inv_def)
      moreover have "a \<notin> set (s_zombies s)" using res by (simp add: restorable_def)
      ultimately have "live_inv s'"
        using own ab fin zom K_RESTORING st s' fr' fs(1) hst by (auto simp: live_inv_def)
      moreover have "(\<Sum>b \<in> framed s'. rank Before (the (fr s' b))) = 59 + (\<Sum>b \<in> framed s. rank Before (the (fr s b)))"
      proof -
        have "(\<Sum>b \<in> framed s. rank Before (the (fr s' b))) = (\<Sum>b \<in> framed s. rank Before (the (fr s b)))"
          using fs(2) fr' by (intro sum.cong) auto
        then show ?thesis using fs fin fr' by simp
      qed
      ultimately show ?thesis
        using K_RESTORING Cons s' by (simp add: sys_rank_def)
    qed
  next
    case K_RESTORE_END
    then have s': "s' = s\<lparr> s_mtx := None, s_ck := K_ARRIVE_LOCK True \<rparr>" using assms(2) by simp
    show ?thesis
      by (rule still_rank [OF inv]) (use s' lck own ab K_RESTORE_END in \<open>auto simp: counted_def\<close>)
  qed (use assms(2) in auto)
qed

lemma broadcast_live:
  assumes inv: "live_inv s" and ck: "ck_holds (s_ck t) \<longleftrightarrow> s_mtx t = Some Ckpt" "s_mtx t \<in> {None, Some Ckpt}" "s_mtx s \<in> {None, Some Ckpt}"
    and t: "s_th t = s_th s" "s_abort t = s_abort s" "s_zombies t = s_zombies s"
    and ok: "\<And>a f. fr s a = Some f \<Longrightarrow> ok_frame (phase_of (s_ck t)) (s_state t) (wake_h f)"
    and rank: "\<And>a f. fr s a = Some f \<Longrightarrow> rank (phase_of (s_ck t)) (wake_h f) \<le> rank (phase_of (s_ck s)) f"
    and live: "live_ck (s_ck t) (broadcast t)" and less: "ck_rank (s_ck t) < ck_rank (s_ck s)"
    and nr: "s_ck s \<notin> {K_RESTORE, K_RESTORE_LIST}" "s_ck t \<notin> {K_RESTORE, K_RESTORE_LIST}"
  shows "live_inv (broadcast t) \<and> sys_rank (broadcast t) < sys_rank s"
proof -
  have frt: "fr t = fr s" using t by (simp add: fr_def fun_eq_iff)
  have fin: "finite (framed s)" and ab: "\<not> s_abort s" and zom: "\<forall>z \<in> set (s_zombies s). fr s z = None"
    and hold: "\<forall>b. holds (fr s b) \<longleftrightarrow> s_mtx s = Some (User b)"
    and hs: "\<forall>a u. s_th s a = Some u \<longrightarrow> handler_state (u_frame u) (ti_state u)"
    using inv by (simp_all add: live_inv_def)
  have "s_zombies (broadcast t) = s_zombies s" using t by (simp add: broadcast_def)
  then have z: "\<forall>z \<in> set (s_zombies (broadcast t)). fr (broadcast t) z = None"
    using zom by (simp add: fr_broadcast frt)
  have h: "\<forall>b. holds (fr (broadcast t) b) \<longleftrightarrow> s_mtx (broadcast t) = Some (User b)"
  proof
    fix b
    have "s_mtx (broadcast t) \<noteq> Some (User b)" "s_mtx s \<noteq> Some (User b)" using ck(2,3) by auto
    then show "holds (fr (broadcast t) b) \<longleftrightarrow> s_mtx (broadcast t) = Some (User b)"
      using hold by (simp add: fr_broadcast frt)
  qed
  have st: "\<forall>a u. s_th (broadcast t) a = Some u \<longrightarrow> handler_state (u_frame u) (ti_state u)"
    using hs t by (auto simp: handler_state_wake)
  have o': "\<forall>a f. fr (broadcast t) a = Some f \<longrightarrow> ok_frame (phase_of (s_ck (broadcast t))) (s_state (broadcast t)) f"
    using ok by (auto simp: fr_broadcast frt)
  have fs: "framed t = framed s" by (simp add: framed_def frt)
  have "live_inv (broadcast t)"
    using ab fin t z h st o' ck live fs by (simp add: live_inv_def)
  moreover have "(\<Sum>a \<in> framed (broadcast t). rank (phase_of (s_ck t)) (the (fr (broadcast t) a)))
      \<le> (\<Sum>a \<in> framed s. rank (phase_of (s_ck s)) (the (fr s a)))"
    using broadcast_rank [of t "phase_of (s_ck t)" "phase_of (s_ck s)"] fin fs frt rank by simp
  moreover have "sys_rank x = ck_rank (s_ck x) + (\<Sum>a \<in> framed x. rank (phase_of (s_ck x)) (the (fr x a)))"
    if "s_ck x \<notin> {K_RESTORE, K_RESTORE_LIST}" for x
    using that by (simp add: sys_rank_def split: kpc.split)
  ultimately show ?thesis using nr less by simp
qed

lemma ckpt_live_barrier:
  assumes inv: "live_inv s" and "barrier_arrival_wait (s_ck s) s = Some s' \<or> barrier_release (s_ck s) s = Some s'"
  shows "live_inv s' \<and> sys_rank s' < sys_rank s"
proof -
  have lck: "live_ck (s_ck s) s" and own: "s_mtx s = Some Ckpt \<longleftrightarrow> ck_holds (s_ck s)" and ab: "\<not> s_abort s"
    and fok: "\<And>a f. fr s a = Some f \<Longrightarrow> ok_frame (phase_of (s_ck s)) (s_state s) f"
    and fin: "finite (framed s)"
    using inv by (simp_all add: live_inv_def)
  have "waiting s \<subseteq> framed s" by (auto simp: waiting_def framed_def)
  then have finw: "finite (waiting s)" using fin finite_subset by blast
  show ?thesis
  proof (cases "s_ck s")
    case (K_ARRIVE_LOCK r)
    define t where "t = s\<lparr> s_state := XND_CKPTINPROG, s_mtx := Some Ckpt, s_ck := K_ARRIVE_TEST r \<rparr>"
    have s': "s' = broadcast t" and mtx: "s_mtx s = None"
      using assms(2) K_ARRIVE_LOCK by (auto simp: t_def split: if_splits)
    show ?thesis
      unfolding s'
      by (rule broadcast_live [OF inv])
         (use K_ARRIVE_LOCK mtx lck wake_rank(1,2) [OF fok] in \<open>auto simp: t_def counted_def\<close>)
  next
    case (K_ARRIVE_TEST r)
    then have s': "s' = s\<lparr> s_mtx := None, s_ck := (if s_arrived s < s_expected s then K_ARRIVE_WAIT r
        else if r then K_FILTER else K_PRECHECKPOINT) \<rparr>"
      using assms(2) by auto
    have cnt: "counted s" and st: "s_state s = XND_CKPTINPROG" using lck K_ARRIVE_TEST by simp_all
    have "waiting s = {}" if "\<not> s_arrived s < s_expected s"
      using cnt that finw by (simp add: counted_def)
    moreover have "waiting s \<noteq> {}" if "s_arrived s < s_expected s"
      using cnt that by (auto simp: counted_def)
    ultimately show ?thesis
      by (intro still_rank [OF inv]) (use s' K_ARRIVE_TEST own ab cnt st in \<open>auto simp: counted_def\<close>)
  next
    case (K_ARRIVE_WOKEN r)
    then have s': "s' = s\<lparr> s_mtx := Some Ckpt, s_ck := K_ARRIVE_TEST r \<rparr>" and mtx: "s_mtx s = None"
      using assms(2) by (auto split: if_splits)
    show ?thesis
      by (rule still_rank [OF inv]) (use s' mtx lck own ab K_ARRIVE_WOKEN in \<open>auto simp: counted_def\<close>)
  next
    case K_RELEASE_LOCK
    then have s': "s' = s\<lparr> s_mtx := Some Ckpt, s_ck := K_RELEASE \<rparr>" and mtx: "s_mtx s = None"
      using assms(2) by (auto split: if_splits)
    show ?thesis
      by (rule still_rank [OF inv]) (use s' mtx lck own ab K_RELEASE_LOCK in auto)
  next
    case K_RELEASE
    define t where "t = s\<lparr> s_state := XND_RUNNING, s_mtx := None, s_ck := K_WAIT_REQUEST \<rparr>"
    have s': "s' = broadcast t" and mtx: "s_mtx s = Some Ckpt"
      using assms(2) K_RELEASE own by (auto simp: t_def)
    have np: "\<not> pre f" if "fr s a = Some f" for a f
      using lck K_RELEASE that by (auto simp: waiting_def)
    show ?thesis
      unfolding s'
      by (rule broadcast_live [OF inv])
         (use K_RELEASE mtx lck wake_rank(3,4) [OF fok] np in \<open>auto simp: t_def\<close>)
  qed (use assms(2) in auto)
qed

lemma ckpt_live:
  assumes inv: "live_inv s" and "s_ck s \<noteq> K_WAIT_REQUEST" and "ckpt_thread_work (s_ck s) s = Some s'"
  shows "live_inv s' \<and> sys_rank s' < sys_rank s"
proof -
  have lck: "live_ck (s_ck s) s" and own: "s_mtx s = Some Ckpt \<longleftrightarrow> ck_holds (s_ck s)" and ab: "\<not> s_abort s"
    and zom: "\<forall>z \<in> set (s_zombies s). fr s z = None"
    using inv by (simp_all add: live_inv_def)
  consider (own) "s_ck s \<in> {K_PRECHECKPOINT, K_CHECKPOINT, K_POSTCHECKPOINT}" | (filter) "s_ck s = K_FILTER"
    | (bar) "barrier_arrival_wait (s_ck s) s = Some s' \<or> barrier_release (s_ck s) s = Some s'"
    | (res) "restore_threads (s_ck s) s = Some s'"
    using assms(2,3) lck by (cases "s_ck s") (auto split: list.splits option.splits if_splits)
  then show ?thesis
  proof cases
    case step: own
    then obtain k where s': "s' = s\<lparr> s_ck := k \<rparr>" and k: "k \<in> {K_CHECKPOINT, K_POSTCHECKPOINT, K_RELEASE_LOCK}" "ck_rank k < ck_rank (s_ck s)"
      using assms(3) by auto
    have "live_ck k s'" "phase_of k = phase_of (s_ck s)" "\<not> ck_holds k" "\<not> ck_holds (s_ck s)"
      using lck step k s' by auto
    then show ?thesis
      using k own ab s' step by (intro still_rank [OF inv]) auto
  next
    case filter
    then have s': "s' = zombie_list_filter (s\<lparr> s_ck := K_RELEASE_LOCK \<rparr>)" using assms(3) by simp
    have z: "\<forall>z \<in> set (s_zombies (s\<lparr> s_ck := K_RELEASE_LOCK \<rparr>)). fr (s\<lparr> s_ck := K_RELEASE_LOCK \<rparr>) z = None"
      using zom by simp
    note f = zombie_filter_facts [OF z]
    have fr': "fr s' = fr s" using f(1) s' by simp
    have st: "s_state s' = s_state s" "s_ck s' = K_RELEASE_LOCK" "s_abort s' = s_abort s" "s_mtx s' = s_mtx s"
      "set (s_zombies s') \<subseteq> set (s_zombies s)"
      using f(2-5,9) s' by simp_all
    have live: "live_ck (s_ck s') s'"
      using lck filter st waiting_cong(1) [OF fr'] by simp
    have th: "s_th s a = Some u" if "s_th s' a = Some u" for a u
      using f(10) [of a u] that s' by simp
    show ?thesis
      by (rule still_rank [OF inv fr' st(1) _ st(5) th]) (use st own ab filter live in simp_all)
  next
    case bar
    then show ?thesis by (rule ckpt_live_barrier [OF inv])
  next
    case res
    then show ?thesis by (rule ckpt_live_restore [OF inv])
  qed
qed

lemma barrier_step_live:
  assumes "barrier_step s s'" and "live_inv s"
  shows "live_inv s' \<and> sys_rank s' < sys_rank s"
  using assms
proof cases
  case ckpt
  then show ?thesis using ckpt_live [OF assms(2)] by blast
next
  case (thread a u)
  then show ?thesis using thread_live [OF assms(2)] by (cases "u_frame u") auto
qed

lemma barrier_steps_live:
  assumes "(barrier_step ^^ n) s s'" and "live_inv s"
  shows "live_inv s' \<and> n + sys_rank s' \<le> sys_rank s"
  using assms
proof (induction n arbitrary: s')
  case (Suc n)
  then obtain t where "(barrier_step ^^ n) s t" "barrier_step t s'" by auto
  then show ?case
    using Suc.IH [of t] Suc.prems(2) barrier_step_live [of t s'] by auto
qed simp

end
