(* ===== verification/Thread_Props.thy ===== *)
theory Thread_Props
  imports Thread_Live
begin

text \<open>
  What the interleavings of \<^verbatim>\<open>thread_info.c\<close> guarantee and what they do not: all threads
  are in the handler while the image is written; the barrier of a restart is always passed; and
  three schedules the code does not survive, a thread counted in two barriers, a thread missed
  between two loads of its state, and a thread signalled while it exits.
\<close>

section \<open>Runs\<close>

text \<open>A thread that runs user code, and a process with such threads at the start of a round.\<close>

definition running :: "nat \<Rightarrow> uthread" where
  "running a = new_thread\<lparr> ti_self := a, ti_state := ST_RUNNING, u_pc := U_RUN \<rparr>"

definition start_sys :: "nat list \<Rightarrow> sys" where
  "start_sys as = \<lparr> s_state = XND_CKPT_PENDING, s_expected = 0, s_arrived = 0, s_list = as, s_zombies = [],
     s_th = (\<lambda>a. if List.member as a then Some (running a) else None), s_mtx = None, s_lst = None,
     s_ck = K_PENDING, s_abort = False \<rparr>"

lemma round_start_start_sys: "round_start (start_sys as)"
  by (auto simp: round_start_def start_sys_def quiet_def running_def new_thread_def split: if_splits)

text \<open>The schedules below, in pieces: the checkpoint thread goes on, a thread goes on.\<close>

abbreviation ck :: "nat \<Rightarrow> action list" where
  "ck n \<equiv> replicate n A_Ckpt"

abbreviation th :: "nat \<Rightarrow> nat \<Rightarrow> action list" where
  "th a n \<equiv> replicate n (A_Step a)"

text \<open>
  All threads are signalled and enter the handler, then wait in the barrier, and all are counted: up
  to the writing of the image.
\<close>

definition good_schedule :: "action list" where
  "good_schedule = ck 17 @ [A_Deliver 0, A_Deliver 1] @ th 0 5 @ th 1 5 @ ck 24 @ th 0 4 @ th 1 4 @ ck 3"

text \<open>
  The scan looks at the first thread, in \<^const>\<open>ST_SUSPINPROG\<close>, and asks first for
  \<^const>\<open>ST_SUSPENDED\<close>; the thread takes that state before the scan asks for the other.
\<close>

definition missed_schedule :: "action list" where
  "missed_schedule = ck 17 @ [A_Deliver 0, A_Deliver 1] @ th 0 1 @ th 1 1 @ ck 7 @ th 0 2 @ ck 22 @ th 0 4 @ ck 3"

text \<open>
  One thread, two checkpoints: the thread is woken by the release of the first, and does not get to
  take the mutex before the second one counts it.
\<close>

definition stale_schedule :: "action list" where
  "stale_schedule = ck 12 @ [A_Deliver 0] @ th 0 5 @ ck 16 @ th 0 4 @ ck 27"

text \<open>
  One thread exits while it is signalled: it takes its own lock, and the handler runs before it gives it
  back.
\<close>

definition exit_schedule :: "action list" where
  "exit_schedule = ck 9 @ [A_Exit 0] @ ck 3 @ th 0 1 @ [A_Deliver 0] @ th 0 5 @ ck 3"


text \<open>A schedule in which the checkpoint thread takes up no further request is one round.\<close>

fun round_run :: "action list \<Rightarrow> sys \<Rightarrow> sys option" where
  "round_run [] s = Some s"
| "round_run (e # es) s =
     (if s_abort s \<or> e = A_Ckpt \<and> s_ck s = K_WAIT_REQUEST then None
      else case sched_act e s of None \<Rightarrow> None | Some s' \<Rightarrow> round_run es s')"

lemma round_run_steps: "round_run es s = Some s' \<Longrightarrow> round_step\<^sup>*\<^sup>* s s'"
proof (induction es arbitrary: s)
  case (Cons e es)
  then obtain t where t: "\<not> s_abort s" "e = A_Ckpt \<longrightarrow> s_ck s \<noteq> K_WAIT_REQUEST" "sched_act e s = Some t" "round_run es t = Some s'"
    by (auto split: if_splits option.splits)
  then have "round_step s t" by (blast intro: round_step)
  then show ?case using Cons.IH [OF t(4)] by (rule converse_rtranclp_into_rtranclp)
qed simp

text \<open>A run of the barrier: no number is a step of the checkpoint thread, a number one of that thread.\<close>

fun barrier_run :: "nat option list \<Rightarrow> sys \<Rightarrow> sys option" where
  "barrier_run [] s = Some s"
| "barrier_run (None # es) s =
     (if s_ck s = K_WAIT_REQUEST then None
      else case ckpt_thread_work (s_ck s) s of None \<Rightarrow> None | Some s' \<Rightarrow> barrier_run es s')"
| "barrier_run (Some a # es) s =
     (case s_th s a of
        None \<Rightarrow> None
      | Some u \<Rightarrow> if u_frame u = None then None
                  else case thread_act a u s of None \<Rightarrow> None | Some s' \<Rightarrow> barrier_run es s')"

lemma barrier_run_steps: "barrier_run es s = Some s' \<Longrightarrow> (barrier_step ^^ length es) s s'"
proof (induction es s rule: barrier_run.induct)
  case (2 es s)
  then obtain t where "s_ck s \<noteq> K_WAIT_REQUEST" "ckpt_thread_work (s_ck s) s = Some t" "barrier_run es t = Some s'"
    by (auto split: if_splits option.splits)
  then show ?case
    unfolding length_Cons using 2(1) by (blast intro: relpowp_Suc_I2 barrier_step.ckpt)
next
  case (3 a es s)
  then obtain u t where "s_th s a = Some u" "u_frame u \<noteq> None" "thread_act a u s = Some t" "barrier_run es t = Some s'"
    by (auto split: if_splits option.splits)
  then show ?case
    unfolding length_Cons using 3(1) by (blast intro: relpowp_Suc_I2 barrier_step.thread)
qed simp

section \<open>All threads are suspended while the image is written\<close>

text \<open>
  C7: in a round that starts with every thread out of the signal handler, whatever the threads
  and the scheduler do (enter and leave wrappers, create, join, exit, be cancelled), when the checkpoint
  thread saves the state of the process, writes the image or waits for the coordinator afterwards, every
  thread that is alive is in the signal handler and has acknowledged the signal; none runs user code.
\<close>

theorem checkpoint_suspends_every_thread:
  assumes "round_start s" and "round_step\<^sup>*\<^sup>* s s'" and "\<not> s_abort s'"
    and "s_ck s' \<in> {K_PRECHECKPOINT, K_CHECKPOINT, K_POSTCHECKPOINT}"
    and "s_th s' a = Some u" and "\<not> dead u"
  shows "(\<exists>f. u_frame u = Some f \<and> held f) \<and> ti_state u \<in> {ST_SUSPINPROG, ST_SUSPENDED}"
proof -
  have inv: "round_inv s'"
    using round_steps_inv assms(1-3) round_inv_start by blast
  then have "cover {} True s'" "thread_ok (s_state s') u"
    using assms(4,5) by (auto simp: round_inv_def threads_ok_def)
  then have "suspended u" "frame_state (u_frame u) (ti_state u)"
    using assms(5,6) by (auto simp: cover_def embryo_def thread_ok_def)
  then show ?thesis
    by (cases "u_frame u") (auto simp: suspended_def elim!: held.elims)
qed

theorem checkpoint_suspends_every_thread_witness:
  "\<exists>s' u. round_run good_schedule (start_sys [0, 1]) = Some s' \<and> s_ck s' = K_CHECKPOINT \<and> s_th s' 1 = Some u \<and>
     (\<exists>f. u_frame u = Some f \<and> held f)"
proof -
  have "case round_run good_schedule (start_sys [0, 1]) of None \<Rightarrow> False
      | Some s' \<Rightarrow> s_ck s' = K_CHECKPOINT \<and> \<not> s_abort s' \<and>
          (case s_th s' 1 of None \<Rightarrow> False | Some u \<Rightarrow> u_pc u = U_RUN)"
    by code_simp
  then obtain s' u where s': "round_run good_schedule (start_sys [0, 1]) = Some s'" "s_ck s' = K_CHECKPOINT" "\<not> s_abort s'"
    and u: "s_th s' 1 = Some u" "\<not> dead u"
    by (auto split: option.splits simp: dead_def)
  then show ?thesis
    using checkpoint_suspends_every_thread [OF round_start_start_sys round_run_steps [OF s'(1)] s'(3) _ u] by auto
qed

section \<open>The barrier is always passed\<close>

text \<open>
  A process that a restart has put back, at the point where the checkpoint thread creates the threads:
  the state that was published when the image was written, no lock taken, and every thread of the list
  there to be created.
\<close>

definition restart_start :: "sys \<Rightarrow> bool" where
  "restart_start s \<longleftrightarrow> s_ck s = K_RESTORE \<and> s_state s = XND_CKPTINPROG \<and> s_mtx s = None \<and> s_lst s = None \<and>
     \<not> s_abort s \<and> distinct (s_list s) \<and>
     (\<forall>a \<in> set (s_list s). s_th s a \<noteq> None \<and> a \<notin> set (s_zombies s)) \<and>
     (\<forall>a u. s_th s a = Some u \<longrightarrow> u_frame u = None)"

lemma restart_start_live:
  assumes "restart_start s"
  shows "live_inv s" and "sys_rank s = 24 + 100 * length (s_list s)"
proof -
  have fr: "fr s a = None" for a
    using assms by (cases "s_th s a") (auto simp: restart_start_def fr_def)
  then have "framed s = {}" by (simp add: framed_def)
  then show "live_inv s" "sys_rank s = 24 + 100 * length (s_list s)"
    using assms fr by (auto simp: live_inv_def restart_start_def restorable_def sys_rank_def)
qed

text \<open>
  After a suspension that counted every thread in the handler. The schedule
  \<^const>\<open>missed_schedule\<close> shows that a suspension can end with one thread less.
\<close>

lemma counted_barrier_is_passed:
  assumes "live_inv s" and "s_ck s = K_ARRIVE_LOCK False" and "(barrier_step ^^ n) s s'"
  shows "n \<le> sys_rank s \<and> ((\<exists>t. barrier_step s' t) \<or> barrier_done s')"
  using barrier_steps_live [OF assms(3,1)] live_progress [of s'] by auto

text \<open>
  C8: after a restart, whatever the scheduler does, the checkpoint thread and the threads that it
  creates take at most \<open>24 + 100 * n\<close> steps in the barrier, for \<open>n\<close> threads, and as
  long as not all of them have left it, one of them can go on: nobody waits for ever. At the end the
  library is in \<open>XND_RUNNING\<close>, every thread has gone back to its own context, and no assertion
  has failed.
\<close>

theorem restart_lets_every_thread_go:
  assumes "restart_start s" and "(barrier_step ^^ n) s s'"
  shows "n \<le> 24 + 100 * length (s_list s) \<and> ((\<exists>t. barrier_step s' t) \<or> barrier_done s')"
  using barrier_steps_live [OF assms(2) restart_start_live(1) [OF assms(1)]] restart_start_live(2) [OF assms(1)]
    live_progress [of s'] by auto

definition restart_sys :: "nat list \<Rightarrow> sys" where
  "restart_sys as = (start_sys as)\<lparr> s_state := XND_CKPTINPROG, s_ck := K_RESTORE \<rparr>"

definition restart_schedule :: "nat option list" where
  "restart_schedule = replicate 6 None @ replicate 5 (Some 0) @ replicate 2 None @ replicate 5 (Some 1) @ replicate 5 None
     @ replicate 4 (Some 0) @ replicate 4 (Some 1)"

theorem restart_lets_every_thread_go_witness:
  "\<exists>s'. (barrier_step ^^ 31) (restart_sys [0, 1]) s' \<and> 31 \<le> 24 + 100 * length (s_list (restart_sys [0, 1])) \<and>
     s_ck s' = K_WAIT_REQUEST \<and> s_arrived s' = 2 \<and> ((\<exists>t. barrier_step s' t) \<or> barrier_done s')"
proof -
  have start: "restart_start (restart_sys [0, 1])"
    by (auto simp: restart_start_def restart_sys_def start_sys_def running_def new_thread_def split: if_splits)
  have "case barrier_run restart_schedule (restart_sys [0, 1]) of None \<Rightarrow> False
      | Some s' \<Rightarrow> s_ck s' = K_WAIT_REQUEST \<and> s_arrived s' = 2"
    by code_simp
  then obtain s' where s': "barrier_run restart_schedule (restart_sys [0, 1]) = Some s'" "s_ck s' = K_WAIT_REQUEST" "s_arrived s' = 2"
    by (auto split: option.splits)
  moreover have "length restart_schedule = 31" by (simp add: restart_schedule_def)
  ultimately have "(barrier_step ^^ 31) (restart_sys [0, 1]) s'"
    using barrier_run_steps by metis
  then show ?thesis
    using restart_lets_every_thread_go [OF start] s' by blast
qed

section \<open>Schedules the code does not survive\<close>

text \<open>
  C28: the scan loads the state of a thread once for every comparison. In the schedule below a thread
  goes from \<^const>\<open>ST_SUSPINPROG\<close> to \<^const>\<open>ST_SUSPENDED\<close> between two of these loads and is not
  counted; it arrives in the place of the other thread, and the image is written while that one is in the
  handler before it has saved its context.
\<close>

theorem image_written_before_context_is_saved:
  "\<exists>s' u. sched_step\<^sup>*\<^sup>* (start_sys [0, 1]) s' \<and> s_ck s' = K_CHECKPOINT \<and> \<not> s_abort s' \<and>
     s_expected s' = 1 \<and> s_th s' 1 = Some u \<and> \<not> dead u \<and> u_frame u = Some H_SAVE"
proof -
  have "case sched_run missed_schedule (start_sys [0, 1]) of None \<Rightarrow> False
      | Some s' \<Rightarrow> s_ck s' = K_CHECKPOINT \<and> \<not> s_abort s' \<and> s_expected s' = 1 \<and>
          (case s_th s' 1 of None \<Rightarrow> False | Some u \<Rightarrow> u_pc u = U_RUN \<and> u_frame u = Some H_SAVE)"
    by code_simp
  then show ?thesis
    by (fastforce split: option.splits simp: dead_def dest: sched_run_steps)
qed

text \<open>Which function a step of the checkpoint thread is in.\<close>

lemma ckpt_thread_work_from:
  assumes "ckpt_thread_work k s = Some s'"
  shows "s_th s' = s_th s \<or> s' = zombie_list_filter (s\<lparr> s_ck := K_RELEASE_LOCK \<rparr>) \<or> suspend_threads k s = Some s' \<or>
    wait_for_exiting_threads k s = Some s' \<or> barrier_arrival_wait k s = Some s' \<or> barrier_release k s = Some s' \<or>
    restore_threads k s = Some s'"
  using assms
  by (cases k) (auto simp del: suspend_threads.simps wait_for_exiting_threads.simps barrier_arrival_wait.simps
    barrier_release.simps restore_threads.simps split: option.splits)

text \<open>Only creation brings in a new descriptor.\<close>

lemma sched_act_none:
  assumes "sched_act e s = Some s'" and "s_th s a = None" and "\<And>b. e \<noteq> A_Create b a"
  shows "s_th s' a = None"
proof (cases e)
  case A_Ckpt
  have rm: "s_th t a = None \<Longrightarrow> s_th (thread_list_remove b t) a = None" for b t
    using remove_th(6) [of b t a] by auto
  have test: "s_th (suspend_test b u ts n r x t) a = None" if "s_th t a = None" for b u ts n r x t
    using that rm by (cases x) (auto simp: scan_on_def unlock_th_def)
  have xtest: "s_th (exit_test b u ts n r x t) a = None" if "s_th t a = None" for b u ts n r x t
    using that rm by (cases x) (auto simp: exit_on_def crash_def)
  have zr: "s_th (zombie_list_remove b t) a = None" if "s_th t a = None" for b t
    using that by (auto simp: zombie_list_remove_def crash_def thread_reap_def split: option.split)
  have filt: "s_th (fold (\<lambda>b s. case s_th s b of None \<Rightarrow> s | Some u \<Rightarrow> if ti_joined u then zombie_list_remove b s else s) zs t) a = None"
    if "s_th t a = None" for zs t
    using that zr by (induction zs arbitrary: t) (auto split: option.split)
  have susp: "s_th t a = None" if "suspend_threads k s = Some t" for k t
    using that assms(2) rm test
    by (cases "(k, s)" rule: suspend_threads.cases) (auto simp: scan_on_def crash_def Let_def split: option.splits if_splits)
  have exit: "s_th t a = None" if "wait_for_exiting_threads k s = Some t" for k t
    using that assms(2) rm xtest
    by (cases "(k, s)" rule: wait_for_exiting_threads.cases) (auto simp: exit_on_def split: option.splits if_splits)
  have arr: "s_th t a = None" if "barrier_arrival_wait k s = Some t" for k t
    using that assms(2) by (cases k) (auto split: if_splits)
  have rel: "s_th t a = None" if "barrier_release k s = Some t" for k t
    using that assms(2) by (cases k) (auto split: if_splits)
  have res: "s_th t a = None" if "restore_threads k s = Some t" for k t
    using that assms(2) by (cases "(k, s)" rule: restore_threads.cases) (auto split: if_splits)
  show ?thesis
    using ckpt_thread_work_from [of "s_ck s" s s'] assms(1,2) A_Ckpt filt susp exit arr rel res
    by (auto simp: zombie_list_filter_def)
next
  case (A_Step b)
  then obtain u where u: "s_th s b = Some u" "thread_act b u s = Some s'"
    using assms(1) by (auto split: option.splits)
  have hand: "s_th t a = None" if "thread_sighandler b u f s = Some t" for f t
    using that assms(2) thread_barrier_facts(1)
    by (cases f) (auto simp: assert_cas_def crash_def split: option.splits if_splits)
  have rest: "s_th t a = None" if "thread_restart b u f s = Some t" for f t
    using that assms(2) thread_barrier_facts(1) by (cases f) (auto split: option.splits)
  show ?thesis
    using u assms(2) hand rest
    by (auto simp: thread_act_def create_wait_def join_wait_def thread_list_add_def split: option.splits upc.splits if_splits)
next
  case (A_Create b c)
  then show ?thesis using assms(1,2) assms(3) [of b] by (auto split: if_splits simp: set_pc_def)
qed (use assms in \<open>auto split: option.splits if_splits kpc.splits simp: set_pc_def\<close>)

definition creates :: "action \<Rightarrow> bool" where
  "creates e \<longleftrightarrow> (case e of A_Create _ _ \<Rightarrow> True | _ \<Rightarrow> False)"

lemma sched_run_none:
  "sched_run es s = Some s' \<Longrightarrow> s_th s a = None \<Longrightarrow> list_all (\<lambda>e. \<not> creates e) es \<Longrightarrow> s_th s' a = None"
proof (induction es arbitrary: s)
  case (Cons e es)
  then obtain t where t: "sched_act e s = Some t" "sched_run es t = Some s'"
    by (auto split: if_splits option.splits)
  have "s_th t a = None"
    by (rule sched_act_none [OF t(1) Cons.prems(2)]) (use Cons.prems(3) in \<open>auto simp: creates_def\<close>)
  then show ?case using Cons.IH [OF t(2)] Cons.prems(3) by simp
qed simp

text \<open>
  A barrier that waits for a thread that has gone through it before: the only thread waits for the
  release, the checkpoint thread for an arrival.
\<close>

definition stalled :: "sys \<Rightarrow> bool" where
  "stalled s \<longleftrightarrow> \<not> s_abort s \<and> s_state s = XND_CKPTINPROG \<and> s_arrived s < s_expected s \<and>
     s_ck s \<in> {K_ARRIVE_WAIT False, K_ARRIVE_WOKEN False, K_ARRIVE_TEST False} \<and>
     (\<forall>a u. s_th s a = Some u \<longrightarrow> u_frame u \<in> Some ` H_BARRIER ` {B_WAIT_CKPT, B_WOKEN_CKPT, B_TEST_CKPT})"

lemma stalled_act:
  assumes "stalled s" and "sched_act e s = Some s'"
  shows "stalled s'"
proof -
  have fr: "\<exists>b \<in> {B_WAIT_CKPT, B_WOKEN_CKPT, B_TEST_CKPT}. u_frame u = Some (H_BARRIER b)" if "s_th s a = Some u" for a u
    using assms(1) that by (auto simp: stalled_def)
  have no: "\<not> at_pc a p s" for a p
    using fr by (fastforce simp: at_pc_def split: option.splits)
  have upd: "stalled (upd a (\<lambda>u. u\<lparr> u_frame := Some (H_BARRIER b) \<rparr>) t)"
    if "stalled t" "b \<in> {B_WAIT_CKPT, B_WOKEN_CKPT, B_TEST_CKPT}" for a b t
    using that by (auto simp: stalled_def)
  have ckm: "stalled (t\<lparr> s_mtx := m, s_ck := k \<rparr>)"
    if "stalled t" "k \<in> {K_ARRIVE_WAIT False, K_ARRIVE_WOKEN False, K_ARRIVE_TEST False}" for t m k
    using that by (simp add: stalled_def)
  have mtx: "stalled (t\<lparr> s_mtx := m \<rparr>)" if "stalled t" for t m
    using that by (simp add: stalled_def)
  show ?thesis
  proof (cases e)
    case A_Ckpt
    have "s_ck s \<in> {K_ARRIVE_WAIT False, K_ARRIVE_WOKEN False, K_ARRIVE_TEST False}" "s_arrived s < s_expected s"
      using assms(1) by (simp_all add: stalled_def)
    then show ?thesis
      using assms(2) A_Ckpt by (auto split: if_splits intro!: ckm assms(1))
  next
    case (A_Step a)
    then obtain u where u: "s_th s a = Some u" "thread_act a u s = Some s'"
      using assms(2) by (auto split: option.splits)
    moreover obtain b where "u_frame u = Some (H_BARRIER b)" "b \<in> {B_WAIT_CKPT, B_WOKEN_CKPT, B_TEST_CKPT}"
      using fr [OF u(1)] by blast
    moreover have "s_state s = XND_CKPTINPROG" using assms(1) by (simp add: stalled_def)
    ultimately show ?thesis
      by (auto simp: thread_act_def split: if_splits intro!: upd mtx assms(1))
  next
    case (A_Deliver a)
    then show ?thesis using assms(2) fr [of a] by (auto split: option.splits if_splits)
  next
    case (A_Spurious a)
    then obtain u where u: "s_th s a = Some u" and s': "s' = upd a (\<lambda>u. u\<lparr> u_frame := map_option wake_h (u_frame u) \<rparr>) s"
      using assms(2) by (auto split: option.splits if_splits)
    obtain b where "u_frame u = Some (H_BARRIER b)" "b \<in> {B_WAIT_CKPT, B_WOKEN_CKPT, B_TEST_CKPT}"
      using fr [OF u] by blast
    moreover then have "s' = upd a (\<lambda>u. u\<lparr> u_frame := Some (H_BARRIER (wake_b b)) \<rparr>) s"
      using s' u by (simp add: upd_def)
    ultimately show ?thesis using upd [OF assms(1)] by auto
  next
    case A_Spurious_Ckpt
    then have "s_ck s = K_ARRIVE_WAIT False" and s': "s' = s\<lparr> s_ck := K_ARRIVE_WOKEN False \<rparr>"
      using assms by (auto simp: stalled_def split: kpc.splits)
    then show ?thesis using assms(1) by (simp add: stalled_def)
  qed (use assms(2) no in \<open>auto split: if_splits\<close>)
qed

lemma stalled_forever: "sched_step\<^sup>*\<^sup>* s s' \<Longrightarrow> stalled s \<Longrightarrow> stalled s'"
  by (induction rule: rtranclp_induct) (auto elim!: sched_stepE dest: stalled_act)

text \<open>
  C29: a process with one thread that takes two checkpoints can stop for ever. The release of the first
  barrier wakes the thread, but before it gets the mutex the next checkpoint finds it still in
  \<^const>\<open>ST_SUSPENDED\<close> and counts it; it then sees \<open>XND_CKPTINPROG\<close> again, waits again, and does not
  arrive. Every continuation stays in such a state.
\<close>

theorem second_checkpoint_can_deadlock:
  "\<exists>s. sched_step\<^sup>*\<^sup>* (start_sys [0]) s \<and> stalled s \<and> {s'. sched_step\<^sup>*\<^sup>* s s'} \<subseteq> Collect stalled"
proof -
  have "case sched_run stale_schedule (start_sys [0]) of None \<Rightarrow> False
      | Some s \<Rightarrow> s_ck s = K_ARRIVE_WAIT False \<and> \<not> s_abort s \<and> s_state s = XND_CKPTINPROG \<and> s_arrived s = 0 \<and>
          s_expected s = 1 \<and> (case s_th s 0 of None \<Rightarrow> False | Some u \<Rightarrow> u_frame u = Some (H_BARRIER B_WOKEN_CKPT))"
    by code_simp
  then obtain s where s: "sched_run stale_schedule (start_sys [0]) = Some s" "s_ck s = K_ARRIVE_WAIT False" "\<not> s_abort s"
    "s_state s = XND_CKPTINPROG" "s_arrived s = 0" "s_expected s = 1"
    and u: "\<And>u. s_th s 0 = Some u \<Longrightarrow> u_frame u = Some (H_BARRIER B_WOKEN_CKPT)"
    by (fastforce split: option.splits)
  have "s_th s a = None" if "a \<noteq> 0" for a
    by (rule sched_run_none [OF s(1)]) (use that in \<open>simp_all add: start_sys_def stale_schedule_def creates_def list_all_iff\<close>)
  then have "s_th s a = Some u \<Longrightarrow> a = 0" for a u by (cases "a = 0") auto
  then have "stalled s"
    using s u by (fastforce simp: stalled_def)
  then show ?thesis
    using sched_run_steps [OF s(1)] stalled_forever by blast
qed

text \<open>
  A scan that waits for the lock of a descriptor whose thread was interrupted by the checkpoint
  signal while it held it, in \<^verbatim>\<open>thread_exit\<close>, and waits for the scan to end.
\<close>

definition blocked_on_exit :: "sys \<Rightarrow> bool" where
  "blocked_on_exit s \<longleftrightarrow> \<not> s_abort s \<and> s_mtx s = Some Ckpt \<and>
     (\<exists>ts n r. s_ck s = K_TH_LOCK 0 ts n r) \<and> (\<exists>u. s_th s 0 = Some u \<and> u_lock u = Some (User 0)) \<and>
     (\<forall>a u. s_th s a = Some u \<longrightarrow> u_frame u \<in> Some ` H_BARRIER ` {B_WAIT_SUSP, B_WOKEN_SUSP})"

lemma blocked_act:
  assumes "blocked_on_exit s" and "sched_act e s = Some s'"
  shows "blocked_on_exit s'"
proof -
  have fr: "\<exists>b \<in> {B_WAIT_SUSP, B_WOKEN_SUSP}. u_frame u = Some (H_BARRIER b)" if "s_th s a = Some u" for a u
    using assms(1) that by (auto simp: blocked_on_exit_def)
  have no: "\<not> at_pc a p s" for a p
    using fr by (fastforce simp: at_pc_def split: option.splits)
  obtain ts n r v where ck: "s_ck s = K_TH_LOCK 0 ts n r" "s_th s 0 = Some v" "u_lock v = Some (User 0)" "s_mtx s = Some Ckpt"
    using assms(1) by (auto simp: blocked_on_exit_def)
  show ?thesis
  proof (cases e)
    case A_Ckpt
    then show ?thesis using assms(2) ck by simp
  next
    case (A_Step a)
    then obtain u where u: "s_th s a = Some u" "thread_act a u s = Some s'"
      using assms(2) by (auto split: option.splits)
    then show ?thesis using fr [OF u(1)] ck by (auto simp: thread_act_def)
  next
    case (A_Deliver a)
    then show ?thesis using assms(2) fr [of a] by (auto split: option.splits if_splits)
  next
    case (A_Spurious a)
    then obtain u where u: "s_th s a = Some u" and s': "s' = upd a (\<lambda>u. u\<lparr> u_frame := map_option wake_h (u_frame u) \<rparr>) s"
      using assms(2) by (auto split: option.splits if_splits)
    obtain b where "u_frame u = Some (H_BARRIER b)" "b \<in> {B_WAIT_SUSP, B_WOKEN_SUSP}"
      using fr [OF u] by blast
    then have "map_option wake_h (u_frame u) = Some (H_BARRIER B_WOKEN_SUSP)" by auto
    then show ?thesis
      using assms(1) u s' unfolding blocked_on_exit_def by (auto split: if_splits)
  next
    case A_Spurious_Ckpt
    then show ?thesis using assms(2) ck by simp
  qed (use assms(2) no in \<open>auto split: if_splits\<close>)
qed

lemma signal_during_exit_stops_checkpoint:
  "\<exists>s. sched_step\<^sup>*\<^sup>* (start_sys [0]) s \<and> {s'. sched_step\<^sup>*\<^sup>* s s'} \<subseteq> Collect blocked_on_exit"
proof -
  have "case sched_run exit_schedule (start_sys [0]) of None \<Rightarrow> False
      | Some s \<Rightarrow> s_ck s = K_TH_LOCK 0 [] 0 False \<and> \<not> s_abort s \<and> s_mtx s = Some Ckpt \<and>
          (case s_th s 0 of None \<Rightarrow> False | Some u \<Rightarrow> u_frame u = Some (H_BARRIER B_WAIT_SUSP) \<and> u_lock u = Some (User 0))"
    by code_simp
  then obtain s v where s: "sched_run exit_schedule (start_sys [0]) = Some s" "s_ck s = K_TH_LOCK 0 [] 0 False" "\<not> s_abort s"
    "s_mtx s = Some Ckpt" and v: "s_th s 0 = Some v" "u_frame v = Some (H_BARRIER B_WAIT_SUSP)" "u_lock v = Some (User 0)"
    by (fastforce split: option.splits)
  have none: "s_th s a = None" if "a \<noteq> 0" for a
    by (rule sched_run_none [OF s(1)]) (use that in \<open>simp_all add: start_sys_def exit_schedule_def creates_def list_all_iff\<close>)
  have "u = v" if "s_th s a = Some u" for a u
    using none [of a] v(1) that by (cases "a = 0") auto
  then have "\<forall>a u. s_th s a = Some u \<longrightarrow> u_frame u \<in> Some ` H_BARRIER ` {B_WAIT_SUSP, B_WOKEN_SUSP}"
    using v(2) by auto
  then have "blocked_on_exit s"
    using s(2-4) v(1,3) unfolding blocked_on_exit_def by blast
  moreover have "blocked_on_exit s'" if "sched_step\<^sup>*\<^sup>* s s'" "blocked_on_exit s" for s'
    using that by (induction rule: rtranclp_induct) (auto elim!: sched_stepE dest: blocked_act)
  ultimately show ?thesis
    using sched_run_steps [OF s(1)] by blast
qed

end
