(* ===== verification/Coord_Client.thy ===== *)
theory Coord_Client
  imports Coord_Msg Pid_Table Thread_Info Env
begin

text \<open>
  \<^verbatim>\<open>coordinator/xnd_coord_api.c\<close>, \<^verbatim>\<open>coordinator/xnd_coord_client.c\<close>
  and \<^verbatim>\<open>util/fd.c\<close>: the side of a process in the conversation with the coordinator.
  A process has one connection for the protocols, on the reserved descriptor
  \<^verbatim>\<open>XND_COORD_FD\<close>, a second one that any thread opens on demand (out of band), and
  during \<^verbatim>\<open>fork\<close> one for the child.
\<close>

section \<open>State\<close>

text \<open>
  The globals of the client and of \<^verbatim>\<open>xnd_lib.c\<close> beside those of the thread library;
  \<open>cl_pids\<close> are the globals of \<^verbatim>\<open>pid_table.cpp\<close>, \<open>cl_ckpt_sig\<close> is the
  static variable of \<^verbatim>\<open>env_get_ckpt_signal\<close>.
\<close>

record 'w client = "'w lib" +
  cl_coord_fd :: fd
  cl_child_coord_fd :: fd
  cl_oob_fd :: fd
  cl_oob_locked :: bool
  cl_pids :: pid_globals
  cl_xnd_pid :: u32
  cl_xnd_ppid :: u32
  cl_xnd_pgid :: u32
  cl_xnd_uuid :: bytes
  cl_epoch :: u64
  cl_num_peers :: u32
  cl_is_root_of_tree :: bool
  cl_env :: environ
  cl_coord_pid :: pid_t
  cl_ckpt_sig :: int

text \<open>
  The globals of a program that starts: \<open>w\<close> is its world, \<open>e\<close> its environment.
\<close>

definition client0 :: "'w \<Rightarrow> environ \<Rightarrow> 'w client" where
  "client0 w e =
     \<lparr> t_table = (\<lambda>_. None), t_heap = (\<lambda>_. None), t_next = 0, t_init = False, t_world = w,
       l_self = None, l_state = XND_UNINITIALIZED, l_tlv = 0,
       cl_coord_fd = - 1, cl_child_coord_fd = - 1, cl_oob_fd = - 1, cl_oob_locked = False,
       cl_pids = \<lparr> g_table = [], g_locked = False, g_virt_pid = - 1, g_real_pid = - 1,
         g_virt_ppid = - 1, g_real_ppid = - 1 \<rparr>,
       cl_xnd_pid = 0, cl_xnd_ppid = 0, cl_xnd_pgid = 0, cl_xnd_uuid = replicate 16 0, cl_epoch = 0,
       cl_num_peers = 0, cl_is_root_of_tree = False, cl_env = e, cl_coord_pid = - 1, cl_ckpt_sig = - 1 \<rparr>"

text \<open>
  The further system calls of a process: the two uses of \<^verbatim>\<open>fcntl\<close>, \<open>os_errno\<close>
  for what the last failed call left in \<^verbatim>\<open>errno\<close>, \<open>os_fork_exec\<close> for
  \<^verbatim>\<open>fork\<close> with \<^verbatim>\<open>execvp\<close> of the argument vector in the child, and
  \<open>os_exe_path\<close> for the path of the running program, as in \<^theory_text>\<open>Path\<close>.
\<close>

record 'w client_os = "'w net_os" +
  os_errno :: "'w \<Rightarrow> int"
  os_set_cloexec :: "fd \<Rightarrow> 'w \<Rightarrow> int \<times> 'w"
  os_set_nonblock :: "fd \<Rightarrow> bool \<Rightarrow> 'w \<Rightarrow> bool \<times> 'w"
  os_getfl :: "fd \<Rightarrow> 'w \<Rightarrow> int"
  os_peek :: "fd \<Rightarrow> 'w \<Rightarrow> int"
  os_dup2 :: "fd \<Rightarrow> fd \<Rightarrow> 'w \<Rightarrow> fd \<times> 'w"
  os_shutdown :: "fd \<Rightarrow> 'w \<Rightarrow> int \<times> 'w"
  os_sleep :: "'w \<Rightarrow> 'w"
  os_so_error :: "fd \<Rightarrow> 'w \<Rightarrow> int \<times> int"
  os_fork_exec :: "string list res \<Rightarrow> 'w \<Rightarrow> pid_t \<times> 'w"
  os_exe_path :: "nat \<Rightarrow> string option"

definition ENOENT :: int where "ENOENT = 2"
definition ESRCH :: int where "ESRCH = 3"
definition EBADF :: int where "EBADF = 9"
definition ECONNREFUSED :: int where "ECONNREFUSED = 61"

definition XND_COORD_FD :: fd where "XND_COORD_FD = 210"

text \<open>A call that changes the world and answers nothing.\<close>

definition os_do :: "('w \<Rightarrow> 'w) \<Rightarrow> (('w, 'm) fdt_scheme, unit) prog" where
  "os_do f = modify (\<lambda>s. s\<lparr> t_world := f (t_world s) \<rparr>)"

definition os_ask :: "('w \<Rightarrow> 'a) \<Rightarrow> (('w, 'm) fdt_scheme, 'a) prog" where
  "os_ask f = gets (\<lambda>s. f (t_world s))"

section \<open>Descriptors\<close>

definition xnd_fd_available :: "('w, 'n) client_os_scheme \<Rightarrow> fd \<Rightarrow> (('w, 'm) fdt_scheme, bool) prog" where
  "xnd_fd_available os fd =
     bnd (os_ask (os_getfl os fd)) (\<lambda>err.
     bnd (os_ask (os_errno os)) (\<lambda>errno. ret (err = - 1 \<and> errno = EBADF)))"

definition xnd_fd_change :: "('w, 'n) client_os_scheme \<Rightarrow> fd \<Rightarrow> fd \<Rightarrow> (('w, 'm) fdt_scheme, fd) prog" where
  "xnd_fd_change os old desired =
     sq (if old \<noteq> desired
         then bnd (os_call (os_dup2 os old desired)) (\<lambda>r.
              sq (assert_p (r = desired)) (os_do (os_close os old)))
         else ret ())
        (ret desired)"

section \<open>Connections and messages\<close>

text \<open>
  The loop of \<^verbatim>\<open>connect_to_coord\<close>: while the socket does not exist or nobody
  listens it is tried again, \<open>left\<close> times.
\<close>

fun connect_loop :: "('w, 'n) client_os_scheme \<Rightarrow> fd \<Rightarrow> nat \<Rightarrow> (('w, 'm) fdt_scheme, int) prog" where
  "connect_loop os fd left =
     bnd (os_call (os_connect os fd XND_COORD_PATH)) (\<lambda>err.
       if err = 0 then ret 0
       else
         bnd (os_ask (os_errno os)) (\<lambda>errno.
           if errno = ENOENT \<or> errno = ECONNREFUSED
           then (case left of 0 \<Rightarrow> ret err | Suc n \<Rightarrow> sq (os_do (os_sleep os)) (connect_loop os fd n))
           else ret err))"

declare connect_loop.simps [simp del]

definition connect_to_coord :: "('w, 'n) client_os_scheme \<Rightarrow> (('w, 'm) fdt_scheme, fd) prog" where
  "connect_to_coord os =
     bnd (os_call (os_socket os)) (\<lambda>fd.
       if fd < 0 then ret (- 1)
       else
         bnd (connect_loop os fd 100) (\<lambda>err.
         bnd (if err \<noteq> 0 then ret err else os_call (os_set_cloexec os fd)) (\<lambda>err.
           if err \<noteq> 0 then sq (os_do (os_close os fd)) (ret (- 1)) else ret fd)))"

definition send_msg_to_coord ::
  "('w, 'n) client_os_scheme \<Rightarrow> fd \<Rightarrow> xnd_msg \<Rightarrow> (('w, 'm) fdt_scheme, int) prog" where
  "send_msg_to_coord os fd msg =
     (if fd = - 1 then ret (- 1)
      else bnd (os_call (os_send os fd msg)) (\<lambda>bytes. ret (if bytes \<noteq> sizeof_xnd_msg then - 1 else 0)))"

text \<open>The received message is used only when the call returns zero.\<close>

definition recv_msg_from_coord ::
  "('w, 'n) client_os_scheme \<Rightarrow> fd \<Rightarrow> (('w, 'm) fdt_scheme, xnd_msg option) prog" where
  "recv_msg_from_coord os fd =
     (if fd = - 1 then ret None
      else bnd (os_call (os_recv os fd)) (\<lambda>(bytes, msg).
             ret (if bytes \<noteq> sizeof_xnd_msg then None else Some msg)))"

definition send_command_to_coord ::
  "('w, 'n) client_os_scheme \<Rightarrow> xnd_cmd \<Rightarrow> (('w, 'm) fdt_scheme, int) prog" where
  "send_command_to_coord os cmd =
     bnd (connect_to_coord os) (\<lambda>fd.
       if fd < 0 then ret (- 1)
       else
         bnd (send_msg_to_coord os fd (blank_msg\<lparr> m_hdr := XND_COMMAND, m_cmd := cmd \<rparr>)) (\<lambda>err.
         bnd (if err \<noteq> 0 then ret err
              else bnd (recv_msg_from_coord os fd) (\<lambda>r.
                case r of
                  None \<Rightarrow> ret (- 1)
                | Some msg \<Rightarrow> ret (if m_hdr msg \<noteq> XND_COORD_ACK \<or> m_ret msg \<noteq> XND_SUCCESS then - 1 else 0)))
           (\<lambda>err. sq (os_do (os_close os fd)) (ret err))))"

text \<open>\<^verbatim>\<open>kill(pid, 0)\<close> and a look at the socket without taking anything from it.\<close>

definition coord_exited :: "('w, 'n) client_os_scheme \<Rightarrow> fd \<Rightarrow> (('w, 'm) client_scheme, bool) prog" where
  "coord_exited os fd =
     bnd (gets (\<lambda>s. cl_env s ''XND_COORD_PID'')) (\<lambda>pid_str.
     bnd (case pid_str of None \<Rightarrow> ret False | Some str \<Rightarrow> os_call (os_gone os (atoi str))) (\<lambda>gone.
       if gone then ret True
       else
         bnd (os_call (os_set_nonblock os fd True)) (\<lambda>ok.
           if \<not> ok then ret True
           else
             bnd (os_ask (os_peek os fd)) (\<lambda>n.
             bnd (os_call (os_set_nonblock os fd False)) (\<lambda>ok.
               ret (if \<not> ok then True else n = 0))))))"

definition coord_socket_status :: "('w, 'n) client_os_scheme \<Rightarrow> fd \<Rightarrow> (('w, 'm) fdt_scheme, int) prog" where
  "coord_socket_status os fd =
     sq (assert_p (fd \<noteq> - 1))
    (bnd (os_ask (os_so_error os fd)) (\<lambda>(err, stat). ret (if err \<noteq> 0 then - 1 else stat)))"

text \<open>
  Starting the coordinator. The child ignores the status of the path functions and passes on
  what they left in its buffers.
\<close>

definition coordinator_argv :: "('w, 'n) client_os_scheme \<Rightarrow> bool \<Rightarrow> string list res" where
  "coordinator_argv os restarting =
     (case xnd_exe_dir (os_exe_path os) PATH_MAX of
        (_, None) \<Rightarrow> Inl Undefined
      | (_, Some dir) \<Rightarrow>
          res_bind (xnd_path_join PATH_MAX (Some dir) (Some ''xnd_coordinator'')) (\<lambda>(_, exe).
            case exe of
              None \<Rightarrow> Inl Undefined
            | Some exe \<Rightarrow> Inr (if restarting then [exe, XND_COORD_RESTART_FLAG] else [exe])))"

definition launch_coordinator :: "('w, 'n) client_os_scheme \<Rightarrow> bool \<Rightarrow> (('w, 'm) client_scheme, pid_t) prog" where
  "launch_coordinator os restarting =
     bnd (os_ask (os_access os XND_COORD_PATH)) (\<lambda>stale.
     sq (if stale then bnd (os_call (os_unlink os XND_COORD_PATH)) (\<lambda>err. assert_p (err = 0)) else ret ())
    (bnd (os_call (os_fork_exec os (coordinator_argv os restarting))) (\<lambda>coord_pid.
       if coord_pid = - 1 then ret (- 1)
       else
         sq (modify (\<lambda>s. s\<lparr> cl_env := setenv ''XND_COORD_PID'' (show_int coord_pid) (cl_env s) \<rparr>))
            (ret coord_pid))))"

text \<open>The static variable of \<^verbatim>\<open>get_coord_pid\<close> is a field of the client.\<close>

definition get_coord_pid :: "(('w, 'm) client_scheme, pid_t) prog" where
  "get_coord_pid =
     sq (modify (\<lambda>s. if cl_coord_pid s = - 1
           then (case cl_env s ''XND_COORD_PID'' of None \<Rightarrow> s | Some str \<Rightarrow> s\<lparr> cl_coord_pid := atoi str \<rparr>)
           else s))
        (gets cl_coord_pid)"

section \<open>Registration\<close>

text \<open>
  The message of a handshake. A process that restarts knows its ids and tells them to the
  coordinator; otherwise the coordinator's answer has them.
\<close>

definition handshake_msg ::
  "('w, 'n) client_os_scheme \<Rightarrow> xnd_msghdr \<Rightarrow> ('w, 'm) client_scheme \<Rightarrow> xnd_msg" where
  "handshake_msg os hdr s =
     (let msg = blank_msg\<lparr> m_hdr := hdr, m_real_pid := os_getpid os (t_world s),
                  m_real_ppid := os_getppid os (t_world s) \<rparr>
      in if hdr = XND_CONNECT_RESTART
         then msg\<lparr> m_virt_pid := g_virt_pid (cl_pids s), m_virt_ppid := g_virt_ppid (cl_pids s),
                m_xnd_pid := cl_xnd_pid s, m_xnd_ppid := cl_xnd_ppid s, m_xnd_pgid := cl_xnd_pgid s,
                m_xnd_uuid := cl_xnd_uuid s, m_ckpt_interval := env_get_ckpt_interval (cl_env s),
                m_epoch := cl_epoch s, m_num_peers := cl_num_peers s \<rparr>
         else msg)"

definition take_ids :: "xnd_msg \<Rightarrow> ('w, 'm) client_scheme \<Rightarrow> ('w, 'm) client_scheme" where
  "take_ids msg s = s\<lparr>
     cl_pids := (cl_pids s)\<lparr> g_virt_pid := m_virt_pid msg, g_virt_ppid := m_virt_ppid msg \<rparr>,
     cl_xnd_pid := m_xnd_pid msg, cl_xnd_ppid := m_xnd_ppid msg, cl_xnd_pgid := m_xnd_pgid msg,
     cl_xnd_uuid := m_xnd_uuid msg \<rparr>"

definition send_recv_coord_handshake ::
  "('w, 'n) client_os_scheme \<Rightarrow> xnd_msghdr \<Rightarrow> (('w, 'm) client_scheme, unit) prog" where
  "send_recv_coord_handshake os hdr =
     bnd (gets (\<lambda>s. (cl_coord_fd s, handshake_msg os hdr s))) (\<lambda>(fd, msg).
     bnd (send_msg_to_coord os fd msg) (\<lambda>err.
     sq (assert_p (err = 0))
    (bnd (recv_msg_from_coord os fd) (\<lambda>r.
       case r of
         None \<Rightarrow> halt Aborted
       | Some msg \<Rightarrow>
           if m_hdr msg \<noteq> XND_COORD_ACK \<or> m_ret msg \<noteq> XND_SUCCESS then halt Aborted
           else if hdr = XND_CONNECT_LAUNCH \<or> hdr = XND_ATFORK_CHILD then modify (take_ids msg)
           else ret ()))))"

definition take_coord_fd :: "('w, 'n) client_os_scheme \<Rightarrow> fd \<Rightarrow> (('w, 'm) client_scheme, unit) prog" where
  "take_coord_fd os fd =
     bnd (xnd_fd_change os fd XND_COORD_FD) (\<lambda>new.
     sq (modify (\<lambda>s. s\<lparr> cl_coord_fd := new \<rparr>)) (assert_p (new = XND_COORD_FD)))"

definition connect_to_coord_on_launch ::
  "('w, 'n) client_os_scheme \<Rightarrow> (('w, 'm) client_scheme, unit) prog" where
  "connect_to_coord_on_launch os =
     bnd (connect_to_coord os) (\<lambda>fd.
       if fd < 0 then halt Aborted
       else sq (take_coord_fd os fd) (send_recv_coord_handshake os XND_CONNECT_LAUNCH))"

definition connect_to_coord_on_restart ::
  "('w, 'n) client_os_scheme \<Rightarrow> (('w, 'm) client_scheme, unit) prog" where
  "connect_to_coord_on_restart os =
     bnd (connect_to_coord os) (\<lambda>fd.
       if fd < 0 then halt Aborted
       else
         sq (take_coord_fd os fd)
        (sq (send_recv_coord_handshake os XND_CONNECT_RESTART)
            (modify (\<lambda>s. s\<lparr> cl_oob_fd := - 1 \<rparr>))))"

section \<open>The connection out of band\<close>

definition oob_lock :: "(('w, 'm) client_scheme, unit) prog" where
  "oob_lock = bnd (gets cl_oob_locked) (\<lambda>held.
     if held then halt Blocked else modify (\<lambda>s. s\<lparr> cl_oob_locked := True \<rparr>))"

definition oob_unlock :: "(('w, 'm) client_scheme, unit) prog" where
  "oob_unlock = modify (\<lambda>s. s\<lparr> cl_oob_locked := False \<rparr>)"

text \<open>
  The connection is made by the first request, which says for which process it is. The answer
  is the descriptor and the message to send, or none if there is no connection.
\<close>

definition oob_open ::
  "('w, 'n) client_os_scheme \<Rightarrow> xnd_msg \<Rightarrow> (('w, 'm) client_scheme, (fd \<times> xnd_msg) option) prog" where
  "oob_open os msg =
     bnd (gets cl_oob_fd) (\<lambda>fd.
       if fd = - 1 then
         bnd (connect_to_coord os) (\<lambda>fd.
         sq (modify (\<lambda>s. s\<lparr> cl_oob_fd := fd \<rparr>))
           (if fd < 0 then ret None
            else bnd (gets cl_xnd_pid) (\<lambda>pid. ret (Some (fd, msg\<lparr> m_xnd_pid := pid \<rparr>)))))
       else ret (Some (fd, msg)))"

definition notify_coord_of_exit ::
  "('w, 'n) client_os_scheme \<Rightarrow> pid_t \<Rightarrow> (('w, 'm) client_scheme, unit) prog" where
  "notify_coord_of_exit os pid =
     sq oob_lock
    (bnd (oob_open os (blank_msg\<lparr> m_hdr := XND_EXIT, m_real_pid := pid \<rparr>)) (\<lambda>r.
       case r of
         None \<Rightarrow> oob_unlock
       | Some (fd, msg) \<Rightarrow> bnd (send_msg_to_coord os fd msg) (\<lambda>_. oob_unlock)))"

text \<open>
  A request out of band and its answer; both translations are this function. Every failure goes
  through the same clean-up.
\<close>

definition oob_translate ::
  "('w, 'n) client_os_scheme \<Rightarrow> xnd_msg \<Rightarrow> (xnd_msg \<Rightarrow> pid_t) \<Rightarrow> (('w, 'm) client_scheme, pid_t) prog" where
  "oob_translate os req field =
     sq oob_lock
    (bnd (oob_open os req) (\<lambda>r.
     bnd (case r of
            None \<Rightarrow> ret (- 1)
          | Some (fd, msg) \<Rightarrow>
              bnd (send_msg_to_coord os fd msg) (\<lambda>err.
                if err \<noteq> 0 then ret (- 1)
                else bnd (recv_msg_from_coord os fd) (\<lambda>r.
                  case r of
                    None \<Rightarrow> ret (- 1)
                  | Some msg \<Rightarrow>
                      ret (if m_hdr msg \<noteq> XND_COORD_ACK then - 1
                           else if m_ret msg \<noteq> XND_SUCCESS then - 1 else field msg))))
       (\<lambda>pid. sq oob_unlock (ret pid))))"

definition virt_to_real_pid_from_coord ::
  "('w, 'n) client_os_scheme \<Rightarrow> pid_t \<Rightarrow> (('w, 'm) client_scheme, pid_t) prog" where
  "virt_to_real_pid_from_coord os virt =
     oob_translate os (blank_msg\<lparr> m_hdr := XND_VIRT_TO_REAL, m_virt_pid := virt \<rparr>) m_real_pid"

definition real_to_virt_pid_from_coord ::
  "('w, 'n) client_os_scheme \<Rightarrow> pid_t \<Rightarrow> (('w, 'm) client_scheme, pid_t) prog" where
  "real_to_virt_pid_from_coord os real =
     oob_translate os (blank_msg\<lparr> m_hdr := XND_REAL_TO_VIRT, m_real_pid := real \<rparr>) m_virt_pid"

text \<open>At exit; the message goes out twice.\<close>

definition disconnect_from_coord :: "('w, 'n) client_os_scheme \<Rightarrow> (('w, 'm) client_scheme, unit) prog" where
  "disconnect_from_coord os =
     bnd (gets (\<lambda>s. g_real_pid (cl_pids s))) (\<lambda>pid.
     bnd (os_ask (os_getpid os)) (\<lambda>real.
     sq (assert_p (pid = real))
    (bnd (gets cl_coord_fd) (\<lambda>fd.
     let msg = blank_msg\<lparr> m_hdr := XND_EXIT, m_real_pid := pid \<rparr> in
     bnd (send_msg_to_coord os fd msg) (\<lambda>_.
     bnd (send_msg_to_coord os fd msg) (\<lambda>_.
     bnd (os_call (os_shutdown os fd)) (\<lambda>err.
     sq (assert_p (err = 0))
    (sq (modify (\<lambda>s. s\<lparr> cl_coord_fd := - 1 \<rparr>))
    (sq (os_do (os_close os fd))
    (bnd (gets cl_oob_fd) (\<lambda>oob.
       if oob \<noteq> - 1 then sq (modify (\<lambda>s. s\<lparr> cl_oob_fd := - 1 \<rparr>)) (os_do (os_close os oob))
       else ret ())))))))))))"

section \<open>Fork\<close>

definition coord_client_atfork_prepare ::
  "('w, 'n) client_os_scheme \<Rightarrow> (('w, 'm) client_scheme, unit) prog" where
  "coord_client_atfork_prepare os =
     sq oob_lock
    (bnd (gets (\<lambda>s. blank_msg\<lparr> m_hdr := XND_ATFORK_PREPARE, m_virt_ppid := g_virt_pid (cl_pids s),
            m_xnd_ppid := cl_xnd_pid s, m_xnd_pgid := cl_xnd_pgid s \<rparr>)) (\<lambda>msg.
     bnd (connect_to_coord os) (\<lambda>fd.
     sq (modify (\<lambda>s. s\<lparr> cl_child_coord_fd := fd \<rparr>))
       (if fd < 0 then halt Aborted
        else
          bnd (send_msg_to_coord os fd msg) (\<lambda>err.
          sq (assert_p (err = 0))
         (bnd (recv_msg_from_coord os fd) (\<lambda>r.
            case r of
              None \<Rightarrow> halt Aborted
            | Some msg \<Rightarrow>
                if m_hdr msg \<noteq> XND_COORD_ACK \<or> m_ret msg \<noteq> XND_SUCCESS then halt Aborted
                else modify (\<lambda>s. s\<lparr> cl_env :=
                       env_set_pid_info (m_virt_pid msg) (- 1) (- 1) (- 1) (cl_env s) \<rparr>))))))))"

text \<open>In the child the mutex is unlocked and initialised afresh.\<close>

definition coord_client_atfork_child ::
  "('w, 'n) client_os_scheme \<Rightarrow> (('w, 'm) client_scheme, unit) prog" where
  "coord_client_atfork_child os =
     sq oob_unlock
    (bnd (gets cl_child_coord_fd) (\<lambda>fd.
     sq (take_coord_fd os fd)
    (sq (send_recv_coord_handshake os XND_ATFORK_CHILD)
    (bnd (gets cl_oob_fd) (\<lambda>oob.
       if oob \<noteq> - 1 then sq (os_do (os_close os oob)) (modify (\<lambda>s. s\<lparr> cl_oob_fd := - 1 \<rparr>))
       else ret ())))))"

definition coord_client_atfork_parent ::
  "('w, 'n) client_os_scheme \<Rightarrow> (('w, 'm) client_scheme, unit) prog" where
  "coord_client_atfork_parent os =
     sq oob_unlock (bnd (gets cl_child_coord_fd) (\<lambda>fd. os_do (os_close os fd)))"

definition coord_client_atfork_failed ::
  "('w, 'n) client_os_scheme \<Rightarrow> (('w, 'm) client_scheme, unit) prog" where
  "coord_client_atfork_failed os =
     sq oob_unlock (bnd (gets cl_child_coord_fd) (\<lambda>fd. os_do (os_close os fd)))"

section \<open>Checkpoints\<close>

text \<open>
  The failure of a receive on a connection that \<^verbatim>\<open>disconnect_from_coord\<close> has closed
  is waited out; the answer is the same.
\<close>

definition wait_for_ckpt_request_from_coord ::
  "('w, 'n) client_os_scheme \<Rightarrow> (('w, 'm) client_scheme, int) prog" where
  "wait_for_ckpt_request_from_coord os =
     bnd (gets cl_coord_fd) (\<lambda>fd.
     bnd (recv_msg_from_coord os fd) (\<lambda>r.
       case r of
         None \<Rightarrow>
           bnd (gets cl_coord_fd) (\<lambda>fd.
             if fd = - 1 then sq (os_do (os_sleep os)) (ret (- 1)) else ret (- 1))
       | Some msg \<Rightarrow> ret (if m_hdr msg \<noteq> XND_CKPT_REQUEST then - 1 else 0)))"

text \<open>What a barrier sends, if anything, and the message that ends it.\<close>

definition barrier_msgs :: "coord_barrier_type \<Rightarrow> xnd_msghdr option \<times> xnd_msghdr" where
  "barrier_msgs type =
     (case type of
        COORD_BARRIER_PRECKPT \<Rightarrow> (Some XND_CKPT_READY, XND_CKPT_START)
      | COORD_BARRIER_POSTCKPT \<Rightarrow> (Some XND_CKPT_DONE, XND_RESUME_AFTER_CKPT)
      | COORD_BARRIER_POSTRESTART \<Rightarrow> (None, XND_RESUME_AFTER_RESTART))"

definition enter_coord_barrier ::
  "('w, 'n) client_os_scheme \<Rightarrow> coord_barrier_type \<Rightarrow> (('w, 'm) client_scheme, unit) prog" where
  "enter_coord_barrier os type =
     bnd (gets cl_coord_fd) (\<lambda>fd.
     case barrier_msgs type of (request, expected) \<Rightarrow>
       sq (case request of
             None \<Rightarrow> ret ()
           | Some hdr \<Rightarrow> bnd (send_msg_to_coord os fd (blank_msg\<lparr> m_hdr := hdr \<rparr>)) (\<lambda>err. assert_p (err = 0)))
         (bnd (recv_msg_from_coord os fd) (\<lambda>r.
            case r of
              None \<Rightarrow> halt Aborted
            | Some msg \<Rightarrow>
                if m_hdr msg \<noteq> expected then halt Aborted
                else if type = COORD_BARRIER_PRECKPT
                then modify (\<lambda>s. s\<lparr> cl_num_peers := m_num_peers msg,
                               cl_is_root_of_tree := (m_is_root_of_tree msg \<noteq> 0) \<rparr>)
                else ret ())))"

end
