(* ===== verification/Session.thy ===== *)
theory Session
  imports Coord_Client Coord_Inv
begin

text \<open>
  The two ends of a connection together. The client of \<^theory_text>\<open>Coord_Client\<close> and the
  coordinator of \<^theory_text>\<open>Coord\<close> are run on worlds in which a receive takes the next
  message of an inbox and every message is logged in the order it was sent or got. They hold a
  conversation when each finds in its inbox what the other one has sent and the two logs can be
  interleaved so that every message is sent before it is got and none is left over: then none of
  the two ever waits for a message that does not come.
\<close>

section \<open>Connections that deliver\<close>

text \<open>
  The world of one side. What it does on its connection is logged: it sends a message or gets one, and
  \<^const>\<open>None\<close> is the end of the connection, sent when the last descriptor for it is closed and
  got by a receive that finds the inbox empty. \<open>w_conn\<close> are the descriptors for the connection;
  \<open>w_fresh\<close> is the descriptor the next \<^verbatim>\<open>socket\<close> or \<^verbatim>\<open>accept\<close>
  answers; \<open>w_pid\<close> and \<open>w_ppid\<close> are the pids the system reports.
\<close>

datatype act = Sent "xnd_msg option" | Got "xnd_msg option"

record wire =
  w_in :: "fd \<Rightarrow> xnd_msg list"
  w_log :: "act list"
  w_conn :: "fd set"
  w_fresh :: fd
  w_pid :: pid_t
  w_ppid :: pid_t

definition wire_recv :: "fd \<Rightarrow> wire \<Rightarrow> (nat \<times> xnd_msg) \<times> wire" where
  "wire_recv fd w = (case w_in w fd of
     [] \<Rightarrow> ((0, blank_msg), w\<lparr> w_log := w_log w @ [Got None] \<rparr>)
   | m # ms \<Rightarrow> ((sizeof_xnd_msg, m), w\<lparr> w_in := (w_in w)(fd := ms), w_log := w_log w @ [Got (Some m)] \<rparr>))"

definition wire_dup2 :: "fd \<Rightarrow> fd \<Rightarrow> wire \<Rightarrow> fd \<times> wire" where
  "wire_dup2 old new w = (new, w\<lparr> w_in := (w_in w)(new := w_in w old),
     w_conn := (if old \<in> w_conn w then insert new (w_conn w) else w_conn w - {new}) \<rparr>)"

definition wire_close :: "fd \<Rightarrow> wire \<Rightarrow> wire" where
  "wire_close fd w = w\<lparr> w_in := (w_in w)(fd := []), w_conn := w_conn w - {fd},
     w_log := w_log w @ (if w_conn w = {fd} then [Sent None] else []) \<rparr>"

lemma wire_close_sel [simp]:
  "w_pid (wire_close fd w) = w_pid w" "w_ppid (wire_close fd w) = w_ppid w" "w_fresh (wire_close fd w) = w_fresh w"
  "w_in (wire_close fd w) = (w_in w)(fd := [])"
  "w_log (wire_close fd w) = w_log w @ (if w_conn w = {fd} then [Sent None] else [])"
  by (simp_all add: wire_close_def)

definition wire_os :: "(wire, 'n) client_os_scheme \<Rightarrow> (wire, 'n) client_os_scheme" where
  "wire_os base = base\<lparr>
     os_send := \<lambda>fd m w. (sizeof_xnd_msg, w\<lparr> w_log := w_log w @ [Sent (Some m)] \<rparr>),
     os_recv := wire_recv,
     os_socket := \<lambda>w. (w_fresh w, w\<lparr> w_conn := insert (w_fresh w) (w_conn w) \<rparr>),
     os_connect := \<lambda>fd path w. (0, w),
     os_set_cloexec := \<lambda>fd w. (0, w),
     os_dup2 := wire_dup2,
     os_close := wire_close,
     os_access := \<lambda>path w. False,
     os_malloc := \<lambda>w. (True, w),
     os_select := \<lambda>writing fds w. ((int (length fds), fds), w),
     os_accept := \<lambda>fd w. (w_fresh w, w\<lparr> w_conn := insert (w_fresh w) (w_conn w) \<rparr>),
     os_getpid := w_pid,
     os_getppid := w_ppid \<rparr>"

lemma wire_os_sel [simp]:
  "os_send (wire_os base) fd m w = (sizeof_xnd_msg, w\<lparr> w_log := w_log w @ [Sent (Some m)] \<rparr>)"
  "os_recv (wire_os base) = wire_recv"
  "os_socket (wire_os base) w = (w_fresh w, w\<lparr> w_conn := insert (w_fresh w) (w_conn w) \<rparr>)"
  "os_connect (wire_os base) fd path w = (0, w)"
  "os_set_cloexec (wire_os base) fd w = (0, w)"
  "os_dup2 (wire_os base) = wire_dup2"
  "os_close (wire_os base) = wire_close"
  "os_access (wire_os base) path w = False"
  "os_malloc (wire_os base) w = (True, w)"
  "os_select (wire_os base) writing fds w = ((int (length fds), fds), w)"
  "os_accept (wire_os base) fd w = (w_fresh w, w\<lparr> w_conn := insert (w_fresh w) (w_conn w) \<rparr>)"
  "os_getpid (wire_os base) = w_pid"
  "os_getppid (wire_os base) = w_ppid"
  by (simp_all add: wire_os_def)

text \<open>
  Two logs that are one exchange: the actions of both sides can be put into one order in which every
  message is got after it was sent, in the order of sending, and an end after the other side has closed;
  the two queues hold what is on its way to either side. At the end nothing is on its way.
\<close>

inductive plays :: "act list \<Rightarrow> act list \<Rightarrow> xnd_msg option list \<Rightarrow> xnd_msg option list \<Rightarrow> bool" where
  over: "set qa \<union> set qb \<subseteq> {None} \<Longrightarrow> plays [] [] qa qb"
| send_a: "plays as bs qa (qb @ [m]) \<Longrightarrow> plays (Sent m # as) bs qa qb"
| send_b: "plays as bs (qa @ [m]) qb \<Longrightarrow> plays as (Sent m # bs) qa qb"
| got_a: "plays as bs qa qb \<Longrightarrow> plays (Got (Some m) # as) bs (Some m # qa) qb"
| got_b: "plays as bs qa qb \<Longrightarrow> plays as (Got (Some m) # bs) qa (Some m # qb)"
| end_a: "plays as bs (None # qa) qb \<Longrightarrow> plays (Got None # as) bs (None # qa) qb"
| end_b: "plays as bs qa (None # qb) \<Longrightarrow> plays as (Got None # bs) qa (None # qb)"

lemma plays_closes:
  assumes "set as \<union> set bs \<subseteq> {Sent None}" and "set qa \<union> set qb \<subseteq> {None}"
  shows "plays as bs qa qb"
  using assms
proof (induction "length as + length bs" arbitrary: as bs qa qb)
  case 0
  then show ?case by (simp add: plays.over)
next
  case (Suc n)
  show ?case
  proof (cases as)
    case (Cons x xs)
    then show ?thesis using Suc.prems Suc.hyps(1) [of xs bs qa "qb @ [None]"] Suc.hyps(2) by (auto intro: plays.send_a)
  next
    case Nil
    with Suc.hyps(2) obtain y ys where "bs = y # ys" by (cases bs) auto
    then show ?thesis
      using Nil Suc.prems Suc.hyps(1) [of as ys "qa @ [None]" qb] Suc.hyps(2) by (auto intro: plays.send_b)
  qed
qed

text \<open>A connection that is new on both sides; \<open>ms\<close> are the messages that will arrive on it.\<close>

definition deliver :: "xnd_msg list \<Rightarrow> wire \<Rightarrow> wire" where
  "deliver ms w = w\<lparr> w_log := [], w_conn := {}, w_in := (w_in w)(w_fresh w := ms) \<rparr>"

definition messages :: "act list \<Rightarrow> xnd_msg list" where
  "messages as = concat (map (\<lambda>a. case a of Sent (Some m) \<Rightarrow> [m] | _ \<Rightarrow> []) as)"

text \<open>
  A run of the client \<open>m\<close> and one of the coordinator \<open>n\<close> over a new connection. To each of
  them the messages arrive that the other one sends, and what they do is one exchange: neither waits for
  what the other sends only later, and no message is left over.
\<close>

definition conversation ::
  "((wire, 'm) client_scheme, 'a) prog \<Rightarrow> (wire, 'b) coord_prog \<Rightarrow>
     (wire, 'm) client_scheme \<Rightarrow> wire coord \<Rightarrow> 'a res \<Rightarrow> 'b res \<Rightarrow>
     (wire, 'm) client_scheme \<Rightarrow> wire coord \<Rightarrow> bool" where
  "conversation m n k s a b k' s' \<longleftrightarrow>
     m (k\<lparr> t_world := deliver (messages (w_log (c_world s'))) (t_world k) \<rparr>) = Some (a, k') \<and>
     n (s\<lparr> c_world := deliver (messages (w_log (t_world k'))) (c_world s) \<rparr>) = Some (b, s') \<and>
     plays (w_log (t_world k')) (w_log (c_world s')) [] []"

section \<open>Registration\<close>

text \<open>
  The three ways for a process to become known: it starts, it restarts, or its parent forks and
  the child connects, with the pid the system gave to it.
\<close>

datatype way = Launched | Restarted | Forked pid_t

fun register_client :: "(wire, 'n) client_os_scheme \<Rightarrow> way \<Rightarrow> ((wire, 'm) client_scheme, unit) prog" where
  "register_client os Launched = connect_to_coord_on_launch os"
| "register_client os Restarted = connect_to_coord_on_restart os"
| "register_client os (Forked pid) =
     sq (coord_client_atfork_prepare os)
    (sq (os_do (\<lambda>w. w\<lparr> w_pid := pid, w_ppid := w_pid w \<rparr>))
        (coord_client_atfork_child os))"

text \<open>
  What is known of both sides before: the pid of a new process is not in the table, a known
  parent is in the list, and the next virtual ids are free; a process that restarts belongs to
  the computation the coordinator restarts; a parent is registered under its ids.
\<close>

definition can_register :: "way \<Rightarrow> (wire, 'm) client_scheme \<Rightarrow> wire coord \<Rightarrow> bool" where
  "can_register way k s \<longleftrightarrow>
     coord_inv s \<and> 0 \<le> w_fresh (t_world k) \<and> 0 \<le> w_fresh (c_world s) \<and>
     c_next_virt_pid s < 2 ^ 31 - 2 \<and>
     \<not> virtual_id_exists (c_table s) (c_next_virt_pid s) \<and>
     \<not> virtual_id_exists (c_table s) (c_next_virt_pid s + 1) \<and>
     (case way of
        Launched \<Rightarrow>
          c_epoch s = 0 \<and> \<not> real_id_exists (c_table s) (w_pid (t_world k)) \<and>
          (real_id_exists (c_table s) (w_ppid (t_world k)) \<longrightarrow>
             plist_find (\<lambda>p. p_real_pid p = w_ppid (t_world k)) (c_procs s) \<noteq> None)
      | Restarted \<Rightarrow>
          g_virt_pid (cl_pids k) \<noteq> g_virt_ppid (cl_pids k) \<and> g_virt_pid (cl_pids k) < 2 ^ 31 - 1 \<and>
          (c_procs s \<noteq> [] \<longrightarrow> cl_xnd_uuid k = c_uuid s)
      | Forked pid \<Rightarrow>
          \<not> cl_oob_locked k \<and>
          (\<exists>a parent. plist_find (\<lambda>p. p_virt_pid p = g_virt_pid (cl_pids k)) (c_procs s) = Some (a, parent) \<and>
             p_real_pid parent = w_pid (t_world k)))"

text \<open>
  The two sides agree: the process is in the list, with the connection, the pids the system
  reports and the ids the process has, and the table translates its virtual pids.
\<close>

definition agreed :: "(wire, 'm) client_scheme \<Rightarrow> wire coord \<Rightarrow> bool" where
  "agreed k s \<longleftrightarrow>
     (case c_procs s of
        [] \<Rightarrow> False
      | (a, p) # _ \<Rightarrow>
          p_fd p = w_fresh (c_world s) \<and> cl_coord_fd k = XND_COORD_FD \<and>
          p_real_pid p = w_pid (t_world k) \<and> p_real_ppid p = w_ppid (t_world k) \<and>
          p_virt_pid p = g_virt_pid (cl_pids k) \<and> p_virt_ppid p = g_virt_ppid (cl_pids k) \<and>
          p_xnd_pid p = cl_xnd_pid k \<and> p_xnd_ppid p = cl_xnd_ppid k \<and> p_xnd_pgid p = cl_xnd_pgid k \<and>
          c_uuid s = cl_xnd_uuid k \<and>
          virtual_to_real (c_table s) (g_virt_pid (cl_pids k)) = Some (w_pid (t_world k)) \<and>
          virtual_to_real (c_table s) (g_virt_ppid (cl_pids k)) = Some (w_ppid (t_world k)))"

subsection \<open>Evaluation\<close>

lemma run_bnd:
  "bnd m f s = (case m s of None \<Rightarrow> None | Some (Inl e, s') \<Rightarrow> Some (Inl e, s')
     | Some (Inr a, s') \<Rightarrow> f a s')"
  by (simp add: bnd_def)

lemma run_sq:
  "sq m n s = (case m s of None \<Rightarrow> None | Some (Inl e, s') \<Rightarrow> Some (Inl e, s')
     | Some (Inr a, s') \<Rightarrow> n s')"
  by (simp add: sq_def run_bnd)

lemma run_ret: "ret a s = Some (Inr a, s)"
  by (simp add: ret_def)

lemma run_halt: "halt e s = Some (Inl e, s)"
  by (simp add: halt_def)

lemma run_gets: "gets f s = Some (Inr (f s), s)"
  by (simp add: gets_def)

lemma run_modify: "modify g s = Some (Inr (), g s)"
  by (simp add: modify_def)

lemma run_call: "call h c = (case h (c_world c) of (a, w) \<Rightarrow> Some (Inr a, c\<lparr> c_world := w \<rparr>))"
  by (simp add: call_def)

lemma run_os_call: "os_call h k = (case h (t_world k) of (a, w) \<Rightarrow> Some (Inr a, k\<lparr> t_world := w \<rparr>))"
  by (simp add: os_call_def)

lemma run_os_do: "os_do g k = Some (Inr (), k\<lparr> t_world := g (t_world k) \<rparr>)"
  by (simp add: os_do_def run_modify)

lemma run_os_ask: "os_ask q k = Some (Inr (q (t_world k)), k)"
  by (simp add: os_ask_def run_gets)

lemmas run_simps = run_bnd run_sq run_ret run_halt run_gets run_modify
lemmas run_calls = run_call run_os_call run_os_do run_os_ask

lemma connect_wire:
  assumes "0 \<le> w_fresh (t_world k)"
  shows "connect_to_coord (wire_os base) k = Some (Inr (w_fresh (t_world k)),
     k\<lparr> t_world := (t_world k)\<lparr> w_conn := insert (w_fresh (t_world k)) (w_conn (t_world k)) \<rparr> \<rparr>)"
  using assms by (simp add: connect_to_coord_def connect_loop.simps run_simps run_calls)

lemma take_coord_fd_wire:
  assumes "fd \<in> w_conn (t_world k)"
  shows "take_coord_fd (wire_os base) fd k =
     Some (Inr (), k\<lparr> cl_coord_fd := XND_COORD_FD,
       t_world := (if fd = XND_COORD_FD then t_world k
         else (t_world k)\<lparr> w_in := (w_in (t_world k))(XND_COORD_FD := w_in (t_world k) fd, fd := []),
           w_conn := insert XND_COORD_FD (w_conn (t_world k)) - {fd} \<rparr>) \<rparr>)"
  using assms by (auto simp: take_coord_fd_def xnd_fd_change_def run_simps run_calls assert_p_def wire_dup2_def wire_close_def)

definition is_ack :: "xnd_msg \<Rightarrow> bool" where
  "is_ack m \<longleftrightarrow> m_hdr m = XND_COORD_ACK \<and> m_ret m = XND_SUCCESS"

lemma handshake_wire:
  assumes "cl_coord_fd k = XND_COORD_FD" and "w_in (t_world k) XND_COORD_FD = m # ms" and "is_ack m"
  shows "send_recv_coord_handshake (wire_os base) hdr k =
     Some (Inr (), (if hdr = XND_CONNECT_LAUNCH \<or> hdr = XND_ATFORK_CHILD then take_ids m else id)
       (k\<lparr> t_world := (t_world k)\<lparr> w_in := (w_in (t_world k))(XND_COORD_FD := ms),
             w_log := w_log (t_world k) @ [Sent (Some (handshake_msg (wire_os base) hdr k)), Got (Some m)] \<rparr> \<rparr>))"
  using assms
  by (simp add: send_recv_coord_handshake_def send_msg_to_coord_def recv_msg_from_coord_def
      run_simps run_calls assert_p_def wire_recv_def is_ack_def XND_COORD_FD_def)

text \<open>The coordinator takes a connection and the first message on it.\<close>

lemma accept_wire:
  assumes "0 \<le> w_fresh (c_world s)" and "w_in (c_world s) (w_fresh (c_world s)) = m # ms"
  shows "coord_wait_for_connection (wire_os base) s =
     coord_accept (wire_os base) (w_fresh (c_world s)) m
       (s\<lparr> c_world := (c_world s)\<lparr> w_conn := insert (w_fresh (c_world s)) (w_conn (c_world s)),
            w_in := (w_in (c_world s))(w_fresh (c_world s) := ms), w_log := w_log (c_world s) @ [Got (Some m)] \<rparr>,
          c_log := c_log s @ [Ev_Recv (w_fresh (c_world s)) (m_hdr m)] \<rparr>)"
  using assms
  by (simp add: coord_wait_for_connection_def coord_recv_msg_def log_event_def run_simps run_calls wire_recv_def)

text \<open>The answer to a registration, and what is registered.\<close>

definition ack_of :: "bytes \<Rightarrow> proc \<Rightarrow> xnd_msg" where
  "ack_of uuid p = blank_msg\<lparr> m_hdr := XND_COORD_ACK, m_ret := XND_SUCCESS,
     m_real_pid := p_real_pid p, m_virt_pid := p_virt_pid p,
     m_real_ppid := p_real_ppid p, m_virt_ppid := p_virt_ppid p, m_xnd_uuid := uuid,
     m_xnd_pid := p_xnd_pid p, m_xnd_ppid := p_xnd_ppid p, m_xnd_pgid := p_xnd_pgid p \<rparr>"

lemma ack_of_sel [simp]:
  "m_virt_pid (ack_of u p) = p_virt_pid p" "m_virt_ppid (ack_of u p) = p_virt_ppid p"
  "m_xnd_pid (ack_of u p) = p_xnd_pid p" "m_xnd_ppid (ack_of u p) = p_xnd_ppid p"
  "m_xnd_pgid (ack_of u p) = p_xnd_pgid p" "m_xnd_uuid (ack_of u p) = u" "is_ack (ack_of u p)"
  by (simp_all add: ack_of_def is_ack_def blank_msg_def)

lemma register_wire:
  "coord_register (wire_os base) a p s =
     Some (Inr (), s\<lparr> c_world := (c_world s)\<lparr> w_log := w_log (c_world s) @ [Sent (Some (ack_of (c_uuid s) p))] \<rparr>,
       c_log := c_log s @ [Ev_Send (p_fd p) XND_COORD_ACK],
       c_table := vt_update (p_virt_ppid p) (p_real_ppid p) (vt_update (p_virt_pid p) (p_real_pid p) (c_table s)),
       c_procs := (a, p) # c_procs s \<rparr>)"
  by (simp add: coord_register_def coord_send_handshake_def coord_send_msg_def log_event_def
      run_simps run_calls ack_of_def)

lemma alloc_wire:
  "alloc_proc (wire_os base) s = Some (Inr (c_next_addr s), s\<lparr> c_next_addr := c_next_addr s + 1 \<rparr>)"
  by (simp add: alloc_proc_def run_simps run_calls assert_p_def)

lemma next_virt_pid_wire:
  assumes "c_next_virt_pid s < 2 ^ 31 - 1" and "\<not> virtual_id_exists (c_table s) (c_next_virt_pid s)"
  shows "coord_next_virt_pid os s =
     Some (Inr (c_next_virt_pid s), s\<lparr> c_next_virt_pid := c_next_virt_pid s + 1 \<rparr>)"
  using assms by (simp add: coord_next_virt_pid_def run_simps)

lemma next_xnd_pid_wire:
  "coord_next_xnd_pid s = Some (Inr (c_next_xnd_pid s), s\<lparr> c_next_xnd_pid := c_next_xnd_pid s + 1 \<rparr>)"
  by (simp add: coord_next_xnd_pid_def run_simps)

lemmas session_wire = connect_wire take_coord_fd_wire handshake_wire accept_wire register_wire alloc_wire
  next_virt_pid_wire next_xnd_pid_wire

subsection \<open>The coordinator's side\<close>

text \<open>What a registration leaves: the new process first in the list, and the answer to it.\<close>

definition registers :: "proc \<Rightarrow> bytes \<Rightarrow> wire coord \<Rightarrow> wire coord \<Rightarrow> bool" where
  "registers p uuid s s' \<longleftrightarrow>
     (\<exists>a. c_procs s' = (a, p) # c_procs s) \<and> c_uuid s' = uuid \<and>
     c_table s' = vt_update (p_virt_ppid p) (p_real_ppid p) (vt_update (p_virt_pid p) (p_real_pid p) (c_table s)) \<and>
     w_log (c_world s') = w_log (c_world s) @ [Sent (Some (ack_of uuid p))] \<and>
     w_in (c_world s') = w_in (c_world s) \<and> w_fresh (c_world s') = w_fresh (c_world s)"

lemma registers_translates:
  assumes "registers p uuid s s'" and "p_virt_pid p \<noteq> p_virt_ppid p"
  shows "virtual_to_real (c_table s') (p_virt_pid p) = Some (p_real_pid p)"
    and "virtual_to_real (c_table s') (p_virt_ppid p) = Some (p_real_ppid p)"
  using assms by (simp_all add: registers_def vt.to_real_update)

lemma coord_inv_virt_exists:
  assumes "coord_inv s" and "plist_find P (c_procs s) = Some (a, p)"
  shows "virtual_id_exists (c_table s) (p_virt_pid p)" and "P p"
proof -
  have "(a, p) \<in> set (c_procs s)" "P p"
    using assms(2) by (auto simp: plist_find_def find_Some_iff) (metis nth_mem)
  with assms(1) show "virtual_id_exists (c_table s) (p_virt_pid p)" "P p"
    by (auto simp: coord_inv_def virtual_id_exists_lookup)
qed

lemma launch_wire:
  assumes "coord_inv s" and "c_next_virt_pid s < 2 ^ 31 - 2" and "c_epoch s = 0"
    and free: "\<not> virtual_id_exists (c_table s) (c_next_virt_pid s)"
      "\<not> virtual_id_exists (c_table s) (c_next_virt_pid s + 1)"
    and new: "\<not> real_id_exists (c_table s) (m_real_pid m)"
    and parent: "real_id_exists (c_table s) (m_real_ppid m) \<longrightarrow>
      plist_find (\<lambda>p. p_real_pid p = m_real_ppid m) (c_procs s) \<noteq> None"
    and hdr: "m_hdr m = XND_CONNECT_LAUNCH"
  shows "\<exists>p s'. coord_accept (wire_os base) fd m s = Some (Inr (), s') \<and> registers p (c_uuid s) s s' \<and>
    p_fd p = fd \<and> p_real_pid p = m_real_pid m \<and> p_real_ppid p = m_real_ppid m \<and> p_virt_pid p \<noteq> p_virt_ppid p"
proof (cases "real_id_exists (c_table s) (m_real_ppid m)")
  case True
  with parent obtain b q where q: "plist_find (\<lambda>p. p_real_pid p = m_real_ppid m) (c_procs s) = Some (b, q)"
    by auto
  then have "p_virt_pid q \<noteq> c_next_virt_pid s"
    using coord_inv_virt_exists(1) [OF assms(1) q] free(1) by auto
  with True q show ?thesis
    using assms
    by (simp add: coord_accept_def coord_connect_with_process_on_launch_def run_simps session_wire
        assert_p_def launch_child_def registers_def new_proc_def)
next
  case False
  then show ?thesis
    using assms
    by (simp add: coord_accept_def coord_connect_with_process_on_launch_def run_simps session_wire
        assert_p_def launch_first_def registers_def new_proc_def)
qed

lemma restart_wire:
  assumes "m_hdr m = XND_CONNECT_RESTART" and "c_procs s \<noteq> [] \<Longrightarrow> m_xnd_uuid m = c_uuid s" and "m_virt_pid m < 2 ^ 31 - 1"
  shows "\<exists>p s'. coord_accept (wire_os base) fd m s = Some (Inr (), s') \<and> registers p (m_xnd_uuid m) s s' \<and>
    p = new_proc fd (m_xnd_pid m) (m_xnd_ppid m) (m_xnd_pgid m) (m_virt_pid m) (m_real_pid m)
          (m_virt_ppid m) (m_real_ppid m) PROC_RESTART_IN_PROGRESS"
  using assms
  by (auto simp: coord_accept_def coord_connect_with_process_on_restart_def run_simps session_wire Let_def
      registers_def, simp_all add: new_proc_def)

text \<open>
  A fork: the coordinator answers the parent, then reads the child's message from the same
  connection.
\<close>

lemma fork_wire:
  assumes "coord_inv s" and "c_next_virt_pid s < 2 ^ 31 - 2"
    and "\<not> virtual_id_exists (c_table s) (c_next_virt_pid s)"
    and parent: "plist_find (\<lambda>p. p_virt_pid p = m_virt_ppid m) (c_procs s) = Some (b, q)"
    and hdr: "m_hdr m = XND_ATFORK_PREPARE"
    and child: "w_in (c_world s) fd = [c]" "m_hdr c = XND_ATFORK_CHILD" "m_real_ppid c = p_real_pid q"
  shows "\<exists>s'. coord_accept (wire_os base) fd m s = Some (Inr (), s') \<and>
    registers (new_proc fd (c_next_xnd_pid s) (m_xnd_ppid m) (m_xnd_pgid m) (c_next_virt_pid s)
        (m_real_pid c) (m_virt_ppid m) (m_real_ppid c) PROC_RUNNING) (c_uuid s)
      (s\<lparr> c_world := (c_world s)\<lparr> w_in := (w_in (c_world s))(fd := []),
            w_log := w_log (c_world s) @ [Sent (Some (blank_msg\<lparr> m_hdr := XND_COORD_ACK, m_virt_pid := c_next_virt_pid s \<rparr>)), Got (Some c)] \<rparr> \<rparr>) s' \<and>
    m_virt_ppid m \<noteq> c_next_virt_pid s"
proof -
  have "m_virt_ppid m \<noteq> c_next_virt_pid s"
    using coord_inv_virt_exists [OF assms(1) parent] assms(3) by auto
  then show ?thesis
    using assms
    by (simp add: coord_accept_def coord_atfork_def run_simps run_calls session_wire assert_p_def Let_def
        registers_def coord_send_msg_def coord_recv_msg_def log_event_def wire_recv_def blank_msg_def)
qed

subsection \<open>The client's side\<close>

lemma client_launch_wire:
  assumes "0 \<le> w_fresh (t_world k)" and "w_in (t_world k) (w_fresh (t_world k)) = [m]" and "is_ack m"
  shows "\<exists>k'. connect_to_coord_on_launch (wire_os base) k = Some (Inr (), k') \<and>
    w_log (t_world k') = w_log (t_world k) @ [Sent (Some (handshake_msg (wire_os base) XND_CONNECT_LAUNCH k)), Got (Some m)] \<and>
    cl_coord_fd k' = XND_COORD_FD \<and> w_pid (t_world k') = w_pid (t_world k) \<and> w_ppid (t_world k') = w_ppid (t_world k) \<and>
    cl_pids k' = (cl_pids k)\<lparr> g_virt_pid := m_virt_pid m, g_virt_ppid := m_virt_ppid m \<rparr> \<and>
    cl_xnd_pid k' = m_xnd_pid m \<and> cl_xnd_ppid k' = m_xnd_ppid m \<and> cl_xnd_pgid k' = m_xnd_pgid m \<and>
    cl_xnd_uuid k' = m_xnd_uuid m"
  using assms
  by (cases "w_fresh (t_world k) = XND_COORD_FD")
    (simp_all add: connect_to_coord_on_launch_def run_simps session_wire handshake_msg_def take_ids_def Let_def)

lemma client_restart_wire:
  assumes "0 \<le> w_fresh (t_world k)" and "w_in (t_world k) (w_fresh (t_world k)) = [m]" and "is_ack m"
  shows "\<exists>k'. connect_to_coord_on_restart (wire_os base) k = Some (Inr (), k') \<and>
    w_log (t_world k') = w_log (t_world k) @ [Sent (Some (handshake_msg (wire_os base) XND_CONNECT_RESTART k)), Got (Some m)] \<and>
    cl_coord_fd k' = XND_COORD_FD \<and> w_pid (t_world k') = w_pid (t_world k) \<and> w_ppid (t_world k') = w_ppid (t_world k) \<and>
    cl_pids k' = cl_pids k \<and> cl_xnd_pid k' = cl_xnd_pid k \<and> cl_xnd_ppid k' = cl_xnd_ppid k \<and>
    cl_xnd_pgid k' = cl_xnd_pgid k \<and> cl_xnd_uuid k' = cl_xnd_uuid k"
  using assms
  by (cases "w_fresh (t_world k) = XND_COORD_FD")
    (simp_all add: connect_to_coord_on_restart_def run_simps session_wire handshake_msg_def Let_def)

definition prepare_msg :: "(wire, 'm) client_scheme \<Rightarrow> xnd_msg" where
  "prepare_msg k = blank_msg\<lparr> m_hdr := XND_ATFORK_PREPARE, m_virt_ppid := g_virt_pid (cl_pids k),
     m_xnd_ppid := cl_xnd_pid k, m_xnd_pgid := cl_xnd_pgid k \<rparr>"

lemma client_prepare_wire:
  assumes "0 \<le> w_fresh (t_world k)" and "w_in (t_world k) (w_fresh (t_world k)) = m # ms" and "is_ack m"
    and "\<not> cl_oob_locked k"
  shows "coord_client_atfork_prepare (wire_os base) k = Some (Inr (),
    k\<lparr> cl_oob_locked := True, cl_child_coord_fd := w_fresh (t_world k),
       t_world := (t_world k)\<lparr> w_conn := insert (w_fresh (t_world k)) (w_conn (t_world k)),
         w_in := (w_in (t_world k))(w_fresh (t_world k) := ms),
         w_log := w_log (t_world k) @ [Sent (Some (prepare_msg k)), Got (Some m)] \<rparr>,
       cl_env := env_set_pid_info (m_virt_pid m) (- 1) (- 1) (- 1) (cl_env k) \<rparr>)"
  using assms
  by (simp add: coord_client_atfork_prepare_def oob_lock_def run_simps run_calls session_wire
      send_msg_to_coord_def recv_msg_from_coord_def wire_recv_def is_ack_def assert_p_def prepare_msg_def)

lemma client_fork_wire:
  assumes "0 \<le> w_fresh (t_world k)" and "w_in (t_world k) (w_fresh (t_world k)) = [m, m']"
    and "is_ack m" and "is_ack m'" and "\<not> cl_oob_locked k"
  shows "\<exists>k' c cs. register_client (wire_os base) (Forked pid) k = Some (Inr (), k') \<and>
    w_log (t_world k') = w_log (t_world k) @ [Sent (Some (prepare_msg k)), Got (Some m), Sent (Some c), Got (Some m')] @ cs \<and>
    set cs \<subseteq> {Sent None} \<and>
    m_hdr c = XND_ATFORK_CHILD \<and> m_real_pid c = pid \<and> m_real_ppid c = w_pid (t_world k) \<and>
    cl_coord_fd k' = XND_COORD_FD \<and> w_pid (t_world k') = pid \<and> w_ppid (t_world k') = w_pid (t_world k) \<and>
    cl_pids k' = (cl_pids k)\<lparr> g_virt_pid := m_virt_pid m', g_virt_ppid := m_virt_ppid m' \<rparr> \<and>
    cl_xnd_pid k' = m_xnd_pid m' \<and> cl_xnd_ppid k' = m_xnd_ppid m' \<and> cl_xnd_pgid k' = m_xnd_pgid m' \<and>
    cl_xnd_uuid k' = m_xnd_uuid m'"
  using assms
  by (cases "w_fresh (t_world k) = XND_COORD_FD")
    (simp_all add: client_prepare_wire coord_client_atfork_child_def oob_unlock_def run_simps run_calls
      session_wire handshake_msg_def take_ids_def Let_def blank_msg_def, auto)


section \<open>Properties\<close>

lemma messages_simps [simp]:
  "messages [] = []" "messages (Sent (Some m) # as) = m # messages as"
  "messages (Sent None # as) = messages as" "messages (Got x # as) = messages as"
  "messages (as @ bs) = messages as @ messages bs"
  by (simp_all add: messages_def)

lemma messages_closes: "set cs \<subseteq> {Sent None} \<Longrightarrow> messages cs = []"
  by (induction cs) auto

text \<open>A request and its answer.\<close>

lemma plays_turn:
  assumes "plays as bs [] []"
  shows "plays (Sent (Some r) # Got (Some a) # as) (Got (Some r) # Sent (Some a) # bs) [] []"
proof -
  have "plays (Got (Some a) # as) bs [Some a] []"
    using assms by (rule plays.got_a)
  then have "plays (Got (Some a) # as) (Sent (Some a) # bs) [] []"
    by (intro plays.send_b) simp
  then show ?thesis
    by (intro plays.send_a) (simp add: plays.got_b)
qed

lemma plays_nothing [simp]: "plays [] [] [] []"
  by (simp add: plays.over)

lemma deliver_sel [simp]:
  "w_in (deliver ms w) (w_fresh w) = ms" "w_log (deliver ms w) = []" "w_conn (deliver ms w) = {}" "w_fresh (deliver ms w) = w_fresh w"
  "w_pid (deliver ms w) = w_pid w" "w_ppid (deliver ms w) = w_ppid w"
  by (simp_all add: deliver_def)

lemma agreedI:
  assumes "registers p uuid s0 s" and "p_virt_pid p \<noteq> p_virt_ppid p"
    and "p_fd p = w_fresh (c_world s0)" and "cl_coord_fd k = XND_COORD_FD"
    and "p_real_pid p = w_pid (t_world k)" and "p_real_ppid p = w_ppid (t_world k)"
    and "p_virt_pid p = g_virt_pid (cl_pids k)" and "p_virt_ppid p = g_virt_ppid (cl_pids k)"
    and "p_xnd_pid p = cl_xnd_pid k" and "p_xnd_ppid p = cl_xnd_ppid k" and "p_xnd_pgid p = cl_xnd_pgid k"
    and "cl_xnd_uuid k = uuid"
  shows "agreed k s"
  using assms registers_translates [OF assms(1,2)] by (auto simp: agreed_def registers_def)

definition received :: "wire coord \<Rightarrow> xnd_msg \<Rightarrow> xnd_msg list \<Rightarrow> wire coord" where
  "received s m ms = s\<lparr> c_world := (c_world s)\<lparr> w_conn := {w_fresh (c_world s)},
       w_in := (w_in (c_world s))(w_fresh (c_world s) := ms), w_log := [Got (Some m)] \<rparr>,
     c_log := c_log s @ [Ev_Recv (w_fresh (c_world s)) (m_hdr m)] \<rparr>"

lemma received_sel [simp]:
  "c_world (received s m ms) = (c_world s)\<lparr> w_conn := {w_fresh (c_world s)},
     w_in := (w_in (c_world s))(w_fresh (c_world s) := ms), w_log := [Got (Some m)] \<rparr>" "c_procs (received s m ms) = c_procs s"
  "c_table (received s m ms) = c_table s" "c_uuid (received s m ms) = c_uuid s"
  "c_epoch (received s m ms) = c_epoch s" "c_next_virt_pid (received s m ms) = c_next_virt_pid s"
  "c_next_xnd_pid (received s m ms) = c_next_xnd_pid s" "coord_inv (received s m ms) = coord_inv s"
  by (simp_all add: received_def)

lemma accept_delivered:
  assumes "0 \<le> w_fresh (c_world s)"
  shows "coord_wait_for_connection (wire_os base) (s\<lparr> c_world := deliver (m # ms) (c_world s) \<rparr>) =
     coord_accept (wire_os base) (w_fresh (c_world s)) m (received s m ms)"
  using assms accept_wire [of "s\<lparr> c_world := deliver (m # ms) (c_world s) \<rparr>" m ms base]
  by (simp add: received_def) (simp add: deliver_def)

lemma conversationI:
  assumes "m (k\<lparr> t_world := deliver ans (t_world k) \<rparr>) = Some (a, k')"
    and "messages (w_log (t_world k')) = req # reqs"
    and "0 \<le> w_fresh (c_world s)"
    and "coord_accept (wire_os base) (w_fresh (c_world s)) req (received s req reqs) = Some (b, s')"
    and "messages (w_log (c_world s')) = ans" and "plays (w_log (t_world k')) (w_log (c_world s')) [] []"
  shows "conversation m (coord_wait_for_connection (wire_os base)) k s a b k' s'"
  using assms accept_delivered [OF assms(3), of base req reqs] by (simp add: conversation_def)

lemma launch_agrees:
  assumes "can_register Launched k s"
  shows "\<exists>k' s'. conversation (connect_to_coord_on_launch (wire_os base))
      (coord_wait_for_connection (wire_os base')) k s (Inr ()) (Inr ()) k' s' \<and> agreed k' s'"
proof -
  let ?fd = "w_fresh (c_world s)" and ?k = "\<lambda>ans. k\<lparr> t_world := deliver ans (t_world k) \<rparr>"
  define req where "req = handshake_msg (wire_os base) XND_CONNECT_LAUNCH k"
  from assms have fresh: "0 \<le> w_fresh (t_world k)" "0 \<le> ?fd"
    by (simp_all add: can_register_def)
  from assms obtain p s' where s':
    "coord_accept (wire_os base') ?fd req (received s req []) = Some (Inr (), s')"
    "registers p (c_uuid s) (received s req []) s'" "p_virt_pid p \<noteq> p_virt_ppid p"
    "p_fd p = ?fd" "p_real_pid p = w_pid (t_world k)" "p_real_ppid p = w_ppid (t_world k)"
    using launch_wire [of "received s req []" req base' ?fd]
    by (auto simp: can_register_def req_def handshake_msg_def blank_msg_def)
  let ?ack = "ack_of (c_uuid s) p"
  obtain k' where k': "connect_to_coord_on_launch (wire_os base) (?k [?ack]) = Some (Inr (), k')"
    "w_log (t_world k') = [Sent (Some req), Got (Some ?ack)]" "cl_coord_fd k' = XND_COORD_FD"
    "w_pid (t_world k') = w_pid (t_world k)" "w_ppid (t_world k') = w_ppid (t_world k)"
    "cl_pids k' = (cl_pids k)\<lparr> g_virt_pid := p_virt_pid p, g_virt_ppid := p_virt_ppid p \<rparr>"
    "cl_xnd_pid k' = p_xnd_pid p" "cl_xnd_ppid k' = p_xnd_ppid p" "cl_xnd_pgid k' = p_xnd_pgid p"
    "cl_xnd_uuid k' = c_uuid s"
    using client_launch_wire [of "?k [?ack]" ?ack base] fresh
    by (auto simp: req_def handshake_msg_def)
  have "agreed k' s'"
    by (rule agreedI [OF s'(2,3)]) (simp_all add: s'(4-6) k'(3-10))
  moreover have log: "w_log (c_world s') = [Got (Some req), Sent (Some ?ack)]"
    using s'(2) by (simp add: registers_def)
  moreover have "plays (w_log (t_world k')) (w_log (c_world s')) [] []"
    by (simp add: log k'(2) plays_turn)
  ultimately show ?thesis
    using conversationI [of "connect_to_coord_on_launch (wire_os base)" "[?ack]" k, OF k'(1) _ fresh(2) s'(1)]
    by (fastforce simp: k'(2))
qed

lemma restart_agrees:
  assumes "can_register Restarted k s"
  shows "\<exists>k' s'. conversation (connect_to_coord_on_restart (wire_os base))
      (coord_wait_for_connection (wire_os base')) k s (Inr ()) (Inr ()) k' s' \<and> agreed k' s'"
proof -
  let ?fd = "w_fresh (c_world s)" and ?k = "\<lambda>ans. k\<lparr> t_world := deliver ans (t_world k) \<rparr>"
  define req where "req = handshake_msg (wire_os base) XND_CONNECT_RESTART k"
  let ?p = "new_proc ?fd (cl_xnd_pid k) (cl_xnd_ppid k) (cl_xnd_pgid k) (g_virt_pid (cl_pids k))
      (w_pid (t_world k)) (g_virt_ppid (cl_pids k)) (w_ppid (t_world k)) PROC_RESTART_IN_PROGRESS"
  from assms have fresh: "0 \<le> w_fresh (t_world k)" "0 \<le> ?fd" "g_virt_pid (cl_pids k) \<noteq> g_virt_ppid (cl_pids k)"
    by (simp_all add: can_register_def)
  from assms obtain s' where s':
    "coord_accept (wire_os base') ?fd req (received s req []) = Some (Inr (), s')"
    "registers ?p (cl_xnd_uuid k) (received s req []) s'"
    using restart_wire [of req "received s req []" base' ?fd]
    by (auto simp: can_register_def req_def handshake_msg_def blank_msg_def)
  let ?ack = "ack_of (cl_xnd_uuid k) ?p"
  obtain k' where k': "connect_to_coord_on_restart (wire_os base) (?k [?ack]) = Some (Inr (), k')"
    "w_log (t_world k') = [Sent (Some req), Got (Some ?ack)]" "cl_coord_fd k' = XND_COORD_FD"
    "w_pid (t_world k') = w_pid (t_world k)" "w_ppid (t_world k') = w_ppid (t_world k)"
    "cl_pids k' = cl_pids k" "cl_xnd_pid k' = cl_xnd_pid k" "cl_xnd_ppid k' = cl_xnd_ppid k"
    "cl_xnd_pgid k' = cl_xnd_pgid k" "cl_xnd_uuid k' = cl_xnd_uuid k"
    using client_restart_wire [of "?k [?ack]" ?ack base] fresh
    by (auto simp: req_def handshake_msg_def)
  have "agreed k' s'"
    by (rule agreedI [OF s'(2)]) (simp_all add: fresh(3) new_proc_def k'(3-10))
  moreover have log: "w_log (c_world s') = [Got (Some req), Sent (Some ?ack)]"
    using s'(2) by (simp add: registers_def)
  moreover have "plays (w_log (t_world k')) (w_log (c_world s')) [] []"
    by (simp add: log k'(2) plays_turn)
  ultimately show ?thesis
    using conversationI [of "connect_to_coord_on_restart (wire_os base)" "[?ack]" k, OF k'(1) _ fresh(2) s'(1)]
    by (fastforce simp: k'(2))
qed

lemma fork_agrees:
  assumes "can_register (Forked pid) k s"
  shows "\<exists>k' s'. conversation (register_client (wire_os base) (Forked pid))
      (coord_wait_for_connection (wire_os base')) k s (Inr ()) (Inr ()) k' s' \<and> agreed k' s'"
proof -
  let ?fd = "w_fresh (c_world s)" and ?k = "\<lambda>ans. k\<lparr> t_world := deliver ans (t_world k) \<rparr>"
  from assms have fresh: "0 \<le> w_fresh (t_world k)" "0 \<le> ?fd" "\<not> cl_oob_locked k"
    by (simp_all add: can_register_def)
  define p where "p = new_proc ?fd (c_next_xnd_pid s) (cl_xnd_pid k) (cl_xnd_pgid k) (c_next_virt_pid s) pid
      (g_virt_pid (cl_pids k)) (w_pid (t_world k)) PROC_RUNNING"
  define ack where "ack = blank_msg\<lparr> m_hdr := XND_COORD_ACK, m_virt_pid := c_next_virt_pid s \<rparr>"
  define k0 where "k0 = ?k [ack, ack_of (c_uuid s) p]"
  have k0: "0 \<le> w_fresh (t_world k0)" "w_in (t_world k0) (w_fresh (t_world k0)) = [ack, ack_of (c_uuid s) p]"
    "is_ack ack" "is_ack (ack_of (c_uuid s) p)" "\<not> cl_oob_locked k0"
    using fresh by (simp_all add: k0_def) (simp add: is_ack_def ack_def blank_msg_def)
  have prep: "prepare_msg k0 = prepare_msg k" "w_log (t_world k0) = []" "w_pid (t_world k0) = w_pid (t_world k)"
    by (simp_all add: k0_def prepare_msg_def)
  from client_fork_wire [OF k0, of base pid] obtain k' c cs where
    k': "register_client (wire_os base) (Forked pid) k0 = Some (Inr (), k')"
    "w_log (t_world k') = [Sent (Some (prepare_msg k)), Got (Some ack), Sent (Some c), Got (Some (ack_of (c_uuid s) p))] @ cs"
    "m_hdr c = XND_ATFORK_CHILD" "m_real_pid c = pid" "m_real_ppid c = w_pid (t_world k)"
    "cl_coord_fd k' = XND_COORD_FD" "w_pid (t_world k') = pid" "w_ppid (t_world k') = w_pid (t_world k)"
    "g_virt_pid (cl_pids k') = p_virt_pid p" "g_virt_ppid (cl_pids k') = p_virt_ppid p"
    "cl_xnd_pid k' = p_xnd_pid p" "cl_xnd_ppid k' = p_xnd_ppid p" "cl_xnd_pgid k' = p_xnd_pgid p"
    "cl_xnd_uuid k' = c_uuid s" "set cs \<subseteq> {Sent None}"
    unfolding prep by (auto simp del: register_client.simps)
  let ?s = "received s (prepare_msg k) [c]"
  from assms obtain b q where parent:
    "plist_find (\<lambda>p. p_virt_pid p = m_virt_ppid (prepare_msg k)) (c_procs ?s) = Some (b, q)"
    "m_real_ppid c = p_real_pid q"
    by (auto simp: can_register_def prepare_msg_def blank_msg_def k'(5))
  have s: "coord_inv ?s" "c_next_virt_pid ?s < 2 ^ 31 - 2" "\<not> virtual_id_exists (c_table ?s) (c_next_virt_pid ?s)"
    "m_hdr (prepare_msg k) = XND_ATFORK_PREPARE" "w_in (c_world ?s) ?fd = [c]"
    using assms by (simp_all add: can_register_def prepare_msg_def)
  have p: "new_proc ?fd (c_next_xnd_pid ?s) (m_xnd_ppid (prepare_msg k)) (m_xnd_pgid (prepare_msg k))
      (c_next_virt_pid ?s) (m_real_pid c) (m_virt_ppid (prepare_msg k)) (m_real_ppid c) PROC_RUNNING = p"
    by (simp add: p_def prepare_msg_def k'(4,5))
  obtain s' where s': "coord_accept (wire_os base') ?fd (prepare_msg k) ?s = Some (Inr (), s')"
    "registers p (c_uuid s) (?s\<lparr> c_world := (c_world ?s)\<lparr> w_in := (w_in (c_world ?s))(?fd := []),
        w_log := [Got (Some (prepare_msg k)), Sent (Some ack), Got (Some c)] \<rparr> \<rparr>) s'" "p_virt_pid p \<noteq> p_virt_ppid p"
    using fork_wire [OF s(1-3) parent(1) s(4,5) k'(3) parent(2), of base'] unfolding p
    by (auto simp: ack_def p_def new_proc_def prepare_msg_def)
  have ids: "p_fd p = ?fd" "p_real_pid p = pid" "p_real_ppid p = w_pid (t_world k)"
    by (simp_all add: p_def new_proc_def)
  have "agreed k' s'"
    by (rule agreedI [OF s'(2,3)]) (simp_all add: ids k'(6-14))
  moreover have log: "w_log (c_world s') = [Got (Some (prepare_msg k)), Sent (Some ack), Got (Some c), Sent (Some (ack_of (c_uuid s) p))]"
    using s'(2) by (simp add: registers_def)
  moreover have "plays (w_log (t_world k')) (w_log (c_world s')) [] []"
    using k'(15) unfolding log k'(2) append_Cons append_Nil by (intro plays_turn plays_closes) auto
  ultimately show ?thesis
    using conversationI [of "register_client (wire_os base) (Forked pid)" "[ack, ack_of (c_uuid s) p]" k,
        OF k'(1) [unfolded k0_def] _ fresh(2) s'(1)] messages_closes [OF k'(15)]
    by (fastforce simp: k'(2))
qed

text \<open>
  C14: registration is an exchange that both sides bring to an end, and they agree after it. When a
  process starts, restarts or is forked, it and the coordinator each get the messages the other one sends,
  in their order and none before it was sent, so that neither waits for the other in vain, and no message
  is left over; then the coordinator has the process in its list with the pids the system reports and the
  virtual and library ids the process has taken, and its table translates the process's virtual pid and its
  parent's. What both sides must know before is \<^const>\<open>can_register\<close>; the calls on the connection
  succeed.
\<close>

theorem registration_agrees:
  assumes "can_register way k s"
  shows "\<exists>k' s'. conversation (register_client (wire_os base) way)
      (coord_wait_for_connection (wire_os base')) k s (Inr ()) (Inr ()) k' s' \<and> agreed k' s'"
proof (cases way)
  case Launched
  with assms launch_agrees [of k s base base'] show ?thesis by simp
next
  case Restarted
  with assms restart_agrees [of k s base base'] show ?thesis by simp
next
  case (Forked pid)
  with assms fork_agrees [of pid k s base base'] show ?thesis by (simp only:)
qed

text \<open>A start of the second program of a computation, and a fork of the first one.\<close>

definition wire0 :: "pid_t \<Rightarrow> pid_t \<Rightarrow> wire" where
  "wire0 pid ppid = \<lparr> w_in = (\<lambda>_. []), w_log = [], w_conn = {}, w_fresh = 5, w_pid = pid, w_ppid = ppid \<rparr>"

definition session_proc :: proc where
  "session_proc = new_proc 4 1001 1000 1001 2 20 1 10 PROC_RUNNING"

definition session_coord :: "wire coord" where
  "session_coord = (coord_info0 (wire0 9 1))\<lparr> c_procs := [(0, session_proc)],
     c_table := vt_update 1 10 (vt_update 2 20 []), c_uuid := [7], c_next_virt_pid := 3, c_next_xnd_pid := 1002,
     c_next_addr := 1 \<rparr>"

definition session_client :: "wire client" where
  "session_client = (client0 (wire0 20 10) (\<lambda>_. None))\<lparr> cl_coord_fd := 210, cl_xnd_pid := 1001,
     cl_xnd_ppid := 1000, cl_xnd_pgid := 1001, cl_xnd_uuid := [7],
     cl_pids := \<lparr> g_table = vt_update 1 10 (vt_update 2 20 []), g_locked = False,
       g_virt_pid = 2, g_real_pid = 20, g_virt_ppid = 1, g_real_ppid = 10 \<rparr> \<rparr>"

lemma session_inv: "coord_inv session_coord"
  by (simp add: coord_inv_def session_coord_def session_proc_def new_proc_def coord_info0_def
      vt_wf_def vt_update_def virtual_to_real_def)

lemmas session_defs = session_coord_def session_proc_def session_client_def new_proc_def coord_info0_def
  client0_def wire0_def vt_update_def virtual_to_real_def virtual_id_exists_def real_id_exists_def plist_find_def

theorem registration_agrees_witness:
  "\<forall>(base :: (wire, unit) client_os_scheme) base' :: (wire, unit) client_os_scheme. \<exists>k' s'.
     conversation (register_client (wire_os base) (Forked 30)) (coord_wait_for_connection (wire_os base'))
       session_client session_coord (Inr ()) (Inr ()) k' s' \<and> agreed k' s'"
proof -
  have "can_register (Forked 30) session_client session_coord"
    using session_inv by (simp add: can_register_def) (simp add: session_defs)
  then show ?thesis by (blast intro: registration_agrees)
qed

subsection \<open>Messages nobody expects\<close>

lemma closing_cleanup:
  "\<exists>cs. w_log (c_world (run_cleanup (proc_exit_callback (wire_os base)) p s)) = w_log (c_world s) @ cs \<and> set cs \<subseteq> {Sent None}"
  by (auto simp: run_cleanup_def proc_exit_callback_def Let_def)

lemma closing_destroy:
  "\<exists>cs. w_log (c_world (plist_destroy (proc_exit_callback (wire_os base)) ps s)) = w_log (c_world s) @ cs \<and> set cs \<subseteq> {Sent None}"
proof (induction ps arbitrary: s)
  case (Cons x ps)
  obtain cs where cs: "w_log (c_world (run_cleanup (proc_exit_callback (wire_os base)) (snd x) s)) = w_log (c_world s) @ cs"
      "set cs \<subseteq> {Sent None}"
    using closing_cleanup by blast
  obtain ds where "w_log (c_world (plist_destroy (proc_exit_callback (wire_os base)) ps
      (run_cleanup (proc_exit_callback (wire_os base)) (snd x) s))) = (w_log (c_world s) @ cs) @ ds" "set ds \<subseteq> {Sent None}"
    using Cons.IH cs(1) by metis
  with cs(2) show ?case
    by (cases x) (auto intro!: exI [of _ "cs @ ds"])
qed simp

lemma exit_wire:
  "\<exists>s' cs. coord_exit (wire_os base) n s = Some (Inl (Exited n), s') \<and> c_procs s' = [] \<and>
     w_log (c_world s') = w_log (c_world s) @ cs \<and> set cs \<subseteq> {Sent None}"
  using closing_destroy [of base "c_procs s" s] by (auto simp: coord_exit_def coord_cleanup_def run_simps)

lemma exit_wireI:
  assumes "w_log (c_world s) = l"
  shows "\<exists>s'. coord_exit (wire_os base) n s = Some (Inl (Exited n), s') \<and> c_procs s' = [] \<and>
     (\<exists>cs. w_log (c_world s') = l @ cs \<and> set cs \<subseteq> {Sent None})"
  using exit_wire [of base n s] assms by auto

lemma exit_notice_stops_coordinator:
  assumes "0 \<le> w_fresh (t_world k)" and "0 \<le> w_fresh (c_world s)" and "\<not> cl_oob_locked k" and "cl_oob_fd k = - 1"
  shows "\<exists>k' s'. conversation (notify_coord_of_exit (wire_os base) pid) (coord_wait_for_connection (wire_os base'))
     k s (Inr ()) (Inl (Exited COORD_EXIT_FAILURE)) k' s' \<and> c_procs s' = []"
proof -
  let ?fd = "w_fresh (c_world s)"
  define req where "req = blank_msg\<lparr> m_hdr := XND_EXIT, m_xnd_pid := cl_xnd_pid k, m_real_pid := pid \<rparr>"
  have "\<exists>k'. notify_coord_of_exit (wire_os base) pid (k\<lparr> t_world := deliver [] (t_world k) \<rparr>) = Some (Inr (), k') \<and>
      w_log (t_world k') = [Sent (Some req)]"
    using assms by (simp add: notify_coord_of_exit_def oob_open_def oob_lock_def oob_unlock_def
        send_msg_to_coord_def run_simps run_calls connect_wire req_def)
  then obtain k' where k': "notify_coord_of_exit (wire_os base) pid (k\<lparr> t_world := deliver [] (t_world k) \<rparr>) = Some (Inr (), k')"
    "w_log (t_world k') = [Sent (Some req)]" by blast
  have "m_hdr req = XND_EXIT" by (simp add: req_def)
  then have "\<exists>s'. coord_accept (wire_os base') ?fd req (received s req []) = Some (Inl (Exited COORD_EXIT_FAILURE), s') \<and>
      c_procs s' = [] \<and> (\<exists>cs. w_log (c_world s') = Got (Some req) # cs \<and> set cs \<subseteq> {Sent None})"
    by (simp add: coord_accept_def) (rule exit_wireI [where l = "[Got (Some req)]", unfolded append_Cons append_Nil], simp)
  then obtain s' cs where s': "coord_accept (wire_os base') ?fd req (received s req []) = Some (Inl (Exited COORD_EXIT_FAILURE), s')"
    "c_procs s' = []" "w_log (c_world s') = Got (Some req) # cs" "set cs \<subseteq> {Sent None}" by blast
  have "plays [] (Got (Some req) # cs) [] [Some req]"
    using s'(4) by (intro plays.got_b plays_closes) auto
  then have "plays (w_log (t_world k')) (w_log (c_world s')) [] []"
    unfolding k'(2) s'(3) by (intro plays.send_a) simp
  then have "conversation (notify_coord_of_exit (wire_os base) pid) (coord_wait_for_connection (wire_os base'))
     k s (Inr ()) (Inl (Exited COORD_EXIT_FAILURE)) k' s'"
    using s'(3) messages_closes [OF s'(4)] by (intro conversationI [of "notify_coord_of_exit (wire_os base) pid" "[]" k, OF k'(1) _ assms(2) s'(1)]) (simp_all add: k'(2))
  with s'(2) show ?thesis by blast
qed

lemma failed_fork_stops_coordinator:
  assumes "coord_inv s" and "0 \<le> w_fresh (t_world k)" and "0 \<le> w_fresh (c_world s)" and "\<not> cl_oob_locked k"
    and "c_next_virt_pid s < 2 ^ 31 - 2" and "\<not> virtual_id_exists (c_table s) (c_next_virt_pid s)"
    and "plist_find (\<lambda>p. p_virt_pid p = g_virt_pid (cl_pids k)) (c_procs s) \<noteq> None"
  shows "\<exists>k' s'. conversation (sq (coord_client_atfork_prepare (wire_os base)) (coord_client_atfork_failed (wire_os base)))
     (coord_wait_for_connection (wire_os base'))
     k s (Inr ()) (Inl (Exited COORD_EXIT_FAILURE)) k' s' \<and> c_procs s' = []"
proof -
  let ?fd = "w_fresh (c_world s)" and ?m = "sq (coord_client_atfork_prepare (wire_os base)) (coord_client_atfork_failed (wire_os base))"
  define ack where "ack = blank_msg\<lparr> m_hdr := XND_COORD_ACK, m_ret := XND_SUCCESS, m_virt_pid := c_next_virt_pid s \<rparr>"
  define k0 where "k0 = k\<lparr> t_world := deliver [ack] (t_world k) \<rparr>"
  have k0: "0 \<le> w_fresh (t_world k0)" "w_in (t_world k0) (w_fresh (t_world k0)) = [ack]" "is_ack ack" "\<not> cl_oob_locked k0"
    using assms by (simp_all add: k0_def) (simp add: is_ack_def ack_def blank_msg_def)
  have "prepare_msg k0 = prepare_msg k" "w_log (t_world k0) = []" "w_conn (t_world k0) = {}"
    by (simp_all add: k0_def prepare_msg_def)
  with client_prepare_wire [OF k0, of base] obtain k' where
    k': "?m k0 = Some (Inr (), k')" "w_log (t_world k') = [Sent (Some (prepare_msg k)), Got (Some ack), Sent None]"
    by (simp add: run_simps coord_client_atfork_failed_def oob_unlock_def run_calls)
  let ?s = "received s (prepare_msg k) []"
  obtain b q where parent: "plist_find (\<lambda>p. p_virt_pid p = m_virt_ppid (prepare_msg k)) (c_procs s) = Some (b, q)"
    using assms(7) by (auto simp: prepare_msg_def)
  have hdr: "m_hdr (prepare_msg k) = XND_ATFORK_PREPARE"
    by (simp add: prepare_msg_def)
  let ?log = "[Got (Some (prepare_msg k)), Sent (Some ack), Got None]"
  have "\<exists>s'. coord_accept (wire_os base') ?fd (prepare_msg k) ?s = Some (Inl (Exited COORD_EXIT_FAILURE), s') \<and>
      c_procs s' = [] \<and> (\<exists>cs. w_log (c_world s') = ?log @ cs \<and> set cs \<subseteq> {Sent None})"
    using assms(5,6)
    by (simp add: coord_accept_def coord_atfork_def hdr parent run_simps run_calls session_wire
        coord_send_msg_def coord_recv_msg_def log_event_def wire_recv_def sizeof_xnd_msg_def)
      (rule exit_wireI [where l = ?log, unfolded append_Cons append_Nil], simp add: ack_def)
  then obtain s' cs where s': "coord_accept (wire_os base') ?fd (prepare_msg k) ?s = Some (Inl (Exited COORD_EXIT_FAILURE), s')"
    "c_procs s' = []" "w_log (c_world s') = ?log @ cs" "set cs \<subseteq> {Sent None}" by blast
  have "plays [] cs [] [None]"
    using s'(4) by (intro plays_closes) auto
  then have "plays [] (Got None # cs) [] [None]"
    by (rule plays.end_b)
  then have "plays [Sent None] (Got None # cs) [] []"
    by (intro plays.send_a) simp
  then have "plays (w_log (t_world k')) (w_log (c_world s')) [] []"
    unfolding k'(2) s'(3) append_Cons append_Nil by (rule plays_turn)
  then have "conversation ?m (coord_wait_for_connection (wire_os base')) k s (Inr ()) (Inl (Exited COORD_EXIT_FAILURE)) k' s'"
    using messages_closes [OF s'(4)]
    by (intro conversationI [of ?m "[ack]" k, OF k'(1) [unfolded k0_def] _ assms(3) s'(1)]) (simp_all add: k'(2) s'(3))
  with s'(2) show ?thesis by blast
qed

text \<open>
  C30: two things the library does end the coordinator, and with it the computation. A process that
  learns of the death of a child and has not used its second connection yet tells so in its first
  message there, which the coordinator takes for an error; and a \<^verbatim>\<open>fork\<close> that the system
  refuses closes the connection on which the coordinator waits for the child. In both cases the process
  itself goes on without noticing anything, and the coordinator exits with a failure.
\<close>

theorem client_stops_coordinator:
  assumes "coord_inv s" and "0 \<le> w_fresh (t_world k)" and "0 \<le> w_fresh (c_world s)" and "\<not> cl_oob_locked k"
    and "c_next_virt_pid s < 2 ^ 31 - 2" and "\<not> virtual_id_exists (c_table s) (c_next_virt_pid s)"
  shows "(cl_oob_fd k = - 1 \<longrightarrow>
      (\<exists>k' s'. conversation (notify_coord_of_exit (wire_os base) pid) (coord_wait_for_connection (wire_os base'))
         k s (Inr ()) (Inl (Exited COORD_EXIT_FAILURE)) k' s' \<and> c_procs s' = [])) \<and>
    (plist_find (\<lambda>p. p_virt_pid p = g_virt_pid (cl_pids k)) (c_procs s) \<noteq> None \<longrightarrow>
      (\<exists>k' s'. conversation (sq (coord_client_atfork_prepare (wire_os base)) (coord_client_atfork_failed (wire_os base)))
         (coord_wait_for_connection (wire_os base'))
         k s (Inr ()) (Inl (Exited COORD_EXIT_FAILURE)) k' s' \<and> c_procs s' = []))"
  using exit_notice_stops_coordinator [of k s base pid base'] failed_fork_stops_coordinator [of s k base base'] assms
  by blast

theorem client_stops_coordinator_witness:
  "\<forall>(base :: (wire, unit) client_os_scheme) base' :: (wire, unit) client_os_scheme.
     (\<exists>k' s'. conversation (notify_coord_of_exit (wire_os base) 30) (coord_wait_for_connection (wire_os base'))
        session_client session_coord (Inr ()) (Inl (Exited 222)) k' s') \<and>
     (\<exists>k' s'. conversation (sq (coord_client_atfork_prepare (wire_os base)) (coord_client_atfork_failed (wire_os base)))
        (coord_wait_for_connection (wire_os base'))
        session_client session_coord (Inr ()) (Inl (Exited 222)) k' s')"
proof (intro allI)
  fix base base' :: "(wire, unit) client_os_scheme"
  have "cl_oob_fd session_client = - 1" "\<not> cl_oob_locked session_client" "0 \<le> w_fresh (t_world session_client)"
    "0 \<le> w_fresh (c_world session_coord)" "c_next_virt_pid session_coord < 2 ^ 31 - 2"
    "\<not> virtual_id_exists (c_table session_coord) (c_next_virt_pid session_coord)"
    "plist_find (\<lambda>p. p_virt_pid p = g_virt_pid (cl_pids session_client)) (c_procs session_coord) \<noteq> None"
    by (simp_all add: session_defs)
  with client_stops_coordinator [OF session_inv, of session_client base 30 base']
  show "(\<exists>k' s'. conversation (notify_coord_of_exit (wire_os base) 30) (coord_wait_for_connection (wire_os base'))
        session_client session_coord (Inr ()) (Inl (Exited 222)) k' s') \<and>
     (\<exists>k' s'. conversation (sq (coord_client_atfork_prepare (wire_os base)) (coord_client_atfork_failed (wire_os base)))
        (coord_wait_for_connection (wire_os base'))
        session_client session_coord (Inr ()) (Inl (Exited 222)) k' s')"
    unfolding COORD_EXIT_FAILURE_def by blast
qed

end
