(* ===== verification/Time_Wrappers.thy ===== *)
theory Time_Wrappers
  imports Prog Io "HOL-Library.Signed_Division"
begin

text \<open>
  \<^verbatim>\<open>wrappers/time_wrappers.c\<close> and the conversions of
  \<^verbatim>\<open>include/common/time.h\<close>: the functions that put a thread to sleep, on top of
  \<^verbatim>\<open>select\<close> without descriptors.
\<close>

section \<open>Times\<close>

text \<open>
  The fields of both structures are 64-bit signed integers, here HOL integers; arithmetic on them
  that leaves the range of \<^verbatim>\<open>long\<close> is undefined.
\<close>

record timespec =
  ts_sec :: int
  ts_nsec :: int

record timeval =
  tv_sec :: int
  tv_usec :: int

definition NSEC_PER_SEC :: int where "NSEC_PER_SEC = 1000000000"
definition NSEC_PER_USEC :: int where "NSEC_PER_USEC = 1000"
definition EINTR :: int where "EINTR = 4"
definition EINVAL :: int where "EINVAL = 22"

definition in_long :: "int \<Rightarrow> bool" where
  "in_long i \<longleftrightarrow> - (2 ^ 63) \<le> i \<and> i < 2 ^ 63"

definition long :: "int \<Rightarrow> ('w, int) prog" where
  "long i = (if in_long i then ret i else halt Undefined)"

definition TIMESPEC_TO_NSEC :: "timespec \<Rightarrow> ('w, int) prog" where
  "TIMESPEC_TO_NSEC ts =
     bnd (long (ts_sec ts * NSEC_PER_SEC)) (\<lambda>ns. long (ns + ts_nsec ts))"

definition TIMESPEC_TO_TIMEVAL :: "timespec \<Rightarrow> timeval" where
  "TIMESPEC_TO_TIMEVAL ts = \<lparr> tv_sec = ts_sec ts, tv_usec = (ts_nsec ts) sdiv NSEC_PER_USEC \<rparr>"

definition TIMESPEC_NSEC_DIFF :: "timespec \<Rightarrow> timespec \<Rightarrow> ('w, int) prog" where
  "TIMESPEC_NSEC_DIFF end' begin' =
     bnd (TIMESPEC_TO_NSEC end') (\<lambda>e. bnd (TIMESPEC_TO_NSEC begin') (\<lambda>b. long (e - b)))"

section \<open>The wrappers\<close>

text \<open>
  The calls: \<open>tm_select\<close> is \<^verbatim>\<open>select(0, NULL, NULL, NULL, &tv)\<close>,
  \<open>tm_clock\<close> reads the monotonic clock; \<open>tm_errno\<close> and \<open>tm_set_errno\<close>
  are the uses of \<^verbatim>\<open>errno\<close>.
\<close>

record 'w time_os =
  tm_select :: "timeval \<Rightarrow> 'w \<Rightarrow> int \<times> 'w"
  tm_clock :: "'w \<Rightarrow> timespec \<times> 'w"
  tm_errno :: "'w \<Rightarrow> int"
  tm_set_errno :: "int \<Rightarrow> 'w \<Rightarrow> 'w"

text \<open>
  The second argument of \<^verbatim>\<open>nanosleep\<close> may be null; the answer has what is stored
  through it. The time is compared with a tenth of a second.
\<close>

definition nanosleep_hook ::
  "('w, 'm) time_os_scheme \<Rightarrow> timespec \<Rightarrow> timespec option \<Rightarrow> ('w, int \<times> timespec option) prog" where
  "nanosleep_hook os rqtp rmtp =
     bnd (TIMESPEC_TO_NSEC rqtp) (\<lambda>rq.
       if rq < 0 \<or> rq \<ge> 100000000
       then sq (modify (tm_set_errno os EINVAL)) (ret (- 1, rmtp))
       else
         bnd (if rmtp \<noteq> None then bnd (sys (tm_clock os)) (\<lambda>t. ret (Some t)) else ret None) (\<lambda>start.
         bnd (sys (tm_select os (TIMESPEC_TO_TIMEVAL rqtp))) (\<lambda>err.
         bnd (gets (tm_errno os)) (\<lambda>errno.
           case start of
             None \<Rightarrow> ret (err, rmtp)
           | Some start \<Rightarrow>
               if err \<noteq> 0 \<and> errno = EINTR
               then bnd (sys (tm_clock os)) (\<lambda>end'.
                    bnd (TIMESPEC_NSEC_DIFF end' start) (\<lambda>diff.
                    bnd (long (rq - diff)) (\<lambda>rm.
                      ret (err, Some \<lparr> ts_sec = rm sdiv NSEC_PER_SEC, ts_nsec = rm smod NSEC_PER_SEC \<rparr>))))
               else ret (err, rmtp)))))"

definition sleep_hook :: "('w, 'm) time_os_scheme \<Rightarrow> u32 \<Rightarrow> ('w, u32) prog" where
  "sleep_hook os seconds =
     bnd (nanosleep_hook os \<lparr> ts_sec = uint seconds, ts_nsec = 0 \<rparr> (Some \<lparr> ts_sec = 0, ts_nsec = 0 \<rparr>)) (\<lambda>(err, rm).
       if err \<noteq> 0 then (case rm of None \<Rightarrow> ret 0 | Some rm \<Rightarrow> ret (word_of_int (ts_sec rm))) else ret 0)"

definition usleep_hook :: "('w, 'm) time_os_scheme \<Rightarrow> u32 \<Rightarrow> ('w, int) prog" where
  "usleep_hook os usec =
     (let nsec = uint usec * NSEC_PER_USEC in
      bnd (nanosleep_hook os \<lparr> ts_sec = nsec sdiv NSEC_PER_SEC, ts_nsec = nsec smod NSEC_PER_SEC \<rparr>
             (Some \<lparr> ts_sec = 0, ts_nsec = 0 \<rparr>))
        (\<lambda>(err, _). ret err))"

section \<open>Properties\<close>

text \<open>Long waits are refused, with no call of the system.\<close>

lemma nanosleep_refuses:
  assumes "0 \<le> ts_nsec rq" and "ts_nsec rq < NSEC_PER_SEC" and "0 \<le> ts_sec rq" and "ts_sec rq < 2 ^ 32"
    and "100000000 \<le> ts_sec rq * NSEC_PER_SEC + ts_nsec rq"
  shows "nanosleep_hook os rq rm w = Some (Inr (- 1, rm), tm_set_errno os EINVAL w)"
proof -
  have "ts_sec rq * 1000000000 \<le> (2 ^ 32 - 1) * 1000000000"
    using assms(4) by (intro mult_right_mono) auto
  then have "in_long (ts_sec rq * NSEC_PER_SEC)" "in_long (ts_sec rq * NSEC_PER_SEC + ts_nsec rq)"
    using assms(1-4) by (auto simp: in_long_def NSEC_PER_SEC_def)
  with assms(5) show ?thesis
    by (simp add: nanosleep_hook_def TIMESPEC_TO_NSEC_def long_def prog_defs)
qed

text \<open>
  C32: a program that sleeps does not. For every number of seconds but zero the wrapper of
  \<^verbatim>\<open>sleep\<close> returns zero, which says that the time has passed, without having
  called the system; and the wrapper of \<^verbatim>\<open>usleep\<close> fails from a tenth of a
  second on, where the function is required to accept any time below a second.
\<close>

theorem sleep_returns_at_once:
  "(seconds \<noteq> 0 \<longrightarrow> sleep_hook os seconds w = Some (Inr 0, tm_set_errno os EINVAL w)) \<and>
   (100000 \<le> usec \<longrightarrow> usleep_hook os usec w = Some (Inr (- 1), tm_set_errno os EINVAL w))"
proof (intro conjI impI)
  assume "seconds \<noteq> 0"
  then have "uint seconds \<noteq> 0"
    by (simp add: unsigned_eq_0_iff)
  then have "1 \<le> uint seconds"
    using unsigned_greater_eq [of seconds, where ?'a = int] by arith
  moreover have "uint seconds < 2 ^ 32"
    using unsigned_less [of seconds, where ?'a = int] by simp
  ultimately show "sleep_hook os seconds w = Some (Inr 0, tm_set_errno os EINVAL w)"
    by (simp add: sleep_hook_def bnd_def nanosleep_refuses NSEC_PER_SEC_def ret_def)
next
  assume "100000 \<le> usec"
  then have u: "100000 \<le> uint usec"
    by (simp add: word_le_def)
  have "uint usec < 2 ^ 32"
    using unsigned_less [of usec, where ?'a = int] by simp
  define ns where "ns = uint usec * 1000"
  with u \<open>uint usec < 2 ^ 32\<close> have ns: "100000000 \<le> ns" "ns < 1000 * 2 ^ 32" by simp_all
  let ?rq = "\<lparr> ts_sec = ns div 1000000000, ts_nsec = ns mod 1000000000 \<rparr>"
  have "ns div 1000000000 < 2 ^ 32" "0 \<le> ns div 1000000000"
    using ns by auto
  then have "nanosleep_hook os ?rq (Some \<lparr> ts_sec = 0, ts_nsec = 0 \<rparr>) w
      = Some (Inr (- 1, Some \<lparr> ts_sec = 0, ts_nsec = 0 \<rparr>), tm_set_errno os EINVAL w)"
    using ns by (intro nanosleep_refuses) (simp_all add: NSEC_PER_SEC_def)
  then show "usleep_hook os usec w = Some (Inr (- 1), tm_set_errno os EINVAL w)"
    using ns by (simp add: usleep_hook_def Let_def bnd_def NSEC_PER_SEC_def NSEC_PER_USEC_def ret_def
        signed_divide_int_def signed_modulo_int_def ns_def [symmetric])
qed

text \<open>One second, and a tenth of a second, for a system whose state is \<^verbatim>\<open>errno\<close> alone.\<close>

definition still_os :: "int time_os" where
  "still_os = \<lparr> tm_select = (\<lambda>_ w. (0, w)), tm_clock = (\<lambda>w. (\<lparr> ts_sec = 5, ts_nsec = 0 \<rparr>, w)),
     tm_errno = (\<lambda>w. w), tm_set_errno = (\<lambda>e _. e) \<rparr>"

theorem sleep_returns_at_once_witness:
  "sleep_hook still_os 1 0 = Some (Inr 0, EINVAL) \<and> usleep_hook still_os 100000 0 = Some (Inr (- 1), EINVAL)"
  using sleep_returns_at_once [of 1 still_os 0 100000] by (simp add: still_os_def)

end
