(* ===== verification/Pid_Wrappers.thy ===== *)
theory Pid_Wrappers
  imports Coord_Client Time_Wrappers
begin

text \<open>
  \<^verbatim>\<open>pid/pid_wrappers.c\<close>: the functions on processes that the library puts in place
  of those of the system. A program sees virtual pids only; a wrapper translates its arguments to real
  ones, makes the call, and translates what comes back. Both translations look into the process's table
  and ask the coordinator for the ids that are not in it.
\<close>

section \<open>The real calls\<close>

text \<open>
  The queries of \<^verbatim>\<open>libproc\<close> are one call that takes which query it is; it answers its
  status and the part of the buffer that matters to the wrappers: the pids in the descriptions of a
  process, or a list of pids.
\<close>

record bsd_pids =
  pb_pid :: u32
  pb_ppid :: u32
  pb_pgid :: u32
  pb_tpgid :: u32

datatype proc_buf = Buf_Null | Buf_Opaque bytes | Buf_Bsd bsd_pids | Buf_Pids "pid_t list"

datatype proc_query =
    Proc_Pidinfo int u64 int
  | Proc_Pidfdinfo int int int
  | Proc_Pidfileportinfo u32 int int
  | Proc_Name u32
  | Proc_Regionfilename u64 u32
  | Proc_Pidpath u32
  | Proc_Pid_Rusage int
  | Proc_Track_Dirty u32
  | Proc_Set_Dirty bool
  | Proc_Get_Dirty
  | Proc_Clear_Dirty u32
  | Proc_Terminate
  | Proc_Udata_Info int int
  | Proc_Listpgrppids int
  | Proc_Listchildpids int
  | Proc_Listpids u32 int
  | Proc_Listallpids int

record 'w pid_os = "'w client_os" +
  pw_set_errno :: "int \<Rightarrow> 'w \<Rightarrow> 'w"
  pw_getpgrp :: "'w \<Rightarrow> pid_t"
  pw_getpgid :: "pid_t \<Rightarrow> 'w \<Rightarrow> pid_t"
  pw_wait4 :: "pid_t \<Rightarrow> u32 \<Rightarrow> 'w \<Rightarrow> (pid_t \<times> u32) \<times> 'w"
  pw_kill :: "pid_t \<Rightarrow> int \<Rightarrow> 'w \<Rightarrow> int \<times> 'w"
  pw_killpg :: "pid_t \<Rightarrow> int \<Rightarrow> 'w \<Rightarrow> int \<times> 'w"
  pw_proc :: "proc_query \<Rightarrow> pid_t \<Rightarrow> 'w \<Rightarrow> (int \<times> proc_buf) \<times> 'w"

definition PROC_PIDTASKALLINFO :: int where "PROC_PIDTASKALLINFO = 2"
definition PROC_PIDTBSDINFO :: int where "PROC_PIDTBSDINFO = 3"
definition PROC_PIDT_SHORTBSDINFO :: int where "PROC_PIDT_SHORTBSDINFO = 13"
definition PROC_PGRP_ONLY :: u32 where "PROC_PGRP_ONLY = 2"
definition PROC_PPID_ONLY :: u32 where "PROC_PPID_ONLY = 6"
definition WNOHANG :: u32 where "WNOHANG = 1"

text \<open>The sizes of the three structures of the system's header, and the status of a child.\<close>

definition sizeof_bsdinfo :: int where "sizeof_bsdinfo = 136"
definition sizeof_taskallinfo :: int where "sizeof_taskallinfo = 232"
definition sizeof_bsdshortinfo :: int where "sizeof_bsdshortinfo = 64"

definition WIFEXITED :: "u32 \<Rightarrow> bool" where
  "WIFEXITED status \<longleftrightarrow> status AND 0x7F = 0"

definition WIFSIGNALED :: "u32 \<Rightarrow> bool" where
  "WIFSIGNALED status \<longleftrightarrow> status AND 0x7F \<noteq> 0x7F \<and> status AND 0x7F \<noteq> 0"

section \<open>Translation\<close>

definition table_lock :: "(('w, 'm) client_scheme, unit) prog" where
  "table_lock = bnd (gets (\<lambda>s. pid_table_acquire (cl_pids s))) (\<lambda>r.
     case r of Inl e \<Rightarrow> halt e | Inr g \<Rightarrow> modify (\<lambda>s. s\<lparr> cl_pids := g \<rparr>))"

definition table_unlock :: "(('w, 'm) client_scheme, unit) prog" where
  "table_unlock = modify (\<lambda>s. s\<lparr> cl_pids := pid_table_release (cl_pids s) \<rparr>)"

definition virtual_to_real_pid ::
  "('w, 'n) client_os_scheme \<Rightarrow> pid_t \<Rightarrow> (('w, 'm) client_scheme, pid_t) prog" where
  "virtual_to_real_pid os virt =
     sq table_lock
    (bnd (gets (\<lambda>s. pid_table_virtual_to_real (g_table (cl_pids s)) virt)) (\<lambda>real.
     bnd (if real \<noteq> - 1 then ret real else virt_to_real_pid_from_coord os virt) (\<lambda>real.
       sq table_unlock (ret real))))"

definition real_to_virtual_pid ::
  "('w, 'n) client_os_scheme \<Rightarrow> pid_t \<Rightarrow> (('w, 'm) client_scheme, pid_t) prog" where
  "real_to_virtual_pid os real =
     sq table_lock
    (bnd (gets (\<lambda>s. pid_table_real_to_virtual (g_table (cl_pids s)) real)) (\<lambda>virt.
     bnd (if virt \<noteq> - 1 then ret virt else real_to_virt_pid_from_coord os real) (\<lambda>virt.
       sq table_unlock (ret virt))))"

definition locked_table :: "(pid_globals \<Rightarrow> pid_globals) \<Rightarrow> (('w, 'm) client_scheme, unit) prog" where
  "locked_table f = sq table_lock (sq (modify (\<lambda>s. s\<lparr> cl_pids := f (cl_pids s) \<rparr>)) table_unlock)"

section \<open>Pids and groups\<close>

definition getpid_hook :: "('w, 'n) client_os_scheme \<Rightarrow> (('w, 'm) client_scheme, pid_t) prog" where
  "getpid_hook os = gets (\<lambda>s. if g_virt_pid (cl_pids s) \<noteq> - 1 then g_virt_pid (cl_pids s)
     else os_getpid os (t_world s))"

definition getppid_hook :: "('w, 'n) client_os_scheme \<Rightarrow> (('w, 'm) client_scheme, pid_t) prog" where
  "getppid_hook os = gets (\<lambda>s. if g_virt_ppid (cl_pids s) \<noteq> - 1 then g_virt_ppid (cl_pids s)
     else os_getppid os (t_world s))"

definition getpgrp_hook :: "('w, 'n) pid_os_scheme \<Rightarrow> (('w, 'm) client_scheme, pid_t) prog" where
  "getpgrp_hook os =
     unsafe_section
       (bnd (os_ask (pw_getpgrp os)) (\<lambda>pgrp.
        bnd (gets cl_pids) (\<lambda>g.
          if pgrp = g_real_pid g then ret (g_virt_pid g)
          else if pgrp = g_real_ppid g then ret (g_virt_ppid g)
          else real_to_virtual_pid os pgrp)))"

text \<open>The argument is a virtual pid; it is compared with the real pid of the process.\<close>

definition getpgid_hook :: "('w, 'n) pid_os_scheme \<Rightarrow> pid_t \<Rightarrow> (('w, 'm) client_scheme, pid_t) prog" where
  "getpgid_hook os pid =
     bnd (gets (\<lambda>s. g_real_pid (cl_pids s))) (\<lambda>real_self.
       if pid = 0 \<or> pid = real_self then getpgrp_hook os
       else
         unsafe_section
           (bnd (virtual_to_real_pid os pid) (\<lambda>real_pid.
              if real_pid = - 1 then ret (- 1)
              else bnd (os_ask (pw_getpgid os real_pid)) (\<lambda>pgid. real_to_virtual_pid os pgid))))"

section \<open>Fork and wait\<close>

text \<open>
  \<^verbatim>\<open>fork\<close> with the handlers it runs is the argument \<open>fork\<close>: it answers in the
  parent or in the child; \<open>register\<close> and \<open>failed\<close> are
  \<^verbatim>\<open>xnd_register_fork_handlers\<close> and \<^verbatim>\<open>xnd_atfork_failed\<close>.
\<close>

definition fork_hook ::
  "(('w, 'm) client_scheme, unit) prog \<Rightarrow> (('w, 'm) client_scheme, pid_t) prog \<Rightarrow>
     (('w, 'm) client_scheme, unit) prog \<Rightarrow> (('w, 'm) client_scheme, pid_t) prog" where
  "fork_hook register fork failed =
     unsafe_section
       (sq register
       (bnd fork (\<lambda>real_ret.
          if real_ret = - 1 then sq failed (ret (- 1))
          else if real_ret = 0 then ret 0
          else
            bnd (gets (\<lambda>s. env_get_pid_info True False False False (cl_env s))) (\<lambda>r.
              case r of
                Inl e \<Rightarrow> halt e
              | Inr (virt, _, _, _) \<Rightarrow>
                  (case virt of
                     None \<Rightarrow> halt Undefined
                   | Some virt \<Rightarrow> sq (locked_table (pid_table_update virt real_ret)) (ret virt))))))"

text \<open>
  The pid that the real \<^verbatim>\<open>wait4\<close> is called with. Negating the smallest
  \<^verbatim>\<open>int\<close> is undefined.
\<close>

definition wait_target :: "('w, 'n) client_os_scheme \<Rightarrow> pid_t \<Rightarrow> (('w, 'm) client_scheme, pid_t) prog" where
  "wait_target os pid =
     (if pid \<le> - 2 then
        if pid = - (2 ^ 31) then halt Undefined
        else bnd (virtual_to_real_pid os (- pid)) (\<lambda>real. sq (assert_p (real \<noteq> - 1)) (ret (- real)))
      else if pid = 0 \<or> pid = - 1 then ret pid
      else bnd (virtual_to_real_pid os pid) (\<lambda>real. sq (assert_p (real \<noteq> - 1)) (ret real)))"

text \<open>What becomes of a child that was waited for; the answer is its virtual pid.\<close>

definition reap_child ::
  "('w, 'n) client_os_scheme \<Rightarrow> pid_t \<Rightarrow> u32 \<Rightarrow> (('w, 'm) client_scheme, pid_t) prog" where
  "reap_child os real_ret status =
     bnd (real_to_virtual_pid os real_ret) (\<lambda>virt.
     sq (if WIFEXITED status then locked_table (pid_table_erase virt)
         else if WIFSIGNALED status then
           bnd (virtual_to_real_pid os virt) (\<lambda>real.
           sq (notify_coord_of_exit os real) (locked_table (pid_table_erase virt)))
         else ret ())
        (ret virt))"

text \<open>
  One turn of the loop. The answer ends it: the result, the status and the value of
  \<^verbatim>\<open>errno\<close>. A failure leaves the loop without \<^verbatim>\<open>unsafe_exit\<close>.
\<close>

definition wait_body ::
  "('w, 'n) pid_os_scheme \<Rightarrow> ('w, 'k) time_os_scheme \<Rightarrow> pid_t \<Rightarrow> u32 \<Rightarrow> int \<Rightarrow>
     (('w, 'm) client_scheme, (pid_t \<times> u32 \<times> int) option) prog" where
  "wait_body os tm pid options sv_errno =
     sq unsafe_enter
    (bnd (wait_target os pid) (\<lambda>real_pid.
     bnd (os_call (pw_wait4 os real_pid (options OR WNOHANG))) (\<lambda>(real_ret, status).
       if real_ret = - 1 then bnd (os_ask (os_errno os)) (\<lambda>e. ret (Some (- 1, status, e)))
       else
         bnd (if real_ret = 0 then ret 0 else reap_child os real_ret status) (\<lambda>virt_ret.
         sq unsafe_exit
           (if options AND WNOHANG \<noteq> 0 \<or> virt_ret \<noteq> 0 then ret (Some (virt_ret, status, sv_errno))
            else sq (zoom t_world (\<lambda>w s. s\<lparr> t_world := w \<rparr>)
                       (bnd (nanosleep_hook tm \<lparr> ts_sec = 0, ts_nsec = 1000 \<rparr> None) (\<lambda>_. ret ())))
                    (ret None))))))"

definition wait4_hook ::
  "('w, 'n) pid_os_scheme \<Rightarrow> ('w, 'k) time_os_scheme \<Rightarrow> pid_t \<Rightarrow> u32 \<Rightarrow>
     (('w, 'm) client_scheme, pid_t \<times> u32) prog" where
  "wait4_hook os tm pid options =
     bnd (os_ask (os_errno os)) (\<lambda>sv_errno.
     bnd (repeat_until (wait_body os tm pid options sv_errno)) (\<lambda>(retval, status, errno).
     sq (os_do (pw_set_errno os errno)) (ret (retval, status))))"

definition wait_hook ::
  "('w, 'n) pid_os_scheme \<Rightarrow> ('w, 'k) time_os_scheme \<Rightarrow> (('w, 'm) client_scheme, pid_t \<times> u32) prog" where
  "wait_hook os tm = wait4_hook os tm (- 1) 0"

definition waitpid_hook ::
  "('w, 'n) pid_os_scheme \<Rightarrow> ('w, 'k) time_os_scheme \<Rightarrow> pid_t \<Rightarrow> u32 \<Rightarrow>
     (('w, 'm) client_scheme, pid_t \<times> u32) prog" where
  "waitpid_hook os tm pid options = wait4_hook os tm pid options"

definition wait3_hook ::
  "('w, 'n) pid_os_scheme \<Rightarrow> ('w, 'k) time_os_scheme \<Rightarrow> u32 \<Rightarrow> (('w, 'm) client_scheme, pid_t \<times> u32) prog" where
  "wait3_hook os tm options = wait4_hook os tm (- 1) options"

section \<open>Signals\<close>

text \<open>The checkpoint signal is read from the environment once.\<close>

definition ckpt_signal :: "(('w, 'm) client_scheme, int) prog" where
  "ckpt_signal =
     bnd (gets (\<lambda>s. env_get_ckpt_signal (cl_ckpt_sig s) (cl_env s))) (\<lambda>(sig, cache).
     sq (modify (\<lambda>s. s\<lparr> cl_ckpt_sig := cache \<rparr>)) (ret sig))"

definition killpg_hook :: "('w, 'n) pid_os_scheme \<Rightarrow> pid_t \<Rightarrow> int \<Rightarrow> (('w, 'm) client_scheme, int) prog" where
  "killpg_hook os pgrp sig =
     bnd ckpt_signal (\<lambda>ckpt_sig.
       if sig = ckpt_sig then ret (- 1)
       else
         unsafe_section
           (if pgrp = 0 then os_call (pw_killpg os 0 sig)
            else
              bnd (virtual_to_real_pid os pgrp) (\<lambda>real.
                if real = - 1 then ret (- 1) else os_call (pw_killpg os real sig))))"

definition kill_hook :: "('w, 'n) pid_os_scheme \<Rightarrow> pid_t \<Rightarrow> int \<Rightarrow> (('w, 'm) client_scheme, int) prog" where
  "kill_hook os pid sig =
     bnd ckpt_signal (\<lambda>ckpt_sig.
       if sig = ckpt_sig then ret (- 1)
       else if pid \<le> - 2 then (if pid = - (2 ^ 31) then halt Undefined else killpg_hook os (- pid) sig)
       else if pid = - 1 then unsafe_section (os_call (pw_kill os (- 1) sig))
       else if pid = 0 then killpg_hook os 0 sig
       else
         unsafe_section
           (bnd (virtual_to_real_pid os pid) (\<lambda>real.
              if real = - 1 then ret (- 1) else os_call (pw_kill os real sig))))"

section \<open>Queries\<close>

text \<open>
  Pids in an answer that have no virtual pid stay as they are. The fields are unsigned, the translation
  is over \<^verbatim>\<open>pid_t\<close>.
\<close>

definition virt_or_same :: "('w, 'n) client_os_scheme \<Rightarrow> u32 \<Rightarrow> (('w, 'm) client_scheme, u32) prog" where
  "virt_or_same os pid =
     bnd (real_to_virtual_pid os (sint pid)) (\<lambda>virt. ret (if virt \<noteq> - 1 then word_of_int virt else pid))"

definition bsdinfo_real_to_virt ::
  "('w, 'n) client_os_scheme \<Rightarrow> bsd_pids \<Rightarrow> (('w, 'm) client_scheme, bsd_pids) prog" where
  "bsdinfo_real_to_virt os bsd =
     bnd (virt_or_same os (pb_pid bsd)) (\<lambda>pid.
     bnd (virt_or_same os (pb_ppid bsd)) (\<lambda>ppid.
     bnd (virt_or_same os (pb_pgid bsd)) (\<lambda>pgid.
     bnd (virt_or_same os (pb_tpgid bsd)) (\<lambda>tpgid.
       ret (bsd\<lparr> pb_pid := pid, pb_ppid := ppid, pb_pgid := pgid, pb_tpgid := tpgid \<rparr>)))))"

definition bsdshortinfo_real_to_virt ::
  "('w, 'n) client_os_scheme \<Rightarrow> bsd_pids \<Rightarrow> (('w, 'm) client_scheme, bsd_pids) prog" where
  "bsdshortinfo_real_to_virt os bsd =
     bnd (virt_or_same os (pb_pid bsd)) (\<lambda>pid.
     bnd (virt_or_same os (pb_ppid bsd)) (\<lambda>ppid.
     bnd (virt_or_same os (pb_pgid bsd)) (\<lambda>pgid.
       ret (bsd\<lparr> pb_pid := pid, pb_ppid := ppid, pb_pgid := pgid \<rparr>))))"

text \<open>The first \<open>n\<close> entries of a list; reading more than the buffer has is undefined.\<close>

fun pid_list_real_to_virt ::
  "('w, 'n) client_os_scheme \<Rightarrow> pid_t list \<Rightarrow> nat \<Rightarrow> (('w, 'm) client_scheme, pid_t list) prog" where
  "pid_list_real_to_virt os ps 0 = ret ps"
| "pid_list_real_to_virt os [] (Suc n) = halt Undefined"
| "pid_list_real_to_virt os (p # ps) (Suc n) =
     bnd (if p = 0 then ret p
          else bnd (real_to_virtual_pid os p) (\<lambda>virt. ret (if virt \<noteq> - 1 then virt else p))) (\<lambda>q.
     bnd (pid_list_real_to_virt os ps n) (\<lambda>qs. ret (q # qs)))"

text \<open>
  The shape all queries have: without a translation of the pid, the answer \<open>fail\<close> and
  \<^verbatim>\<open>ESRCH\<close>; otherwise the real call, and the translation \<open>back\<close> of what it
  wrote.
\<close>

definition proc_hook ::
  "('w, 'n) pid_os_scheme \<Rightarrow> int \<Rightarrow> (int \<Rightarrow> proc_buf \<Rightarrow> (('w, 'm) client_scheme, proc_buf) prog) \<Rightarrow>
     proc_query \<Rightarrow> pid_t \<Rightarrow> (('w, 'm) client_scheme, int \<times> proc_buf) prog" where
  "proc_hook os fail back q pid =
     bnd (gets XND_SKIP_INTERPOSE) (\<lambda>skip.
       if skip then os_call (pw_proc os q pid)
       else
         sq unsafe_enter
        (bnd (virtual_to_real_pid os pid) (\<lambda>real.
           if real = - 1 then sq unsafe_exit (sq (os_do (pw_set_errno os ESRCH)) (ret (fail, Buf_Null)))
           else
             bnd (os_call (pw_proc os q real)) (\<lambda>(r, buf).
             bnd (back r buf) (\<lambda>buf. sq unsafe_exit (ret (r, buf)))))))"

definition as_is :: "int \<Rightarrow> proc_buf \<Rightarrow> (('w, 'm) client_scheme, proc_buf) prog" where
  "as_is r buf = ret buf"

definition pids_back ::
  "('w, 'n) client_os_scheme \<Rightarrow> int \<Rightarrow> proc_buf \<Rightarrow> (('w, 'm) client_scheme, proc_buf) prog" where
  "pids_back os r buf =
     (case buf of
        Buf_Pids ps \<Rightarrow>
          if r > 0 then bnd (pid_list_real_to_virt os ps (nat (r div 4))) (\<lambda>ps. ret (Buf_Pids ps)) else ret buf
      | _ \<Rightarrow> ret buf)"

definition pidinfo_back ::
  "('w, 'n) client_os_scheme \<Rightarrow> int \<Rightarrow> int \<Rightarrow> proc_buf \<Rightarrow> (('w, 'm) client_scheme, proc_buf) prog" where
  "pidinfo_back os flavor r buf =
     (case buf of
        Buf_Bsd bsd \<Rightarrow>
          if flavor = PROC_PIDTBSDINFO \<and> r > 0 \<and> r \<ge> sizeof_bsdinfo \<or>
             flavor = PROC_PIDTASKALLINFO \<and> r > 0 \<and> r \<ge> sizeof_taskallinfo
          then bnd (bsdinfo_real_to_virt os bsd) (\<lambda>bsd. ret (Buf_Bsd bsd))
          else if flavor = PROC_PIDT_SHORTBSDINFO \<and> r > 0 \<and> r \<ge> sizeof_bsdshortinfo
          then bnd (bsdshortinfo_real_to_virt os bsd) (\<lambda>bsd. ret (Buf_Bsd bsd))
          else ret buf
      | _ \<Rightarrow> ret buf)"

definition proc_pidinfo_hook ::
  "('w, 'n) pid_os_scheme \<Rightarrow> pid_t \<Rightarrow> int \<Rightarrow> u64 \<Rightarrow> int \<Rightarrow> (('w, 'm) client_scheme, int \<times> proc_buf) prog" where
  "proc_pidinfo_hook os pid flavor arg bufsize =
     proc_hook os 0 (pidinfo_back os flavor) (Proc_Pidinfo flavor arg bufsize) pid"

definition proc_pidfdinfo_hook ::
  "('w, 'n) pid_os_scheme \<Rightarrow> pid_t \<Rightarrow> int \<Rightarrow> int \<Rightarrow> int \<Rightarrow> (('w, 'm) client_scheme, int \<times> proc_buf) prog" where
  "proc_pidfdinfo_hook os pid fd flavor bufsize = proc_hook os 0 as_is (Proc_Pidfdinfo fd flavor bufsize) pid"

definition proc_pidfileportinfo_hook ::
  "('w, 'n) pid_os_scheme \<Rightarrow> pid_t \<Rightarrow> u32 \<Rightarrow> int \<Rightarrow> int \<Rightarrow> (('w, 'm) client_scheme, int \<times> proc_buf) prog" where
  "proc_pidfileportinfo_hook os pid fileport flavor bufsize =
     proc_hook os 0 as_is (Proc_Pidfileportinfo fileport flavor bufsize) pid"

definition proc_name_hook ::
  "('w, 'n) pid_os_scheme \<Rightarrow> pid_t \<Rightarrow> u32 \<Rightarrow> (('w, 'm) client_scheme, int \<times> proc_buf) prog" where
  "proc_name_hook os pid bufsize = proc_hook os 0 as_is (Proc_Name bufsize) pid"

definition proc_regionfilename_hook ::
  "('w, 'n) pid_os_scheme \<Rightarrow> pid_t \<Rightarrow> u64 \<Rightarrow> u32 \<Rightarrow> (('w, 'm) client_scheme, int \<times> proc_buf) prog" where
  "proc_regionfilename_hook os pid addr bufsize = proc_hook os 0 as_is (Proc_Regionfilename addr bufsize) pid"

definition proc_pidpath_hook ::
  "('w, 'n) pid_os_scheme \<Rightarrow> pid_t \<Rightarrow> u32 \<Rightarrow> (('w, 'm) client_scheme, int \<times> proc_buf) prog" where
  "proc_pidpath_hook os pid bufsize = proc_hook os 0 as_is (Proc_Pidpath bufsize) pid"

definition proc_pid_rusage_hook ::
  "('w, 'n) pid_os_scheme \<Rightarrow> pid_t \<Rightarrow> int \<Rightarrow> (('w, 'm) client_scheme, int \<times> proc_buf) prog" where
  "proc_pid_rusage_hook os pid flavor = proc_hook os (- 1) as_is (Proc_Pid_Rusage flavor) pid"

definition proc_track_dirty_hook ::
  "('w, 'n) pid_os_scheme \<Rightarrow> pid_t \<Rightarrow> u32 \<Rightarrow> (('w, 'm) client_scheme, int \<times> proc_buf) prog" where
  "proc_track_dirty_hook os pid flags = proc_hook os (- 1) as_is (Proc_Track_Dirty flags) pid"

definition proc_set_dirty_hook ::
  "('w, 'n) pid_os_scheme \<Rightarrow> pid_t \<Rightarrow> bool \<Rightarrow> (('w, 'm) client_scheme, int \<times> proc_buf) prog" where
  "proc_set_dirty_hook os pid dirty = proc_hook os (- 1) as_is (Proc_Set_Dirty dirty) pid"

definition proc_get_dirty_hook ::
  "('w, 'n) pid_os_scheme \<Rightarrow> pid_t \<Rightarrow> (('w, 'm) client_scheme, int \<times> proc_buf) prog" where
  "proc_get_dirty_hook os pid = proc_hook os (- 1) as_is Proc_Get_Dirty pid"

definition proc_clear_dirty_hook ::
  "('w, 'n) pid_os_scheme \<Rightarrow> pid_t \<Rightarrow> u32 \<Rightarrow> (('w, 'm) client_scheme, int \<times> proc_buf) prog" where
  "proc_clear_dirty_hook os pid flags = proc_hook os (- 1) as_is (Proc_Clear_Dirty flags) pid"

definition proc_terminate_hook ::
  "('w, 'n) pid_os_scheme \<Rightarrow> pid_t \<Rightarrow> (('w, 'm) client_scheme, int \<times> proc_buf) prog" where
  "proc_terminate_hook os pid = proc_hook os (- 1) as_is Proc_Terminate pid"

definition proc_udata_info_hook ::
  "('w, 'n) pid_os_scheme \<Rightarrow> pid_t \<Rightarrow> int \<Rightarrow> int \<Rightarrow> (('w, 'm) client_scheme, int \<times> proc_buf) prog" where
  "proc_udata_info_hook os pid flavor bufsize = proc_hook os 0 as_is (Proc_Udata_Info flavor bufsize) pid"

definition proc_listpgrppids_hook ::
  "('w, 'n) pid_os_scheme \<Rightarrow> pid_t \<Rightarrow> int \<Rightarrow> (('w, 'm) client_scheme, int \<times> proc_buf) prog" where
  "proc_listpgrppids_hook os pgrp bufsize = proc_hook os 0 (pids_back os) (Proc_Listpgrppids bufsize) pgrp"

definition proc_listchildpids_hook ::
  "('w, 'n) pid_os_scheme \<Rightarrow> pid_t \<Rightarrow> int \<Rightarrow> (('w, 'm) client_scheme, int \<times> proc_buf) prog" where
  "proc_listchildpids_hook os ppid bufsize = proc_hook os 0 (pids_back os) (Proc_Listchildpids bufsize) ppid"

text \<open>Only two kinds of list have a pid as their argument.\<close>

definition plain_query ::
  "('w, 'n) pid_os_scheme \<Rightarrow> proc_query \<Rightarrow> pid_t \<Rightarrow> (('w, 'm) client_scheme, int \<times> proc_buf) prog" where
  "plain_query os q pid =
     wrapped (os_call (pw_proc os q pid))
       (bnd (os_call (pw_proc os q pid)) (\<lambda>(r, buf). bnd (pids_back os r buf) (\<lambda>buf. ret (r, buf))))"

definition proc_listpids_hook ::
  "('w, 'n) pid_os_scheme \<Rightarrow> u32 \<Rightarrow> u32 \<Rightarrow> int \<Rightarrow> (('w, 'm) client_scheme, int \<times> proc_buf) prog" where
  "proc_listpids_hook os type typeinfo bufsize =
     (if type = PROC_PGRP_ONLY \<or> type = PROC_PPID_ONLY
      then proc_hook os 0 (pids_back os) (Proc_Listpids type bufsize) (sint typeinfo)
      else plain_query os (Proc_Listpids type bufsize) (sint typeinfo))"

definition proc_listallpids_hook ::
  "('w, 'n) pid_os_scheme \<Rightarrow> int \<Rightarrow> (('w, 'm) client_scheme, int \<times> proc_buf) prog" where
  "proc_listallpids_hook os bufsize = plain_query os (Proc_Listallpids bufsize) 0"

end
