(* ===== verification/Pid_Props.thy ===== *)
theory Pid_Props
  imports Pid_Wrappers Session
begin

text \<open>
  What the wrappers of \<^theory_text>\<open>Pid_Wrappers\<close> do: a pid the process does not know is
  translated by the coordinator, in a conversation over the second connection; a \<^verbatim>\<open>wait\<close>
  that fails leaves the thread in a section that checkpoints may not interrupt.
\<close>

section \<open>Translation by the coordinator\<close>

text \<open>What the coordinator knows: its table first, then the list of its processes.\<close>

definition coord_real_of :: "'w coord \<Rightarrow> pid_t \<Rightarrow> pid_t" where
  "coord_real_of s virt =
     (if pid_table_virtual_to_real (c_table s) virt \<noteq> - 1 then pid_table_virtual_to_real (c_table s) virt
      else plist_virt_to_real (c_procs s) virt)"

definition coord_virt_of :: "'w coord \<Rightarrow> pid_t \<Rightarrow> pid_t" where
  "coord_virt_of s real =
     (if pid_table_real_to_virtual (c_table s) real \<noteq> - 1 then pid_table_real_to_virtual (c_table s) real
      else plist_real_to_virt (c_procs s) real)"

definition answer :: "(pid_t \<Rightarrow> xnd_msg \<Rightarrow> xnd_msg) \<Rightarrow> pid_t \<Rightarrow> xnd_msg" where
  "answer put pid = put pid (blank_msg\<lparr> m_hdr := XND_COORD_ACK,
     m_ret := (if pid \<noteq> - 1 then XND_SUCCESS else XND_FAILURE) \<rparr>)"

abbreviation "answer_real \<equiv> answer (\<lambda>pid m. m\<lparr> m_real_pid := pid \<rparr>)"
abbreviation "answer_virt \<equiv> answer (\<lambda>pid m. m\<lparr> m_virt_pid := pid \<rparr>)"

lemma answer_sel [simp]:
  "m_hdr (answer_real pid) = XND_COORD_ACK" "m_ret (answer_real pid) = (if pid \<noteq> - 1 then XND_SUCCESS else XND_FAILURE)"
  "m_real_pid (answer_real pid) = pid"
  "m_hdr (answer_virt pid) = XND_COORD_ACK" "m_ret (answer_virt pid) = (if pid \<noteq> - 1 then XND_SUCCESS else XND_FAILURE)"
  "m_virt_pid (answer_virt pid) = pid"
  by (simp_all add: answer_def)

lemma oob_wire:
  assumes "0 \<le> w_fresh (t_world k)" and "cl_oob_fd k = - 1" and "\<not> cl_oob_locked k"
    and "w_in (t_world k) (w_fresh (t_world k)) = [ans]" and "m_hdr ans = XND_COORD_ACK"
  shows "\<exists>k'. oob_translate (wire_os base) req field k =
      Some (Inr (if m_ret ans = XND_SUCCESS then field ans else - 1), k') \<and>
    w_log (t_world k') = w_log (t_world k) @ [Sent (Some (req\<lparr> m_xnd_pid := cl_xnd_pid k \<rparr>)), Got (Some ans)] \<and>
    cl_pids k' = cl_pids k \<and> cl_oob_fd k' = w_fresh (t_world k) \<and> \<not> cl_oob_locked k' \<and> l_self k' = l_self k"
  using assms
  by (simp add: oob_translate_def oob_lock_def oob_unlock_def oob_open_def connect_wire run_simps run_calls
      send_msg_to_coord_def recv_msg_from_coord_def wire_recv_def)

lemma send_or_abort_wire:
  "send_or_abort (wire_os base) fd m s = Some (Inr (), s\<lparr> c_world := (c_world s)\<lparr> w_log := w_log (c_world s) @ [Sent (Some m)] \<rparr>,
     c_log := c_log s @ [Ev_Send fd (m_hdr m)] \<rparr>)"
  by (simp add: send_or_abort_def coord_send_msg_def log_event_def run_simps run_calls assert_p_def)

text \<open>Recording the connection in the list changes no answer.\<close>

lemma known_update_oob:
  "coord_real_of (s\<lparr> c_procs := plist_update a (\<lambda>p. p\<lparr> p_oob_fd := fd \<rparr>) (c_procs s) \<rparr>) v = coord_real_of s v"
  "coord_virt_of (s\<lparr> c_procs := plist_update a (\<lambda>p. p\<lparr> p_oob_fd := fd \<rparr>) (c_procs s) \<rparr>) r = coord_virt_of s r"
proof -
  have "plist_virt_to_real (plist_update a (\<lambda>p. p\<lparr> p_oob_fd := fd \<rparr>) ps) v = plist_virt_to_real ps v"
    "plist_real_to_virt (plist_update a (\<lambda>p. p\<lparr> p_oob_fd := fd \<rparr>) ps) r = plist_real_to_virt ps r" for ps
    by (induction ps) (auto simp: plist_virt_to_real_def plist_real_to_virt_def plist_find_def plist_update_def
        split: if_splits)
  then show "coord_real_of (s\<lparr> c_procs := plist_update a (\<lambda>p. p\<lparr> p_oob_fd := fd \<rparr>) (c_procs s) \<rparr>) v = coord_real_of s v"
    "coord_virt_of (s\<lparr> c_procs := plist_update a (\<lambda>p. p\<lparr> p_oob_fd := fd \<rparr>) (c_procs s) \<rparr>) r = coord_virt_of s r"
    by (simp_all add: coord_real_of_def coord_virt_of_def)
qed

lemma oob_answer_wire:
  assumes "plist_find (\<lambda>p. p_xnd_pid p = m_xnd_pid m) (c_procs s) = Some (a, p)"
  shows "m_hdr m = XND_VIRT_TO_REAL \<Longrightarrow>
      \<exists>s'. coord_accept (wire_os base) fd m s = Some (Inr (), s') \<and> 
        w_log (c_world s') = w_log (c_world s) @ [Sent (Some (answer_real (coord_real_of s (m_virt_pid m))))]"
    and "m_hdr m = XND_REAL_TO_VIRT \<Longrightarrow>
      \<exists>s'. coord_accept (wire_os base) fd m s = Some (Inr (), s') \<and> 
        w_log (c_world s') = w_log (c_world s) @ [Sent (Some (answer_virt (coord_virt_of s (m_real_pid m))))]"
  using assms known_update_oob(1) [of a fd s "m_virt_pid m"] known_update_oob(2) [of a fd s "m_real_pid m"]
  by (auto simp: coord_accept_def oob_request_def coord_send_virt_to_real_def coord_send_real_to_virt_def
      set_proc_def run_simps send_or_abort_wire coord_real_of_def coord_virt_of_def answer_def)

lemma coord_known_quiet [simp]:
  "coord_real_of (received s m ms) v = coord_real_of s v" "coord_virt_of (received s m ms) r = coord_virt_of s r"
  by (simp_all add: coord_real_of_def coord_virt_of_def)

text \<open>
  The two translations with nothing in the process's table: the request goes out, and what comes back
  is the result.
\<close>

lemma pids_relock:
  assumes "\<not> g_locked g"
  shows "pid_table_release (g\<lparr> g_locked := True \<rparr>) = g"
  using assms by (cases g) (simp add: pid_table_release_def)

lemma translate_wire:
  assumes "0 \<le> w_fresh (t_world k)" and "cl_oob_fd k = - 1" and "\<not> cl_oob_locked k" and "\<not> g_locked (cl_pids k)"
    and "w_in (t_world k) (w_fresh (t_world k)) = [ans]" and "m_hdr ans = XND_COORD_ACK"
  shows "pid_table_virtual_to_real (g_table (cl_pids k)) virt = - 1 \<Longrightarrow>
      \<exists>k'. virtual_to_real_pid (wire_os base) virt k = Some (Inr (if m_ret ans = XND_SUCCESS then m_real_pid ans else - 1), k') \<and>
        w_log (t_world k') = w_log (t_world k) @ [Sent (Some (blank_msg\<lparr> m_hdr := XND_VIRT_TO_REAL, m_virt_pid := virt, m_xnd_pid := cl_xnd_pid k \<rparr>)), Got (Some ans)] \<and>
        cl_pids k' = cl_pids k \<and> l_self k' = l_self k"
    and "pid_table_real_to_virtual (g_table (cl_pids k)) real = - 1 \<Longrightarrow>
      \<exists>k'. real_to_virtual_pid (wire_os base) real k = Some (Inr (if m_ret ans = XND_SUCCESS then m_virt_pid ans else - 1), k') \<and>
        w_log (t_world k') = w_log (t_world k) @ [Sent (Some (blank_msg\<lparr> m_hdr := XND_REAL_TO_VIRT, m_real_pid := real, m_xnd_pid := cl_xnd_pid k \<rparr>)), Got (Some ans)] \<and>
        cl_pids k' = cl_pids k \<and> l_self k' = l_self k"
proof -
  let ?k = "k\<lparr> cl_pids := (cl_pids k)\<lparr> g_locked := True \<rparr> \<rparr>"
  have lock: "table_lock k = Some (Inr (), ?k)"
    using assms(4) by (simp add: table_lock_def run_simps pid_table_acquire_def)
  note oob = oob_wire [of ?k ans base]
  { assume "pid_table_virtual_to_real (g_table (cl_pids k)) virt = - 1"
    with assms lock oob [of "blank_msg\<lparr> m_hdr := XND_VIRT_TO_REAL, m_virt_pid := virt \<rparr>" m_real_pid]
    show "\<exists>k'. virtual_to_real_pid (wire_os base) virt k = Some (Inr (if m_ret ans = XND_SUCCESS then m_real_pid ans else - 1), k') \<and>
        w_log (t_world k') = w_log (t_world k) @ [Sent (Some (blank_msg\<lparr> m_hdr := XND_VIRT_TO_REAL, m_virt_pid := virt, m_xnd_pid := cl_xnd_pid k \<rparr>)), Got (Some ans)] \<and>
        cl_pids k' = cl_pids k \<and> l_self k' = l_self k"
      by (auto simp: virtual_to_real_pid_def virt_to_real_pid_from_coord_def run_simps table_unlock_def pids_relock) }
  { assume "pid_table_real_to_virtual (g_table (cl_pids k)) real = - 1"
    with assms lock oob [of "blank_msg\<lparr> m_hdr := XND_REAL_TO_VIRT, m_real_pid := real \<rparr>" m_virt_pid]
    show "\<exists>k'. real_to_virtual_pid (wire_os base) real k = Some (Inr (if m_ret ans = XND_SUCCESS then m_virt_pid ans else - 1), k') \<and>
        w_log (t_world k') = w_log (t_world k) @ [Sent (Some (blank_msg\<lparr> m_hdr := XND_REAL_TO_VIRT, m_real_pid := real, m_xnd_pid := cl_xnd_pid k \<rparr>)), Got (Some ans)] \<and>
        cl_pids k' = cl_pids k \<and> l_self k' = l_self k"
      by (auto simp: real_to_virtual_pid_def real_to_virt_pid_from_coord_def run_simps table_unlock_def pids_relock) }
qed

text \<open>
  C15: a pid that the process has never seen is translated by the coordinator. A registered process with
  nothing in its own table, which makes its first request and so has no second connection yet, opens one;
  the request and the answer are an exchange that ends on both sides, in which neither waits in vain. The
  result is the entry of the coordinator's table, or else that of a process in its list, or \<open>- 1\<close> if it
  has neither, in both directions; the process's own table, its lock and the thread are as before.
\<close>

theorem translation_by_coordinator:
  assumes "0 \<le> w_fresh (t_world k)" and "0 \<le> w_fresh (c_world s)" and "cl_oob_fd k = - 1"
    and "\<not> cl_oob_locked k" and "\<not> g_locked (cl_pids k)"
    and registered: "plist_find (\<lambda>p. p_xnd_pid p = cl_xnd_pid k) (c_procs s) \<noteq> None"
    and unknown: "pid_table_virtual_to_real (g_table (cl_pids k)) virt = - 1"
      "pid_table_real_to_virtual (g_table (cl_pids k)) real = - 1"
  shows "(\<exists>k' s'. conversation (virtual_to_real_pid (wire_os base) virt) (coord_wait_for_connection (wire_os base'))
       k s (Inr (coord_real_of s virt)) (Inr ()) k' s' \<and> cl_pids k' = cl_pids k \<and> l_self k' = l_self k) \<and>
    (\<exists>k' s'. conversation (real_to_virtual_pid (wire_os base) real) (coord_wait_for_connection (wire_os base'))
       k s (Inr (coord_virt_of s real)) (Inr ()) k' s' \<and> cl_pids k' = cl_pids k \<and> l_self k' = l_self k)"
proof
  let ?fd = "w_fresh (c_world s)" and ?k = "\<lambda>ans. k\<lparr> t_world := deliver [ans] (t_world k) \<rparr>"
  obtain a p where ap: "plist_find (\<lambda>p. p_xnd_pid p = cl_xnd_pid k) (c_procs s) = Some (a, p)"
    using registered by auto
  define req where "req = blank_msg\<lparr> m_hdr := XND_VIRT_TO_REAL, m_virt_pid := virt, m_xnd_pid := cl_xnd_pid k \<rparr>"
  have req: "m_hdr req = XND_VIRT_TO_REAL" "m_virt_pid req = virt" "m_xnd_pid req = cl_xnd_pid k"
    by (simp_all add: req_def)
  obtain k' where k': "virtual_to_real_pid (wire_os base) virt (?k (answer_real (coord_real_of s virt))) =
      Some (Inr (coord_real_of s virt), k')" "w_log (t_world k') = [Sent (Some req), Got (Some (answer_real (coord_real_of s virt)))]" "cl_pids k' = cl_pids k" "l_self k' = l_self k"
    using translate_wire(1) [of "?k (answer_real (coord_real_of s virt))" "answer_real (coord_real_of s virt)" virt base]
      assms(1,3-5) unknown(1) by (fastforce simp: req_def)
  obtain s' where s': "coord_accept (wire_os base') ?fd req (received s req []) = Some (Inr (), s')"
    "w_log (c_world s') = [Got (Some req), Sent (Some (answer_real (coord_real_of s virt)))]"
    using oob_answer_wire(1) [of req "received s req []" a p base' ?fd] ap req
    by auto
  show "\<exists>k' s'. conversation (virtual_to_real_pid (wire_os base) virt) (coord_wait_for_connection (wire_os base'))
       k s (Inr (coord_real_of s virt)) (Inr ()) k' s' \<and> cl_pids k' = cl_pids k \<and> l_self k' = l_self k"
    using conversationI [of "virtual_to_real_pid (wire_os base) virt" "[answer_real (coord_real_of s virt)]" k, OF k'(1) _ assms(2) s'(1)]
      s' k' plays_turn [OF plays_nothing] by fastforce
next
  let ?fd = "w_fresh (c_world s)" and ?k = "\<lambda>ans. k\<lparr> t_world := deliver [ans] (t_world k) \<rparr>"
  obtain a p where ap: "plist_find (\<lambda>p. p_xnd_pid p = cl_xnd_pid k) (c_procs s) = Some (a, p)"
    using registered by auto
  define req where "req = blank_msg\<lparr> m_hdr := XND_REAL_TO_VIRT, m_real_pid := real, m_xnd_pid := cl_xnd_pid k \<rparr>"
  have req: "m_hdr req = XND_REAL_TO_VIRT" "m_real_pid req = real" "m_xnd_pid req = cl_xnd_pid k"
    by (simp_all add: req_def)
  obtain k' where k': "real_to_virtual_pid (wire_os base) real (?k (answer_virt (coord_virt_of s real))) =
      Some (Inr (coord_virt_of s real), k')" "w_log (t_world k') = [Sent (Some req), Got (Some (answer_virt (coord_virt_of s real)))]" "cl_pids k' = cl_pids k" "l_self k' = l_self k"
    using translate_wire(2) [of "?k (answer_virt (coord_virt_of s real))" "answer_virt (coord_virt_of s real)" real base]
      assms(1,3-5) unknown(2) by (fastforce simp: req_def)
  obtain s' where s': "coord_accept (wire_os base') ?fd req (received s req []) = Some (Inr (), s')"
    "w_log (c_world s') = [Got (Some req), Sent (Some (answer_virt (coord_virt_of s real)))]"
    using oob_answer_wire(2) [of req "received s req []" a p base' ?fd] ap req by auto
  show "\<exists>k' s'. conversation (real_to_virtual_pid (wire_os base) real) (coord_wait_for_connection (wire_os base'))
       k s (Inr (coord_virt_of s real)) (Inr ()) k' s' \<and> cl_pids k' = cl_pids k \<and> l_self k' = l_self k"
    using conversationI [of "real_to_virtual_pid (wire_os base) real" "[answer_virt (coord_virt_of s real)]" k, OF k'(1) _ assms(2) s'(1)]
      s' k' plays_turn [OF plays_nothing] by fastforce
qed

theorem translation_by_coordinator_witness:
  "\<forall>(base :: (wire, unit) client_os_scheme) base' :: (wire, unit) client_os_scheme.
     (\<exists>k' s'. conversation (virtual_to_real_pid (wire_os base) 3) (coord_wait_for_connection (wire_os base'))
        session_client (session_coord\<lparr> c_table := vt_update 3 30 (c_table session_coord) \<rparr>) (Inr 30) (Inr ()) k' s') \<and>
     (\<exists>k' s'. conversation (real_to_virtual_pid (wire_os base) 77) (coord_wait_for_connection (wire_os base'))
        session_client (session_coord\<lparr> c_table := vt_update 3 30 (c_table session_coord) \<rparr>) (Inr (- 1)) (Inr ()) k' s')"
proof (intro allI)
  fix base base' :: "(wire, unit) client_os_scheme"
  let ?s = "session_coord\<lparr> c_table := vt_update 3 30 (c_table session_coord) \<rparr>"
  have known: "coord_real_of ?s 3 = 30" "coord_virt_of ?s 77 = - 1"
    by (simp_all add: coord_real_of_def coord_virt_of_def pid_table_virtual_to_real_def pid_table_real_to_virtual_def
        real_to_virtual_def plist_real_to_virt_def session_defs)
  have "0 \<le> w_fresh (t_world session_client)" "0 \<le> w_fresh (c_world ?s)" "cl_oob_fd session_client = - 1"
    "\<not> cl_oob_locked session_client" "\<not> g_locked (cl_pids session_client)"
    "plist_find (\<lambda>p. p_xnd_pid p = cl_xnd_pid session_client) (c_procs ?s) \<noteq> None"
    "pid_table_virtual_to_real (g_table (cl_pids session_client)) 3 = - 1"
    "pid_table_real_to_virtual (g_table (cl_pids session_client)) 77 = - 1"
    by (simp_all add: session_defs pid_table_virtual_to_real_def pid_table_real_to_virtual_def real_to_virtual_def)
  from translation_by_coordinator [OF this, of base base'] known
  show "(\<exists>k' s'. conversation (virtual_to_real_pid (wire_os base) 3) (coord_wait_for_connection (wire_os base'))
        session_client ?s (Inr 30) (Inr ()) k' s') \<and>
     (\<exists>k' s'. conversation (real_to_virtual_pid (wire_os base) 77) (coord_wait_for_connection (wire_os base'))
        session_client ?s (Inr (- 1)) (Inr ()) k' s')"
    by auto
qed

section \<open>A wait that fails\<close>

text \<open>Inside a section another one changes nothing of the thread.\<close>

lemma section_inside:
  assumes "l_self s = Some th" and "ti_state th = ST_UNSAFE" and "ti_depth th \<noteq> 0" and "ti_depth th \<noteq> - 1"
  shows "unsafe_section (ret r) s = Some (Inr r, s)"
proof -
  have "can_enter s"
    using assms by (simp add: can_enter_def)
  then have "runs (unsafe_section (ret r)) (\<lambda>a s'. a = r \<and> s' = s) s"
    unfolding unsafe_section_def runs_sq runs_bnd
    by (rule runs_mono [OF runs_unsafe_enter])
      (use \<open>can_enter s\<close> in \<open>auto intro!: runs_mono [OF runs_unsafe_exit]\<close>)
  then show ?thesis by (auto simp: runs_def)
qed

text \<open>
  C31: a failed wait keeps checkpoints out for good. When the real call fails, as it does for a process
  without children, the wrapper of \<^verbatim>\<open>wait4\<close> returns the failure but never leaves its
  section: the thread stays \<^const>\<open>ST_UNSAFE\<close> with a depth of one, the state in which the scan for
  threads to suspend waits for it, and no later section takes it out, since each only undoes its own
  entry.
\<close>

theorem failed_wait_never_leaves_section:
  assumes "l_self s = Some th" and "ti_state th = ST_RUNNING" and "ti_depth th = 0"
    and "pid = 0 \<or> pid = - 1"
    and "pw_wait4 os pid (options OR WNOHANG) (t_world s) = ((- 1, status), w)"
  shows "\<exists>s'. wait4_hook os tm pid options s = Some (Inr (- 1, status), s') \<and>
    l_self s' = Some (th\<lparr> ti_depth := 1, ti_state := ST_UNSAFE \<rparr>) \<and>
    unsafe_section (ret r) s' = Some (Inr r, s')"
proof -
  have enter: "unsafe_enter s = Some (Inr (), s\<lparr> l_self := Some (th\<lparr> ti_depth := 1, ti_state := ST_UNSAFE \<rparr>) \<rparr>)"
    using assms(1-3) by (simp add: unsafe_enter_def thread_state_cas_def)
  then have body: "wait_body os tm pid options e s =
      Some (Inr (Some (- 1, status, os_errno os w)), s\<lparr> l_self := Some (th\<lparr> ti_depth := 1, ti_state := ST_UNSAFE \<rparr>), t_world := w \<rparr>)" for e
    using assms(4,5) by (auto simp: wait_body_def wait_target_def run_simps run_calls)
  define s' where "s' = s\<lparr> l_self := Some (th\<lparr> ti_depth := 1, ti_state := ST_UNSAFE \<rparr>), t_world := pw_set_errno os (os_errno os w) w \<rparr>"
  have "wait4_hook os tm pid options s = Some (Inr (- 1, status), s')"
    by (simp add: wait4_hook_def run_simps run_calls repeat_until.simps [of "wait_body os tm pid options e" for e] body s'_def)
  moreover have "unsafe_section (ret r) s' = Some (Inr r, s')"
    by (rule section_inside [where th = "th\<lparr> ti_depth := 1, ti_state := ST_UNSAFE \<rparr>"]) (simp_all add: s'_def)
  ultimately show ?thesis
    by (auto simp: s'_def)
qed

definition lone_thread :: thread_info where
  "lone_thread = \<lparr> ti_self = 1, ti_start_routine = 0, ti_arg = 0, ti_state = ST_RUNNING, ti_depth = 0,
     ti_exiting = False, ti_joined = False, ti_uctx = [], ti_ss = (0, 0, 0), ti_sigblocked = 0, ti_tls = 0 \<rparr>"

theorem failed_wait_never_leaves_section_witness:
  "\<forall>(os :: (unit, unit) pid_os_scheme) (tm :: (unit, unit) time_os_scheme). \<exists>s'.
     wait4_hook (os\<lparr> pw_wait4 := \<lambda>_ _ w. ((- 1, 0), w) \<rparr>) tm (- 1) 0 ((client0 () (\<lambda>_. None))\<lparr> l_self := Some lone_thread \<rparr>)
       = Some (Inr (- 1, 0), s') \<and>
     l_self s' = Some (lone_thread\<lparr> ti_depth := 1, ti_state := ST_UNSAFE \<rparr>)"
proof (intro allI)
  fix os :: "(unit, unit) pid_os_scheme" and tm :: "(unit, unit) time_os_scheme"
  show "\<exists>s'. wait4_hook (os\<lparr> pw_wait4 := \<lambda>_ _ w. ((- 1, 0), w) \<rparr>) tm (- 1) 0
       ((client0 () (\<lambda>_. None))\<lparr> l_self := Some lone_thread \<rparr>) = Some (Inr (- 1, 0), s') \<and>
     l_self s' = Some (lone_thread\<lparr> ti_depth := 1, ti_state := ST_UNSAFE \<rparr>)"
    using failed_wait_never_leaves_section
      [of "(client0 () (\<lambda>_. None))\<lparr> l_self := Some lone_thread \<rparr>" lone_thread "- 1"
          "os\<lparr> pw_wait4 := \<lambda>_ _ w. ((- 1, 0), w) \<rparr>" 0 0 "()" tm "()"]
    by (auto simp: lone_thread_def)
qed

section \<open>A wrong comparison\<close>

text \<open>
  A process whose virtual pid is the real pid of the caller is mistaken for the caller: the group the
  wrapper of \<^verbatim>\<open>getpgid\<close> answers for it is the caller's.
\<close>

lemma getpgid_of_other_process:
  assumes "pid = g_real_pid (cl_pids s)" and "pid \<noteq> g_virt_pid (cl_pids s)"
  shows "getpgid_hook os pid s = getpgrp_hook os s"
  using assms by (simp add: getpgid_hook_def run_simps)

end
