(* ===== verification/Pac.thy ===== *)
theory Pac
  imports Prog
begin

text \<open>
  \<^verbatim>\<open>pac.c\<close>, \<^verbatim>\<open>pac.h\<close> and \<^verbatim>\<open>tls.c\<close>: pointers with an
  authentication code. The keys of a process are new after a restart, so return addresses on the stacks
  that were signed before are stripped and signed again, and the pointer that the thread library keeps
  mixed with a token is mixed with the old token again.

  Memory is a function from addresses to the 64-bit words at them. The two instructions are parameters:
  \<open>strip\<close> is \<^verbatim>\<open>xpaci\<close>, and \<open>sign\<close> is \<^verbatim>\<open>pacib\<close>
  with the key of the running process, of a pointer and a modifier.
\<close>

section \<open>Signed pointers\<close>

definition PTRAUTH_BIT_MASK :: u64 where "PTRAUTH_BIT_MASK = 0xFF7F800000000000"

definition PTRAUTH_SIGNED :: "u64 \<Rightarrow> bool" where
  "PTRAUTH_SIGNED ptr \<longleftrightarrow> ptr AND PTRAUTH_BIT_MASK \<noteq> 0"

type_synonym mem64 = "u64 \<Rightarrow> u64"

text \<open>
  A frame has the address of the next one in its first word and the return address in its second.
  A chain of frames that does not end keeps the functions running for ever.
\<close>

partial_function (option) first_signed_frame :: "u64 \<Rightarrow> mem64 \<Rightarrow> u64 option" where
  [code]: "first_signed_frame fp m =
     (if fp = 0 then Some 0
      else if PTRAUTH_SIGNED (m (fp + 8)) then Some fp
      else first_signed_frame (m fp) m)"

definition next_signed_frame :: "u64 \<Rightarrow> mem64 \<Rightarrow> u64 option" where
  "next_signed_frame fp m = (if fp = 0 then Some 0 else first_signed_frame (m fp) m)"

definition resign_frame :: "(u64 \<Rightarrow> u64) \<Rightarrow> (u64 \<Rightarrow> u64 \<Rightarrow> u64) \<Rightarrow> u64 \<Rightarrow> mem64 \<Rightarrow> mem64" where
  "resign_frame strip sign fp m =
     (let sp = fp + 0x10;
          m1 = m(fp + 8 := strip (m (fp + 8)))
      in m1(fp + 8 := sign (m1 (fp + 8)) sp))"

text \<open>
  The loop, from a frame the search has found; the assertion in its body aborts.
\<close>

partial_function (option) resign_loop ::
  "(u64 \<Rightarrow> u64) \<Rightarrow> (u64 \<Rightarrow> u64 \<Rightarrow> u64) \<Rightarrow> u64 \<Rightarrow> mem64 \<Rightarrow> (unit res \<times> mem64) option" where
  [code]: "resign_loop strip sign fp m =
     (if fp = 0 then Some (Inr (), m)
      else if \<not> PTRAUTH_SIGNED (m (fp + 8)) then Some (Inl Aborted, m)
      else
        (case next_signed_frame fp (resign_frame strip sign fp m) of
           None \<Rightarrow> None
         | Some fp' \<Rightarrow> resign_loop strip sign fp' (resign_frame strip sign fp m)))"

definition ptrauth_resign_frames ::
  "(u64 \<Rightarrow> u64) \<Rightarrow> (u64 \<Rightarrow> u64 \<Rightarrow> u64) \<Rightarrow> u64 \<Rightarrow> (mem64, unit) prog" where
  "ptrauth_resign_frames strip sign fp m =
     (case first_signed_frame fp m of None \<Rightarrow> None | Some fp \<Rightarrow> resign_loop strip sign fp m)"

text \<open>The registers of a saved context that carry a signature.\<close>

record uregs =
  u_lr :: u64
  u_fp :: u64
  u_sp :: u64

definition ptrauth_strip_uctx :: "(u64 \<Rightarrow> u64) \<Rightarrow> uregs \<Rightarrow> uregs" where
  "ptrauth_strip_uctx strip u = (if PTRAUTH_SIGNED (u_lr u) then u\<lparr> u_lr := strip (u_lr u) \<rparr> else u)"

definition ptrauth_patch_siguctx :: "(u64 \<Rightarrow> u64) \<Rightarrow> (u64 \<Rightarrow> u64 \<Rightarrow> u64) \<Rightarrow> uregs \<Rightarrow> uregs" where
  "ptrauth_patch_siguctx strip sign u =
     (if PTRAUTH_SIGNED (u_lr u) then u\<lparr> u_lr := sign (strip (u_lr u)) (u_fp u + 0x10) \<rparr> else u)"

section \<open>The token of the thread library\<close>

text \<open>
  The words of the thread-local storage that are used: the address of the thread structure, whose first
  word is the signature, and the token. \<^verbatim>\<open>pthread_self\<close> is the argument.
\<close>

record tls =
  tls_mem :: mem64
  tls_self :: u64
  tls_munge :: u64
  tls_saved :: u64

definition thread_ptr_munge_save :: "u64 \<Rightarrow> (tls, int) prog" where
  "thread_ptr_munge_save self =
     bnd (gets id) (\<lambda>t.
       if self \<noteq> tls_self t then ret (- 1)
       else
         let munge = self XOR tls_mem t self in
         if munge \<noteq> tls_munge t then ret (- 1)
         else sq (modify (\<lambda>t. t\<lparr> tls_saved := munge \<rparr>)) (ret 0))"

definition thread_ptr_munge_fixup :: "tls \<Rightarrow> tls" where
  "thread_ptr_munge_fixup t =
     (let self = tls_self t;
          t1 = (if tls_mem t self XOR tls_saved t \<noteq> self
                then t\<lparr> tls_mem := (tls_mem t)(self := self XOR tls_saved t) \<rparr> else t)
      in if tls_munge t1 \<noteq> tls_saved t1 then t1\<lparr> tls_munge := tls_saved t1 \<rparr> else t1)"

lemma munge_restored:
  assumes "thread_ptr_munge_save self t = Some (Inr 0, t')"
    and "tls_saved u = tls_saved t'"
  shows "tls_munge (thread_ptr_munge_fixup u) = tls_munge t"
    and "tls_mem (thread_ptr_munge_fixup u) (tls_self u) XOR tls_munge t = tls_self u"
proof -
  have "tls_saved t' = tls_munge t"
    using assms(1) by (auto simp: thread_ptr_munge_save_def prog_defs Let_def split: if_splits)
  with assms(2) have u: "tls_saved u = tls_munge t" by simp
  then show "tls_munge (thread_ptr_munge_fixup u) = tls_munge t"
    by (simp add: thread_ptr_munge_fixup_def Let_def)
  show "tls_mem (thread_ptr_munge_fixup u) (tls_self u) XOR tls_munge t = tls_self u"
    using u by (simp add: thread_ptr_munge_fixup_def Let_def xor.assoc)
qed

section \<open>Walking a stack\<close>

text \<open>A chain of frames: it ends with a null pointer, and the words of its frames are all different.\<close>

fun chain :: "mem64 \<Rightarrow> u64 \<Rightarrow> u64 list \<Rightarrow> bool" where
  "chain m fp [] \<longleftrightarrow> fp = 0"
| "chain m fp (f # fs) \<longleftrightarrow> fp = f \<and> f \<noteq> 0 \<and> chain m (m f) fs"

definition frames_apart :: "u64 list \<Rightarrow> bool" where
  "frames_apart fs \<longleftrightarrow> distinct fs \<and> (\<forall>f \<in> set fs. \<forall>g \<in> set fs. f + 8 \<noteq> g)"

lemma chain_upd:
  assumes "chain m fp fs" and "\<And>f. f \<in> set fs \<Longrightarrow> m' f = m f"
  shows "chain m' fp fs"
  using assms by (induction m fp fs rule: chain.induct) auto

lemma first_signed:
  assumes "chain m fp fs"
  shows "first_signed_frame fp m = Some (case dropWhile (\<lambda>f. \<not> PTRAUTH_SIGNED (m (f + 8))) fs of [] \<Rightarrow> 0 | f # _ \<Rightarrow> f) \<and>
    chain m (case dropWhile (\<lambda>f. \<not> PTRAUTH_SIGNED (m (f + 8))) fs of [] \<Rightarrow> 0 | f # _ \<Rightarrow> f)
      (dropWhile (\<lambda>f. \<not> PTRAUTH_SIGNED (m (f + 8))) fs)"
  using assms
  by (induction m fp fs rule: chain.induct) (auto simp: first_signed_frame.simps)

text \<open>The memory after the walk: every signed return address has been signed again.\<close>

definition resigned :: "(u64 \<Rightarrow> u64) \<Rightarrow> (u64 \<Rightarrow> u64 \<Rightarrow> u64) \<Rightarrow> u64 list \<Rightarrow> mem64 \<Rightarrow> mem64" where
  "resigned strip sign fs m = (\<lambda>a.
     if a - 8 \<in> set fs \<and> PTRAUTH_SIGNED (m a) then sign (strip (m a)) (a + 8) else m a)"

lemma frames_apartD:
  assumes "frames_apart (f # fs)"
  shows "frames_apart fs" and "f \<notin> set fs" and "g \<in> set fs \<Longrightarrow> f + 8 \<noteq> g" and "f + 8 \<noteq> f"
  using assms by (auto simp: frames_apart_def)

lemma frames_apart_sub: "frames_apart fs \<Longrightarrow> set gs \<subseteq> set fs \<Longrightarrow> distinct gs \<Longrightarrow> frames_apart gs"
  by (auto simp: frames_apart_def)

lemma resigned_step:
  assumes apart: "frames_apart (f # fs)" and signed: "PTRAUTH_SIGNED (m (f + 8))"
    and skipped: "\<And>g. g \<in> set fs - set gs \<Longrightarrow> \<not> PTRAUTH_SIGNED (m (g + 8))" and sub: "set gs \<subseteq> set fs"
  shows "resigned strip sign gs (m(f + 8 := sign (strip (m (f + 8))) (f + 0x10))) = resigned strip sign (f # fs) m"
proof
  fix a
  have f: "f \<notin> set gs" using frames_apartD(2) [OF apart] sub by auto
  show "resigned strip sign gs (m(f + 8 := sign (strip (m (f + 8))) (f + 0x10))) a = resigned strip sign (f # fs) m a"
  proof (cases "a = f + 8")
    case True
    then show ?thesis using f signed by (simp add: resigned_def add.commute)
  next
    case False
    then have "a - 8 \<noteq> f" by auto
    moreover have "\<not> PTRAUTH_SIGNED (m a)" if "a - 8 \<in> set fs" "a - 8 \<notin> set gs"
      using skipped [of "a - 8"] that by simp
    ultimately show ?thesis
      using False sub by (auto simp: resigned_def)
  qed
qed

lemma resign_loop_chain:
  assumes "chain m f (f # fs)" and "frames_apart (f # fs)" and "PTRAUTH_SIGNED (m (f + 8))"
  shows "resign_loop strip sign f m = Some (Inr (), resigned strip sign (f # fs) m)"
  using assms
proof (induction "length fs" arbitrary: f fs m rule: less_induct)
  case less
  define m' where "m' = m(f + 8 := sign (strip (m (f + 8))) (f + 0x10))"
  note apart = frames_apartD [OF less(3)]
  have m': "resign_frame strip sign f m = m'"
    by (simp add: resign_frame_def m'_def Let_def fun_upd_idem_iff)
  have f0: "f \<noteq> 0" and rest: "chain m (m f) fs"
    using less(2) by simp_all
  have same: "m' f = m f" "\<And>g. g \<in> set fs \<Longrightarrow> m' g = m g" "\<And>g. g \<in> set fs \<Longrightarrow> m' (g + 8) = m (g + 8)"
    using apart by (auto simp: m'_def)
  have chain': "chain m' (m' f) fs"
    using chain_upd [OF rest] same by auto
  define gs where "gs = dropWhile (\<lambda>g. \<not> PTRAUTH_SIGNED (m' (g + 8))) fs"
  have search: "next_signed_frame f m' = Some (case gs of [] \<Rightarrow> 0 | g # _ \<Rightarrow> g)"
    "chain m' (case gs of [] \<Rightarrow> 0 | g # _ \<Rightarrow> g) gs"
    using first_signed [OF chain'] f0 by (simp_all add: next_signed_frame_def gs_def)
  have sub: "set gs \<subseteq> set fs" and dist: "distinct gs" and len: "length gs \<le> length fs"
    using less(3) by (auto simp: gs_def frames_apart_def dest: set_dropWhileD intro: distinct_dropWhile length_dropWhile_le)
  have skipped: "\<not> PTRAUTH_SIGNED (m (g + 8))" if "g \<in> set fs - set gs" for g
  proof -
    have "g \<in> set (takeWhile (\<lambda>g. \<not> PTRAUTH_SIGNED (m' (g + 8))) fs)"
      using that takeWhile_dropWhile_id [of "\<lambda>g. \<not> PTRAUTH_SIGNED (m' (g + 8))" fs]
      unfolding gs_def by (metis DiffD1 DiffD2 Un_iff set_append)
    then show ?thesis
      using set_takeWhileD same(3) that by fastforce
  qed
  have final: "resigned strip sign gs m' = resigned strip sign (f # fs) m"
    unfolding m'_def by (rule resigned_step [of f fs m gs strip sign, OF less(3,4) skipped sub])
  show ?case
  proof (cases gs)
    case Nil
    then have "resigned strip sign gs m' = m'"
      by (simp add: resigned_def)
    then show ?thesis
      using f0 less(4) m' search(1) Nil final by (simp add: resign_loop.simps [of strip sign f] resign_loop.simps [of strip sign 0])
  next
    case (Cons g hs)
    have "PTRAUTH_SIGNED (m' (g + 8))"
      using Cons hd_dropWhile [of "\<lambda>g. \<not> PTRAUTH_SIGNED (m' (g + 8))" fs] unfolding gs_def by auto
    moreover have "frames_apart (g # hs)"
      using frames_apart_sub [OF apart(1) sub dist] Cons by simp
    moreover have "length hs < length fs"
      using len Cons by simp
    ultimately have "resign_loop strip sign g m' = Some (Inr (), resigned strip sign (g # hs) m')"
      using less(1) [of hs m' g] search(2) Cons by simp
    then show ?thesis
      using f0 less(4) m' search(1) Cons final by (simp add: resign_loop.simps [of strip sign f])
  qed
qed

section \<open>Properties\<close>

text \<open>
  C16: after a restart every return address of a stack has a signature of the new process. For a stack
  that is a chain of frames with different words, the walk ends without an assertion failing; the return
  addresses that were signed are stripped and signed with the address above their frame, where the
  function that returns to them will look for it, and no other word changes.
\<close>

theorem resign_frames_resigns_stack:
  assumes "chain m fp fs" and "frames_apart fs"
  shows "ptrauth_resign_frames strip sign fp m = Some (Inr (), resigned strip sign fs m)"
proof -
  define gs where "gs = dropWhile (\<lambda>g. \<not> PTRAUTH_SIGNED (m (g + 8))) fs"
  have search: "first_signed_frame fp m = Some (case gs of [] \<Rightarrow> 0 | g # _ \<Rightarrow> g)" "chain m (case gs of [] \<Rightarrow> 0 | g # _ \<Rightarrow> g) gs"
    using first_signed [OF assms(1)] by (simp_all add: gs_def)
  have sub: "set gs \<subseteq> set fs" "distinct gs"
    using assms(2) by (auto simp: gs_def frames_apart_def dest: set_dropWhileD intro: distinct_dropWhile)
  have "\<not> PTRAUTH_SIGNED (m (g + 8))" if "g \<in> set fs" "g \<notin> set gs" for g
    using that set_takeWhileD takeWhile_dropWhile_id [of "\<lambda>g. \<not> PTRAUTH_SIGNED (m (g + 8))" fs]
    unfolding gs_def by (metis Un_iff set_append)
  note unsigned = this
  have same: "resigned strip sign gs m = resigned strip sign fs m"
  proof
    fix a
    show "resigned strip sign gs m a = resigned strip sign fs m a"
      using sub(1) unsigned [of "a - 8"] by (cases "a - 8 \<in> set gs") (auto simp: resigned_def)
  qed
  show ?thesis
  proof (cases gs)
    case Nil
    have "resigned strip sign [] m = m"
      by (simp add: resigned_def)
    with same Nil have "resigned strip sign fs m = m"
      by simp
    with Nil show ?thesis
      using search(1) by (simp add: ptrauth_resign_frames_def resign_loop.simps [of strip sign 0])
  next
    case (Cons g hs)
    have "PTRAUTH_SIGNED (m (g + 8))"
      using Cons hd_dropWhile [of "\<lambda>g. \<not> PTRAUTH_SIGNED (m (g + 8))" fs] unfolding gs_def by auto
    then show ?thesis
      using search same Cons resign_loop_chain [of m g hs strip sign] frames_apart_sub [OF assms(2) sub]
      by (simp add: ptrauth_resign_frames_def)
  qed
qed

theorem resign_frames_resigns_stack_witness:
  "\<exists>m'. ptrauth_resign_frames (\<lambda>p. p AND 0x7FFFFFFFFF) (\<lambda>p sp. p OR 0x5500000000000000) 0x1000
     ((\<lambda>_. 0)(0x1000 := 0x1040, 0x1008 := 0xAA00000000000123, 0x1040 := 0, 0x1048 := 0x456)) = Some (Inr (), m') \<and>
     m' 0x1008 = 0x5500000000000123 \<and> m' 0x1048 = 0x456"
proof -
  let ?m = "(\<lambda>_. 0)(0x1000 := 0x1040, 0x1008 := 0xAA00000000000123, 0x1040 := 0, 0x1048 := 0x456) :: mem64"
  have "chain ?m 0x1000 [0x1000, 0x1040]" "frames_apart [0x1000, 0x1040]"
    by (simp_all add: frames_apart_def)
  from resign_frames_resigns_stack [OF this, of "\<lambda>p. p AND 0x7FFFFFFFFF" "\<lambda>p sp. p OR 0x5500000000000000"]
  show ?thesis
    by (simp add: resigned_def PTRAUTH_SIGNED_def PTRAUTH_BIT_MASK_def)
qed

end
