(* ===== verification/Stdlib_Wrappers.thy ===== *)
theory Stdlib_Wrappers
  imports File_Wrappers Pac
begin

text \<open>
  \<^verbatim>\<open>wrappers/stdlib_wrappers.c\<close>: the functions of the C library whose locks a
  checkpoint must not find held, and the end of a process.
\<close>

section \<open>Memory and random numbers\<close>

text \<open>Pointers are addresses, zero the null pointer.\<close>

record 'w stdlib_os =
  sl_calloc :: "u64 \<Rightarrow> u64 \<Rightarrow> 'w \<Rightarrow> u64 \<times> 'w"
  sl_free :: "u64 \<Rightarrow> 'w \<Rightarrow> 'w"
  sl_malloc :: "u64 \<Rightarrow> 'w \<Rightarrow> u64 \<times> 'w"
  sl_realloc :: "u64 \<Rightarrow> u64 \<Rightarrow> 'w \<Rightarrow> u64 \<times> 'w"
  sl_reallocf :: "u64 \<Rightarrow> u64 \<Rightarrow> 'w \<Rightarrow> u64 \<times> 'w"
  sl_valloc :: "u64 \<Rightarrow> 'w \<Rightarrow> u64 \<times> 'w"
  sl_aligned_alloc :: "u64 \<Rightarrow> u64 \<Rightarrow> 'w \<Rightarrow> u64 \<times> 'w"
  sl_arc4random :: "'w \<Rightarrow> u32 \<times> 'w"
  sl_arc4random_buf :: "u64 \<Rightarrow> 'w \<Rightarrow> bytes \<times> 'w"
  sl_arc4random_uniform :: "u32 \<Rightarrow> 'w \<Rightarrow> u32 \<times> 'w"

definition calloc_hook :: "('w, 'n) stdlib_os_scheme \<Rightarrow> u64 \<Rightarrow> u64 \<Rightarrow> (('w, 'm) lib_scheme, u64) prog" where
  "calloc_hook os count sz = plain_hook (sl_calloc os count sz)"

definition free_hook :: "('w, 'n) stdlib_os_scheme \<Rightarrow> u64 \<Rightarrow> (('w, 'm) lib_scheme, unit) prog" where
  "free_hook os ptr = plain_hook (\<lambda>w. ((), sl_free os ptr w))"

definition malloc_hook :: "('w, 'n) stdlib_os_scheme \<Rightarrow> u64 \<Rightarrow> (('w, 'm) lib_scheme, u64) prog" where
  "malloc_hook os sz = plain_hook (sl_malloc os sz)"

definition realloc_hook :: "('w, 'n) stdlib_os_scheme \<Rightarrow> u64 \<Rightarrow> u64 \<Rightarrow> (('w, 'm) lib_scheme, u64) prog" where
  "realloc_hook os ptr sz = plain_hook (sl_realloc os ptr sz)"

definition reallocf_hook :: "('w, 'n) stdlib_os_scheme \<Rightarrow> u64 \<Rightarrow> u64 \<Rightarrow> (('w, 'm) lib_scheme, u64) prog" where
  "reallocf_hook os ptr sz = plain_hook (sl_reallocf os ptr sz)"

definition valloc_hook :: "('w, 'n) stdlib_os_scheme \<Rightarrow> u64 \<Rightarrow> (('w, 'm) lib_scheme, u64) prog" where
  "valloc_hook os sz = plain_hook (sl_valloc os sz)"

definition aligned_alloc_hook :: "('w, 'n) stdlib_os_scheme \<Rightarrow> u64 \<Rightarrow> u64 \<Rightarrow> (('w, 'm) lib_scheme, u64) prog" where
  "aligned_alloc_hook os align sz = plain_hook (sl_aligned_alloc os align sz)"

definition arc4random_hook :: "('w, 'n) stdlib_os_scheme \<Rightarrow> (('w, 'm) lib_scheme, u32) prog" where
  "arc4random_hook os = plain_hook (sl_arc4random os)"

definition arc4random_buf_hook :: "('w, 'n) stdlib_os_scheme \<Rightarrow> u64 \<Rightarrow> (('w, 'm) lib_scheme, bytes) prog" where
  "arc4random_buf_hook os nbyte = plain_hook (sl_arc4random_buf os nbyte)"

definition arc4random_uniform_hook :: "('w, 'n) stdlib_os_scheme \<Rightarrow> u32 \<Rightarrow> (('w, 'm) lib_scheme, u32) prog" where
  "arc4random_uniform_hook os upper = plain_hook (sl_arc4random_uniform os upper)"

lemma plain_hook_transparent:
  assumes "can_enter s"
  shows "plain_hook call s = Some (Inr (fst (call (t_world s))), s\<lparr> t_world := snd (call (t_world s)) \<rparr>)"
proof -
  have "runs (plain_hook call) (\<lambda>r s'. r = fst (call (t_world s)) \<and> s' = s\<lparr> t_world := snd (call (t_world s)) \<rparr>) s"
    unfolding plain_hook_def
    by (rule runs_wrapped [OF assms]) (cases s, auto simp: runs_def os_call_def split_beta)
  then show ?thesis
    by (auto simp: runs_def)
qed

section \<open>The end of a process\<close>

text \<open>
  The pointer to the routine that runs before the end of the process, and the address it is kept at.
  It is signed with that address and a constant in the high bits.
\<close>

definition CLEANUP_PTRAUTH_DISCRIMINATOR :: u64 where "CLEANUP_PTRAUTH_DISCRIMINATOR = 0x211B"

record 'w stdlib = "'w lib" +
  cleanup_ptr :: u64

definition ptrauth_check_cleanup_ptr ::
  "(u64 \<Rightarrow> u64) \<Rightarrow> (u64 \<Rightarrow> u64 \<Rightarrow> u64) \<Rightarrow> u64 \<Rightarrow> (('w, 'm) stdlib_scheme, unit) prog" where
  "ptrauth_check_cleanup_ptr strip sign addr =
     bnd (gets cleanup_ptr) (\<lambda>p.
       if PTRAUTH_SIGNED p then
         (let md = addr OR push_bit 48 CLEANUP_PTRAUTH_DISCRIMINATOR in
          modify (\<lambda>s. s\<lparr> cleanup_ptr := sign (strip p) md \<rparr>))
       else ret ())"

definition exit_hook ::
  "(u64 \<Rightarrow> u64) \<Rightarrow> (u64 \<Rightarrow> u64 \<Rightarrow> u64) \<Rightarrow> u64 \<Rightarrow> int \<Rightarrow> (('w, 'm) stdlib_scheme, 'a) prog" where
  "exit_hook strip sign addr status = sq (ptrauth_check_cleanup_ptr strip sign addr) (halt (Exited status))"

definition abort_hook ::
  "(u64 \<Rightarrow> u64) \<Rightarrow> (u64 \<Rightarrow> u64 \<Rightarrow> u64) \<Rightarrow> u64 \<Rightarrow> (('w, 'm) stdlib_scheme, 'a) prog" where
  "abort_hook strip sign addr = sq (ptrauth_check_cleanup_ptr strip sign addr) (halt Aborted)"

lemma exit_signs_cleanup:
  "exit_hook strip sign addr status s = Some (Inl (Exited status),
     if PTRAUTH_SIGNED (cleanup_ptr s)
     then s\<lparr> cleanup_ptr := sign (strip (cleanup_ptr s)) (addr OR 0x211B000000000000) \<rparr> else s)"
  by (simp add: exit_hook_def ptrauth_check_cleanup_ptr_def prog_defs CLEANUP_PTRAUTH_DISCRIMINATOR_def push_bit_eq_mult Let_def)

end
