(* ===== verification/Pthread_Wrappers.thy ===== *)
theory Pthread_Wrappers
  imports Stdlib_Wrappers
begin

text \<open>
  \<^verbatim>\<open>wrappers/pthread_wrappers.c\<close>: what a program holds for a thread is not the
  pointer of the thread library but the address of the library's own descriptor with a mark in the high
  bits. After a restart the descriptors are at the same addresses with new threads behind them. The wrappers
  that make and end a thread, and the wait for the end of a thread, are in the interleaving model too
  (\<^verbatim>\<open>Thread_Sched\<close>).
\<close>

section \<open>Handles\<close>

definition PTHREAD_MAGIC :: u64 where "PTHREAD_MAGIC = 0x7770000000000000"
definition PTHREAD_TAG_MASK :: u64 where "PTHREAD_TAG_MASK = 0xFFF0000000000000"

definition encode_pthread :: "u64 \<Rightarrow> u64" where "encode_pthread th = th OR PTHREAD_MAGIC"
definition decode_pthread :: "u64 \<Rightarrow> u64" where "decode_pthread p = p AND NOT PTHREAD_TAG_MASK"
definition validate_pthread :: "u64 \<Rightarrow> bool" where "validate_pthread p \<longleftrightarrow> PTHREAD_TAG_MASK AND p = PTHREAD_MAGIC"

section \<open>Wrappers\<close>

text \<open>
  \<open>pt_desc\<close>, \<open>pt_exiting\<close> and \<open>pt_joined\<close> are the heap of descriptors, by
  address, as far as it matters here: the pointer of the thread library in a descriptor, and whether its
  thread has begun to end and has been joined. \<open>pt_me\<close> and \<open>pt_main\<close> are the
  addresses of the descriptors of the calling and of the main thread, and \<open>pt_ckpt_sig\<close> the
  checkpoint signal. The call that joins a thread answers the status and, if it stores one, the value of
  the thread.
\<close>

record 'w pthreads = "'w lib" +
  pt_desc :: "u64 \<Rightarrow> u64 option"
  pt_exiting :: "u64 \<Rightarrow> bool"
  pt_joined :: "u64 \<Rightarrow> bool"
  pt_me :: u64
  pt_main :: u64
  pt_ckpt_sig :: int

record 'w pthread_os =
  po_self :: "'w \<Rightarrow> u64"
  po_kill :: "u64 \<Rightarrow> int \<Rightarrow> 'w \<Rightarrow> int \<times> 'w"
  po_join :: "u64 \<Rightarrow> 'w \<Rightarrow> (int \<times> u64 option) \<times> 'w"
  po_detach :: "u64 \<Rightarrow> 'w \<Rightarrow> int \<times> 'w"
  po_setschedparam :: "u64 \<Rightarrow> int \<Rightarrow> bytes \<Rightarrow> 'w \<Rightarrow> int \<times> 'w"
  po_getschedparam :: "u64 \<Rightarrow> 'w \<Rightarrow> (int \<times> int \<times> bytes) \<times> 'w"
  po_get_stackaddr :: "u64 \<Rightarrow> 'w \<Rightarrow> u64 \<times> 'w"
  po_get_stacksize :: "u64 \<Rightarrow> 'w \<Rightarrow> u64 \<times> 'w"
  po_cancel :: "u64 \<Rightarrow> 'w \<Rightarrow> int \<times> 'w"

definition PT_ESRCH :: int where "PT_ESRCH = 3"
definition PT_EDEADLK :: int where "PT_EDEADLK = 11"
definition PT_EINVAL :: int where "PT_EINVAL = 22"

definition desc_self :: "u64 \<Rightarrow> (('w, 'm) pthreads_scheme, u64) prog" where
  "desc_self th s = (case pt_desc s th of None \<Rightarrow> Some (Inl Undefined, s) | Some self \<Rightarrow> Some (Inr self, s))"

definition main_thread :: "(('w, 'm) pthreads_scheme, u64) prog" where
  "main_thread = bnd (gets pt_main) (\<lambda>th. sq (assert_p (th \<noteq> 0)) (ret th))"

definition pthread_self_hook :: "('w, 'n) pthread_os_scheme \<Rightarrow> (('w, 'm) pthreads_scheme, u64) prog" where
  "pthread_self_hook os =
     bnd (gets xnd_tlv_ok) (\<lambda>ok.
       if \<not> ok then gets (\<lambda>s. po_self os (t_world s))
       else bnd (gets pt_me) (\<lambda>self. if self = 0 then halt Aborted else ret (encode_pthread self)))"

definition pthread_equal_hook :: "u64 \<Rightarrow> u64 \<Rightarrow> bool" where
  "pthread_equal_hook p1 p2 \<longleftrightarrow>
     (if \<not> validate_pthread p1 \<or> \<not> validate_pthread p2 then False else p1 = p2)"

text \<open>A call on the thread behind a descriptor, in a section of its own.\<close>

definition on_thread :: "u64 \<Rightarrow> (u64 \<Rightarrow> 'w \<Rightarrow> 'a \<times> 'w) \<Rightarrow> (('w, 'm) pthreads_scheme, 'a) prog" where
  "on_thread th call = unsafe_section (bnd (desc_self th) (\<lambda>self. os_call (call self)))"

text \<open>
  Joining waits until the thread has begun to end, \<^const>\<open>Blocked\<close> if it has not, and only then enters
  a section for the call, which is short now. A failed call leaves the thread to be joined again.
\<close>

definition await_exiting :: "u64 \<Rightarrow> (('w, 'm) pthreads_scheme, unit) prog" where
  "await_exiting th = bnd (gets (\<lambda>s. pt_exiting s th)) (\<lambda>exiting. if exiting then ret () else halt Blocked)"

definition pthread_join_hook ::
  "('w, 'n) pthread_os_scheme \<Rightarrow> u64 \<Rightarrow> (('w, 'm) pthreads_scheme, int \<times> u64 option) prog" where
  "pthread_join_hook os p =
     (if \<not> validate_pthread p then ret (PT_ESRCH, None)
      else
        let th = decode_pthread p in
        bnd (gets pt_me) (\<lambda>me.
        if th = me then ret (PT_EDEADLK, None)
        else
          sq (await_exiting th)
             (unsafe_section
               (bnd (desc_self th) (\<lambda>self.
                bnd (os_call (po_join os self)) (\<lambda>(err, v).
                sq (modify (\<lambda>s. s\<lparr> pt_joined := (pt_joined s)(th := (err = 0)) \<rparr>)) (ret (err, v))))))))"

definition pthread_kill_hook :: "('w, 'n) pthread_os_scheme \<Rightarrow> u64 \<Rightarrow> int \<Rightarrow> (('w, 'm) pthreads_scheme, int) prog" where
  "pthread_kill_hook os p sig =
     (if \<not> validate_pthread p then ret PT_ESRCH
      else bnd (gets pt_ckpt_sig) (\<lambda>ckpt_sig.
        if sig = ckpt_sig then ret PT_EINVAL
        else on_thread (decode_pthread p) (\<lambda>self. po_kill os self sig)))"

definition pthread_detach_hook :: "('w, 'n) pthread_os_scheme \<Rightarrow> u64 \<Rightarrow> (('w, 'm) pthreads_scheme, int) prog" where
  "pthread_detach_hook os p =
     (if \<not> validate_pthread p then ret PT_ESRCH else on_thread (decode_pthread p) (po_detach os))"

definition pthread_setschedparam_hook ::
  "('w, 'n) pthread_os_scheme \<Rightarrow> u64 \<Rightarrow> int \<Rightarrow> bytes \<Rightarrow> (('w, 'm) pthreads_scheme, int) prog" where
  "pthread_setschedparam_hook os p policy param =
     (if \<not> validate_pthread p then ret PT_ESRCH
      else on_thread (decode_pthread p) (\<lambda>self. po_setschedparam os self policy param))"

text \<open>The answer has what is stored through the pointers, the arguments if nothing is.\<close>

definition pthread_getschedparam_hook ::
  "('w, 'n) pthread_os_scheme \<Rightarrow> u64 \<Rightarrow> int \<Rightarrow> bytes \<Rightarrow> (('w, 'm) pthreads_scheme, int \<times> int \<times> bytes) prog" where
  "pthread_getschedparam_hook os p policy param =
     (if \<not> validate_pthread p then ret (PT_ESRCH, policy, param)
      else on_thread (decode_pthread p) (po_getschedparam os))"

text \<open>The thread's own stack and that of the main thread are asked for without a section.\<close>

definition stack_query :: "(u64 \<Rightarrow> 'w \<Rightarrow> u64 \<times> 'w) \<Rightarrow> u64 \<Rightarrow> (('w, 'm) pthreads_scheme, u64) prog" where
  "stack_query call p =
     (if \<not> validate_pthread p then ret (word_of_int PT_ESRCH)
      else
        let th = decode_pthread p in
        bnd (gets pt_me) (\<lambda>me.
        bnd (if th = me then ret True else bnd main_thread (\<lambda>m. ret (th = m))) (\<lambda>own.
          if own then bnd (desc_self th) (\<lambda>self. os_call (call self)) else on_thread th call)))"

definition pthread_get_stackaddr_np_hook ::
  "('w, 'n) pthread_os_scheme \<Rightarrow> u64 \<Rightarrow> (('w, 'm) pthreads_scheme, u64) prog" where
  "pthread_get_stackaddr_np_hook os p = stack_query (po_get_stackaddr os) p"

definition pthread_get_stacksize_np_hook ::
  "('w, 'n) pthread_os_scheme \<Rightarrow> u64 \<Rightarrow> (('w, 'm) pthreads_scheme, u64) prog" where
  "pthread_get_stacksize_np_hook os p = stack_query (po_get_stacksize os) p"

definition pthread_cancel_hook :: "('w, 'n) pthread_os_scheme \<Rightarrow> u64 \<Rightarrow> (('w, 'm) pthreads_scheme, int) prog" where
  "pthread_cancel_hook os p =
     (if \<not> validate_pthread p then ret PT_ESRCH else on_thread (decode_pthread p) (po_cancel os))"

definition pthread_main_thread_np_hook :: "(('w, 'm) pthreads_scheme, u64) prog" where
  "pthread_main_thread_np_hook = bnd main_thread (\<lambda>th. ret (encode_pthread th))"

definition pthread_main_np_hook :: "('w, 'n) pthread_os_scheme \<Rightarrow> (('w, 'm) pthreads_scheme, bool) prog" where
  "pthread_main_np_hook os =
     bnd main_thread (\<lambda>th. bnd (desc_self th) (\<lambda>self. gets (\<lambda>s. po_self os (t_world s) = self)))"

section \<open>Handles and threads\<close>

lemma handle_valid: "drop_bit 52 th = 0 \<Longrightarrow> validate_pthread (encode_pthread th)"
  and handle_decodes: "drop_bit 52 th = 0 \<Longrightarrow> decode_pthread (encode_pthread th) = th"
proof -
  assume "drop_bit 52 th = 0"
  then have low: "th AND mask 52 = th"
    by (rule word_and_mask_of_drop_zero)
  have tag: "PTHREAD_TAG_MASK = NOT (mask 52)" and magic: "PTHREAD_MAGIC AND mask 52 = 0" "PTHREAD_TAG_MASK AND PTHREAD_MAGIC = PTHREAD_MAGIC"
    by (simp_all add: PTHREAD_TAG_MASK_def PTHREAD_MAGIC_def mask_eq_exp_minus_1)
  have "PTHREAD_TAG_MASK AND th = 0"
  proof -
    have "NOT (mask 52) AND th = NOT (mask 52) AND (th AND mask 52)" using low by simp
    also have "\<dots> = 0" by (simp add: and.left_commute)
    finally show ?thesis by (simp add: tag)
  qed
  then show "validate_pthread (encode_pthread th)"
    using magic(2) by (simp add: validate_pthread_def encode_pthread_def bit.conj_disj_distrib)
  have "NOT PTHREAD_TAG_MASK = mask 52"
    by (simp add: tag)
  then show "decode_pthread (encode_pthread th) = th"
    using low magic(1) by (simp add: decode_pthread_def encode_pthread_def bit.conj_disj_distrib2)
qed

lemma runs_desc_self: "pt_desc s th = Some self \<Longrightarrow> desc_self th s = Some (Inr self, s)"
  by (simp add: desc_self_def)

lemma on_thread_calls:
  assumes "can_enter s" and "pt_desc s th = Some self"
  shows "on_thread th call s = Some (Inr (fst (call self (t_world s))), s\<lparr> t_world := snd (call self (t_world s)) \<rparr>)"
proof -
  have "runs (on_thread th call) (\<lambda>r s'. r = fst (call self (t_world s)) \<and> s' = s\<lparr> t_world := snd (call self (t_world s)) \<rparr>) s"
    unfolding on_thread_def
    by (rule runs_unsafe_section [OF assms(1)])
      (use assms(2) in \<open>cases s; simp add: runs_def desc_self_def bnd_def os_call_def split_beta\<close>)
  then show ?thesis by (auto simp: runs_def)
qed

lemma join_calls:
  assumes "can_enter s" and "pt_desc s th = Some self" and "pt_exiting s th" and "th \<noteq> pt_me s" and "drop_bit 52 th = 0"
  shows "pthread_join_hook os (encode_pthread th) s =
    (let (r, w) = po_join os self (t_world s) in
     Some (Inr r, s\<lparr> t_world := w, pt_joined := (pt_joined s)(th := (fst r = 0)) \<rparr>))"
proof -
  let ?r = "fst (po_join os self (t_world s))" and ?w = "snd (po_join os self (t_world s))"
  have "runs (pthread_join_hook os (encode_pthread th))
    (\<lambda>r s'. r = ?r \<and> s' = s\<lparr> t_world := ?w, pt_joined := (pt_joined s)(th := (fst ?r = 0)) \<rparr>) s"
    unfolding pthread_join_hook_def using assms(3-5)
    by (simp add: handle_valid handle_decodes Let_def await_exiting_def,
        intro runs_unsafe_section [OF assms(1)])
      (use assms(2) in \<open>cases s; simp add: runs_def desc_self_def bnd_def os_call_def sq_def modify_def ret_def split_beta\<close>)
  then show ?thesis by (auto simp: runs_def split_beta Let_def)
qed

lemma join_refused:
  assumes "drop_bit 52 th = 0" and "th = pt_me s"
  shows "pthread_join_hook os (encode_pthread th) s = Some (Inr (PT_EDEADLK, None), s)"
  using assms(2) handle_valid [OF assms(1)] handle_decodes [OF assms(1)]
  by (simp add: pthread_join_hook_def Let_def bnd_def gets_def ret_def)

lemma join_waits:
  assumes "drop_bit 52 th = 0" and "th \<noteq> pt_me s" and "\<not> pt_exiting s th"
  shows "pthread_join_hook os (encode_pthread th) s = Some (Inl Blocked, s)"
  using assms(2,3) handle_valid [OF assms(1)] handle_decodes [OF assms(1)]
  by (simp add: pthread_join_hook_def Let_def bnd_def gets_def sq_def await_exiting_def halt_def)

text \<open>What a call of the system does and nothing else.\<close>

definition only_calls :: "('w \<Rightarrow> 'a \<times> 'w) \<Rightarrow> (('w, 'm) pthreads_scheme, 'a) prog" where
  "only_calls call s = Some (Inr (fst (call (t_world s))), s\<lparr> t_world := snd (call (t_world s)) \<rparr>)"

lemma stack_query_calls:
  assumes "drop_bit 52 th = 0" and "can_enter s" and "pt_desc s th = Some self" and "pt_main s \<noteq> 0"
  shows "stack_query call (encode_pthread th) s = only_calls (call self) s"
  using assms handle_valid [OF assms(1)] handle_decodes [OF assms(1)] on_thread_calls [OF assms(2,3), of call]
  by (auto simp: stack_query_def Let_def bnd_def gets_def ret_def main_thread_def sq_def assert_p_def runs_desc_self
      os_call_def split_beta only_calls_def)

text \<open>
  C13: a handle is as good after a restart as before. Take a handle that was made for a descriptor, in a
  process whose library is set up and whose calling thread can enter a section. The wrappers of
  detaching, cancelling, asking for and setting the scheduling and asking for the stack make
  the real call for the thread that is behind the descriptor now, whatever thread was behind it when the
  program got the handle; they answer what the call answers and leave everything else of the process
  alone. So does the wrapper of sending a signal, but that it refuses the checkpoint signal and then
  does nothing. The wrapper of joining refuses the calling thread itself, waits for a thread that has not
  begun to end, and otherwise makes the real call and marks the descriptor as joined exactly if the call
  succeeded. Two handles are equal exactly if they are for the same descriptor.
\<close>

theorem handles_reach_their_threads:
  assumes "drop_bit 52 th = 0" and "drop_bit 52 th' = 0" and "can_enter s" and "pt_desc s th = Some self"
    and "pt_main s \<noteq> 0"
  shows "pthread_kill_hook os (encode_pthread th) sig s =
      (if sig = pt_ckpt_sig s then Some (Inr PT_EINVAL, s) else only_calls (\<lambda>w. po_kill os self sig w) s) \<and>
    pthread_join_hook os (encode_pthread th) s =
      (if th = pt_me s then Some (Inr (PT_EDEADLK, None), s)
       else if \<not> pt_exiting s th then Some (Inl Blocked, s)
       else let (r, w) = po_join os self (t_world s) in
            Some (Inr r, s\<lparr> t_world := w, pt_joined := (pt_joined s)(th := (fst r = 0)) \<rparr>)) \<and>
    pthread_detach_hook os (encode_pthread th) s = only_calls (po_detach os self) s \<and>
    pthread_cancel_hook os (encode_pthread th) s = only_calls (po_cancel os self) s \<and>
    pthread_setschedparam_hook os (encode_pthread th) policy param s = only_calls (po_setschedparam os self policy param) s \<and>
    pthread_getschedparam_hook os (encode_pthread th) policy param s = only_calls (po_getschedparam os self) s \<and>
    pthread_get_stackaddr_np_hook os (encode_pthread th) s = only_calls (po_get_stackaddr os self) s \<and>
    pthread_get_stacksize_np_hook os (encode_pthread th) s = only_calls (po_get_stacksize os self) s \<and>
    (pthread_equal_hook (encode_pthread th) (encode_pthread th') \<longleftrightarrow> th = th')"
proof -
  have v: "validate_pthread (encode_pthread th)" "validate_pthread (encode_pthread th')"
    using handle_valid assms(1,2) by blast+
  have d: "decode_pthread (encode_pthread th) = th"
    using handle_decodes assms(1) by blast
  note run = on_thread_calls [OF assms(3,4)]
  have "encode_pthread th = encode_pthread th' \<longleftrightarrow> th = th'"
    using d handle_decodes [OF assms(2)] by metis
  moreover have "pthread_join_hook os (encode_pthread th) s =
      (if th = pt_me s then Some (Inr (PT_EDEADLK, None), s)
       else if \<not> pt_exiting s th then Some (Inl Blocked, s)
       else let (r, w) = po_join os self (t_world s) in
            Some (Inr r, s\<lparr> t_world := w, pt_joined := (pt_joined s)(th := (fst r = 0)) \<rparr>))"
    using join_calls [OF assms(3,4) _ _ assms(1)] join_refused [OF assms(1)] join_waits [OF assms(1)] by auto
  ultimately show ?thesis
    using v stack_query_calls [OF assms(1,3,4,5)]
    by (simp add: pthread_kill_hook_def pthread_detach_hook_def pthread_cancel_hook_def pthread_setschedparam_hook_def
        pthread_getschedparam_hook_def pthread_get_stackaddr_np_hook_def pthread_get_stacksize_np_hook_def
        pthread_equal_hook_def bnd_def gets_def ret_def d run only_calls_def)
qed

text \<open>A thread that has no descriptor of the library yet has the handle of the system, which is not equal to itself.\<close>

lemma handle_of_system_is_not_equal:
  assumes "PTHREAD_TAG_MASK AND p = 0"
  shows "\<not> pthread_equal_hook p p"
  using assms by (simp add: pthread_equal_hook_def validate_pthread_def PTHREAD_MAGIC_def)

text \<open>A system that records which thread was cancelled.\<close>

definition recording_threads :: "u64 list pthread_os" where
  "recording_threads = \<lparr> po_self = (\<lambda>_. 0x9000), po_kill = (\<lambda>p sig w. (0, p # w)), po_join = (\<lambda>p w. ((0, Some 7), p # w)), po_detach = (\<lambda>p w. (0, p # w)),
     po_setschedparam = (\<lambda>p policy param w. (0, p # w)), po_getschedparam = (\<lambda>p w. ((0, 1, []), p # w)),
     po_get_stackaddr = (\<lambda>p w. (p, w)), po_get_stacksize = (\<lambda>p w. (0x80000, w)), po_cancel = (\<lambda>p w. (0, p # w)) \<rparr>"

definition restarted_process :: "u64 list pthreads" where
  "restarted_process = \<lparr> t_table = (\<lambda>_. None), t_heap = (\<lambda>_. None), t_next = 1, t_init = True, t_world = [], l_self = None,
     l_state = XND_RUNNING, l_tlv = TSD_XND_INIT, pt_desc = [0x600000 \<mapsto> 0x16F000], pt_exiting = (\<lambda>a. a = 0x600000), pt_joined = (\<lambda>_. False), pt_me = 0x500000, pt_main = 0x500000,
     pt_ckpt_sig = 31 \<rparr>"

theorem handles_reach_their_threads_witness:
  "pthread_join_hook recording_threads (encode_pthread 0x600000) restarted_process =
     Some (Inr (0, Some 7), restarted_process\<lparr> t_world := [0x16F000], pt_joined := (\<lambda>_. False)(0x600000 := True) \<rparr>) \<and>
   pthread_cancel_hook recording_threads (encode_pthread 0x600000) restarted_process =
     Some (Inr 0, restarted_process\<lparr> t_world := [0x16F000] \<rparr>) \<and>
   \<not> pthread_equal_hook (encode_pthread 0x600000) (encode_pthread 0x500000)"
proof -
  have s: "can_enter restarted_process" "pt_desc restarted_process 0x600000 = Some 0x16F000"
    "pt_main restarted_process \<noteq> 0"
    by (simp_all add: restarted_process_def can_enter_def)
  have d: "drop_bit 52 (0x600000 :: u64) = 0" "drop_bit 52 (0x500000 :: u64) = 0"
    by (simp_all add: drop_bit_eq_div word_div_def)
  show ?thesis
    using handles_reach_their_threads [OF d s, of recording_threads 0 0 "[]"]
    by (simp add: only_calls_def recording_threads_def restarted_process_def)
qed

end
