(* ===== verification/Signals.thy ===== *)
theory Signals
  imports Io Env Pac
begin

text \<open>
  \<^verbatim>\<open>wrappers/signal_wrappers.c\<close> and \<^verbatim>\<open>platform/signal.c\<close>: what a
  process does on signals. Handlers of the user are installed with a trampoline of the library, the
  checkpoint signal is kept for the library, and the dispositions are saved before a checkpoint and
  installed again after a restart.
\<close>

section \<open>Dispositions\<close>

text \<open>
  A handler is an address, of which two have a meaning of their own. The kernel's structure has the
  address of the trampoline as well.
\<close>

record sigact =
  sa_handler :: u64
  sa_mask :: u32
  sa_flags :: u32

record ksigact = sigact +
  sa_tramp :: u64

definition SIG_DFL :: u64 where "SIG_DFL = 0"
definition SIG_IGN :: u64 where "SIG_IGN = 1"
definition SIG_ERR :: u64 where "SIG_ERR = - 1"
definition SIG_KILL :: int where "SIG_KILL = 9"
definition SIG_STOP :: int where "SIG_STOP = 17"
definition SIG_EINVAL :: int where "SIG_EINVAL = 22"
definition SA_VALIDATE_SIGRETURN_FROM_SIGTRAMP :: u32 where "SA_VALIDATE_SIGRETURN_FROM_SIGTRAMP = 0x0400"

text \<open>
  The state of the library: the two static variables, the environment with the cached value of the
  checkpoint signal, and what the system keeps, \<open>'k\<close>. The calls of the system answer with
  a status and, for the ones that report an old value, with that value. The last two fields are the
  addresses of two functions of the library.
\<close>

record 'k sigs =
  last_ckpt_sig :: int
  sa_table :: "int \<Rightarrow> sigact"
  sg_cache :: int
  sg_env :: environ
  sg_sys :: 'k

record 'k signal_os =
  so_sigaction :: "int \<Rightarrow> ksigact option \<Rightarrow> 'k \<Rightarrow> (int \<times> sigact) \<times> 'k"
  so_libc_sigaction :: "int \<Rightarrow> sigact option \<Rightarrow> 'k \<Rightarrow> (int \<times> sigact) \<times> 'k"
  so_libc_signal :: "int \<Rightarrow> u64 \<Rightarrow> 'k \<Rightarrow> u64 \<times> 'k"
  so_sigmask :: "int \<Rightarrow> u32 option \<Rightarrow> 'k \<Rightarrow> (int \<times> u32) \<times> 'k"
  so_set_errno :: "int \<Rightarrow> 'k \<Rightarrow> 'k"
  so_sighandler :: u64
  so_sigtramp :: u64

definition sig_call :: "('k \<Rightarrow> 'a \<times> 'k) \<Rightarrow> (('k, 'e) sigs_scheme, 'a) prog" where
  "sig_call f = zoom sg_sys (\<lambda>k s. s\<lparr> sg_sys := k \<rparr>) (sys f)"

definition ckpt_signal_p :: "(('k, 'e) sigs_scheme, int) prog" where
  "ckpt_signal_p = (\<lambda>s. let (sig, c) = env_get_ckpt_signal (sg_cache s) (sg_env s) in Some (Inr sig, s\<lparr> sg_cache := c \<rparr>))"

text \<open>
  The last argument of these functions points to a structure for the old disposition, or is null; the
  answer has what is in it afterwards.
\<close>

definition put_old :: "int \<Rightarrow> 'a \<Rightarrow> 'a option \<Rightarrow> 'a option" where
  "put_old r old oact = (if r = 0 then map_option (\<lambda>_. old) oact else oact)"

definition xnd_sigaction ::
  "('k, 'm) signal_os_scheme \<Rightarrow> int \<Rightarrow> sigact option \<Rightarrow> sigact option \<Rightarrow> ('k sigs, int \<times> sigact option) prog" where
  "xnd_sigaction os sig act oact =
     (if sig \<le> 0 \<or> sig \<ge> NSIG
      then sq (sig_call (\<lambda>k. ((), so_set_errno os SIG_EINVAL k))) (ret (- 1, oact))
      else if act \<noteq> None \<and> (sig = SIG_STOP \<or> sig = SIG_KILL)
      then sq (sig_call (\<lambda>k. ((), so_set_errno os SIG_EINVAL k))) (ret (- 1, oact))
      else
        let nsv = (case act of None \<Rightarrow> None
                   | Some a \<Rightarrow> Some \<lparr> sa_handler = sa_handler a, sa_mask = sa_mask a,
                       sa_flags = sa_flags a AND NOT SA_VALIDATE_SIGRETURN_FROM_SIGTRAMP, sa_tramp = so_sigtramp os \<rparr>)
        in bnd (sig_call (so_sigaction os sig nsv)) (\<lambda>(r, osv). ret (r, put_old r osv oact)))"

section \<open>Before a checkpoint and after a restart\<close>

definition no_sigact :: sigact where
  "no_sigact = \<lparr> sa_handler = 0, sa_mask = 0, sa_flags = 0 \<rparr>"

definition illegal_sig :: "int \<Rightarrow> bool" where
  "illegal_sig sig \<longleftrightarrow> sig \<le> 0 \<or> sig \<ge> NSIG \<or> sig = SIG_KILL \<or> sig = SIG_STOP"

definition catchable :: "int list" where
  "catchable = filter (\<lambda>sig. \<not> (sig = SIG_KILL \<or> sig = SIG_STOP)) [1..NSIG - 1]"

definition check_ckpt_entry :: "('k, 'm) signal_os_scheme \<Rightarrow> int \<Rightarrow> ('k sigs, unit) prog" where
  "check_ckpt_entry os ckpt_sig =
     bnd (gets sa_table) (\<lambda>t.
       if sa_handler (t ckpt_sig) \<noteq> so_sighandler os
       then modify (\<lambda>s. s\<lparr> sa_table := (sa_table s)(ckpt_sig := (sa_table s ckpt_sig)\<lparr> sa_handler := so_sighandler os \<rparr>) \<rparr>)
       else ret ())"

definition sig_save_one :: "('k, 'm) signal_os_scheme \<Rightarrow> int \<Rightarrow> ('k sigs, unit) prog" where
  "sig_save_one os sig =
     bnd (gets sa_table) (\<lambda>t.
     bnd (xnd_sigaction os sig None (Some (t sig))) (\<lambda>(r, old).
       let a = (if r \<noteq> 0 then no_sigact else (case old of None \<Rightarrow> t sig | Some a \<Rightarrow> a)) in
       modify (\<lambda>s. s\<lparr> sa_table := (sa_table s)(sig := a) \<rparr>)))"

definition sig_state_save :: "('k, 'm) signal_os_scheme \<Rightarrow> ('k sigs, unit) prog" where
  "sig_state_save os =
     bnd ckpt_signal_p (\<lambda>ckpt_sig.
       if illegal_sig ckpt_sig then halt Aborted
       else
         sq (each (sig_save_one os) catchable)
        (sq (check_ckpt_entry os ckpt_sig)
            (modify (\<lambda>s. s\<lparr> last_ckpt_sig := ckpt_sig \<rparr>))))"

definition sig_restore_one :: "('k, 'm) signal_os_scheme \<Rightarrow> int \<Rightarrow> ('k sigs, unit) prog" where
  "sig_restore_one os sig =
     bnd (gets sa_table) (\<lambda>t.
     bnd (xnd_sigaction os sig (Some (t sig)) None) (\<lambda>_. ret ()))"

definition sig_state_restore :: "('k, 'm) signal_os_scheme \<Rightarrow> ('k sigs, unit) prog" where
  "sig_state_restore os =
     bnd ckpt_signal_p (\<lambda>ckpt_sig.
     bnd (gets last_ckpt_sig) (\<lambda>last.
       if ckpt_sig \<noteq> last then halt Aborted
       else if illegal_sig ckpt_sig then halt Aborted
       else
         sq (check_ckpt_entry os ckpt_sig)
            (each (sig_restore_one os) catchable)))"

section \<open>Wrappers\<close>

definition signal_hook :: "('k, 'm) signal_os_scheme \<Rightarrow> int \<Rightarrow> u64 \<Rightarrow> ('k sigs, u64) prog" where
  "signal_hook os sig handler =
     bnd ckpt_signal_p (\<lambda>ckpt_sig.
       if sig = ckpt_sig then ret SIG_ERR
       else if handler = SIG_DFL \<or> handler = SIG_IGN then sig_call (so_libc_signal os sig handler)
       else
         bnd (xnd_sigaction os sig (Some \<lparr> sa_handler = handler, sa_mask = 0, sa_flags = 0 \<rparr>) None) (\<lambda>(r, _).
           if r \<noteq> 0 then ret SIG_ERR else ret 0))"

definition libc_sigaction ::
  "('k, 'm) signal_os_scheme \<Rightarrow> int \<Rightarrow> sigact option \<Rightarrow> sigact option \<Rightarrow> ('k sigs, int \<times> sigact option) prog" where
  "libc_sigaction os sig act oact =
     bnd (sig_call (so_libc_sigaction os sig act)) (\<lambda>(r, old). ret (r, put_old r old oact))"

definition sigaction_hook ::
  "('k, 'm) signal_os_scheme \<Rightarrow> int \<Rightarrow> sigact option \<Rightarrow> sigact option \<Rightarrow> ('k sigs, int \<times> sigact option) prog" where
  "sigaction_hook os sig act oact =
     (case act of
        None \<Rightarrow> libc_sigaction os sig None oact
      | Some a \<Rightarrow>
          bnd ckpt_signal_p (\<lambda>ckpt_sig.
            if sig = ckpt_sig then ret (- 1, oact)
            else if sa_handler a = SIG_DFL \<or> sa_handler a = SIG_IGN then libc_sigaction os sig act oact
            else xnd_sigaction os sig act oact))"

text \<open>The macro behind \<^verbatim>\<open>sigismember\<close> and \<^verbatim>\<open>sigdelset\<close>.\<close>

definition SIG_BLOCK :: int where "SIG_BLOCK = 1"
definition SIG_UNBLOCK :: int where "SIG_UNBLOCK = 2"
definition SIG_SETMASK :: int where "SIG_SETMASK = 3"

definition sigbits :: "int \<Rightarrow> u32 res" where
  "sigbits sig =
     (if sig > NSIG then Inr 0
      else if sig \<le> 0 then Inl Undefined
      else Inr (push_bit (nat (sig - 1)) 1))"

definition pthread_sigmask_hook ::
  "('k, 'm) signal_os_scheme \<Rightarrow> int \<Rightarrow> u32 option \<Rightarrow> u32 option \<Rightarrow> ('k sigs, int \<times> u32 option) prog" where
  "pthread_sigmask_hook os how sset oset =
     bnd ckpt_signal_p (\<lambda>ckpt_sig.
     bnd (case sset of
            None \<Rightarrow> ret None
          | Some m \<Rightarrow>
              if how = SIG_BLOCK \<or> how = SIG_SETMASK
              then bnd (lift_res (sigbits ckpt_sig)) (\<lambda>b.
                     ret (Some (if m AND b \<noteq> 0 then m AND NOT b else m)))
              else ret (Some m)) (\<lambda>clean.
     bnd (sig_call (so_sigmask os how clean)) (\<lambda>(r, old). ret (r, put_old r old oset))))"

definition sigprocmask_hook ::
  "('k, 'm) signal_os_scheme \<Rightarrow> int \<Rightarrow> u32 option \<Rightarrow> u32 option \<Rightarrow> ('k sigs, int \<times> u32 option) prog" where
  "sigprocmask_hook os how sset oset = pthread_sigmask_hook os how sset oset"

section \<open>Leaving a handler\<close>

text \<open>
  The state is the memory of the thread's stack. \<open>leave\<close> is \<^verbatim>\<open>__sigreturn\<close>, which does not
  come back; if it does, the process aborts. The handler is the argument of the trampoline.
\<close>

definition xnd_sigreturn ::
  "(u64 \<Rightarrow> u64) \<Rightarrow> (u64 \<Rightarrow> u64 \<Rightarrow> u64) \<Rightarrow> (uregs \<Rightarrow> (mem64, unit) prog) \<Rightarrow> uregs \<Rightarrow> (mem64, 'a) prog" where
  "xnd_sigreturn strip sign leave uctx =
     (let fp = u_fp uctx in
      sq (ptrauth_resign_frames strip sign fp)
     (sq (leave (ptrauth_patch_siguctx strip sign uctx))
         (halt Aborted)))"

definition xnd_sigtramp ::
  "(u64 \<Rightarrow> u64) \<Rightarrow> (u64 \<Rightarrow> u64 \<Rightarrow> u64) \<Rightarrow> (uregs \<Rightarrow> (mem64, unit) prog) \<Rightarrow>
     (uregs \<Rightarrow> (mem64, uregs) prog) \<Rightarrow> uregs \<Rightarrow> (mem64, 'a) prog" where
  "xnd_sigtramp strip sign leave handler uctx = bnd (handler uctx) (xnd_sigreturn strip sign leave)"

section \<open>Saving and installing\<close>

text \<open>
  What is relied on of the system: \<open>disp\<close> and \<open>tramp\<close> are the disposition and the
  trampoline it has for a signal. Asking for a signal that can be caught does not change them, and setting
  one changes that signal; no mask that the system has blocks \<^verbatim>\<open>SIGKILL\<close> or \<^verbatim>\<open>SIGSTOP\<close>, and a
  disposition is only relied on to be kept as it is if its mask does not try to.
\<close>

definition UNBLOCKABLE :: u32 where "UNBLOCKABLE = 0x10100"

definition keeps_actions ::
  "('k, 'm) signal_os_scheme \<Rightarrow> ('k \<Rightarrow> int \<Rightarrow> sigact) \<Rightarrow> ('k \<Rightarrow> int \<Rightarrow> u64) \<Rightarrow> bool" where
  "keeps_actions os disp tramp \<longleftrightarrow>
     (\<forall>k. \<forall>sig \<in> set catchable.
        so_sigaction os sig None k = ((0, disp k sig), k) \<and> sa_mask (disp k sig) AND UNBLOCKABLE = 0) \<and>
     (\<forall>k a. \<forall>sig \<in> set catchable. sa_mask a AND UNBLOCKABLE = 0 \<longrightarrow>
        fst (fst (so_sigaction os sig (Some a) k)) = 0 \<and>
        disp (snd (so_sigaction os sig (Some a) k)) =
          (disp k)(sig := \<lparr> sa_handler = sa_handler a, sa_mask = sa_mask a, sa_flags = sa_flags a \<rparr>) \<and>
        tramp (snd (so_sigaction os sig (Some a) k)) = (tramp k)(sig := sa_tramp a))"

lemma unblockable_free: "(m AND NOT UNBLOCKABLE) AND UNBLOCKABLE = 0"
  by (simp add: and.assoc)

lemma unblockable_clean:
  assumes "m AND UNBLOCKABLE = 0"
  shows "m AND NOT UNBLOCKABLE = m"
proof -
  have "m = m AND (UNBLOCKABLE OR NOT UNBLOCKABLE)"
    by simp
  then show ?thesis
    using assms by (simp only: bit.conj_disj_distrib) simp
qed

lemma catchable_iff: "sig \<in> set catchable \<longleftrightarrow> 0 < sig \<and> sig < NSIG \<and> sig \<noteq> SIG_KILL \<and> sig \<noteq> SIG_STOP"
  by (auto simp: catchable_def)

lemma illegal_sig_iff: "illegal_sig sig \<longleftrightarrow> sig \<notin> set catchable"
  by (auto simp: illegal_sig_def catchable_iff)

lemma save_all:
  assumes "keeps_actions os disp tramp" and "set sigs \<subseteq> set catchable"
  shows "each (sig_save_one os) sigs s = Some (Inr (),
    s\<lparr> sa_table := \<lambda>sig. if sig \<in> set sigs then disp (sg_sys s) sig else sa_table s sig \<rparr>)"
  using assms(2)
proof (induction sigs arbitrary: s)
  case (Cons sig sigs)
  have one: "sig_save_one os sig s = Some (Inr (), s\<lparr> sa_table := (sa_table s)(sig := disp (sg_sys s) sig) \<rparr>)"
    using assms(1) Cons(2)
    by (simp add: sig_save_one_def xnd_sigaction_def sig_call_def sys_def prog_defs put_old_def keeps_actions_def catchable_iff)
  have rest: "set sigs \<subseteq> set catchable"
    using Cons(2) by simp
  show ?case
    by (simp add: sq_def bnd_def one Cons(1) [OF rest] fun_eq_iff)
qed (simp add: ret_def)

definition installed :: "sigact \<Rightarrow> sigact" where
  "installed a = a\<lparr> sa_flags := sa_flags a AND NOT SA_VALIDATE_SIGRETURN_FROM_SIGTRAMP \<rparr>"

lemma installed_eq:
  "installed a = \<lparr> sa_handler = sa_handler a, sa_mask = sa_mask a,
     sa_flags = sa_flags a AND NOT SA_VALIDATE_SIGRETURN_FROM_SIGTRAMP \<rparr>"
  by (cases a) (simp add: installed_def)

lemma restore_all:
  assumes "keeps_actions os disp tramp" and "set sigs \<subseteq> set catchable"
    and "\<forall>sig \<in> set sigs. sa_mask (sa_table s sig) AND UNBLOCKABLE = 0"
  shows "\<exists>k. each (sig_restore_one os) sigs s = Some (Inr (), s\<lparr> sg_sys := k \<rparr>) \<and>
    disp k = (\<lambda>sig. if sig \<in> set sigs then installed (sa_table s sig) else disp (sg_sys s) sig) \<and>
    tramp k = (\<lambda>sig. if sig \<in> set sigs then so_sigtramp os else tramp (sg_sys s) sig)"
  using assms(2,3)
proof (induction sigs arbitrary: s)
  case Nil
  then show ?case by (auto simp: ret_def intro!: exI [of _ "sg_sys s"])
next
  case (Cons sig sigs)
  define k where "k = snd (so_sigaction os sig (Some \<lparr> sa_handler = sa_handler (sa_table s sig), sa_mask = sa_mask (sa_table s sig),
    sa_flags = sa_flags (sa_table s sig) AND NOT SA_VALIDATE_SIGRETURN_FROM_SIGTRAMP, sa_tramp = so_sigtramp os \<rparr>) (sg_sys s))"
  have one: "sig_restore_one os sig s = Some (Inr (), s\<lparr> sg_sys := k \<rparr>)"
    using Cons(2) by (simp add: sig_restore_one_def xnd_sigaction_def sig_call_def sys_def prog_defs put_old_def catchable_iff
        k_def Let_def split_beta)
  have k: "disp k = (disp (sg_sys s))(sig := installed (sa_table s sig))" "tramp k = (tramp (sg_sys s))(sig := so_sigtramp os)"
    using assms(1) Cons(2,3) by (simp_all add: k_def keeps_actions_def installed_eq)
  obtain k' where k': "each (sig_restore_one os) sigs (s\<lparr> sg_sys := k \<rparr>) = Some (Inr (), s\<lparr> sg_sys := k' \<rparr>)"
    "disp k' = (\<lambda>g. if g \<in> set sigs then installed (sa_table s g) else disp k g)"
    "tramp k' = (\<lambda>g. if g \<in> set sigs then so_sigtramp os else tramp k g)"
    using Cons(1) [of "s\<lparr> sg_sys := k \<rparr>"] Cons(2,3) by (auto cong: if_cong)
  show ?case
    by (rule exI [of _ k']) (simp add: sq_def bnd_def one k' k fun_eq_iff)
qed

section \<open>Properties\<close>

text \<open>
  C10: what a process does on a signal survives checkpoint and restart. The dispositions of all signals
  that can have one are saved; after a restart, on a system with any dispositions of its own, they are
  installed again, with the same handler, mask and flags (but the flag that only the system's trampoline
  may have), and all with the trampoline of the library, which signs the return addresses again. The
  checkpoint signal always has the handler of the library, also where it had lost it.
\<close>

theorem dispositions_survive_restart:
  assumes "keeps_actions os disp tramp"
    and "sig_state_save os s = Some (Inr (), s')" and "env_get_ckpt_signal (sg_cache s) (sg_env s) = (ckpt, ckpt)"
  shows "\<exists>k. sig_state_restore os (s'\<lparr> sg_sys := new \<rparr>) = Some (Inr (), s'\<lparr> sg_sys := k \<rparr>) \<and>
    (\<forall>sig. sig \<in> set catchable \<longrightarrow> tramp k sig = so_sigtramp os \<and>
       disp k sig = installed ((disp (sg_sys s) sig)\<lparr> sa_handler :=
         (if sig = ckpt then so_sighandler os else sa_handler (disp (sg_sys s) sig)) \<rparr>))"
proof -
  define t where "t = (\<lambda>sig. if sig \<in> set catchable then disp (sg_sys s) sig else sa_table s sig)"
  define t' where "t' = (if sa_handler (t ckpt) \<noteq> so_sighandler os then t(ckpt := (t ckpt)\<lparr> sa_handler := so_sighandler os \<rparr>) else t)"
  have legal: "ckpt \<in> set catchable"
  proof (rule ccontr)
    assume "ckpt \<notin> set catchable"
    then show False
      using assms(2,3) by (simp add: sig_state_save_def ckpt_signal_p_def bnd_def halt_def illegal_sig_iff)
  qed
  have saved: "each (sig_save_one os) catchable (s\<lparr> sg_cache := ckpt \<rparr>) = Some (Inr (), s\<lparr> sg_cache := ckpt, sa_table := t \<rparr>)"
    using save_all [OF assms(1) subset_refl, of "s\<lparr> sg_cache := ckpt \<rparr>"] by (simp add: t_def cong: if_cong)
  have s': "s' = s\<lparr> sg_cache := ckpt, sa_table := t', last_ckpt_sig := ckpt \<rparr>"
    using assms(2,3) legal
    by (auto simp: sig_state_save_def ckpt_signal_p_def bnd_def sq_def illegal_sig_iff check_ckpt_entry_def prog_defs
        saved t'_def split: if_splits)
  have handler: "sa_handler (t' ckpt) = so_sighandler os"
    by (simp add: t'_def)
  have masks: "\<forall>sig \<in> set catchable. sa_mask (t' sig) AND UNBLOCKABLE = 0"
    using assms(1) by (simp add: t'_def t_def keeps_actions_def)
  obtain k where k: "each (sig_restore_one os) catchable (s'\<lparr> sg_sys := new \<rparr>) = Some (Inr (), s'\<lparr> sg_sys := k \<rparr>)"
    "disp k = (\<lambda>sig. if sig \<in> set catchable then installed (t' sig) else disp new sig)"
    "tramp k = (\<lambda>sig. if sig \<in> set catchable then so_sigtramp os else tramp new sig)"
    using restore_all [OF assms(1) subset_refl, of "s'\<lparr> sg_sys := new \<rparr>"] masks by (auto simp: s' cong: if_cong)
  have cache: "env_get_ckpt_signal ckpt (sg_env s) = (ckpt, ckpt)"
    using assms(3) by (auto simp: env_get_ckpt_signal_def Let_def split: if_splits)
  have ask: "ckpt_signal_p (s'\<lparr> sg_sys := new \<rparr>) = Some (Inr ckpt, s'\<lparr> sg_sys := new \<rparr>)"
    using cache by (cases s) (simp add: ckpt_signal_p_def s')
  have "last_ckpt_sig s' = ckpt" "sa_handler (sa_table s' ckpt) = so_sighandler os"
    using handler by (simp_all add: s')
  then have "sig_state_restore os (s'\<lparr> sg_sys := new \<rparr>) = Some (Inr (), s'\<lparr> sg_sys := k \<rparr>)"
    using k(1) ask legal
    by (simp add: sig_state_restore_def bnd_def sq_def illegal_sig_iff check_ckpt_entry_def gets_def ret_def)
  moreover have "t' sig = (disp (sg_sys s) sig)\<lparr> sa_handler :=
      (if sig = ckpt then so_sighandler os else sa_handler (disp (sg_sys s) sig)) \<rparr>" if "sig \<in> set catchable" for sig
    using that by (cases "disp (sg_sys s) sig") (auto simp: t'_def t_def)
  ultimately show ?thesis
    using k(2,3) by auto
qed

text \<open>
  A system whose state is its dispositions and trampolines, and a process with a handler for the
  interrupt signal; after the restart nothing is installed.
\<close>

definition clean_disp :: "sigact \<Rightarrow> sigact" where
  "clean_disp a = a\<lparr> sa_mask := sa_mask a AND NOT UNBLOCKABLE \<rparr>"

definition small_sig_os :: "((int \<Rightarrow> sigact) \<times> (int \<Rightarrow> u64) \<times> u32) signal_os" where
  "small_sig_os = \<lparr> so_sigaction = (\<lambda>sig act (d, t, b). ((0, clean_disp (d sig)), case act of None \<Rightarrow> (d, t, b)
       | Some a \<Rightarrow> (d(sig := \<lparr> sa_handler = sa_handler a, sa_mask = sa_mask a, sa_flags = sa_flags a \<rparr>), t(sig := sa_tramp a), b))),
     so_libc_sigaction = (\<lambda>sig act (d, t, b). ((0, d sig), case act of None \<Rightarrow> (d, t, b) | Some a \<Rightarrow> (d(sig := a), t, b))),
     so_libc_signal = (\<lambda>sig h (d, t, b). (sa_handler (d sig), (d(sig := \<lparr> sa_handler = h, sa_mask = 0, sa_flags = 0 \<rparr>), t, b))),
     so_sigmask = (\<lambda>how m (d, t, b). ((0, b), case m of None \<Rightarrow> (d, t, b)
       | Some m \<Rightarrow> (d, t, if how = SIG_BLOCK then b OR m AND NOT UNBLOCKABLE else if how = SIG_UNBLOCK then b AND NOT m
         else if how = SIG_SETMASK then m AND NOT UNBLOCKABLE else b))),
     so_set_errno = (\<lambda>_ k. k), so_sighandler = 0x4000, so_sigtramp = 0x4100 \<rparr>"

definition small_disp :: "(int \<Rightarrow> sigact) \<times> (int \<Rightarrow> u64) \<times> u32 \<Rightarrow> int \<Rightarrow> sigact" where
  "small_disp k sig = clean_disp (fst k sig)"

definition interrupt_handled :: "((int \<Rightarrow> sigact) \<times> (int \<Rightarrow> u64) \<times> u32) sigs" where
  "interrupt_handled = \<lparr> last_ckpt_sig = - 1, sa_table = (\<lambda>_. no_sigact), sg_cache = 31, sg_env = (\<lambda>_. None),
     sg_sys = ((\<lambda>_. no_sigact)(2 := \<lparr> sa_handler = 0x5000, sa_mask = 0xFF, sa_flags = 0x440 \<rparr>,
       31 := \<lparr> sa_handler = 0x4000, sa_mask = 0, sa_flags = 0x40 \<rparr>), (\<lambda>_. 0), 0) \<rparr>"

lemma small_sig_os_keeps: "keeps_actions small_sig_os small_disp (\<lambda>k. fst (snd k))"
  using unblockable_clean
  by (auto simp: keeps_actions_def small_sig_os_def small_disp_def clean_disp_def split_beta fun_eq_iff unblockable_free)

theorem dispositions_survive_restart_witness:
  "\<exists>s' k. sig_state_save small_sig_os interrupt_handled = Some (Inr (), s') \<and>
     sig_state_restore small_sig_os (s'\<lparr> sg_sys := ((\<lambda>_. no_sigact), (\<lambda>_. 0), 0) \<rparr>) = Some (Inr (), s'\<lparr> sg_sys := k \<rparr>) \<and>
     small_disp k 2 = \<lparr> sa_handler = 0x5000, sa_mask = 0xFF, sa_flags = 0x40 \<rparr> \<and> fst (snd k) 2 = 0x4100"
proof -
  have ask: "env_get_ckpt_signal (sg_cache interrupt_handled) (sg_env interrupt_handled) = (31, 31)"
    by (simp add: interrupt_handled_def env_get_ckpt_signal_def)
  have "\<exists>s'. sig_state_save small_sig_os interrupt_handled = Some (Inr (), s')"
    by (simp add: sig_state_save_def ckpt_signal_p_def ask bnd_def sq_def save_all [OF small_sig_os_keeps subset_refl]
        illegal_sig_iff catchable_iff NSIG_def SIG_KILL_def SIG_STOP_def check_ckpt_entry_def prog_defs)
  then obtain s' where s': "sig_state_save small_sig_os interrupt_handled = Some (Inr (), s')" by blast
  obtain k where k: "sig_state_restore small_sig_os (s'\<lparr> sg_sys := ((\<lambda>_. no_sigact), (\<lambda>_. 0), 0) \<rparr>) = Some (Inr (), s'\<lparr> sg_sys := k \<rparr>)"
    "\<forall>sig. sig \<in> set catchable \<longrightarrow> fst (snd k) sig = so_sigtramp small_sig_os \<and>
       small_disp k sig = installed ((small_disp (sg_sys interrupt_handled) sig)\<lparr> sa_handler :=
         (if sig = 31 then so_sighandler small_sig_os else sa_handler (small_disp (sg_sys interrupt_handled) sig)) \<rparr>)"
    using dispositions_survive_restart [OF small_sig_os_keeps s' ask] by blast
  have "2 \<in> set catchable"
    by (simp add: catchable_iff NSIG_def SIG_KILL_def SIG_STOP_def)
  then have "small_disp k 2 = \<lparr> sa_handler = 0x5000, sa_mask = 0xFF, sa_flags = 0x40 \<rparr>" "fst (snd k) 2 = 0x4100"
    using k(2) by (simp_all add: interrupt_handled_def installed_def SA_VALIDATE_SIGRETURN_FROM_SIGTRAMP_def small_sig_os_def
        small_disp_def clean_disp_def UNBLOCKABLE_def)
  with s' k(1) show ?thesis by blast
qed

subsection \<open>The signal of the library\<close>

text \<open>
  The calls on signals that a program makes, and what is relied on of the system for them: no call changes
  the disposition of a signal that it does not name, and a mask is changed as asked but for
  \<^verbatim>\<open>SIGKILL\<close> and \<^verbatim>\<open>SIGSTOP\<close>, which are never blocked.
\<close>

inductive signal_call :: "('k, 'm) signal_os_scheme \<Rightarrow> 'k sigs \<Rightarrow> 'k sigs \<Rightarrow> bool" for os where
  call_signal: "signal_hook os sig h s = Some (Inr r, s') \<Longrightarrow> signal_call os s s'"
| call_sigaction: "sigaction_hook os sig act oact s = Some (Inr r, s') \<Longrightarrow> signal_call os s s'"
| call_sigmask: "pthread_sigmask_hook os how sset oset s = Some (Inr r, s') \<Longrightarrow> signal_call os s s'"
| call_procmask: "sigprocmask_hook os how sset oset s = Some (Inr r, s') \<Longrightarrow> signal_call os s s'"

definition separate_signals ::
  "('k, 'm) signal_os_scheme \<Rightarrow> ('k \<Rightarrow> int \<Rightarrow> sigact) \<Rightarrow> ('k \<Rightarrow> u32) \<Rightarrow> bool" where
  "separate_signals os disp blocked \<longleftrightarrow>
     (\<forall>k sig g a. g \<noteq> sig \<longrightarrow> disp (snd (so_sigaction os sig (Some a) k)) g = disp k g) \<and>
     (\<forall>k sig g a. g \<noteq> sig \<longrightarrow> disp (snd (so_libc_sigaction os sig (Some a) k)) g = disp k g) \<and>
     (\<forall>k sig g h. g \<noteq> sig \<longrightarrow> disp (snd (so_libc_signal os sig h k)) g = disp k g) \<and>
     (\<forall>k sig. disp (snd (so_sigaction os sig None k)) = disp k \<and> disp (snd (so_libc_sigaction os sig None k)) = disp k) \<and>
     (\<forall>k how m. disp (snd (so_sigmask os how m k)) = disp k) \<and>
     (\<forall>k e. disp (so_set_errno os e k) = disp k \<and> blocked (so_set_errno os e k) = blocked k) \<and>
     (\<forall>k sig a. blocked (snd (so_sigaction os sig a k)) = blocked k) \<and>
     (\<forall>k sig a. blocked (snd (so_libc_sigaction os sig a k)) = blocked k) \<and>
     (\<forall>k sig h. blocked (snd (so_libc_signal os sig h k)) = blocked k) \<and>
     (\<forall>k how. blocked (snd (so_sigmask os how None k)) = blocked k) \<and>
     (\<forall>k how m. blocked (snd (so_sigmask os how (Some m) k)) =
        (if how = SIG_BLOCK then blocked k OR m AND NOT UNBLOCKABLE else if how = SIG_UNBLOCK then blocked k AND NOT m
         else if how = SIG_SETMASK then m AND NOT UNBLOCKABLE else blocked k))"

definition signal_kept ::
  "('k \<Rightarrow> int \<Rightarrow> sigact) \<Rightarrow> ('k \<Rightarrow> u32) \<Rightarrow> int \<Rightarrow> sigact \<Rightarrow> 'k sigs \<Rightarrow> bool" where
  "signal_kept disp blocked ckpt a s \<longleftrightarrow> sg_cache s = ckpt \<and>
     disp (sg_sys s) ckpt = a \<and> \<not> bit (blocked (sg_sys s)) (nat (ckpt - 1))"

lemma ask_cached: "sg_cache s \<noteq> - 1 \<Longrightarrow> ckpt_signal_p s = Some (Inr (sg_cache s), s)"
  by (cases s) (simp add: ckpt_signal_p_def env_get_ckpt_signal_def Let_def)

lemma separate_signalsD:
  assumes "separate_signals os disp blocked"
  shows "ckpt \<noteq> sig \<or> act = None \<Longrightarrow> disp (snd (so_sigaction os sig act k)) ckpt = disp k ckpt"
    and "ckpt \<noteq> sig \<or> act' = None \<Longrightarrow> disp (snd (so_libc_sigaction os sig act' k)) ckpt = disp k ckpt"
    and "ckpt \<noteq> sig \<Longrightarrow> disp (snd (so_libc_signal os sig h k)) ckpt = disp k ckpt"
    and "disp (snd (so_sigmask os how m k)) = disp k"
    and "disp (so_set_errno os e k) = disp k" and "blocked (so_set_errno os e k) = blocked k"
    and "blocked (snd (so_sigaction os sig act k)) = blocked k"
    and "blocked (snd (so_libc_sigaction os sig act' k)) = blocked k"
    and "blocked (snd (so_libc_signal os sig h k)) = blocked k"
    and "blocked (snd (so_sigmask os how None k)) = blocked k"
    and "blocked (snd (so_sigmask os how (Some b) k)) =
        (if how = SIG_BLOCK then blocked k OR b AND NOT UNBLOCKABLE else if how = SIG_UNBLOCK then blocked k AND NOT b
         else if how = SIG_SETMASK then b AND NOT UNBLOCKABLE else blocked k)"
  using assms by (cases act; cases act'; auto simp: separate_signals_def)+

lemma sig_call_run:
  "sig_call f s = Some (Inr (fst (f (sg_sys s))), s\<lparr> sg_sys := snd (f (sg_sys s)) \<rparr>)"
  by (simp add: sig_call_def zoom_def sys_def split_beta)

lemma xnd_sigaction_keeps:
  assumes "separate_signals os disp blocked" and "xnd_sigaction os sig act oact s = Some (Inr r, s')"
    and "signal_kept disp blocked ckpt a s" and "ckpt \<noteq> sig \<or> act = None"
  shows "signal_kept disp blocked ckpt a s'"
  using assms(2-4) separate_signalsD [OF assms(1)]
  by (auto simp: xnd_sigaction_def Let_def prog_defs sig_call_run signal_kept_def split_beta split: if_splits option.splits)

lemma libc_sigaction_keeps:
  assumes "separate_signals os disp blocked" and "libc_sigaction os sig act oact s = Some (Inr r, s')"
    and "signal_kept disp blocked ckpt a s" and "ckpt \<noteq> sig \<or> act = None"
  shows "signal_kept disp blocked ckpt a s'"
  using assms(2-4) separate_signalsD [OF assms(1)]
  by (auto simp: libc_sigaction_def prog_defs sig_call_run signal_kept_def split_beta)

lemma sigmask_keeps:
  assumes "separate_signals os disp blocked" and "pthread_sigmask_hook os how sset oset s = Some (Inr r, s')"
    and "signal_kept disp blocked ckpt a s" and "0 < ckpt" "ckpt < NSIG"
  shows "signal_kept disp blocked ckpt a s'"
proof -
  have ask: "ckpt_signal_p s = Some (Inr ckpt, s)"
    using ask_cached [of s] assms(3,4) by (simp add: signal_kept_def)
  have bits: "sigbits ckpt = Inr (2 ^ nat (ckpt - 1))"
    using assms(4,5) by (simp add: sigbits_def)
  have n: "nat (ckpt - 1) < 32"
    using assms(5) by (simp add: NSIG_def)
  have member: "m AND 2 ^ nat (ckpt - 1) = 0 \<longleftrightarrow> \<not> bit m (nat (ckpt - 1))" for m :: u32
    using bit_iff_and_push_bit_not_eq_0 [of m "nat (ckpt - 1)"] by simp
  show ?thesis
    using assms(2,3) separate_signalsD [OF assms(1)] n
    by (auto simp: pthread_sigmask_hook_def bnd_def ask bits lift_res_def ret_def sig_call_run signal_kept_def split_beta
        member bit_and_iff bit_or_iff bit_not_iff bit_exp_iff
        SIG_BLOCK_def SIG_UNBLOCK_def SIG_SETMASK_def split: if_splits option.splits)
qed

text \<open>
  C11: the checkpoint signal stays with the library. Whatever a program does with \<^verbatim>\<open>signal\<close>,
  \<^verbatim>\<open>sigaction\<close>, \<^verbatim>\<open>sigprocmask\<close> and \<^verbatim>\<open>pthread_sigmask\<close>, in any order, the signal
  has the disposition it had and does not become blocked, so a checkpoint can always suspend the thread.
\<close>

theorem checkpoint_signal_is_kept:
  assumes "separate_signals os disp blocked" and "0 < ckpt" and "ckpt < NSIG"
    and "(signal_call os)\<^sup>*\<^sup>* s s'" and "signal_kept disp blocked ckpt a s"
  shows "signal_kept disp blocked ckpt a s'"
  using assms(4,5)
proof (induction rule: rtranclp_induct)
  case (step t u)
  then have kept: "signal_kept disp blocked ckpt a t" by blast
  then have ask: "ckpt_signal_p t = Some (Inr ckpt, t)"
    using ask_cached [of t] assms(2) by (simp add: signal_kept_def)
  from step(2) show ?case
  proof cases
    case (call_signal sig h r)
    then show ?thesis
      using kept separate_signalsD [OF assms(1)] xnd_sigaction_keeps [OF assms(1) _ kept]
      by (auto simp: signal_hook_def bnd_def ask sig_call_run ret_def signal_kept_def
          split: if_splits option.splits sum.splits prod.splits)
  next
    case (call_sigaction sig act oact r)
    then show ?thesis
      using kept libc_sigaction_keeps [OF assms(1) _ kept] xnd_sigaction_keeps [OF assms(1) _ kept]
      by (auto simp: sigaction_hook_def bnd_def ask ret_def split: if_splits option.splits)
  next
    case call_sigmask
    then show ?thesis using sigmask_keeps [OF assms(1) _ kept assms(2,3)] by blast
  next
    case call_procmask
    then show ?thesis using sigmask_keeps [OF assms(1) _ kept assms(2,3)] by (auto simp: sigprocmask_hook_def)
  qed
qed

text \<open>A program that blocks every signal.\<close>

theorem checkpoint_signal_is_kept_witness:
  "\<exists>s'. pthread_sigmask_hook small_sig_os SIG_SETMASK (Some (- 1)) None interrupt_handled = Some (Inr (0, None), s') \<and>
     \<not> bit (snd (snd (sg_sys s'))) 30 \<and> bit (snd (snd (sg_sys s'))) 1"
proof -
  define s' where "s' = interrupt_handled\<lparr> sg_sys := (fst (sg_sys interrupt_handled), fst (snd (sg_sys interrupt_handled)), NOT (2 ^ 30) AND NOT UNBLOCKABLE) \<rparr>"
  have run: "pthread_sigmask_hook small_sig_os SIG_SETMASK (Some (- 1)) None interrupt_handled = Some (Inr (0, None), s')"
    by (simp add: pthread_sigmask_hook_def bnd_def ask_cached interrupt_handled_def sigbits_def NSIG_def lift_res_def ret_def
        sig_call_run small_sig_os_def SIG_BLOCK_def SIG_UNBLOCK_def SIG_SETMASK_def put_old_def s'_def)
  have sep: "separate_signals small_sig_os fst (\<lambda>k. snd (snd k))"
    by (simp add: separate_signals_def small_sig_os_def split_beta split: option.splits)
  have "signal_kept fst (\<lambda>k. snd (snd k)) 31 \<lparr> sa_handler = 0x4000, sa_mask = 0, sa_flags = 0x40 \<rparr> interrupt_handled"
    by (simp add: signal_kept_def interrupt_handled_def)
  then have "signal_kept fst (\<lambda>k. snd (snd k)) 31 \<lparr> sa_handler = 0x4000, sa_mask = 0, sa_flags = 0x40 \<rparr> s'"
    using checkpoint_signal_is_kept [OF sep _ _ r_into_rtranclp [of "signal_call small_sig_os", OF call_sigmask [OF run]], of 31]
    by (simp add: NSIG_def)
  then have "\<not> bit (snd (snd (sg_sys s'))) 30"
    by (simp add: signal_kept_def)
  moreover have "bit (snd (snd (sg_sys s'))) 1"
    by (simp add: s'_def UNBLOCKABLE_def)
  ultimately show ?thesis using run by blast
qed

end
