(* ===== verification/Thread_Save.thy ===== *)
theory Thread_Save
  imports Thread_Info Signals
begin

text \<open>
  What \<^verbatim>\<open>thread_info.c\<close> keeps of a thread across a restart besides its stack: its slots
  of thread-local storage, its signal mask and its alternate signal stack.
\<close>

section \<open>State\<close>

text \<open>
  The descriptor \<^verbatim>\<open>myself\<close> points to, whether it is that of the checkpoint thread, the
  memory, and the register with the address of the thread-local storage, which the thread cannot write.
\<close>

record 'k tsave = "'k sigs" +
  ts_me :: "thread_info option"
  ts_is_ckpt :: bool
  ts_mem :: mem64
  ts_reg :: u64

text \<open>
  A stack is its address, its size and its flags. The call answers with a status and the old stack.
\<close>

record 'k thread_os = "'k signal_os" +
  to_sigaltstack :: "(u64 \<times> u64 \<times> u32) option \<Rightarrow> 'k \<Rightarrow> (int \<times> u64 \<times> u64 \<times> u32) \<times> 'k"

definition SS_ONSTACK :: u32 where "SS_ONSTACK = 1"
definition SS_DISABLE :: u32 where "SS_DISABLE = 4"

definition me_get :: "(('k, 'm) tsave_scheme, thread_info) prog" where
  "me_get = bnd (gets ts_me) (\<lambda>me. case me of None \<Rightarrow> halt Undefined | Some th \<Rightarrow> ret th)"

definition me_mod :: "(thread_info \<Rightarrow> thread_info) \<Rightarrow> (('k, 'm) tsave_scheme, unit) prog" where
  "me_mod f = modify (\<lambda>s. s\<lparr> ts_me := map_option f (ts_me s) \<rparr>)"

section \<open>Thread-local storage\<close>

definition slot_addr :: "u64 \<Rightarrow> nat \<Rightarrow> u64" where
  "slot_addr tls k = tls + word_of_nat (8 * k)"

definition PTHREAD_TLS_OFFSET :: u64 where "PTHREAD_TLS_OFFSET = 0xE0"
definition TLS_CLEANUP_HANDLER_OFFSET :: u64 where "TLS_CLEANUP_HANDLER_OFFSET = - PTHREAD_TLS_OFFSET + 8"

definition set_thread_cleanup_stack :: "u64 \<Rightarrow> u64 \<Rightarrow> mem64 \<Rightarrow> mem64" where
  "set_thread_cleanup_stack tls handler m = m(tls + TLS_CLEANUP_HANDLER_OFFSET := handler)"

text \<open>The slots that a thread and its libraries may use freely.\<close>

definition slot_list :: "nat list" where "slot_list = [20..<768]"

definition copy_slot :: "u64 \<Rightarrow> u64 \<Rightarrow> nat \<Rightarrow> mem64 \<Rightarrow> mem64" where
  "copy_slot dst src k m = m(slot_addr dst k := m (slot_addr src k))"

definition copy_slots :: "u64 \<Rightarrow> u64 \<Rightarrow> mem64 \<Rightarrow> mem64" where
  "copy_slots dst src m = fold (copy_slot dst src) slot_list m"

definition thread_save_tls :: "(('k, 'm) tsave_scheme, unit) prog" where
  "thread_save_tls =
     bnd (gets ts_me) (\<lambda>me.
     sq (assert_p (me \<noteq> None))
    (bnd (gets ts_reg) (\<lambda>tls.
     bnd me_get (\<lambda>th.
       if ti_state th \<noteq> ST_CKPT_THREAD then me_mod (\<lambda>th. th\<lparr> ti_tls := tls \<rparr>)
       else
         bnd (gets ts_is_ckpt) (\<lambda>is_ckpt.
         sq (assert_p is_ckpt)
           (if ti_tls th = 0 then me_mod (\<lambda>th. th\<lparr> ti_tls := tls \<rparr>)
            else modify (\<lambda>s. s\<lparr> ts_mem := copy_slots (ti_tls th) tls (ts_mem s) \<rparr>)))))))"

text \<open>The argument is the descriptor of the thread.\<close>

definition thread_restore_tls :: "thread_info option \<Rightarrow> (('k, 'm) tsave_scheme, unit) prog" where
  "thread_restore_tls th =
     (case th of
        None \<Rightarrow> halt Aborted
      | Some th \<Rightarrow>
          bnd (gets ts_reg) (\<lambda>tls.
          sq (modify (\<lambda>s. s\<lparr> ts_mem := set_thread_cleanup_stack tls 0 (ts_mem s) \<rparr>))
             (modify (\<lambda>s. s\<lparr> ts_mem := copy_slots tls (ti_tls th) (ts_mem s) \<rparr>))))"

text \<open>Going back to the saved context; \<open>jump\<close> is \<^verbatim>\<open>xnd_setcontext\<close>, and the registers are those of the context.\<close>

definition thread_restore_context ::
  "(u64 \<Rightarrow> u64) \<Rightarrow> (u64 \<Rightarrow> u64 \<Rightarrow> u64) \<Rightarrow> (uregs \<Rightarrow> (mem64, 'a) prog) \<Rightarrow> uregs \<Rightarrow> (mem64, 'a) prog" where
  "thread_restore_context strip sign jump uctx =
     (let fp = u_fp uctx in sq (ptrauth_resign_frames strip sign fp) (jump uctx))"

section \<open>Signals\<close>

definition add_ckpt_signal :: "(('k, 'm) tsave_scheme, unit) prog" where
  "add_ckpt_signal =
     bnd ckpt_signal_p (\<lambda>ckpt_sig.
     bnd (gets ts_is_ckpt) (\<lambda>is_ckpt.
       if is_ckpt
       then bnd (lift_res (sigbits ckpt_sig)) (\<lambda>b.
              me_mod (\<lambda>th. if ti_sigblocked th AND b = 0 then th\<lparr> ti_sigblocked := ti_sigblocked th OR b \<rparr> else th))
       else ret ()))"

definition thread_save_sig_state :: "('k, 'n) thread_os_scheme \<Rightarrow> (('k, 'm) tsave_scheme, unit) prog" where
  "thread_save_sig_state os =
     bnd ckpt_signal_p (\<lambda>ckpt_sig.
     bnd me_get (\<lambda>_.
     bnd (sig_call (so_sigmask os SIG_SETMASK None)) (\<lambda>(err, blocked).
     sq (me_mod (\<lambda>th. th\<lparr> ti_sigblocked := (if err \<noteq> 0 then 0 else blocked) \<rparr>))
    (sq add_ckpt_signal
    (bnd (sig_call (to_sigaltstack os None)) (\<lambda>(err, sp, sz, fl).
       me_mod (\<lambda>th. if err \<noteq> 0
         then th\<lparr> ti_ss := (case ti_ss th of (sp', sz', _) \<Rightarrow> (sp', sz', SS_DISABLE)) \<rparr>
         else th\<lparr> ti_ss := (sp, sz, fl) \<rparr>)))))))"

definition thread_restore_sig_state :: "('k, 'n) thread_os_scheme \<Rightarrow> (('k, 'm) tsave_scheme, unit) prog" where
  "thread_restore_sig_state os =
     bnd ckpt_signal_p (\<lambda>ckpt_sig.
     bnd me_get (\<lambda>_.
     sq add_ckpt_signal
    (bnd me_get (\<lambda>th.
     bnd (sig_call (so_sigmask os SIG_SETMASK (Some (ti_sigblocked th)))) (\<lambda>_.
       case ti_ss th of (sp, sz, fl) \<Rightarrow>
         if sp = 0 \<or> fl AND SS_DISABLE \<noteq> 0 then ret ()
         else
           sq (me_mod (\<lambda>th. th\<lparr> ti_ss := (sp, sz, fl AND NOT SS_ONSTACK) \<rparr>))
              (bnd (sig_call (to_sigaltstack os (Some (sp, sz, fl AND NOT SS_ONSTACK)))) (\<lambda>_. ret ())))))))"

section \<open>Copying slots\<close>

definition slots :: "nat set" where "slots = {20..<768}"

lemma set_slot_list: "set slot_list = slots" and distinct_slot_list: "distinct slot_list"
  unfolding slot_list_def slots_def by (rule set_upt, rule distinct_upt)

definition apart :: "u64 \<Rightarrow> u64 \<Rightarrow> bool" where
  "apart dst src \<longleftrightarrow> (\<forall>i \<in> slots. \<forall>j \<in> slots. slot_addr dst i \<noteq> slot_addr src j) \<and>
     (\<forall>j \<in> slots. dst + TLS_CLEANUP_HANDLER_OFFSET \<noteq> slot_addr src j)"

lemma slot_addr_inj:
  assumes "i < 768" and "j < 768"
  shows "slot_addr tls i = slot_addr tls j \<longleftrightarrow> i = j"
proof -
  have "unat (word_of_nat (8 * n) :: u64) = 8 * n" if "n < 768" for n
    by (rule of_nat_inverse [OF refl]) (use that in simp)
  then show ?thesis
    using assms unfolding slot_addr_def by (metis add_left_cancel mult_left_cancel zero_neq_numeral)
qed

lemma copy_slot_apply:
  "copy_slot dst src k m (slot_addr dst k) = m (slot_addr src k)"
  "a \<noteq> slot_addr dst k \<Longrightarrow> copy_slot dst src k m a = m a"
  by (simp_all add: copy_slot_def)

lemma copy_fold:
  fixes m :: mem64
  assumes "\<And>i j. i \<in> set xs \<Longrightarrow> j \<in> set xs \<Longrightarrow> slot_addr dst i \<noteq> slot_addr src j"
    and "\<And>i. i \<in> set xs \<Longrightarrow> i < 768" and "distinct xs"
  shows "(\<forall>i \<in> set xs. fold (copy_slot dst src) xs m (slot_addr dst i) = m (slot_addr src i)) \<and>
    (\<forall>a. a \<notin> slot_addr dst ` set xs \<longrightarrow> fold (copy_slot dst src) xs m a = m a)"
  using assms
proof (induction xs arbitrary: m)
  case (Cons x xs)
  have IH: "(\<forall>i \<in> set xs. fold (copy_slot dst src) xs m (slot_addr dst i) = m (slot_addr src i)) \<and>
    (\<forall>a. a \<notin> slot_addr dst ` set xs \<longrightarrow> fold (copy_slot dst src) xs m a = m a)" for m :: mem64
    by (rule Cons.IH) (use Cons.prems in auto)
  have x: "slot_addr dst x \<notin> slot_addr dst ` set xs"
    using Cons.prems(2,3) slot_addr_inj by fastforce
  have "slot_addr src i \<noteq> slot_addr dst x" if "i \<in> set xs" for i
    using Cons.prems(1) [of x i] that by auto
  then show ?case
    using IH [of "copy_slot dst src x m"] x Cons.prems(1) by (auto simp: copy_slot_apply)
qed simp

lemma copy_slots_apart:
  assumes "apart dst src"
  shows "i \<in> slots \<Longrightarrow> copy_slots dst src m (slot_addr dst i) = m (slot_addr src i)"
    and "(\<And>i. i \<in> slots \<Longrightarrow> a \<noteq> slot_addr dst i) \<Longrightarrow> copy_slots dst src m a = m a"
proof -
  have "(\<forall>i \<in> set slot_list. copy_slots dst src m (slot_addr dst i) = m (slot_addr src i)) \<and>
    (\<forall>a. a \<notin> slot_addr dst ` set slot_list \<longrightarrow> copy_slots dst src m a = m a)"
    unfolding copy_slots_def
    by (rule copy_fold) (use assms distinct_slot_list in \<open>auto simp: apart_def set_slot_list slots_def\<close>)
  then show "i \<in> slots \<Longrightarrow> copy_slots dst src m (slot_addr dst i) = m (slot_addr src i)"
    and "(\<And>i. i \<in> slots \<Longrightarrow> a \<noteq> slot_addr dst i) \<Longrightarrow> copy_slots dst src m a = m a"
    by (auto simp: set_slot_list)
qed

lemma copy_slots_same: "copy_slots tls tls m = m"
proof -
  have "fold (copy_slot tls tls) xs m = m" for xs
    by (induction xs) (simp_all add: copy_slot_def)
  then show ?thesis by (simp add: copy_slots_def)
qed

section \<open>Keeping a thread\<close>

text \<open>
  What is relied on of the system: it has a mask and an alternate stack for the thread. It takes any mask,
  but never blocks \<^verbatim>\<open>SIGKILL\<close> and \<^verbatim>\<open>SIGSTOP\<close>; it takes a stack that is large enough and has no
  flags that it does not know, and the stack that a thread uses is one it has taken.
\<close>

definition SIG_MINSTKSZ :: u64 where "SIG_MINSTKSZ = 32768"

definition stack_in_use :: "u64 \<times> u64 \<times> u32 \<Rightarrow> bool" where
  "stack_in_use st \<longleftrightarrow> (case st of (sp, sz, fl) \<Rightarrow> sp \<noteq> 0 \<and> fl AND SS_DISABLE = 0)"

definition legal_stack :: "u64 \<times> u64 \<times> u32 \<Rightarrow> bool" where
  "legal_stack st \<longleftrightarrow> (case st of (sp, sz, fl) \<Rightarrow> SIG_MINSTKSZ \<le> sz \<and> fl = 0)"

definition keeps_thread ::
  "('k, 'm) thread_os_scheme \<Rightarrow> ('k \<Rightarrow> u32) \<Rightarrow> ('k \<Rightarrow> u64 \<times> u64 \<times> u32) \<Rightarrow> bool" where
  "keeps_thread os blocked altstack \<longleftrightarrow>
     (\<forall>k. so_sigmask os SIG_SETMASK None k = ((0, blocked k), k) \<and> blocked k AND UNBLOCKABLE = 0) \<and>
     (\<forall>k. to_sigaltstack os None k = ((0, altstack k), k) \<and>
        (stack_in_use (altstack k) \<longrightarrow> (case altstack k of (sp, sz, fl) \<Rightarrow> legal_stack (sp, sz, fl AND NOT SS_ONSTACK)))) \<and>
     (\<forall>k m. blocked (snd (so_sigmask os SIG_SETMASK (Some m) k)) = m AND NOT UNBLOCKABLE \<and>
        altstack (snd (so_sigmask os SIG_SETMASK (Some m) k)) = altstack k) \<and>
     (\<forall>k st. (legal_stack st \<longrightarrow> altstack (snd (to_sigaltstack os (Some st) k)) = st) \<and>
        blocked (snd (to_sigaltstack os (Some st) k)) = blocked k)"

lemma save_tls_run:
  assumes "thread_save_tls s = Some (Inr (), s1)" and "ts_me s1 = Some th1"
    and "apart (ti_tls th1) (ts_reg s) \<or> ti_tls th1 = ts_reg s"
  shows "\<exists>m. s1 = s\<lparr> ts_me := Some th1, ts_mem := m \<rparr> \<and>
    (\<forall>i \<in> slots. m (slot_addr (ti_tls th1) i) = ts_mem s (slot_addr (ts_reg s) i))"
proof -
  obtain th where th: "ts_me s = Some th"
    using assms(1) by (cases "ts_me s") (auto simp: thread_save_tls_def prog_defs)
  show ?thesis
  proof (cases "ti_state th \<noteq> ST_CKPT_THREAD \<or> ti_tls th = 0")
    case True
    then have "s1 = s\<lparr> ts_me := Some (th\<lparr> ti_tls := ts_reg s \<rparr>) \<rparr>"
      using assms(1) th by (auto simp: thread_save_tls_def me_get_def me_mod_def prog_defs split: if_splits)
    then show ?thesis
      using assms(2) by (intro exI [of _ "ts_mem s"]) auto
  next
    case False
    then have s1: "s1 = s\<lparr> ts_mem := copy_slots (ti_tls th) (ts_reg s) (ts_mem s) \<rparr>"
      using assms(1) th by (auto simp: thread_save_tls_def me_get_def me_mod_def prog_defs split: if_splits)
    then have "th1 = th"
      using assms(2) th by simp
    then show ?thesis
      using s1 th assms(3) copy_slots_apart(1) [of "ti_tls th" "ts_reg s"]
      by (intro exI [of _ "copy_slots (ti_tls th) (ts_reg s) (ts_mem s)"]) (cases s, auto simp: copy_slots_same)
  qed
qed

text \<open>The mask that is kept: the checkpoint thread never handles the checkpoint signal.\<close>

definition kept_mask :: "bool \<Rightarrow> int \<Rightarrow> u32 \<Rightarrow> u32" where
  "kept_mask is_ckpt ckpt m = (if is_ckpt then m OR 2 ^ nat (ckpt - 1) else m)"

lemma kept_mask_idem: "kept_mask c ckpt (kept_mask c ckpt m) = kept_mask c ckpt m"
  by (simp add: kept_mask_def or.assoc)

lemma add_ckpt_signal_run:
  assumes "env_get_ckpt_signal (sg_cache s) (sg_env s) = (ckpt, ckpt)" and "0 < ckpt" and "ckpt < NSIG"
    and "ts_me s = Some th"
  shows "add_ckpt_signal s = Some (Inr (), s\<lparr> sg_cache := ckpt,
    ts_me := Some (th\<lparr> ti_sigblocked := kept_mask (ts_is_ckpt s) ckpt (ti_sigblocked th) \<rparr>) \<rparr>)"
proof -
  have bits: "sigbits ckpt = Inr (2 ^ nat (ckpt - 1))"
    using assms(2,3) by (simp add: sigbits_def)
  have present: "m OR 2 ^ nat (ckpt - 1) = m" if "m AND 2 ^ nat (ckpt - 1) \<noteq> 0" for m :: u32
  proof -
    have "bit m (nat (ckpt - 1))"
      using that bit_iff_and_push_bit_not_eq_0 [of m "nat (ckpt - 1)"] by simp
    then show ?thesis
      by (intro bit_word_eqI) (auto simp: bit_or_iff bit_exp_iff)
  qed
  show ?thesis
    using assms(1,4) present [of "ti_sigblocked th"]
    by (cases s, cases th) (auto simp: add_ckpt_signal_def ckpt_signal_p_def bits me_mod_def prog_defs kept_mask_def)
qed

lemma save_sig_run:
  assumes "keeps_thread os blocked altstack"
    and "env_get_ckpt_signal (sg_cache s) (sg_env s) = (ckpt, ckpt)" and "0 < ckpt" and "ckpt < NSIG" and "ts_me s = Some th"
  shows "thread_save_sig_state os s = Some (Inr (), s\<lparr> sg_cache := ckpt, ts_me := Some (th\<lparr>
    ti_sigblocked := kept_mask (ts_is_ckpt s) ckpt (blocked (sg_sys s)), ti_ss := altstack (sg_sys s) \<rparr>) \<rparr>)"
proof -
  have cached: "env_get_ckpt_signal ckpt e = (ckpt, ckpt)" for e
    using assms(3) by (simp add: env_get_ckpt_signal_def)
  define s1 where "s1 = s\<lparr> sg_cache := ckpt, ts_me := Some (th\<lparr> ti_sigblocked := blocked (sg_sys s) \<rparr>) \<rparr>"
  have add: "add_ckpt_signal s1 = Some (Inr (), s1\<lparr> ts_me := Some (th\<lparr>
      ti_sigblocked := kept_mask (ts_is_ckpt s) ckpt (blocked (sg_sys s)) \<rparr>) \<rparr>)"
    using add_ckpt_signal_run [of s1 ckpt "th\<lparr> ti_sigblocked := blocked (sg_sys s) \<rparr>"] assms(3,4) cached
    by (cases s) (simp add: s1_def)
  have before: "thread_save_sig_state os s = sq add_ckpt_signal
      (bnd (sig_call (to_sigaltstack os None)) (\<lambda>(err, sp, sz, fl).
         me_mod (\<lambda>th. if err \<noteq> 0
           then th\<lparr> ti_ss := (case ti_ss th of (sp', sz', _) \<Rightarrow> (sp', sz', SS_DISABLE)) \<rparr>
           else th\<lparr> ti_ss := (sp, sz, fl) \<rparr>))) s1"
    using assms(1,2,5) by (cases s) (simp add: thread_save_sig_state_def ckpt_signal_p_def me_get_def me_mod_def sig_call_def sys_def
        prog_defs keeps_thread_def s1_def)
  have "sg_sys s1 = sg_sys s"
    by (simp add: s1_def)
  then have "thread_save_sig_state os s = Some (Inr (), s1\<lparr> ts_me := Some (th\<lparr>
      ti_sigblocked := kept_mask (ts_is_ckpt s) ckpt (blocked (sg_sys s)), ti_ss := altstack (sg_sys s) \<rparr>) \<rparr>)"
    unfolding before using assms(1)
    by (cases "altstack (sg_sys s)")
      (simp add: sq_def bnd_def add sig_call_def zoom_def sys_def keeps_thread_def me_mod_def modify_def)
  then show ?thesis
    by (simp add: s1_def)
qed

lemma restore_tls_run:
  assumes "apart (ts_reg u) (ti_tls th)"
  shows "\<exists>m. thread_restore_tls (Some th) u = Some (Inr (), u\<lparr> ts_mem := m \<rparr>) \<and>
    (\<forall>i \<in> slots. m (slot_addr (ts_reg u) i) = ts_mem u (slot_addr (ti_tls th) i))"
proof -
  define m where "m = copy_slots (ts_reg u) (ti_tls th) (set_thread_cleanup_stack (ts_reg u) 0 (ts_mem u))"
  have "thread_restore_tls (Some th) u = Some (Inr (), u\<lparr> ts_mem := m \<rparr>)"
    by (simp add: thread_restore_tls_def prog_defs m_def)
  moreover have "\<forall>i \<in> slots. m (slot_addr (ts_reg u) i) = ts_mem u (slot_addr (ti_tls th) i)"
    using copy_slots_apart(1) [OF assms] assms by (auto simp: m_def set_thread_cleanup_stack_def apart_def)
  ultimately show ?thesis by blast
qed

lemma restore_sig_run:
  assumes "keeps_thread os blocked altstack"
    and "env_get_ckpt_signal (sg_cache u) (sg_env u) = (ckpt, ckpt)" and "0 < ckpt" and "ckpt < NSIG" and "ts_me u = Some th"
    and "kept_mask (ts_is_ckpt u) ckpt (ti_sigblocked th) = ti_sigblocked th"
    and "stack_in_use (ti_ss th) \<Longrightarrow> (case ti_ss th of (sp, sz, fl) \<Rightarrow> legal_stack (sp, sz, fl AND NOT SS_ONSTACK))"
  shows "\<exists>u'. thread_restore_sig_state os u = Some (Inr (), u') \<and> ts_mem u' = ts_mem u \<and> ts_reg u' = ts_reg u \<and>
    blocked (sg_sys u') = ti_sigblocked th AND NOT UNBLOCKABLE \<and>
    altstack (sg_sys u') = (if stack_in_use (ti_ss th) then (case ti_ss th of (sp, sz, fl) \<Rightarrow> (sp, sz, fl AND NOT SS_ONSTACK))
      else altstack (sg_sys u))"
proof -
  define u1 where "u1 = u\<lparr> sg_cache := ckpt \<rparr>"
  have u1: "ts_me u1 = Some th" "ts_mem u1 = ts_mem u" "ts_reg u1 = ts_reg u" "sg_sys u1 = sg_sys u"
    using assms(5) by (simp_all add: u1_def)
  have "env_get_ckpt_signal ckpt (sg_env u) = (ckpt, ckpt)"
    using assms(3) by (simp add: env_get_ckpt_signal_def)
  then have add: "add_ckpt_signal u1 = Some (Inr (), u1)"
    using add_ckpt_signal_run [of u1 ckpt th] assms(3-6) by (cases u, cases th) (simp add: u1_def)
  obtain sp sz fl where st: "ti_ss th = (sp, sz, fl)" by (cases "ti_ss th")
  have "thread_restore_sig_state os u =
      bnd (sig_call (so_sigmask os SIG_SETMASK (Some (ti_sigblocked th)))) (\<lambda>_.
         case ti_ss th of (sp, sz, fl) \<Rightarrow>
           if sp = 0 \<or> fl AND SS_DISABLE \<noteq> 0 then ret ()
           else sq (me_mod (\<lambda>th. th\<lparr> ti_ss := (sp, sz, fl AND NOT SS_ONSTACK) \<rparr>))
             (bnd (sig_call (to_sigaltstack os (Some (sp, sz, fl AND NOT SS_ONSTACK)))) (\<lambda>_. ret ()))) u1"
    using assms(2,5) u1(1) add
    by (simp add: thread_restore_sig_state_def ckpt_signal_p_def bnd_def sq_def me_get_def gets_def ret_def u1_def [symmetric])
  then show ?thesis
    using assms(1,7) st u1
    by (auto simp: bnd_def sig_call_def zoom_def sys_def sq_def ret_def me_mod_def modify_def keeps_thread_def stack_in_use_def split_beta)
qed

text \<open>
  C9: what belongs to a thread besides its stack survives. The handler of a user thread and the checkpoint
  thread save it before a checkpoint; after any number of restarts the thread runs on storage at another
  address. The slots of its thread-local storage have the values they had when they were saved, also for
  the checkpoint thread, which copies them to where it saved them first; its mask is the one it had, with
  the checkpoint signal blocked in the checkpoint thread (but for the two signals that cannot be blocked);
  and its alternate stack is in use again.
\<close>

theorem thread_state_survives_restart:
  assumes "keeps_thread os blocked altstack"
    and "env_get_ckpt_signal (sg_cache s) (sg_env s) = (ckpt, ckpt)" and "0 < ckpt" and "ckpt < NSIG"
    and "sq thread_save_tls (thread_save_sig_state os) s = Some (Inr (), s')" and "ts_me s' = Some th"
    and "apart (ti_tls th) (ts_reg s) \<or> ti_tls th = ts_reg s"
    and "\<forall>i \<in> slots. mem (slot_addr (ti_tls th) i) = ts_mem s' (slot_addr (ti_tls th) i)" and "apart reg (ti_tls th)"
  shows "\<exists>u. sq (thread_restore_tls (Some th)) (thread_restore_sig_state os) (s'\<lparr> ts_mem := mem, ts_reg := reg, sg_sys := new \<rparr>)
      = Some (Inr (), u) \<and>
    (\<forall>i \<in> slots. ts_mem u (slot_addr reg i) = ts_mem s (slot_addr (ts_reg s) i)) \<and>
    blocked (sg_sys u) = kept_mask (ts_is_ckpt s) ckpt (blocked (sg_sys s)) AND NOT UNBLOCKABLE \<and>
    (stack_in_use (altstack (sg_sys s)) \<longrightarrow>
       altstack (sg_sys u) = (case altstack (sg_sys s) of (sp, sz, fl) \<Rightarrow> (sp, sz, fl AND NOT SS_ONSTACK)))"
proof -
  obtain s1 where s1: "thread_save_tls s = Some (Inr (), s1)" "thread_save_sig_state os s1 = Some (Inr (), s')"
    using assms(5) by (auto simp: sq_def bnd_def split: option.splits sum.splits)
  obtain th1 where th1: "ts_me s1 = Some th1"
    using s1(1) by (cases "ts_me s") (auto simp: thread_save_tls_def me_get_def me_mod_def prog_defs split: if_splits)
  have frame: "sg_cache s1 = sg_cache s" "sg_env s1 = sg_env s" "sg_sys s1 = sg_sys s" "ts_is_ckpt s1 = ts_is_ckpt s"
    using s1(1) by (cases "ts_me s"; auto simp: thread_save_tls_def me_get_def me_mod_def prog_defs split: if_splits)+
  have s': "s' = s1\<lparr> sg_cache := ckpt, ts_me := Some (th1\<lparr>
    ti_sigblocked := kept_mask (ts_is_ckpt s) ckpt (blocked (sg_sys s)), ti_ss := altstack (sg_sys s) \<rparr>) \<rparr>"
    using save_sig_run [OF assms(1) _ assms(3,4) th1] assms(2) s1(2) frame by simp
  then have th: "ti_tls th = ti_tls th1" "ti_ss th = altstack (sg_sys s)"
      "ti_sigblocked th = kept_mask (ts_is_ckpt s) ckpt (blocked (sg_sys s))"
    using assms(6) by auto
  obtain m where m: "s1 = s\<lparr> ts_me := Some th1, ts_mem := m \<rparr>"
    "\<forall>i \<in> slots. m (slot_addr (ti_tls th1) i) = ts_mem s (slot_addr (ts_reg s) i)"
    using save_tls_run [OF s1(1) th1] assms(7) th(1) by auto
  define u0 where "u0 = s'\<lparr> ts_mem := mem, ts_reg := reg, sg_sys := new \<rparr>"
  obtain m2 where m2: "thread_restore_tls (Some th) u0 = Some (Inr (), u0\<lparr> ts_mem := m2 \<rparr>)"
    "\<forall>i \<in> slots. m2 (slot_addr reg i) = mem (slot_addr (ti_tls th) i)"
    using restore_tls_run [of u0 th] assms(9) by (auto simp: u0_def)
  have u0: "ts_me u0 = Some th" "ts_is_ckpt u0 = ts_is_ckpt s" "sg_cache u0 = ckpt" "ts_reg u0 = reg"
    using assms(6) frame(4) by (simp_all add: u0_def s')
  have cached: "env_get_ckpt_signal ckpt e = (ckpt, ckpt)" for e
    using assms(3) by (simp add: env_get_ckpt_signal_def)
  have legal: "stack_in_use (altstack (sg_sys s)) \<Longrightarrow>
      (case altstack (sg_sys s) of (sp, sz, fl) \<Rightarrow> legal_stack (sp, sz, fl AND NOT SS_ONSTACK))"
    using assms(1) by (simp add: keeps_thread_def)
  obtain u where u: "thread_restore_sig_state os (u0\<lparr> ts_mem := m2 \<rparr>) = Some (Inr (), u)" "ts_mem u = m2"
    "blocked (sg_sys u) = ti_sigblocked th AND NOT UNBLOCKABLE"
    "altstack (sg_sys u) = (if stack_in_use (ti_ss th) then (case ti_ss th of (sp, sz, fl) \<Rightarrow> (sp, sz, fl AND NOT SS_ONSTACK))
      else altstack (sg_sys (u0\<lparr> ts_mem := m2 \<rparr>)))"
    using restore_sig_run [OF assms(1) _ assms(3,4), of "u0\<lparr> ts_mem := m2 \<rparr>" th] u0 cached th(2,3) kept_mask_idem legal by auto
  have "sq (thread_restore_tls (Some th)) (thread_restore_sig_state os) u0 = Some (Inr (), u)"
    using m2(1) u(1) by (simp add: sq_def bnd_def)
  moreover have "ts_mem s' = m"
    using m(1) by (simp add: s')
  ultimately show ?thesis
    using u(2-4) m(2) m2(2) assms(8) th by (intro exI [of _ u]) (simp add: u0_def)
qed

text \<open>Two areas of memory that do not overlap.\<close>

lemma unat_slot_addr:
  assumes "unat tls + 8 * 768 < 2 ^ 64" and "i \<in> slots"
  shows "unat (slot_addr tls i) = unat tls + 8 * i"
proof -
  have "unat (word_of_nat (8 * i) :: u64) = 8 * i"
    by (rule of_nat_inverse [OF refl]) (use assms(2) in \<open>simp add: slots_def\<close>)
  then show ?thesis
    using assms by (simp add: slot_addr_def slots_def unat_word_ariths)
qed

lemma apart_far:
  assumes "unat dst + 8 * 768 < 2 ^ 64" and "unat src + 8 * 768 < 2 ^ 64" and "0xD8 \<le> unat dst"
    and "unat dst + 8 * 768 \<le> unat src \<or> unat src + 8 * 768 + 0xD8 \<le> unat dst"
  shows "apart dst src"
proof -
  have "TLS_CLEANUP_HANDLER_OFFSET = - 0xD8"
    by (simp add: TLS_CLEANUP_HANDLER_OFFSET_def PTHREAD_TLS_OFFSET_def)
  then have "dst + TLS_CLEANUP_HANDLER_OFFSET = dst - 0xD8"
    by (simp only: diff_conv_add_uminus)
  moreover have "unat (dst - 0xD8) = unat dst - 0xD8"
    using assms(3) by (subst unat_sub) (simp_all add: word_le_nat_alt)
  ultimately have clean: "unat (dst + TLS_CLEANUP_HANDLER_OFFSET) = unat dst - 0xD8" by (simp only:)
  have "slot_addr dst i \<noteq> slot_addr src j" if "i \<in> slots" "j \<in> slots" for i j
    using unat_slot_addr [OF assms(1) that(1)] unat_slot_addr [OF assms(2) that(2)] that assms(4) by (auto simp: slots_def)
  moreover have "dst + TLS_CLEANUP_HANDLER_OFFSET \<noteq> slot_addr src j" if "j \<in> slots" for j
    using unat_slot_addr [OF assms(2) that] that assms(3,4) clean by (auto simp: slots_def)
  ultimately show ?thesis
    by (auto simp: apart_def)
qed

text \<open>The checkpoint thread after its first restart, at its second checkpoint.\<close>

definition clean_stack :: "u64 \<times> u64 \<times> u32 \<Rightarrow> u64 \<times> u64 \<times> u32" where
  "clean_stack st = (if legal_stack st then st else (0, 0, SS_DISABLE))"

definition mask_and_stack :: "(u32 \<times> u64 \<times> u64 \<times> u32) thread_os" where
  "mask_and_stack = \<lparr> so_sigaction = (\<lambda>_ _ k. ((0, no_sigact), k)), so_libc_sigaction = (\<lambda>_ _ k. ((0, no_sigact), k)),
     so_libc_signal = (\<lambda>_ _ k. (0, k)),
     so_sigmask = (\<lambda>how m (b, st). ((0, b AND NOT UNBLOCKABLE), case m of None \<Rightarrow> (b, st) | Some m \<Rightarrow> (m, st))),
     so_set_errno = (\<lambda>_ k. k), so_sighandler = 0x4000, so_sigtramp = 0x4100,
     to_sigaltstack = (\<lambda>new (b, st). ((0, clean_stack st), case new of None \<Rightarrow> (b, st) | Some st' \<Rightarrow> (b, st'))) \<rparr>"

definition mask_of :: "u32 \<times> u64 \<times> u64 \<times> u32 \<Rightarrow> u32" where "mask_of k = fst k AND NOT UNBLOCKABLE"
definition stack_of :: "u32 \<times> u64 \<times> u64 \<times> u32 \<Rightarrow> u64 \<times> u64 \<times> u32" where "stack_of k = clean_stack (snd k)"

definition second_checkpoint :: "(u32 \<times> u64 \<times> u64 \<times> u32) tsave" where
  "second_checkpoint = \<lparr> last_ckpt_sig = 31, sa_table = (\<lambda>_. no_sigact), sg_cache = 31, sg_env = (\<lambda>_. None),
     sg_sys = (0x40, 0x8000, 0x8000, 0),
     ts_me = Some \<lparr> ti_self = 1, ti_start_routine = 0, ti_arg = 0, ti_state = ST_CKPT_THREAD, ti_depth = 0,
       ti_exiting = False, ti_joined = False, ti_uctx = [], ti_ss = (0, 0, 0), ti_sigblocked = 0, ti_tls = 0x10000 \<rparr>,
     ts_is_ckpt = True, ts_mem = (\<lambda>_. 0)(slot_addr 0x20000 100 := 7), ts_reg = 0x20000 \<rparr>"

theorem thread_state_survives_restart_witness:
  "\<exists>s' th u. sq thread_save_tls (thread_save_sig_state mask_and_stack) second_checkpoint = Some (Inr (), s') \<and>
     sq (thread_restore_tls (Some th)) (thread_restore_sig_state mask_and_stack)
       (s'\<lparr> ts_mem := ts_mem s', ts_reg := 0x30000, sg_sys := (0, 0, 0, 0) \<rparr>) = Some (Inr (), u) \<and>
     ts_mem u (slot_addr 0x30000 100) = 7 \<and> mask_of (sg_sys u) = 0x40000040 \<and> stack_of (sg_sys u) = (0x8000, 0x8000, 0)"
proof -
  have os: "keeps_thread mask_and_stack mask_of stack_of"
    by (auto simp: keeps_thread_def mask_and_stack_def mask_of_def stack_of_def clean_stack_def unblockable_free split_beta
        stack_in_use_def legal_stack_def SS_DISABLE_def)
  have ask: "env_get_ckpt_signal (sg_cache second_checkpoint) (sg_env second_checkpoint) = (31, 31)"
    by (simp add: second_checkpoint_def env_get_ckpt_signal_def)
  define th0 where "th0 = the (ts_me second_checkpoint)"
  define s1 where "s1 = second_checkpoint\<lparr> ts_mem := copy_slots 0x10000 0x20000 (ts_mem second_checkpoint) \<rparr>"
  have tls: "thread_save_tls second_checkpoint = Some (Inr (), s1)" and me: "ts_me s1 = Some th0"
    by (simp_all add: thread_save_tls_def me_get_def me_mod_def prog_defs second_checkpoint_def s1_def th0_def)
  have ask1: "env_get_ckpt_signal (sg_cache s1) (sg_env s1) = (31, 31)"
    using ask by (simp add: s1_def)
  obtain s' th where s': "sq thread_save_tls (thread_save_sig_state mask_and_stack) second_checkpoint = Some (Inr (), s')"
    "ts_me s' = Some th" "ti_tls th = 0x10000"
    using tls save_sig_run [OF os ask1 _ _ me] by (auto simp: sq_def bnd_def NSIG_def th0_def second_checkpoint_def)
  have far: "apart (ti_tls th) (ts_reg second_checkpoint)" "apart 0x30000 (ti_tls th)"
    using s'(3) by (simp_all add: apart_far second_checkpoint_def)
  have start: "ts_mem second_checkpoint (slot_addr (ts_reg second_checkpoint) 100) = 7" "(100 :: nat) \<in> slots"
    "kept_mask (ts_is_ckpt second_checkpoint) 31 (mask_of (sg_sys second_checkpoint)) = 0x40000040"
    "stack_in_use (stack_of (sg_sys second_checkpoint))" "stack_of (sg_sys second_checkpoint) = (0x8000, 0x8000, 0)"
    "0x40000040 AND NOT UNBLOCKABLE = 0x40000040"
    by (simp_all add: second_checkpoint_def slots_def kept_mask_def stack_in_use_def mask_of_def stack_of_def clean_stack_def
        legal_stack_def SIG_MINSTKSZ_def UNBLOCKABLE_def)
  obtain u where "sq (thread_restore_tls (Some th)) (thread_restore_sig_state mask_and_stack)
      (s'\<lparr> ts_mem := ts_mem s', ts_reg := 0x30000, sg_sys := (0, 0, 0, 0) \<rparr>) = Some (Inr (), u)"
    "\<forall>i \<in> slots. ts_mem u (slot_addr 0x30000 i) = ts_mem second_checkpoint (slot_addr (ts_reg second_checkpoint) i)"
    "mask_of (sg_sys u) = 0x40000040" "stack_of (sg_sys u) = (0x8000, 0x8000, 0)"
    using thread_state_survives_restart [OF os ask _ _ s'(1,2) disjI1 [OF far(1)] _ far(2), of "ts_mem s'" "(0, 0, 0, 0)"] start(3-6)
    by (auto simp: NSIG_def second_checkpoint_def)
  then show ?thesis
    using s'(1) start(1,2) by (intro exI [of _ s'] exI [of _ th] exI [of _ u]) simp
qed

end
