(* ===== verification/Thread_Setup.thy ===== *)
theory Thread_Setup
  imports Thread_Info Io
begin

text \<open>
  The rest of \<^verbatim>\<open>thread_info.c\<close>: setting up the lists of threads and the checkpoint
  thread, giving them up at the end of a process, and what happens to them and their locks at a fork.
\<close>

section \<open>State\<close>

text \<open>
  \<^verbatim>\<open>myself\<close> points to nothing, to the descriptor of the checkpoint thread, which is
  static, or to one on the heap. A lock held by another thread is waited for and then free; a lock is
  the caller's, free, not initialised or destroyed. \<open>th_workers\<close> are the threads of this process that
  were created to run \<^verbatim>\<open>ckpt_thread_work\<close>, as the system numbers them.
\<close>

datatype thread_ref = Ckpt_Ref | Desc_Ref nat

datatype mtx = Ckpt_Mtx | List_Lock | Zombie_Lock | Ckpt_Lock | Desc_Lock nat

datatype lock_state = L_Unusable | L_Free | L_Mine

record 'w threads =
  th_heap :: "nat \<Rightarrow> thread_info option"
  th_list :: "nat list"
  th_zombies :: "nat list"
  th_me :: "thread_ref option"
  th_main :: "nat option"
  th_ckpt :: thread_info
  th_workers :: "nat list"
  th_lock :: "mtx \<Rightarrow> lock_state"
  th_state :: xnd_state
  th_tlv :: u64
  th_sys :: 'w

text \<open>
  The calls: initialising a mutex and a condition variable, a zeroed block (zero if there is none), the
  calling thread, and a new thread with the status of the call.
\<close>

record 'w setup_os =
  ho_mutex_init :: "'w \<Rightarrow> int \<times> 'w"
  ho_cond_init :: "'w \<Rightarrow> int \<times> 'w"
  ho_calloc :: "'w \<Rightarrow> nat \<times> 'w"
  ho_self :: "'w \<Rightarrow> nat"
  ho_create :: "'w \<Rightarrow> (int \<times> nat) \<times> 'w"

definition th_call :: "('w \<Rightarrow> 'a \<times> 'w) \<Rightarrow> ('w threads, 'a) prog" where
  "th_call f = zoom th_sys (\<lambda>w s. s\<lparr> th_sys := w \<rparr>) (sys f)"

definition LK_EPERM :: int where "LK_EPERM = 1"
definition LK_EINVAL :: int where "LK_EINVAL = 22"

definition mutex_lock :: "mtx \<Rightarrow> ('w threads, int) prog" where
  "mutex_lock l s =
     (case th_lock s l of
        L_Free \<Rightarrow> Some (Inr 0, s\<lparr> th_lock := (th_lock s)(l := L_Mine) \<rparr>)
      | L_Mine \<Rightarrow> Some (Inl Blocked, s)
      | L_Unusable \<Rightarrow> Some (Inr LK_EINVAL, s))"

definition mutex_unlock :: "mtx \<Rightarrow> ('w threads, int) prog" where
  "mutex_unlock l s =
     (case th_lock s l of
        L_Mine \<Rightarrow> Some (Inr 0, s\<lparr> th_lock := (th_lock s)(l := L_Free) \<rparr>)
      | L_Free \<Rightarrow> Some (Inr LK_EPERM, s)
      | L_Unusable \<Rightarrow> Some (Inr LK_EINVAL, s))"

definition mutex_destroy :: "mtx \<Rightarrow> ('w threads, unit) prog" where
  "mutex_destroy l = modify (\<lambda>s. s\<lparr> th_lock := (th_lock s)(l := L_Unusable) \<rparr>)"

definition mutex_init :: "('w, 'n) setup_os_scheme \<Rightarrow> mtx \<Rightarrow> ('w threads, int) prog" where
  "mutex_init os l =
     bnd (th_call (ho_mutex_init os)) (\<lambda>err.
       sq (if err = 0 then modify (\<lambda>s. s\<lparr> th_lock := (th_lock s)(l := L_Free) \<rparr>) else ret ()) (ret err))"

definition cond_init :: "('w, 'n) setup_os_scheme \<Rightarrow> ('w threads, int) prog" where
  "cond_init os = th_call (ho_cond_init os)"

text \<open>An error of a call that ends the process.\<close>

definition must :: "('w threads, int) prog \<Rightarrow> ('w threads, unit) prog" where
  "must m = bnd m (\<lambda>err. if err \<noteq> 0 then halt Aborted else ret ())"

definition ignore :: "('w threads, int) prog \<Rightarrow> ('w threads, unit) prog" where
  "ignore m = bnd m (\<lambda>_. ret ())"

definition thread_list_acquire :: "('w threads, unit) prog" where "thread_list_acquire = must (mutex_lock List_Lock)"
definition thread_list_release :: "('w threads, unit) prog" where "thread_list_release = must (mutex_unlock List_Lock)"
definition zombie_list_acquire :: "('w threads, unit) prog" where "zombie_list_acquire = must (mutex_lock Zombie_Lock)"
definition zombie_list_release :: "('w threads, unit) prog" where "zombie_list_release = must (mutex_unlock Zombie_Lock)"

section \<open>Setting up\<close>

definition zombie_list_init :: "('w, 'n) setup_os_scheme \<Rightarrow> ('w threads, unit) prog" where
  "zombie_list_init os =
     sq (modify (\<lambda>s. s\<lparr> th_zombies := [] \<rparr>)) (must (mutex_init os Zombie_Lock))"

text \<open>
  The wait for the checkpoint thread gives it the lock; it clears the flag that is waited for and gives
  the lock back, or waits itself if the process is being forked. If there is no thread nobody clears
  the flag: the status of \<^verbatim>\<open>pthread_create\<close> is not looked at.
\<close>

definition ckpt_thread_init :: "('w, 'n) setup_os_scheme \<Rightarrow> ('w threads, unit) prog" where
  "ckpt_thread_init os =
     sq (modify (\<lambda>s. s\<lparr> th_ckpt := (th_ckpt s)\<lparr> ti_state := ST_CKPT_THREAD \<rparr> \<rparr>))
    (sq (must (mutex_init os Ckpt_Lock))
    (sq (must (cond_init os))
    (sq (ignore (mutex_lock Ckpt_Lock))
    (bnd (th_call (ho_create os)) (\<lambda>(err, tid).
       if err \<noteq> 0 then halt Blocked
       else
         sq (modify (\<lambda>s. s\<lparr> th_ckpt := (th_ckpt s)\<lparr> ti_self := tid \<rparr>, th_workers := tid # th_workers s \<rparr>))
            (ignore (mutex_unlock Ckpt_Lock)))))))"

definition zero_thread :: thread_info where
  "zero_thread = \<lparr> ti_self = 0, ti_start_routine = 0, ti_arg = 0, ti_state = ST_EMBRYO, ti_depth = 0,
     ti_exiting = False, ti_joined = False, ti_uctx = [], ti_ss = (0, 0, 0), ti_sigblocked = 0, ti_tls = 0 \<rparr>"

definition thread_list_init :: "('w, 'n) setup_os_scheme \<Rightarrow> ('w threads, unit) prog" where
  "thread_list_init os =
     sq (must (mutex_init os List_Lock))
    (sq (modify (\<lambda>s. s\<lparr> th_tlv := TSD_XND_INIT \<rparr>))
    (bnd (th_call (ho_calloc os)) (\<lambda>a.
     sq (assert_p (a \<noteq> 0))
    (sq (modify (\<lambda>s.
       let th = zero_thread\<lparr> ti_self := ho_self os (th_sys s) \<rparr>;
           th' = (if th_state s = XND_ATFORK then th\<lparr> ti_state := ST_UNSAFE, ti_depth := 1 \<rparr> else th\<lparr> ti_state := ST_RUNNING \<rparr>)
       in s\<lparr> th_heap := (th_heap s)(a \<mapsto> th'), th_list := [a], th_me := Some (Desc_Ref a), th_main := Some a \<rparr>))
    (sq (must (mutex_init os (Desc_Lock a)))
    (sq (must (cond_init os))
    (sq (zombie_list_init os)
        (ckpt_thread_init os))))))))"

section \<open>The end of a process\<close>

definition thread_free :: "nat \<Rightarrow> ('w threads, unit) prog" where
  "thread_free a s =
     (if th_heap s a = None then Some (Inl Undefined, s) else Some (Inr (), s\<lparr> th_heap := (th_heap s)(a := None) \<rparr>))"

definition reap_thread :: "nat \<Rightarrow> ('w threads, unit) prog" where
  "reap_thread a = sq (mutex_destroy (Desc_Lock a)) (thread_free a)"

definition ckpt_thread_reap :: "('w threads, unit) prog" where
  "ckpt_thread_reap =
     bnd (gets th_me) (\<lambda>me. sq (assert_p (me \<noteq> Some Ckpt_Ref)) (mutex_destroy Ckpt_Lock))"

definition zombie_list_destroy :: "('w threads, unit) prog" where
  "zombie_list_destroy =
     sq zombie_list_acquire
    (bnd (gets th_zombies) (\<lambda>zs.
     sq (each reap_thread zs)
    (sq zombie_list_release (mutex_destroy Zombie_Lock))))"

definition thread_list_destroy :: "('w threads, unit) prog" where
  "thread_list_destroy =
     bnd (gets th_state) (\<lambda>st.
     sq (assert_p (st = XND_EXITING))
    (bnd (gets th_me) (\<lambda>me.
     sq (if me \<noteq> Some Ckpt_Ref then ckpt_thread_reap else ret ())
    (sq thread_list_acquire
    (bnd (gets th_list) (\<lambda>ths.
     sq (each reap_thread ths)
    (sq thread_list_release
    (sq (mutex_destroy List_Lock)
    (sq zombie_list_destroy
        (modify (\<lambda>s. s\<lparr> th_tlv := TSD_XND_FINI \<rparr>)))))))))))"

section \<open>Fork\<close>

definition thread_list_atfork_prepare :: "('w threads, unit) prog" where
  "thread_list_atfork_prepare =
     sq (ignore (mutex_lock Ckpt_Mtx))
    (sq thread_list_acquire
    (sq zombie_list_acquire
        (ignore (mutex_lock Ckpt_Lock))))"

definition thread_list_atfork_parent :: "('w threads, unit) prog" where
  "thread_list_atfork_parent =
     sq (ignore (mutex_unlock Ckpt_Lock))
    (sq zombie_list_release
    (sq thread_list_release
        (ignore (mutex_unlock Ckpt_Mtx))))"

definition thread_list_atfork_failed :: "('w threads, unit) prog" where
  "thread_list_atfork_failed =
     sq (ignore (mutex_unlock Ckpt_Lock))
    (sq zombie_list_release
    (sq thread_list_release
        (ignore (mutex_unlock Ckpt_Mtx))))"

definition thread_list_atfork_child :: "('w, 'n) setup_os_scheme \<Rightarrow> ('w threads, unit) prog" where
  "thread_list_atfork_child os =
     sq (modify (\<lambda>s. s\<lparr> th_state := XND_ATFORK \<rparr>))
    (bnd (gets th_list) (\<lambda>ths.
     sq (each thread_free ths)
    (bnd (gets th_zombies) (\<lambda>zs.
     sq (each thread_free zs)
    (sq (must (mutex_unlock Ckpt_Mtx))
    (sq thread_list_release
    (sq zombie_list_release
    (sq (must (mutex_unlock Ckpt_Lock))
    (sq (thread_list_init os)
    (sq (must (mutex_init os Ckpt_Mtx))
    (sq (must (cond_init os))
    (sq (must (cond_init os))
    (sq (ignore (mutex_lock Ckpt_Lock))
    (sq (modify (\<lambda>s. s\<lparr> th_state := XND_RUNNING \<rparr>))
        (ignore (mutex_unlock Ckpt_Lock))))))))))))))))"

section \<open>Running the operations\<close>

lemma runs_lock [simp]:
  "runs (mutex_lock l) Q s \<longleftrightarrow> (th_lock s l = L_Free \<and> Q 0 (s\<lparr> th_lock := (th_lock s)(l := L_Mine) \<rparr>)) \<or>
     (th_lock s l = L_Unusable \<and> Q LK_EINVAL s)"
  by (cases "th_lock s l") (simp_all add: runs_def mutex_lock_def)

lemma runs_unlock [simp]:
  "runs (mutex_unlock l) Q s \<longleftrightarrow> (th_lock s l = L_Mine \<and> Q 0 (s\<lparr> th_lock := (th_lock s)(l := L_Free) \<rparr>)) \<or>
     (th_lock s l = L_Free \<and> Q LK_EPERM s) \<or> (th_lock s l = L_Unusable \<and> Q LK_EINVAL s)"
  by (cases "th_lock s l") (simp_all add: runs_def mutex_unlock_def)

lemma runs_th_call [simp]:
  "runs (th_call f) Q s \<longleftrightarrow> Q (fst (f (th_sys s))) (s\<lparr> th_sys := snd (f (th_sys s)) \<rparr>)"
  by (simp add: runs_def th_call_def zoom_def sys_def split_beta)

lemma runs_must [simp]: "runs (must m) Q s \<longleftrightarrow> runs m (\<lambda>err s'. err = 0 \<and> Q () s') s"
proof -
  have "(\<lambda>err. runs (if err \<noteq> 0 then halt Aborted else ret ()) Q) = (\<lambda>err s'. err = (0 :: int) \<and> Q () s')"
    by (intro ext) auto
  then show ?thesis
    by (simp only: must_def runs_bnd)
qed

lemma runs_ignore [simp]: "runs (ignore m) Q s \<longleftrightarrow> runs m (\<lambda>_. Q ()) s"
  by (simp add: ignore_def)

lemma runs_free_all:
  assumes "distinct xs" and "set xs \<subseteq> dom (th_heap s)" and "Q () (s\<lparr> th_heap := th_heap s |` (- set xs) \<rparr>)"
  shows "runs (each thread_free xs) Q s"
  using assms
proof (induction xs arbitrary: s)
  case (Cons x xs)
  then obtain th where x: "th_heap s x = Some th" by auto
  define s' where "s' = s\<lparr> th_heap := (th_heap s)(x := None) \<rparr>"
  have "(th_heap s)(x := None) |` (- set xs) = th_heap s |` (- set (x # xs))"
    by (auto simp: restrict_map_def)
  then have "s'\<lparr> th_heap := th_heap s' |` (- set xs) \<rparr> = s\<lparr> th_heap := th_heap s |` (- set (x # xs)) \<rparr>"
    by (simp add: s'_def)
  moreover have "distinct xs" "set xs \<subseteq> dom (th_heap s')"
    using Cons.prems(1,2) by (auto simp: s'_def)
  ultimately have "runs (each thread_free xs) Q s'"
    using Cons.prems(3) by (intro Cons.IH) simp_all
  moreover have "thread_free x s = Some (Inr (), s')"
    using x by (simp add: thread_free_def s'_def)
  ultimately show ?case
    by (auto simp: runs_def [of "thread_free x"])
next
  case (Nil s)
  then show ?case by (cases s) simp
qed

definition inits_succeed :: "('w, 'n) setup_os_scheme \<Rightarrow> bool" where
  "inits_succeed os \<longleftrightarrow> (\<forall>w. fst (ho_mutex_init os w) = 0 \<and> fst (ho_cond_init os w) = 0 \<and> fst (ho_calloc os w) \<noteq> 0 \<and>
     fst (fst (ho_create os w)) = 0)"

text \<open>
  The process has one thread of the program, which is the calling one and, after a fork, in the section
  that the wrapper of \<^verbatim>\<open>fork\<close> leaves next. A checkpoint thread \<open>tid\<close> was made by the system
  in addition to those there were, and is the one in the descriptor.
\<close>

definition one_thread :: "('w, 'n) setup_os_scheme \<Rightarrow> xnd_state \<Rightarrow> nat list \<Rightarrow> 'w threads \<Rightarrow> bool" where
  "one_thread os st workers s \<longleftrightarrow> (\<exists>a w id tid. a \<noteq> 0 \<and> id = ho_self os w \<and> th_list s = [a] \<and> th_zombies s = [] \<and> th_me s = Some (Desc_Ref a) \<and> th_main s = Some a \<and>
     th_heap s = [a \<mapsto> zero_thread\<lparr> ti_self := id, ti_state := (if st = XND_ATFORK then ST_UNSAFE else ST_RUNNING),
       ti_depth := (if st = XND_ATFORK then 1 else 0) \<rparr>] \<and>
     ti_state (th_ckpt s) = ST_CKPT_THREAD \<and> ti_self (th_ckpt s) = tid \<and> th_workers s = tid # workers \<and>
     (\<exists>w. fst (ho_create os w) = (0, tid)) \<and> th_tlv s = TSD_XND_INIT \<and>
     (\<forall>l \<in> {List_Lock, Zombie_Lock, Ckpt_Lock, Desc_Lock a}. th_lock s l = L_Free))"

lemma mutex_init_ok: "inits_succeed os \<Longrightarrow>
    runs (mutex_init os l) Q s \<longleftrightarrow> Q 0 (s\<lparr> th_sys := snd (ho_mutex_init os (th_sys s)), th_lock := (th_lock s)(l := L_Free) \<rparr>)"
  by (simp add: mutex_init_def inits_succeed_def)

lemma cond_init_ok: "inits_succeed os \<Longrightarrow>
    runs (cond_init os) Q s \<longleftrightarrow> Q 0 (s\<lparr> th_sys := snd (ho_cond_init os (th_sys s)) \<rparr>)"
  by (simp add: cond_init_def inits_succeed_def)

lemma thread_list_init_runs:
  assumes "inits_succeed os" and "th_heap s = Map.empty"
  shows "runs (thread_list_init os) (\<lambda>_ s'. one_thread os (th_state s) (th_workers s) s' \<and> th_state s' = th_state s \<and>
    th_lock s' Ckpt_Mtx = th_lock s Ckpt_Mtx) s"
proof -
  have ok: "fst (fst (ho_create os w)) = 0" "0 < fst (ho_calloc os w)" for w
    using assms(1) by (simp_all add: inits_succeed_def)
  have made: "\<exists>w'. fst (ho_create os w') = (0, snd (fst (ho_create os w)))" for w
    using ok(1) [of w] by (metis prod.collapse)
  show ?thesis
    using assms(2) ok
    by (simp add: thread_list_init_def zombie_list_init_def ckpt_thread_init_def mutex_init_ok [OF assms(1)]
        cond_init_ok [OF assms(1)] one_thread_def Let_def split_beta)
      (intro conjI impI; (rule made | rule exI [of _ "snd (ho_calloc os (snd (ho_mutex_init os (th_sys s))))"], simp add: zero_thread_def))
qed

text \<open>The descriptors on the heap are those of the two lists.\<close>

definition owns_its_threads :: "'w threads \<Rightarrow> bool" where
  "owns_its_threads s \<longleftrightarrow> distinct (th_list s @ th_zombies s) \<and> dom (th_heap s) = set (th_list s) \<union> set (th_zombies s) \<and>
     (\<forall>l \<in> {Ckpt_Mtx, List_Lock, Zombie_Lock, Ckpt_Lock}. th_lock s l = L_Free)"

definition fork_locks :: "'w threads \<Rightarrow> 'w threads" where
  "fork_locks s = s\<lparr> th_lock := (th_lock s)(Ckpt_Mtx := L_Mine, List_Lock := L_Mine, Zombie_Lock := L_Mine, Ckpt_Lock := L_Mine) \<rparr>"

lemma fork_locks_hold:
  "\<forall>l \<in> {Ckpt_Mtx, List_Lock, Zombie_Lock, Ckpt_Lock}. th_lock (fork_locks s) l = L_Mine"
  "(fork_locks s)\<lparr> th_lock := th_lock s \<rparr> = s"
  by (simp_all add: fork_locks_def)

lemma prepare_runs:
  assumes "owns_its_threads s"
  shows "thread_list_atfork_prepare s = Some (Inr (), fork_locks s)"
proof -
  have "runs thread_list_atfork_prepare (\<lambda>_ s'. s' = fork_locks s) s"
    using assms by (simp add: thread_list_atfork_prepare_def thread_list_acquire_def zombie_list_acquire_def fork_locks_def
        owns_its_threads_def)
  then show ?thesis by (simp add: runs_def)
qed

lemma parent_runs:
  assumes "owns_its_threads s"
  shows "thread_list_atfork_parent (fork_locks s) = Some (Inr (), s)"
    and "thread_list_atfork_failed (fork_locks s) = Some (Inr (), s)"
proof -
  have same: "(th_lock s)(Ckpt_Mtx := L_Free, List_Lock := L_Free, Zombie_Lock := L_Free, Ckpt_Lock := L_Free) = th_lock s"
    using assms by (auto simp: owns_its_threads_def fun_eq_iff)
  have "runs thread_list_atfork_parent (\<lambda>_ s'. s' = s) (fork_locks s)"
    using same by (cases s) (simp add: thread_list_atfork_parent_def thread_list_release_def zombie_list_release_def fork_locks_def fun_upd_twist)
  moreover have "runs thread_list_atfork_failed (\<lambda>_ s'. s' = s) (fork_locks s)"
    using same by (cases s) (simp add: thread_list_atfork_failed_def thread_list_release_def zombie_list_release_def fork_locks_def fun_upd_twist)
  ultimately show "thread_list_atfork_parent (fork_locks s) = Some (Inr (), s)"
    and "thread_list_atfork_failed (fork_locks s) = Some (Inr (), s)"
    by (simp_all add: runs_def)
qed

text \<open>The process that the system makes at a fork: of the threads there is only the calling one.\<close>

definition forked :: "'w threads \<Rightarrow> 'w threads" where
  "forked s = s\<lparr> th_workers := [] \<rparr>"

text \<open>
  C12: a forked process starts with its own threads only. The handler before the fork takes the four locks
  that guard the barrier, the two lists of threads and the checkpoint thread, and changes nothing else, so
  no other thread is in the middle of changing what they guard; in the parent the handlers after the fork,
  also after one that failed, give the locks back and change nothing else. The child has only the calling
  thread at first. Its handler frees the descriptors of all threads of the parent and makes one for that
  thread, which is in the unsafe section that the wrapper of \<^verbatim>\<open>fork\<close> is about to leave. It
  creates a checkpoint thread, the only one of the child and the one its descriptor then names, and leaves
  all locks free and the process running.
\<close>

theorem fork_gives_child_its_own_threads:
  assumes "inits_succeed os" and "owns_its_threads s"
  shows "\<exists>held. thread_list_atfork_prepare s = Some (Inr (), held) \<and>
    (\<forall>l \<in> {Ckpt_Mtx, List_Lock, Zombie_Lock, Ckpt_Lock}. th_lock held l = L_Mine) \<and>
    held\<lparr> th_lock := th_lock s \<rparr> = s \<and>
    thread_list_atfork_parent held = Some (Inr (), s) \<and> thread_list_atfork_failed held = Some (Inr (), s) \<and>
    (\<exists>child. thread_list_atfork_child os (forked held) = Some (Inr (), child) \<and> one_thread os XND_ATFORK [] child \<and>
       th_state child = XND_RUNNING \<and> th_lock child Ckpt_Mtx = L_Free)"
proof -
  let ?Q = "\<lambda>_ s'. one_thread os XND_ATFORK [] s' \<and> th_state s' = XND_RUNNING \<and> th_lock s' Ckpt_Mtx = L_Free"
  let ?tail = "sq (must (mutex_init os Ckpt_Mtx)) (sq (must (cond_init os)) (sq (must (cond_init os))
    (sq (ignore (mutex_lock Ckpt_Lock)) (sq (modify (\<lambda>s. s\<lparr> th_state := XND_RUNNING \<rparr>)) (ignore (mutex_unlock Ckpt_Lock))))))"
  have finish: "runs ?tail ?Q t" if "one_thread os XND_ATFORK [] t" for t
    using that by (auto simp: mutex_init_ok [OF assms(1)] cond_init_ok [OF assms(1)] one_thread_def)
  have init: "runs (sq (thread_list_init os) ?tail) ?Q t" if "th_heap t = Map.empty" "th_state t = XND_ATFORK" "th_workers t = []" for t
    unfolding runs_sq [of "thread_list_init os"]
    by (rule runs_mono [OF thread_list_init_runs [OF assms(1) that(1)]]) (use finish that(2,3) in simp)
  define s1 where "s1 = (forked (fork_locks s))\<lparr> th_state := XND_ATFORK \<rparr>"
  define s2 where "s2 = s1\<lparr> th_heap := th_heap s1 |` (- set (th_list s1)) \<rparr>"
  define s3 where "s3 = s2\<lparr> th_heap := th_heap s2 |` (- set (th_zombies s2)) \<rparr>"
  have s3: "th_heap s3 = Map.empty" "th_state s3 = XND_ATFORK" "th_workers s3 = []"
    using assms(2) by (auto simp: s3_def s2_def s1_def forked_def fork_locks_def owns_its_threads_def restrict_map_def fun_eq_iff)
  have locks: "th_lock s3 Ckpt_Mtx = L_Mine" "th_lock s3 List_Lock = L_Mine" "th_lock s3 Zombie_Lock = L_Mine"
      "th_lock s3 Ckpt_Lock = L_Mine"
    by (simp_all add: s3_def s2_def s1_def forked_def fork_locks_def)
  define fin where "fin = sq (thread_list_init os) ?tail"
  have fin: "runs fin ?Q t" if "th_heap t = Map.empty" "th_state t = XND_ATFORK" "th_workers t = []" for t
    unfolding fin_def by (rule init) (use that in auto)
  have rest: "runs (sq (must (mutex_unlock Ckpt_Mtx)) (sq thread_list_release (sq zombie_list_release
      (sq (must (mutex_unlock Ckpt_Lock)) fin)))) ?Q s3"
    using s3 locks by (simp add: thread_list_release_def zombie_list_release_def fin)
  have lists: "distinct (th_list s1)" "set (th_list s1) \<subseteq> dom (th_heap s1)"
      "distinct (th_zombies s2)" "set (th_zombies s2) \<subseteq> dom (th_heap s2)"
    using assms(2) by (auto simp: s2_def s1_def forked_def fork_locks_def owns_its_threads_def dom_restrict)
  have zombies: "runs (bnd (gets th_zombies) (\<lambda>zs. sq (each thread_free zs)
      (sq (must (mutex_unlock Ckpt_Mtx)) (sq thread_list_release (sq zombie_list_release
      (sq (must (mutex_unlock Ckpt_Lock)) fin)))))) ?Q s2"
    unfolding runs_bnd runs_gets runs_sq [of "each thread_free xs" for xs]
    by (rule runs_free_all [OF lists(3,4)]) (use rest in \<open>simp only: s3_def [symmetric]\<close>)
  have "runs (thread_list_atfork_child os) ?Q (forked (fork_locks s))"
    unfolding thread_list_atfork_child_def runs_sq [of "modify f" for f] runs_modify runs_bnd [of "gets th_list"] runs_gets
      s1_def [symmetric] runs_sq [of "each thread_free (th_list s1)"]
    by (rule runs_free_all [OF lists(1,2)]) (use zombies in \<open>simp only: s2_def [symmetric] fin_def [symmetric]\<close>)
  then show ?thesis
    using prepare_runs [OF assms(2)] parent_runs [OF assms(2)] fork_locks_hold [of s] by (auto simp: runs_def)
qed

text \<open>
  A process with two threads and one that has ended. In the child none of the three descriptors is left, so
  a handle that the program got for its own thread before the fork points to nothing.
\<close>

definition counting_os :: "nat setup_os" where
  "counting_os = \<lparr> ho_mutex_init = (\<lambda>w. (0, w)), ho_cond_init = (\<lambda>w. (0, w)), ho_calloc = (\<lambda>w. (w + 1, w + 1)),
     ho_self = (\<lambda>w. 100 + w), ho_create = (\<lambda>w. ((0, 200 + w), w)) \<rparr>"

definition forking_process :: "nat threads" where
  "forking_process = \<lparr> th_heap = [1 \<mapsto> zero_thread, 2 \<mapsto> zero_thread, 3 \<mapsto> zero_thread], th_list = [2, 1], th_zombies = [3],
     th_me = Some (Desc_Ref 1), th_main = Some 2, th_ckpt = zero_thread\<lparr> ti_self := 203, ti_state := ST_CKPT_THREAD \<rparr>,
     th_workers = [203], th_lock = (\<lambda>_. L_Free), th_state = XND_RUNNING, th_tlv = TSD_XND_INIT, th_sys = 3 \<rparr>"

theorem fork_gives_child_its_own_threads_witness:
  "\<exists>held child a tid. thread_list_atfork_prepare forking_process = Some (Inr (), held) \<and> th_lock held Ckpt_Mtx = L_Mine \<and>
     thread_list_atfork_child counting_os (forked held) = Some (Inr (), child) \<and> th_list child = [a] \<and> th_zombies child = [] \<and>
     dom (th_heap child) = {a} \<and> th_workers child = [tid] \<and> ti_self (th_ckpt child) = tid \<and> th_lock child List_Lock = L_Free"
proof -
  have "inits_succeed counting_os" "owns_its_threads forking_process"
    by (auto simp: inits_succeed_def counting_os_def owns_its_threads_def forking_process_def)
  from fork_gives_child_its_own_threads [OF this] show ?thesis
    by (fastforce simp: one_thread_def)
qed

end
