(* ===== verification/Macho.thy ===== *)
theory Macho
  imports Prog Io Encoding Common
begin

text \<open>
  \<^verbatim>\<open>platform/macho.c\<close> and \<^verbatim>\<open>platform/macho.h\<close>: executables. A file that is mapped
  into memory is its bytes, and a pointer into it is an offset; reading or writing past its end has no
  meaning. The layouts of headers and load commands are those of the system's
  \<^verbatim>\<open>mach-o/loader.h\<close> and \<^verbatim>\<open>mach-o/fat.h\<close>.
\<close>

section \<open>Reading\<close>

definition rd8 :: "bytes \<Rightarrow> nat \<Rightarrow> u8 res" where
  "rd8 img off = (if off < length img then Inr (img ! off) else Inl Undefined)"

definition rd32 :: "bytes \<Rightarrow> nat \<Rightarrow> u32 res" where
  "rd32 img off = (if off + 4 \<le> length img then Inr (word_le (take 4 (drop off img))) else Inl Undefined)"

definition rd64 :: "bytes \<Rightarrow> nat \<Rightarrow> u64 res" where
  "rd64 img off = (if off + 8 \<le> length img then Inr (word_le (take 8 (drop off img))) else Inl Undefined)"

definition wr :: "nat \<Rightarrow> bytes \<Rightarrow> bytes \<Rightarrow> bytes res" where
  "wr off bs img = (if off + length bs \<le> length img
     then Inr (take off img @ bs @ drop (off + length bs) img) else Inl Undefined)"

section \<open>Headers\<close>

definition MH_MAGIC :: u32 where "MH_MAGIC = 0xFEEDFACE"
definition MH_CIGAM :: u32 where "MH_CIGAM = 0xCEFAEDFE"
definition MH_MAGIC_64 :: u32 where "MH_MAGIC_64 = 0xFEEDFACF"
definition MH_CIGAM_64 :: u32 where "MH_CIGAM_64 = 0xCFFAEDFE"
definition FAT_MAGIC :: u32 where "FAT_MAGIC = 0xCAFEBABE"
definition FAT_CIGAM :: u32 where "FAT_CIGAM = 0xBEBAFECA"
definition FAT_MAGIC_64 :: u32 where "FAT_MAGIC_64 = 0xCAFEBABF"
definition FAT_CIGAM_64 :: u32 where "FAT_CIGAM_64 = 0xBFBAFECA"

definition HEADER_IS_FAT :: "u32 \<Rightarrow> bool" where
  "HEADER_IS_FAT magic \<longleftrightarrow> magic = FAT_MAGIC \<or> magic = FAT_CIGAM \<or> magic = FAT_MAGIC_64 \<or> magic = FAT_CIGAM_64"

definition HEADER_IS_MACHO :: "u32 \<Rightarrow> bool" where
  "HEADER_IS_MACHO magic \<longleftrightarrow> magic = MH_MAGIC \<or> magic = MH_CIGAM \<or> magic = MH_MAGIC_64 \<or> magic = MH_CIGAM_64"

definition HEADER_IS_64BIT :: "u32 \<Rightarrow> bool" where
  "HEADER_IS_64BIT magic \<longleftrightarrow> magic = FAT_MAGIC_64 \<or> magic = FAT_CIGAM_64 \<or> magic = MH_MAGIC_64 \<or> magic = MH_CIGAM_64"

definition NEEDS_BSWAP :: "u32 \<Rightarrow> bool" where
  "NEEDS_BSWAP magic \<longleftrightarrow> magic = MH_CIGAM \<or> magic = MH_CIGAM_64 \<or> magic = FAT_CIGAM \<or> magic = FAT_CIGAM_64"

definition CPU_TYPE_ARM64 :: u32 where "CPU_TYPE_ARM64 = 0x0100000C"
definition CPU_SUBTYPE_ARM64_ALL :: u32 where "CPU_SUBTYPE_ARM64_ALL = 0"
definition CPU_SUBTYPE_ARM64E :: u32 where "CPU_SUBTYPE_ARM64E = 2"
definition CPU_SUBTYPE_MASK :: u32 where "CPU_SUBTYPE_MASK = 0xFF000000"

definition CPU_SUBTYPE_IS_ARM64E :: "u32 \<Rightarrow> bool" where
  "CPU_SUBTYPE_IS_ARM64E subtype \<longleftrightarrow> subtype AND NOT CPU_SUBTYPE_MASK = CPU_SUBTYPE_ARM64E"

text \<open>The byte swap of the compiler, which the build uses (the macro of the fallback is in \<^verbatim>\<open>Common\<close>).\<close>

definition bswap32 :: "u32 \<Rightarrow> u32" where
  "bswap32 v = word_le (rev (le_word 4 v))"

definition rd32_order :: "bool \<Rightarrow> bytes \<Rightarrow> nat \<Rightarrow> u32 res" where
  "rd32_order bswap img off = res_bind (rd32 img off) (\<lambda>v. Inr (if bswap then bswap32 v else v))"

definition LC_SEGMENT :: u32 where "LC_SEGMENT = 1"
definition LC_SEGMENT_64 :: u32 where "LC_SEGMENT_64 = 0x19"
definition LC_DYLD_INFO :: u32 where "LC_DYLD_INFO = 0x22"
definition LC_DYLD_INFO_ONLY :: u32 where "LC_DYLD_INFO_ONLY = 0x80000022"

definition commands_start :: "bytes \<Rightarrow> nat \<Rightarrow> nat res" where
  "commands_start img mh = res_bind (rd32 img mh) (\<lambda>magic. Inr (mh + (if HEADER_IS_64BIT magic then 32 else 28)))"

section \<open>Load commands\<close>

text \<open>The count and the offset are 32-bit; the first argument is the number of commands left.\<close>

primrec find_command :: "nat \<Rightarrow> bytes \<Rightarrow> nat \<Rightarrow> u32 \<Rightarrow> u32 \<Rightarrow> nat option res" where
  "find_command 0 img lc_start offset cmd = Inr None"
| "find_command (Suc n) img lc_start offset cmd =
     res_bind (rd32 img (lc_start + unat offset)) (\<lambda>c.
       if c = cmd then Inr (Some (lc_start + unat offset))
       else res_bind (rd32 img (lc_start + unat offset + 4)) (\<lambda>cmdsize.
         find_command n img lc_start (offset + cmdsize) cmd))"

definition macho_find_load_command :: "bytes \<Rightarrow> nat \<Rightarrow> u32 \<Rightarrow> nat option res" where
  "macho_find_load_command img mh cmd =
     res_bind (rd32 img mh) (\<lambda>magic.
     res_bind (rd32_order (NEEDS_BSWAP magic) img (mh + 16)) (\<lambda>ncmds.
     res_bind (commands_start img mh) (\<lambda>lc_start.
       find_command (unat ncmds) img lc_start 0 cmd)))"

text \<open>
  A search that stops when the offset passes the size of all commands. A command of size zero keeps it at
  the same place, for ever. \<open>ok\<close> chooses the commands that are counted; the answer is the offset
  of the command with the given index among them.
\<close>

partial_function (option) find_indexed ::
  "(u32 \<Rightarrow> bool) \<Rightarrow> bytes \<Rightarrow> nat \<Rightarrow> nat \<Rightarrow> nat \<Rightarrow> int \<Rightarrow> int \<Rightarrow> nat option res option" where
  [code]: "find_indexed ok img lc_start sizeofcmds offset idx i =
     (if \<not> offset < sizeofcmds then Some (Inr None)
      else (case res_bind (rd32 img (lc_start + offset + 4)) (\<lambda>sz. res_bind (rd32 img (lc_start + offset)) (\<lambda>c. Inr (sz, c))) of
          Inl e \<Rightarrow> Some (Inl e)
        | Inr (cmdsize, c) \<Rightarrow>
            if ok c then
              if idx = i then Some (Inr (Some (lc_start + offset)))
              else find_indexed ok img lc_start sizeofcmds (offset + unat cmdsize) (idx + 1) i
            else find_indexed ok img lc_start sizeofcmds (offset + unat cmdsize) idx i))"

definition indexed_command :: "(u32 \<Rightarrow> bool) \<Rightarrow> bytes \<Rightarrow> nat \<Rightarrow> int \<Rightarrow> int \<Rightarrow> nat option res option" where
  "indexed_command ok img mh first i =
     (case res_bind (commands_start img mh) (\<lambda>lc. res_bind (rd32 img (mh + 20)) (\<lambda>sz. Inr (lc, sz))) of
        Inl e \<Rightarrow> Some (Inl e)
      | Inr (lc_start, sizeofcmds) \<Rightarrow> find_indexed ok img lc_start (unat sizeofcmds) 0 first i)"

definition is_segment :: "u32 \<Rightarrow> bool" where
  "is_segment c \<longleftrightarrow> c = LC_SEGMENT \<or> c = LC_SEGMENT_64"

definition macho_find_segment :: "bytes \<Rightarrow> nat \<Rightarrow> u32 \<Rightarrow> nat option res option" where
  "macho_find_segment img mh seg_index = indexed_command is_segment img mh 0 (uint seg_index)"

section \<open>Fat files\<close>

text \<open>The entries are 20 bytes long; the first argument is the number of entries left.\<close>

primrec find_arch :: "nat \<Rightarrow> bool \<Rightarrow> bytes \<Rightarrow> nat \<Rightarrow> u32 \<Rightarrow> nat option res" where
  "find_arch 0 bswap img fa arch = Inr None"
| "find_arch (Suc n) bswap img fa arch =
     res_bind (rd32_order bswap img fa) (\<lambda>cputype.
       if cputype = arch then Inr (Some fa) else find_arch n bswap img (fa + 20) arch)"

definition macho_thin_from_fat :: "bytes \<Rightarrow> nat \<Rightarrow> u32 \<Rightarrow> nat option res" where
  "macho_thin_from_fat img fh arch =
     res_bind (rd32 img fh) (\<lambda>magic.
     let bswap = NEEDS_BSWAP magic in
     res_bind (rd32_order bswap img (fh + 4)) (\<lambda>nfat_arch.
     res_bind (find_arch (unat nfat_arch) bswap img (fh + 8) arch) (\<lambda>found.
       case found of
         None \<Rightarrow> Inr None
       | Some fa \<Rightarrow> res_bind (rd32_order bswap img (fa + 8)) (\<lambda>offset. Inr (Some (fh + unat offset))))))"

primrec arch_is_arm64e :: "nat \<Rightarrow> bool \<Rightarrow> bytes \<Rightarrow> nat \<Rightarrow> bool res" where
  "arch_is_arm64e 0 bswap img fa = Inr False"
| "arch_is_arm64e (Suc n) bswap img fa =
     res_bind (rd32_order bswap img fa) (\<lambda>cputype.
     res_bind (rd32_order bswap img (fa + 4)) (\<lambda>subtype.
       if cputype \<noteq> CPU_TYPE_ARM64 then arch_is_arm64e n bswap img (fa + 20)
       else if CPU_SUBTYPE_IS_ARM64E subtype then Inr True
       else arch_is_arm64e n bswap img (fa + 20)))"

definition fat_is_arm64e :: "bytes \<Rightarrow> nat \<Rightarrow> bool res" where
  "fat_is_arm64e img fh =
     res_bind (rd32 img fh) (\<lambda>magic. xnd_assert (\<not> HEADER_IS_64BIT magic)
       (let bswap = NEEDS_BSWAP magic in
        res_bind (rd32_order bswap img (fh + 4)) (\<lambda>nfat_arch. arch_is_arm64e (unat nfat_arch) bswap img (fh + 8))))"

definition macho_is_arm64e :: "bytes \<Rightarrow> nat \<Rightarrow> bool res" where
  "macho_is_arm64e img mh =
     res_bind (rd32 img mh) (\<lambda>magic. xnd_assert (HEADER_IS_64BIT magic)
       (res_bind (rd32 img (mh + 4)) (\<lambda>cputype.
          if cputype \<noteq> CPU_TYPE_ARM64 then Inr False
          else res_bind (rd32 img (mh + 8)) (\<lambda>subtype. Inr (CPU_SUBTYPE_IS_ARM64E subtype)))))"

definition binary_is_arm64e :: "bytes \<Rightarrow> nat \<Rightarrow> bool res" where
  "binary_is_arm64e img hdr =
     res_bind (rd32 img hdr) (\<lambda>magic.
       if HEADER_IS_MACHO magic then macho_is_arm64e img hdr
       else if HEADER_IS_FAT magic then fat_is_arm64e img hdr
       else Inr False)"

section \<open>Making an arm64 executable\<close>

text \<open>The answers are the offset of the header and the changed file.\<close>

definition macho_arm64e_to_arm64 :: "bytes \<Rightarrow> nat \<Rightarrow> (nat \<times> bytes) res" where
  "macho_arm64e_to_arm64 img mh =
     res_bind (rd32 img mh) (\<lambda>magic.
     xnd_assert (HEADER_IS_64BIT magic) (xnd_assert (\<not> NEEDS_BSWAP magic)
     (res_bind (rd32 img (mh + 4)) (\<lambda>cputype.
      xnd_assert (cputype = CPU_TYPE_ARM64)
        (res_bind (wr (mh + 8) (le_word 4 CPU_SUBTYPE_ARM64_ALL) img) (\<lambda>img'. Inr (mh, img')))))))"

text \<open>After the search the pointer is at the entry found, or after the last one.\<close>

definition fat_arm64e_to_arm64 :: "bytes \<Rightarrow> nat \<Rightarrow> (nat \<times> bytes) res" where
  "fat_arm64e_to_arm64 img addr =
     res_bind (rd32 img addr) (\<lambda>magic.
     xnd_assert (\<not> HEADER_IS_64BIT magic)
     (let bswap = NEEDS_BSWAP magic in
      res_bind (rd32_order bswap img (addr + 4)) (\<lambda>nfat_arch.
      res_bind (find_arch (unat nfat_arch) bswap img (addr + 8) CPU_TYPE_ARM64) (\<lambda>found.
        let fa = (case found of Some fa \<Rightarrow> fa | None \<Rightarrow> addr + 8 + 20 * unat nfat_arch) in
        res_bind (rd32_order bswap img (fa + 8)) (\<lambda>offset.
        let mh = addr + unat offset in
        res_bind (rd32 img mh) (\<lambda>magic'. xnd_assert (HEADER_IS_MACHO magic') (macho_arm64e_to_arm64 img mh)))))))"

text \<open>
  The conversion of a file. The calls: opening for reading and for writing, the size of a file, its contents
  in a private mapping, and the writing that \<^verbatim>\<open>writeall\<close> repeats. The answer \<^const>\<open>None\<close>
  of the mapping is its failure.
\<close>

record 'w bin_os =
  bo_open :: "string \<Rightarrow> 'w \<Rightarrow> fd \<times> 'w"
  bo_create :: "string \<Rightarrow> 'w \<Rightarrow> fd \<times> 'w"
  bo_size :: "fd \<Rightarrow> 'w \<Rightarrow> int \<times> 'w"
  bo_mmap :: "fd \<Rightarrow> nat \<Rightarrow> 'w \<Rightarrow> bytes option \<times> 'w"
  bo_munmap :: "'w \<Rightarrow> 'w"
  bo_write :: "fd \<Rightarrow> bytes \<Rightarrow> 'w \<Rightarrow> int \<times> 'w"
  bo_close :: "fd \<Rightarrow> 'w \<Rightarrow> 'w"
  bo_exists :: "string \<Rightarrow> 'w \<Rightarrow> bool"
  bo_unlink :: "string \<Rightarrow> 'w \<Rightarrow> 'w"

definition ARM64E_TO_ARM64_SUCCESS :: int where "ARM64E_TO_ARM64_SUCCESS = 0"
definition ARM64E_TO_ARM64_FAILURE :: int where "ARM64E_TO_ARM64_FAILURE = - 1"
definition ARM64E_TO_ARM64_NOT_ARM64E :: int where "ARM64E_TO_ARM64_NOT_ARM64E = - 2"

definition writeall_p :: "('w, 'm) bin_os_scheme \<Rightarrow> fd \<Rightarrow> bytes \<Rightarrow> ('w, nat) prog" where
  "writeall_p os fd buf w = (case writeall (bo_write os fd) buf w of None \<Rightarrow> None | Some (n, w') \<Rightarrow> Some (Inr n, w'))"

definition uses_dyld_info :: "bytes \<Rightarrow> nat \<Rightarrow> bool res" where
  "uses_dyld_info img mh =
     res_bind (macho_find_load_command img mh LC_DYLD_INFO) (\<lambda>c1.
       if c1 \<noteq> None then Inr True
       else res_bind (macho_find_load_command img mh LC_DYLD_INFO_ONLY) (\<lambda>c2. Inr (c2 \<noteq> None)))"

text \<open>The part with the new file open: the offset of the header, and the bytes from there on.\<close>

definition convert_and_write :: "('w, 'm) bin_os_scheme \<Rightarrow> fd \<Rightarrow> bytes \<Rightarrow> ('w, int) prog" where
  "convert_and_write os dstfd img =
     bnd (lift_res (rd32 img 0)) (\<lambda>magic.
       if \<not> HEADER_IS_MACHO magic \<and> \<not> HEADER_IS_FAT magic then ret ARM64E_TO_ARM64_FAILURE
       else
         bnd (lift_res (if HEADER_IS_MACHO magic then macho_arm64e_to_arm64 img 0 else fat_arm64e_to_arm64 img 0)) (\<lambda>(mh, img').
         bnd (lift_res (uses_dyld_info img' mh)) (\<lambda>dyld.
           if dyld then ret ARM64E_TO_ARM64_FAILURE
           else
             bnd (writeall_p os dstfd (drop mh img')) (\<lambda>n.
               ret (if n = length img' - mh then ARM64E_TO_ARM64_SUCCESS else ARM64E_TO_ARM64_FAILURE)))))"

text \<open>The status, the descriptor of the new file, and whether the old one is mapped.\<close>

definition convert_opened :: "('w, 'm) bin_os_scheme \<Rightarrow> string \<Rightarrow> fd \<Rightarrow> ('w, int \<times> fd \<times> bool) prog" where
  "convert_opened os tmp srcfd =
     bnd (sys (bo_size os srcfd)) (\<lambda>off.
       if off < 0 then ret (ARM64E_TO_ARM64_FAILURE, - 1, False)
       else
         bnd (sys (bo_mmap os srcfd (nat off))) (\<lambda>addr.
           case addr of
             None \<Rightarrow> ret (ARM64E_TO_ARM64_FAILURE, - 1, False)
           | Some img \<Rightarrow>
               bnd (lift_res (binary_is_arm64e img 0)) (\<lambda>is_arm64e.
                 if \<not> is_arm64e then ret (ARM64E_TO_ARM64_NOT_ARM64E, - 1, True)
                 else
                   bnd (sys (bo_create os tmp)) (\<lambda>dstfd.
                     if dstfd < 0 then ret (ARM64E_TO_ARM64_FAILURE, dstfd, True)
                     else bnd (convert_and_write os dstfd img) (\<lambda>r. ret (r, dstfd, True))))))"

definition binary_arm64e_to_arm64 :: "('w, 'm) bin_os_scheme \<Rightarrow> string \<Rightarrow> string \<Rightarrow> ('w, int) prog" where
  "binary_arm64e_to_arm64 os path tmp =
     bnd (sys (bo_open os path)) (\<lambda>srcfd.
     bnd (if srcfd < 0 then ret (ARM64E_TO_ARM64_FAILURE, - 1, False) else convert_opened os tmp srcfd) (\<lambda>(r, dstfd, mapped).
     sq (if srcfd \<noteq> - 1 then modify (bo_close os srcfd) else ret ())
    (sq (if dstfd \<noteq> - 1 then modify (bo_close os dstfd) else ret ())
    (sq (if mapped then modify (bo_munmap os) else ret ())
    (bnd (gets (bo_exists os tmp)) (\<lambda>there.
     sq (if r \<noteq> ARM64E_TO_ARM64_SUCCESS \<and> there then modify (bo_unlink os tmp) else ret ())
        (ret r)))))))"

section \<open>The copy\<close>

text \<open>
  The copy of a thin executable differs from it in the four bytes of the subtype, and is no arm64e
  executable any more.
\<close>

lemma rd32_other:
  assumes "wr off bs img = Inr img'" and "k + 4 \<le> off \<or> off + length bs \<le> k"
  shows "rd32 img' k = rd32 img k"
proof -
  have img': "img' = take off img @ bs @ drop (off + length bs) img" and len: "off + length bs \<le> length img"
    using assms(1) by (auto simp: wr_def split: if_splits)
  have "take 4 (drop k img') = take 4 (drop k img)"
  proof (cases "k + 4 \<le> off")
    case True
    then have "4 \<le> off - k" "off \<le> length img" "k \<le> off" using len by simp_all
    then show ?thesis
      by (auto simp: img' drop_take min_def)
  next
    case False
    then have "off + length bs \<le> k" using assms(2) by simp
    then have "drop k img' = drop k img"
      using len by (simp add: img')
    then show ?thesis by simp
  qed
  moreover have "length img' = length img"
    using len by (simp add: img')
  ultimately show ?thesis by (simp add: rd32_def)
qed

lemma arm64_copy:
  assumes "macho_arm64e_to_arm64 img mh = Inr (mh', img')"
  shows "mh' = mh \<and> img' = take (mh + 8) img @ [0, 0, 0, 0] @ drop (mh + 12) img \<and> macho_is_arm64e img' mh = Inr False"
proof -
  obtain magic where w: "rd32 img mh = Inr magic" "HEADER_IS_64BIT magic" "mh' = mh" "rd32 img (mh + 4) = Inr CPU_TYPE_ARM64"
    "wr (mh + 8) (le_word 4 CPU_SUBTYPE_ARM64_ALL) img = Inr img'"
    using assms by (auto simp: macho_arm64e_to_arm64_def)
  have zeros: "le_word 4 CPU_SUBTYPE_ARM64_ALL = [0, 0, 0, 0]"
    using arg_cong [of 4 "Suc (Suc (Suc (Suc 0)))" "\<lambda>k. le_bytes k 0"]
    by (simp add: le_word_def CPU_SUBTYPE_ARM64_ALL_def)
  have img': "img' = take (mh + 8) img @ [0, 0, 0, 0] @ drop (mh + 12) img" and len: "mh + 12 \<le> length img"
    using w(5) by (auto simp: wr_def zeros add.commute split: if_splits)
  have "rd32 img' mh = Inr magic" "rd32 img' (mh + 4) = Inr CPU_TYPE_ARM64"
    using rd32_other [OF w(5)] w(1,4) by simp_all
  moreover have "rd32 img' (mh + 8) = Inr 0"
  proof -
    have "drop (mh + 8) img' = [0, 0, 0, 0] @ drop (mh + 12) img"
      using len unfolding img' by (simp add: add.commute)
    moreover have "mh + 8 + 4 \<le> length img'"
      using len by (simp add: img')
    ultimately show ?thesis
      by (simp add: rd32_def word_le_def)
  qed
  ultimately have "macho_is_arm64e img' mh = Inr False"
    using w(2) by (simp add: macho_is_arm64e_def CPU_SUBTYPE_IS_ARM64E_def CPU_SUBTYPE_ARM64E_def)
  then show ?thesis using w(3) img' by simp
qed

end
