(* ===== verification/Macho_Parse.thy ===== *)
theory Macho_Parse
  imports Macho
begin

text \<open>
  \<^verbatim>\<open>platform/xnd_macho_parse.c\<close>: the tool that lists the bind opcodes of an executable and
  the fixup chains they set up. What it prints is a list of lines; their layout as text is left out.
\<close>

section \<open>Data\<close>

text \<open>Addresses and strings are offsets into the file; the null pointer is \<^const>\<open>None\<close>.\<close>

record fixup_entry =
  fx_addr :: nat
  fx_symbol :: "nat option"
  fx_lib_ordinal :: s64
  fx_addend :: s64
  fx_seg_index :: u32
  fx_flags :: u32
  fx_type :: u8
  fx_special :: bool

record macho_all_info =
  mi_img :: bytes
  mi_mh :: nat
  mi_cmd :: nat

definition no_fixup :: fixup_entry where
  "no_fixup = \<lparr> fx_addr = 0, fx_symbol = None, fx_lib_ordinal = 0, fx_addend = 0, fx_seg_index = 0, fx_flags = 0,
     fx_type = 0, fx_special = False \<rparr>"

datatype bind_opcode =
    BIND_OPCODE_DONE
  | BIND_OPCODE_SET_DYLIB_ORDINAL_IMM
  | BIND_OPCODE_SET_DYLIB_ORDINAL_ULEB
  | BIND_OPCODE_SET_DYLIB_SPECIAL_IMM
  | BIND_OPCODE_SET_SYMBOL_TRAILING_FLAGS_IMM
  | BIND_OPCODE_SET_TYPE_IMM
  | BIND_OPCODE_SET_ADDEND_SLEB
  | BIND_OPCODE_SET_SEGMENT_AND_OFFSET_ULEB
  | BIND_OPCODE_ADD_ADDR_ULEB
  | BIND_OPCODE_DO_BIND
  | BIND_OPCODE_DO_BIND_ADD_ADDR_ULEB
  | BIND_OPCODE_DO_BIND_ADD_ADDR_IMM_SCALED
  | BIND_OPCODE_DO_BIND_ULEB_TIMES_SKIPPING_ULEB
  | BIND_OPCODE_THREADED

definition opcodes :: "bind_opcode list" where
  "opcodes = [BIND_OPCODE_DONE, BIND_OPCODE_SET_DYLIB_ORDINAL_IMM, BIND_OPCODE_SET_DYLIB_ORDINAL_ULEB,
     BIND_OPCODE_SET_DYLIB_SPECIAL_IMM, BIND_OPCODE_SET_SYMBOL_TRAILING_FLAGS_IMM, BIND_OPCODE_SET_TYPE_IMM,
     BIND_OPCODE_SET_ADDEND_SLEB, BIND_OPCODE_SET_SEGMENT_AND_OFFSET_ULEB, BIND_OPCODE_ADD_ADDR_ULEB, BIND_OPCODE_DO_BIND,
     BIND_OPCODE_DO_BIND_ADD_ADDR_ULEB, BIND_OPCODE_DO_BIND_ADD_ADDR_IMM_SCALED,
     BIND_OPCODE_DO_BIND_ULEB_TIMES_SKIPPING_ULEB, BIND_OPCODE_THREADED]"

definition BIND_OPCODE_MASK :: u8 where "BIND_OPCODE_MASK = 0xF0"
definition BIND_IMMEDIATE_MASK :: u8 where "BIND_IMMEDIATE_MASK = 0x0F"
definition BIND_SUBOPCODE_SET_SIZE :: u8 where "BIND_SUBOPCODE_SET_SIZE = 0"
definition BIND_SUBOPCODE_THREADED_APPLY :: u8 where "BIND_SUBOPCODE_THREADED_APPLY = 1"

text \<open>The opcode is the high half of a byte; two of the sixteen values are none.\<close>

definition opcode_of :: "u8 \<Rightarrow> bind_opcode option" where
  "opcode_of b = (let i = unat (drop_bit 4 (b AND BIND_OPCODE_MASK)) in if i < length opcodes then Some (opcodes ! i) else None)"

section \<open>Strings and numbers of the stream\<close>

fun str_len :: "bytes \<Rightarrow> nat res" where
  "str_len [] = Inl Undefined"
| "str_len (b # bs) = (if b = 0 then Inr 0 else res_bind (str_len bs) (\<lambda>n. Inr (n + 1)))"

definition string_end :: "bytes \<Rightarrow> nat \<Rightarrow> nat res" where
  "string_end img itr = res_bind (str_len (drop itr img)) (\<lambda>n. Inr (itr + n + 1))"

definition c_string :: "bytes \<Rightarrow> nat \<Rightarrow> bytes res" where
  "c_string img off = res_bind (str_len (drop off img)) (\<lambda>n. Inr (take n (drop off img)))"

definition uleb_at :: "bytes \<Rightarrow> nat \<Rightarrow> (u64 \<times> nat) res" where
  "uleb_at img itr = res_bind (decode_uleb128 (drop itr img)) (\<lambda>(v, rest). Inr (v, length img - length rest))"

definition sleb_at :: "bytes \<Rightarrow> nat \<Rightarrow> (s64 \<times> nat) res" where
  "sleb_at img itr = res_bind (decode_sleb128 (drop itr img)) (\<lambda>(v, rest). Inr (v, length img - length rest))"

section \<open>Names\<close>

definition LC_LOAD_DYLIB :: u32 where "LC_LOAD_DYLIB = 0x0C"
definition LC_LOAD_WEAK_DYLIB :: u32 where "LC_LOAD_WEAK_DYLIB = 0x80000018"
definition LC_REEXPORT_DYLIB :: u32 where "LC_REEXPORT_DYLIB = 0x8000001F"

definition is_dylib :: "u32 \<Rightarrow> bool" where
  "is_dylib c \<longleftrightarrow> c = LC_LOAD_DYLIB \<or> c = LC_LOAD_WEAK_DYLIB \<or> c = LC_REEXPORT_DYLIB"

datatype dylib_name = Dylib_Self | Dylib_Main_Executable | Dylib_Flat_Lookup | Dylib_Path bytes

definition macho_dylib_name :: "bytes \<Rightarrow> nat \<Rightarrow> s64 \<Rightarrow> bool \<Rightarrow> dylib_name option res option" where
  "macho_dylib_name img mh ordinal special =
     (if special then
        (if ordinal = 0 then Some (Inr (Some Dylib_Self))
         else if ordinal = - 1 then Some (Inr (Some Dylib_Main_Executable))
         else if ordinal = - 2 then Some (Inr (Some Dylib_Flat_Lookup))
         else Some (Inr None))
      else
        (case indexed_command is_dylib img mh 1 (sint ordinal) of
           None \<Rightarrow> None
         | Some (Inl e) \<Rightarrow> Some (Inl e)
         | Some (Inr None) \<Rightarrow> Some (Inr None)
         | Some (Inr (Some lc)) \<Rightarrow> Some (res_bind (rd32 img (lc + 8)) (\<lambda>name_offset.
             res_bind (c_string img (lc + unat name_offset)) (\<lambda>s. Inr (Some (Dylib_Path s)))))))"

definition macho_segment_name :: "bytes \<Rightarrow> nat \<Rightarrow> u32 \<Rightarrow> bytes option res option" where
  "macho_segment_name img mh seg_index =
     (case indexed_command is_segment img mh 0 (uint seg_index) of
        None \<Rightarrow> None
      | Some (Inl e) \<Rightarrow> Some (Inl e)
      | Some (Inr None) \<Rightarrow> Some (Inr None)
      | Some (Inr (Some lc)) \<Rightarrow> Some (res_bind (c_string img (lc + 8)) (\<lambda>s. Inr (Some s))))"

section \<open>Binding\<close>

definition op_range :: "macho_all_info \<Rightarrow> nat \<Rightarrow> (nat \<times> nat) res" where
  "op_range info field =
     res_bind (rd32 (mi_img info) (mi_cmd info + field)) (\<lambda>off.
     res_bind (rd32 (mi_img info) (mi_cmd info + field + 4)) (\<lambda>sz.
       let op_start = mi_mh info + unat off in Inr (op_start, op_start + unat sz)))"

definition bind_off :: nat where "bind_off = 16"
definition weak_bind_off :: nat where "weak_bind_off = 24"
definition lazy_bind_off :: nat where "lazy_bind_off = 32"

text \<open>The first byte of the stream that looks like a threaded opcode; operands are not told from opcodes.\<close>

primrec find_threaded :: "nat \<Rightarrow> bytes \<Rightarrow> nat \<Rightarrow> (u8 \<times> nat) option res" where
  "find_threaded 0 img itr = Inr None"
| "find_threaded (Suc n) img itr =
     res_bind (rd8 img itr) (\<lambda>b.
       if opcode_of b = Some BIND_OPCODE_THREADED then Inr (Some (b AND BIND_IMMEDIATE_MASK, itr + 1))
       else find_threaded n img (itr + 1))"

definition macho_bind_table_size :: "macho_all_info \<Rightarrow> u64 res" where
  "macho_bind_table_size info =
     res_bind (op_range info bind_off) (\<lambda>(op_start, op_end).
     res_bind (find_threaded (op_end - op_start) (mi_img info) op_start) (\<lambda>found.
       case found of
         None \<Rightarrow> Inl Aborted
       | Some (imm, itr) \<Rightarrow>
           if imm = BIND_SUBOPCODE_SET_SIZE then res_bind (uleb_at (mi_img info) itr) (\<lambda>(v, _). Inr v)
           else Inl Aborted))"

text \<open>
  One chain. \<open>alloc\<close> says whether a block of the given size is to be had; the answer
  \<^const>\<open>None\<close> is the return of \<^verbatim>\<open>-1\<close>. A block for entries has its capacity beside it.
\<close>

definition sizeof_fixup_entry :: nat where "sizeof_fixup_entry = 48"

partial_function (option) walk_loop ::
  "(nat \<Rightarrow> bool) \<Rightarrow> macho_all_info \<Rightarrow> u32 \<Rightarrow> fixup_entry list \<Rightarrow> nat \<Rightarrow> u64 \<Rightarrow> fixup_entry list \<Rightarrow> nat \<Rightarrow>
     (fixup_entry list \<times> nat) option res option" where
  [code]: "walk_loop alloc info seg_index ordinals nordinals offset chain cap =
     (let cap' = (if length chain = cap then cap * 2 else cap) in
      if length chain = cap \<and> \<not> alloc (cap' * sizeof_fixup_entry) then Some (Inr None)
      else
        let addr = mi_mh info + unat offset;
            entry = no_fixup\<lparr> fx_addr := addr, fx_seg_index := seg_index \<rparr>
        in (case rd64 (mi_img info) addr of
              Inl e \<Rightarrow> Some (Inl e)
            | Inr value \<Rightarrow>
                let ordinal = unat (value AND 0xFFFF);
                    nxt = drop_bit 51 value AND 0x7FF;
                    entry' = (if bit value 62 then (ordinals ! ordinal)\<lparr> fx_addr := addr, fx_seg_index := seg_index \<rparr> else entry)
                in if bit value 62 \<and> nordinals \<le> ordinal then Some (Inr None)
                   else if nxt = 0 then Some (Inr (Some (chain @ [entry'], cap')))
                   else walk_loop alloc info seg_index ordinals nordinals (offset + nxt * 8) (chain @ [entry']) cap'))"

definition segment_fileoff :: "bytes \<Rightarrow> nat \<Rightarrow> u64 option res" where
  "segment_fileoff img seg =
     res_bind (rd32 img seg) (\<lambda>cmd.
       if cmd = LC_SEGMENT then res_bind (rd32 img (seg + 32)) (\<lambda>off. Inr (Some (ucast off)))
       else if cmd = LC_SEGMENT_64 then res_bind (rd64 img (seg + 40)) (\<lambda>off. Inr (Some off))
       else Inr None)"

definition macho_walk_fixup_chain ::
  "(nat \<Rightarrow> bool) \<Rightarrow> macho_all_info \<Rightarrow> u32 \<Rightarrow> u64 \<Rightarrow> fixup_entry list \<Rightarrow> nat \<Rightarrow> fixup_entry list \<Rightarrow> nat \<Rightarrow>
     (fixup_entry list \<times> nat) option res option" where
  "macho_walk_fixup_chain alloc info seg_index seg_offset ordinals nordinals chain cap =
     (case macho_find_segment (mi_img info) (mi_mh info) seg_index of
        None \<Rightarrow> None
      | Some (Inl e) \<Rightarrow> Some (Inl e)
      | Some (Inr None) \<Rightarrow> Some (Inr None)
      | Some (Inr (Some seg)) \<Rightarrow>
          (case segment_fileoff (mi_img info) seg of
             Inl e \<Rightarrow> Some (Inl e)
           | Inr None \<Rightarrow> Some (Inr None)
           | Inr (Some offset) \<Rightarrow> walk_loop alloc info seg_index ordinals nordinals (offset + seg_offset) chain cap))"

section \<open>The opcode stream\<close>

record bind_state =
  bs_seg_index :: u32
  bs_flags :: u32
  bs_type :: u8
  bs_table :: "fixup_entry list"
  bs_idx :: nat
  bs_seg_offset :: u64
  bs_addend :: s64
  bs_lib_ordinal :: s64
  bs_symbol :: "nat option"
  bs_special :: bool
  bs_chain :: "fixup_entry list"
  bs_cap :: nat

definition bind_state0 :: "nat \<Rightarrow> bind_state" where
  "bind_state0 table_size = \<lparr> bs_seg_index = 0, bs_flags = 0, bs_type = 0, bs_table = replicate table_size no_fixup, bs_idx = 0,
     bs_seg_offset = 0, bs_addend = 0, bs_lib_ordinal = 0, bs_symbol = None, bs_special = False, bs_chain = [], bs_cap = 256 \<rparr>"

definition do_bind :: "bind_state \<Rightarrow> bind_state res" where
  "do_bind st =
     (if bs_idx st < length (bs_table st) then
        Inr (st\<lparr> bs_table := (bs_table st)[bs_idx st := (bs_table st ! bs_idx st)\<lparr> fx_lib_ordinal := bs_lib_ordinal st,
               fx_special := bs_special st, fx_symbol := bs_symbol st, fx_flags := bs_flags st, fx_addend := bs_addend st,
               fx_type := bs_type st \<rparr>], bs_idx := bs_idx st + 1 \<rparr>)
      else Inl Undefined)"

text \<open>
  The value of a special ordinal: the cast applies to the immediate, before the high bits are set, so the
  result is positive.
\<close>

definition special_ordinal :: "u8 \<Rightarrow> s64" where
  "special_ordinal imm = (if imm = 0 then 0 else scast imm OR ucast BIND_OPCODE_MASK)"

text \<open>
  One opcode, whose byte has been read; \<open>itr\<close> is after it. The answer is the state and the next
  offset, or \<^const>\<open>None\<close> for the return of \<^verbatim>\<open>-1\<close>.
\<close>

definition bind_step ::
  "(nat \<Rightarrow> bool) \<Rightarrow> macho_all_info \<Rightarrow> u8 \<Rightarrow> nat \<Rightarrow> bind_state \<Rightarrow> (bind_state \<times> nat) option res option" where
  "bind_step alloc info b itr st =
     (let img = mi_img info; imm = b AND BIND_IMMEDIATE_MASK in
      case opcode_of b of
        None \<Rightarrow> Some (Inr None)
      | Some op \<Rightarrow>
          (case op of
             BIND_OPCODE_DONE \<Rightarrow> Some (Inr (Some (st, itr)))
           | BIND_OPCODE_DO_BIND \<Rightarrow> Some (res_bind (do_bind st) (\<lambda>st'. Inr (Some (st', itr))))
           | BIND_OPCODE_SET_DYLIB_ORDINAL_IMM \<Rightarrow>
               Some (Inr (Some (st\<lparr> bs_lib_ordinal := ucast imm, bs_special := False \<rparr>, itr)))
           | BIND_OPCODE_SET_DYLIB_ORDINAL_ULEB \<Rightarrow>
               Some (res_bind (uleb_at img itr) (\<lambda>(v, itr'). Inr (Some (st\<lparr> bs_lib_ordinal := v, bs_special := False \<rparr>, itr'))))
           | BIND_OPCODE_SET_DYLIB_SPECIAL_IMM \<Rightarrow>
               Some (Inr (Some (st\<lparr> bs_lib_ordinal := special_ordinal imm, bs_special := True \<rparr>, itr)))
           | BIND_OPCODE_SET_SYMBOL_TRAILING_FLAGS_IMM \<Rightarrow>
               Some (res_bind (string_end img itr) (\<lambda>itr'. Inr (Some (st\<lparr> bs_flags := ucast imm, bs_symbol := Some itr \<rparr>, itr'))))
           | BIND_OPCODE_SET_TYPE_IMM \<Rightarrow> Some (Inr (Some (st\<lparr> bs_type := imm \<rparr>, itr)))
           | BIND_OPCODE_SET_ADDEND_SLEB \<Rightarrow>
               Some (res_bind (sleb_at img itr) (\<lambda>(v, itr'). Inr (Some (st\<lparr> bs_addend := v \<rparr>, itr'))))
           | BIND_OPCODE_SET_SEGMENT_AND_OFFSET_ULEB \<Rightarrow>
               Some (res_bind (uleb_at img itr) (\<lambda>(v, itr'). Inr (Some (st\<lparr> bs_seg_index := ucast imm, bs_seg_offset := v \<rparr>, itr'))))
           | BIND_OPCODE_ADD_ADDR_ULEB \<Rightarrow> Some (Inl Aborted)
           | BIND_OPCODE_DO_BIND_ADD_ADDR_ULEB \<Rightarrow> Some (Inl Aborted)
           | BIND_OPCODE_DO_BIND_ADD_ADDR_IMM_SCALED \<Rightarrow> Some (Inl Aborted)
           | BIND_OPCODE_DO_BIND_ULEB_TIMES_SKIPPING_ULEB \<Rightarrow> Some (Inl Aborted)
           | BIND_OPCODE_THREADED \<Rightarrow>
               if imm \<noteq> BIND_SUBOPCODE_THREADED_APPLY
               then Some (res_bind (uleb_at img itr) (\<lambda>(_, itr'). Inr (Some (st, itr'))))
               else
                 (case macho_walk_fixup_chain alloc info (bs_seg_index st) (bs_seg_offset st) (bs_table st) (bs_idx st)
                         (bs_chain st) (bs_cap st) of
                    None \<Rightarrow> None
                  | Some (Inl e) \<Rightarrow> Some (Inl e)
                  | Some (Inr None) \<Rightarrow> Some (Inr None)
                  | Some (Inr (Some (chain, cap))) \<Rightarrow> Some (Inr (Some (st\<lparr> bs_chain := chain, bs_cap := cap \<rparr>, itr))))))"

text \<open>The loop stops where the stream ends; an end that is stepped over is not noticed.\<close>

partial_function (option) bind_loop ::
  "(nat \<Rightarrow> bool) \<Rightarrow> macho_all_info \<Rightarrow> nat \<Rightarrow> nat \<Rightarrow> bind_state \<Rightarrow> bind_state option res option" where
  [code]: "bind_loop alloc info op_end itr st =
     (if itr = op_end then Some (Inr (Some st))
      else (case rd8 (mi_img info) itr of
              Inl e \<Rightarrow> Some (Inl e)
            | Inr b \<Rightarrow>
                (case bind_step alloc info b (itr + 1) st of
                   None \<Rightarrow> None
                 | Some r \<Rightarrow>
                     (case r of
                        Inl e \<Rightarrow> Some (Inl e)
                      | Inr None \<Rightarrow> Some (Inr None)
                      | Inr (Some (st', itr')) \<Rightarrow> bind_loop alloc info op_end itr' st'))))"

section \<open>Printing fixups\<close>

text \<open>The tables of names; an index outside an array has no meaning, a null entry has no name.\<close>

definition bind_type_str :: "u8 \<Rightarrow> string option res" where
  "bind_type_str t =
     (if t = 1 then Inr (Some ''BIND_TYPE_POINTER'') else if t = 2 then Inr (Some ''BIND_TYPE_TEXT_ABSOLUTE32'')
      else if t = 3 then Inr (Some ''BIND_TYPE_TEXT_PCREL32'') else if t = 0 then Inr None else Inl Undefined)"

definition bind_flags_str :: "u32 \<Rightarrow> string option res" where
  "bind_flags_str f =
     (if f = 0 then Inr (Some ''NONE'') else if f = 1 then Inr (Some ''BIND_SYMBOL_FLAGS_WEAK_IMPORT'')
      else if f = 8 then Inr (Some ''BIND_SYMBOL_FLAGS_NON_WEAK_DEFINITION'') else if f < 8 then Inr None else Inl Undefined)"

definition pac_key_str :: "u64 \<Rightarrow> string" where
  "pac_key_str key = (if key = 0 then ''APIAKey_EL1'' else [])"

text \<open>The fields of a chained pointer.\<close>

definition bits_of :: "nat \<Rightarrow> nat \<Rightarrow> u64 \<Rightarrow> u64" where
  "bits_of lo n v = take_bit n (drop_bit lo v)"

record bind_names =
  bn_dylib :: "dylib_name option"
  bn_segment :: "bytes option"
  bn_symbol :: "bytes option"
  bn_flags :: "string option"
  bn_type :: "string option"
  bn_addend :: s64

datatype fixup_line =
    Auth_Bind u64 u64 u64 bool string u64 bind_names
  | Auth_Rebase u64 u64 u64 bool string u64 "bytes option"
  | Bind u64 u64 u64 u64 bind_names
  | Rebase u64 u64 u64 u64 "bytes option"

definition fixup_names :: "macho_all_info \<Rightarrow> fixup_entry \<Rightarrow> bytes option \<Rightarrow> bind_names res option" where
  "fixup_names info fixup segname =
     (case macho_dylib_name (mi_img info) (mi_mh info) (fx_lib_ordinal fixup) (fx_special fixup) of
        None \<Rightarrow> None
      | Some d \<Rightarrow> Some (res_bind (bind_type_str (fx_type fixup)) (\<lambda>type.
          res_bind (bind_flags_str (fx_flags fixup)) (\<lambda>flags. res_bind d (\<lambda>dylib.
          res_bind (case fx_symbol fixup of None \<Rightarrow> Inr None | Some a \<Rightarrow> res_bind (c_string (mi_img info) a) (\<lambda>x. Inr (Some x))) (\<lambda>symbol.
            Inr \<lparr> bn_dylib = dylib, bn_segment = segname, bn_symbol = symbol, bn_flags = flags, bn_type = type,
                  bn_addend = fx_addend fixup \<rparr>))))))"

definition macho_print_fixup :: "macho_all_info \<Rightarrow> fixup_entry \<Rightarrow> fixup_line res option" where
  "macho_print_fixup info fixup =
     (case rd64 (mi_img info) (fx_addr fixup) of
        Inl e \<Rightarrow> Some (Inl e)
      | Inr v \<Rightarrow>
          (case macho_segment_name (mi_img info) (mi_mh info) (fx_seg_index fixup) of
             None \<Rightarrow> None
           | Some (Inl e) \<Rightarrow> Some (Inl e)
           | Some (Inr segname) \<Rightarrow>
               let nxt = bits_of 51 11 v in
               if bit v 63 \<and> bit v 62 then
                 map_option (\<lambda>r. res_bind r (\<lambda>names.
                   Inr (Auth_Bind v (bits_of 0 16 v) (bits_of 32 16 v) (bit v 48) (pac_key_str (bits_of 49 2 v)) nxt names)))
                   (fixup_names info fixup segname)
               else if bit v 63 then
                 Some (Inr (Auth_Rebase v (bits_of 0 32 v) (bits_of 32 16 v) (bit v 48) (pac_key_str (bits_of 49 2 v)) nxt segname))
               else if bit v 62 then
                 map_option (\<lambda>r. res_bind r (\<lambda>names. Inr (Bind v (bits_of 0 16 v) (bits_of 32 19 v) nxt names)))
                   (fixup_names info fixup segname)
               else Some (Inr (Rebase v (bits_of 0 43 v) (bits_of 43 8 v) nxt segname))))"

fun print_fixups :: "macho_all_info \<Rightarrow> fixup_entry list \<Rightarrow> fixup_line list res option" where
  "print_fixups info [] = Some (Inr [])"
| "print_fixups info (f # fs) =
     (case macho_print_fixup info f of
        None \<Rightarrow> None
      | Some (Inl e) \<Rightarrow> Some (Inl e)
      | Some (Inr l) \<Rightarrow> map_option (\<lambda>r. res_bind r (\<lambda>ls. Inr (l # ls))) (print_fixups info fs))"

text \<open>The whole: the status, with the lines it prints.\<close>

definition macho_parse_fixup_chains :: "(nat \<Rightarrow> bool) \<Rightarrow> macho_all_info \<Rightarrow> (int \<times> fixup_line list) res option" where
  "macho_parse_fixup_chains alloc info =
     (case macho_bind_table_size info of
        Inl e \<Rightarrow> Some (Inl e)
      | Inr table_size \<Rightarrow>
          if \<not> alloc (unat table_size * sizeof_fixup_entry) then Some (Inr (- 1, []))
          else if \<not> alloc (256 * sizeof_fixup_entry) then Some (Inr (- 1, []))
          else
            (case op_range info bind_off of
               Inl e \<Rightarrow> Some (Inl e)
             | Inr (op_start, op_end) \<Rightarrow>
                 (case bind_loop alloc info op_end op_start (bind_state0 (unat table_size)) of
                    None \<Rightarrow> None
                  | Some (Inl e) \<Rightarrow> Some (Inl e)
                  | Some (Inr None) \<Rightarrow> Some (Inr (- 1, []))
                  | Some (Inr (Some st)) \<Rightarrow> map_option (\<lambda>r. res_bind r (\<lambda>ls. Inr (0, ls))) (print_fixups info (bs_chain st)))))"

section \<open>Listing opcodes\<close>

datatype op_args =
    A_None
  | A_Dylib s64 "dylib_name option"
  | A_Symbol u32 bytes
  | A_Type u8
  | A_Addend s64
  | A_Segment u32 "bytes option" u64
  | A_Skip u64
  | A_Times u64 u64
  | A_Table_Size u64
  | A_Apply
  | A_Unknown_Sub u8

datatype op_line = Op_Line nat bind_opcode op_args | Unknown_Op u8

datatype op_kind = OPT_BIND_INFO | OPT_WEAK_BIND_INFO | OPT_LAZY_BIND_INFO

definition kind_field :: "op_kind \<Rightarrow> nat" where
  "kind_field which = (case which of OPT_BIND_INFO \<Rightarrow> bind_off | OPT_WEAK_BIND_INFO \<Rightarrow> weak_bind_off
     | OPT_LAZY_BIND_INFO \<Rightarrow> lazy_bind_off)"

definition macho_print_threaded_opcode :: "bytes \<Rightarrow> nat \<Rightarrow> u8 \<Rightarrow> nat \<Rightarrow> (op_line list \<times> nat) res" where
  "macho_print_threaded_opcode img itr imm off =
     (if imm = BIND_SUBOPCODE_SET_SIZE
      then res_bind (uleb_at img itr) (\<lambda>(count, itr'). Inr ([Op_Line off BIND_OPCODE_THREADED (A_Table_Size count)], itr'))
      else if imm = BIND_SUBOPCODE_THREADED_APPLY then Inr ([Op_Line off BIND_OPCODE_THREADED A_Apply], itr)
      else Inr ([Op_Line off BIND_OPCODE_THREADED (A_Unknown_Sub imm)], itr))"

definition dylib_line ::
  "macho_all_info \<Rightarrow> nat \<Rightarrow> bind_opcode \<Rightarrow> s64 \<Rightarrow> bool \<Rightarrow> nat \<Rightarrow> (op_line list \<times> nat) res option" where
  "dylib_line info off op ordinal special itr =
     map_option (\<lambda>d. res_bind d (\<lambda>name. Inr ([Op_Line off op (A_Dylib ordinal name)], itr)))
       (macho_dylib_name (mi_img info) (mi_mh info) ordinal special)"

definition print_step ::
  "macho_all_info \<Rightarrow> nat \<Rightarrow> u8 \<Rightarrow> nat \<Rightarrow> (op_line list \<times> nat) res option" where
  "print_step info off b itr =
     (let img = mi_img info; imm = b AND BIND_IMMEDIATE_MASK;
          scaled = (\<lambda>op. Op_Line off op (A_Skip (ucast imm * 8 + 8)))
      in case opcode_of b of
        None \<Rightarrow> Some (Inr ([Unknown_Op b], itr))
      | Some op \<Rightarrow>
          (case op of
             BIND_OPCODE_DONE \<Rightarrow> Some (Inr ([Op_Line off op A_None], itr))
           | BIND_OPCODE_SET_DYLIB_ORDINAL_IMM \<Rightarrow> dylib_line info off op (ucast imm) False itr
           | BIND_OPCODE_SET_DYLIB_ORDINAL_ULEB \<Rightarrow>
               (case uleb_at img itr of Inl e \<Rightarrow> Some (Inl e) | Inr (v, itr') \<Rightarrow> dylib_line info off op v False itr')
           | BIND_OPCODE_SET_DYLIB_SPECIAL_IMM \<Rightarrow>
               dylib_line info off op (if imm \<noteq> 0 then ucast imm OR ucast BIND_OPCODE_MASK else 0) True itr
           | BIND_OPCODE_SET_SYMBOL_TRAILING_FLAGS_IMM \<Rightarrow>
               Some (res_bind (string_end img itr) (\<lambda>itr'. res_bind (c_string img itr) (\<lambda>sym.
                 Inr ([Op_Line off op (A_Symbol (ucast imm) sym)], itr'))))
           | BIND_OPCODE_SET_TYPE_IMM \<Rightarrow> Some (Inr ([Op_Line off op (A_Type imm)], itr))
           | BIND_OPCODE_SET_ADDEND_SLEB \<Rightarrow>
               Some (res_bind (sleb_at img itr) (\<lambda>(v, itr'). Inr ([Op_Line off op (A_Addend v)], itr')))
           | BIND_OPCODE_SET_SEGMENT_AND_OFFSET_ULEB \<Rightarrow>
               map_option (\<lambda>r. res_bind r (\<lambda>segname. res_bind (uleb_at img itr) (\<lambda>(v, itr').
                 Inr ([Op_Line off op (A_Segment (ucast imm) segname v)], itr'))))
                 (macho_segment_name img (mi_mh info) (ucast imm))
           | BIND_OPCODE_ADD_ADDR_ULEB \<Rightarrow>
               Some (res_bind (uleb_at img itr) (\<lambda>(v, itr'). Inr ([Op_Line off op (A_Skip v)], itr')))
           | BIND_OPCODE_DO_BIND \<Rightarrow> Some (Inr ([Op_Line off op A_None], itr))
           | BIND_OPCODE_DO_BIND_ADD_ADDR_ULEB \<Rightarrow>
               Some (res_bind (uleb_at img itr) (\<lambda>(v, itr'). Inr ([Op_Line off op (A_Skip v), scaled op], itr')))
           | BIND_OPCODE_DO_BIND_ADD_ADDR_IMM_SCALED \<Rightarrow> Some (Inr ([scaled op], itr))
           | BIND_OPCODE_DO_BIND_ULEB_TIMES_SKIPPING_ULEB \<Rightarrow>
               Some (res_bind (uleb_at img itr) (\<lambda>(count, itr'). res_bind (uleb_at img itr') (\<lambda>(skip, itr'').
                 Inr ([Op_Line off op (A_Times count skip)], itr''))))
           | BIND_OPCODE_THREADED \<Rightarrow> Some (macho_print_threaded_opcode img itr imm off)))"

record op_listing =
  ol_lines :: "op_line list"
  ol_nopcodes :: nat
  ol_nsymbols :: nat

partial_function (option) print_loop ::
  "macho_all_info \<Rightarrow> nat \<Rightarrow> nat \<Rightarrow> nat \<Rightarrow> op_listing \<Rightarrow> op_listing res option" where
  [code]: "print_loop info op_start op_end itr l =
     (if \<not> itr < op_end then Some (Inr l)
      else (case rd8 (mi_img info) itr of
              Inl e \<Rightarrow> Some (Inl e)
            | Inr b \<Rightarrow>
                (case print_step info (itr - op_start) b (itr + 1) of
                   None \<Rightarrow> None
                 | Some r \<Rightarrow>
                     (case r of
                        Inl e \<Rightarrow> Some (Inl e)
                      | Inr (ls, itr') \<Rightarrow> print_loop info op_start op_end itr'
                          (l\<lparr> ol_lines := ol_lines l @ ls, ol_nopcodes := ol_nopcodes l + 1,
                              ol_nsymbols := ol_nsymbols l +
                                (if opcode_of b = Some BIND_OPCODE_SET_SYMBOL_TRAILING_FLAGS_IMM then 1 else 0) \<rparr>)))))"

definition macho_print_opcodes :: "macho_all_info \<Rightarrow> op_kind \<Rightarrow> op_listing res option" where
  "macho_print_opcodes info which =
     (case op_range info (kind_field which) of
        Inl e \<Rightarrow> Some (Inl e)
      | Inr (op_start, op_end) \<Rightarrow>
          print_loop info op_start op_end op_start \<lparr> ol_lines = [], ol_nopcodes = 0, ol_nsymbols = 0 \<rparr>)"

section \<open>The options\<close>

text \<open>
  The arguments of the tool without its name: the options that were given, and the file, or the status
  it exits with. The last name that is no option is the file.
\<close>

record parse_options =
  po_bind :: bool
  po_weak :: bool
  po_lazy :: bool
  po_chains :: bool
  po_file :: "string option"

fun parse_args :: "string list \<Rightarrow> parse_options \<Rightarrow> parse_options res" where
  "parse_args [] o1 = Inr o1"
| "parse_args (a # as) o1 =
     (if a = ''--bind'' then parse_args as (o1\<lparr> po_bind := True \<rparr>)
      else if a = ''--weak-bind'' then parse_args as (o1\<lparr> po_weak := True \<rparr>)
      else if a = ''--lazy-bind'' then parse_args as (o1\<lparr> po_lazy := True \<rparr>)
      else if a = ''--fixup-chains'' then parse_args as (o1\<lparr> po_chains := True \<rparr>)
      else if take 2 a = ''--'' then Inl (Exited (- 1))
      else parse_args as (o1\<lparr> po_file := Some a \<rparr>))"

definition checked_options :: "string list \<Rightarrow> parse_options res" where
  "checked_options args =
     (if args = [] then Inl (Exited 0)
      else res_bind (parse_args args \<lparr> po_bind = False, po_weak = False, po_lazy = False, po_chains = False, po_file = None \<rparr>) (\<lambda>o1.
        if po_file o1 = None then Inl (Exited (- 1))
        else if \<not> (po_bind o1 \<or> po_weak o1 \<or> po_lazy o1 \<or> po_chains o1) then Inl (Exited (- 1))
        else Inr o1))"

text \<open>The executable in a mapped file: the header and the command with the streams, or none.\<close>

definition macho_locate :: "bytes \<Rightarrow> macho_all_info option res" where
  "macho_locate img =
     res_bind (rd32 img 0) (\<lambda>magic.
     res_bind (if HEADER_IS_FAT magic then macho_thin_from_fat img 0 CPU_TYPE_ARM64 else Inr (Some 0)) (\<lambda>found.
       case found of
         None \<Rightarrow> Inr None
       | Some mh \<Rightarrow>
           res_bind (macho_find_load_command img mh LC_DYLD_INFO_ONLY) (\<lambda>cmd.
             case cmd of None \<Rightarrow> Inr None | Some c \<Rightarrow> Inr (Some \<lparr> mi_img = img, mi_mh = mh, mi_cmd = c \<rparr>))))"

end
