(* ===== verification/Macho_Props.thy ===== *)
theory Macho_Props
  imports Macho_Parse
begin

text \<open>
  What the reader of executables does on any file: it ends, and a chain is collected entry by entry.
\<close>

section \<open>Numbers of the stream\<close>

lemma decode_uleb128_shorter: "decode_uleb128_loop r k p = Inr (v, rest) \<Longrightarrow> length rest < length p"
  by (induction r k p arbitrary: v rest rule: decode_uleb128_loop.induct)
    (auto simp: Let_def less_Suc_eq_le split: if_splits dest: less_imp_le)

lemma decode_sleb128_shorter: "decode_sleb128_loop r k p = Inr (v, n, b, rest) \<Longrightarrow> length rest < length p"
  by (induction r k p arbitrary: v n b rest rule: decode_sleb128_loop.induct)
    (auto simp: Let_def less_Suc_eq_le split: if_splits dest: less_imp_le)

lemma uleb_at_moves: "uleb_at img itr = Inr (v, itr') \<Longrightarrow> itr < itr'"
  using decode_uleb128_shorter by (fastforce simp: uleb_at_def decode_uleb128_def)

lemma sleb_at_moves: "sleb_at img itr = Inr (v, itr') \<Longrightarrow> itr < itr'"
  using decode_sleb128_shorter by (fastforce simp: sleb_at_def decode_sleb128_def sleb128_extend_def)

lemma string_end_moves: "string_end img itr = Inr itr' \<Longrightarrow> itr < itr'"
  by (auto simp: string_end_def)

section \<open>Searches among load commands\<close>

text \<open>The load commands have the given sizes and fill the space that the header says.\<close>

fun commands_sized :: "bytes \<Rightarrow> nat \<Rightarrow> nat \<Rightarrow> nat \<Rightarrow> u32 list \<Rightarrow> bool" where
  "commands_sized img lc_start tot offset [] \<longleftrightarrow> tot \<le> offset"
| "commands_sized img lc_start tot offset (sz # szs) \<longleftrightarrow>
     rd32 img (lc_start + offset + 4) = Inr sz \<and> commands_sized img lc_start tot (offset + unat sz) szs"

lemma find_indexed_ends:
  assumes "commands_sized img lc_start tot offset szs"
  shows "\<exists>r. find_indexed ok img lc_start tot offset idx i = Some r"
  using assms
proof (induction szs arbitrary: offset idx)
  case (Cons sz szs)
  have "\<exists>r. find_indexed ok img lc_start tot (offset + unat sz) idx' i = Some r" for idx'
    using Cons by simp
  then show ?case
    using Cons.prems by (cases "rd32 img (lc_start + offset)") (auto simp: find_indexed.simps [of _ _ _ _ offset])
qed (simp add: find_indexed.simps)

definition sound_commands :: "bytes \<Rightarrow> nat \<Rightarrow> bool" where
  "sound_commands img mh \<longleftrightarrow>
     (\<forall>lc_start tot. commands_start img mh = Inr lc_start \<longrightarrow> rd32 img (mh + 20) = Inr tot \<longrightarrow>
       (\<exists>szs. commands_sized img lc_start (unat tot) 0 szs))"

lemma indexed_command_ends:
  assumes "sound_commands img mh"
  shows "\<exists>r. indexed_command ok img mh first i = Some r"
  using assms find_indexed_ends
  by (fastforce simp: indexed_command_def sound_commands_def res_bind_def split: sum.splits)

lemma macho_dylib_name_ends: "sound_commands img mh \<Longrightarrow> \<exists>r. macho_dylib_name img mh ordinal special = Some r"
  using indexed_command_ends [of img mh is_dylib 1 "sint ordinal"]
  by (auto simp: macho_dylib_name_def split: sum.splits option.splits)

lemma macho_segment_name_ends: "sound_commands img mh \<Longrightarrow> \<exists>r. macho_segment_name img mh seg_index = Some r"
  using indexed_command_ends [of img mh is_segment 0 "uint seg_index"]
  by (auto simp: macho_segment_name_def split: sum.splits option.splits)

text \<open>A command whose size is zero is read for ever, if it is not the one that is looked for.\<close>

lemma find_indexed_stuck:
  assumes "offset < tot" and "rd32 img (lc_start + offset + 4) = Inr 0" and "rd32 img (lc_start + offset) = Inr c" and "\<not> ok c"
  shows "find_indexed ok img lc_start tot offset idx i = None"
proof -
  have "\<not> (ok' = ok \<and> img' = img \<and> lc = lc_start \<and> tot' = tot \<and> off = offset)"
    if "find_indexed ok' img' lc tot' off idx i = Some r" for ok' img' lc tot' off idx i r
    by (rule find_indexed.raw_induct [OF _ that, where P = "\<lambda>ok' img' lc tot' off idx i r.
        \<not> (ok' = ok \<and> img' = img \<and> lc = lc_start \<and> tot' = tot \<and> off = offset)"])
      (use assms in \<open>fastforce split: if_splits\<close>)
  from this [of ok img lc_start tot offset idx i] show ?thesis
    by (cases "find_indexed ok img lc_start tot offset idx i") blast+
qed

section \<open>Every file is read to an end\<close>

lemma rd64_inside: "rd64 img off = Inr v \<Longrightarrow> off + 8 \<le> length img"
  by (simp add: rd64_def split: if_splits)

lemma rd8_inside: "rd8 img off = Inr v \<Longrightarrow> off < length img"
  by (simp add: rd8_def split: if_splits)

lemma unat_next:
  fixes v offset :: u64
  assumes "unat offset < 2 ^ 63"
  shows "unat (offset + (drop_bit 51 v AND 0x7FF) * 8) = unat offset + 8 * unat (drop_bit 51 v AND 0x7FF)"
proof -
  have "drop_bit 51 v AND 0x7FF \<le> 0x7FF"
    by (rule word_and_le1)
  then have n: "unat (drop_bit 51 v AND 0x7FF) \<le> 0x7FF"
    by (simp add: word_le_nat_alt)
  then have "unat ((drop_bit 51 v AND 0x7FF) * 8) = 8 * unat (drop_bit 51 v AND 0x7FF)"
    by (simp add: unat_word_ariths)
  then show ?thesis
    using n assms by (simp add: unat_word_ariths)
qed

lemma walk_loop_ends:
  assumes "length (mi_img info) < 2 ^ 63"
  shows "\<exists>r. walk_loop alloc info seg_index ordinals n offset chain cap = Some r"
proof (induction "length (mi_img info) - (mi_mh info + unat offset)" arbitrary: offset chain cap rule: less_induct)
  case less
  show ?case
  proof (cases "rd64 (mi_img info) (mi_mh info + unat offset)")
    case (Inl e)
    then show ?thesis by (simp add: walk_loop.simps [of _ _ _ _ _ offset] Let_def)
  next
    case (Inr v)
    define nxt where "nxt = drop_bit 51 v AND 0x7FF"
    have inside: "mi_mh info + unat offset + 8 \<le> length (mi_img info)"
      using rd64_inside [OF Inr] by simp
    have next_ends: "\<exists>r. walk_loop alloc info seg_index ordinals n (offset + nxt * 8) chain' cap' = Some r" if "nxt \<noteq> 0" for chain' cap'
    proof (rule less)
      have "unat nxt \<noteq> 0"
        using that by (simp add: unat_eq_0)
      moreover have "unat (offset + nxt * 8) = unat offset + 8 * unat nxt"
        unfolding nxt_def by (rule unat_next) (use inside assms in simp)
      ultimately show "length (mi_img info) - (mi_mh info + unat (offset + nxt * 8)) < length (mi_img info) - (mi_mh info + unat offset)"
        using inside by simp
    qed
    show ?thesis
      using next_ends Inr
      by (simp add: walk_loop.simps [of _ _ _ _ _ offset] Let_def nxt_def [symmetric])
  qed
qed

lemma macho_walk_ends:
  assumes "length (mi_img info) < 2 ^ 63" and "sound_commands (mi_img info) (mi_mh info)"
  shows "\<exists>r. macho_walk_fixup_chain alloc info seg_index seg_offset ordinals n chain cap = Some r"
  using indexed_command_ends [OF assms(2), of is_segment 0 "uint seg_index"] walk_loop_ends [OF assms(1)]
  by (auto simp: macho_walk_fixup_chain_def macho_find_segment_def split: sum.splits option.splits)

lemma bind_step_ends:
  assumes "length (mi_img info) < 2 ^ 63" and "sound_commands (mi_img info) (mi_mh info)"
  shows "\<exists>r. bind_step alloc info b itr st = Some r"
  using macho_walk_ends [OF assms, of alloc "bs_seg_index st" "bs_seg_offset st" "bs_table st" "bs_idx st" "bs_chain st" "bs_cap st"]
  by (auto simp: bind_step_def Let_def split: option.splits sum.splits bind_opcode.splits)

lemma bind_step_moves:
  assumes "bind_step alloc info b itr st = Some (Inr (Some (st', itr')))"
  shows "itr \<le> itr'"
  using assms
  by (auto simp: bind_step_def Let_def do_bind_def split: option.splits sum.splits bind_opcode.splits if_splits prod.splits
      dest!: uleb_at_moves sleb_at_moves string_end_moves)

lemma bind_loop_ends:
  assumes "length (mi_img info) < 2 ^ 63" and "sound_commands (mi_img info) (mi_mh info)"
  shows "\<exists>r. bind_loop alloc info op_end itr st = Some r"
proof (induction "length (mi_img info) - itr" arbitrary: itr st rule: less_induct)
  case less
  show ?case
  proof (cases "itr = op_end \<or> (\<exists>e. rd8 (mi_img info) itr = Inl e)")
    case True
    then show ?thesis by (auto simp: bind_loop.simps [of _ _ _ itr])
  next
    case False
    then obtain b where b: "rd8 (mi_img info) itr = Inr b" "itr \<noteq> op_end"
      by (cases "rd8 (mi_img info) itr") auto
    obtain r where r: "bind_step alloc info b (itr + 1) st = Some r"
      using bind_step_ends [OF assms] by blast
    have "\<exists>r'. bind_loop alloc info op_end itr' st' = Some r'" if "r = Inr (Some (st', itr'))" for st' itr'
      using that bind_step_moves r rd8_inside [OF b(1)] by (intro less) fastforce
    then show ?thesis
      using b r by (auto simp: bind_loop.simps [of _ _ _ itr] split: sum.splits option.splits prod.splits)
  qed
qed

lemma print_fixups_ends:
  assumes "sound_commands (mi_img info) (mi_mh info)"
  shows "\<exists>r. print_fixups info fs = Some r"
proof -
  have one: "\<exists>r. macho_print_fixup info f = Some r" for f
    using macho_segment_name_ends [OF assms, of "fx_seg_index f"] macho_dylib_name_ends [OF assms, of "fx_lib_ordinal f" "fx_special f"]
    by (auto simp: macho_print_fixup_def fixup_names_def Let_def split: sum.splits)
  show ?thesis
  proof (induction fs)
    case (Cons f fs)
    obtain r where "macho_print_fixup info f = Some r" using one by blast
    then show ?case using Cons by (cases r) auto
  qed simp
qed

lemma print_step_ends:
  assumes "sound_commands (mi_img info) (mi_mh info)"
  shows "\<exists>r. print_step info off b itr = Some r"
proof -
  have "\<exists>r. dylib_line info off op ordinal special itr = Some r" for op ordinal special itr
    using macho_dylib_name_ends [OF assms, of ordinal special] by (auto simp: dylib_line_def)
  then show ?thesis
    using macho_segment_name_ends [OF assms]
    by (auto simp: print_step_def Let_def split: option.splits sum.splits bind_opcode.splits)
qed

lemma print_step_moves:
  assumes "print_step info off b itr = Some (Inr (ls, itr'))"
  shows "itr \<le> itr'"
  using assms
  by (auto simp: print_step_def dylib_line_def macho_print_threaded_opcode_def Let_def
      split: option.splits sum.splits bind_opcode.splits if_splits prod.splits dest!: uleb_at_moves sleb_at_moves string_end_moves)

lemma print_loop_ends:
  assumes "sound_commands (mi_img info) (mi_mh info)"
  shows "\<exists>r. print_loop info op_start op_end itr l = Some r"
proof (induction "length (mi_img info) - itr" arbitrary: itr l rule: less_induct)
  case less
  show ?case
  proof (cases "\<not> itr < op_end \<or> (\<exists>e. rd8 (mi_img info) itr = Inl e)")
    case True
    then show ?thesis by (auto simp: print_loop.simps [of _ _ _ itr])
  next
    case False
    then obtain b where b: "rd8 (mi_img info) itr = Inr b" "itr < op_end"
      by (cases "rd8 (mi_img info) itr") auto
    obtain r where r: "print_step info (itr - op_start) b (itr + 1) = Some r"
      using print_step_ends [OF assms] by blast
    have "\<exists>r'. print_loop info op_start op_end itr' l' = Some r'" if "r = Inr (ls, itr')" for ls itr' l'
      using that print_step_moves r rd8_inside [OF b(1)] by (intro less) fastforce
    then show ?thesis
      using b r by (auto simp: print_loop.simps [of _ _ _ itr] split: sum.splits option.splits prod.splits)
  qed
qed

section \<open>Properties\<close>

text \<open>
  C20: the tool always ends. For any file, whatever its opcodes, operands and chained pointers are, the
  fixup chains are followed and printed, or the tool stops, and each of the three streams of opcodes is
  listed: every opcode takes the position forward, and every link of a chain the offset. All that is asked
  is that the load commands fill the space the header gives them; a command of size zero is read for ever.
\<close>

theorem reading_executables_ends:
  assumes "length (mi_img info) < 2 ^ 63" and "sound_commands (mi_img info) (mi_mh info)"
  shows "(\<exists>r. macho_parse_fixup_chains alloc info = Some r) \<and> (\<exists>r. macho_print_opcodes info which = Some r)"
proof
  have loop: "bind_loop alloc info op_end op_start st \<noteq> None" for op_end op_start st
    using bind_loop_ends [OF assms] by (metis option.distinct(1))
  have prints: "print_fixups info fs \<noteq> None" for fs
    using print_fixups_ends [OF assms(2)] by (metis option.distinct(1))
  have "macho_parse_fixup_chains alloc info \<noteq> None"
    using loop prints by (auto simp: macho_parse_fixup_chains_def simp del: not_None_eq split: sum.splits option.splits prod.splits)
  then show "\<exists>r. macho_parse_fixup_chains alloc info = Some r"
    by blast
  show "\<exists>r. macho_print_opcodes info which = Some r"
    using print_loop_ends [OF assms(2)] by (auto simp: macho_print_opcodes_def split: sum.splits)
qed


subsection \<open>A chain\<close>

text \<open>
  The pointers of a chain: each is at the offset the link of the one before leads to, and the last has no
  link.
\<close>

definition link :: "u64 \<Rightarrow> u64" where "link v = drop_bit 51 v AND 0x7FF"

fun linked :: "macho_all_info \<Rightarrow> u64 \<Rightarrow> u64 list \<Rightarrow> bool" where
  "linked info off [] \<longleftrightarrow> False"
| "linked info off (v # vs) \<longleftrightarrow> rd64 (mi_img info) (mi_mh info + unat off) = Inr v \<and>
     (if vs = [] then link v = 0 else link v \<noteq> 0 \<and> linked info (off + link v * 8) vs)"

text \<open>What is to be recorded for a chain: every pointer with its place, and for a bind what the table has for its ordinal.\<close>

fun chain_entries :: "macho_all_info \<Rightarrow> u32 \<Rightarrow> fixup_entry list \<Rightarrow> u64 \<Rightarrow> u64 list \<Rightarrow> fixup_entry list" where
  "chain_entries info seg table off [] = []"
| "chain_entries info seg table off (v # vs) =
     (if bit v 62 then table ! unat (v AND 0xFFFF) else no_fixup)\<lparr> fx_addr := mi_mh info + unat off, fx_seg_index := seg \<rparr>
     # chain_entries info seg table (off + link v * 8) vs"

text \<open>
  C21: a chain is recorded as it is in the file, entry by entry and in its order, behind what was recorded
  before; every bind has the symbol, library, addend, type and flags that the opcodes gave its ordinal, and
  the array is never filled beyond its capacity, however often it has to grow. An ordinal that no opcode
  has set makes the walk fail.
\<close>

theorem walk_collects_chain:
  assumes "linked info off vs" and "length chain \<le> cap" and "0 < cap"
  shows "if \<exists>v \<in> set vs. bit v 62 \<and> n \<le> unat (v AND 0xFFFF)
    then walk_loop (\<lambda>_. True) info seg table n off chain cap = Some (Inr None)
    else \<exists>cap'. walk_loop (\<lambda>_. True) info seg table n off chain cap =
        Some (Inr (Some (chain @ chain_entries info seg table off vs, cap'))) \<and>
      length chain + length vs \<le> cap'"
  using assms
proof (induction vs arbitrary: off chain cap)
  case (Cons v vs)
  define cap1 where "cap1 = (if length chain = cap then cap * 2 else cap)"
  define e where "e = (if bit v 62 then table ! unat (v AND 0xFFFF) else no_fixup)\<lparr> fx_addr := mi_mh info + unat off, fx_seg_index := seg \<rparr>"
  have v: "rd64 (mi_img info) (mi_mh info + unat off) = Inr v"
    using Cons.prems(1) by simp
  have cap1: "length (chain @ [e]) \<le> cap1" "0 < cap1"
    using Cons.prems(2,3) by (auto simp: cap1_def)
  have step: "walk_loop (\<lambda>_. True) info seg table n off chain cap =
    (if bit v 62 \<and> n \<le> unat (v AND 0xFFFF) then Some (Inr None)
     else if link v = 0 then Some (Inr (Some (chain @ [e], cap1)))
     else walk_loop (\<lambda>_. True) info seg table n (off + link v * 8) (chain @ [e]) cap1)"
    by (subst walk_loop.simps) (simp add: v Let_def link_def e_def cap1_def)
  have entries: "chain_entries info seg table off (v # vs) = e # chain_entries info seg table (off + link v * 8) vs"
    by (simp add: e_def)
  show ?case
  proof (cases "vs = []")
    case True
    have "chain_entries info seg table off [v] = [e]"
      using entries unfolding True by (simp del: chain_entries.simps(2))
    with True show ?thesis
      using Cons.prems(1) cap1 step by (simp del: chain_entries.simps(2))
  next
    case False
    then have "linked info (off + link v * 8) vs" "link v \<noteq> 0"
      using Cons.prems(1) by simp_all
    then show ?thesis
      using Cons.IH [of "off + link v * 8" "chain @ [e]" cap1] cap1 step
      by (cases "bit v 62 \<and> n \<le> unat (v AND 0xFFFF)") (auto simp: entries simp del: chain_entries.simps(2) split: if_splits)
  qed
qed simp

text \<open>
  The three special libraries are not told apart: of the immediates that stand for special libraries
  only zero is recognised. The sign bits are set after the cast, so the ordinal becomes 256 minus the one
  meant, and no name is found.
\<close>

theorem special_libraries_have_no_name:
  assumes "imm < 16"
  shows "macho_dylib_name img mh (special_ordinal imm) True = Some (Inr (if imm = 0 then Some Dylib_Self else None))"
proof -
  have "unat imm < 16"
    using assms by (simp add: word_less_nat_alt)
  then have "unat imm \<in> {0, 1, 2, 3, 4, 5, 6, 7, 8, 9, 10, 11, 12, 13, 14, 15}"
    by (simp only: insert_iff empty_iff simp_thms) presburger
  then have "imm \<in> word_of_nat ` {0, 1, 2, 3, 4, 5, 6, 7, 8, 9, 10, 11, 12, 13, 14, 15}"
    by (rule image_eqI [rotated]) simp
  then have "imm \<in> {0, 1, 2, 3, 4, 5, 6, 7, 8, 9, 10, 11, 12, 13, 14, 15}"
    by simp
  then show ?thesis
    by (auto simp: macho_dylib_name_def special_ordinal_def BIND_OPCODE_MASK_def)
qed

section \<open>Instances\<close>

text \<open>
  An executable with one load command, the streams' command, and a stream that sets the size of the table,
  a library, a symbol, and binds it.
\<close>

definition small_executable :: bytes where
  "small_executable =
    [207, 250, 237, 254, 12, 0, 0, 1, 2, 0, 0, 0, 2, 0, 0, 0,
     1, 0, 0, 0, 48, 0, 0, 0, 0, 0, 0, 0, 0, 0, 0, 0,
     34, 0, 0, 128, 48, 0, 0, 0, 0, 0, 0, 0, 0, 0, 0, 0,
     80, 0, 0, 0, 8, 0, 0, 0, 0, 0, 0, 0, 0, 0, 0, 0,
     0, 0, 0, 0, 0, 0, 0, 0, 0, 0, 0, 0, 0, 0, 0, 0,
     208, 1, 17, 64, 97, 0, 144, 0]"

definition small_info :: macho_all_info where
  "small_info = \<lparr> mi_img = small_executable, mi_mh = 0, mi_cmd = 32 \<rparr>"

lemmas small_eval = small_executable_def commands_start_def rd32_def word_le_def HEADER_IS_64BIT_def MH_MAGIC_64_def MH_CIGAM_64_def
  FAT_MAGIC_64_def FAT_CIGAM_64_def

lemma small_executable_commands: "sound_commands small_executable 0"
proof -
  have "commands_start small_executable 0 = Inr 32" "rd32 small_executable 20 = Inr 48"
      "commands_sized small_executable 32 48 0 [48]"
    by (simp_all add: small_eval)
  then show ?thesis
    unfolding sound_commands_def by (auto intro!: exI [of _ "[48]"])
qed

theorem reading_executables_ends_witness:
  "macho_locate small_executable = Inr (Some small_info) \<and>
   (\<exists>r. macho_parse_fixup_chains (\<lambda>_. True) small_info = Some r) \<and> (\<exists>r. macho_print_opcodes small_info OPT_BIND_INFO = Some r)"
proof -
  have "macho_locate small_executable = Inr (Some small_info)"
    by (simp add: macho_locate_def macho_find_load_command_def rd32_order_def NEEDS_BSWAP_def HEADER_IS_FAT_def FAT_MAGIC_def
        FAT_CIGAM_def MH_CIGAM_def LC_DYLD_INFO_ONLY_def small_info_def small_eval)
  moreover have "length (mi_img small_info) < 2 ^ 63"
    by (simp add: small_info_def small_executable_def)
  moreover have "sound_commands (mi_img small_info) (mi_mh small_info)"
    using small_executable_commands by (simp add: small_info_def)
  ultimately show ?thesis
    using reading_executables_ends [of small_info "\<lambda>_. True" OPT_BIND_INFO] by blast
qed

text \<open>Two pointers, eight bytes apart: a rebase, and a bind of the first ordinal.\<close>

definition two_pointers :: macho_all_info where
  "two_pointers = \<lparr> mi_img = [0, 0, 0, 0, 0, 0, 8, 0, 0, 0, 0, 0, 0, 0, 0, 64], mi_mh = 0, mi_cmd = 0 \<rparr>"

theorem walk_collects_chain_witness:
  "\<exists>cap'. walk_loop (\<lambda>_. True) two_pointers 2 [no_fixup\<lparr> fx_symbol := Some 77 \<rparr>] 1 0 [] 1 =
     Some (Inr (Some ([no_fixup\<lparr> fx_seg_index := 2 \<rparr>,
       no_fixup\<lparr> fx_symbol := Some 77, fx_addr := 8, fx_seg_index := 2 \<rparr>], cap'))) \<and> 2 \<le> cap'"
proof -
  have bit62: "\<not> bit (0x0008000000000000 :: u64) 62" "bit (0x4000000000000000 :: u64) 62"
    by simp_all
  have link: "link 0x0008000000000000 = 1" "link 0x4000000000000000 = 0"
    by (simp_all add: link_def drop_bit_eq_div)
  have chain: "linked two_pointers 0 [0x0008000000000000, 0x4000000000000000]"
    by (simp add: link two_pointers_def rd64_def word_le_def)
  have entries: "chain_entries two_pointers 2 [no_fixup\<lparr> fx_symbol := Some 77 \<rparr>] 0 [0x0008000000000000, 0x4000000000000000] =
      [no_fixup\<lparr> fx_seg_index := 2 \<rparr>, no_fixup\<lparr> fx_symbol := Some 77, fx_addr := 8, fx_seg_index := 2 \<rparr>]"
    using bit62 by (simp add: link no_fixup_def two_pointers_def)
  show ?thesis
    using walk_collects_chain [OF chain, of "[]" 1 1 2 "[no_fixup\<lparr> fx_symbol := Some 77 \<rparr>]"] bit62 entries by (simp add: numeral_2_eq_2)
qed

text \<open>The immediate for a flat lookup.\<close>

theorem special_libraries_have_no_name_witness:
  "macho_dylib_name [] 0 (special_ordinal 14) True = Some (Inr None) \<and>
   macho_dylib_name [] 0 (- 2) True = Some (Inr (Some Dylib_Flat_Lookup))"
  using special_libraries_have_no_name [of 14 "[]" 0] by (simp add: macho_dylib_name_def)

end
