(* ===== verification/Restart.thy ===== *)
theory Restart
  imports Prog Ckptfile
begin

text \<open>
  \<^verbatim>\<open>xnd_restart.cpp\<close> and the classes of \<^verbatim>\<open>xnd_restart.h\<close>: the processes of a
  checkpoint are created again. One process runs for every target; it creates its children, or the members
  of its session and group, by \<^verbatim>\<open>fork\<close> and at last becomes the restart program of its own
  checkpoint. Children run at the same time as their parents, and all they have in common is the supply
  of pids, so that a child is run to its end where it is forked.
\<close>

section \<open>Targets\<close>

text \<open>Two targets are the same object exactly if they are equal: the ids of a manifest are distinct.\<close>

record xnd_restart_target =
  t_header :: xnd_ckpt_header
  t_ckptpath :: string
  t_xnd_pid :: u32

type_synonym target = xnd_restart_target

definition target_pid :: "target \<Rightarrow> u32" where "target_pid t = h_pid (t_header t)"
definition target_ppid :: "target \<Rightarrow> u32" where "target_ppid t = h_ppid (t_header t)"
definition target_sid :: "target \<Rightarrow> u32" where "target_sid t = h_sid (t_header t)"
definition target_pgid :: "target \<Rightarrow> u32" where "target_pgid t = h_pgid (t_header t)"
definition target_xnd_ppid :: "target \<Rightarrow> u32" where "target_xnd_ppid t = h_xnd_ppid (t_header t)"

definition was_orphan :: "target \<Rightarrow> bool" where "was_orphan t \<longleftrightarrow> target_ppid t = 1"
definition was_not_orphan :: "target \<Rightarrow> bool" where "was_not_orphan t \<longleftrightarrow> \<not> was_orphan t"
definition was_root_of_tree :: "target \<Rightarrow> bool" where "was_root_of_tree t \<longleftrightarrow> h_is_root_of_tree (t_header t) \<noteq> 0"
definition was_group_leader :: "target \<Rightarrow> bool" where "was_group_leader t \<longleftrightarrow> target_pid t = target_pgid t"
definition was_group_leader_of :: "target \<Rightarrow> target \<Rightarrow> bool" where "was_group_leader_of t u \<longleftrightarrow> target_pid t = target_pgid u"
definition was_session_leader :: "target \<Rightarrow> bool" where "was_session_leader t \<longleftrightarrow> target_pid t = target_sid t"
definition was_session_leader_of :: "target \<Rightarrow> target \<Rightarrow> bool" where "was_session_leader_of t u \<longleftrightarrow> target_pid t = target_sid u"
definition was_child_of :: "target \<Rightarrow> target \<Rightarrow> bool" where "was_child_of t u \<longleftrightarrow> target_xnd_ppid t = t_xnd_pid u"
definition was_parent_of :: "target \<Rightarrow> target \<Rightarrow> bool" where "was_parent_of t u \<longleftrightarrow> t_xnd_pid t = target_xnd_ppid u"

definition children_of :: "target list \<Rightarrow> target \<Rightarrow> target list" where
  "children_of targets t = filter (\<lambda>c. t \<noteq> c \<and> was_child_of c t) targets"

definition has_children :: "target list \<Rightarrow> target \<Rightarrow> bool" where
  "has_children targets t \<longleftrightarrow> children_of targets t \<noteq> []"

definition indegree_of :: "target list \<Rightarrow> target \<Rightarrow> nat" where
  "indegree_of targets t = (\<Sum>p\<leftarrow>targets. count_list (children_of targets p) t)"

section \<open>Processes\<close>

text \<open>
  A process of the restart: its pid, that of its parent, its session and its group. A started
  process is one that became the restart program, with the arguments it has.
\<close>

record rproc =
  rp_pid :: pid_t
  rp_ppid :: pid_t
  rp_sid :: pid_t
  rp_pgid :: pid_t

record started =
  st_target :: target
  st_proc :: rproc
  st_argv :: "string list"

record rsys =
  rs_next :: pid_t
  rs_started :: "started list"

text \<open>
  The calls that may fail, and the globals: whether a \<^verbatim>\<open>fork\<close> that would answer the given pid
  succeeds, what setting the flags and spawning the restart program answer.
\<close>

record restart_env =
  re_fork :: "pid_t \<Rightarrow> bool"
  re_setflags :: "target \<Rightarrow> int"
  re_spawn :: "target \<Rightarrow> int"
  re_restart :: string
  re_pause :: bool
  re_targets :: "target list"

definition XND_EXIT_FAILURE :: int where "XND_EXIT_FAILURE = 222"

definition fork :: "restart_env \<Rightarrow> (rsys, pid_t option) prog" where
  "fork env =
     bnd (gets rs_next) (\<lambda>pid.
       if re_fork env pid then sq (modify (\<lambda>s. s\<lparr> rs_next := pid + 1 \<rparr>)) (ret (Some pid)) else ret None)"

text \<open>A process that runs on its own: nothing but the state of the system is left of it.\<close>

definition spawned :: "(rsys, unit) prog \<Rightarrow> (rsys, unit) prog" where
  "spawned m = (\<lambda>s. map_option (\<lambda>(r, s'). (Inr (), s')) (m s))"

definition setsid :: "rproc \<Rightarrow> rproc" where
  "setsid p = (if rp_pid p = rp_pgid p then p else p\<lparr> rp_sid := rp_pid p, rp_pgid := rp_pid p \<rparr>)"

definition setpgid0 :: "rproc \<Rightarrow> rproc" where
  "setpgid0 p = (if rp_pid p = rp_sid p then p else p\<lparr> rp_pgid := rp_pid p \<rparr>)"

text \<open>Becoming the restart program. It does not return; the failures exit.\<close>

definition exec_restart :: "restart_env \<Rightarrow> target \<Rightarrow> rproc \<Rightarrow> (rsys, unit) prog" where
  "exec_restart env t p =
     (if re_setflags env t \<noteq> 0 \<or> re_spawn env t \<noteq> 0 then halt (Exited XND_EXIT_FAILURE)
      else modify (\<lambda>s. s\<lparr> rs_started := rs_started s @
        [\<lparr> st_target = t, st_proc = p, st_argv = [re_restart env, t_ckptpath t] @ (if re_pause env then [''--pause''] else []) \<rparr>] \<rparr>))"

section \<open>Creating processes\<close>

text \<open>\<open>create\<close> is \<^verbatim>\<open>create_process\<close>: the target, whether the roots are created too, and the process that runs it.\<close>

definition create_child :: "(target \<Rightarrow> bool \<Rightarrow> rproc \<Rightarrow> (rsys, unit) prog) \<Rightarrow> restart_env \<Rightarrow> rproc \<Rightarrow> target \<Rightarrow> (rsys, unit) prog" where
  "create_child create env p t =
     bnd (fork env) (\<lambda>child.
       case child of
         None \<Rightarrow> halt (Exited XND_EXIT_FAILURE)
       | Some pid \<Rightarrow> spawned (create t False (p\<lparr> rp_pid := pid, rp_ppid := rp_pid p \<rparr>)))"

text \<open>The process between exits, and pid 1 becomes the parent.\<close>

definition create_orphan ::
  "(target \<Rightarrow> bool \<Rightarrow> rproc \<Rightarrow> (rsys, unit) prog) \<Rightarrow> restart_env \<Rightarrow> rproc \<Rightarrow> bool \<Rightarrow> target \<Rightarrow> (rsys, unit) prog" where
  "create_orphan create env p create_roots t =
     bnd (fork env) (\<lambda>child.
       case child of
         None \<Rightarrow> halt (Exited XND_EXIT_FAILURE)
       | Some mid \<Rightarrow>
           spawned (bnd (fork env) (\<lambda>grandchild.
             case grandchild of
               None \<Rightarrow> halt (Exited XND_EXIT_FAILURE)
             | Some pid \<Rightarrow> sq (spawned (create t create_roots (p\<lparr> rp_pid := pid, rp_ppid := 1 \<rparr>))) (halt (Exited 0)))))"

definition become_leader :: "target \<Rightarrow> rproc \<Rightarrow> (rsys, rproc) prog" where
  "become_leader t p =
     (if was_session_leader t then
        if rp_pid p \<noteq> rp_sid p then sq (assert_p (rp_pid p \<noteq> rp_pgid p)) (ret (setsid p)) else ret p
      else if was_group_leader t then
        if rp_pid p \<noteq> rp_pgid p then ret (setpgid0 p) else ret p
      else ret p)"

definition led_by :: "target \<Rightarrow> target \<Rightarrow> bool" where
  "led_by t u \<longleftrightarrow> was_session_leader_of t u \<or> was_group_leader_of t u"

definition create_member ::
  "(target \<Rightarrow> bool \<Rightarrow> rproc \<Rightarrow> (rsys, unit) prog) \<Rightarrow> restart_env \<Rightarrow> target \<Rightarrow> rproc \<Rightarrow> target \<Rightarrow> (rsys, unit) prog" where
  "create_member create env t p u =
     (if u = t then ret ()
      else if was_session_leader_of t u then
        if was_parent_of t u then create_child create env p u
        else if was_root_of_tree u then create_orphan create env p False u
        else ret ()
      else if was_group_leader_of t u then
        if was_parent_of t u then create_child create env p u
        else if was_root_of_tree u then create_orphan create env p False u
        else ret ()
      else ret ())"

text \<open>\<open>roots\<close> are the independent roots; the number bounds how deep processes are nested.\<close>

primrec create_process :: "nat \<Rightarrow> restart_env \<Rightarrow> target list \<Rightarrow> target \<Rightarrow> bool \<Rightarrow> rproc \<Rightarrow> (rsys, unit) prog" where
  "create_process 0 env roots t create_roots p = (\<lambda>s. None)"
| "create_process (Suc n) env roots t create_roots p =
     sq (if create_roots
         then each (\<lambda>ir. if ir \<noteq> t then create_orphan (create_process n env roots) env p False ir else ret ()) roots
         else ret ())
    (sq (each (\<lambda>c. sq (assert_p (c \<noteq> t))
                      (if was_session_leader_of t c then ret ()
                       else if was_group_leader_of t c then ret ()
                       else create_child (create_process n env roots) env p c)) (children_of (re_targets env) t))
    (bnd (become_leader t p) (\<lambda>p'.
     sq (each (create_member (create_process n env roots) env t p') (re_targets env))
        (exec_restart env t p'))))"

fun independent_roots :: "target list \<Rightarrow> target list \<Rightarrow> target list res" where
  "independent_roots targets [] = Inr []"
| "independent_roots targets (t # ts) =
     (if indegree_of targets t \<noteq> 0
      then xnd_assert (\<not> was_root_of_tree t) (independent_roots targets ts)
      else xnd_assert (was_root_of_tree t)
        (if \<exists>s \<in> set targets. s \<noteq> t \<and> was_session_leader_of s t then independent_roots targets ts
         else res_bind (independent_roots targets ts) (\<lambda>rs. Inr (t # rs))))"

text \<open>
  The process that creates all others. It becomes the first root that was no orphan; if there is none it
  comes to the end of a function that does not return.
\<close>

definition process_targets :: "nat \<Rightarrow> restart_env \<Rightarrow> rproc \<Rightarrow> (rsys, unit) prog" where
  "process_targets n env p =
     bnd (lift_res (independent_roots (re_targets env) (re_targets env))) (\<lambda>roots.
     sq (assert_p (roots \<noteq> []))
       (case find was_not_orphan roots of
          Some ir \<Rightarrow> create_process n env roots ir True p
        | None \<Rightarrow> sq (create_orphan (create_process n env roots) env p True (hd roots)) (halt Undefined)))"

end
