(* ===== verification/Restart_Props.thy ===== *)
theory Restart_Props
  imports Restart "HOL-Library.Multiset"
begin

text \<open>
  What \<^theory_text>\<open>Restart\<close> creates. A run is described by a relation between the state of the system
  before it and after it, without fuel and without the order of events inside of a process; its
  properties are shown by rule induction.
\<close>

section \<open>What a process creates\<close>

definition before_leading :: "restart_env \<Rightarrow> target \<Rightarrow> target list" where
  "before_leading env t = filter (\<lambda>c. \<not> led_by t c) (children_of (re_targets env) t)"

definition after_leading :: "restart_env \<Rightarrow> target \<Rightarrow> target list" where
  "after_leading env t = filter (\<lambda>u. u \<noteq> t \<and> led_by t u \<and> (was_parent_of t u \<or> was_root_of_tree u)) (re_targets env)"

definition leader_proc :: "target \<Rightarrow> rproc \<Rightarrow> rproc" where
  "leader_proc t p =
     (if was_session_leader t then p\<lparr> rp_sid := rp_pid p, rp_pgid := rp_pid p \<rparr>
      else if was_group_leader t then p\<lparr> rp_pgid := rp_pid p \<rparr> else p)"

text \<open>A process \<open>q\<close> for \<open>u\<close> that was forked by the process \<open>p\<close> of \<open>t\<close>.\<close>

definition kid :: "target \<Rightarrow> rproc \<Rightarrow> target \<Rightarrow> rproc \<Rightarrow> bool" where
  "kid t p u q \<longleftrightarrow> rp_ppid q = (if was_parent_of t u then rp_pid p else 1) \<and>
     rp_sid q = rp_sid p \<and> rp_pgid q = rp_pgid p \<and> rp_pid q \<noteq> rp_sid q \<and> rp_pid q \<noteq> rp_pgid q"

text \<open>The pids from \<open>n\<close> on are free before, those from \<open>n'\<close> on after the run.\<close>

inductive created :: "restart_env \<Rightarrow> pid_t \<Rightarrow> target \<Rightarrow> rproc \<Rightarrow> started list \<Rightarrow> pid_t \<Rightarrow> bool"
  and forest :: "restart_env \<Rightarrow> target \<Rightarrow> rproc \<Rightarrow> pid_t \<Rightarrow> target list \<Rightarrow> started list \<Rightarrow> pid_t \<Rightarrow> bool"
  for env where
  forest_nil: "forest env t p n [] [] n"
| forest_cons: "\<lbrakk> n \<le> rp_pid q; kid t p u q; created env (rp_pid q + 1) u q es n'; forest env t p n' us es' n'' \<rbrakk>
    \<Longrightarrow> forest env t p n (u # us) (es @ es') n''"
| created_proc: "\<lbrakk> forest env t p n (before_leading env t) es1 n'; forest env t (leader_proc t p) n' (after_leading env t) es2 n'';
      st_target e = t; st_proc e = leader_proc t p \<rbrakk>
    \<Longrightarrow> created env n t p (es1 @ es2 @ [e]) n''"

definition makes :: "(rsys, unit) prog \<Rightarrow> (pid_t \<Rightarrow> started list \<Rightarrow> pid_t \<Rightarrow> bool) \<Rightarrow> rsys \<Rightarrow> bool" where
  "makes m R s \<longleftrightarrow> (\<exists>s' es. m s = Some (Inr (), s') \<and> rs_started s' = rs_started s @ es \<and>
     R (rs_next s) es (rs_next s') \<and> rs_next s \<le> rs_next s')"

lemma makes_sq:
  assumes "makes m R s" and "\<And>s'. rs_next s \<le> rs_next s' \<Longrightarrow> makes m' R' s'"
  shows "makes (sq m m') (\<lambda>n es n''. \<exists>es1 es2 n'. es = es1 @ es2 \<and> R n es1 n' \<and> R' n' es2 n'') s"
proof -
  obtain s1 es1 where 1: "m s = Some (Inr (), s1)" "rs_started s1 = rs_started s @ es1" "R (rs_next s) es1 (rs_next s1)"
      "rs_next s \<le> rs_next s1"
    using assms(1) unfolding makes_def by auto
  obtain s2 es2 where 2: "m' s1 = Some (Inr (), s2)" "rs_started s2 = rs_started s1 @ es2" "R' (rs_next s1) es2 (rs_next s2)"
      "rs_next s1 \<le> rs_next s2"
    using assms(2) [OF 1(4)] unfolding makes_def by auto
  have "sq m m' s = Some (Inr (), s2)"
    by (simp add: sq_def bnd_def 1(1) 2(1))
  moreover have "rs_started s2 = rs_started s @ es1 @ es2"
    by (simp add: 1(2) 2(2))
  ultimately show ?thesis
    using 1(3,4) 2(3,4) unfolding makes_def by (metis order_trans)
qed

definition one_kid :: "restart_env \<Rightarrow> target \<Rightarrow> rproc \<Rightarrow> target \<Rightarrow> pid_t \<Rightarrow> started list \<Rightarrow> pid_t \<Rightarrow> bool" where
  "one_kid env t p u n es n' \<longleftrightarrow> (\<exists>q. n \<le> rp_pid q \<and> kid t p u q \<and> created env (rp_pid q + 1) u q es n')"

lemma makes_each:
  assumes "\<And>u s. u \<in> set us \<Longrightarrow> P u \<Longrightarrow> n0 \<le> rs_next s \<Longrightarrow> makes (f u) (one_kid env t p u) s"
    and "\<And>u. u \<in> set us \<Longrightarrow> \<not> P u \<Longrightarrow> f u = ret ()" and "n0 \<le> rs_next s"
  shows "makes (each f us) (\<lambda>n es n'. forest env t p n (filter P us) es n') s"
  using assms
proof (induction us arbitrary: s)
  case Nil
  then show ?case by (simp add: makes_def ret_def forest_nil)
next
  case (Cons u us)
  have rest: "makes (each f us) (\<lambda>n es n'. forest env t p n (filter P us) es n') s'" if "n0 \<le> rs_next s'" for s'
    using Cons.IH Cons.prems(1,2) that by simp
  show ?case
  proof (cases "P u")
    case False
    then have "each f (u # us) = each f us"
      using Cons.prems(2) [of u] by (simp add: sq_def)
    then show ?thesis using rest [OF Cons.prems(3)] False by simp
  next
    case True
    have "makes (sq (f u) (each f us)) (\<lambda>n es n''. \<exists>es1 es2 n'. es = es1 @ es2 \<and> one_kid env t p u n es1 n' \<and>
        forest env t p n' (filter P us) es2 n'') s"
      using Cons.prems(1) [of u s] True Cons.prems(3) by (intro makes_sq rest) auto
    then show ?thesis
      using True unfolding makes_def one_kid_def by (auto intro: forest_cons)
  qed
qed

section \<open>The model creates what the relation says\<close>

definition all_calls_work :: "restart_env \<Rightarrow> bool" where
  "all_calls_work env \<longleftrightarrow> (\<forall>pid. re_fork env pid) \<and> (\<forall>t. re_setflags env t = 0 \<and> re_spawn env t = 0)"

definition fresh :: "rproc \<Rightarrow> pid_t \<Rightarrow> bool" where
  "fresh p n \<longleftrightarrow> rp_pid p < n \<and> rp_sid p < n \<and> rp_pgid p < n \<and> rp_pid p \<noteq> rp_sid p \<and> rp_pid p \<noteq> rp_pgid p"

lemma create_child_makes:
  assumes "all_calls_work env" and "was_parent_of t u" and "rp_pid p < n0" "rp_sid p < n0" "rp_pgid p < n0" and "n0 \<le> rs_next s"
    and create: "\<And>q (s :: rsys). fresh q (rs_next s) \<Longrightarrow> makes (create u False q) (\<lambda>n es n'. created env n u q es n') s"
  shows "makes (create_child create env p u) (one_kid env t p u) s"
proof -
  let ?q = "p\<lparr> rp_pid := rs_next s, rp_ppid := rp_pid p \<rparr>" and ?s = "s\<lparr> rs_next := rs_next s + 1 \<rparr>"
  have "fresh ?q (rs_next ?s)" using assms(3-6) by (simp add: fresh_def)
  then obtain s' es where run: "create u False ?q ?s = Some (Inr (), s')" "rs_started s' = rs_started s @ es"
      "created env (rs_next s + 1) u ?q es (rs_next s')" "rs_next s + 1 \<le> rs_next s'"
    using create [of ?q ?s] unfolding makes_def by auto
  have "create_child create env p u s = Some (Inr (), s')"
    using assms(1) run(1) by (simp add: create_child_def fork_def all_calls_work_def prog_defs spawned_def)
  moreover have "kid t p u ?q"
    using assms(2-6) by (simp add: kid_def)
  ultimately show ?thesis
    using run(2-4) unfolding makes_def one_kid_def by (intro exI [of _ s'] exI [of _ es] conjI exI [of _ ?q]) simp_all
qed

lemma create_orphan_makes:
  assumes "all_calls_work env" and "\<not> was_parent_of t u" and "rp_pid p < n0" "rp_sid p < n0" "rp_pgid p < n0" and "n0 \<le> rs_next s"
    and create: "\<And>q (s :: rsys). fresh q (rs_next s) \<Longrightarrow> makes (create u False q) (\<lambda>n es n'. created env n u q es n') s"
  shows "makes (create_orphan create env p False u) (one_kid env t p u) s"
proof -
  let ?q = "p\<lparr> rp_pid := rs_next s + 1, rp_ppid := 1 \<rparr>" and ?s = "s\<lparr> rs_next := rs_next s + 1 + 1 \<rparr>"
  have "fresh ?q (rs_next ?s)" using assms(3-6) by (simp add: fresh_def)
  then obtain s' es where run: "create u False ?q ?s = Some (Inr (), s')" "rs_started s' = rs_started s @ es"
      "created env (rs_next s + 1 + 1) u ?q es (rs_next s')" "rs_next s + 1 + 1 \<le> rs_next s'"
    using create [of ?q ?s] unfolding makes_def by (auto simp: add.assoc)
  have "create_orphan create env p False u s = Some (Inr (), s')"
    using assms(1) run(1) by (simp add: create_orphan_def fork_def all_calls_work_def prog_defs spawned_def)
  moreover have "kid t p u ?q"
    using assms(2-6) by (simp add: kid_def)
  ultimately show ?thesis
    using run(2-4) unfolding makes_def one_kid_def by (intro exI [of _ s'] exI [of _ es] conjI exI [of _ ?q]) simp_all
qed

definition ranked :: "restart_env \<Rightarrow> (target \<Rightarrow> nat) \<Rightarrow> bool" where
  "ranked env rank \<longleftrightarrow> (\<forall>t \<in> set (re_targets env).
     (\<forall>u \<in> set (before_leading env t) \<union> set (after_leading env t). rank t < rank u))"

lemma leading_in_targets:
  "set (before_leading env t) \<union> set (after_leading env t) \<subseteq> set (re_targets env)"
  by (auto simp: before_leading_def after_leading_def children_of_def)

lemma child_is_child: "u \<in> set (children_of ts t) \<Longrightarrow> was_parent_of t u \<and> u \<noteq> t"
  by (auto simp: children_of_def was_child_of_def was_parent_of_def)

lemma become_leader_leads:
  assumes "fresh p n"
  shows "become_leader t p s = Some (Inr (leader_proc t p), s)"
  using assms by (auto simp: become_leader_def leader_proc_def fresh_def setsid_def setpgid0_def prog_defs)

lemma children_make:
  assumes "all_calls_work env" and "fresh p n0" and "n0 \<le> rs_next s"
    and create: "\<And>u q (s :: rsys). u \<in> set (before_leading env t) \<Longrightarrow> fresh q (rs_next s) \<Longrightarrow>
      makes (create u False q) (\<lambda>n es n'. created env n u q es n') s"
  shows "makes (each (\<lambda>c. sq (assert_p (c \<noteq> t)) (if was_session_leader_of t c then ret ()
      else if was_group_leader_of t c then ret () else create_child create env p c)) (children_of (re_targets env) t))
    (\<lambda>n es n'. forest env t p n (before_leading env t) es n') s"
  unfolding before_leading_def
proof (rule makes_each [OF _ _ assms(3)])
  fix u and s :: rsys assume u: "u \<in> set (children_of (re_targets env) t)" "\<not> led_by t u" "n0 \<le> rs_next s"
  have "makes (create_child create env p u) (one_kid env t p u) s"
    using child_is_child [OF u(1)] assms(2) u
    by (intro create_child_makes [OF assms(1) _ _ _ _ u(3)] create) (auto simp: fresh_def before_leading_def)
  then show "makes (sq (assert_p (u \<noteq> t)) (if was_session_leader_of t u then ret ()
      else if was_group_leader_of t u then ret () else create_child create env p u)) (one_kid env t p u) s"
    using child_is_child [OF u(1)] u(2) by (simp add: led_by_def sq_def assert_p_def)
next
  fix u assume u: "u \<in> set (children_of (re_targets env) t)" "\<not> \<not> led_by t u"
  then show "sq (assert_p (u \<noteq> t)) (if was_session_leader_of t u then ret ()
      else if was_group_leader_of t u then ret () else create_child create env p u) = ret ()"
    using child_is_child [OF u(1)] by (auto simp: led_by_def sq_def assert_p_def)
qed

lemma members_make:
  assumes "all_calls_work env" and "rp_pid p < n0" "rp_sid p < n0" "rp_pgid p < n0" and "n0 \<le> rs_next s"
    and create: "\<And>u q (s :: rsys). u \<in> set (after_leading env t) \<Longrightarrow> fresh q (rs_next s) \<Longrightarrow>
      makes (create u False q) (\<lambda>n es n'. created env n u q es n') s"
  shows "makes (each (create_member create env t p) (re_targets env))
    (\<lambda>n es n'. forest env t p n (after_leading env t) es n') s"
  unfolding after_leading_def
proof (rule makes_each [OF _ _ assms(5)])
  fix u and s :: rsys assume u: "u \<in> set (re_targets env)" "u \<noteq> t \<and> led_by t u \<and> (was_parent_of t u \<or> was_root_of_tree u)" "n0 \<le> rs_next s"
  then have "u \<in> set (after_leading env t)" by (simp add: after_leading_def)
  note create' = create [OF this]
  have "makes (create_child create env p u) (one_kid env t p u) s" if "was_parent_of t u"
    using create' by (rule create_child_makes [OF assms(1) that assms(2-4) u(3)])
  moreover have "makes (create_orphan create env p False u) (one_kid env t p u) s" if "\<not> was_parent_of t u"
    using create' by (rule create_orphan_makes [OF assms(1) that assms(2-4) u(3)])
  ultimately show "makes (create_member create env t p u) (one_kid env t p u) s"
    using u(2)
    by (auto simp: create_member_def led_by_def)
next
  fix u assume "u \<in> set (re_targets env)" "\<not> (u \<noteq> t \<and> led_by t u \<and> (was_parent_of t u \<or> was_root_of_tree u))"
  then show "create_member create env t p u = ret ()"
    by (auto simp: create_member_def led_by_def)
qed

text \<open>The part of \<^const>\<open>create_process\<close> after the roots.\<close>

definition create_rest :: "nat \<Rightarrow> restart_env \<Rightarrow> target list \<Rightarrow> target \<Rightarrow> rproc \<Rightarrow> (rsys, unit) prog" where
  "create_rest n env roots t p =
     sq (each (\<lambda>c. sq (assert_p (c \<noteq> t)) (if was_session_leader_of t c then ret ()
           else if was_group_leader_of t c then ret ()
           else create_child (create_process n env roots) env p c)) (children_of (re_targets env) t))
    (bnd (become_leader t p) (\<lambda>p'. sq (each (create_member (create_process n env roots) env t p') (re_targets env)) (exec_restart env t p')))"

lemma create_rest_makes:
  assumes "all_calls_work env" and "fresh p n0" and "n0 \<le> rs_next s"
    and create: "\<And>u q (s :: rsys). u \<in> set (before_leading env t) \<union> set (after_leading env t) \<Longrightarrow> fresh q (rs_next s) \<Longrightarrow>
      makes (create_process k env roots u False q) (\<lambda>n es n'. created env n u q es n') s"
  shows "makes (create_rest k env roots t p) (\<lambda>n es n'. created env n t p es n') s"
proof -
  let ?p = "leader_proc t p"
  have p': "rp_pid ?p < n0" "rp_sid ?p < n0" "rp_pgid ?p < n0"
    using assms(2) by (simp_all add: leader_proc_def fresh_def)
  let ?own = "\<lambda>n es n'. n' = n \<and> (\<exists>e. es = [e] \<and> st_target e = t \<and> st_proc e = ?p)"
  have exec: "makes (exec_restart env t ?p) ?own s'" for s'
    using assms(1) by (simp add: makes_def exec_restart_def all_calls_work_def modify_def)
  have tail: "makes (sq (each (create_member (create_process k env roots) env t ?p) (re_targets env)) (exec_restart env t ?p))
      (\<lambda>n es n''. \<exists>es1 es2 n'. es = es1 @ es2 \<and> forest env t ?p n (after_leading env t) es1 n' \<and> ?own n' es2 n'') s'"
    if "n0 \<le> rs_next s'" for s'
    using create by (intro makes_sq exec members_make [OF assms(1) p' that]) auto
  have body: "bnd (become_leader t p) f s' = f ?p s'" for f :: "rproc \<Rightarrow> (rsys, unit) prog" and s'
    using become_leader_leads [OF assms(2)] by (simp add: bnd_def)
  have "makes (create_rest k env roots t p)
      (\<lambda>n es n'. \<exists>es1 es2 m. es = es1 @ es2 \<and> forest env t p n (before_leading env t) es1 m \<and>
        (\<exists>es3 es4 m'. es2 = es3 @ es4 \<and> forest env t ?p m (after_leading env t) es3 m' \<and> ?own m' es4 n')) s"
    unfolding create_rest_def
  proof (rule makes_sq [OF children_make [OF assms(1-3)]])
    fix u q and s' :: rsys assume "u \<in> set (before_leading env t)" "fresh q (rs_next s')"
    then show "makes (create_process k env roots u False q) (\<lambda>n es n'. created env n u q es n') s'"
      using create by blast
  next
    fix s' :: rsys assume "rs_next s \<le> rs_next s'"
    then have "n0 \<le> rs_next s'" using assms(3) by simp
    from tail [OF this] show "makes (bnd (become_leader t p) (\<lambda>p'. sq (each (create_member (create_process k env roots) env t p') (re_targets env))
        (exec_restart env t p')))
      (\<lambda>n es n''. \<exists>es1 es2 n'. es = es1 @ es2 \<and> forest env t ?p n (after_leading env t) es1 n' \<and> ?own n' es2 n'') s'"
      unfolding makes_def body .
  qed
  then show ?thesis
    unfolding makes_def using created_proc by fastforce
qed

lemma create_process_makes:
  assumes "all_calls_work env" and "ranked env rank" and "\<forall>u \<in> set (re_targets env). rank u < deep"
    and "t \<in> set (re_targets env)" and "deep \<le> rank t + k" and "fresh p (rs_next s)"
  shows "makes (create_process k env roots t False p) (\<lambda>n es n'. created env n t p es n') s"
  using assms(4-6)
proof (induction k arbitrary: t p s)
  case 0
  then show ?case using assms(3) by fastforce
next
  case (Suc k)
  have rest: "create_process (Suc k) env roots t False p = create_rest k env roots t p"
    by (simp add: create_rest_def sq_def)
  show ?case
    unfolding rest
  proof (rule create_rest_makes [OF assms(1) Suc.prems(3) order_refl])
    fix u q and s :: rsys assume u: "u \<in> set (before_leading env t) \<union> set (after_leading env t)" and "fresh q (rs_next s)"
    moreover have "rank t < rank u"
      using assms(2) Suc.prems(1) u by (auto simp: ranked_def)
    ultimately show "makes (create_process k env roots u False q) (\<lambda>n es n'. created env n u q es n') s"
      using Suc.prems(2) leading_in_targets by (intro Suc.IH) (auto simp del: Un_iff)
  qed
qed

section \<open>Properties of a run\<close>

definition leads :: "restart_env \<Rightarrow> target \<Rightarrow> target list" where
  "leads env t = before_leading env t @ after_leading env t"

abbreviation targets_of :: "started list \<Rightarrow> target multiset" where
  "targets_of es \<equiv> mset (map st_target es)"

definition led_targets :: "restart_env \<Rightarrow> started list \<Rightarrow> target multiset" where
  "led_targets env es = (\<Sum>u \<in># targets_of es. mset (leads env u))"

lemma led_targets_simps [simp]:
  "led_targets env [] = {#}"
  "led_targets env (es @ es') = led_targets env es + led_targets env es'"
  "led_targets env (e # es) = mset (leads env (st_target e)) + led_targets env es"
  by (simp_all add: led_targets_def)

lemma created_targets:
  "created env n t p es n' \<Longrightarrow> targets_of es = {#t#} + led_targets env es"
  "forest env t p n us es n' \<Longrightarrow> targets_of es = mset us + led_targets env es"
  by (induction rule: created_forest.inducts) (simp_all add: leads_def ac_simps)

lemma created_pids:
  "created env n t p es n' \<Longrightarrow> rp_pid p < n \<Longrightarrow> n \<le> n' \<and> distinct (map (rp_pid \<circ> st_proc) es) \<and>
     (\<forall>e \<in> set es. rp_pid (st_proc e) = rp_pid p \<or> n \<le> rp_pid (st_proc e) \<and> rp_pid (st_proc e) < n')"
  "forest env t p n us es n' \<Longrightarrow> n \<le> n' \<and> distinct (map (rp_pid \<circ> st_proc) es) \<and>
     (\<forall>e \<in> set es. n \<le> rp_pid (st_proc e) \<and> rp_pid (st_proc e) < n')"
proof (induction rule: created_forest.inducts)
  case (forest_cons n q t p u es n' us es' n'')
  from forest_cons.IH(2)
  have a: "rp_pid q + 1 \<le> n'" "distinct (map (rp_pid \<circ> st_proc) es)"
      "\<forall>e \<in> set es. rp_pid (st_proc e) = rp_pid q \<or> rp_pid q + 1 \<le> rp_pid (st_proc e) \<and> rp_pid (st_proc e) < n'"
    by (simp_all add: comp_def)
  have b: "n' \<le> n''" "distinct (map (rp_pid \<circ> st_proc) es')"
      "\<forall>e \<in> set es'. n' \<le> rp_pid (st_proc e) \<and> rp_pid (st_proc e) < n''"
    using forest_cons.IH(4) by (simp_all add: comp_def)
  have low: "n \<le> rp_pid (st_proc e) \<and> rp_pid (st_proc e) < n'" if "e \<in> set es" for e
    using a(1,3) that forest_cons.hyps(1) by fastforce
  then have "(rp_pid \<circ> st_proc) ` set es \<inter> (rp_pid \<circ> st_proc) ` set es' = {}"
    using b(3) by fastforce
  moreover have "n \<le> rp_pid (st_proc e) \<and> rp_pid (st_proc e) < n''" if "e \<in> set es \<union> set es'" for e
    using low [of e] b(1,3) that a(1) forest_cons.hyps(1) by fastforce
  ultimately show ?case
    using a(1,2) b(1,2) forest_cons.hyps(1) by (simp only: map_append distinct_append set_map set_append) simp
next
  case (created_proc t p n es1 n' es2 n'' e)
  have "rp_pid (st_proc e) = rp_pid p"
    using created_proc.hyps by (simp add: leader_proc_def)
  then show ?case using created_proc.IH created_proc.prems by fastforce
qed simp

lemma created_own:
  assumes "created env n t p es n'"
  obtains e where "e \<in> set es" "st_target e = t" "st_proc e = leader_proc t p"
  using assms by (cases rule: created.cases) auto

lemma rp_leader_proc [simp]:
  "rp_pid (leader_proc t p) = rp_pid p" "rp_ppid (leader_proc t p) = rp_ppid p"
  by (simp_all add: leader_proc_def)

subsection \<open>Parents\<close>

definition parent_ok :: "started list \<Rightarrow> started \<Rightarrow> bool" where
  "parent_ok es e \<longleftrightarrow>
     (\<exists>e' \<in> set es. was_parent_of (st_target e') (st_target e) \<and> rp_ppid (st_proc e) = rp_pid (st_proc e')) \<or>
     was_root_of_tree (st_target e) \<and> rp_ppid (st_proc e) = 1"

lemma parent_ok_mono: "parent_ok es e \<Longrightarrow> set es \<subseteq> set es' \<Longrightarrow> parent_ok es' e"
  by (auto simp: parent_ok_def)

lemma created_parents:
  "created env n t p es n' \<Longrightarrow> \<forall>e \<in> set es. parent_ok es e \<or>
     st_target e = t \<and> rp_pid (st_proc e) = rp_pid p \<and> rp_ppid (st_proc e) = rp_ppid p"
  "forest env t p n us es n' \<Longrightarrow> (\<forall>u \<in> set us. was_parent_of t u \<or> was_root_of_tree u) \<Longrightarrow>
     \<forall>e \<in> set es. parent_ok es e \<or> was_parent_of t (st_target e) \<and> rp_ppid (st_proc e) = rp_pid p"
proof (induction rule: created_forest.inducts)
  case (forest_cons n q t p u es n' us es' n'')
  have "parent_ok (es @ es') e \<or> was_parent_of t (st_target e) \<and> rp_ppid (st_proc e) = rp_pid p" if "e \<in> set es" for e
    using forest_cons.IH(2) that forest_cons.hyps(2) forest_cons.prems parent_ok_mono [of es e "es @ es'"]
    by (auto simp: kid_def parent_ok_def split: if_splits)
  moreover have "parent_ok (es @ es') e \<or> was_parent_of t (st_target e) \<and> rp_ppid (st_proc e) = rp_pid p" if "e \<in> set es'" for e
    using forest_cons.IH(4) that forest_cons.prems parent_ok_mono [of es' e "es @ es'"] by auto
  ultimately show ?case by auto
next
  case (created_proc t p n es1 n' es2 n'' e)
  let ?es = "es1 @ es2 @ [e]"
  have own: "parent_ok ?es e'" if "was_parent_of t (st_target e') \<and> rp_ppid (st_proc e') = rp_pid p" for e'
    using that created_proc.hyps by (auto simp: parent_ok_def)
  have "parent_ok ?es e'" if "e' \<in> set es1" for e'
    using created_proc.IH(2) that own parent_ok_mono [of es1 e' ?es] child_is_child by (auto simp: before_leading_def)
  moreover have "parent_ok ?es e'" if "e' \<in> set es2" for e'
    using created_proc.IH(4) that own parent_ok_mono [of es2 e' ?es] by (auto simp: after_leading_def)
  ultimately show ?case
    using created_proc.hyps by auto
qed simp

subsection \<open>Sessions\<close>

text \<open>
  What a family of processes is like whose sessions were made by \<^verbatim>\<open>setsid\<close>: a process that is no
  session leader is in the session of its parent, and a group leader among the targets of a root leads its
  session too. Parents and session leaders were there before their children and members.
\<close>

definition restartable :: "target list \<Rightarrow> bool" where
  "restartable ts \<longleftrightarrow> ts \<noteq> [] \<and> distinct (map t_xnd_pid ts) \<and> distinct (map target_pid ts) \<and>
     (\<forall>t \<in> set ts. was_root_of_tree t \<longleftrightarrow> (\<forall>p \<in> set ts. p = t \<or> \<not> was_parent_of p t)) \<and>
     (\<forall>t \<in> set ts. \<not> was_parent_of t t) \<and>
     (\<forall>t \<in> set ts. \<forall>p \<in> set ts. was_parent_of p t \<longrightarrow> was_session_leader t \<or> target_sid t = target_sid p) \<and>
     (\<forall>t \<in> set ts. \<forall>s \<in> set ts. was_session_leader_of s t \<longrightarrow> was_session_leader s) \<and>
     (\<forall>t \<in> set ts. \<forall>g \<in> set ts. was_root_of_tree t \<and> was_group_leader_of g t \<and> g \<noteq> t \<longrightarrow> was_session_leader_of g t) \<and>
     (\<exists>rank :: target \<Rightarrow> nat. \<forall>t \<in> set ts. \<forall>u \<in> set ts.
        u \<noteq> t \<and> (was_parent_of t u \<or> was_session_leader_of t u) \<longrightarrow> rank t < rank u)"

definition session_ok :: "started list \<Rightarrow> started \<Rightarrow> bool" where
  "session_ok es e \<longleftrightarrow>
     (if was_session_leader (st_target e) then rp_sid (st_proc e) = rp_pid (st_proc e)
      else \<exists>e' \<in> set es. was_session_leader_of (st_target e') (st_target e) \<and> rp_sid (st_proc e) = rp_pid (st_proc e'))"

lemma session_ok_mono: "session_ok es e \<Longrightarrow> set es \<subseteq> set es' \<Longrightarrow> session_ok es' e"
  unfolding session_ok_def by (auto split: if_splits)

lemma created_sessions:
  assumes "restartable (re_targets env)"
  shows "created env n t p es n' \<Longrightarrow> t \<in> set (re_targets env) \<Longrightarrow> \<forall>e \<in> set es. session_ok es e \<or>
     \<not> was_session_leader (st_target e) \<and> \<not> was_session_leader t \<and> target_sid (st_target e) = target_sid t \<and> rp_sid (st_proc e) = rp_sid p"
  and "forest env t p n us es n' \<Longrightarrow> set us \<subseteq> set (re_targets env) \<Longrightarrow> \<forall>e \<in> set es. session_ok es e \<or>
     \<not> was_session_leader (st_target e) \<and> (\<exists>u \<in> set us. \<not> was_session_leader u \<and> target_sid (st_target e) = target_sid u) \<and> rp_sid (st_proc e) = rp_sid p"
proof (induction rule: created_forest.inducts)
  case (forest_cons n q t p u es n' us es' n'')
  have q: "rp_sid q = rp_sid p" using forest_cons.hyps(2) by (simp add: kid_def)
  let ?ok = "\<lambda>e. session_ok (es @ es') e \<or>
     \<not> was_session_leader (st_target e) \<and> (\<exists>v \<in> set (u # us). \<not> was_session_leader v \<and> target_sid (st_target e) = target_sid v) \<and> rp_sid (st_proc e) = rp_sid p"
  have "?ok e" if "e \<in> set es" for e
    using forest_cons.IH(2) that forest_cons.prems q session_ok_mono [of es e "es @ es'"] by auto
  moreover have "?ok e" if "e \<in> set es'" for e
    using forest_cons.IH(4) that forest_cons.prems session_ok_mono [of es' e "es @ es'"] by auto
  ultimately show ?case by auto
next
  case (created_proc t p n es1 n' es2 n'' e)
  let ?es = "es1 @ es2 @ [e]" and ?ts = "re_targets env"
  let ?ok = "\<lambda>e. session_ok ?es e \<or> \<not> was_session_leader (st_target e) \<and> \<not> was_session_leader t \<and> target_sid (st_target e) = target_sid t \<and> rp_sid (st_proc e) = rp_sid p"
  have sub: "set (before_leading env t) \<subseteq> set ?ts" "set (after_leading env t) \<subseteq> set ?ts"
    using leading_in_targets [of env t] by auto
  have inherits: "was_session_leader u \<or> target_sid u = target_sid t" if "u \<in> set ?ts" "was_parent_of t u" for u
    using assms created_proc.prems that by (auto simp: restartable_def)
  have "?ok e'" if e': "e' \<in> set es1" for e'
  proof -
    have "\<not> was_session_leader t \<and> target_sid u = target_sid t"
      if "u \<in> set (before_leading env t)" "\<not> was_session_leader u" for u
      using inherits [of u] that child_is_child [of u] sub(1)
      by (auto simp: before_leading_def led_by_def was_session_leader_of_def was_session_leader_def)
    then show ?thesis
      using created_proc.IH(2) [OF sub(1)] e' session_ok_mono [of es1 e' ?es] by (metis (no_types, lifting) Un_upper1 set_append)
  qed
  moreover have "?ok e'" if e': "e' \<in> set es2" for e'
  proof -
    have led: "session_ok ?es e'" if u: "u \<in> set (after_leading env t)" "\<not> was_session_leader u" "was_session_leader_of t u"
      and e: "\<not> was_session_leader (st_target e')" "target_sid (st_target e') = target_sid u" "rp_sid (st_proc e') = rp_sid (leader_proc t p)" for u
    proof -
      have t: "was_session_leader t"
        using assms created_proc.prems u sub(2) by (auto simp: restartable_def)
      have pid: "rp_sid (st_proc e') = rp_pid p"
        using e(3) t by (simp add: leader_proc_def)
      moreover have "was_session_leader_of (st_target e) (st_target e')"
        using u(3) e(2) created_proc.hyps by (simp add: was_session_leader_of_def)
      ultimately show ?thesis
        using e(1) created_proc.hyps by (auto simp: session_ok_def)
    qed
    have other: "\<not> was_session_leader t \<and> target_sid u = target_sid t \<and> rp_sid (leader_proc t p) = rp_sid p"
      if u: "u \<in> set (after_leading env t)" "\<not> was_session_leader u" "\<not> was_session_leader_of t u" for u
    proof -
      have "was_parent_of t u"
        using u assms created_proc.prems by (auto simp: after_leading_def led_by_def restartable_def)
      then have "target_sid u = target_sid t" using inherits u sub(2) by auto
      then show ?thesis
        using u(3) by (auto simp: was_session_leader_of_def was_session_leader_def leader_proc_def)
    qed
    from created_proc.IH(4) [OF sub(2)] e' consider "session_ok es2 e'"
      | u where "u \<in> set (after_leading env t)" "\<not> was_session_leader u" "\<not> was_session_leader (st_target e')"
          "target_sid (st_target e') = target_sid u" "rp_sid (st_proc e') = rp_sid (leader_proc t p)"
      by blast
    then show ?thesis
    proof cases
      case 1
      then show ?thesis using session_ok_mono [of es2 e' ?es] by auto
    next
      case (2 u)
      then show ?thesis
        using led [of u] other [of u] by (cases "was_session_leader_of t u") auto
    qed
  qed
  moreover have "?ok e"
    using created_proc.hyps by (auto simp: session_ok_def leader_proc_def)
  ultimately show ?case by auto
qed simp

section \<open>All processes of a checkpoint\<close>

lemma leads_iff:
  "u \<in> set (leads env t) \<longleftrightarrow> u \<in> set (re_targets env) \<and> u \<noteq> t \<and> (was_parent_of t u \<or> was_root_of_tree u \<and> led_by t u)"
  by (auto simp: leads_def before_leading_def after_leading_def children_of_def was_child_of_def was_parent_of_def)

lemma distinct_leads: "distinct (re_targets env) \<Longrightarrow> distinct (leads env t)"
  by (auto simp: leads_def before_leading_def after_leading_def children_of_def)

lemma restartable_distinct: "restartable ts \<Longrightarrow> distinct ts"
  by (simp add: restartable_def distinct_map)

lemma indegree_zero:
  assumes "restartable ts" and "t \<in> set ts"
  shows "indegree_of ts t = 0 \<longleftrightarrow> was_root_of_tree t"
proof -
  have "indegree_of ts t = 0 \<longleftrightarrow> (\<forall>p \<in> set ts. t \<notin> set (children_of ts p))"
    by (auto simp: indegree_of_def count_list_0_iff sum_list_eq_0_iff)
  also have "\<dots> \<longleftrightarrow> was_root_of_tree t"
    using assms by (auto simp: restartable_def children_of_def was_child_of_def was_parent_of_def)
  finally show ?thesis .
qed

definition independent :: "target list \<Rightarrow> target \<Rightarrow> bool" where
  "independent ts t \<longleftrightarrow> was_root_of_tree t \<and> (\<forall>s \<in> set ts. s = t \<or> \<not> was_session_leader_of s t)"

lemma independent_roots_filter:
  assumes "restartable ts" and "set us \<subseteq> set ts"
  shows "independent_roots ts us = Inr (filter (independent ts) us)"
  using assms(2)
proof (induction us)
  case (Cons u us)
  then show ?case
    using indegree_zero [OF assms(1), of u] by (auto simp: xnd_assert_def independent_def)
qed simp

text \<open>A target that is no independent root has one creator, which was there before it.\<close>

lemma restartable_parts:
  assumes "restartable ts"
  shows "inj_on t_xnd_pid (set ts)" and "inj_on target_pid (set ts)"
    and "\<forall>t \<in> set ts. was_root_of_tree t \<longleftrightarrow> (\<forall>p \<in> set ts. p = t \<or> \<not> was_parent_of p t)"
    and "\<forall>t \<in> set ts. \<not> was_parent_of t t"
    and "\<forall>t \<in> set ts. \<forall>g \<in> set ts. was_root_of_tree t \<and> was_group_leader_of g t \<and> g \<noteq> t \<longrightarrow> was_session_leader_of g t"
    and "\<exists>rank :: target \<Rightarrow> nat. \<forall>t \<in> set ts. \<forall>u \<in> set ts.
        u \<noteq> t \<and> (was_parent_of t u \<or> was_session_leader_of t u) \<longrightarrow> rank t < rank u"
  using assms unfolding restartable_def distinct_map by - (elim conjE, assumption)+

lemma restartableD:
  assumes "restartable ts" and "t \<in> set ts" and "u \<in> set ts"
  shows "was_root_of_tree u \<Longrightarrow> \<not> was_parent_of t u"
    and "was_root_of_tree u \<Longrightarrow> was_group_leader_of t u \<Longrightarrow> t \<noteq> u \<Longrightarrow> was_session_leader_of t u"
    and "t_xnd_pid t = t_xnd_pid u \<Longrightarrow> t = u" and "target_pid t = target_pid u \<Longrightarrow> t = u"
proof -
  show "\<not> was_parent_of t u" if "was_root_of_tree u"
    using restartable_parts(3,4) [OF assms(1)] assms(2,3) that by metis
  show "was_session_leader_of t u" if "was_root_of_tree u" "was_group_leader_of t u" "t \<noteq> u"
    using restartable_parts(5) [OF assms(1)] assms(2,3) that by blast
  show "t_xnd_pid t = t_xnd_pid u \<Longrightarrow> t = u" "target_pid t = target_pid u \<Longrightarrow> t = u"
    using restartable_parts(1,2) [OF assms(1)] assms(2,3) by (auto dest: inj_onD)
qed

lemma not_root_has_parent:
  "restartable ts \<Longrightarrow> t \<in> set ts \<Longrightarrow> \<not> was_root_of_tree t \<Longrightarrow> \<exists>u \<in> set ts. was_parent_of u t"
  using restartable_parts(3) by blast

lemma root_led:
  assumes "restartable (re_targets env)" and "t \<in> set (re_targets env)" and "was_root_of_tree t" and "u \<in> set (re_targets env)"
  shows "t \<in> set (leads env u) \<longleftrightarrow> u \<noteq> t \<and> was_session_leader_of u t"
  using restartableD(1,2) [OF assms(1,4,2)] assms(2,3) by (auto simp: leads_iff led_by_def)

lemma leads_before:
  assumes "restartable (re_targets env)" and "t \<in> set (re_targets env)" and "u \<in> set (leads env t)"
  shows "u \<in> set (re_targets env) \<and> u \<noteq> t \<and> (was_parent_of t u \<or> was_session_leader_of t u)"
  using assms root_led [OF assms(1), of u t] unfolding leads_iff by blast

lemma not_led:
  assumes "restartable (re_targets env)" and "independent (re_targets env) t" and "t \<in> set (re_targets env)" and "u \<in> set (re_targets env)"
  shows "t \<notin> set (leads env u)"
  using root_led [OF assms(1,3) _ assms(4)] assms by (auto simp: independent_def)

lemma creator:
  assumes "restartable (re_targets env)" and "t \<in> set (re_targets env)" and "\<not> independent (re_targets env) t"
  shows "\<exists>u \<in> set (re_targets env). \<forall>v \<in> set (re_targets env). t \<in> set (leads env v) \<longleftrightarrow> v = u"
proof (cases "was_root_of_tree t")
  case True
  with assms(2,3) obtain u where u: "u \<in> set (re_targets env)" "u \<noteq> t" "was_session_leader_of u t"
    by (auto simp: independent_def)
  have "v = u" if "v \<in> set (re_targets env)" "was_session_leader_of v t" for v
    using restartableD(4) [OF assms(1) that(1) u(1)] u(3) that(2) by (simp add: was_session_leader_of_def)
  then show ?thesis
    using u root_led [OF assms(1,2) True] by blast
next
  case False
  with assms(1,2) obtain u where u: "u \<in> set (re_targets env)" "was_parent_of u t"
    using not_root_has_parent by blast
  have "t \<noteq> u"
    using restartable_parts(4) [OF assms(1)] assms(2) u(2) by blast
  have "v = u" if "v \<in> set (re_targets env)" "was_parent_of v t" for v
    using restartableD(3) [OF assms(1) that(1) u(1)] u(2) that(2) by (simp add: was_parent_of_def)
  then have "t \<in> set (leads env v) \<longleftrightarrow> v = u" if "v \<in> set (re_targets env)" for v
    using False assms(2) u(2) \<open>t \<noteq> u\<close> that unfolding leads_iff by blast
  then show ?thesis
    using u(1) by blast
qed

lemma count_sum_image: "count (\<Sum>u \<in># M. mset (f u)) t = (\<Sum>u \<in># M. count_list (f u) t)"
  by (induction M) (simp_all add: count_mset)

lemma sum_indicator: "\<forall>u \<in># M. g u = (if u = c then 1 else 0) \<Longrightarrow> (\<Sum>u \<in># M. g u) = count M c"
  by (induction M) auto

lemma count_distinct: "distinct xs \<Longrightarrow> count_list xs t = (if t \<in> set xs then 1 else 0)"
  by (induction xs) auto

lemma each_target_once:
  assumes "restartable (re_targets env)" and "set_mset M \<subseteq> set (re_targets env)"
    and "M = mset (filter (independent (re_targets env)) (re_targets env)) + (\<Sum>u \<in># M. mset (leads env u))"
  shows "M = mset (re_targets env)"
proof -
  let ?ts = "re_targets env"
  note dist = restartable_distinct [OF assms(1)]
  obtain rank :: "target \<Rightarrow> nat" where rank: "\<And>t u. t \<in> set ?ts \<Longrightarrow> u \<in> set ?ts \<Longrightarrow>
      u \<noteq> t \<Longrightarrow> was_parent_of t u \<or> was_session_leader_of t u \<Longrightarrow> rank t < rank u"
    using restartable_parts(6) [OF assms(1)] by blast
  have eq: "count M t = count_list (filter (independent ?ts) ?ts) t + (\<Sum>u \<in># M. count_list (leads env u) t)" for t
    using arg_cong [OF assms(3), of "\<lambda>m. count m t"] by (simp only: count_union count_mset count_sum_image)
  have ind: "count_list (leads env u) t = (if t \<in> set (leads env u) then 1 else 0)" for u t
    by (rule count_distinct [OF distinct_leads [OF dist]])
  have "count M t = 1" if "t \<in> set ?ts" for t
    using that
  proof (induction "rank t" arbitrary: t rule: less_induct)
    case less
    show ?case
    proof (cases "independent ?ts t")
      case True
      then have "\<forall>u \<in># M. count_list (leads env u) t = 0"
        using not_led [OF assms(1) True less.prems] assms(2) ind by auto
      then show ?thesis
        using eq [of t] True less.prems dist by (simp add: count_distinct)
    next
      case False
      then obtain c where c: "c \<in> set ?ts" "\<forall>v \<in> set ?ts. t \<in> set (leads env v) \<longleftrightarrow> v = c"
        using creator [OF assms(1) less.prems] by blast
      then have "(\<Sum>u \<in># M. count_list (leads env u) t) = count M c"
        using assms(2) by (intro sum_indicator) (auto simp: ind)
      moreover have "count M c = 1"
        using leads_before [OF assms(1) c(1), of t] c less.prems rank by (intro less.hyps) auto
      ultimately show ?thesis
        using eq [of t] False by (simp add: count_list_0_iff)
    qed
  qed
  moreover have "count M t = 0" if "t \<notin> set ?ts" for t
    using assms(2) that by (meson not_in_iff subsetD)
  ultimately show ?thesis
    using dist by (intro multiset_eqI) (auto simp: count_mset count_distinct)
qed

section \<open>The whole restart\<close>

lemma created_in_targets:
  "created env n t p es n' \<Longrightarrow> t \<in> set (re_targets env) \<Longrightarrow> st_target ` set es \<subseteq> set (re_targets env)"
  "forest env t p n us es n' \<Longrightarrow> set us \<subseteq> set (re_targets env) \<Longrightarrow> st_target ` set es \<subseteq> set (re_targets env)"
proof (induction rule: created_forest.inducts)
  case (created_proc t p n es1 n' es2 n'' e)
  then show ?case using leading_in_targets [of env t] by auto
qed auto

text \<open>
  A root \<open>t\<close> that creates the other independent roots, too.
\<close>

definition whole :: "restart_env \<Rightarrow> target \<Rightarrow> rproc \<Rightarrow> pid_t \<Rightarrow> started list \<Rightarrow> pid_t \<Rightarrow> bool" where
  "whole env t p n es n'' \<longleftrightarrow> (\<exists>es1 es2 n'. es = es1 @ es2 \<and>
     forest env t p n (filter (\<lambda>u. u \<noteq> t) (filter (independent (re_targets env)) (re_targets env))) es1 n' \<and>
     created env n' t p es2 n'')"

lemma create_roots_makes:
  assumes "restartable (re_targets env)" and "all_calls_work env" and "fresh p (rs_next s)"
    and t: "t \<in> set (re_targets env)"
  shows "\<exists>N. \<forall>n \<ge> N. makes (create_process n env (filter (independent (re_targets env)) (re_targets env)) t True p) (whole env t p) s"
proof -
  let ?ts = "re_targets env" and ?roots = "filter (independent (re_targets env)) (re_targets env)"
  obtain rank :: "target \<Rightarrow> nat" where rank: "\<forall>t \<in> set ?ts. \<forall>u \<in> set ?ts.
      u \<noteq> t \<and> (was_parent_of t u \<or> was_session_leader_of t u) \<longrightarrow> rank t < rank u"
    using restartable_parts(6) [OF assms(1)] by blast
  have ranked: "ranked env rank"
    unfolding ranked_def
  proof (intro ballI)
    fix t u assume "t \<in> set ?ts" "u \<in> set (before_leading env t) \<union> set (after_leading env t)"
    then show "rank t < rank u"
      using leads_before [OF assms(1), of t u] rank by (simp add: leads_def)
  qed
  define deep where "deep = Suc (Max (rank ` set ?ts))"
  have deep: "\<forall>u \<in> set ?ts. rank u < deep"
    by (simp add: deep_def less_Suc_eq_le)
  have "makes (create_process n env ?roots t True p) (whole env t p) s" if "Suc deep \<le> n" for n
  proof -
    from that obtain m where m: "n = Suc m" "deep \<le> m" by (metis Suc_le_D Suc_le_mono)
    have sub: "makes (create_process m env ?roots u False q) (\<lambda>n es n'. created env n u q es n') s'"
      if "u \<in> set ?ts" "fresh q (rs_next s')" for u q and s' :: rsys
      using that m(2) by (intro create_process_makes [OF assms(2) ranked deep]) auto
    have orphans: "makes (each (\<lambda>ir. if ir \<noteq> t then create_orphan (create_process m env ?roots) env p False ir else ret ()) ?roots)
        (\<lambda>n es n'. forest env t p n (filter (\<lambda>u. u \<noteq> t) ?roots) es n') s"
    proof (rule makes_each [OF _ _ order_refl])
      fix u and s' :: rsys assume u: "u \<in> set ?roots" "u \<noteq> t" "rs_next s \<le> rs_next s'"
      have "\<not> was_parent_of t u"
        using restartableD(1) [OF assms(1) t, of u] u(1) by (simp add: independent_def)
      moreover have "u \<in> set ?ts" using u(1) by simp
      ultimately have "makes (create_orphan (create_process m env ?roots) env p False u) (one_kid env t p u) s'"
        using assms(3) u(3) sub by (intro create_orphan_makes [OF assms(2)]) (auto simp: fresh_def)
      then show "makes (if u \<noteq> t then create_orphan (create_process m env ?roots) env p False u else ret ()) (one_kid env t p u) s'"
        using u(2) by simp
    qed simp
    have "makes (create_rest m env ?roots t p) (\<lambda>n es n'. created env n t p es n') s'" if "rs_next s \<le> rs_next s'" for s'
      using sub leading_in_targets [of env t] by (intro create_rest_makes [OF assms(2,3) that]) blast
    from makes_sq [OF orphans this] show ?thesis
      unfolding makes_def whole_def m(1) create_rest_def by simp
  qed
  then show ?thesis by blast
qed

text \<open>
  For a family of processes whose sessions were made by \<^verbatim>\<open>setsid\<close> and which has a root that was no
  orphan the restart ends, whatever the nesting, with one process for every target and all pids different.
  The parent of a process is the process of its parent, or pid 1 for a root (the first root that was no orphan
  keeps the parent it has); a session leader leads a session of its own, and every other process is in the
  session of the process of its leader, or in that of the restart if its leader is no target.
\<close>

theorem restart_creates_processes:
  assumes "restartable (re_targets env)" and "all_calls_work env" and "fresh p (rs_next s)" and "rs_started s = []"
    and "\<exists>t \<in> set (re_targets env). independent (re_targets env) t \<and> was_not_orphan t"
  shows "\<exists>N. \<forall>n \<ge> N. \<exists>s'. process_targets n env p s = Some (Inr (), s') \<and>
    mset (map st_target (rs_started s')) = mset (re_targets env) \<and>
    distinct (map (rp_pid \<circ> st_proc) (rs_started s')) \<and>
    (\<forall>e \<in> set (rs_started s'). parent_ok (rs_started s') e \<or>
       was_root_of_tree (st_target e) \<and> was_not_orphan (st_target e) \<and> rp_ppid (st_proc e) = rp_ppid p) \<and>
    (\<forall>e \<in> set (rs_started s'). session_ok (rs_started s') e \<or>
       (\<forall>t \<in> set (re_targets env). \<not> was_session_leader_of t (st_target e)) \<and> rp_sid (st_proc e) = rp_sid p)"
proof -
  let ?ts = "re_targets env"
  let ?roots = "filter (independent ?ts) ?ts"
  obtain t where t: "find was_not_orphan ?roots = Some t"
    using assms(5) by (cases "find was_not_orphan ?roots") (auto simp: find_None_iff)
  then have root: "t \<in> set ?ts" "independent ?ts t" "was_not_orphan t"
    by (auto simp: find_Some_iff dest: nth_mem)
  have start: "process_targets n env p s = create_process n env ?roots t True p s" for n
    using root t by (auto simp: process_targets_def independent_roots_filter [OF assms(1) subset_refl] bnd_def sq_def
        lift_res_def assert_p_def filter_empty_conv ret_def)
  obtain N where N: "\<And>n. N \<le> n \<Longrightarrow> makes (create_process n env ?roots t True p) (whole env t p) s"
    using create_roots_makes [OF assms(1-3) root(1)] by blast
  show ?thesis
  proof (intro exI [of _ N] allI impI)
    fix n assume "N \<le> n"
    from N [OF this] obtain s' es1 es2 n' where run: "create_process n env ?roots t True p s = Some (Inr (), s')"
        "rs_started s' = es1 @ es2" "forest env t p (rs_next s) (filter (\<lambda>u. u \<noteq> t) ?roots) es1 n'"
        "created env n' t p es2 (rs_next s')"
      unfolding makes_def whole_def using assms(4) by auto
    have low: "rp_pid p < rs_next s" using assms(3) by (simp add: fresh_def)
    have pids1: "rs_next s \<le> n'" "distinct (map (rp_pid \<circ> st_proc) es1)"
        "\<forall>e \<in> set es1. rs_next s \<le> rp_pid (st_proc e) \<and> rp_pid (st_proc e) < n'"
      using created_pids(2) [OF run(3)] by blast+
    then have pids2: "distinct (map (rp_pid \<circ> st_proc) es2)"
        "\<forall>e \<in> set es2. rp_pid (st_proc e) = rp_pid p \<or> n' \<le> rp_pid (st_proc e)"
      using created_pids(1) [OF run(4)] low by auto
    have "(rp_pid \<circ> st_proc) ` set es1 \<inter> (rp_pid \<circ> st_proc) ` set es2 = {}"
      using pids1(1,3) pids2(2) low by fastforce
    then have pids: "distinct (map (rp_pid \<circ> st_proc) (es1 @ es2))"
      using pids1(2) pids2(1) by (simp only: map_append distinct_append set_map)
    have "mset ?roots = {#t#} + mset (filter (\<lambda>u. u \<noteq> t) ?roots)"
      using root(1,2) restartable_distinct [OF assms(1)] by (intro multiset_eqI) (auto simp: count_mset count_distinct)
    then have "targets_of (es1 @ es2) = mset ?roots + led_targets env (es1 @ es2)"
      using created_targets(2) [OF run(3)] created_targets(1) [OF run(4)]
      by (simp only: map_append mset_append led_targets_simps ac_simps)
    moreover have "set_mset (targets_of (es1 @ es2)) \<subseteq> set ?ts"
      using created_in_targets(2) [OF run(3)] created_in_targets(1) [OF run(4) root(1)] by auto
    ultimately have once: "targets_of (es1 @ es2) = mset ?ts"
      unfolding led_targets_def by (intro each_target_once [OF assms(1)])
    obtain e0 where e0: "e0 \<in> set es2" "st_target e0 = t" "st_proc e0 = leader_proc t p"
      using created_own [OF run(4)] by blast
    have child: "parent_ok (es1 @ es2) e" if "was_parent_of t (st_target e)" "rp_ppid (st_proc e) = rp_pid p" for e
      unfolding parent_ok_def using that e0 by (intro disjI1 bexI [of _ e0]) auto
    have parents: "parent_ok (es1 @ es2) e \<or>
        was_root_of_tree (st_target e) \<and> was_not_orphan (st_target e) \<and> rp_ppid (st_proc e) = rp_ppid p"
      if "e \<in> set (es1 @ es2)" for e
    proof (cases "e \<in> set es1")
      case True
      have "\<forall>u \<in> set (filter (\<lambda>u. u \<noteq> t) ?roots). was_parent_of t u \<or> was_root_of_tree u"
        by (simp add: independent_def)
      from created_parents(2) [OF run(3) this] True
      show ?thesis
        using parent_ok_mono [of es1 e "es1 @ es2"] child by auto
    next
      case False
      then show ?thesis
        using created_parents(1) [OF run(4)] that root parent_ok_mono [of es2 e "es1 @ es2"] by (auto simp: independent_def)
    qed
    have alone: "\<forall>v \<in> set ?ts. \<not> was_session_leader_of v (st_target e)"
      if "independent ?ts u" "\<not> was_session_leader u" "target_sid (st_target e) = target_sid u" for u and e :: started
      using that by (auto simp: independent_def was_session_leader_of_def was_session_leader_def)
    have sessions: "session_ok (es1 @ es2) e \<or>
        (\<forall>v \<in> set ?ts. \<not> was_session_leader_of v (st_target e)) \<and> rp_sid (st_proc e) = rp_sid p"
      if "e \<in> set (es1 @ es2)" for e
    proof (cases "e \<in> set es1")
      case True
      have "set (filter (\<lambda>u. u \<noteq> t) ?roots) \<subseteq> set ?ts" by auto
      from created_sessions(2) [OF assms(1) run(3) this] True
      show ?thesis
        using session_ok_mono [of es1 e "es1 @ es2"] alone by fastforce
    next
      case False
      then show ?thesis
        using created_sessions(1) [OF assms(1) run(4) root(1)] that session_ok_mono [of es2 e "es1 @ es2"] alone [OF root(2)]
        by fastforce
    qed
    show "\<exists>s'. process_targets n env p s = Some (Inr (), s') \<and>
        mset (map st_target (rs_started s')) = mset ?ts \<and> distinct (map (rp_pid \<circ> st_proc) (rs_started s')) \<and>
        (\<forall>e \<in> set (rs_started s'). parent_ok (rs_started s') e \<or>
           was_root_of_tree (st_target e) \<and> was_not_orphan (st_target e) \<and> rp_ppid (st_proc e) = rp_ppid p) \<and>
        (\<forall>e \<in> set (rs_started s'). session_ok (rs_started s') e \<or>
           (\<forall>t \<in> set ?ts. \<not> was_session_leader_of t (st_target e)) \<and> rp_sid (st_proc e) = rp_sid p)"
      using run(1) once pids parents sessions unfolding start by (intro exI [of _ s']) (simp add: run(2))
  qed
qed

section \<open>Two computations\<close>

definition example_target :: "u32 \<Rightarrow> u32 \<Rightarrow> u32 \<Rightarrow> u32 \<Rightarrow> u32 \<Rightarrow> u32 \<Rightarrow> u32 \<Rightarrow> target" where
  "example_target pid ppid pgid sid xpid xppid root = \<lparr> t_header = \<lparr> h_magic = [], h_xnd_uuid = [], h_xnd_pid = xpid,
     h_xnd_ppid = xppid, h_xnd_pgid = 1, h_pid = pid, h_ppid = ppid, h_pgid = pgid, h_sid = sid, h_task_self = 0, h_host_self = 0,
     h_num_peers = 0, h_is_root_of_tree = root, h_entry_count = 0, h_region_count = 0,
     h_shared_cache_info = \<lparr> sc_base = 0, sc_size = 0, sc_uuid = [] \<rparr> \<rparr>, t_ckptpath = ''c'', t_xnd_pid = xpid \<rparr>"

definition example_env :: "target list \<Rightarrow> restart_env" where
  "example_env ts = \<lparr> re_fork = (\<lambda>_. True), re_setflags = (\<lambda>_. 0), re_spawn = (\<lambda>_. 0), re_restart = ''r'', re_pause = False,
     re_targets = ts \<rparr>"

definition example_proc :: rproc where
  "example_proc = \<lparr> rp_pid = 100, rp_ppid = 99, rp_sid = 50, rp_pgid = 99 \<rparr>"

definition run_targets :: "target list \<Rightarrow> (u32 \<times> pid_t \<times> pid_t \<times> pid_t) list option" where
  "run_targets ts = (case process_targets 4 (example_env ts) example_proc \<lparr> rs_next = 101, rs_started = [] \<rparr> of
     Some (Inr (), s') \<Rightarrow> Some (map (\<lambda>e. (t_xnd_pid (st_target e), rp_pid (st_proc e), rp_ppid (st_proc e), rp_sid (st_proc e))) (rs_started s'))
   | _ \<Rightarrow> None)"

text \<open>A program that leads a session, its child, and a grandchild with a session of its own.\<close>

lemma restart_of_daemon:
  "run_targets [example_target 10 5 10 10 1 0 1, example_target 11 10 10 10 2 1 0, example_target 12 11 12 12 3 2 0] =
     Some [(3, 102, 101, 102), (2, 101, 100, 100), (1, 100, 99, 100)]"
  by code_simp

text \<open>
  Two programs that a shell started as a pipeline: both are roots, in the session of the shell, and the first
  leads the group of both. The second is created twice, as an independent root and as a member of the group.
\<close>

lemma pipeline_is_restarted_twice:
  "run_targets [example_target 10 5 10 5 1 0 1, example_target 11 5 10 5 2 0 1] =
     Some [(2, 102, 1, 50), (2, 104, 1, 50), (1, 100, 99, 50)]"
  by code_simp

text \<open>If every root was an orphan the process that creates them comes to an end it must not come to.\<close>

lemma restart_of_orphans_is_undefined:
  "map_option fst (process_targets 4 (example_env [example_target 10 1 10 10 1 0 1]) example_proc \<lparr> rs_next = 101, rs_started = [] \<rparr>) =
     Some (Inl Undefined)"
  by code_simp

end
