(* ===== verification/Spec2Isabelle.thy ===== *)
theory Spec2Isabelle
  imports Common Proc_List Pid_Table Path Io Ckptfile Env Coord_Props Image_Props File_Props Thread_Props Session Pid_Props
    Pthread_Wrappers Thread_Save Thread_Setup Macho_Props Restart_Props
begin

text \<open>
  XND checkpoints and restarts computations of several processes on macOS. A coordinator process
  (\<^verbatim>\<open>coordinator/xnd_coord.c\<close>) knows every process of a computation and its virtual ids. In every process a
  library that is loaded before the program puts wrappers in place of the functions of the system
  (\<^verbatim>\<open>wrappers/\<close>, \<^verbatim>\<open>pid/\<close>) and runs a checkpoint thread (\<^verbatim>\<open>thread_info.c\<close>), which talks to the coordinator
  (\<^verbatim>\<open>coordinator/xnd_coord_client.c\<close>), suspends the other threads with a signal, writes the memory of the process
  to a file (\<^verbatim>\<open>writeckpt.c\<close>, \<^verbatim>\<open>vm_checkpoint.c\<close>), and after a restart (\<^verbatim>\<open>xnd_restart.cpp\<close>, \<^verbatim>\<open>readckpt.c\<close>,
  \<^verbatim>\<open>vm_restore.c\<close>) puts memory, descriptors, signals and threads back. All paths here are below \<^verbatim>\<open>src/xnd\<close>
  unless they begin with \<^verbatim>\<open>include\<close>.

  Foundations. Prelude has the machine integers as words of their width, the ways in which C code does not
  return (abort, exit, undefined behaviour, a wait that never ends) and the results as sums. Prog has the
  commands of the model, state transformers that may run for ever, stop, or return, and a Hoare calculus for
  them. Encoding has decimal text and little-endian structures. A call of the system or of code that is
  not under \<^verbatim>\<open>src/\<close> is a field of a record of functions over a world; a theorem that needs
  one to behave as documented says so in a hypothesis or runs on a system defined for it
  (Kernel for files and memory, \<^verbatim>\<open>unix_os\<close> in Fd_Restore for descriptors, \<^verbatim>\<open>wire_os\<close> in Session for connections,
  \<^verbatim>\<open>sim_os\<close> in Coord_Props), and every such hypothesis has a witness.

  Theories and sources, in the order of the imports:

  \<^item> Common: \<^verbatim>\<open>include/common/leb128.h\<close>, \<^verbatim>\<open>byte_order.h\<close>, \<^verbatim>\<open>bits.h\<close>. The LEB128 codec and its round trip.
  \<^item> Proc_List: \<^verbatim>\<open>coordinator/proc_list.c\<close>. Doubly linked nodes on a heap, and their refinement to lists, also while
    nodes are freed during a traversal.
  \<^item> Pid_Table: \<^verbatim>\<open>virtual_id_table.h\<close>, \<^verbatim>\<open>pid/pid_table.cpp\<close>, \<^verbatim>\<open>pid/pid_table_common.cpp\<close>. The two-way table behind the
    locale \<^verbatim>\<open>id_table\<close>, and its content after a restart.
  \<^item> Io: \<^verbatim>\<open>util/io.c\<close>, \<^verbatim>\<open>syscall.h\<close>. The transfer loops; the locales \<^verbatim>\<open>byte_writer\<close> and \<^verbatim>\<open>byte_reader\<close> say what a partial
    transfer may do, and are interpreted on a regular file.
  \<^item> Path, Env: \<^verbatim>\<open>util/path.c\<close>, \<^verbatim>\<open>platform/exe.c\<close>, \<^verbatim>\<open>util/env.c\<close>. Bounded paths and the settings in the environment.
  \<^item> Ckptfile: \<^verbatim>\<open>ckptfile.c\<close>, \<^verbatim>\<open>shared_cache.c\<close>. Names, directories, manifest and header of a checkpoint.
  \<^item> Coord_Msg, Coord, Coord_Ckpt, Coord_Inv, Coord_Props: \<^verbatim>\<open>coordinator/xnd_coord_api.h\<close>, \<^verbatim>\<open>coordinator/xnd_coord.c\<close>.
    One command per function over one record for the globals; the log of messages gives the trace of the
    two-phase checkpoint; the invariant of virtual pids is kept by every handler and established again by
    a restart, of which \<^verbatim>\<open>coord_restarting\<close> has the steps; the phases of a checkpoint end when the processes answer.
  \<^item> Coord_Client, Session: \<^verbatim>\<open>coordinator/xnd_coord_api.c\<close>, \<^verbatim>\<open>coordinator/xnd_coord_client.c\<close>, \<^verbatim>\<open>util/fd.c\<close>. The side of a
    process, and both sides together: what one sends the other gets, and both agree afterwards.
  \<^item> Vm, Image, Kernel, Image_Roundtrip, Image_Restore, Image_Props: \<^verbatim>\<open>vm_region.h\<close>, \<^verbatim>\<open>vm_checkpoint.c\<close>,
    \<^verbatim>\<open>vm_common.c\<close>, \<^verbatim>\<open>vm_restore.c\<close>, \<^verbatim>\<open>writeckpt.c\<close>, \<^verbatim>\<open>readckpt.c\<close>. Choosing, writing, mapping and refilling regions; what is read back
    is what was in memory; the rare paths that go wrong.
  \<^item> Fd_Table, Fd_Restore, Fd_Props, File_Wrappers, File_Props: \<^verbatim>\<open>fd_table.c\<close>, \<^verbatim>\<open>wrappers/file_wrappers.c\<close>. The table of open
    files with its reference counts, the wrappers that keep it, and a restart that opens everything again.
  \<^item> Thread_Info: \<^verbatim>\<open>thread_info.h\<close>, \<^verbatim>\<open>xnd_lib.h\<close>, \<^verbatim>\<open>interpose.h\<close>, \<^verbatim>\<open>tls.h\<close>. Thread states and the sections of wrappers.
  \<^item> Thread_Sched, Thread_Safety, Thread_Live, Thread_Props: \<^verbatim>\<open>thread_info.c\<close> as an interleaving of atomic steps. While the image is written
    all threads are in the handler; a restart lets every thread go; three schedules on which the code fails.
  \<^item> Thread_Save, Thread_Setup: the sequential rest of \<^verbatim>\<open>thread_info.c\<close>. Thread-local storage, masks and stacks; setting up,
    giving up and forking the lists.
  \<^item> Signals, Pac: \<^verbatim>\<open>wrappers/signal_wrappers.c\<close>, \<^verbatim>\<open>platform/signal.c\<close>, \<^verbatim>\<open>pac.c\<close>, \<^verbatim>\<open>pac.h\<close>, \<^verbatim>\<open>tls.c\<close>. Dispositions, the reserved signal,
    and pointers with an authentication code.
  \<^item> Stdlib_Wrappers, Pthread_Wrappers, Time_Wrappers, Pid_Wrappers, Pid_Props: \<^verbatim>\<open>wrappers/stdlib_wrappers.c\<close>,
    \<^verbatim>\<open>wrappers/pthread_wrappers.c\<close>, \<^verbatim>\<open>wrappers/time_wrappers.c\<close> with \<^verbatim>\<open>include/common/time.h\<close>, \<^verbatim>\<open>pid/pid_wrappers.c\<close>.
  \<^item> Restart, Restart_Props: \<^verbatim>\<open>xnd_restart.cpp\<close>, \<^verbatim>\<open>xnd_restart.h\<close>. The tree of processes of a checkpoint is created again,
    every process once, with its parent and its session.
  \<^item> Macho, Macho_Parse, Macho_Props: \<^verbatim>\<open>platform/macho.c\<close>, \<^verbatim>\<open>platform/xnd_macho_parse.c\<close>. Reading executables ends on every file.

  What the lemmas show. For sequential components: the function of each operation on every branch,
  with the state it leaves when it fails; invariants and their preservation (the reference counts of
  descriptors, the pid table, the reserved signal, the agreement of table and kernel); refinement of pointer code
  to lists; round trips of codecs, manifest, image, descriptors, dispositions and thread state. For the
  concurrent and distributed parts: an invariant over all interleavings of a checkpoint, a bound on the steps of
  the barrier of a restart, the trace of a checkpoint in the log of the coordinator, and the exchanges of client and
  coordinator. Where the code does not do what it means to, a theorem shows the run or the state.

  Loops. Structural recursion where the loop runs over data; \<^verbatim>\<open>function\<close> with a measure for the encoders;
  \<^verbatim>\<open>partial_function\<close> for loops that the code does not bound (transfers, the main loop of the coordinator, lists on
  the heap, frames of a stack, opcodes, regions), for which returning is proved as such where it is claimed:
  Io, Proc_List, Pac, Macho_Props, Coord_Props. A client tries to connect at most 100 times, as the
  code does. The only fuel is the nesting of processes in \<^verbatim>\<open>create_process\<close>; it is enough
  from some number on, as \<^verbatim>\<open>restart_creates_processes\<close> states.

  Simplifications. Memory is exhausted only where the code handles it. A lock in the sequential theories is
  the caller's or free, and a wait that nobody ends is \<^verbatim>\<open>Blocked\<close>. The interleaving model has sequentially
  consistent atomic steps between accesses to shared variables. Text that is only printed is left out.

  Not modelled: \<^verbatim>\<open>xnd_print.c\<close> and \<^verbatim>\<open>util/log.c\<close>, \<^verbatim>\<open>util/debug.c\<close> (output only); \<^verbatim>\<open>segpatch.c\<close> (a tool for development); \<^verbatim>\<open>xnd_launch.c\<close>,
  \<^verbatim>\<open>xnd_command.c\<close> and the options of the other programs (arguments, then one call that is modelled or \<^verbatim>\<open>exec\<close>);
  \<^verbatim>\<open>xnd_restart_internal.c\<close>, \<^verbatim>\<open>mach_trap.c\<close> and \<^verbatim>\<open>platform/ucontext\<close> (assembly, jumping to a saved context);
  \<^verbatim>\<open>util/compress.c\<close> (loops around zlib); most of \<^verbatim>\<open>xnd_lib.c\<close> (the order in which the parts are set up); the tests.
\<close>

end
